(* ===== verification/Prelude.thy ===== *)
theory Prelude
  imports Main "HOL-Library.Word" "HOL-Library.Monad_Syntax"
begin

text \<open>
  Shared vocabulary of the development: the machine integers of the C sources, the memory
  operations they perform on fixed-size byte arrays, and the list and word lemmas that the
  component theories share.

  An access of the C code outside an array is undefined behaviour; here it is the value
  \<open>None\<close>, so that a theorem which says that an operation returns \<open>Some\<close> also says that it
  never leaves its buffers.
\<close>

unbundle bit_operations_syntax

section \<open>Machine integers\<close>

type_synonym byte = "8 word"
type_synonym u16 = "16 word"
type_synonym u32 = "32 word"
type_synonym u64 = "64 word"

text \<open>
  \<open>size_t\<close> is a 64-bit unsigned type: a subtraction that would be negative wraps around.
\<close>

definition size_sub :: "nat \<Rightarrow> nat \<Rightarrow> nat" where
  "size_sub a b = (if b \<le> a then a - b else 2 ^ 64 + a - b)"

lemma size_sub_le [simp]: "b \<le> a \<Longrightarrow> size_sub a b = a - b"
  by (simp add: size_sub_def)

section \<open>Byte arrays\<close>

text \<open>\<open>memcpy (dst + off, src, |src|)\<close> on an array \<open>dst\<close> of known size.\<close>

definition memcpy :: "'a list \<Rightarrow> nat \<Rightarrow> 'a list \<Rightarrow> 'a list option" where
  "memcpy dst off src =
     (if off + length src \<le> length dst
      then Some (take off dst @ src @ drop (off + length src) dst) else None)"

text \<open>\<open>memset (dst + off, v, n)\<close>.\<close>

definition memset :: "'a list \<Rightarrow> nat \<Rightarrow> 'a \<Rightarrow> nat \<Rightarrow> 'a list option" where
  "memset dst off v n = memcpy dst off (replicate n v)"

text \<open>Reading \<open>n\<close> bytes at \<open>off\<close>.\<close>

definition mem_read :: "'a list \<Rightarrow> nat \<Rightarrow> nat \<Rightarrow> 'a list option" where
  "mem_read src off n = (if off + n \<le> length src then Some (take n (drop off src)) else None)"

lemma memcpy_ok [simp]:
  "off + length src \<le> length dst \<Longrightarrow>
     memcpy dst off src = Some (take off dst @ src @ drop (off + length src) dst)"
  by (simp add: memcpy_def)

lemma memcpy_SomeD:
  "memcpy dst off src = Some d \<Longrightarrow>
     off + length src \<le> length dst \<and> length d = length dst \<and>
     d = take off dst @ src @ drop (off + length src) dst"
  by (auto simp: memcpy_def split: if_splits)

lemma memcpy_None_iff: "memcpy dst off src = None \<longleftrightarrow> length dst < off + length src"
  by (auto simp: memcpy_def)

lemma memset_ok [simp]:
  "off + n \<le> length dst \<Longrightarrow>
     memset dst off v n = Some (take off dst @ replicate n v @ drop (off + n) dst)"
  by (simp add: memset_def)

lemma mem_read_ok [simp]:
  "off + n \<le> length src \<Longrightarrow> mem_read src off n = Some (take n (drop off src))"
  by (simp add: mem_read_def)

section \<open>Lists\<close>

text \<open>Cutting a list into consecutive pieces of a fixed size; a last short piece is dropped.\<close>

fun chunks :: "nat \<Rightarrow> 'a list \<Rightarrow> 'a list list" where
  "chunks n xs = (if n = 0 \<or> length xs < n then [] else take n xs # chunks n (drop n xs))"

declare chunks.simps [simp del]

lemma chunks_short: "length xs < n \<Longrightarrow> chunks n xs = []"
  by (subst chunks.simps) simp

lemma chunks_Cons:
  "0 < n \<Longrightarrow> length xs = n \<Longrightarrow> chunks n (xs @ ys) = xs # chunks n ys"
  by (subst chunks.simps) simp

lemma length_chunks: "0 < n \<Longrightarrow> length (chunks n xs) = length xs div n"
proof (induction n xs rule: chunks.induct)
  case (1 n xs)
  show ?case
  proof (cases "length xs < n")
    case True
    then show ?thesis by (simp add: chunks_short)
  next
    case False
    with 1 have "length (chunks n (drop n xs)) = length (drop n xs) div n" by simp
    with False 1(2) show ?thesis
      by (simp add: chunks.simps [of n xs] div_if [of "length xs" n])
  qed
qed

lemma set_chunks_length: "x \<in> set (chunks n xs) \<Longrightarrow> length x = n"
proof (induction n xs rule: chunks.induct)
  case (1 n xs)
  then show ?case
    by (auto simp: chunks.simps [of n xs] split: if_splits)
qed

lemma concat_chunks: "concat (chunks n xs) = take (n * (length xs div n)) xs"
proof (induction n xs rule: chunks.induct)
  case (1 n xs)
  show ?case
  proof (cases "n = 0 \<or> length xs < n")
    case True
    then show ?thesis by (auto simp: chunks.simps [of n xs])
  next
    case False
    then have n: "0 < n" "n \<le> length xs" by auto
    have "concat (chunks n xs) = take n xs @ take (n * ((length xs - n) div n)) (drop n xs)"
      using 1 False by (simp add: chunks.simps [of n xs])
    also have "\<dots> = take (n + n * ((length xs - n) div n)) xs"
      by (simp add: take_add)
    also have "n + n * ((length xs - n) div n) = n * (length xs div n)"
      using n by (simp add: div_if [of "length xs" n])
    finally show ?thesis .
  qed
qed

text \<open>Indexing a concatenation of pieces of equal length.\<close>

lemma length_concat_map:
  "(\<And>i. i < m \<Longrightarrow> length (f i) = c) \<Longrightarrow> length (concat (map f [0..<m])) = m * c"
  by (induction m) simp_all

lemma nth_concat_map:
  "(\<And>i. i < m \<Longrightarrow> length (f i) = c) \<Longrightarrow> k < m * c \<Longrightarrow>
     concat (map f [0..<m]) ! k = f (k div c) ! (k mod c)"
proof (induction m)
  case (Suc m)
  have len: "length (concat (map f [0..<m])) = m * c"
    using Suc.prems(1) by (intro length_concat_map) simp
  show ?case
  proof (cases "k < m * c")
    case True
    then show ?thesis using Suc len by (simp add: nth_append)
  next
    case False
    then have d: "k div c = m"
      using Suc.prems(2) by (intro div_nat_eqI) (auto simp: mult.commute)
    then have "k mod c = k - m * c"
      by (simp add: modulo_nat_def mult.commute)
    with d show ?thesis using False Suc.prems(1) [of m] len by (simp add: nth_append)
  qed
qed simp

lemma nth_concat_eq:
  "\<forall>x \<in> set h. length x = k \<Longrightarrow> i < length h \<Longrightarrow> j < k \<Longrightarrow> concat h ! (k * i + j) = h ! i ! j"
proof (induction h arbitrary: i)
  case (Cons x h)
  then show ?case
    by (cases i) (auto simp: nth_append)
qed simp

lemma length_concat_eq: "\<forall>x \<in> set h. length x = k \<Longrightarrow> length (concat h) = k * length h"
  by (induction h) simp_all

text \<open>A list of known length by its elements.\<close>

lemma list4E:
  assumes "length m = 4"
  obtains a b c d where "m = [a, b, c, d]"
  using assms by (auto simp: numeral_eq_Suc length_Suc_conv)

section \<open>Bits of words\<close>

text \<open>
  Facts about the bits of a word of known width are checked position by position over
  these literal lists.
\<close>

lemma upt_8: "[0..<8] = [0, 1, 2, 3, 4, 5, 6, 7]"
  by code_simp

lemma upt_16: "[0..<16] = [0, 1, 2, 3, 4, 5, 6, 7, 8, 9, 10, 11, 12, 13, 14, 15]"
  "[16..<32] = [16, 17, 18, 19, 20, 21, 22, 23, 24, 25, 26, 27, 28, 29, 30, 31]"
  by code_simp+

lemma upt_32: "[0..<32] = [0, 1, 2, 3, 4, 5, 6, 7, 8, 9, 10, 11, 12, 13, 14, 15, 16, 17, 18, 19,
   20, 21, 22, 23, 24, 25, 26, 27, 28, 29, 30, 31]"
  by code_simp

lemma upt_64: "[0..<64] = [0, 1, 2, 3, 4, 5, 6, 7, 8, 9, 10, 11, 12, 13, 14, 15, 16, 17, 18, 19,
   20, 21, 22, 23, 24, 25, 26, 27, 28, 29, 30, 31, 32, 33, 34, 35, 36, 37, 38, 39,
   40, 41, 42, 43, 44, 45, 46, 47, 48, 49, 50, 51, 52, 53, 54, 55, 56, 57, 58, 59,
   60, 61, 62, 63]"
  by code_simp

lemma bit_beyond:
  "32 \<le> n \<Longrightarrow> \<not> bit (x :: u32) n" "64 \<le> n \<Longrightarrow> \<not> bit (y :: u64) n" "8 \<le> n \<Longrightarrow> \<not> bit (b :: byte) n"
  by (auto dest: bit_imp_le_length)

text \<open>Addition without carries.\<close>

lemma word_add_or:
  fixes a b :: "'a::len word"
  assumes "\<And>i. i < LENGTH('a) \<Longrightarrow> bit a i \<Longrightarrow> \<not> bit b i"
  shows "a + b = a OR b"
  by (rule disjunctive_add_eq_or, rule bit_word_eqI) (use assms in \<open>auto simp: bit_and_iff\<close>)

end
