(* ===== verification/Sph_Types.thy ===== *)
theory Sph_Types
  imports Prelude
begin

text \<open>
  The word and byte primitives of \<open>src/src/sph_types.h\<close> on which the three hash functions of
  the proof of work are built: rotation, byte swapping, and the little- and big-endian
  encodings. The header chooses a body by preprocessor tests. The portable bodies (bytes and
  shifts) are the definitions named as in the header; the bodies of the little-endian targets
  (a native load or store, with a byte swap for the big-endian functions) are the
  definitions ending in \<open>_native\<close>. The lemmas show that the two agree, so that every
  later theory uses the portable ones.
\<close>

section \<open>Rotation\<close>

text \<open>\<open>SPH_T32\<close> and \<open>SPH_T64\<close> mask to the width, which a \<open>word\<close> of that width has anyway.\<close>

definition SPH_ROTL32 :: "u32 \<Rightarrow> nat \<Rightarrow> u32" where
  "SPH_ROTL32 x n = push_bit n x OR drop_bit (32 - n) x"

definition SPH_ROTL64 :: "u64 \<Rightarrow> nat \<Rightarrow> u64" where
  "SPH_ROTL64 x n = push_bit n x OR drop_bit (64 - n) x"

lemma mod_add_sub_eq:
  fixes k n w :: nat
  assumes "k < w" "n < w"
  shows "(k + w - n) mod w = (if n \<le> k then k - n else k + w - n)"
  using assms by (auto simp: mod_if)

lemma bit_word_rotl:
  fixes x :: "'a::len word"
  assumes "k < LENGTH('a)" and "n < LENGTH('a)"
  shows "bit (word_rotl n x) k \<longleftrightarrow> bit x (if n \<le> k then k - n else LENGTH('a) + k - n)"
  using assms mod_add_sub_eq [OF assms]
  by (simp add: bit_word_rotl_iff add.commute)

lemma SPH_ROTL64_word_rotl: "n < 64 \<Longrightarrow> SPH_ROTL64 x n = word_rotl n x"
  by (rule bit_word_eqI)
    (auto simp: SPH_ROTL64_def bit_word_rotl bit_or_iff bit_push_bit_iff bit_drop_bit_eq
      dest: bit_imp_le_length)

lemma SPH_ROTL32_word_rotl: "n < 32 \<Longrightarrow> SPH_ROTL32 x n = word_rotl n x"
  by (rule bit_word_eqI)
    (auto simp: SPH_ROTL32_def bit_word_rotl bit_or_iff bit_push_bit_iff bit_drop_bit_eq
      dest: bit_imp_le_length)

section \<open>Byte swapping\<close>

definition sph_bswap32 :: "u32 \<Rightarrow> u32" where
  "sph_bswap32 x =
     (let x = push_bit 16 x OR drop_bit 16 x
      in drop_bit 8 (x AND 0xFF00FF00) OR push_bit 8 (x AND 0x00FF00FF))"

definition sph_bswap64 :: "u64 \<Rightarrow> u64" where
  "sph_bswap64 x =
     (let x = push_bit 32 x OR drop_bit 32 x;
          x = drop_bit 16 (x AND 0xFFFF0000FFFF0000) OR push_bit 16 (x AND 0x0000FFFF0000FFFF)
      in drop_bit 8 (x AND 0xFF00FF00FF00FF00) OR push_bit 8 (x AND 0x00FF00FF00FF00FF))"

section \<open>Encoders and decoders, portable bodies\<close>

definition sph_enc16be :: "u32 \<Rightarrow> byte list" where
  "sph_enc16be val = [ucast (drop_bit 8 val), ucast val]"

definition sph_enc16le :: "u32 \<Rightarrow> byte list" where
  "sph_enc16le val = [ucast val, ucast (drop_bit 8 val)]"

definition sph_dec16be :: "byte list \<Rightarrow> u32" where
  "sph_dec16be src = push_bit 8 (ucast (src ! 0)) OR ucast (src ! 1)"

definition sph_dec16le :: "byte list \<Rightarrow> u32" where
  "sph_dec16le src = ucast (src ! 0) OR push_bit 8 (ucast (src ! 1))"

definition sph_enc32be :: "u32 \<Rightarrow> byte list" where
  "sph_enc32be val =
     [ucast (drop_bit 24 val), ucast (drop_bit 16 val), ucast (drop_bit 8 val), ucast val]"

definition sph_enc32le :: "u32 \<Rightarrow> byte list" where
  "sph_enc32le val =
     [ucast val, ucast (drop_bit 8 val), ucast (drop_bit 16 val), ucast (drop_bit 24 val)]"

definition sph_dec32be :: "byte list \<Rightarrow> u32" where
  "sph_dec32be src =
     push_bit 24 (ucast (src ! 0)) OR push_bit 16 (ucast (src ! 1))
     OR push_bit 8 (ucast (src ! 2)) OR ucast (src ! 3)"

definition sph_dec32le :: "byte list \<Rightarrow> u32" where
  "sph_dec32le src =
     ucast (src ! 0) OR push_bit 8 (ucast (src ! 1))
     OR push_bit 16 (ucast (src ! 2)) OR push_bit 24 (ucast (src ! 3))"

definition sph_enc64be :: "u64 \<Rightarrow> byte list" where
  "sph_enc64be val =
     [ucast (drop_bit 56 val), ucast (drop_bit 48 val), ucast (drop_bit 40 val),
      ucast (drop_bit 32 val), ucast (drop_bit 24 val), ucast (drop_bit 16 val),
      ucast (drop_bit 8 val), ucast val]"

definition sph_enc64le :: "u64 \<Rightarrow> byte list" where
  "sph_enc64le val =
     [ucast val, ucast (drop_bit 8 val), ucast (drop_bit 16 val), ucast (drop_bit 24 val),
      ucast (drop_bit 32 val), ucast (drop_bit 40 val), ucast (drop_bit 48 val),
      ucast (drop_bit 56 val)]"

definition sph_dec64be :: "byte list \<Rightarrow> u64" where
  "sph_dec64be src =
     push_bit 56 (ucast (src ! 0)) OR push_bit 48 (ucast (src ! 1))
     OR push_bit 40 (ucast (src ! 2)) OR push_bit 32 (ucast (src ! 3))
     OR push_bit 24 (ucast (src ! 4)) OR push_bit 16 (ucast (src ! 5))
     OR push_bit 8 (ucast (src ! 6)) OR ucast (src ! 7)"

definition sph_dec64le :: "byte list \<Rightarrow> u64" where
  "sph_dec64le src =
     ucast (src ! 0) OR push_bit 8 (ucast (src ! 1))
     OR push_bit 16 (ucast (src ! 2)) OR push_bit 24 (ucast (src ! 3))
     OR push_bit 32 (ucast (src ! 4)) OR push_bit 40 (ucast (src ! 5))
     OR push_bit 48 (ucast (src ! 6)) OR push_bit 56 (ucast (src ! 7))"

section \<open>Bodies of the little-endian targets\<close>

text \<open>
  A native store of a little-endian machine puts the low byte first; \<open>*(sph_u32 *)dst = val\<close>
  and \<open>*(const sph_u32 *)src\<close> are these two, and likewise for 64 bits.
\<close>

definition native_store32 :: "u32 \<Rightarrow> byte list" where
  "native_store32 val = map (\<lambda>i. ucast (drop_bit (8 * i) val)) [0..<4]"

definition native_store64 :: "u64 \<Rightarrow> byte list" where
  "native_store64 val = map (\<lambda>i. ucast (drop_bit (8 * i) val)) [0..<8]"

definition native_load32 :: "byte list \<Rightarrow> u32" where
  "native_load32 src = word_rcat (rev (take 4 src))"

definition native_load64 :: "byte list \<Rightarrow> u64" where
  "native_load64 src = word_rcat (rev (take 8 src))"

definition sph_enc32be_native :: "u32 \<Rightarrow> byte list" where
  "sph_enc32be_native val = native_store32 (sph_bswap32 val)"

definition sph_enc64be_native :: "u64 \<Rightarrow> byte list" where
  "sph_enc64be_native val = native_store64 (sph_bswap64 val)"

definition sph_dec32be_native :: "byte list \<Rightarrow> u32" where
  "sph_dec32be_native src = sph_bswap32 (native_load32 src)"

definition sph_dec64be_native :: "byte list \<Rightarrow> u64" where
  "sph_dec64be_native src = sph_bswap64 (native_load64 src)"

section \<open>Lemmas\<close>

lemma length_enc [simp]:
  "length (sph_enc16be w) = 2" "length (sph_enc16le w) = 2"
  "length (sph_enc32be w) = 4" "length (sph_enc32le w) = 4"
  "length (sph_enc64be v) = 8" "length (sph_enc64le v) = 8"
  by (simp_all add: sph_enc16be_def sph_enc16le_def sph_enc32be_def sph_enc32le_def
      sph_enc64be_def sph_enc64le_def)

lemma less_8_cases:
  assumes "n < (8 :: nat)"
  obtains "n = 0" | "n = 1" | "n = 2" | "n = 3" | "n = 4" | "n = 5" | "n = 6" | "n = 7"
  using assms by linarith

text \<open>The bits of a little-endian value, for both widths.\<close>

lemma bit_byte_at:
  fixes b :: byte
  assumes "n div 8 = j"
  shows "bit (push_bit (8 * i) (ucast b :: 'a::len word)) n \<longleftrightarrow>
    n < LENGTH('a) \<and> i = j \<and> bit b (n mod 8)"
proof -
  have n: "n = 8 * j + n mod 8" using assms by (metis mult_div_mod_eq)
  have r: "n mod 8 < 8" by simp
  consider "i < j" | "i = j" | "j < i" by linarith
  then show ?thesis
  proof cases
    case 1
    then have "8 * i \<le> n" and "8 \<le> n - 8 * i" using n by linarith+
    with 1 show ?thesis by (auto simp: bit_simps dest!: bit_imp_le_length)
  next
    case 2
    then have "8 * i \<le> n" "n - 8 * i = n mod 8" using n by linarith+
    with 2 show ?thesis by (auto simp: bit_simps)
  next
    case 3
    then have "\<not> 8 * i \<le> n" using n r by linarith
    with 3 show ?thesis by (simp add: bit_simps)
  qed
qed

lemmas bit_byte_at_0 = bit_byte_at [where i = 0, simplified]

lemma bit_sph_dec64le:
  assumes n: "n < 64"
  shows "bit (sph_dec64le src) n \<longleftrightarrow> bit (src ! (n div 8)) (n mod 8)"
proof -
  have "n div 8 < 8" using n by simp
  then show ?thesis
    using n unfolding sph_dec64le_def
    by (cases rule: less_8_cases)
      (simp_all add: bit_or_iff bit_byte_at_0 [OF refl]
        bit_byte_at [of n _ 1, simplified] bit_byte_at [of n _ 2, simplified]
        bit_byte_at [of n _ 3, simplified] bit_byte_at [of n _ 4, simplified]
        bit_byte_at [of n _ 5, simplified] bit_byte_at [of n _ 6, simplified]
        bit_byte_at [of n _ 7, simplified])
qed


lemma less_4_cases:
  assumes "n < (4 :: nat)"
  obtains "n = 0" | "n = 1" | "n = 2" | "n = 3"
  using assms by linarith

lemma bit_sph_dec32le:
  assumes n: "n < 32"
  shows "bit (sph_dec32le src) n \<longleftrightarrow> bit (src ! (n div 8)) (n mod 8)"
proof -
  have "n div 8 < 4" using n by simp
  then show ?thesis
    using n unfolding sph_dec32le_def
    by (cases rule: less_4_cases)
      (simp_all add: bit_or_iff bit_byte_at_0 [OF refl]
        bit_byte_at [of n _ 1, simplified] bit_byte_at [of n _ 2, simplified]
        bit_byte_at [of n _ 3, simplified])
qed

lemma sph_enc64le_map: "sph_enc64le v = map (\<lambda>i. ucast (drop_bit (8 * i) v)) [0..<8]"
  by (simp add: sph_enc64le_def upt_rec)

lemma sph_enc32le_map: "sph_enc32le v = map (\<lambda>i. ucast (drop_bit (8 * i) v)) [0..<4]"
  by (simp add: sph_enc32le_def upt_rec)

text \<open>Big-endian is little-endian of the reversed bytes.\<close>

lemma sph_dec64be_rev: "length src = 8 \<Longrightarrow> sph_dec64be src = sph_dec64le (rev src)"
  by (simp add: sph_dec64be_def sph_dec64le_def rev_nth ac_simps)

lemma sph_dec32be_rev: "length src = 4 \<Longrightarrow> sph_dec32be src = sph_dec32le (rev src)"
  by (simp add: sph_dec32be_def sph_dec32le_def rev_nth ac_simps)

lemma sph_enc64be_rev: "sph_enc64be v = rev (sph_enc64le v)"
  by (simp add: sph_enc64be_def sph_enc64le_def)

lemma sph_enc32be_rev: "sph_enc32be v = rev (sph_enc32le v)"
  by (simp add: sph_enc32be_def sph_enc32le_def)

text \<open>Decoding what was encoded, and encoding what was decoded.\<close>

lemma sph_dec64le_enc64le: "sph_dec64le (sph_enc64le v) = v"
  by (rule bit_word_eqI)
    (simp add: bit_sph_dec64le sph_enc64le_map bit_simps div_less_iff_less_mult)

lemma sph_dec32le_enc32le: "sph_dec32le (sph_enc32le v) = v"
  by (rule bit_word_eqI)
    (simp add: bit_sph_dec32le sph_enc32le_map bit_simps div_less_iff_less_mult)

lemma sph_enc64le_dec64le:
  assumes "length src = 8"
  shows "sph_enc64le (sph_dec64le src) = src"
proof (rule nth_equalityI)
  fix i assume "i < length (sph_enc64le (sph_dec64le src))"
  then have i: "i < 8" by simp
  show "sph_enc64le (sph_dec64le src) ! i = src ! i"
    using i by (intro bit_word_eqI) (simp add: sph_enc64le_map bit_simps bit_sph_dec64le)
qed (simp add: assms)

lemma sph_enc32le_dec32le:
  assumes "length src = 4"
  shows "sph_enc32le (sph_dec32le src) = src"
proof (rule nth_equalityI)
  fix i assume "i < length (sph_enc32le (sph_dec32le src))"
  then have i: "i < 4" by simp
  show "sph_enc32le (sph_dec32le src) ! i = src ! i"
    using i by (intro bit_word_eqI) (simp add: sph_enc32le_map bit_simps bit_sph_dec32le)
qed (simp add: assms)

lemma sph_dec64be_enc64be: "sph_dec64be (sph_enc64be v) = v"
  by (simp add: sph_dec64be_rev sph_enc64be_rev sph_dec64le_enc64le)

text \<open>The bodies of the little-endian targets compute what the portable ones do.\<close>

lemma native_store_eq:
  "native_store64 v = sph_enc64le v" "native_store32 w = sph_enc32le w"
  by (simp_all add: native_store64_def sph_enc64le_map native_store32_def sph_enc32le_map)

lemma bit_horner_sum_byte:
  "bit (horner_sum uint 256 (ws :: byte list)) n \<longleftrightarrow> n div 8 < length ws \<and> bit (ws ! (n div 8)) (n mod 8)"
  using bit_horner_sum_uint_exp_iff [of ws n] by simp

lemma native_load64_eq: "8 \<le> length src \<Longrightarrow> native_load64 src = sph_dec64le src"
  by (rule bit_word_eqI)
    (simp add: native_load64_def word_rcat_def bit_sph_dec64le bit_word_of_int_iff
      bit_horner_sum_byte div_less_iff_less_mult)

lemma native_load32_eq: "4 \<le> length src \<Longrightarrow> native_load32 src = sph_dec32le src"
  by (rule bit_word_eqI)
    (simp add: native_load32_def word_rcat_def bit_sph_dec32le bit_word_of_int_iff
      bit_horner_sum_byte div_less_iff_less_mult)

lemma bit_sph_bswap64:
  assumes "n < 64"
  shows "bit (sph_bswap64 x) n \<longleftrightarrow> bit x (8 * (7 - n div 8) + n mod 8)"
proof -
  have "\<forall>n \<in> set [0..<64]. bit (sph_bswap64 x) n \<longleftrightarrow> bit x (8 * (7 - n div 8) + n mod 8)"
    by (simp add: upt_64 sph_bswap64_def Let_def bit_simps bit_beyond numeral_2_eq_2 [symmetric])
  with assms show ?thesis by simp
qed

lemma bit_sph_bswap32:
  assumes "n < 32"
  shows "bit (sph_bswap32 x) n \<longleftrightarrow> bit x (8 * (3 - n div 8) + n mod 8)"
proof -
  have "\<forall>n \<in> set [0..<32]. bit (sph_bswap32 x) n \<longleftrightarrow> bit x (8 * (3 - n div 8) + n mod 8)"
    by (simp add: upt_32 sph_bswap32_def Let_def bit_simps bit_beyond numeral_2_eq_2 [symmetric])
  with assms show ?thesis by simp
qed

lemma sph_enc64le_bswap: "sph_enc64le (sph_bswap64 v) = rev (sph_enc64le v)"
proof (rule nth_equalityI)
  fix i assume "i < length (sph_enc64le (sph_bswap64 v))"
  then have i: "i < 8" and "7 - i < 8" by simp_all
  then show "sph_enc64le (sph_bswap64 v) ! i = rev (sph_enc64le v) ! i"
    by (intro bit_word_eqI) (simp add: sph_enc64le_map rev_nth bit_simps bit_sph_bswap64)
qed simp

lemma sph_enc32le_bswap: "sph_enc32le (sph_bswap32 v) = rev (sph_enc32le v)"
proof (rule nth_equalityI)
  fix i assume "i < length (sph_enc32le (sph_bswap32 v))"
  then have i: "i < 4" and "3 - i < 4" by simp_all
  then show "sph_enc32le (sph_bswap32 v) ! i = rev (sph_enc32le v) ! i"
    by (intro bit_word_eqI) (simp add: sph_enc32le_map rev_nth bit_simps bit_sph_bswap32)
qed simp

lemma sph_encbe_native_eq:
  "sph_enc64be_native v = sph_enc64be v" "sph_enc32be_native w = sph_enc32be w"
  by (simp_all add: sph_enc64be_native_def sph_enc32be_native_def native_store_eq
      sph_enc64le_bswap sph_enc32le_bswap sph_enc64be_rev sph_enc32be_rev)

lemma sph_dec64be_native_eq:
  assumes "length src = 8"
  shows "sph_dec64be_native src = sph_dec64be src"
proof -
  have "sph_dec64be src = sph_dec64le (rev (sph_enc64le (sph_dec64le src)))"
    using assms by (simp add: sph_dec64be_rev sph_enc64le_dec64le)
  also have "\<dots> = sph_bswap64 (sph_dec64le src)"
    by (simp add: sph_enc64le_bswap [symmetric] sph_dec64le_enc64le)
  finally show ?thesis using assms by (simp add: sph_dec64be_native_def native_load64_eq)
qed

lemma sph_dec32be_native_eq:
  assumes "length src = 4"
  shows "sph_dec32be_native src = sph_dec32be src"
proof -
  have "sph_dec32be src = sph_dec32le (rev (sph_enc32le (sph_dec32le src)))"
    using assms by (simp add: sph_dec32be_rev sph_enc32le_dec32le)
  also have "\<dots> = sph_bswap32 (sph_dec32le src)"
    by (simp add: sph_enc32le_bswap [symmetric] sph_dec32le_enc32le)
  finally show ?thesis using assms by (simp add: sph_dec32be_native_def native_load32_eq)
qed

end
