(* ===== verification/Block_Stream.thy ===== *)
theory Block_Stream
  imports Sph_Types
begin

text \<open>
  The interface between a hash function's compression step and the clients that feed it data.
  The update functions \<open>keccak_core\<close>, \<open>jh_core\<close>, \<open>echo_small_core\<close> and
  \<open>echo_big_core\<close> buffer their input the same way: bytes are copied behind the fill pointer
  of a fixed array, and each time the array is full the compression step runs on it. The
  locale states that code once, as equations, with the accessors of the context and the
  compression step as parameters; every hash theory interprets it on its own record.

  The specification is \<open>absorb_blocks\<close>: a stream of bytes is a state and a rest shorter
  than a block. What the locale proves is that an update never leaves the array, returns, and
  computes that specification, whatever the sizes of the pieces the data arrives in.
\<close>

section \<open>The specification of an update\<close>

fun absorb_blocks :: "nat \<Rightarrow> ('s \<Rightarrow> byte list \<Rightarrow> 's) \<Rightarrow> 's \<Rightarrow> byte list \<Rightarrow> 's \<times> byte list" where
  "absorb_blocks blk f s d =
     (if blk = 0 \<or> length d < blk then (s, d)
      else absorb_blocks blk f (f s (take blk d)) (drop blk d))"

declare absorb_blocks.simps [simp del]

text \<open>Feeding several pieces one after the other, stopping at the first failure.\<close>

fun feed :: "('c \<Rightarrow> byte list \<Rightarrow> 'c option) \<Rightarrow> 'c \<Rightarrow> byte list list \<Rightarrow> 'c option" where
  "feed upd c [] = Some c"
| "feed upd c (d # ds) = Option.bind (upd c d) (\<lambda>c'. feed upd c' ds)"

text \<open>A whole computation of a digest: initialise a context, feed the pieces, close.\<close>

definition run_hash ::
  "('c \<Rightarrow> 'c) \<Rightarrow> ('c \<Rightarrow> byte list \<Rightarrow> 'c option) \<Rightarrow> ('c \<Rightarrow> (byte list \<times> 'c) option)
     \<Rightarrow> 'c \<Rightarrow> byte list list \<Rightarrow> byte list option"
where
  "run_hash init upd close cc ds =
     do {
       c \<leftarrow> feed upd (init cc) ds;
       (dst, _) \<leftarrow> close c;
       Some dst
     }"

text \<open>
  The last byte of a message whose length is not a multiple of 8 bits, in \<open>jh_close\<close> and in
  the close functions of \<open>echo.c\<close>: the \<open>n\<close> high bits of \<open>ub\<close>, then a one bit, then zeros.
\<close>

definition last_byte :: "u32 \<Rightarrow> nat \<Rightarrow> byte" where
  "last_byte ub n = (let z = drop_bit n (0x80 :: u32) in ucast (((ub AND - z) OR z) AND 0xFF))"

lemma bit_pad_words:
  "bit (0x100 :: u32) i \<longleftrightarrow> i = 8" "bit (0x80 :: u32) i \<longleftrightarrow> i = 7" "bit (0xFF :: u32) i \<longleftrightarrow> i < 8"
proof -
  have "(0x100 :: u32) = push_bit 8 1" "(0x80 :: u32) = push_bit 7 1" "(0xFF :: u32) = mask 8"
    by (simp_all add: mask_eq_exp_minus_1)
  then show "bit (0x100 :: u32) i \<longleftrightarrow> i = 8" "bit (0x80 :: u32) i \<longleftrightarrow> i = 7" "bit (0xFF :: u32) i \<longleftrightarrow> i < 8"
    by (simp_all only: bit_push_bit_iff bit_1_iff bit_mask_iff) auto
qed

lemma bit_last_byte:
  assumes "n < 8" "i < 8"
  shows "bit (last_byte ub n) i \<longleftrightarrow> i = 7 - n \<or> 7 - n < i \<and> bit ub i"
proof -
  have z: "drop_bit n (0x80 :: u32) = push_bit (7 - n) 1"
    using assms(1) by (intro bit_word_eqI) (auto simp: bit_drop_bit_eq bit_pad_words bit_exp_iff simp del: bit_numeral_word_iff)
  have "- push_bit (7 - n) (1 :: u32) = NOT (mask (7 - n))"
    by (simp add: minus_eq_not_minus_1 mask_eq_exp_minus_1 push_bit_eq_mult)
  then show ?thesis
    using assms unfolding last_byte_def Let_def z
    by (auto simp: bit_simps bit_pad_words(3) simp del: bit_numeral_word_iff)
qed

lemma absorb_blocks_short [simp]: "length d < blk \<Longrightarrow> absorb_blocks blk f s d = (s, d)"
  by (subst absorb_blocks.simps) simp

lemma absorb_blocks_block:
  "0 < blk \<Longrightarrow> length b = blk \<Longrightarrow> absorb_blocks blk f s (b @ d) = absorb_blocks blk f (f s b) d"
  by (subst absorb_blocks.simps) simp

lemma absorb_blocks_eq:
  "0 < blk \<Longrightarrow> absorb_blocks blk f s d =
     (foldl f s (chunks blk d), drop (blk * (length d div blk)) d)"
proof (induction blk f s d rule: absorb_blocks.induct)
  case (1 blk f s d)
  show ?case
  proof (cases "length d < blk")
    case True
    then show ?thesis by (simp add: chunks_short)
  next
    case False
    then have "blk * (length d div blk) = blk + blk * ((length d - blk) div blk)"
      using 1(2) by (simp add: div_if [of "length d" blk])
    moreover have "absorb_blocks blk f s d =
        (foldl f (f s (take blk d)) (chunks blk (drop blk d)),
         drop (blk * ((length d - blk) div blk)) (drop blk d))"
      using 1 False by (simp add: absorb_blocks.simps [of blk f s d])
    ultimately show ?thesis
      using False 1(2) by (simp add: chunks.simps [of blk d] add.commute)
  qed
qed

lemma absorb_blocks_rest: "0 < blk \<Longrightarrow> length (snd (absorb_blocks blk f s d)) < blk"
  by (simp add: absorb_blocks_eq minus_mult_div_eq_mod)

lemma absorb_blocks_append:
  "0 < blk \<Longrightarrow> absorb_blocks blk f s (x @ y) =
     (case absorb_blocks blk f s x of (s', r) \<Rightarrow> absorb_blocks blk f s' (r @ y))"
proof (induction blk f s x rule: absorb_blocks.induct)
  case (1 blk f s x)
  show ?case
  proof (cases "length x < blk")
    case True
    then show ?thesis by simp
  next
    case False
    then have "absorb_blocks blk f s (x @ y) = absorb_blocks blk f (f s (take blk x)) (drop blk x @ y)"
      using 1(2) by (simp add: absorb_blocks.simps [of blk f s "x @ y"])
    then show ?thesis
      using 1 False by (simp add: absorb_blocks.simps [of blk f s x])
  qed
qed

text \<open>A map that commutes with the compression step commutes with the whole update.\<close>

lemma absorb_blocks_sim:
  assumes "0 < blk"
    and step: "\<And>s b. ok s \<Longrightarrow> length b = blk \<Longrightarrow> ok (f s b) \<and> h (f s b) = g (h s) b"
  shows "ok s \<Longrightarrow> absorb_blocks blk f s d = (s', r) \<Longrightarrow>
    ok s' \<and> absorb_blocks blk g (h s) d = (h s', r)"
proof (induction "length d" arbitrary: s d rule: less_induct)
  case less
  show ?case
  proof (cases "length d < blk")
    case True
    with less.prems show ?thesis by simp
  next
    case False
    then have "absorb_blocks blk f (f s (take blk d)) (drop blk d) = (s', r)"
      using less.prems assms(1) by (simp add: absorb_blocks.simps [of blk f s d])
    moreover have "ok (f s (take blk d)) \<and> h (f s (take blk d)) = g (h s) (take blk d)"
      using False less.prems by (intro step) simp_all
    ultimately have "ok s' \<and> absorb_blocks blk g (g (h s) (take blk d)) (drop blk d) = (h s', r)"
      using less.hyps [of "drop blk d" "f s (take blk d)"] False assms(1) by simp
    then show ?thesis using False assms(1) by (simp add: absorb_blocks.simps [of blk g "h s" d])
  qed
qed

section \<open>The buffering code, stated once\<close>

locale block_stream =
  fixes blk :: nat
    and cap :: nat
    and buf :: "'c \<Rightarrow> byte list"
    and set_buf :: "byte list \<Rightarrow> 'c \<Rightarrow> 'c"
    and ptr :: "'c \<Rightarrow> nat"
    and set_ptr :: "nat \<Rightarrow> 'c \<Rightarrow> 'c"
    and st :: "'c \<Rightarrow> 's"
    and compress :: "'c \<Rightarrow> 'c"
    and f :: "'s \<Rightarrow> byte list \<Rightarrow> 's"
    and loop :: "'c \<Rightarrow> nat \<Rightarrow> byte list \<Rightarrow> ('c \<times> nat) option"
    and core :: "'c \<Rightarrow> byte list \<Rightarrow> 'c option"
  assumes blk_pos: "0 < blk"
    and blk_cap: "blk \<le> cap"
    and set_buf_simps: "buf (set_buf b c) = b" "st (set_buf b c) = st c"
    and set_ptr_simps: "buf (set_ptr p c) = buf c" "st (set_ptr p c) = st c" "ptr (set_ptr p c) = p"
    and compress_buf: "buf (compress c) = buf c"
    and compress_st: "length (buf c) = cap \<Longrightarrow> st (compress c) = f (st c) (take blk (buf c))"
    and loop_eq: "loop c p d =
      (if d = [] then Some (c, p)
       else let clen = min (size_sub blk p) (length d)
         in Option.bind (memcpy (buf c) p (take clen d)) (\<lambda>b.
            if p + clen = blk then loop (compress (set_buf b c)) 0 (drop clen d)
            else loop (set_buf b c) (p + clen) (drop clen d)))"
    and core_eq: "core c d =
      (if length d < size_sub blk (ptr c)
       then Option.bind (memcpy (buf c) (ptr c) d) (\<lambda>b. Some (set_ptr (ptr c + length d) (set_buf b c)))
       else Option.bind (loop c (ptr c) d) (\<lambda>(c', p). Some (set_ptr p c')))"
begin

definition ready :: "'c \<Rightarrow> bool" where
  "ready c \<longleftrightarrow> length (buf c) = cap \<and> ptr c < blk"

definition pending :: "'c \<Rightarrow> byte list" where
  "pending c = take (ptr c) (buf c)"

lemma loop_refines:
  "length (buf c) = cap \<Longrightarrow> p < blk \<Longrightarrow>
     \<exists>c' p'. loop c p d = Some (c', p') \<and> length (buf c') = cap \<and> p' < blk \<and>
       (st c', take p' (buf c')) = absorb_blocks blk f (st c) (take p (buf c) @ d)"
proof (induction "length d" arbitrary: c p d rule: less_induct)
  case less
  show ?case
  proof (cases "d = []")
    case True
    with less.prems show ?thesis by (simp add: loop_eq)
  next
    case False
    define clen where "clen = min (blk - p) (length d)"
    have clen: "0 < clen" "clen \<le> blk - p" "clen \<le> length d"
      using False less.prems by (auto simp: clen_def)
    define b where "b = take p (buf c) @ take clen d @ drop (p + clen) (buf c)"
    have cpy: "memcpy (buf c) p (take clen d) = Some b"
      using less.prems clen blk_cap by (simp add: b_def)
    have lb: "length b = cap" and tb: "take (p + clen) b = take p (buf c) @ take clen d"
      using less.prems clen blk_cap by (simp_all add: b_def)
    have step: "loop c p d =
        (if p + clen = blk then loop (compress (set_buf b c)) 0 (drop clen d)
         else loop (set_buf b c) (p + clen) (drop clen d))"
      using False less.prems cpy by (subst loop_eq) (simp add: Let_def clen_def)
    have dec: "length (drop clen d) < length d" using clen by simp
    have data: "take p (buf c) @ d = take (p + clen) b @ drop clen d" by (simp add: tb)
    show ?thesis
    proof (cases "p + clen = blk")
      case True
      have "st (compress (set_buf b c)) = f (st c) (take blk b)"
        using compress_st [of "set_buf b c"] lb by (simp add: set_buf_simps)
      moreover have "absorb_blocks blk f (st c) (take p (buf c) @ d) =
          absorb_blocks blk f (f (st c) (take blk b)) (drop clen d)"
        unfolding data True using lb blk_cap blk_pos by (simp add: absorb_blocks_block)
      ultimately show ?thesis
        using less.hyps [OF dec, of "compress (set_buf b c)" 0] lb blk_pos True step
        by (simp add: compress_buf set_buf_simps)
    next
      case False
      then have "p + clen < blk" using clen less.prems by linarith
      then show ?thesis
        using less.hyps [OF dec, of "set_buf b c" "p + clen"] lb step False data
        by (simp add: set_buf_simps)
    qed
  qed
qed

lemma core_refines:
  assumes "ready c"
  shows "\<exists>c'. core c d = Some c' \<and> ready c' \<and>
    (st c', pending c') = absorb_blocks blk f (st c) (pending c @ d)"
proof (cases "length d < blk - ptr c")
  case True
  have c: "length (buf c) = cap" "ptr c < blk" using assms by (auto simp: ready_def)
  define c' where "c' = set_ptr (ptr c + length d)
    (set_buf (take (ptr c) (buf c) @ d @ drop (ptr c + length d) (buf c)) c)"
  have "core c d = Some c'"
    using c True blk_cap by (simp add: core_eq c'_def)
  moreover have "ready c'" "pending c' = pending c @ d" "st c' = st c"
    using c True blk_cap by (auto simp: c'_def ready_def pending_def set_ptr_simps set_buf_simps)
  moreover have "length (pending c @ d) < blk"
    using c True blk_cap by (simp add: pending_def)
  ultimately show ?thesis by simp
next
  case False
  have c: "length (buf c) = cap" "ptr c < blk" using assms by (auto simp: ready_def)
  obtain c' p where l: "loop c (ptr c) d = Some (c', p)" "length (buf c') = cap" "p < blk"
    and a: "(st c', take p (buf c')) = absorb_blocks blk f (st c) (pending c @ d)"
    using loop_refines [OF c, of d] by (auto simp: pending_def)
  have "core c d = Some (set_ptr p c')"
    using c False l by (simp add: core_eq)
  moreover have "ready (set_ptr p c')" "pending (set_ptr p c') = take p (buf c')" "st (set_ptr p c') = st c'"
    using l by (auto simp: ready_def pending_def set_ptr_simps)
  ultimately show ?thesis using a by simp
qed

lemma feed_refines:
  "ready c \<Longrightarrow> \<exists>c'. feed core c ds = Some c' \<and> ready c' \<and>
    (st c', pending c') = absorb_blocks blk f (st c) (pending c @ concat ds)"
proof (induction ds arbitrary: c)
  case Nil
  then have "length (pending c) < blk" by (auto simp: ready_def pending_def)
  with Nil show ?case by simp
next
  case (Cons d ds)
  obtain c1 where c1: "core c d = Some c1" "ready c1"
    "absorb_blocks blk f (st c) (pending c @ d) = (st c1, pending c1)"
    using core_refines [OF Cons.prems, of d] by metis
  moreover obtain c2 where "feed core c1 ds = Some c2" "ready c2"
    "(st c2, pending c2) = absorb_blocks blk f (st c1) (pending c1 @ concat ds)"
    using Cons.IH [OF c1(2)] by blast
  ultimately show ?case
    using absorb_blocks_append [OF blk_pos, of f "st c" "pending c @ d" "concat ds"] by simp
qed

lemma core_fills_block:
  assumes "ready c" and "length (pending c @ d) = blk * k" and "core c d = Some c'"
  shows "st c' = foldl f (st c) (chunks blk (pending c @ d))" and "pending c' = []" and "ptr c' = 0"
proof -
  have a: "(st c', pending c') = absorb_blocks blk f (st c) (pending c @ d)" "ready c'"
    using core_refines [OF assms(1), of d] assms(3) by auto
  then show "st c' = foldl f (st c) (chunks blk (pending c @ d))" and p: "pending c' = []"
    using assms(2) blk_pos by (simp_all add: absorb_blocks_eq)
  show "ptr c' = 0"
    using p a(2) blk_pos blk_cap by (auto simp: pending_def ready_def)
qed

lemma core_ptr:
  assumes "ready c"
  shows "\<exists>c'. core c d = Some c' \<and> ready c' \<and> ptr c' = (ptr c + length d) mod blk"
proof -
  obtain c' where c': "core c d = Some c'" "ready c'"
    "(st c', pending c') = absorb_blocks blk f (st c) (pending c @ d)"
    using core_refines [OF assms] by blast
  have len: "length (pending x) = ptr x" if "ready x" for x
    using that blk_cap by (simp add: ready_def pending_def)
  with c' assms have "ptr c' = length (snd (absorb_blocks blk f (st c) (pending c @ d)))"
    by (metis snd_conv)
  also have "\<dots> = (ptr c + length d) mod blk"
    using blk_pos
    by (simp add: absorb_blocks_eq length_drop minus_mult_div_eq_mod del: length_append drop_append)
      (simp add: len [OF assms])
  finally show ?thesis using c' by blast
qed

end

end
