(* ===== verification/Keccak.thy ===== *)
theory Keccak
  imports Block_Stream
begin

text \<open>
  The model of \<open>src/src/keccak.c\<close>: the permutation \<open>KECCAK_F_1600\<close> with its lane-complement and
  renaming optimisations, and the streaming functions \<open>keccak_init\<close>, \<open>keccak_core\<close>,
  \<open>keccak_close\<close> behind the \<open>sph_keccak*\<close> functions.

  The C file is compiled in one of three variants, which differ in what a lane of the state
  is: a 64-bit word (\<open>SPH_KECCAK_64\<close>), a pair of 32-bit words that hold the even and the odd
  bits (\<open>SPH_KECCAK_INTERLEAVE\<close>), or a pair that holds the low and the high half. The
  permutation is written with macros over lane operations and each variant defines these;
  here the operations are the fields of \<open>lane_ops\<close>, the macros are functions of it, and the
  three variants are \<open>wide_ops\<close>, \<open>interleaved_ops\<close> and \<open>narrow_ops\<close>.
\<close>

section \<open>Lane operations\<close>

record 'w lane_ops =
  XOR64 :: "'w \<Rightarrow> 'w \<Rightarrow> 'w"
  AND64 :: "'w \<Rightarrow> 'w \<Rightarrow> 'w"
  OR64 :: "'w \<Rightarrow> 'w \<Rightarrow> 'w"
  NOT64 :: "'w \<Rightarrow> 'w"
  ROL64 :: "'w \<Rightarrow> nat \<Rightarrow> 'w"
  RC :: "'w list"
  ZERO64 :: "'w"
  ONES64 :: "'w"
  READ64 :: "byte list \<Rightarrow> 'w"
  OUTPUT :: "nat \<Rightarrow> 'w list \<Rightarrow> byte list"

subsection \<open>64-bit lanes\<close>

definition RC_wide :: "u64 list" where
  "RC_wide =
    [0x0000000000000001, 0x0000000000008082, 0x800000000000808A,
     0x8000000080008000, 0x000000000000808B, 0x0000000080000001,
     0x8000000080008081, 0x8000000000008009, 0x000000000000008A,
     0x0000000000000088, 0x0000000080008009, 0x000000008000000A,
     0x000000008000808B, 0x800000000000008B, 0x8000000000008089,
     0x8000000000008003, 0x8000000000008002, 0x8000000000000080,
     0x000000000000800A, 0x800000008000000A, 0x8000000080008081,
     0x8000000000008080, 0x0000000080000001, 0x8000000080008008]"

text \<open>The output loop of \<open>DEFCLOSE\<close>, which writes whole lanes that cover \<open>d\<close> bytes.\<close>

definition output_wide :: "nat \<Rightarrow> u64 list \<Rightarrow> byte list" where
  "output_wide d wide = concat (map (\<lambda>j. sph_enc64le (wide ! j)) [0..<(d + 7) div 8])"

definition wide_ops :: "u64 lane_ops" where
  "wide_ops =
     \<lparr>XOR64 = (XOR), AND64 = (AND), OR64 = (OR), NOT64 = NOT, ROL64 = SPH_ROTL64,
      RC = RC_wide, ZERO64 = 0, ONES64 = 0xFFFFFFFFFFFFFFFF,
      READ64 = sph_dec64le, OUTPUT = output_wide\<rparr>"

subsection \<open>Pairs of 32-bit words\<close>

text \<open>
  A lane is the pair of its \<open>l\<close> and \<open>h\<close> variables. The table of the source lists \<open>high\<close>
  before \<open>low\<close>.
\<close>

type_synonym lane32 = "u32 \<times> u32"

definition RC_interleaved :: "lane32 list" where
  "RC_interleaved =
    [(0x00000001, 0x00000000), (0x00000000, 0x00000089), (0x00000000, 0x8000008B),
     (0x00000000, 0x80008080), (0x00000001, 0x0000008B), (0x00000001, 0x00008000),
     (0x00000001, 0x80008088), (0x00000001, 0x80000082), (0x00000000, 0x0000000B),
     (0x00000000, 0x0000000A), (0x00000001, 0x00008082), (0x00000000, 0x00008003),
     (0x00000001, 0x0000808B), (0x00000001, 0x8000000B), (0x00000001, 0x8000008A),
     (0x00000001, 0x80000081), (0x00000000, 0x80000081), (0x00000000, 0x80000008),
     (0x00000000, 0x00000083), (0x00000000, 0x80008003), (0x00000001, 0x80008088),
     (0x00000000, 0x80000088), (0x00000001, 0x00008000), (0x00000000, 0x80008082)]"

definition RC_narrow :: "lane32 list" where
  "RC_narrow =
    [(0x00000001, 0x00000000), (0x00008082, 0x00000000), (0x0000808A, 0x80000000),
     (0x80008000, 0x80000000), (0x0000808B, 0x00000000), (0x80000001, 0x00000000),
     (0x80008081, 0x80000000), (0x00008009, 0x80000000), (0x0000008A, 0x00000000),
     (0x00000088, 0x00000000), (0x80008009, 0x00000000), (0x8000000A, 0x00000000),
     (0x8000808B, 0x00000000), (0x0000008B, 0x80000000), (0x00008089, 0x80000000),
     (0x00008003, 0x80000000), (0x00008002, 0x80000000), (0x00000080, 0x80000000),
     (0x0000800A, 0x00000000), (0x8000000A, 0x80000000), (0x80008081, 0x80000000),
     (0x00008080, 0x80000000), (0x80000001, 0x00000000), (0x80008008, 0x80000000)]"

text \<open>\<open>delta_swap l k m\<close> is the step \<open>t = (l ^ (l >> k)) & m; l ^= t ^ (t << k)\<close>.\<close>

definition delta_swap :: "u32 \<Rightarrow> nat \<Rightarrow> u32 \<Rightarrow> u32" where
  "delta_swap l k m = (let t = (l XOR drop_bit k l) AND m in l XOR (t XOR push_bit k t))"

definition INTERLEAVE :: "lane32 \<Rightarrow> lane32" where
  "INTERLEAVE x =
     (let (l, h) = x;
          l = delta_swap l 1 0x22222222; h = delta_swap h 1 0x22222222;
          l = delta_swap l 2 0x0C0C0C0C; h = delta_swap h 2 0x0C0C0C0C;
          l = delta_swap l 4 0x00F000F0; h = delta_swap h 4 0x00F000F0;
          l = delta_swap l 8 0x0000FF00; h = delta_swap h 8 0x0000FF00;
          t = (l XOR push_bit 16 h) AND 0xFFFF0000
      in (l XOR t, h XOR drop_bit 16 t))"

definition UNINTERLEAVE :: "lane32 \<Rightarrow> lane32" where
  "UNINTERLEAVE x =
     (let (l, h) = x;
          t = (l XOR push_bit 16 h) AND 0xFFFF0000;
          l = l XOR t; h = h XOR drop_bit 16 t;
          l = delta_swap l 8 0x0000FF00; h = delta_swap h 8 0x0000FF00;
          l = delta_swap l 4 0x00F000F0; h = delta_swap h 4 0x00F000F0;
          l = delta_swap l 2 0x0C0C0C0C; h = delta_swap h 2 0x0C0C0C0C;
          l = delta_swap l 1 0x22222222; h = delta_swap h 1 0x22222222
      in (l, h))"

definition ROL64_odd1 :: "lane32 \<Rightarrow> lane32" where
  "ROL64_odd1 v = (let (l, h) = v; tmp = l in (push_bit 1 h OR drop_bit 31 h, tmp))"

definition ROL64_odd63 :: "lane32 \<Rightarrow> lane32" where
  "ROL64_odd63 v = (let (l, h) = v; tmp = push_bit 31 l OR drop_bit 1 l in (h, tmp))"

definition ROL64_odd :: "lane32 \<Rightarrow> nat \<Rightarrow> lane32" where
  "ROL64_odd v n =
     (let (l, h) = v; tmp = push_bit (n - 1) l OR drop_bit (33 - n) l
      in (push_bit n h OR drop_bit (32 - n) h, tmp))"

definition ROL64_even :: "lane32 \<Rightarrow> nat \<Rightarrow> lane32" where
  "ROL64_even v n =
     (let (l, h) = v
      in (push_bit n l OR drop_bit (32 - n) l, push_bit n h OR drop_bit (32 - n) h))"

text \<open>The macros \<open>ROL64_0\<close> to \<open>ROL64_63\<close> of the interleaved variant.\<close>

definition ROL64_interleaved :: "lane32 \<Rightarrow> nat \<Rightarrow> lane32" where
  "ROL64_interleaved v n =
     (if n = 0 then v else if n = 1 then ROL64_odd1 v else if n = 63 then ROL64_odd63 v
      else if even n then ROL64_even v (n div 2) else ROL64_odd v ((n + 1) div 2))"

definition ROL64_small :: "lane32 \<Rightarrow> nat \<Rightarrow> lane32" where
  "ROL64_small v n =
     (let (l, h) = v; tmp = push_bit n l OR drop_bit (32 - n) h
      in (tmp, push_bit n h OR drop_bit (32 - n) l))"

definition ROL64_32 :: "lane32 \<Rightarrow> lane32" where
  "ROL64_32 v = (let (l, h) = v; tmp = l in (h, tmp))"

definition ROL64_big :: "lane32 \<Rightarrow> nat \<Rightarrow> lane32" where
  "ROL64_big v n = (let (trl, trh) = ROL64_small v n in (trh, trl))"

text \<open>The macros \<open>ROL64_0\<close> to \<open>ROL64_63\<close> of the variant without interleaving.\<close>

definition ROL64_narrow :: "lane32 \<Rightarrow> nat \<Rightarrow> lane32" where
  "ROL64_narrow v n =
     (if n = 0 then v else if n < 32 then ROL64_small v n else if n = 32 then ROL64_32 v
      else ROL64_big v (n - 32))"

definition READ64_narrow :: "byte list \<Rightarrow> lane32" where
  "READ64_narrow b = (sph_dec32le b, sph_dec32le (drop 4 b))"

text \<open>The output loop of the 32-bit \<open>DEFCLOSE\<close> runs over the words of the un-interleaved lanes.\<close>

definition output_narrow :: "nat \<Rightarrow> lane32 list \<Rightarrow> byte list" where
  "output_narrow d ls =
     (let narrow = concat (map (\<lambda>(l, h). [l, h]) ls)
      in concat (map (\<lambda>j. sph_enc32le (narrow ! j)) [0..<(d + 3) div 4]))"

definition pair_map2 :: "(u32 \<Rightarrow> u32 \<Rightarrow> u32) \<Rightarrow> lane32 \<Rightarrow> lane32 \<Rightarrow> lane32" where
  "pair_map2 g a b = (g (fst a) (fst b), g (snd a) (snd b))"

definition interleaved_ops :: "lane32 lane_ops" where
  "interleaved_ops =
     \<lparr>XOR64 = pair_map2 (XOR), AND64 = pair_map2 (AND), OR64 = pair_map2 (OR),
      NOT64 = (\<lambda>(l, h). (NOT l, NOT h)), ROL64 = ROL64_interleaved,
      RC = RC_interleaved, ZERO64 = (0, 0), ONES64 = (0xFFFFFFFF, 0xFFFFFFFF),
      READ64 = (\<lambda>b. INTERLEAVE (READ64_narrow b)),
      OUTPUT = (\<lambda>d ls. output_narrow d (map UNINTERLEAVE ls))\<rparr>"

definition narrow_ops :: "lane32 lane_ops" where
  "narrow_ops =
     \<lparr>XOR64 = pair_map2 (XOR), AND64 = pair_map2 (AND), OR64 = pair_map2 (OR),
      NOT64 = (\<lambda>(l, h). (NOT l, NOT h)), ROL64 = ROL64_narrow,
      RC = RC_narrow, ZERO64 = (0, 0), ONES64 = (0xFFFFFFFF, 0xFFFFFFFF),
      READ64 = READ64_narrow, OUTPUT = output_narrow\<rparr>"

section \<open>The permutation\<close>

text \<open>
  The macros take 25 lvalues \<open>b00, b01, \<dots>, b44\<close>; here they take and return the list of the
  25 values in that order, so \<open>bxy\<close> is at position \<open>5x + y\<close>.
\<close>

definition TH_ELT :: "'w lane_ops \<Rightarrow> 'w \<Rightarrow> 'w \<Rightarrow> 'w \<Rightarrow> 'w \<Rightarrow> 'w \<Rightarrow> 'w \<Rightarrow> 'w \<Rightarrow> 'w \<Rightarrow> 'w \<Rightarrow> 'w \<Rightarrow> 'w" where
  "TH_ELT ops c0 c1 c2 c3 c4 d0 d1 d2 d3 d4 =
     (let tt0 = XOR64 ops d0 d1;
          tt1 = XOR64 ops d2 d3;
          tt0 = XOR64 ops tt0 d4;
          tt0 = XOR64 ops tt0 tt1;
          tt0 = ROL64 ops tt0 1;
          tt2 = XOR64 ops c0 c1;
          tt3 = XOR64 ops c2 c3;
          tt0 = XOR64 ops tt0 c4;
          tt2 = XOR64 ops tt2 tt3
      in XOR64 ops tt0 tt2)"

definition THETA :: "'w lane_ops \<Rightarrow> 'w list \<Rightarrow> 'w list" where
  "THETA ops bs =
     (let b = (\<lambda>x y. bs ! (5 * x + y));
          t0 = TH_ELT ops (b 4 0) (b 4 1) (b 4 2) (b 4 3) (b 4 4)
            (b 1 0) (b 1 1) (b 1 2) (b 1 3) (b 1 4);
          t1 = TH_ELT ops (b 0 0) (b 0 1) (b 0 2) (b 0 3) (b 0 4)
            (b 2 0) (b 2 1) (b 2 2) (b 2 3) (b 2 4);
          t2 = TH_ELT ops (b 1 0) (b 1 1) (b 1 2) (b 1 3) (b 1 4)
            (b 3 0) (b 3 1) (b 3 2) (b 3 3) (b 3 4);
          t3 = TH_ELT ops (b 2 0) (b 2 1) (b 2 2) (b 2 3) (b 2 4)
            (b 4 0) (b 4 1) (b 4 2) (b 4 3) (b 4 4);
          t4 = TH_ELT ops (b 3 0) (b 3 1) (b 3 2) (b 3 3) (b 3 4)
            (b 0 0) (b 0 1) (b 0 2) (b 0 3) (b 0 4)
      in [XOR64 ops (b 0 0) t0, XOR64 ops (b 0 1) t0, XOR64 ops (b 0 2) t0, XOR64 ops (b 0 3) t0, XOR64 ops (b 0 4) t0,
      XOR64 ops (b 1 0) t1, XOR64 ops (b 1 1) t1, XOR64 ops (b 1 2) t1, XOR64 ops (b 1 3) t1, XOR64 ops (b 1 4) t1,
      XOR64 ops (b 2 0) t2, XOR64 ops (b 2 1) t2, XOR64 ops (b 2 2) t2, XOR64 ops (b 2 3) t2, XOR64 ops (b 2 4) t2,
      XOR64 ops (b 3 0) t3, XOR64 ops (b 3 1) t3, XOR64 ops (b 3 2) t3, XOR64 ops (b 3 3) t3, XOR64 ops (b 3 4) t3,
      XOR64 ops (b 4 0) t4, XOR64 ops (b 4 1) t4, XOR64 ops (b 4 2) t4, XOR64 ops (b 4 3) t4, XOR64 ops (b 4 4) t4])"

definition RHO :: "'w lane_ops \<Rightarrow> 'w list \<Rightarrow> 'w list" where
  "RHO ops bs =
     (let b = (\<lambda>x y. bs ! (5 * x + y)); rol = ROL64 ops
      in [b 0 0, rol (b 0 1) 36, rol (b 0 2) 3, rol (b 0 3) 41, rol (b 0 4) 18,
      rol (b 1 0) 1, rol (b 1 1) 44, rol (b 1 2) 10, rol (b 1 3) 45, rol (b 1 4) 2,
      rol (b 2 0) 62, rol (b 2 1) 6, rol (b 2 2) 43, rol (b 2 3) 15, rol (b 2 4) 61,
      rol (b 3 0) 28, rol (b 3 1) 55, rol (b 3 2) 25, rol (b 3 3) 21, rol (b 3 4) 56,
      rol (b 4 0) 27, rol (b 4 1) 20, rol (b 4 2) 39, rol (b 4 3) 8, rol (b 4 4) 14])"

definition KHI_XO :: "'w lane_ops \<Rightarrow> 'w \<Rightarrow> 'w \<Rightarrow> 'w \<Rightarrow> 'w" where
  "KHI_XO ops a b c = XOR64 ops a (OR64 ops b c)"

definition KHI_XA :: "'w lane_ops \<Rightarrow> 'w \<Rightarrow> 'w \<Rightarrow> 'w \<Rightarrow> 'w" where
  "KHI_XA ops a b c = XOR64 ops a (AND64 ops b c)"

definition KHI :: "'w lane_ops \<Rightarrow> 'w list \<Rightarrow> 'w list" where
  "KHI ops bs =
     (let b = (\<lambda>x y. bs ! (5 * x + y));
          bnn0 = NOT64 ops (b 2 0);
          c00 = KHI_XO ops (b 0 0) (b 1 0) (b 2 0);
          c10 = KHI_XO ops (b 1 0) bnn0 (b 3 0);
          c20 = KHI_XA ops (b 2 0) (b 3 0) (b 4 0);
          c30 = KHI_XO ops (b 3 0) (b 4 0) (b 0 0);
          c40 = KHI_XA ops (b 4 0) (b 0 0) (b 1 0);
          bnn1 = NOT64 ops (b 4 1);
          c01 = KHI_XO ops (b 0 1) (b 1 1) (b 2 1);
          c11 = KHI_XA ops (b 1 1) (b 2 1) (b 3 1);
          c21 = KHI_XO ops (b 2 1) (b 3 1) bnn1;
          c31 = KHI_XO ops (b 3 1) (b 4 1) (b 0 1);
          c41 = KHI_XA ops (b 4 1) (b 0 1) (b 1 1);
          bnn2 = NOT64 ops (b 3 2);
          c02 = KHI_XO ops (b 0 2) (b 1 2) (b 2 2);
          c12 = KHI_XA ops (b 1 2) (b 2 2) (b 3 2);
          c22 = KHI_XA ops (b 2 2) bnn2 (b 4 2);
          c32 = KHI_XO ops bnn2 (b 4 2) (b 0 2);
          c42 = KHI_XA ops (b 4 2) (b 0 2) (b 1 2);
          bnn3 = NOT64 ops (b 3 3);
          c03 = KHI_XA ops (b 0 3) (b 1 3) (b 2 3);
          c13 = KHI_XO ops (b 1 3) (b 2 3) (b 3 3);
          c23 = KHI_XO ops (b 2 3) bnn3 (b 4 3);
          c33 = KHI_XA ops bnn3 (b 4 3) (b 0 3);
          c43 = KHI_XO ops (b 4 3) (b 0 3) (b 1 3);
          bnn4 = NOT64 ops (b 1 4);
          c04 = KHI_XA ops (b 0 4) bnn4 (b 2 4);
          c14 = KHI_XO ops bnn4 (b 2 4) (b 3 4);
          c24 = KHI_XA ops (b 2 4) (b 3 4) (b 4 4);
          c34 = KHI_XO ops (b 3 4) (b 4 4) (b 0 4);
          c44 = KHI_XA ops (b 4 4) (b 0 4) (b 1 4)
      in [c00, c01, c02, c03, c04,
      c10, c11, c12, c13, c14,
      c20, c21, c22, c23, c24,
      c30, c31, c32, c33, c34,
      c40, c41, c42, c43, c44])"

subsection \<open>Renaming of the lanes\<close>

text \<open>
  The variable \<open>axy\<close> is lane \<open>x + 5y\<close> of the state; the lists write it as the decimal number
  \<open>xy\<close>. A macro call with the arguments \<open>Pr\<close> reads and writes the lanes that \<open>Pr\<close> names.
\<close>

definition lanes :: "nat list \<Rightarrow> nat list" where
  "lanes = map (\<lambda>xy. xy div 10 + 5 * (xy mod 10))"

definition P0 :: "nat list" where
  "P0 = lanes [0, 1, 2, 3, 4, 10, 11, 12, 13, 14, 20, 21, 22,
     23, 24, 30, 31, 32, 33, 34, 40, 41, 42, 43, 44]"

definition P1 :: "nat list" where
  "P1 = lanes [0, 30, 10, 40, 20, 11, 41, 21, 1, 31, 22, 2, 32,
     12, 42, 33, 13, 43, 23, 3, 44, 24, 4, 34, 14]"

definition P2 :: "nat list" where
  "P2 = lanes [0, 33, 11, 44, 22, 41, 24, 2, 30, 13, 32, 10, 43,
     21, 4, 23, 1, 34, 12, 40, 14, 42, 20, 3, 31]"

definition P3 :: "nat list" where
  "P3 = lanes [0, 23, 41, 14, 32, 24, 42, 10, 33, 1, 43, 11, 34,
     2, 20, 12, 30, 3, 21, 44, 31, 4, 22, 40, 13]"

definition P4 :: "nat list" where
  "P4 = lanes [0, 12, 24, 31, 43, 42, 4, 11, 23, 30, 34, 41, 3,
     10, 22, 21, 33, 40, 2, 14, 13, 20, 32, 44, 1]"

definition P5 :: "nat list" where
  "P5 = lanes [0, 21, 42, 13, 34, 4, 20, 41, 12, 33, 3, 24, 40,
     11, 32, 2, 23, 44, 10, 31, 1, 22, 43, 14, 30]"

definition P6 :: "nat list" where
  "P6 = lanes [0, 2, 4, 1, 3, 20, 22, 24, 21, 23, 40, 42, 44,
     41, 43, 10, 12, 14, 11, 13, 30, 32, 34, 31, 33]"

definition P7 :: "nat list" where
  "P7 = lanes [0, 10, 20, 30, 40, 22, 32, 42, 2, 12, 44, 4, 14,
     24, 34, 11, 21, 31, 41, 1, 33, 43, 3, 13, 23]"

definition P8 :: "nat list" where
  "P8 = lanes [0, 11, 22, 33, 44, 32, 43, 4, 10, 21, 14, 20, 31,
     42, 3, 41, 2, 13, 24, 30, 23, 34, 40, 1, 12]"

definition P9 :: "nat list" where
  "P9 = lanes [0, 41, 32, 23, 14, 43, 34, 20, 11, 2, 31, 22, 13,
     4, 40, 24, 10, 1, 42, 33, 12, 3, 44, 30, 21]"

definition P10 :: "nat list" where
  "P10 = lanes [0, 24, 43, 12, 31, 34, 3, 22, 41, 10, 13, 32, 1,
     20, 44, 42, 11, 30, 4, 23, 21, 40, 14, 33, 2]"

definition P11 :: "nat list" where
  "P11 = lanes [0, 42, 34, 21, 13, 3, 40, 32, 24, 11, 1, 43, 30,
     22, 14, 4, 41, 33, 20, 12, 2, 44, 31, 23, 10]"

definition P12 :: "nat list" where
  "P12 = lanes [0, 4, 3, 2, 1, 40, 44, 43, 42, 41, 30, 34, 33,
     32, 31, 20, 24, 23, 22, 21, 10, 14, 13, 12, 11]"

definition P13 :: "nat list" where
  "P13 = lanes [0, 20, 40, 10, 30, 44, 14, 34, 4, 24, 33, 3, 23,
     43, 13, 22, 42, 12, 32, 2, 11, 31, 1, 21, 41]"

definition P14 :: "nat list" where
  "P14 = lanes [0, 22, 44, 11, 33, 14, 31, 3, 20, 42, 23, 40, 12,
     34, 1, 32, 4, 21, 43, 10, 41, 13, 30, 2, 24]"

definition P15 :: "nat list" where
  "P15 = lanes [0, 32, 14, 41, 23, 31, 13, 40, 22, 4, 12, 44, 21,
     3, 30, 43, 20, 2, 34, 11, 24, 1, 33, 10, 42]"

definition P16 :: "nat list" where
  "P16 = lanes [0, 43, 31, 24, 12, 13, 1, 44, 32, 20, 21, 14, 2,
     40, 33, 34, 22, 10, 3, 41, 42, 30, 23, 11, 4]"

definition P17 :: "nat list" where
  "P17 = lanes [0, 34, 13, 42, 21, 1, 30, 14, 43, 22, 2, 31, 10,
     44, 23, 3, 32, 11, 40, 24, 4, 33, 12, 41, 20]"

definition P18 :: "nat list" where
  "P18 = lanes [0, 3, 1, 4, 2, 30, 33, 31, 34, 32, 10, 13, 11,
     14, 12, 40, 43, 41, 44, 42, 20, 23, 21, 24, 22]"

definition P19 :: "nat list" where
  "P19 = lanes [0, 40, 30, 20, 10, 33, 23, 13, 3, 43, 11, 1, 41,
     31, 21, 44, 34, 24, 14, 4, 22, 12, 2, 42, 32]"

definition P20 :: "nat list" where
  "P20 = lanes [0, 44, 33, 22, 11, 23, 12, 1, 40, 34, 41, 30, 24,
     13, 2, 14, 3, 42, 31, 20, 32, 21, 10, 4, 43]"

definition P21 :: "nat list" where
  "P21 = lanes [0, 14, 23, 32, 41, 12, 21, 30, 44, 3, 24, 33, 42,
     1, 10, 31, 40, 4, 13, 22, 43, 2, 11, 20, 34]"

definition P22 :: "nat list" where
  "P22 = lanes [0, 31, 12, 43, 24, 21, 2, 33, 14, 40, 42, 23, 4,
     30, 11, 13, 44, 20, 1, 32, 34, 10, 41, 22, 3]"

definition P23 :: "nat list" where
  "P23 = lanes [0, 13, 21, 34, 42, 2, 10, 23, 31, 44, 4, 12, 20,
     33, 41, 1, 14, 22, 30, 43, 3, 11, 24, 32, 40]"

definition gather :: "nat list \<Rightarrow> 'w list \<Rightarrow> 'w list" where
  "gather p a = map (\<lambda>i. a ! i) p"

definition scatter :: "nat list \<Rightarrow> 'w list \<Rightarrow> 'w list \<Rightarrow> 'w list" where
  "scatter p bs a = fold (\<lambda>(i, v) a. a[i := v]) (zip p bs) a"

definition on_lanes :: "nat list \<Rightarrow> ('w list \<Rightarrow> 'w list) \<Rightarrow> 'w list \<Rightarrow> 'w list" where
  "on_lanes p g a = scatter p (g (gather p a)) a"

text \<open>\<open>MOV64\<close> sequences that put renamed lanes back in place, with one temporary \<open>t\<close>.\<close>

datatype reg = Reg_t | Reg_a nat

definition reg_lane :: "nat \<Rightarrow> nat" where
  "reg_lane xy = xy div 10 + 5 * (xy mod 10)"

fun MOV64 :: "reg \<times> reg \<Rightarrow> 'w \<times> 'w list \<Rightarrow> 'w \<times> 'w list" where
  "MOV64 (Reg_t, Reg_t) (t, a) = (t, a)"
| "MOV64 (Reg_t, Reg_a s) (t, a) = (a ! reg_lane s, a)"
| "MOV64 (Reg_a d, Reg_t) (t, a) = (t, a[reg_lane d := t])"
| "MOV64 (Reg_a d, Reg_a s) (t, a) = (t, a[reg_lane d := a ! reg_lane s])"

definition run_moves :: "(reg \<times> reg) list \<Rightarrow> 'w list \<Rightarrow> 'w list" where
  "run_moves ms a = snd (fold MOV64 ms (a ! 0, a))"

definition P1_TO_P0 :: "(reg \<times> reg) list" where
  "P1_TO_P0 =
    [(Reg_t, Reg_a 1), (Reg_a 1, Reg_a 30), (Reg_a 30, Reg_a 33), (Reg_a 33, Reg_a 23), (Reg_a 23, Reg_a 12), (Reg_a 12, Reg_a 21),
     (Reg_a 21, Reg_a 2), (Reg_a 2, Reg_a 10), (Reg_a 10, Reg_a 11), (Reg_a 11, Reg_a 41), (Reg_a 41, Reg_a 24), (Reg_a 24, Reg_a 42),
     (Reg_a 42, Reg_a 4), (Reg_a 4, Reg_a 20), (Reg_a 20, Reg_a 22), (Reg_a 22, Reg_a 32), (Reg_a 32, Reg_a 43), (Reg_a 43, Reg_a 34),
     (Reg_a 34, Reg_a 3), (Reg_a 3, Reg_a 40), (Reg_a 40, Reg_a 44), (Reg_a 44, Reg_a 14), (Reg_a 14, Reg_a 31), (Reg_a 31, Reg_a 13),
     (Reg_a 13, Reg_t)]"

definition P2_TO_P0 :: "(reg \<times> reg) list" where
  "P2_TO_P0 =
    [(Reg_t, Reg_a 1), (Reg_a 1, Reg_a 33), (Reg_a 33, Reg_a 12), (Reg_a 12, Reg_a 2), (Reg_a 2, Reg_a 11), (Reg_a 11, Reg_a 24),
     (Reg_a 24, Reg_a 4), (Reg_a 4, Reg_a 22), (Reg_a 22, Reg_a 43), (Reg_a 43, Reg_a 3), (Reg_a 3, Reg_a 44), (Reg_a 44, Reg_a 31),
     (Reg_a 31, Reg_t), (Reg_t, Reg_a 10), (Reg_a 10, Reg_a 41), (Reg_a 41, Reg_a 42), (Reg_a 42, Reg_a 20), (Reg_a 20, Reg_a 32),
     (Reg_a 32, Reg_a 34), (Reg_a 34, Reg_a 40), (Reg_a 40, Reg_a 14), (Reg_a 14, Reg_a 13), (Reg_a 13, Reg_a 30), (Reg_a 30, Reg_a 23),
     (Reg_a 23, Reg_a 21), (Reg_a 21, Reg_t)]"

definition P4_TO_P0 :: "(reg \<times> reg) list" where
  "P4_TO_P0 =
    [(Reg_t, Reg_a 1), (Reg_a 1, Reg_a 12), (Reg_a 12, Reg_a 11), (Reg_a 11, Reg_a 4), (Reg_a 4, Reg_a 43), (Reg_a 43, Reg_a 44),
     (Reg_a 44, Reg_t), (Reg_t, Reg_a 2), (Reg_a 2, Reg_a 24), (Reg_a 24, Reg_a 22), (Reg_a 22, Reg_a 3), (Reg_a 3, Reg_a 31),
     (Reg_a 31, Reg_a 33), (Reg_a 33, Reg_t), (Reg_t, Reg_a 10), (Reg_a 10, Reg_a 42), (Reg_a 42, Reg_a 32), (Reg_a 32, Reg_a 40),
     (Reg_a 40, Reg_a 13), (Reg_a 13, Reg_a 23), (Reg_a 23, Reg_t), (Reg_t, Reg_a 14), (Reg_a 14, Reg_a 30), (Reg_a 30, Reg_a 21),
     (Reg_a 21, Reg_a 41), (Reg_a 41, Reg_a 20), (Reg_a 20, Reg_a 34), (Reg_a 34, Reg_t)]"

definition P6_TO_P0 :: "(reg \<times> reg) list" where
  "P6_TO_P0 =
    [(Reg_t, Reg_a 1), (Reg_a 1, Reg_a 2), (Reg_a 2, Reg_a 4), (Reg_a 4, Reg_a 3), (Reg_a 3, Reg_t), (Reg_t, Reg_a 10),
     (Reg_a 10, Reg_a 20), (Reg_a 20, Reg_a 40), (Reg_a 40, Reg_a 30), (Reg_a 30, Reg_t), (Reg_t, Reg_a 11), (Reg_a 11, Reg_a 22),
     (Reg_a 22, Reg_a 44), (Reg_a 44, Reg_a 33), (Reg_a 33, Reg_t), (Reg_t, Reg_a 12), (Reg_a 12, Reg_a 24), (Reg_a 24, Reg_a 43),
     (Reg_a 43, Reg_a 31), (Reg_a 31, Reg_t), (Reg_t, Reg_a 13), (Reg_a 13, Reg_a 21), (Reg_a 21, Reg_a 42), (Reg_a 42, Reg_a 34),
     (Reg_a 34, Reg_t), (Reg_t, Reg_a 14), (Reg_a 14, Reg_a 23), (Reg_a 23, Reg_a 41), (Reg_a 41, Reg_a 32), (Reg_a 32, Reg_t)]"

definition P8_TO_P0 :: "(reg \<times> reg) list" where
  "P8_TO_P0 =
    [(Reg_t, Reg_a 1), (Reg_a 1, Reg_a 11), (Reg_a 11, Reg_a 43), (Reg_a 43, Reg_t), (Reg_t, Reg_a 2), (Reg_a 2, Reg_a 22),
     (Reg_a 22, Reg_a 31), (Reg_a 31, Reg_t), (Reg_t, Reg_a 3), (Reg_a 3, Reg_a 33), (Reg_a 33, Reg_a 24), (Reg_a 24, Reg_t),
     (Reg_t, Reg_a 4), (Reg_a 4, Reg_a 44), (Reg_a 44, Reg_a 12), (Reg_a 12, Reg_t), (Reg_t, Reg_a 10), (Reg_a 10, Reg_a 32),
     (Reg_a 32, Reg_a 13), (Reg_a 13, Reg_t), (Reg_t, Reg_a 14), (Reg_a 14, Reg_a 21), (Reg_a 21, Reg_a 20), (Reg_a 20, Reg_t),
     (Reg_t, Reg_a 23), (Reg_a 23, Reg_a 42), (Reg_a 42, Reg_a 40), (Reg_a 40, Reg_t), (Reg_t, Reg_a 30), (Reg_a 30, Reg_a 41),
     (Reg_a 41, Reg_a 34), (Reg_a 34, Reg_t)]"

definition P12_TO_P0 :: "(reg \<times> reg) list" where
  "P12_TO_P0 =
    [(Reg_t, Reg_a 1), (Reg_a 1, Reg_a 4), (Reg_a 4, Reg_t), (Reg_t, Reg_a 2), (Reg_a 2, Reg_a 3), (Reg_a 3, Reg_t),
     (Reg_t, Reg_a 10), (Reg_a 10, Reg_a 40), (Reg_a 40, Reg_t), (Reg_t, Reg_a 11), (Reg_a 11, Reg_a 44), (Reg_a 44, Reg_t),
     (Reg_t, Reg_a 12), (Reg_a 12, Reg_a 43), (Reg_a 43, Reg_t), (Reg_t, Reg_a 13), (Reg_a 13, Reg_a 42), (Reg_a 42, Reg_t),
     (Reg_t, Reg_a 14), (Reg_a 14, Reg_a 41), (Reg_a 41, Reg_t), (Reg_t, Reg_a 20), (Reg_a 20, Reg_a 30), (Reg_a 30, Reg_t),
     (Reg_t, Reg_a 21), (Reg_a 21, Reg_a 34), (Reg_a 34, Reg_t), (Reg_t, Reg_a 22), (Reg_a 22, Reg_a 33), (Reg_a 33, Reg_t),
     (Reg_t, Reg_a 23), (Reg_a 23, Reg_a 32), (Reg_a 32, Reg_t), (Reg_t, Reg_a 24), (Reg_a 24, Reg_a 31), (Reg_a 31, Reg_t)]"

subsection \<open>Rounds\<close>

definition IOTA :: "'w lane_ops \<Rightarrow> 'w \<Rightarrow> 'w list \<Rightarrow> 'w list" where
  "IOTA ops r a = a[0 := XOR64 ops (a ! 0) r]"

definition KF_ELT :: "'w lane_ops \<Rightarrow> nat list \<Rightarrow> nat list \<Rightarrow> 'w \<Rightarrow> 'w list \<Rightarrow> 'w list" where
  "KF_ELT ops pr ps k a =
     (let a = on_lanes pr (THETA ops) a;
          a = on_lanes pr (RHO ops) a;
          a = on_lanes ps (KHI ops) a
      in IOTA ops k a)"

text \<open>
  The loop body for each value of \<open>SPH_KECCAK_UNROLL\<close>, with \<open>j\<close> the loop variable, and the
  permutation. The build uses 8; a small-footprint build uses 2. The preprocessor refuses
  values other than 0, 1, 2, 4, 6, 8 and 12.
\<close>

definition unroll1 :: "'w lane_ops \<Rightarrow> nat \<Rightarrow> 'w list \<Rightarrow> 'w list" where
  "unroll1 ops j a =
     (let a = KF_ELT ops P0 P1 (RC ops ! (j + 0)) a
      in run_moves P1_TO_P0 a)"

definition unroll2 :: "'w lane_ops \<Rightarrow> nat \<Rightarrow> 'w list \<Rightarrow> 'w list" where
  "unroll2 ops j a =
     (let a = KF_ELT ops P0 P1 (RC ops ! (j + 0)) a;
          a = KF_ELT ops P1 P2 (RC ops ! (j + 1)) a
      in run_moves P2_TO_P0 a)"

definition unroll4 :: "'w lane_ops \<Rightarrow> nat \<Rightarrow> 'w list \<Rightarrow> 'w list" where
  "unroll4 ops j a =
     (let a = KF_ELT ops P0 P1 (RC ops ! (j + 0)) a;
          a = KF_ELT ops P1 P2 (RC ops ! (j + 1)) a;
          a = KF_ELT ops P2 P3 (RC ops ! (j + 2)) a;
          a = KF_ELT ops P3 P4 (RC ops ! (j + 3)) a
      in run_moves P4_TO_P0 a)"

definition unroll6 :: "'w lane_ops \<Rightarrow> nat \<Rightarrow> 'w list \<Rightarrow> 'w list" where
  "unroll6 ops j a =
     (let a = KF_ELT ops P0 P1 (RC ops ! (j + 0)) a;
          a = KF_ELT ops P1 P2 (RC ops ! (j + 1)) a;
          a = KF_ELT ops P2 P3 (RC ops ! (j + 2)) a;
          a = KF_ELT ops P3 P4 (RC ops ! (j + 3)) a;
          a = KF_ELT ops P4 P5 (RC ops ! (j + 4)) a;
          a = KF_ELT ops P5 P6 (RC ops ! (j + 5)) a
      in run_moves P6_TO_P0 a)"

definition unroll8 :: "'w lane_ops \<Rightarrow> nat \<Rightarrow> 'w list \<Rightarrow> 'w list" where
  "unroll8 ops j a =
     (let a = KF_ELT ops P0 P1 (RC ops ! (j + 0)) a;
          a = KF_ELT ops P1 P2 (RC ops ! (j + 1)) a;
          a = KF_ELT ops P2 P3 (RC ops ! (j + 2)) a;
          a = KF_ELT ops P3 P4 (RC ops ! (j + 3)) a;
          a = KF_ELT ops P4 P5 (RC ops ! (j + 4)) a;
          a = KF_ELT ops P5 P6 (RC ops ! (j + 5)) a;
          a = KF_ELT ops P6 P7 (RC ops ! (j + 6)) a;
          a = KF_ELT ops P7 P8 (RC ops ! (j + 7)) a
      in run_moves P8_TO_P0 a)"

definition unroll12 :: "'w lane_ops \<Rightarrow> nat \<Rightarrow> 'w list \<Rightarrow> 'w list" where
  "unroll12 ops j a =
     (let a = KF_ELT ops P0 P1 (RC ops ! (j + 0)) a;
          a = KF_ELT ops P1 P2 (RC ops ! (j + 1)) a;
          a = KF_ELT ops P2 P3 (RC ops ! (j + 2)) a;
          a = KF_ELT ops P3 P4 (RC ops ! (j + 3)) a;
          a = KF_ELT ops P4 P5 (RC ops ! (j + 4)) a;
          a = KF_ELT ops P5 P6 (RC ops ! (j + 5)) a;
          a = KF_ELT ops P6 P7 (RC ops ! (j + 6)) a;
          a = KF_ELT ops P7 P8 (RC ops ! (j + 7)) a;
          a = KF_ELT ops P8 P9 (RC ops ! (j + 8)) a;
          a = KF_ELT ops P9 P10 (RC ops ! (j + 9)) a;
          a = KF_ELT ops P10 P11 (RC ops ! (j + 10)) a;
          a = KF_ELT ops P11 P12 (RC ops ! (j + 11)) a
      in run_moves P12_TO_P0 a)"

definition unroll0 :: "'w lane_ops \<Rightarrow> 'w list \<Rightarrow> 'w list" where
  "unroll0 ops a =
     (let a = KF_ELT ops P0 P1 (RC ops ! 0) a;
          a = KF_ELT ops P1 P2 (RC ops ! 1) a;
          a = KF_ELT ops P2 P3 (RC ops ! 2) a;
          a = KF_ELT ops P3 P4 (RC ops ! 3) a;
          a = KF_ELT ops P4 P5 (RC ops ! 4) a;
          a = KF_ELT ops P5 P6 (RC ops ! 5) a;
          a = KF_ELT ops P6 P7 (RC ops ! 6) a;
          a = KF_ELT ops P7 P8 (RC ops ! 7) a;
          a = KF_ELT ops P8 P9 (RC ops ! 8) a;
          a = KF_ELT ops P9 P10 (RC ops ! 9) a;
          a = KF_ELT ops P10 P11 (RC ops ! 10) a;
          a = KF_ELT ops P11 P12 (RC ops ! 11) a;
          a = KF_ELT ops P12 P13 (RC ops ! 12) a;
          a = KF_ELT ops P13 P14 (RC ops ! 13) a;
          a = KF_ELT ops P14 P15 (RC ops ! 14) a;
          a = KF_ELT ops P15 P16 (RC ops ! 15) a;
          a = KF_ELT ops P16 P17 (RC ops ! 16) a;
          a = KF_ELT ops P17 P18 (RC ops ! 17) a;
          a = KF_ELT ops P18 P19 (RC ops ! 18) a;
          a = KF_ELT ops P19 P20 (RC ops ! 19) a;
          a = KF_ELT ops P20 P21 (RC ops ! 20) a;
          a = KF_ELT ops P21 P22 (RC ops ! 21) a;
          a = KF_ELT ops P22 P23 (RC ops ! 22) a;
          a = KF_ELT ops P23 P0 (RC ops ! 23) a
      in a)"

definition KECCAK_F_1600_unroll :: "nat \<Rightarrow> 'w lane_ops \<Rightarrow> 'w list \<Rightarrow> 'w list" where
  "KECCAK_F_1600_unroll n ops a =
     (if n = 1 then fold (unroll1 ops) [0..<24] a
      else if n = 2 then fold (unroll2 ops) (map (\<lambda>i. 2 * i) [0..<12]) a
      else if n = 4 then fold (unroll4 ops) (map (\<lambda>i. 4 * i) [0..<6]) a
      else if n = 6 then fold (unroll6 ops) (map (\<lambda>i. 6 * i) [0..<4]) a
      else if n = 8 then fold (unroll8 ops) (map (\<lambda>i. 8 * i) [0..<3]) a
      else if n = 12 then fold (unroll12 ops) (map (\<lambda>i. 12 * i) [0..<2]) a
      else unroll0 ops a)"

definition KECCAK_F_1600 :: "'w lane_ops \<Rightarrow> 'w list \<Rightarrow> 'w list" where
  "KECCAK_F_1600 = KECCAK_F_1600_unroll 8"

section \<open>The context and its operations\<close>

record 'w sph_keccak_context =
  kc_buf :: "byte list"
  kc_ptr :: nat
  kc_lim :: nat
  kc_u :: "'w list"

text \<open>
  \<open>INPUT_BUF\<close> in the variant that works on the context (\<open>SPH_KECCAK_NOCOPY\<close>, as on x86), and
  in the variant that works on local copies of the lanes.
\<close>

definition input_lanes :: "'w lane_ops \<Rightarrow> byte list \<Rightarrow> nat list \<Rightarrow> 'w list \<Rightarrow> 'w list" where
  "input_lanes ops b is a =
     fold (\<lambda>i a. a[i := XOR64 ops (a ! i) (READ64 ops (take 8 (drop (8 * i) b)))]) is a"

definition INPUT_BUF :: "'w lane_ops \<Rightarrow> nat \<Rightarrow> byte list \<Rightarrow> 'w list \<Rightarrow> 'w list" where
  "INPUT_BUF ops lim b a = input_lanes ops b [0..<(lim + 7) div 8] a"

definition INPUT_BUF_copy :: "'w lane_ops \<Rightarrow> nat \<Rightarrow> byte list \<Rightarrow> 'w list \<Rightarrow> 'w list" where
  "INPUT_BUF_copy ops lim b a =
     (let a = input_lanes ops b [0, 1, 2, 3, 4, 5, 6, 7, 8] a
      in if lim = 72 then a
      else let a = input_lanes ops b [9, 10, 11, 12] a
      in if lim = 104 then a
      else let a = input_lanes ops b [13, 14, 15, 16] a
      in if lim = 136 then a
      else input_lanes ops b [17] a)"

definition keccak_init :: "'w lane_ops \<Rightarrow> nat \<Rightarrow> 'w sph_keccak_context \<Rightarrow> 'w sph_keccak_context" where
  "keccak_init ops out_size kc =
     (let u = replicate 25 (ZERO64 ops)
      in kc\<lparr>kc_u := u[1 := ONES64 ops, 2 := ONES64 ops, 8 := ONES64 ops,
                     12 := ONES64 ops, 17 := ONES64 ops, 20 := ONES64 ops],
            kc_ptr := 0, kc_lim := 200 - out_size div 4\<rparr>)"

definition keccak_absorb :: "'w lane_ops \<Rightarrow> nat \<Rightarrow> 'w sph_keccak_context \<Rightarrow> 'w sph_keccak_context" where
  "keccak_absorb ops lim kc =
     kc\<lparr>kc_u := KECCAK_F_1600 ops (INPUT_BUF ops lim (kc_buf kc) (kc_u kc))\<rparr>"

partial_function (option) keccak_core_loop ::
  "'w lane_ops \<Rightarrow> nat \<Rightarrow> 'w sph_keccak_context \<Rightarrow> nat \<Rightarrow> byte list \<Rightarrow> ('w sph_keccak_context \<times> nat) option"
where
  "keccak_core_loop ops lim kc ptr data =
     (if data = [] then Some (kc, ptr)
      else let clen = min (size_sub lim ptr) (length data)
        in Option.bind (memcpy (kc_buf kc) ptr (take clen data)) (\<lambda>b.
             if ptr + clen = lim
             then keccak_core_loop ops lim (keccak_absorb ops lim (kc\<lparr>kc_buf := b\<rparr>)) 0 (drop clen data)
             else keccak_core_loop ops lim (kc\<lparr>kc_buf := b\<rparr>) (ptr + clen) (drop clen data)))"

definition keccak_core ::
  "'w lane_ops \<Rightarrow> nat \<Rightarrow> 'w sph_keccak_context \<Rightarrow> byte list \<Rightarrow> 'w sph_keccak_context option"
where
  "keccak_core ops lim kc data =
     (if length data < size_sub lim (kc_ptr kc)
      then do {
        b \<leftarrow> memcpy (kc_buf kc) (kc_ptr kc) data;
        Some (kc\<lparr>kc_buf := b, kc_ptr := kc_ptr kc + length data\<rparr>)
      }
      else do {
        (kc, ptr) \<leftarrow> keccak_core_loop ops lim kc (kc_ptr kc) data;
        Some (kc\<lparr>kc_ptr := ptr\<rparr>)
      })"

text \<open>
  \<open>DEFCLOSE (d, lim)\<close>. The array \<open>tmp\<close> is a local of \<open>lim + 1\<close> bytes whose initial
  contents are indeterminate: they are the parameter \<open>tmp\<close>.
\<close>

definition close_eb :: "u32 \<Rightarrow> nat \<Rightarrow> u32" where
  "close_eb ub n = drop_bit (8 - n) (0x100 OR (ub AND 0xFF))"

definition close_padding ::
  "nat \<Rightarrow> nat \<Rightarrow> u32 \<Rightarrow> nat \<Rightarrow> byte list \<Rightarrow> (byte list \<times> nat) option"
where
  "close_padding lim ptr ub n tmp =
     (let eb = close_eb ub n
      in if ptr = lim - 1
         then if n = 7
              then do {
                tmp \<leftarrow> memcpy tmp 0 [ucast eb];
                tmp \<leftarrow> memset tmp 1 0 (lim - 1);
                tmp \<leftarrow> memcpy tmp lim [0x80];
                Some (tmp, 1 + lim)
              }
              else do {
                tmp \<leftarrow> memcpy tmp 0 [ucast (eb OR 0x80)];
                Some (tmp, 1)
              }
         else do {
           let j = size_sub lim ptr;
           tmp \<leftarrow> memcpy tmp 0 [ucast eb];
           tmp \<leftarrow> memset tmp 1 0 (size_sub j 2);
           tmp \<leftarrow> memcpy tmp (size_sub j 1) [0x80];
           Some (tmp, j)
         })"

definition complement_lanes :: "'w lane_ops \<Rightarrow> 'w list \<Rightarrow> 'w list" where
  "complement_lanes ops u =
     u[1 := NOT64 ops (u ! 1), 2 := NOT64 ops (u ! 2), 8 := NOT64 ops (u ! 8),
       12 := NOT64 ops (u ! 12), 17 := NOT64 ops (u ! 17), 20 := NOT64 ops (u ! 20)]"

definition keccak_close ::
  "'w lane_ops \<Rightarrow> nat \<Rightarrow> nat \<Rightarrow> byte list \<Rightarrow> 'w sph_keccak_context \<Rightarrow> u32 \<Rightarrow> nat
     \<Rightarrow> (byte list \<times> 'w sph_keccak_context) option"
where
  "keccak_close ops d lim tmp kc ub n =
     do {
       (tmp, j) \<leftarrow> close_padding lim (kc_ptr kc) ub n tmp;
       p \<leftarrow> mem_read tmp 0 j;
       kc \<leftarrow> keccak_core ops lim kc p;
       tmp \<leftarrow> memcpy tmp 0 (OUTPUT ops d (complement_lanes ops (kc_u kc)));
       dst \<leftarrow> mem_read tmp 0 d;
       Some (dst, keccak_init ops (8 * d) (kc\<lparr>kc_u := complement_lanes ops (kc_u kc)\<rparr>))
     }"

section \<open>The public functions\<close>

definition sph_keccak224_init :: "'w lane_ops \<Rightarrow> 'w sph_keccak_context \<Rightarrow> 'w sph_keccak_context" where
  "sph_keccak224_init ops cc = keccak_init ops 224 cc"

definition sph_keccak224 :: "'w lane_ops \<Rightarrow> 'w sph_keccak_context \<Rightarrow> byte list \<Rightarrow> 'w sph_keccak_context option" where
  "sph_keccak224 ops cc data = keccak_core ops 144 cc data"

definition sph_keccak224_addbits_and_close where
  "sph_keccak224_addbits_and_close ops tmp cc ub n = keccak_close ops 28 144 tmp cc ub n"

definition sph_keccak224_close where
  "sph_keccak224_close ops tmp cc = sph_keccak224_addbits_and_close ops tmp cc 0 0"

definition sph_keccak256_init :: "'w lane_ops \<Rightarrow> 'w sph_keccak_context \<Rightarrow> 'w sph_keccak_context" where
  "sph_keccak256_init ops cc = keccak_init ops 256 cc"

definition sph_keccak256 :: "'w lane_ops \<Rightarrow> 'w sph_keccak_context \<Rightarrow> byte list \<Rightarrow> 'w sph_keccak_context option" where
  "sph_keccak256 ops cc data = keccak_core ops 136 cc data"

definition sph_keccak256_addbits_and_close where
  "sph_keccak256_addbits_and_close ops tmp cc ub n = keccak_close ops 32 136 tmp cc ub n"

definition sph_keccak256_close where
  "sph_keccak256_close ops tmp cc = sph_keccak256_addbits_and_close ops tmp cc 0 0"

definition sph_keccak384_init :: "'w lane_ops \<Rightarrow> 'w sph_keccak_context \<Rightarrow> 'w sph_keccak_context" where
  "sph_keccak384_init ops cc = keccak_init ops 384 cc"

definition sph_keccak384 :: "'w lane_ops \<Rightarrow> 'w sph_keccak_context \<Rightarrow> byte list \<Rightarrow> 'w sph_keccak_context option" where
  "sph_keccak384 ops cc data = keccak_core ops 104 cc data"

definition sph_keccak384_addbits_and_close where
  "sph_keccak384_addbits_and_close ops tmp cc ub n = keccak_close ops 48 104 tmp cc ub n"

definition sph_keccak384_close where
  "sph_keccak384_close ops tmp cc = sph_keccak384_addbits_and_close ops tmp cc 0 0"

definition sph_keccak512_init :: "'w lane_ops \<Rightarrow> 'w sph_keccak_context \<Rightarrow> 'w sph_keccak_context" where
  "sph_keccak512_init ops cc = keccak_init ops 512 cc"

definition sph_keccak512 :: "'w lane_ops \<Rightarrow> 'w sph_keccak_context \<Rightarrow> byte list \<Rightarrow> 'w sph_keccak_context option" where
  "sph_keccak512 ops cc data = keccak_core ops 72 cc data"

definition sph_keccak512_addbits_and_close where
  "sph_keccak512_addbits_and_close ops tmp cc ub n = keccak_close ops 64 72 tmp cc ub n"

definition sph_keccak512_close where
  "sph_keccak512_close ops tmp cc = sph_keccak512_addbits_and_close ops tmp cc 0 0"

end
