(* ===== verification/Keccak_Spec.thy ===== *)
theory Keccak_Spec
  imports Block_Stream
begin

text \<open>
  The Keccak permutation and sponge as the specification of Keccak (and FIPS 202) states
  them, written independently of \<open>src/src/keccak.c\<close>: the rotation offsets come from the walk
  \<open>(x, y) \<mapsto> (y, 2x + 3y)\<close> and the round constants from the degree-8 shift register, not from
  tables. The state is a list of 25 lanes; lane \<open>(x, y)\<close> is at position \<open>x + 5y\<close>.
\<close>

section \<open>The permutation\<close>

definition lane :: "u64 list \<Rightarrow> nat \<Rightarrow> nat \<Rightarrow> u64" where
  "lane A x y = A ! (x mod 5 + 5 * (y mod 5))"

definition mk_state :: "(nat \<Rightarrow> nat \<Rightarrow> u64) \<Rightarrow> u64 list" where
  "mk_state g = map (\<lambda>i. g (i mod 5) (i div 5)) [0..<25]"

definition col_parity :: "u64 list \<Rightarrow> nat \<Rightarrow> u64" where
  "col_parity A x = lane A x 0 XOR lane A x 1 XOR lane A x 2 XOR lane A x 3 XOR lane A x 4"

definition theta_spec :: "u64 list \<Rightarrow> u64 list" where
  "theta_spec A = mk_state (\<lambda>x y.
     lane A x y XOR col_parity A (x + 4) XOR word_rotl 1 (col_parity A (x + 1)))"

fun rho_walk :: "nat \<Rightarrow> nat \<Rightarrow> nat \<Rightarrow> nat \<Rightarrow> ((nat \<times> nat) \<times> nat) list" where
  "rho_walk 0 t x y = []"
| "rho_walk (Suc k) t x y =
     ((x, y), ((t + 1) * (t + 2) div 2) mod 64) # rho_walk k (Suc t) y ((2 * x + 3 * y) mod 5)"

definition rho_offset :: "nat \<Rightarrow> nat \<Rightarrow> nat" where
  "rho_offset x y = (case map_of (rho_walk 24 0 1 0) (x, y) of None \<Rightarrow> 0 | Some n \<Rightarrow> n)"

definition rho_spec :: "u64 list \<Rightarrow> u64 list" where
  "rho_spec A = mk_state (\<lambda>x y. word_rotl (rho_offset x y) (lane A x y))"

definition pi_spec :: "u64 list \<Rightarrow> u64 list" where
  "pi_spec A = mk_state (\<lambda>x y. lane A (x + 3 * y) x)"

definition chi_spec :: "u64 list \<Rightarrow> u64 list" where
  "chi_spec A = mk_state (\<lambda>x y. lane A x y XOR (NOT (lane A (x + 1) y) AND lane A (x + 2) y))"

text \<open>The register holds 8 bits; \<open>lfsr t\<close> is its content after \<open>t\<close> steps.\<close>

definition lfsr_step :: "bool list \<Rightarrow> bool list" where
  "lfsr_step R = (let S = False # R; b = S ! 8
     in take 8 (S[0 := (S ! 0 \<noteq> b), 4 := (S ! 4 \<noteq> b), 5 := (S ! 5 \<noteq> b), 6 := (S ! 6 \<noteq> b)]))"

definition lfsr :: "nat \<Rightarrow> bool list" where
  "lfsr t = (lfsr_step ^^ t) [True, False, False, False, False, False, False, False]"

definition rc_bit :: "nat \<Rightarrow> bool" where
  "rc_bit t = hd (lfsr (t mod 255))"

definition rc_spec :: "nat \<Rightarrow> u64" where
  "rc_spec ir = foldr (OR) (map (\<lambda>j. if rc_bit (j + 7 * ir) then push_bit (2 ^ j - 1) 1 else 0) [0..<7]) 0"

definition iota_spec :: "u64 \<Rightarrow> u64 list \<Rightarrow> u64 list" where
  "iota_spec k A = A[0 := A ! 0 XOR k]"

definition round_spec :: "u64 \<Rightarrow> u64 list \<Rightarrow> u64 list" where
  "round_spec k A = iota_spec k (chi_spec (pi_spec (rho_spec (theta_spec A))))"

definition keccak_f_spec :: "u64 list \<Rightarrow> u64 list" where
  "keccak_f_spec A = fold (\<lambda>ir. round_spec (rc_spec ir)) [0..<24] A"

section \<open>The sponge\<close>

text \<open>
  Messages are bit strings, as in FIPS 202: a byte holds its bits from the least significant
  one on. \<open>pad10star1 x m\<close> pads a message of \<open>m\<close> bits to a multiple of \<open>x\<close> bits.
\<close>

definition pad10star1 :: "nat \<Rightarrow> nat \<Rightarrow> bool list" where
  "pad10star1 x m = True # replicate (nat ((- int m - 2) mod int x)) False @ [True]"

definition byte_of_bits :: "bool list \<Rightarrow> byte" where
  "byte_of_bits bs = horner_sum of_bool 2 bs"

definition bytes_of_bits :: "bool list \<Rightarrow> byte list" where
  "bytes_of_bits bs = map byte_of_bits (chunks 8 bs)"

definition bits_of_bytes :: "byte list \<Rightarrow> bool list" where
  "bits_of_bytes m = concat (map (\<lambda>b. map (bit b) [0..<8]) m)"

definition absorb_spec :: "nat \<Rightarrow> u64 list \<Rightarrow> byte list \<Rightarrow> u64 list" where
  "absorb_spec r A b =
     keccak_f_spec (map (\<lambda>i. if 8 * i < r then A ! i XOR sph_dec64le (take 8 (drop (8 * i) b)) else A ! i)
       [0..<25])"

text \<open>Squeezing \<open>d\<close> bytes, with \<open>d\<close> at most the rate, needs no further permutation.\<close>

definition keccak_spec :: "nat \<Rightarrow> nat \<Rightarrow> bool list \<Rightarrow> byte list" where
  "keccak_spec r d M =
     take d (concat (map sph_enc64le
       (foldl (absorb_spec r) (replicate 25 0)
         (chunks r (bytes_of_bits (M @ pad10star1 (8 * r) (length M)))))))"

lemma length_mk_state [simp]: "length (mk_state g) = 25"
  by (simp add: mk_state_def)

lemma length_bits_of_bytes [simp]: "length (bits_of_bytes m) = 8 * length m"
  by (induction m) (simp_all add: bits_of_bytes_def)

lemma bits_of_bytes_Cons: "bits_of_bytes (b # m) = map (bit b) [0..<8] @ bits_of_bytes m"
  by (simp add: bits_of_bytes_def)

lemma bytes_of_bits_Cons: "length bs = 8 \<Longrightarrow> bytes_of_bits (bs @ x) = byte_of_bits bs # bytes_of_bits x"
  by (simp add: bytes_of_bits_def chunks_Cons)

lemma bytes_of_bits_Nil [simp]: "bytes_of_bits [] = []"
  by (simp add: bytes_of_bits_def chunks_short)

lemma bit_byte_of_bits: "length bs = 8 \<Longrightarrow> bit (byte_of_bits bs) i \<longleftrightarrow> i < 8 \<and> bs ! i"
  by (simp add: byte_of_bits_def bit_horner_sum_bit_word_iff)

lemma bytes_of_bits_of_bytes: "bytes_of_bits (bits_of_bytes m @ x) = m @ bytes_of_bits x"
proof (induction m)
  case (Cons b m)
  have "byte_of_bits (map (bit b) [0..<8]) = b"
    by (rule bit_word_eqI) (simp add: bit_byte_of_bits)
  then show ?case
    using Cons by (simp add: bits_of_bytes_Cons bytes_of_bits_Cons)
qed (simp add: bits_of_bytes_def)

text \<open>
  The padding of a message that ends with \<open>n\<close> bits in its last block, when \<open>k\<close> bytes of
  the block sequence are left for them.
\<close>

lemma pad10star1_left:
  assumes "L + k = r * c" and "n + 2 \<le> 8 * k" and "8 * k < n + 2 + 8 * r"
  shows "pad10star1 (8 * r) (8 * L + n) = True # replicate (8 * k - n - 2) False @ [True]"
proof -
  have "int (L + k) = int (r * c)" using assms(1) by simp
  then have i: "int L + int k = int r * int c" by simp
  have "int L = int r * int c - int k" using i by linarith
  then have "- int (8 * L + n) - 2 = 8 * (int k - int r * int c) - int n - 2"
    by simp
  also have "\<dots> = (8 * int k - int n - 2) + int (8 * r) * (- int c)"
    by (simp add: algebra_simps)
  finally have "(- int (8 * L + n) - 2) mod int (8 * r) = (8 * int k - int n - 2) mod int (8 * r)"
    by (simp only: mod_mult_self2)
  also have "\<dots> = 8 * int k - int n - 2"
    using assms by (intro mod_pos_pos_trivial) auto
  finally show ?thesis using assms(2) by (simp add: pad10star1_def nat_diff_distrib nat_mult_distrib)
qed

lemma bytes_of_bits_zeros: "bytes_of_bits (replicate (8 * k) False @ x) = replicate k 0 @ bytes_of_bits x"
proof (induction k)
  case (Suc k)
  have "byte_of_bits (replicate 8 False) = 0"
    by (rule bit_word_eqI) (simp add: bit_byte_of_bits)
  moreover have "replicate (8 * Suc k) False = replicate 8 False @ replicate (8 * k) False"
    by (simp add: replicate_add [symmetric])
  ultimately show ?case using Suc by (simp add: bytes_of_bits_Cons)
qed simp

text \<open>The bytes of the last \<open>n < 8\<close> bits and their padding.\<close>

lemma bytes_of_last:
  assumes "length t = n" and "n < 8" and "n + 2 \<le> 8 * k"
  shows "bytes_of_bits (t @ True # replicate (8 * k - n - 2) False @ [True]) =
    (if k = 1 then [byte_of_bits (t @ True # replicate (6 - n) False @ [True])]
     else byte_of_bits (t @ True # replicate (7 - n) False) # replicate (k - 2) 0 @ [0x80])"
proof (cases "k = 1")
  case True
  then show ?thesis
    using assms bytes_of_bits_Cons [of "t @ True # replicate (6 - n) False @ [True]" "[]"] by simp
next
  case False
  with assms have k: "2 \<le> k" by linarith
  then have "8 * k - n - 2 = (7 - n) + (8 * (k - 2) + 7)"
    using assms by linarith
  then have "replicate (8 * k - n - 2) False =
      replicate (7 - n) False @ replicate (8 * (k - 2)) False @ replicate 7 False"
    by (simp only: replicate_add)
  then have "t @ True # replicate (8 * k - n - 2) False @ [True] =
      (t @ True # replicate (7 - n) False) @ replicate (8 * (k - 2)) False @ (replicate 7 False @ [True])"
    by simp
  moreover have "bytes_of_bits (replicate 7 False @ [True]) = [0x80]"
    by code_simp
  moreover have "length (t @ True # replicate (7 - n) False) = 8"
    using assms by simp
  ultimately show ?thesis
    using False by (simp only: bytes_of_bits_Cons bytes_of_bits_zeros) simp
qed

end
