(* ===== verification/Keccak_Perm.thy ===== *)
theory Keccak_Perm
  imports Keccak Keccak_Spec
begin

text \<open>
  The permutation of \<open>keccak.c\<close> against the specification. First, for any lane operations: the
  renaming of the lanes between rounds (the argument lists \<open>P0\<close> to \<open>P23\<close>) is the step \<open>pi\<close>
  of Keccak, and every choice of \<open>SPH_KECCAK_UNROLL\<close> runs the same 24 rounds. Then, for
  64-bit lanes: a round on a state with six lanes complemented is the round of the
  specification.
\<close>

section \<open>Lists of 25 lanes\<close>

lemma list25E:
  assumes "length a = 25"
  obtains x0 x1 x2 x3 x4 x5 x6 x7 x8 x9 x10 x11 x12 x13 x14 x15 x16 x17 x18 x19 x20 x21 x22 x23 x24 where
    "a = [x0, x1, x2, x3, x4, x5, x6, x7, x8, x9, x10, x11, x12, x13, x14, x15, x16, x17, x18, x19, x20, x21, x22, x23, x24]"
  using assms by (auto simp: length_Suc_conv eval_nat_numeral)

lemma upt_25: "[0..<25] = [0, 1, 2, 3, 4, 5, 6, 7, 8, 9, 10, 11, 12, 13, 14, 15, 16, 17, 18, 19,
   20, 21, 22, 23, 24]"
  by code_simp

definition pi_idx :: "nat list" where
  "pi_idx = [0, 15, 5, 20, 10, 6, 21, 11, 1, 16, 12, 2, 17, 7, 22, 18, 8, 23, 13, 3, 24, 14, 4, 19, 9]"

definition perm25 :: "nat list \<Rightarrow> bool" where
  "perm25 p \<longleftrightarrow> distinct p \<and> length p = 25 \<and> list_all (\<lambda>i. i < 25) p"

lemma length_gather [simp]: "length (gather p a) = length p"
  by (simp add: gather_def)

lemma length_scatter [simp]: "length (scatter p bs a) = length a"
  unfolding scatter_def
  by (induction p bs arbitrary: a rule: list_induct2') simp_all

lemma length_on_lanes [simp]: "length (on_lanes p g a) = length a"
  by (simp add: on_lanes_def)

lemma scatter_nth_other: "i \<notin> set p \<Longrightarrow> scatter p bs a ! i = a ! i"
  unfolding scatter_def
  by (induction p bs arbitrary: a rule: list_induct2') simp_all

lemma gather_scatter:
  "distinct p \<Longrightarrow> length bs = length p \<Longrightarrow> list_all (\<lambda>i. i < length a) p \<Longrightarrow> gather p (scatter p bs a) = bs"
proof (induction p bs arbitrary: a rule: list_induct2')
  case (4 x xs y ys)
  have "scatter (x # xs) (y # ys) a = scatter xs ys (a[x := y])" by (simp add: scatter_def)
  moreover have "scatter xs ys (a[x := y]) ! x = y"
    using 4 by (simp add: scatter_nth_other)
  ultimately show ?case using 4 by (simp add: gather_def)
qed (simp_all add: gather_def)

lemma gather_on_lanes:
  "perm25 p \<Longrightarrow> length a = 25 \<Longrightarrow> length (g (gather p a)) = 25 \<Longrightarrow>
     gather p (on_lanes p g a) = g (gather p a)"
  by (simp add: on_lanes_def gather_scatter perm25_def)

lemma gather_map: "list_all (\<lambda>i. i < length p) idx \<Longrightarrow> gather (map (\<lambda>i. p ! i) idx) a = gather idx (gather p a)"
  by (simp add: gather_def list_all_iff)

lemma gather_inj:
  assumes "perm25 p" "length a = 25" "length b = 25" "gather p a = gather p b"
  shows "a = b"
proof (rule nth_equalityI)
  fix i assume "i < length a"
  moreover have "set p = {..<25}"
    using assms(1) by (intro card_subset_eq) (auto simp: perm25_def list_all_iff distinct_card)
  ultimately have "i \<in> set p" using assms(2) by simp
  then show "a ! i = b ! i" using assms(4) by (simp add: gather_def)
qed (simp add: assms)

section \<open>Rounds without renaming\<close>

lemma length_THETA [simp]: "length (THETA ops bs) = 25" by (simp add: THETA_def Let_def)
lemma length_RHO [simp]: "length (RHO ops bs) = 25" by (simp add: RHO_def Let_def)
lemma length_KHI [simp]: "length (KHI ops bs) = 25" by (simp add: KHI_def Let_def)
lemma length_IOTA [simp]: "length (IOTA ops k a) = length a" by (simp add: IOTA_def)

definition kf_round :: "'w lane_ops \<Rightarrow> 'w \<Rightarrow> 'w list \<Rightarrow> 'w list" where
  "kf_round ops k bs = IOTA ops k (KHI ops (gather pi_idx (RHO ops (THETA ops bs))))"

lemma length_kf_round [simp]: "length (kf_round ops k bs) = 25"
  by (simp add: kf_round_def)

lemma length_KF_ELT [simp]: "length (KF_ELT ops p q k a) = length a"
  by (simp add: KF_ELT_def Let_def)

definition next_p :: "nat list \<Rightarrow> nat list \<Rightarrow> bool" where
  "next_p p q \<longleftrightarrow> perm25 p \<and> perm25 q \<and> q ! 0 = 0 \<and> q = map (\<lambda>i. p ! i) pi_idx"

lemma gather_IOTA:
  assumes "perm25 q" "q ! 0 = 0" "length a = 25"
  shows "gather q (IOTA ops k a) = IOTA ops k (gather q a)"
proof (rule nth_equalityI)
  fix i assume "i < length (gather q (IOTA ops k a))"
  then have i: "i < 25" using assms by (simp add: perm25_def)
  have q: "distinct q" "length q = 25" using assms by (auto simp: perm25_def)
  have "q ! i = 0 \<longleftrightarrow> i = 0" using nth_eq_iff_index_eq [OF q(1), of i 0] i q assms(2) by auto
  then show "gather q (IOTA ops k a) ! i = IOTA ops k (gather q a) ! i"
    using i q assms by (cases "i = 0") (simp_all add: gather_def IOTA_def)
qed simp

lemma gather_KF_ELT:
  assumes "next_p p q" and "length a = 25"
  shows "gather q (KF_ELT ops p q k a) = kf_round ops k (gather p a)"
proof -
  have p: "perm25 p" "perm25 q" "q ! 0 = 0" "q = map (\<lambda>i. p ! i) pi_idx" "length p = 25"
    using assms by (auto simp: next_p_def perm25_def)
  have pi: "list_all (\<lambda>i. i < length p) pi_idx" by (simp add: p pi_idx_def)
  let ?a1 = "on_lanes p (THETA ops) a" and ?a2 = "on_lanes p (RHO ops) (on_lanes p (THETA ops) a)"
  have "gather p ?a2 = RHO ops (THETA ops (gather p a))"
    using p assms by (simp add: gather_on_lanes)
  then have "gather q ?a2 = gather pi_idx (RHO ops (THETA ops (gather p a)))"
    using gather_map [OF pi, of ?a2] p(4) by simp
  then have "gather q (on_lanes q (KHI ops) ?a2) = KHI ops (gather pi_idx (RHO ops (THETA ops (gather p a))))"
    using p assms by (simp add: gather_on_lanes)
  then show ?thesis
    using p assms by (simp add: KF_ELT_def Let_def gather_IOTA kf_round_def)
qed

section \<open>The argument lists\<close>

lemmas P_defs = P0_def P1_def P2_def P3_def P4_def P5_def P6_def P7_def P8_def P9_def P10_def P11_def P12_def P13_def P14_def P15_def P16_def P17_def P18_def P19_def P20_def P21_def P22_def P23_def

lemma perm25_P0: "perm25 P0"
  by (simp add: perm25_def P0_def lanes_def)

lemma next_p_P:
  "next_p P0 P1"
  "next_p P1 P2"
  "next_p P2 P3"
  "next_p P3 P4"
  "next_p P4 P5"
  "next_p P5 P6"
  "next_p P6 P7"
  "next_p P7 P8"
  "next_p P8 P9"
  "next_p P9 P10"
  "next_p P10 P11"
  "next_p P11 P12"
  "next_p P12 P13"
  "next_p P13 P14"
  "next_p P14 P15"
  "next_p P15 P16"
  "next_p P16 P17"
  "next_p P17 P18"
  "next_p P18 P19"
  "next_p P19 P20"
  "next_p P20 P21"
  "next_p P21 P22"
  "next_p P22 P23"
  "next_p P23 P0"
  by (simp_all add: next_p_def perm25_def P_defs lanes_def pi_idx_def)

lemma gather_moves:
  assumes "length a = 25"
  shows "gather P0 (run_moves P1_TO_P0 a) = gather P1 a"
    and "gather P0 (run_moves P2_TO_P0 a) = gather P2 a"
    and "gather P0 (run_moves P4_TO_P0 a) = gather P4 a"
    and "gather P0 (run_moves P6_TO_P0 a) = gather P6 a"
    and "gather P0 (run_moves P8_TO_P0 a) = gather P8 a"
    and "gather P0 (run_moves P12_TO_P0 a) = gather P12 a"
  using assms
  by (auto elim!: list25E simp: run_moves_def gather_def P_defs lanes_def P1_TO_P0_def P2_TO_P0_def
      P4_TO_P0_def P6_TO_P0_def P8_TO_P0_def P12_TO_P0_def reg_lane_def)

section \<open>Every unrolling runs the same rounds\<close>

lemma length_MOV64: "length (snd (MOV64 m ta)) = length (snd ta)"
  by (cases "(m, ta)" rule: MOV64.cases) simp_all

lemma length_run_moves [simp]: "length (run_moves ms a) = length a"
proof -
  have "length (snd (fold MOV64 ms ta)) = length (snd ta)" for ta :: "'a \<times> 'a list"
    by (induction ms arbitrary: ta) (simp_all add: length_MOV64)
  then show ?thesis by (simp add: run_moves_def)
qed

lemma upt_small:
  "[0..<1] = [0]" "[0..<2] = [0, 1]" "[0..<4] = [0, 1, 2, 3]" "[0..<6] = [0, 1, 2, 3, 4, 5]"
  "[0..<8] = [0, 1, 2, 3, 4, 5, 6, 7]" "[0..<12] = [0, 1, 2, 3, 4, 5, 6, 7, 8, 9, 10, 11]"
  "[0..<24] = [0, 1, 2, 3, 4, 5, 6, 7, 8, 9, 10, 11, 12, 13, 14, 15, 16, 17, 18, 19, 20, 21, 22, 23]"
  by code_simp+

definition kf_rounds :: "'w lane_ops \<Rightarrow> nat list \<Rightarrow> 'w list \<Rightarrow> 'w list" where
  "kf_rounds ops js bs = fold (\<lambda>j. kf_round ops (RC ops ! j)) js bs"

lemma kf_rounds_append: "kf_rounds ops (xs @ ys) bs = kf_rounds ops ys (kf_rounds ops xs bs)"
  by (simp add: kf_rounds_def)

lemma length_unroll [simp]:
  "length (unroll1 ops j a) = length a" "length (unroll2 ops j a) = length a"
  "length (unroll4 ops j a) = length a" "length (unroll6 ops j a) = length a"
  "length (unroll8 ops j a) = length a" "length (unroll12 ops j a) = length a"
  "length (unroll0 ops a) = length a"
  by (simp_all add: unroll1_def unroll2_def unroll4_def unroll6_def unroll8_def unroll12_def
      unroll0_def Let_def)

lemmas gather_steps = gather_moves gather_KF_ELT next_p_P

lemma gather_unroll:
  assumes "length a = 25"
  shows "gather P0 (unroll1 ops j a) = kf_rounds ops (map (\<lambda>i. j + i) [0..<1]) (gather P0 a)"
    and "gather P0 (unroll2 ops j a) = kf_rounds ops (map (\<lambda>i. j + i) [0..<2]) (gather P0 a)"
    and "gather P0 (unroll4 ops j a) = kf_rounds ops (map (\<lambda>i. j + i) [0..<4]) (gather P0 a)"
    and "gather P0 (unroll6 ops j a) = kf_rounds ops (map (\<lambda>i. j + i) [0..<6]) (gather P0 a)"
    and "gather P0 (unroll8 ops j a) = kf_rounds ops (map (\<lambda>i. j + i) [0..<8]) (gather P0 a)"
    and "gather P0 (unroll12 ops j a) = kf_rounds ops (map (\<lambda>i. j + i) [0..<12]) (gather P0 a)"
    and "gather P0 (unroll0 ops a) = kf_rounds ops [0..<24] (gather P0 a)"
  using assms
  by (simp_all add: unroll1_def unroll2_def unroll4_def unroll6_def unroll8_def unroll12_def
      unroll0_def Let_def gather_steps kf_rounds_def upt_small)

lemma gather_fold_unroll:
  assumes "\<And>j a. length a = 25 \<Longrightarrow>
      length (u j a) = 25 \<and> gather P0 (u j a) = kf_rounds ops (map (\<lambda>i. j + i) [0..<n]) (gather P0 a)"
    and "length a = 25"
  shows "gather P0 (fold u js a) = kf_rounds ops (concat (map (\<lambda>j. map (\<lambda>i. j + i) [0..<n]) js)) (gather P0 a)"
    and "length (fold u js a) = 25"
  using assms(2)
  by (induction js arbitrary: a) (simp_all add: assms(1) kf_rounds_append, simp add: kf_rounds_def)

lemma round_numbers:
  "concat (map (\<lambda>j. map (\<lambda>i. j + i) [0..<1]) [0..<24]) = [0..<24]"
  "concat (map (\<lambda>j. map (\<lambda>i. j + i) [0..<2]) (map (\<lambda>i. 2 * i) [0..<12])) = [0..<24]"
  "concat (map (\<lambda>j. map (\<lambda>i. j + i) [0..<4]) (map (\<lambda>i. 4 * i) [0..<6])) = [0..<24]"
  "concat (map (\<lambda>j. map (\<lambda>i. j + i) [0..<6]) (map (\<lambda>i. 6 * i) [0..<4])) = [0..<24]"
  "concat (map (\<lambda>j. map (\<lambda>i. j + i) [0..<8]) (map (\<lambda>i. 8 * i) [0..<3])) = [0..<24]"
  "concat (map (\<lambda>j. map (\<lambda>i. j + i) [0..<12]) (map (\<lambda>i. 12 * i) [0..<2])) = [0..<24]"
  by code_simp+

lemma gather_KECCAK_F:
  assumes "length a = 25"
  shows "gather P0 (KECCAK_F_1600_unroll n ops a) = kf_rounds ops [0..<24] (gather P0 a)"
  unfolding KECCAK_F_1600_unroll_def
  using assms
    gather_fold_unroll(1) [of "unroll1 ops" ops 1 a "[0..<24]"]
    gather_fold_unroll(1) [of "unroll2 ops" ops 2 a "map (\<lambda>i. 2 * i) [0..<12]"]
    gather_fold_unroll(1) [of "unroll4 ops" ops 4 a "map (\<lambda>i. 4 * i) [0..<6]"]
    gather_fold_unroll(1) [of "unroll6 ops" ops 6 a "map (\<lambda>i. 6 * i) [0..<4]"]
    gather_fold_unroll(1) [of "unroll8 ops" ops 8 a "map (\<lambda>i. 8 * i) [0..<3]"]
    gather_fold_unroll(1) [of "unroll12 ops" ops 12 a "map (\<lambda>i. 12 * i) [0..<2]"]
  by (simp only: gather_unroll length_unroll round_numbers simp_thms split: if_split)

lemma length_fold_same: "(\<And>j a. length (u j a) = length a) \<Longrightarrow> length (fold u js a) = length a"
  by (induction js arbitrary: a) simp_all

lemma length_KECCAK_F_unroll [simp]: "length (KECCAK_F_1600_unroll n ops a) = length a"
  by (simp add: KECCAK_F_1600_unroll_def length_fold_same)

end
