(* ===== verification/Keccak_Wide.thy ===== *)
theory Keccak_Wide
  imports Keccak_Perm
begin

text \<open>
  The permutation on 64-bit lanes computes Keccak-f[1600] of the specification on the state
  with six lanes complemented (the \<^emph>\<open>lane complement\<close> optimisation of \<open>keccak.c\<close>).
\<close>

section \<open>Tables\<close>

fun lfsr_bits :: "nat \<Rightarrow> bool list \<Rightarrow> bool list" where
  "lfsr_bits 0 R = []"
| "lfsr_bits (Suc n) R = hd R # lfsr_bits n (lfsr_step R)"

lemma lfsr_bits_nth: "t < n \<Longrightarrow> lfsr_bits n R ! t = hd ((lfsr_step ^^ t) R)"
proof (induction n arbitrary: t R)
  case (Suc n)
  then show ?case by (cases t) (simp_all add: funpow_swap1)
qed simp

definition lfsr_table :: "bool list" where
  "lfsr_table =
    [True, False, False, False, False, False, False, False, True, False, True, True, False,
     False, False, True, True, True, True, False, True, False, False, False, False, True, True,
     True, True, True, True, True, True, False, False, True, False, False, False, False, True,
     False, True, False, False, True, True, True, True, True, False, True, False, True, False,
     True, False, True, True, True, False, False, False, False, False, True, True, False,
     False, False, True, False, True, False, True, True, False, False, True, True, False,
     False, True, False, True, True, True, True, True, True, False, True, True, True, True,
     False, False, True, True, False, True, True, True, False, True, True, True, False, False,
     True, False, True, False, True, False, False, True, False, True, False, False, False,
     True, False, False, True, False, True, True, False, True, False, False, False, True, True,
     False, False, True, True, True, False, False, True, True, True, True, False, False, False,
     True, True, False, True, True, False, False, False, False, True, False, False, False,
     True, False, True, True, True]"

lemma lfsr_168: "lfsr_bits 168 [True, False, False, False, False, False, False, False] = lfsr_table"
  by code_simp

lemma rc_bit_168: "t < 168 \<Longrightarrow> rc_bit t = lfsr_table ! t"
  by (simp add: rc_bit_def lfsr_def lfsr_bits_nth lfsr_168 [symmetric])

definition rc_table :: "nat \<Rightarrow> u64" where
  "rc_table ir = foldr (OR) (map (\<lambda>j. if lfsr_table ! (j + 7 * ir) then push_bit (2 ^ j - 1) 1 else 0) [0..<7]) 0"

lemma rc_spec_table: "ir < 24 \<Longrightarrow> rc_spec ir = rc_table ir"
  by (auto simp: rc_spec_def rc_table_def rc_bit_168 intro!: arg_cong [where f = "\<lambda>l. foldr (OR) l 0"])

lemma upt_7: "[0..<7] = [0, 1, 2, 3, 4, 5, 6]"
  by code_simp

lemma RC_wide_table: "RC_wide = map rc_table [0..<24]"
  by (simp add: RC_wide_def rc_table_def upt_small upt_7 lfsr_table_def)

lemma RC_wide_spec: "RC_wide = map rc_spec [0..<24]"
  by (simp add: RC_wide_table rc_spec_table)

lemma rho_table: "rho_walk 24 0 1 0 =
    [((1, 0), 1), ((0, 2), 3), ((2, 1), 6), ((1, 2), 10), ((2, 3), 15), ((3, 3), 21),
     ((3, 0), 28), ((0, 1), 36), ((1, 3), 45), ((3, 1), 55), ((1, 4), 2), ((4, 4), 14),
     ((4, 0), 27), ((0, 3), 41), ((3, 4), 56), ((4, 3), 8), ((3, 2), 25), ((2, 2), 43),
     ((2, 0), 62), ((0, 4), 18), ((4, 2), 39), ((2, 4), 61), ((4, 1), 20), ((1, 1), 44)]"
  by code_simp

lemma rho_offsets:
  "rho_offset 0 0 = 0" "rho_offset (Suc 0) 0 = 1" "rho_offset 2 0 = 62" "rho_offset 3 0 = 28" "rho_offset 4 0 = 27"
  "rho_offset 0 (Suc 0) = 36" "rho_offset (Suc 0) (Suc 0) = 44" "rho_offset 2 (Suc 0) = 6" "rho_offset 3 (Suc 0) = 55"
  "rho_offset 4 (Suc 0) = 20"
  "rho_offset 0 2 = 3" "rho_offset (Suc 0) 2 = 10" "rho_offset 2 2 = 43" "rho_offset 3 2 = 25" "rho_offset 4 2 = 39"
  "rho_offset 0 3 = 41" "rho_offset (Suc 0) 3 = 45" "rho_offset 2 3 = 15" "rho_offset 3 3 = 21" "rho_offset 4 3 = 8"
  "rho_offset 0 4 = 18" "rho_offset (Suc 0) 4 = 2" "rho_offset 2 4 = 61" "rho_offset 3 4 = 56" "rho_offset 4 4 = 14"
  unfolding rho_offset_def rho_table by simp_all

section \<open>Complement and rotation\<close>

lemma rotl_NOT: "word_rotl n (NOT x) = NOT (word_rotl n (x :: u64))"
  by (rule bit_word_eqI) (simp add: bit_word_rotl_iff bit_not_iff)

lemma rotl_0: "word_rotl 0 (x :: u64) = x"
  by (rule bit_word_eqI) (simp add: bit_word_rotl_iff)

lemma rotl_XOR: "word_rotl n (x XOR y) = word_rotl n x XOR word_rotl n (y :: u64)"
  by (rule bit_word_eqI) (simp add: bit_word_rotl_iff bit_xor_iff)

lemma XOR_NOT: "NOT x XOR y = NOT (x XOR y)" "x XOR NOT y = NOT (x XOR (y :: u64))"
  by (simp_all add: bit.xor_compl_left bit.xor_compl_right)

definition mask_lanes :: "nat list \<Rightarrow> u64 list \<Rightarrow> u64 list" where
  "mask_lanes m A = map (\<lambda>i. if i \<in> set m then NOT (A ! i) else A ! i) [0..<25]"

definition out_mask :: "nat list" where
  "out_mask = [1, 2, 8, 12, 17, 20]"

text \<open>The lanes that the comment before \<open>KHI\<close> lists as complemented on its input.\<close>

definition khi_mask :: "nat list" where
  "khi_mask = lanes [0, 1, 2, 4, 13, 20, 21, 22, 30, 33, 34, 43]"

lemma length_mask_lanes [simp]: "length (mask_lanes m A) = 25"
  by (simp add: mask_lanes_def)

lemma wide_ops_simps [simp]:
  "XOR64 wide_ops = (XOR)" "AND64 wide_ops = (AND)" "OR64 wide_ops = (OR)" "NOT64 wide_ops = NOT"
  "ROL64 wide_ops = SPH_ROTL64" "RC wide_ops = RC_wide"
  by (simp_all add: wide_ops_def)

definition par5 :: "u64 \<Rightarrow> u64 \<Rightarrow> u64 \<Rightarrow> u64 \<Rightarrow> u64 \<Rightarrow> u64" where
  "par5 a b c d e = a XOR b XOR c XOR d XOR e"

lemma par5_NOT:
  "par5 (NOT a) b c d e = NOT (par5 a b c d e)" "par5 a (NOT b) c d e = NOT (par5 a b c d e)"
  "par5 a b (NOT c) d e = NOT (par5 a b c d e)" "par5 a b c (NOT d) e = NOT (par5 a b c d e)"
  "par5 a b c d (NOT e) = NOT (par5 a b c d e)"
  by (simp_all add: par5_def XOR_NOT)

lemma TH_ELT_wide:
  "TH_ELT wide_ops c0 c1 c2 c3 c4 d0 d1 d2 d3 d4 =
     par5 c0 c1 c2 c3 c4 XOR word_rotl 1 (par5 d0 d1 d2 d3 d4)"
  by (simp add: TH_ELT_def Let_def par5_def SPH_ROTL64_word_rotl rotl_XOR ac_simps)

lemma col_parity_par5: "col_parity A x = par5 (lane A x 0) (lane A x 1) (lane A x 2) (lane A x 3) (lane A x 4)"
  by (simp add: col_parity_def par5_def)

text \<open>The lanes that are complemented between \<open>THETA\<close> and \<open>RHO\<close>.\<close>

definition rho_mask :: "nat list" where
  "rho_mask = [0, 1, 2, 3, 5, 10, 12, 13, 15, 17, 18, 23]"

lemma theta_wide:
  assumes "length A = 25"
  shows "THETA wide_ops (gather P0 (mask_lanes out_mask A)) = gather P0 (mask_lanes rho_mask (theta_spec A))"
  using assms
  apply (elim list25E)
  apply (simp only: gather_def P0_def lanes_def mask_lanes_def out_mask_def rho_mask_def upt_25)
  apply simp
  apply (simp only: THETA_def Let_def)
  apply (simp add: TH_ELT_wide par5_NOT rotl_NOT XOR_NOT)
  apply (simp add: theta_spec_def mk_state_def col_parity_par5 lane_def upt_25 XOR_NOT xor.assoc)
  done

lemma rho_pi_wide:
  assumes "length B = 25"
  shows "gather pi_idx (RHO wide_ops (gather P0 (mask_lanes rho_mask B))) =
    gather P0 (mask_lanes khi_mask (pi_spec (rho_spec B)))"
  using assms
  apply (elim list25E)
  apply (simp only: gather_def pi_idx_def P0_def lanes_def mask_lanes_def rho_mask_def khi_mask_def upt_25)
  apply simp
  apply (simp add: RHO_def Let_def pi_spec_def rho_spec_def mk_state_def lane_def upt_25 rho_offsets
     SPH_ROTL64_word_rotl rotl_0 rotl_NOT)
  done

lemma khi_wide:
  assumes "length B = 25"
  shows "KHI wide_ops (gather P0 (mask_lanes khi_mask B)) = gather P0 (mask_lanes out_mask (chi_spec B))"
  using assms
  apply (elim list25E)
  apply (simp add: gather_def P0_def lanes_def mask_lanes_def out_mask_def khi_mask_def upt_25
      KHI_def KHI_XO_def KHI_XA_def Let_def chi_spec_def mk_state_def lane_def)
  apply (intro conjI; rule bit_word_eqI; simp add: bit_simps; blast)
  done

section \<open>Rounds and the permutation\<close>

lemma length_spec_steps [simp]:
  "length (theta_spec A) = 25" "length (rho_spec A) = 25" "length (pi_spec A) = 25" "length (chi_spec A) = 25"
  "length (round_spec k A) = 25"
  by (simp_all add: theta_spec_def rho_spec_def pi_spec_def chi_spec_def round_spec_def iota_spec_def)

lemma iota_wide:
  assumes "length B = 25"
  shows "IOTA wide_ops k (gather P0 (mask_lanes out_mask B)) = gather P0 (mask_lanes out_mask (iota_spec k B))"
proof -
  have "mask_lanes out_mask (iota_spec k B) = IOTA wide_ops k (mask_lanes out_mask B)"
    using assms
    by (intro nth_equalityI) (auto simp: mask_lanes_def out_mask_def iota_spec_def IOTA_def nth_list_update)
  moreover have "P0 ! 0 = 0" by (simp add: P0_def lanes_def)
  ultimately show ?thesis by (simp add: gather_IOTA perm25_P0)
qed

lemma round_wide:
  "length A = 25 \<Longrightarrow> kf_round wide_ops k (gather P0 (mask_lanes out_mask A)) =
     gather P0 (mask_lanes out_mask (round_spec k A))"
  by (simp add: kf_round_def theta_wide rho_pi_wide khi_wide iota_wide round_spec_def)

lemma rounds_wide:
  "length A = 25 \<Longrightarrow> list_all (\<lambda>j. j < 24) js \<Longrightarrow>
     kf_rounds wide_ops js (gather P0 (mask_lanes out_mask A)) =
     gather P0 (mask_lanes out_mask (fold (\<lambda>j. round_spec (rc_spec j)) js A))"
  by (induction js arbitrary: A) (simp_all add: kf_rounds_def round_wide RC_wide_spec)

lemma KECCAK_F_wide:
  assumes "length A = 25"
  shows "KECCAK_F_1600_unroll n wide_ops (mask_lanes out_mask A) = mask_lanes out_mask (keccak_f_spec A)"
proof (rule gather_inj [OF perm25_P0])
  show "gather P0 (KECCAK_F_1600_unroll n wide_ops (mask_lanes out_mask A)) =
      gather P0 (mask_lanes out_mask (keccak_f_spec A))"
    using assms rounds_wide [OF assms, of "[0..<24]"]
    by (simp add: gather_KECCAK_F keccak_f_spec_def list_all_iff)
qed simp_all

lemma mask_lanes_involutive: "length A = 25 \<Longrightarrow> mask_lanes m (mask_lanes m A) = A"
  by (intro nth_equalityI) (auto simp: mask_lanes_def)

end
