(* ===== verification/Keccak_Hash.thy ===== *)
theory Keccak_Hash
  imports Keccak_Wide
begin

text \<open>
  The streaming functions of \<open>keccak.c\<close> and the digest they compute, for each of the three
  lane representations. The locale \<open>lane_rep\<close> states what a representation must provide: a
  map from its lanes to 64-bit words under which its operations are the 64-bit ones. The
  permutation, the update and the close functions are treated once inside it.
\<close>

locale lane_rep =
  fixes ops :: "'w lane_ops"
    and rep :: "'w \<Rightarrow> u64"
  assumes rep_XOR64: "rep (XOR64 ops a b) = rep a XOR rep b"
    and rep_AND64: "rep (AND64 ops a b) = rep a AND rep b"
    and rep_OR64: "rep (OR64 ops a b) = rep a OR rep b"
    and rep_NOT64: "rep (NOT64 ops a) = NOT (rep a)"
    and rep_ROL64: "n < 64 \<Longrightarrow> rep (ROL64 ops a n) = SPH_ROTL64 (rep a) n"
    and rep_RC: "map rep (RC ops) = RC_wide"
    and rep_ZERO64: "rep (ZERO64 ops) = 0"
    and rep_ONES64: "rep (ONES64 ops) = 0xFFFFFFFFFFFFFFFF"
    and rep_READ64: "length bs = 8 \<Longrightarrow> rep (READ64 ops bs) = sph_dec64le bs"
    and rep_OUTPUT: "length u = 25 \<Longrightarrow> d \<le> 200 \<Longrightarrow> 4 dvd d \<Longrightarrow>
      d \<le> length (OUTPUT ops d u) \<and> length (OUTPUT ops d u) \<le> d + 4 \<and>
      take d (OUTPUT ops d u) = take d (concat (map (\<lambda>x. sph_enc64le (rep x)) u))"
begin

lemmas rep_ops = rep_XOR64 rep_AND64 rep_OR64 rep_NOT64 rep_ROL64

lemma rep_THETA: "length bs = 25 \<Longrightarrow> map rep (THETA ops bs) = THETA wide_ops (map rep bs)"
  by (simp add: THETA_def TH_ELT_def Let_def rep_ops)

lemma rep_RHO: "length bs = 25 \<Longrightarrow> map rep (RHO ops bs) = RHO wide_ops (map rep bs)"
  by (simp add: RHO_def Let_def rep_ops)

lemma rep_KHI: "length bs = 25 \<Longrightarrow> map rep (KHI ops bs) = KHI wide_ops (map rep bs)"
  by (simp add: KHI_def KHI_XO_def KHI_XA_def Let_def rep_ops)

lemma rep_IOTA: "0 < length bs \<Longrightarrow> map rep (IOTA ops k bs) = IOTA wide_ops (rep k) (map rep bs)"
  by (simp add: IOTA_def map_update rep_XOR64)

lemma rep_gather: "list_all (\<lambda>i. i < length a) p \<Longrightarrow> map rep (gather p a) = gather p (map rep a)"
  by (simp add: gather_def list_all_iff)

lemma rep_kf_round: "length bs = 25 \<Longrightarrow> map rep (kf_round ops k bs) = kf_round wide_ops (rep k) (map rep bs)"
  by (simp add: kf_round_def rep_IOTA rep_KHI rep_gather rep_RHO rep_THETA pi_idx_def)

lemma rep_kf_rounds:
  "length bs = 25 \<Longrightarrow> list_all (\<lambda>j. j < 24) js \<Longrightarrow>
     map rep (kf_rounds ops js bs) = kf_rounds wide_ops js (map rep bs)"
proof (induction js arbitrary: bs)
  case (Cons j js)
  have "length (RC ops) = 24"
    using arg_cong [OF rep_RC, of length] by (simp add: RC_wide_def)
  then have "rep (RC ops ! j) = map rep (RC ops) ! j" using Cons.prems by simp
  then have "rep (RC ops ! j) = RC wide_ops ! j" by (simp add: rep_RC)
  then show ?case using Cons by (simp add: kf_rounds_def rep_kf_round)
qed (simp add: kf_rounds_def)

lemma rep_KECCAK_F:
  assumes "length a = 25"
  shows "map rep (KECCAK_F_1600_unroll n ops a) = KECCAK_F_1600_unroll m wide_ops (map rep a)"
proof (rule gather_inj [OF perm25_P0])
  have P0: "list_all (\<lambda>i. i < 25) P0" using perm25_P0 by (simp add: perm25_def)
  show "gather P0 (map rep (KECCAK_F_1600_unroll n ops a)) =
      gather P0 (KECCAK_F_1600_unroll m wide_ops (map rep a))"
    using assms P0 perm25_P0
    by (simp add: rep_gather [symmetric] gather_KECCAK_F rep_kf_rounds list_all_iff perm25_def)
qed (simp_all add: assms)

lemma length_input_lanes [simp]: "length (input_lanes o' b is u) = length u"
  unfolding input_lanes_def by (induction "is" arbitrary: u) simp_all

lemma rep_input_lanes:
  "list_all (\<lambda>i. i < length u \<and> 8 * i + 8 \<le> length b) is \<Longrightarrow>
     map rep (input_lanes ops b is u) = input_lanes wide_ops b is (map rep u)"
proof (induction "is" arbitrary: u)
  case (Cons i "is")
  let ?u = "u[i := XOR64 ops (u ! i) (READ64 ops (take 8 (drop (8 * i) b)))]"
  have l: "length (take 8 (drop (8 * i) b)) = 8" using Cons.prems by (auto simp: min_def)
  have "map rep ?u = (map rep u)[i := map rep u ! i XOR sph_dec64le (take 8 (drop (8 * i) b))]"
    using Cons.prems by (simp add: map_update rep_XOR64 rep_READ64 [OF l])
  moreover have "map rep (input_lanes ops b is ?u) = input_lanes wide_ops b is (map rep ?u)"
    using Cons by simp
  ultimately show ?case by (simp add: input_lanes_def wide_ops_def)
qed (simp add: input_lanes_def)

end

section \<open>Absorbing a block\<close>

definition keccak_step :: "'w lane_ops \<Rightarrow> nat \<Rightarrow> 'w list \<Rightarrow> byte list \<Rightarrow> 'w list" where
  "keccak_step ops lim u b = KECCAK_F_1600 ops (INPUT_BUF ops lim b u)"

text \<open>The four rates, each with the digest size that \<open>DEFCLOSE\<close> pairs it with.\<close>

definition keccak_rates :: "(nat \<times> nat) list" where
  "keccak_rates = [(28, 144), (32, 136), (48, 104), (64, 72)]"

lemma keccak_ratesE:
  assumes "(d, lim) \<in> set keccak_rates"
  obtains "d = 28" "lim = 144" | "d = 32" "lim = 136" | "d = 48" "lim = 104" | "d = 64" "lim = 72"
  using assms by (auto simp: keccak_rates_def)

lemma input_lanes_take:
  "list_all (\<lambda>i. 8 * i + 8 \<le> n) is \<Longrightarrow> input_lanes ops (take n b) is u = input_lanes ops b is u"
  unfolding input_lanes_def
proof (induction "is" arbitrary: u)
  case (Cons i "is")
  then have "take 8 (drop (8 * i) (take n b)) = take 8 (drop (8 * i) b)"
    by (simp add: take_drop min_def)
  with Cons show ?case by simp
qed simp

lemma INPUT_BUF_take:
  assumes "(d, lim) \<in> set keccak_rates"
  shows "INPUT_BUF ops lim (take lim b) u = INPUT_BUF ops lim b u"
  unfolding INPUT_BUF_def
  using assms by (intro input_lanes_take) (auto simp: list_all_iff elim!: keccak_ratesE)

text \<open>The variant with local copies reads the same lanes in the same order.\<close>

lemma upt_lanes:
  "[0..<9] = [0, 1, 2, 3, 4, 5, 6, 7, 8]"
  "[0..<13] = [0, 1, 2, 3, 4, 5, 6, 7, 8, 9, 10, 11, 12]"
  "[0..<17] = [0, 1, 2, 3, 4, 5, 6, 7, 8, 9, 10, 11, 12, 13, 14, 15, 16]"
  "[0..<18] = [0, 1, 2, 3, 4, 5, 6, 7, 8, 9, 10, 11, 12, 13, 14, 15, 16, 17]"
  by code_simp+

lemma INPUT_BUF_copy_eq:
  assumes "(d, lim) \<in> set keccak_rates"
  shows "INPUT_BUF_copy ops lim b u = INPUT_BUF ops lim b u"
  using assms
  by (cases rule: keccak_ratesE)
    (simp_all add: INPUT_BUF_copy_def INPUT_BUF_def input_lanes_def Let_def upt_lanes)

section \<open>The update functions\<close>

lemma keccak_block_stream:
  assumes "(d, lim) \<in> set keccak_rates"
  shows "block_stream lim 144 kc_buf (\<lambda>b. kc_buf_update (\<lambda>_. b)) kc_ptr (\<lambda>p. kc_ptr_update (\<lambda>_. p)) kc_u
    (keccak_absorb ops lim) (keccak_step ops lim) (keccak_core_loop ops lim) (keccak_core ops lim)"
proof
  show "0 < lim" "lim \<le> 144" using assms by (auto elim: keccak_ratesE)
  fix c p data
  show "keccak_core_loop ops lim c p data =
      (if data = [] then Some (c, p)
       else let clen = min (size_sub lim p) (length data)
         in Option.bind (memcpy (kc_buf c) p (take clen data)) (\<lambda>b.
            if p + clen = lim
            then keccak_core_loop ops lim (keccak_absorb ops lim (c\<lparr>kc_buf := b\<rparr>)) 0 (drop clen data)
            else keccak_core_loop ops lim (c\<lparr>kc_buf := b\<rparr>) (p + clen) (drop clen data)))"
    by (subst keccak_core_loop.simps) (rule refl)
qed (use assms in \<open>simp_all add: keccak_absorb_def keccak_step_def INPUT_BUF_take keccak_core_def\<close>)

interpretation kc28: block_stream 144 144 kc_buf "\<lambda>b. kc_buf_update (\<lambda>_. b)" kc_ptr
    "\<lambda>p. kc_ptr_update (\<lambda>_. p)" kc_u "keccak_absorb ops 144" "keccak_step ops 144"
    "keccak_core_loop ops 144" "keccak_core ops 144"
  for ops :: "'w lane_ops"
  by (rule keccak_block_stream [of 28]) (simp add: keccak_rates_def)

interpretation kc64: block_stream 72 144 kc_buf "\<lambda>b. kc_buf_update (\<lambda>_. b)" kc_ptr
    "\<lambda>p. kc_ptr_update (\<lambda>_. p)" kc_u "keccak_absorb ops 72" "keccak_step ops 72"
    "keccak_core_loop ops 72" "keccak_core ops 72"
  for ops :: "'w lane_ops"
  by (rule keccak_block_stream [of 64]) (simp add: keccak_rates_def)

interpretation kc32: block_stream 136 144 kc_buf "\<lambda>b. kc_buf_update (\<lambda>_. b)" kc_ptr
    "\<lambda>p. kc_ptr_update (\<lambda>_. p)" kc_u "keccak_absorb ops 136" "keccak_step ops 136"
    "keccak_core_loop ops 136" "keccak_core ops 136"
  for ops :: "'w lane_ops"
  by (rule keccak_block_stream [of 32]) (simp add: keccak_rates_def)

interpretation kc48: block_stream 104 144 kc_buf "\<lambda>b. kc_buf_update (\<lambda>_. b)" kc_ptr
    "\<lambda>p. kc_ptr_update (\<lambda>_. p)" kc_u "keccak_absorb ops 104" "keccak_step ops 104"
    "keccak_core_loop ops 104" "keccak_core ops 104"
  for ops :: "'w lane_ops"
  by (rule keccak_block_stream [of 48]) (simp add: keccak_rates_def)

section \<open>The state that a context stands for\<close>

text \<open>
  The abstraction undoes the representation of the lanes and the lane complement. A context
  is well formed when its buffer has the size of the C array, its fill pointer is inside the
  block and it holds 25 lanes.
\<close>

definition keccak_state :: "('w \<Rightarrow> u64) \<Rightarrow> 'w list \<Rightarrow> u64 list" where
  "keccak_state rep u = mask_lanes out_mask (map rep u)"

definition keccak_wf :: "nat \<Rightarrow> 'w sph_keccak_context \<Rightarrow> bool" where
  "keccak_wf lim kc \<longleftrightarrow> length (kc_buf kc) = 144 \<and> kc_ptr kc < lim \<and> length (kc_u kc) = 25"

definition keccak_pending :: "'w sph_keccak_context \<Rightarrow> byte list" where
  "keccak_pending kc = take (kc_ptr kc) (kc_buf kc)"

lemma length_keccak_state [simp]: "length (keccak_state rep u) = 25"
  by (simp add: keccak_state_def)

lemma nth_mask_lanes: "i < 25 \<Longrightarrow> mask_lanes m A ! i = (if i \<in> set m then NOT (A ! i) else A ! i)"
  by (simp add: mask_lanes_def)

lemma input_lanes_wide:
  "k \<le> 25 \<Longrightarrow> length u = 25 \<Longrightarrow> input_lanes wide_ops b [0..<k] u =
     map (\<lambda>i. if i < k then u ! i XOR sph_dec64le (take 8 (drop (8 * i) b)) else u ! i) [0..<25]"
proof (induction k)
  case 0
  then show ?case by (auto simp: input_lanes_def intro: nth_equalityI)
next
  case (Suc k)
  then show ?case
    by (intro nth_equalityI)
      (auto simp: input_lanes_def wide_ops_def nth_list_update less_Suc_eq)
qed

lemma lanes_below_rate:
  assumes "(d, lim) \<in> set keccak_rates"
  shows "i < (lim + 7) div 8 \<longleftrightarrow> 8 * i < lim" and "(lim + 7) div 8 \<le> 25" and "8 * ((lim + 7) div 8) = lim"
  using assms by (auto elim!: keccak_ratesE)

lemma length_KECCAK_F [simp]: "length a = 25 \<Longrightarrow> length (KECCAK_F_1600 ops a) = 25"
  by (simp add: KECCAK_F_1600_def)

lemma length_INPUT_BUF [simp]: "length (INPUT_BUF ops lim b a) = length a"
proof -
  have "length (input_lanes ops b is a) = length a" for "is"
    unfolding input_lanes_def by (induction "is" arbitrary: a) simp_all
  then show ?thesis by (simp add: INPUT_BUF_def)
qed

lemma length_keccak_f_spec [simp]: "length A = 25 \<Longrightarrow> length (keccak_f_spec A) = 25"
proof -
  have "length A = 25 \<Longrightarrow> length (fold (\<lambda>ir. round_spec (rc_spec ir)) js A) = 25" for js
    by (induction js arbitrary: A) simp_all
  then show "length A = 25 \<Longrightarrow> ?thesis" by (simp add: keccak_f_spec_def)
qed

context lane_rep begin

lemma step_state:
  assumes "(d, lim) \<in> set keccak_rates" and "length u = 25" and "length b = lim"
  shows "length (keccak_step ops lim u b) = 25 \<and>
    keccak_state rep (keccak_step ops lim u b) = absorb_spec lim (keccak_state rep u) b"
proof
  let ?in = "input_lanes wide_ops b [0..<(lim + 7) div 8]"
  let ?A = "map (\<lambda>i. if 8 * i < lim then keccak_state rep u ! i XOR sph_dec64le (take 8 (drop (8 * i) b))
    else keccak_state rep u ! i) [0..<25]"
  note k = lanes_below_rate [OF assms(1)]
  show "length (keccak_step ops lim u b) = 25" using assms(2) by (simp add: keccak_step_def)
  have "list_all (\<lambda>i. i < length u \<and> 8 * i + 8 \<le> length b) [0..<(lim + 7) div 8]"
    using assms(1,2,3) by (auto simp: list_all_iff elim!: keccak_ratesE)
  then have "map rep (INPUT_BUF ops lim b u) = ?in (map rep u)"
    by (simp add: INPUT_BUF_def rep_input_lanes)
  also have "\<dots> = mask_lanes out_mask ?A"
    using k assms(2)
    by (intro nth_equalityI) (auto simp: input_lanes_wide keccak_state_def nth_mask_lanes XOR_NOT)
  finally have "map rep (keccak_step ops lim u b) = mask_lanes out_mask (keccak_f_spec ?A)"
    using assms(2) by (simp add: keccak_step_def KECCAK_F_1600_def rep_KECCAK_F [where m = 8] KECCAK_F_wide)
  then show "keccak_state rep (keccak_step ops lim u b) = absorb_spec lim (keccak_state rep u) b"
    by (simp add: keccak_state_def [of rep "keccak_step ops lim u b"] mask_lanes_involutive
        absorb_spec_def)
qed

end

section \<open>The padding that a close writes\<close>

text \<open>The \<open>n\<close> high bits of the byte \<open>ub\<close> are the last bits of the message.\<close>

definition last_bits :: "u32 \<Rightarrow> nat \<Rightarrow> bool list" where
  "last_bits ub n = map (\<lambda>i. bit ub (8 - n + i)) [0..<n]"

lemma length_last_bits [simp]: "length (last_bits ub n) = n"
  by (simp add: last_bits_def)

lemma bit_close_eb:
  assumes "n < 8"
  shows "bit (close_eb ub n) i \<longleftrightarrow> i = n \<or> i < n \<and> bit ub (8 - n + i)"
  using assms by (auto simp: close_eb_def bit_drop_bit_eq bit_or_iff bit_and_iff bit_pad_words simp del: bit_numeral_word_iff)

lemma byte_of_close_eb:
  assumes "n < 8"
  shows "byte_of_bits (last_bits ub n @ True # replicate (7 - n) False) = ucast (close_eb ub n)"
  using assms
  by (intro bit_word_eqI)
    (auto simp: bit_byte_of_bits nth_append last_bits_def nth_Cons' bit_close_eb bit_simps)

lemma byte_of_close_eb_80:
  assumes "n < 7"
  shows "byte_of_bits (last_bits ub n @ True # replicate (6 - n) False @ [True]) =
    ucast (close_eb ub n OR 0x80)"
  using assms
  by (intro bit_word_eqI)
    (auto simp: bit_byte_of_bits nth_append last_bits_def nth_Cons' bit_close_eb bit_pad_words bit_simps
      simp del: bit_numeral_word_iff)

lemma last_bytes:
  assumes "L + k = lim * c" and "n < 8" and "n + 2 \<le> 8 * k" and "8 * k < n + 2 + 8 * lim"
  shows "bytes_of_bits (last_bits ub n @ pad10star1 (8 * lim) (8 * L + n)) =
    (if k = 1 then [ucast (close_eb ub n OR 0x80)]
     else ucast (close_eb ub n) # replicate (k - 2) 0 @ [0x80])"
proof (cases "k = 1")
  case True
  with assms show ?thesis
    using bytes_of_last [of "last_bits ub n" n k] byte_of_close_eb_80 [of n ub]
    by (simp add: pad10star1_left [OF assms(1,3,4)])
next
  case False
  with assms show ?thesis
    using bytes_of_last [of "last_bits ub n" n k] byte_of_close_eb [of n ub]
    by (simp add: pad10star1_left [OF assms(1,3,4)])
qed

text \<open>
  The three branches of the C code write exactly the last bits and the \<open>pad10*1\<close> padding, and
  stay inside the local array, whatever it held.
\<close>

lemma close_padding_spec:
  assumes n: "n < 8" and ptr: "ptr = L mod lim" and lim: "1 < lim" and tmp: "length tmp = lim + 1"
  shows "\<exists>tmp' j. close_padding lim ptr ub n tmp = Some (tmp', j) \<and> length tmp' = lim + 1 \<and> j \<le> lim + 1 \<and>
    lim dvd L + j \<and> 0 < j \<and>
    take j tmp' = bytes_of_bits (last_bits ub n @ pad10star1 (8 * lim) (8 * L + n))"
proof -
  have p: "ptr < lim" using lim by (simp add: ptr)
  have L: "L = lim * (L div lim) + ptr" by (simp add: ptr)
  have S: "L + (lim - ptr) = lim * Suc (L div lim)"
    unfolding mult_Suc_right using p L by linarith
  consider "ptr = lim - 1" "n = 7" | "ptr = lim - 1" "n < 7" | "ptr < lim - 1"
    using n p by linarith
  then show ?thesis
  proof cases
    case 1
    then have k: "L + (1 + lim) = lim * (2 + L div lim)" using S lim by simp
    then have "lim dvd L + (1 + lim)" by (simp only: dvd_triv_left)
    then show ?thesis
      using 1 lim tmp last_bytes [OF k n, of ub]
      by (auto simp: close_padding_def Let_def take_Cons')
  next
    case 2
    then have k: "L + 1 = lim * (1 + L div lim)" using S lim by simp
    then have "lim dvd L + 1" by (simp only: dvd_triv_left)
    then show ?thesis
      using 2 lim tmp last_bytes [OF k n, of ub]
      by (auto simp: close_padding_def Let_def)
  next
    case 3
    have "lim dvd L + (lim - ptr)" by (simp only: S dvd_triv_left)
    moreover have "n + 2 \<le> 8 * (lim - ptr)" "8 * (lim - ptr) < n + 2 + 8 * lim"
      using 3 n by linarith+
    ultimately show ?thesis
      using 3 n tmp last_bytes [OF S n, of ub]
      by (auto simp: close_padding_def Let_def take_Cons')
  qed
qed

section \<open>Update and close compute the sponge\<close>

lemma keccak_ready_iff:
  assumes "(d, lim) \<in> set keccak_rates"
  shows "block_stream.ready lim 144 kc_buf kc_ptr kc \<longleftrightarrow> length (kc_buf kc) = 144 \<and> kc_ptr kc < lim"
    and "block_stream.pending kc_buf kc_ptr kc = keccak_pending kc"
  using block_stream.ready_def [OF keccak_block_stream [OF assms]]
    block_stream.pending_def [OF keccak_block_stream [OF assms]]
  by (simp_all add: keccak_pending_def)

lemma keccak_init_simps [simp]:
  "kc_buf (keccak_init ops sz kc) = kc_buf kc" "kc_ptr (keccak_init ops sz kc) = 0"
  "length (kc_u (keccak_init ops sz kc)) = 25" "keccak_pending (keccak_init ops sz kc) = []"
  by (simp_all add: keccak_init_def Let_def keccak_pending_def)

lemma length_complement_lanes [simp]: "length (complement_lanes ops u) = length u"
  by (simp add: complement_lanes_def)

context lane_rep begin

lemma feed_state:
  assumes rate: "(d, lim) \<in> set keccak_rates" and wf: "keccak_wf lim kc"
  shows "\<exists>kc'. feed (keccak_core ops lim) kc ds = Some kc' \<and> keccak_wf lim kc' \<and>
    (keccak_state rep (kc_u kc'), keccak_pending kc') =
      absorb_blocks lim (absorb_spec lim) (keccak_state rep (kc_u kc)) (keccak_pending kc @ concat ds)"
proof -
  note bs = keccak_block_stream [OF rate, of ops]
  have "block_stream.ready lim 144 kc_buf kc_ptr kc"
    using wf by (simp add: keccak_ready_iff [OF rate] keccak_wf_def)
  from block_stream.feed_refines [OF bs this, of ds]
  obtain kc' where kc': "feed (keccak_core ops lim) kc ds = Some kc'"
      "block_stream.ready lim 144 kc_buf kc_ptr kc'"
      "absorb_blocks lim (keccak_step ops lim) (kc_u kc) (keccak_pending kc @ concat ds) =
        (kc_u kc', keccak_pending kc')"
    unfolding keccak_ready_iff [OF rate] by metis
  have "length (kc_u kc') = 25 \<and> absorb_blocks lim (absorb_spec lim) (keccak_state rep (kc_u kc))
      (keccak_pending kc @ concat ds) = (keccak_state rep (kc_u kc'), keccak_pending kc')"
    using kc'(3) wf block_stream.blk_pos [OF bs]
    by (intro absorb_blocks_sim [where f = "keccak_step ops lim" and h = "keccak_state rep"
          and ok = "\<lambda>u. length u = 25"] step_state [OF rate])
      (auto simp: keccak_wf_def)
  with kc' show ?thesis
    by (auto simp: keccak_ready_iff [OF rate] keccak_wf_def)
qed

lemma core_state:
  assumes "(d, lim) \<in> set keccak_rates" and "keccak_wf lim kc"
  shows "\<exists>kc'. keccak_core ops lim kc x = Some kc' \<and> keccak_wf lim kc' \<and>
    (keccak_state rep (kc_u kc'), keccak_pending kc') =
      absorb_blocks lim (absorb_spec lim) (keccak_state rep (kc_u kc)) (keccak_pending kc @ x)"
  using feed_state [OF assms, of "[x]"] by (auto split: bind_splits)

lemma rep_complement_lanes: "length u = 25 \<Longrightarrow> map rep (complement_lanes ops u) = keccak_state rep u"
  by (elim list25E)
    (simp add: complement_lanes_def keccak_state_def mask_lanes_def out_mask_def upt_25 rep_NOT64)

lemma init_state: "keccak_state rep (kc_u (keccak_init ops sz kc)) = replicate 25 0"
  by (rule nth_equalityI)
    (auto simp: keccak_state_def keccak_init_def Let_def nth_mask_lanes out_mask_def nth_list_update
      rep_ZERO64 rep_ONES64)

lemma close_state:
  assumes rate: "(d, lim) \<in> set keccak_rates" and wf: "keccak_wf lim kc"
    and n: "n < 8" and tmp: "length tmp = lim + 1"
    and hist: "(keccak_state rep (kc_u kc), keccak_pending kc) =
      absorb_blocks lim (absorb_spec lim) (replicate 25 0) m"
  shows "\<exists>kc'. keccak_close ops d lim tmp kc ub n =
      Some (keccak_spec lim d (bits_of_bytes m @ last_bits ub n), keccak_init ops (8 * d) kc') \<and>
    length (kc_buf kc') = 144"
proof -
  let ?P = "bytes_of_bits (last_bits ub n @ pad10star1 (8 * lim) (8 * length m + n))"
  have lim: "1 < lim" "d + 4 \<le> lim + 1" "d \<le> 200" "4 dvd d"
    using rate by (auto elim: keccak_ratesE)
  have "length (keccak_pending kc) = length m mod lim"
    using hist lim by (simp add: absorb_blocks_eq minus_mult_div_eq_mod)
  then have "kc_ptr kc = length m mod lim"
    using wf rate by (auto simp: keccak_pending_def keccak_wf_def elim!: keccak_ratesE)
  from close_padding_spec [OF n this lim(1) tmp, of ub]
  obtain tmp' j where pad: "close_padding lim (kc_ptr kc) ub n tmp = Some (tmp', j)"
      "length tmp' = lim + 1" "j \<le> lim + 1" "take j tmp' = ?P"
    by blast
  obtain kc' where kc': "keccak_core ops lim kc ?P = Some kc'" "keccak_wf lim kc'"
    "(keccak_state rep (kc_u kc'), keccak_pending kc') =
      absorb_blocks lim (absorb_spec lim) (replicate 25 0) (m @ ?P)"
    using core_state [OF rate wf, of ?P] absorb_blocks_append [of lim "absorb_spec lim" "replicate 25 0" m ?P]
      hist [symmetric] lim by auto
  define out where "out = OUTPUT ops d (complement_lanes ops (kc_u kc'))"
  have u: "length (kc_u kc') = 25" using kc'(2) by (simp add: keccak_wf_def)
  have "concat (map (\<lambda>x. sph_enc64le (rep x)) (complement_lanes ops (kc_u kc'))) =
      concat (map sph_enc64le (keccak_state rep (kc_u kc')))"
    by (simp add: rep_complement_lanes [OF u, symmetric] comp_def)
  then have out: "d \<le> length out" "length out \<le> d + 4"
      "take d out = take d (concat (map sph_enc64le (keccak_state rep (kc_u kc'))))"
    using rep_OUTPUT [of "complement_lanes ops (kc_u kc')" d] u lim by (simp_all add: out_def)
  have "bytes_of_bits ((bits_of_bytes m @ last_bits ub n) @
      pad10star1 (8 * lim) (length (bits_of_bytes m @ last_bits ub n))) = m @ ?P"
    by (simp add: bytes_of_bits_of_bytes)
  then have "take d out = keccak_spec lim d (bits_of_bytes m @ last_bits ub n)"
    using kc'(3) lim out(3) by (simp add: keccak_spec_def absorb_blocks_eq)
  then show ?thesis
    using pad kc' out lim
    by (intro exI [of _ "kc'\<lparr>kc_u := complement_lanes ops (kc_u kc')\<rparr>"])
      (simp add: keccak_close_def out_def [symmetric] keccak_wf_def)
qed

text \<open>A whole computation: initialise, feed the pieces, close.\<close>

lemma digest_state:
  assumes rate: "(d, lim) \<in> set keccak_rates" and buf: "length (kc_buf kc) = 144"
    and n: "n < 8" and tmp: "length tmp = lim + 1"
  shows "\<exists>kc' kc''. feed (keccak_core ops lim) (keccak_init ops sz kc) ds = Some kc' \<and>
    keccak_close ops d lim tmp kc' ub n =
      Some (keccak_spec lim d (bits_of_bytes (concat ds) @ last_bits ub n), keccak_init ops (8 * d) kc'') \<and>
    length (kc_buf kc'') = 144"
proof -
  have "keccak_wf lim (keccak_init ops sz kc)"
    using rate buf by (auto simp: keccak_wf_def elim: keccak_ratesE)
  from feed_state [OF rate this, of ds] obtain kc'
    where "feed (keccak_core ops lim) (keccak_init ops sz kc) ds = Some kc'" "keccak_wf lim kc'"
      "(keccak_state rep (kc_u kc'), keccak_pending kc') =
        absorb_blocks lim (absorb_spec lim) (replicate 25 0) (concat ds)"
    by (auto simp: init_state)
  with close_state [OF rate this(2) n tmp this(3)] show ?thesis by blast
qed

end

end
