(* ===== verification/Keccak_Reps.thy ===== *)
theory Keccak_Reps
  imports Keccak_Hash
begin

text \<open>
  The three lane representations of \<open>keccak.c\<close> are representations of 64-bit lanes in the
  sense of \<open>lane_rep\<close>: 64-bit words themselves, pairs of halves, and pairs of the even and
  the odd bits.
\<close>

lemma concat_take:
  "\<forall>x \<in> set xs. length x = n \<Longrightarrow> concat (take k xs) = take (n * k) (concat xs)"
proof (induction xs arbitrary: k)
  case (Cons x xs)
  then show ?case by (cases k) simp_all
qed simp

lemma length_concat_enc:
  "length (concat (map (\<lambda>x. sph_enc64le (g x)) xs)) = 8 * length xs"
  "length (concat (map (\<lambda>x. sph_enc32le (h x)) xs)) = 4 * length xs"
  by (induction xs) simp_all

section \<open>64-bit lanes\<close>

lemma output_wide_spec:
  assumes "length u = 25" "d \<le> 200"
  shows "output_wide d u = take (8 * ((d + 7) div 8)) (concat (map sph_enc64le u))"
proof -
  let ?k = "(d + 7) div 8"
  have k: "?k \<le> length u" using assms by simp
  have "map (\<lambda>j. sph_enc64le (u ! j)) [0..<?k] = map sph_enc64le (map ((!) u) [0..<?k])" by simp
  also have "map ((!) u) [0..<?k] = take ?k u"
    using k by (auto intro: nth_equalityI)
  finally have "output_wide d u = concat (take ?k (map sph_enc64le u))"
    by (simp add: output_wide_def take_map)
  then show ?thesis by (simp add: concat_take [where n = 8])
qed

lemma wide_lane_rep: "lane_rep wide_ops (\<lambda>x. x)"
proof
  fix u :: "u64 list" and d :: nat
  assume u: "length u = 25" and d: "d \<le> 200" "4 dvd d"
  have "d \<le> 8 * ((d + 7) div 8) \<and> 8 * ((d + 7) div 8) \<le> d + 4 \<and> 8 * ((d + 7) div 8) \<le> 200"
    using d by presburger
  then show "d \<le> length (OUTPUT wide_ops d u) \<and> length (OUTPUT wide_ops d u) \<le> d + 4 \<and>
      take d (OUTPUT wide_ops d u) = take d (concat (map (\<lambda>x. sph_enc64le x) u))"
    using u d by (simp add: wide_ops_def output_wide_spec length_concat_enc [of "\<lambda>x. x"] min_def)
qed (simp_all add: wide_ops_def)

interpretation wide: lane_rep wide_ops "\<lambda>x. x"
  by (rule wide_lane_rep)

section \<open>Pairs of halves\<close>

definition join_halves :: "lane32 \<Rightarrow> u64" where
  "join_halves x = ucast (fst x) OR push_bit 32 (ucast (snd x))"

lemma bit_join_halves:
  "n < 64 \<Longrightarrow> bit (join_halves x) n \<longleftrightarrow> (if n < 32 then bit (fst x) n else bit (snd x) (n - 32))"
  by (auto simp: join_halves_def bit_simps dest: bit_imp_le_length)

lemma join_halves_narrow: "map join_halves RC_narrow = RC_wide"
  by (simp add: RC_narrow_def RC_wide_def join_halves_def)

lemma bit_shift_pair:
  fixes a b :: u32
  assumes "0 < n" "n < 32" "k < 32"
  shows "bit (push_bit n a OR drop_bit (32 - n) b) k \<longleftrightarrow> (if k < n then bit b (k + 32 - n) else bit a (k - n))"
  using assms by (auto simp: bit_simps not_less add.commute dest: bit_imp_le_length)

lemma ROL64_narrow_cases:
  "0 < n \<Longrightarrow> n < 32 \<Longrightarrow> ROL64_narrow (l, h) n =
     (push_bit n l OR drop_bit (32 - n) h, push_bit n h OR drop_bit (32 - n) l)"
  "ROL64_narrow (l, h) 0 = (l, h)" "ROL64_narrow (l, h) 32 = (h, l)"
  "0 < n \<Longrightarrow> ROL64_narrow (l, h) (n + 32) =
     (push_bit n h OR drop_bit (32 - n) l, push_bit n l OR drop_bit (32 - n) h)"
  by (simp_all add: ROL64_narrow_def ROL64_small_def ROL64_32_def ROL64_big_def Let_def)

lemma join_halves_ROL64:
  assumes "n < 64"
  shows "join_halves (ROL64_narrow x n) = SPH_ROTL64 (join_halves x) n"
proof (cases x)
  case (Pair l h)
  consider "n = 0" | "0 < n" "n < 32" | "n = 32" | "32 < n" by linarith
  then show ?thesis
  proof cases
    case 2
    then show ?thesis unfolding SPH_ROTL64_word_rotl [OF assms] Pair
      by (intro bit_word_eqI) (auto simp: bit_join_halves bit_word_rotl ROL64_narrow_cases bit_shift_pair add.commute)
  next
    case 4
    define k where "k = n - 32"
    then have k: "n = k + 32" "0 < k" "k < 32" using 4 assms by auto
    from k(2,3) show ?thesis unfolding Pair k(1)
      by (intro bit_word_eqI) (auto simp: SPH_ROTL64_word_rotl bit_join_halves bit_word_rotl ROL64_narrow_cases bit_shift_pair add.commute)
  qed (auto intro!: bit_word_eqI simp: Pair SPH_ROTL64_word_rotl bit_join_halves bit_word_rotl ROL64_narrow_cases
      split: if_splits)
qed

lemma pair_map2_simps [simp]:
  "fst (pair_map2 g x y) = g (fst x) (fst y)" "snd (pair_map2 g x y) = g (snd x) (snd y)"
  by (simp_all add: pair_map2_def)

text \<open>The output words of the pairs are those of the joined lanes.\<close>

lemma sph_enc64le_join: "sph_enc64le (join_halves x) = sph_enc32le (fst x) @ sph_enc32le (snd x)"
proof (rule nth_equalityI)
  fix i assume "i < length (sph_enc64le (join_halves x))"
  then have i: "i < 8" by simp
  show "sph_enc64le (join_halves x) ! i = (sph_enc32le (fst x) @ sph_enc32le (snd x)) ! i"
    using i by (intro bit_word_eqI)
      (auto simp: sph_enc64le_map sph_enc32le_map nth_append bit_simps bit_join_halves algebra_simps)
qed simp

lemma output_narrow_spec:
  assumes u: "length u = 25" and d: "d \<le> 200" "4 dvd d"
  shows "output_narrow d u = take d (concat (map (\<lambda>x. sph_enc64le (join_halves x)) u))"
proof -
  let ?w = "concat (map (\<lambda>(l, h). [l, h]) u)"
  have e: "concat (map (\<lambda>x. sph_enc64le (join_halves x)) u) = concat (map sph_enc32le ?w)"
    by (induction u) (auto simp: sph_enc64le_join)
  have "length ?w = 2 * length u" by (induction u) auto
  then have k: "(d + 3) div 4 = d div 4" "d div 4 \<le> length ?w" "4 * (d div 4) = d"
    using u d by auto
  have "map (\<lambda>j. sph_enc32le (?w ! j)) [0..<d div 4] = map sph_enc32le (map ((!) ?w) [0..<d div 4])"
    by simp
  also have "map ((!) ?w) [0..<d div 4] = take (d div 4) ?w"
    using k(2) by (auto intro: nth_equalityI)
  finally show ?thesis
    unfolding e using k by (simp add: output_narrow_def Let_def take_map [symmetric] concat_take [where n = 4])
qed

lemma half_index: "32 \<le> n \<Longrightarrow> 4 + (n - 32) div 8 = n div 8 \<and> (n - 32) mod 8 = n mod (8 :: nat)"
  using mod_mult_self3 [of 4 8 "n - 32"] by (auto simp: le_iff_add)

lemma join_halves_READ64: "length bs = 8 \<Longrightarrow> join_halves (READ64_narrow bs) = sph_dec64le bs"
  by (intro bit_word_eqI)
    (simp add: READ64_narrow_def bit_join_halves bit_sph_dec64le bit_sph_dec32le nth_drop half_index)

lemma narrow_lane_rep: "lane_rep narrow_ops join_halves"
proof
  fix u :: "lane32 list" and d :: nat
  assume "length u = 25" "d \<le> 200" "4 dvd d"
  then show "d \<le> length (OUTPUT narrow_ops d u) \<and> length (OUTPUT narrow_ops d u) \<le> d + 4 \<and>
      take d (OUTPUT narrow_ops d u) = take d (concat (map (\<lambda>x. sph_enc64le (join_halves x)) u))"
    by (simp add: narrow_ops_def output_narrow_spec length_concat_enc)
next
  fix bs :: "byte list"
  assume "length bs = 8"
  then show "join_halves (READ64 narrow_ops bs) = sph_dec64le bs"
    by (simp add: narrow_ops_def join_halves_READ64)
next
  show "join_halves (ZERO64 narrow_ops) = 0" "join_halves (ONES64 narrow_ops) = 0xFFFFFFFFFFFFFFFF"
    by (simp_all add: narrow_ops_def join_halves_def)
next
  show "map join_halves (RC narrow_ops) = RC_wide" by (simp add: narrow_ops_def join_halves_narrow)
next
  show "n < 64 \<Longrightarrow> join_halves (ROL64 narrow_ops x n) = SPH_ROTL64 (join_halves x) n" for x n
    by (simp add: narrow_ops_def join_halves_ROL64)
qed (auto intro!: bit_word_eqI simp: narrow_ops_def bit_join_halves bit_simps)

interpretation narrow: lane_rep narrow_ops join_halves
  by (rule narrow_lane_rep)

section \<open>Pairs of even and odd bits\<close>

definition join_even_odd :: "lane32 \<Rightarrow> u64" where
  "join_even_odd x = horner_sum of_bool 2 (map (\<lambda>i. bit (if even i then fst x else snd x) (i div 2)) [0..<64])"

lemma bit_join_even_odd:
  "n < 64 \<Longrightarrow> bit (join_even_odd x) n \<longleftrightarrow> bit (if even n then fst x else snd x) (n div 2)"
  by (simp add: join_even_odd_def bit_horner_sum_bit_word_iff)

text \<open>A masked exchange of the bits at distance \<open>k\<close>.\<close>

lemma bit_delta_swap:
  assumes "n < 32" and "m AND push_bit k m = 0"
  shows "bit (delta_swap l k m) n \<longleftrightarrow>
    (if bit m n then bit l (k + n) else if k \<le> n \<and> bit m (n - k) then bit l (n - k) else bit l n)"
proof -
  have "bit (m AND push_bit k m) n = False" by (simp add: assms(2))
  then have "\<not> (bit m n \<and> k \<le> n \<and> bit m (n - k))"
    using assms(1) by (simp add: bit_and_iff bit_push_bit_iff)
  then show ?thesis
    using assms(1)
    by (cases "k \<le> n") (auto simp: delta_swap_def Let_def bit_xor_iff bit_and_iff bit_push_bit_iff bit_drop_bit_eq)
qed

lemma iff_cancel: "(p = (q = p)) = q" "(p = (p = q)) = q"
  by auto

lemma bit_UNINTERLEAVE:
  assumes "n < 32"
  shows "bit (fst (UNINTERLEAVE (l, h))) n \<longleftrightarrow> bit (if even n then l else h) (n div 2)"
    and "bit (snd (UNINTERLEAVE (l, h))) n \<longleftrightarrow> bit (if even n then l else h) (16 + n div 2)"
proof -
  have "\<forall>n \<in> set [0..<32]. bit (fst (UNINTERLEAVE (l, h))) n \<longleftrightarrow> bit (if even n then l else h) (n div 2)"
    and "\<forall>n \<in> set [0..<32]. bit (snd (UNINTERLEAVE (l, h))) n \<longleftrightarrow> bit (if even n then l else h) (16 + n div 2)"
    unfolding upt_32 UNINTERLEAVE_def Let_def
    by (simp_all add: bit_delta_swap bit_simps bit_beyond iff_cancel numeral_2_eq_2 [symmetric])
  with assms show "bit (fst (UNINTERLEAVE (l, h))) n \<longleftrightarrow> bit (if even n then l else h) (n div 2)"
    and "bit (snd (UNINTERLEAVE (l, h))) n \<longleftrightarrow> bit (if even n then l else h) (16 + n div 2)"
    by simp_all
qed

lemma bit_INTERLEAVE:
  assumes "n < 32"
  shows "bit (fst (INTERLEAVE (l, h))) n \<longleftrightarrow> (if n < 16 then bit l (2 * n) else bit h (2 * (n - 16)))"
    and "bit (snd (INTERLEAVE (l, h))) n \<longleftrightarrow> (if n < 16 then bit l (2 * n + 1) else bit h (2 * (n - 16) + 1))"
proof -
  have "\<forall>n \<in> set [0..<32]. bit (fst (INTERLEAVE (l, h))) n \<longleftrightarrow>
      (if n < 16 then bit l (2 * n) else bit h (2 * (n - 16)))"
    and "\<forall>n \<in> set [0..<32]. bit (snd (INTERLEAVE (l, h))) n \<longleftrightarrow>
      (if n < 16 then bit l (2 * n + 1) else bit h (2 * (n - 16) + 1))"
    unfolding upt_32 INTERLEAVE_def Let_def
    by (simp_all add: bit_delta_swap bit_simps bit_beyond iff_cancel numeral_2_eq_2 [symmetric])
  with assms show "bit (fst (INTERLEAVE (l, h))) n \<longleftrightarrow> (if n < 16 then bit l (2 * n) else bit h (2 * (n - 16)))"
    and "bit (snd (INTERLEAVE (l, h))) n \<longleftrightarrow> (if n < 16 then bit l (2 * n + 1) else bit h (2 * (n - 16) + 1))"
    by simp_all
qed

text \<open>The two directions are inverse to each other and mean the same 64-bit word.\<close>

lemma join_halves_UNINTERLEAVE: "join_halves (UNINTERLEAVE x) = join_even_odd x"
proof (cases x)
  case (Pair l h)
  have "n < 64 \<Longrightarrow> \<not> n < 32 \<Longrightarrow> 16 + (n - 32) div 2 = n div 2" for n :: nat by linarith
  then show ?thesis
    unfolding Pair
    by (intro bit_word_eqI) (auto simp: bit_join_halves bit_join_even_odd bit_UNINTERLEAVE)
qed

lemma join_even_odd_INTERLEAVE: "join_even_odd (INTERLEAVE (l, h)) = join_halves (l, h)"
proof (rule bit_word_eqI)
  fix n assume "n < LENGTH(64)"
  then have n: "n < 64" by simp
  show "bit (join_even_odd (INTERLEAVE (l, h))) n = bit (join_halves (l, h)) n"
  proof (cases "even n")
    case True
    then obtain m where "n = 2 * m" by (elim evenE)
    with n show ?thesis
      by (simp add: bit_join_halves bit_join_even_odd bit_INTERLEAVE diff_mult_distrib2)
  next
    case False
    then obtain m where "n = 2 * m + 1" by (elim oddE)
    with n show ?thesis
      by (cases "m < 16") (auto simp: bit_join_halves bit_join_even_odd bit_INTERLEAVE not_less le_iff_add)
  qed
qed

lemma UNINTERLEAVE_INTERLEAVE: "UNINTERLEAVE (INTERLEAVE (l, h)) = (l, h)"
proof -
  have "join_halves x = join_halves y \<Longrightarrow> x = y" for x y
  proof -
    assume e: "join_halves x = join_halves y"
    have "bit (fst x) n = bit (fst y) n" "bit (snd x) n = bit (snd y) n" if "n < 32" for n
      using that arg_cong [OF e, of "\<lambda>w. bit w n"] arg_cong [OF e, of "\<lambda>w. bit w (n + 32)"]
      by (simp_all add: bit_join_halves)
    then show "x = y" by (intro prod_eqI bit_word_eqI) simp_all
  qed
  then show ?thesis by (simp add: join_halves_UNINTERLEAVE join_even_odd_INTERLEAVE)
qed

lemma INTERLEAVE_UNINTERLEAVE: "INTERLEAVE (UNINTERLEAVE x) = x"
proof -
  have inj: "join_even_odd (a, b) = join_even_odd (c, d) \<Longrightarrow> a = c \<and> b = d" for a b c d
  proof -
    assume e: "join_even_odd (a, b) = join_even_odd (c, d)"
    have "bit a n = bit c n" "bit b n = bit d n" if "n < 32" for n
      using that arg_cong [OF e, of "\<lambda>w. bit w (2 * n)"] arg_cong [OF e, of "\<lambda>w. bit w (2 * n + 1)"]
      by (simp_all add: bit_join_even_odd)
    then show "a = c \<and> b = d" by (intro conjI bit_word_eqI) simp_all
  qed
  obtain a b l h where "INTERLEAVE (UNINTERLEAVE x) = (a, b)" "UNINTERLEAVE x = (l, h)" by fastforce
  moreover obtain c d where "x = (c, d)" by fastforce
  ultimately show ?thesis
    using inj [of a b c d] join_even_odd_INTERLEAVE [of l h] join_halves_UNINTERLEAVE [of x] by simp
qed

lemma join_even_odd_iff:
  "join_even_odd (l, h) = w \<longleftrightarrow> list_all (\<lambda>n. bit w n = bit (if even n then l else h) (n div 2)) [0..<64]"
proof
  assume "list_all (\<lambda>n. bit w n = bit (if even n then l else h) (n div 2)) [0..<64]"
  then show "join_even_odd (l, h) = w"
    by (intro bit_word_eqI) (simp add: bit_join_even_odd list_all_iff)
qed (auto simp: list_all_iff bit_join_even_odd)

lemma interleaved_RC: "map join_even_odd RC_interleaved = RC_wide"
  by (simp add: RC_interleaved_def RC_wide_def join_even_odd_iff upt_64)

text \<open>
  A rotation by an even amount rotates both halves; by an odd amount it also exchanges them.
\<close>

lemma bit_shift_pair_any:
  fixes a :: u32
  assumes "n < 32" "k < 32"
  shows "bit (push_bit n a OR drop_bit (32 - n) a) k \<longleftrightarrow> (if k < n then bit a (k + 32 - n) else bit a (k - n))"
  using assms by (auto simp: bit_simps not_less add.commute dest: bit_imp_le_length)

lemma join_even_odd_ROL64_even:
  assumes "n < 32"
  shows "join_even_odd (ROL64_even (l, h) n) = word_rotl (2 * n) (join_even_odd (l, h))"
proof (rule bit_word_eqI)
  fix k assume "k < LENGTH(64)"
  then have k: "k < 64" by simp
  have half: "(62 - 2 * q) div 2 = 31 - q" "(63 - 2 * q) div 2 = 31 - q" for q :: nat by linarith+
  show "bit (join_even_odd (ROL64_even (l, h) n)) k = bit (word_rotl (2 * n) (join_even_odd (l, h))) k"
  proof (cases "even k")
    case True
    then obtain m where "k = 2 * m" by (elim evenE)
    with k assms show ?thesis
      by (cases "m < n")
        (auto simp: bit_join_even_odd bit_word_rotl ROL64_even_def bit_shift_pair_any not_less le_iff_add half
          elim!: less_natE)
  next
    case False
    then obtain m where "k = 2 * m + 1" by (elim oddE)
    with k assms show ?thesis
      by (cases "m < n")
        (auto simp: bit_join_even_odd bit_word_rotl ROL64_even_def bit_shift_pair_any not_less le_iff_add half
          elim!: less_natE)
  qed
qed

lemma word_rotl_Suc:
  fixes w :: "'a::len word"
  assumes "Suc k < LENGTH('a)"
  shows "word_rotl (Suc k) w = word_rotl 1 (word_rotl k w)"
proof (rule bit_word_eqI)
  fix n assume n: "n < LENGTH('a)"
  show "bit (word_rotl (Suc k) w) n = bit (word_rotl 1 (word_rotl k w)) n"
    using assms n by (cases n) (auto simp: bit_word_rotl Suc_diff_le)
qed

lemma join_even_odd_swap: "join_even_odd (word_rotl (Suc 0) h, l) = word_rotl (Suc 0) (join_even_odd (l, h))"
proof (rule bit_word_eqI)
  fix k assume "k < LENGTH(64)"
  then have k: "k < 64" by simp
  show "bit (join_even_odd (word_rotl (Suc 0) h, l)) k = bit (word_rotl (Suc 0) (join_even_odd (l, h))) k"
  proof (cases "even k")
    case True
    then obtain m where "k = 2 * m" by (elim evenE)
    with k show ?thesis
      by (cases m) (auto simp: bit_join_even_odd bit_word_rotl)
  next
    case False
    then obtain m where "k = 2 * m + 1" by (elim oddE)
    with k show ?thesis by (auto simp: bit_join_even_odd bit_word_rotl)
  qed
qed

lemma ROL64_odd_even:
  assumes "0 < n" "n < 32"
  shows "ROL64_odd (l, h) n = (case ROL64_even (l, h) (n - 1) of (l', h') \<Rightarrow> (word_rotl 1 h', l'))"
proof -
  have "push_bit n h OR drop_bit (32 - n) h = word_rotl n h"
    using SPH_ROTL32_word_rotl [of n h] assms by (simp add: SPH_ROTL32_def)
  moreover have "push_bit (n - 1) h OR drop_bit (32 - (n - 1)) h = word_rotl (n - 1) h"
    using SPH_ROTL32_word_rotl [of "n - 1" h] assms by (simp add: SPH_ROTL32_def)
  moreover have "word_rotl n h = word_rotl 1 (word_rotl (n - 1) h)"
    using word_rotl_Suc [of "n - 1" h] assms by simp
  ultimately show ?thesis
    using assms by (simp add: ROL64_odd_def ROL64_even_def Let_def)
qed

lemma join_even_odd_ROL64_odd:
  assumes "0 < n" "n < 32"
  shows "join_even_odd (ROL64_odd (l, h) n) = word_rotl (2 * n - 1) (join_even_odd (l, h))"
proof -
  obtain l' h' where e: "ROL64_even (l, h) (n - 1) = (l', h')" by fastforce
  have "join_even_odd (ROL64_odd (l, h) n) = word_rotl 1 (join_even_odd (l', h'))"
    using assms e by (simp add: ROL64_odd_even join_even_odd_swap [symmetric])
  also have "\<dots> = word_rotl 1 (word_rotl (2 * (n - 1)) (join_even_odd (l, h)))"
    using join_even_odd_ROL64_even [of "n - 1" l h] assms e by simp
  also have "\<dots> = word_rotl (Suc (2 * (n - 1))) (join_even_odd (l, h))"
    using assms by (subst word_rotl_Suc) auto
  also have "Suc (2 * (n - 1)) = 2 * n - 1" using assms by linarith
  finally show ?thesis .
qed

lemma join_even_odd_odd63: "join_even_odd (ROL64_odd63 (l, h)) = word_rotl 63 (join_even_odd (l, h))"
proof -
  have l: "push_bit 31 l OR drop_bit 1 l = word_rotl 31 l"
    using SPH_ROTL32_word_rotl [of 31 l] by (simp add: SPH_ROTL32_def)
  have h: "word_rotl 1 (word_rotl 31 h) = h"
    by (rule bit_word_eqI) (auto simp: bit_word_rotl)
  have "join_even_odd (ROL64_odd63 (l, h)) = join_even_odd (word_rotl 1 (word_rotl 31 h), word_rotl 31 l)"
    by (simp add: ROL64_odd63_def Let_def l [simplified] h [simplified])
  also have "\<dots> = word_rotl 1 (word_rotl 62 (join_even_odd (l, h)))"
    using join_even_odd_ROL64_even [of 31 l h] SPH_ROTL32_word_rotl [of 31 l] SPH_ROTL32_word_rotl [of 31 h]
    by (simp add: join_even_odd_swap ROL64_even_def SPH_ROTL32_def)
  also have "\<dots> = word_rotl 63 (join_even_odd (l, h))"
    using word_rotl_Suc [of 62 "join_even_odd (l, h)"] by simp
  finally show ?thesis .
qed

lemma join_even_odd_ROL64:
  assumes "n < 64"
  shows "join_even_odd (ROL64_interleaved (l, h) n) = SPH_ROTL64 (join_even_odd (l, h)) n"
proof -
  consider "n = 0" | "n = 1" | "n = 63" | "even n" "n \<noteq> 0" | "odd n" "n \<noteq> 1" "n \<noteq> 63" by blast
  then show ?thesis
  proof cases
    case 2
    have "push_bit 1 h OR drop_bit 31 h = word_rotl 1 h"
      using SPH_ROTL32_word_rotl [of 1 h] by (simp add: SPH_ROTL32_def)
    then show ?thesis
      using 2 by (simp add: ROL64_interleaved_def ROL64_odd1_def Let_def SPH_ROTL64_word_rotl join_even_odd_swap)
  next
    case 4
    then show ?thesis
      using assms join_even_odd_ROL64_even [of "n div 2" l h]
      by (auto simp: ROL64_interleaved_def SPH_ROTL64_word_rotl)
  next
    case 5
    then have "2 * ((n + 1) div 2) - 1 = n" "0 < (n + 1) div 2" "(n + 1) div 2 < 32"
      using assms by (auto elim!: oddE)
    then show ?thesis
      using 5 assms join_even_odd_ROL64_odd [of "(n + 1) div 2" l h]
      by (auto simp: ROL64_interleaved_def SPH_ROTL64_word_rotl)
  qed (simp_all add: ROL64_interleaved_def SPH_ROTL64_word_rotl rotl_0 join_even_odd_odd63)
qed

lemma interleaved_lane_rep: "lane_rep interleaved_ops join_even_odd"
proof
  fix u :: "lane32 list" and d :: nat
  assume u: "length u = 25" "d \<le> 200" "4 dvd d"
  then have "OUTPUT interleaved_ops d u = take d (concat (map (\<lambda>x. sph_enc64le (join_even_odd x)) u))"
    using output_narrow_spec [of "map UNINTERLEAVE u" d]
    by (simp add: interleaved_ops_def join_halves_UNINTERLEAVE comp_def)
  with u show "d \<le> length (OUTPUT interleaved_ops d u) \<and> length (OUTPUT interleaved_ops d u) \<le> d + 4 \<and>
      take d (OUTPUT interleaved_ops d u) = take d (concat (map (\<lambda>x. sph_enc64le (join_even_odd x)) u))"
    by (simp add: length_concat_enc)
next
  fix bs :: "byte list"
  assume "length bs = 8"
  then show "join_even_odd (READ64 interleaved_ops bs) = sph_dec64le bs"
    using join_halves_READ64 [of bs] by (simp add: interleaved_ops_def READ64_narrow_def join_even_odd_INTERLEAVE)
next
  show "join_even_odd (ZERO64 interleaved_ops) = 0" "join_even_odd (ONES64 interleaved_ops) = 0xFFFFFFFFFFFFFFFF"
    by (simp_all add: interleaved_ops_def join_even_odd_iff upt_64)
next
  show "map join_even_odd (RC interleaved_ops) = RC_wide" by (simp add: interleaved_ops_def interleaved_RC)
next
  show "n < 64 \<Longrightarrow> join_even_odd (ROL64 interleaved_ops x n) = SPH_ROTL64 (join_even_odd x) n" for x n
    using join_even_odd_ROL64 [of n "fst x" "snd x"] by (simp add: interleaved_ops_def)
qed (auto intro!: bit_word_eqI simp: interleaved_ops_def bit_join_even_odd bit_simps split: prod.splits)

interpretation interleaved: lane_rep interleaved_ops join_even_odd
  by (rule interleaved_lane_rep)

section \<open>Digests\<close>

text \<open>The whole computation, for any representation and each of the four rates.\<close>

lemma keccak_run_hash:
  assumes "lane_rep ops rep" and "(d, lim) \<in> set keccak_rates" and "length (kc_buf cc) = 144"
    and "n < 8" and "length tmp = lim + 1"
  shows "run_hash (keccak_init ops sz) (keccak_core ops lim) (\<lambda>c. keccak_close ops d lim tmp c ub n) cc ds =
    Some (keccak_spec lim d (bits_of_bytes (concat ds) @ last_bits ub n))"
  using lane_rep.digest_state [OF assms(1-5), of sz ds ub] by (auto simp: run_hash_def)

end
