(* ===== verification/Jh.thy ===== *)
theory Jh
  imports Block_Stream
begin

text \<open>
  The model of \<open>src/src/jh.c\<close>: the bit-sliced permutation \<open>E8\<close> and the streaming functions
  \<open>jh_init\<close>, \<open>jh_core\<close>, \<open>jh_close\<close> behind the \<open>sph_jh*\<close> functions.

  The file is compiled with 64-bit words (\<open>SPH_JH_64\<close>: a register \<open>h0\<close> is the two words
  \<open>h0h\<close>, \<open>h0l\<close>) or with 32-bit words (the four words \<open>h03\<close> to \<open>h00\<close>), for a little-endian
  target. A register is the list of its words in that order. What differs between the
  variants is the record \<open>jh_ops\<close>; the macros are functions of it.
\<close>

section \<open>Constants\<close>

definition C32e :: "u32 \<Rightarrow> u32" where
  "C32e x = drop_bit 24 x OR (drop_bit 8 x AND 0x0000FF00) OR (push_bit 8 x AND 0x00FF0000)
     OR (push_bit 24 x AND 0xFF000000)"

definition C64e :: "u64 \<Rightarrow> u64" where
  "C64e x = drop_bit 56 x
     OR (drop_bit 40 x AND 0x000000000000FF00)
     OR (drop_bit 24 x AND 0x0000000000FF0000)
     OR (drop_bit 8 x AND 0x00000000FF000000)
     OR (push_bit 8 x AND 0x000000FF00000000)
     OR (push_bit 24 x AND 0x0000FF0000000000)
     OR (push_bit 40 x AND 0x00FF000000000000)
     OR (push_bit 56 x AND 0xFF00000000000000)"

subsection \<open>64-bit words\<close>

definition JH_C64_words :: "u64 list" where
  "JH_C64_words =
    [0x72d5dea2df15f867, 0x7b84150ab7231557, 0x81abd6904d5a87f6, 0x4e9f4fc5c3d12b40,
     0xea983ae05c45fa9c, 0x03c5d29966b2999a, 0x660296b4f2bb538a, 0xb556141a88dba231,
     0x03a35a5c9a190edb, 0x403fb20a87c14410, 0x1c051980849e951d, 0x6f33ebad5ee7cddc,
     0x10ba139202bf6b41, 0xdc786515f7bb27d0, 0x0a2c813937aa7850, 0x3f1abfd2410091d3,
     0x422d5a0df6cc7e90, 0xdd629f9c92c097ce, 0x185ca70bc72b44ac, 0xd1df65d663c6fc23,
     0x976e6c039ee0b81a, 0x2105457e446ceca8, 0xeef103bb5d8e61fa, 0xfd9697b294838197,
     0x4a8e8537db03302f, 0x2a678d2dfb9f6a95, 0x8afe7381f8b8696c, 0x8ac77246c07f4214,
     0xc5f4158fbdc75ec4, 0x75446fa78f11bb80, 0x52de75b7aee488bc, 0x82b8001e98a6a3f4,
     0x8ef48f33a9a36315, 0xaa5f5624d5b7f989, 0xb6f1ed207c5ae0fd, 0x36cae95a06422c36,
     0xce2935434efe983d, 0x533af974739a4ba7, 0xd0f51f596f4e8186, 0x0e9dad81afd85a9f,
     0xa7050667ee34626a, 0x8b0b28be6eb91727, 0x47740726c680103f, 0xe0a07e6fc67e487b,
     0x0d550aa54af8a4c0, 0x91e3e79f978ef19e, 0x8676728150608dd4, 0x7e9e5a41f3e5b062,
     0xfc9f1fec4054207a, 0xe3e41a00cef4c984, 0x4fd794f59dfa95d8, 0x552e7e1124c354a5,
     0x5bdf7228bdfe6e28, 0x78f57fe20fa5c4b2, 0x05897cefee49d32e, 0x447e9385eb28597f,
     0x705f6937b324314a, 0x5e8628f11dd6e465, 0xc71b770451b920e7, 0x74fe43e823d4878a,
     0x7d29e8a3927694f2, 0xddcb7a099b30d9c1, 0x1d1b30fb5bdc1be0, 0xda24494ff29c82bf,
     0xa4e7ba31b470bfff, 0x0d324405def8bc48, 0x3baefc3253bbd339, 0x459fc3c1e0298ba0,
     0xe5c905fdf7ae090f, 0x947034124290f134, 0xa271b701e344ed95, 0xe93b8e364f2f984a,
     0x88401d63a06cf615, 0x47c1444b8752afff, 0x7ebb4af1e20ac630, 0x4670b6c5cc6e8ce6,
     0xa4d5a456bd4fca00, 0xda9d844bc83e18ae, 0x7357ce453064d1ad, 0xe8a6ce68145c2567,
     0xa3da8cf2cb0ee116, 0x33e906589a94999a, 0x1f60b220c26f847b, 0xd1ceac7fa0d18518,
     0x32595ba18ddd19d3, 0x509a1cc0aaa5b446, 0x9f3d6367e4046bba, 0xf6ca19ab0b56ee7e,
     0x1fb179eaa9282174, 0xe9bdf7353b3651ee, 0x1d57ac5a7550d376, 0x3a46c2fea37d7001,
     0xf735c1af98a4d842, 0x78edec209e6b6779, 0x41836315ea3adba8, 0xfac33b4d32832c83,
     0xa7403b1f1c2747f3, 0x5940f034b72d769a, 0xe73e4e6cd2214ffd, 0xb8fd8d39dc5759ef,
     0x8d9b0c492b49ebda, 0x5ba2d74968f3700d, 0x7d3baed07a8d5584, 0xf5a5e9f0e4f88e65,
     0xa0b8a2f436103b53, 0x0ca8079e753eec5a, 0x9168949256e8884f, 0x5bb05c55f8babc4c,
     0xe3bb3b99f387947b, 0x75daf4d6726b1c5d, 0x64aeac28dc34b36d, 0x6c34a550b828db71,
     0xf861e2f2108d512a, 0xe3db643359dd75fc, 0x1cacbcf143ce3fa2, 0x67bbd13c02e843b0,
     0x330a5bca8829a175, 0x7f34194db416535c, 0x923b94c30e794d1e, 0x797475d7b6eeaf3f,
     0xeaa8d4f7be1a3921, 0x5cf47e094c232751, 0x26a32453ba323cd2, 0x44a3174a6da6d5ad,
     0xb51d3ea6aff2c908, 0x83593d98916b3c56, 0x4cf87ca17286604d, 0x46e23ecc086ec7f6,
     0x2f9833b3b1bc765e, 0x2bd666a5efc4e62a, 0x06f4b6e8bec1d436, 0x74ee8215bcef2163,
     0xfdc14e0df453c969, 0xa77d5ac406585826, 0x7ec1141606e0fa16, 0x7e90af3d28639d3f,
     0xd2c9f2e3009bd20c, 0x5faace30b7d40c30, 0x742a5116f2e03298, 0x0deb30d8e3cef89a,
     0x4bc59e7bb5f17992, 0xff51e66e048668d3, 0x9b234d57e6966731, 0xcce6a6f3170a7505,
     0xb17681d913326cce, 0x3c175284f805a262, 0xf42bcbb378471547, 0xff46548223936a48,
     0x38df58074e5e6565, 0xf2fc7c89fc86508e, 0x31702e44d00bca86, 0xf04009a23078474e,
     0x65a0ee39d1f73883, 0xf75ee937e42c3abd, 0x2197b2260113f86f, 0xa344edd1ef9fdee7,
     0x8ba0df15762592d9, 0x3c85f7f612dc42be, 0xd8a7ec7cab27b07e, 0x538d7ddaaa3ea8de,
     0xaa25ce93bd0269d8, 0x5af643fd1a7308f9, 0xc05fefda174a19a5, 0x974d66334cfd216a,
     0x35b49831db411570, 0xea1e0fbbedcd549b, 0x9ad063a151974072, 0xf6759dbf91476fe2]"

definition JH_C64 :: "u64 list" where
  "JH_C64 = map C64e JH_C64_words"

definition IV224_64 :: "u64 list" where
  "IV224_64 = map C64e
    [0x2dfedd62f99a98ac, 0xae7cacd619d634e7, 0xa4831005bc301216, 0xb86038c6c9661494,
     0x66d9899f2580706f, 0xce9ea31b1d9b1adc, 0x11e8325f7b366e10, 0xf994857f02fa06c1,
     0x1b4f1b5cd8c840b3, 0x97f6a17f6e738099, 0xdcdf93a5adeaa3d3, 0xa431e8dec9539a68,
     0x22b4a98aec86a1e4, 0xd574ac959ce56cf0, 0x15960deab5ab2bbf, 0x9611dcf0dd64ea6e]"

definition IV256_64 :: "u64 list" where
  "IV256_64 = map C64e
    [0xeb98a3412c20d3eb, 0x92cdbe7b9cb245c1, 0x1c93519160d4c7fa, 0x260082d67e508a03,
     0xa4239e267726b945, 0xe0fb1a48d41a9477, 0xcdb5ab26026b177a, 0x56f024420fff2fa8,
     0x71a396897f2e4d75, 0x1d144908f77de262, 0x277695f776248f94, 0x87d5b6574780296c,
     0x5c5e272dac8e0d6c, 0x518450c657057a0f, 0x7be4d367702412ea, 0x89e3ab13d31cd769]"

definition IV384_64 :: "u64 list" where
  "IV384_64 = map C64e
    [0x481e3bc6d813398a, 0x6d3b5e894ade879b, 0x63faea68d480ad2e, 0x332ccb21480f8267,
     0x98aec84d9082b928, 0xd455ea3041114249, 0x36f555b2924847ec, 0xc7250a93baf43ce1,
     0x569b7f8a27db454c, 0x9efcbd496397af0e, 0x589fc27d26aa80cd, 0x80c08b8c9deb2eda,
     0x8a7981e8f8d5373a, 0xf43967adddd17a71, 0xa9b4d3bda475d394, 0x976c3fba9842737f]"

definition IV512_64 :: "u64 list" where
  "IV512_64 = map C64e
    [0x6fd14b963e00aa17, 0x636a2e057a15d543, 0x8a225e8d0c97ef0b, 0xe9341259f2b3c361,
     0x891da0c1536f801e, 0x2aa9056bea2b6d80, 0x588eccdb2075baa6, 0xa90f3a76baf83bf7,
     0x0169e60541e34a69, 0x46b58a8e2e6fe65a, 0x1047a7d0c1843c24, 0x3b6e71b12d5ac199,
     0xcf57f6ec9db1f856, 0xa706887c5716b156, 0xe3c2fcdfe68517fb, 0x545a4678cc8cdd4b]"

subsection \<open>32-bit words\<close>

definition JH_C32_words :: "u32 list" where
  "JH_C32_words =
    [0x72d5dea2, 0xdf15f867, 0x7b84150a, 0xb7231557, 0x81abd690, 0x4d5a87f6, 0x4e9f4fc5, 0xc3d12b40,
     0xea983ae0, 0x5c45fa9c, 0x03c5d299, 0x66b2999a, 0x660296b4, 0xf2bb538a, 0xb556141a, 0x88dba231,
     0x03a35a5c, 0x9a190edb, 0x403fb20a, 0x87c14410, 0x1c051980, 0x849e951d, 0x6f33ebad, 0x5ee7cddc,
     0x10ba1392, 0x02bf6b41, 0xdc786515, 0xf7bb27d0, 0x0a2c8139, 0x37aa7850, 0x3f1abfd2, 0x410091d3,
     0x422d5a0d, 0xf6cc7e90, 0xdd629f9c, 0x92c097ce, 0x185ca70b, 0xc72b44ac, 0xd1df65d6, 0x63c6fc23,
     0x976e6c03, 0x9ee0b81a, 0x2105457e, 0x446ceca8, 0xeef103bb, 0x5d8e61fa, 0xfd9697b2, 0x94838197,
     0x4a8e8537, 0xdb03302f, 0x2a678d2d, 0xfb9f6a95, 0x8afe7381, 0xf8b8696c, 0x8ac77246, 0xc07f4214,
     0xc5f4158f, 0xbdc75ec4, 0x75446fa7, 0x8f11bb80, 0x52de75b7, 0xaee488bc, 0x82b8001e, 0x98a6a3f4,
     0x8ef48f33, 0xa9a36315, 0xaa5f5624, 0xd5b7f989, 0xb6f1ed20, 0x7c5ae0fd, 0x36cae95a, 0x06422c36,
     0xce293543, 0x4efe983d, 0x533af974, 0x739a4ba7, 0xd0f51f59, 0x6f4e8186, 0x0e9dad81, 0xafd85a9f,
     0xa7050667, 0xee34626a, 0x8b0b28be, 0x6eb91727, 0x47740726, 0xc680103f, 0xe0a07e6f, 0xc67e487b,
     0x0d550aa5, 0x4af8a4c0, 0x91e3e79f, 0x978ef19e, 0x86767281, 0x50608dd4, 0x7e9e5a41, 0xf3e5b062,
     0xfc9f1fec, 0x4054207a, 0xe3e41a00, 0xcef4c984, 0x4fd794f5, 0x9dfa95d8, 0x552e7e11, 0x24c354a5,
     0x5bdf7228, 0xbdfe6e28, 0x78f57fe2, 0x0fa5c4b2, 0x05897cef, 0xee49d32e, 0x447e9385, 0xeb28597f,
     0x705f6937, 0xb324314a, 0x5e8628f1, 0x1dd6e465, 0xc71b7704, 0x51b920e7, 0x74fe43e8, 0x23d4878a,
     0x7d29e8a3, 0x927694f2, 0xddcb7a09, 0x9b30d9c1, 0x1d1b30fb, 0x5bdc1be0, 0xda24494f, 0xf29c82bf,
     0xa4e7ba31, 0xb470bfff, 0x0d324405, 0xdef8bc48, 0x3baefc32, 0x53bbd339, 0x459fc3c1, 0xe0298ba0,
     0xe5c905fd, 0xf7ae090f, 0x94703412, 0x4290f134, 0xa271b701, 0xe344ed95, 0xe93b8e36, 0x4f2f984a,
     0x88401d63, 0xa06cf615, 0x47c1444b, 0x8752afff, 0x7ebb4af1, 0xe20ac630, 0x4670b6c5, 0xcc6e8ce6,
     0xa4d5a456, 0xbd4fca00, 0xda9d844b, 0xc83e18ae, 0x7357ce45, 0x3064d1ad, 0xe8a6ce68, 0x145c2567,
     0xa3da8cf2, 0xcb0ee116, 0x33e90658, 0x9a94999a, 0x1f60b220, 0xc26f847b, 0xd1ceac7f, 0xa0d18518,
     0x32595ba1, 0x8ddd19d3, 0x509a1cc0, 0xaaa5b446, 0x9f3d6367, 0xe4046bba, 0xf6ca19ab, 0x0b56ee7e,
     0x1fb179ea, 0xa9282174, 0xe9bdf735, 0x3b3651ee, 0x1d57ac5a, 0x7550d376, 0x3a46c2fe, 0xa37d7001,
     0xf735c1af, 0x98a4d842, 0x78edec20, 0x9e6b6779, 0x41836315, 0xea3adba8, 0xfac33b4d, 0x32832c83,
     0xa7403b1f, 0x1c2747f3, 0x5940f034, 0xb72d769a, 0xe73e4e6c, 0xd2214ffd, 0xb8fd8d39, 0xdc5759ef,
     0x8d9b0c49, 0x2b49ebda, 0x5ba2d749, 0x68f3700d, 0x7d3baed0, 0x7a8d5584, 0xf5a5e9f0, 0xe4f88e65,
     0xa0b8a2f4, 0x36103b53, 0x0ca8079e, 0x753eec5a, 0x91689492, 0x56e8884f, 0x5bb05c55, 0xf8babc4c,
     0xe3bb3b99, 0xf387947b, 0x75daf4d6, 0x726b1c5d, 0x64aeac28, 0xdc34b36d, 0x6c34a550, 0xb828db71,
     0xf861e2f2, 0x108d512a, 0xe3db6433, 0x59dd75fc, 0x1cacbcf1, 0x43ce3fa2, 0x67bbd13c, 0x02e843b0,
     0x330a5bca, 0x8829a175, 0x7f34194d, 0xb416535c, 0x923b94c3, 0x0e794d1e, 0x797475d7, 0xb6eeaf3f,
     0xeaa8d4f7, 0xbe1a3921, 0x5cf47e09, 0x4c232751, 0x26a32453, 0xba323cd2, 0x44a3174a, 0x6da6d5ad,
     0xb51d3ea6, 0xaff2c908, 0x83593d98, 0x916b3c56, 0x4cf87ca1, 0x7286604d, 0x46e23ecc, 0x086ec7f6,
     0x2f9833b3, 0xb1bc765e, 0x2bd666a5, 0xefc4e62a, 0x06f4b6e8, 0xbec1d436, 0x74ee8215, 0xbcef2163,
     0xfdc14e0d, 0xf453c969, 0xa77d5ac4, 0x06585826, 0x7ec11416, 0x06e0fa16, 0x7e90af3d, 0x28639d3f,
     0xd2c9f2e3, 0x009bd20c, 0x5faace30, 0xb7d40c30, 0x742a5116, 0xf2e03298, 0x0deb30d8, 0xe3cef89a,
     0x4bc59e7b, 0xb5f17992, 0xff51e66e, 0x048668d3, 0x9b234d57, 0xe6966731, 0xcce6a6f3, 0x170a7505,
     0xb17681d9, 0x13326cce, 0x3c175284, 0xf805a262, 0xf42bcbb3, 0x78471547, 0xff465482, 0x23936a48,
     0x38df5807, 0x4e5e6565, 0xf2fc7c89, 0xfc86508e, 0x31702e44, 0xd00bca86, 0xf04009a2, 0x3078474e,
     0x65a0ee39, 0xd1f73883, 0xf75ee937, 0xe42c3abd, 0x2197b226, 0x0113f86f, 0xa344edd1, 0xef9fdee7,
     0x8ba0df15, 0x762592d9, 0x3c85f7f6, 0x12dc42be, 0xd8a7ec7c, 0xab27b07e, 0x538d7dda, 0xaa3ea8de,
     0xaa25ce93, 0xbd0269d8, 0x5af643fd, 0x1a7308f9, 0xc05fefda, 0x174a19a5, 0x974d6633, 0x4cfd216a,
     0x35b49831, 0xdb411570, 0xea1e0fbb, 0xedcd549b, 0x9ad063a1, 0x51974072, 0xf6759dbf, 0x91476fe2]"

definition JH_C32 :: "u32 list" where
  "JH_C32 = map C32e JH_C32_words"

definition IV224_32 :: "u32 list" where
  "IV224_32 = map C32e
    [0x2dfedd62, 0xf99a98ac, 0xae7cacd6, 0x19d634e7, 0xa4831005, 0xbc301216, 0xb86038c6, 0xc9661494,
     0x66d9899f, 0x2580706f, 0xce9ea31b, 0x1d9b1adc, 0x11e8325f, 0x7b366e10, 0xf994857f, 0x02fa06c1,
     0x1b4f1b5c, 0xd8c840b3, 0x97f6a17f, 0x6e738099, 0xdcdf93a5, 0xadeaa3d3, 0xa431e8de, 0xc9539a68,
     0x22b4a98a, 0xec86a1e4, 0xd574ac95, 0x9ce56cf0, 0x15960dea, 0xb5ab2bbf, 0x9611dcf0, 0xdd64ea6e]"

definition IV256_32 :: "u32 list" where
  "IV256_32 = map C32e
    [0xeb98a341, 0x2c20d3eb, 0x92cdbe7b, 0x9cb245c1, 0x1c935191, 0x60d4c7fa, 0x260082d6, 0x7e508a03,
     0xa4239e26, 0x7726b945, 0xe0fb1a48, 0xd41a9477, 0xcdb5ab26, 0x026b177a, 0x56f02442, 0x0fff2fa8,
     0x71a39689, 0x7f2e4d75, 0x1d144908, 0xf77de262, 0x277695f7, 0x76248f94, 0x87d5b657, 0x4780296c,
     0x5c5e272d, 0xac8e0d6c, 0x518450c6, 0x57057a0f, 0x7be4d367, 0x702412ea, 0x89e3ab13, 0xd31cd769]"

definition IV384_32 :: "u32 list" where
  "IV384_32 = map C32e
    [0x481e3bc6, 0xd813398a, 0x6d3b5e89, 0x4ade879b, 0x63faea68, 0xd480ad2e, 0x332ccb21, 0x480f8267,
     0x98aec84d, 0x9082b928, 0xd455ea30, 0x41114249, 0x36f555b2, 0x924847ec, 0xc7250a93, 0xbaf43ce1,
     0x569b7f8a, 0x27db454c, 0x9efcbd49, 0x6397af0e, 0x589fc27d, 0x26aa80cd, 0x80c08b8c, 0x9deb2eda,
     0x8a7981e8, 0xf8d5373a, 0xf43967ad, 0xddd17a71, 0xa9b4d3bd, 0xa475d394, 0x976c3fba, 0x9842737f]"

definition IV512_32 :: "u32 list" where
  "IV512_32 = map C32e
    [0x6fd14b96, 0x3e00aa17, 0x636a2e05, 0x7a15d543, 0x8a225e8d, 0x0c97ef0b, 0xe9341259, 0xf2b3c361,
     0x891da0c1, 0x536f801e, 0x2aa9056b, 0xea2b6d80, 0x588eccdb, 0x2075baa6, 0xa90f3a76, 0xbaf83bf7,
     0x0169e605, 0x41e34a69, 0x46b58a8e, 0x2e6fe65a, 0x1047a7d0, 0xc1843c24, 0x3b6e71b1, 0x2d5ac199,
     0xcf57f6ec, 0x9db1f856, 0xa706887c, 0x5716b156, 0xe3c2fcdf, 0xe68517fb, 0x545a4678, 0xcc8cdd4b]"

section \<open>The round functions\<close>

definition Sb ::
  "'a::len word \<Rightarrow> 'a word \<Rightarrow> 'a word \<Rightarrow> 'a word \<Rightarrow> 'a word \<Rightarrow> 'a word \<times> 'a word \<times> 'a word \<times> 'a word"
where
  "Sb x0 x1 x2 x3 c =
     (let x3 = NOT x3;
          x0 = x0 XOR (c AND NOT x2);
          tmp = c XOR (x0 AND x1);
          x0 = x0 XOR (x2 AND x3);
          x3 = x3 XOR (NOT x1 AND x2);
          x1 = x1 XOR (x0 AND x2);
          x2 = x2 XOR (x0 AND NOT x3);
          x0 = x0 XOR (x1 OR x3);
          x3 = x3 XOR (x1 AND x2);
          x1 = x1 XOR (tmp AND x0);
          x2 = x2 XOR tmp
      in (x0, x1, x2, x3))"

definition Lb ::
  "'a::len word \<Rightarrow> 'a word \<Rightarrow> 'a word \<Rightarrow> 'a word \<Rightarrow> 'a word \<Rightarrow> 'a word \<Rightarrow> 'a word \<Rightarrow> 'a word
     \<Rightarrow> 'a word \<times> 'a word \<times> 'a word \<times> 'a word \<times> 'a word \<times> 'a word \<times> 'a word \<times> 'a word"
where
  "Lb x0 x1 x2 x3 x4 x5 x6 x7 =
     (let x4 = x4 XOR x1;
          x5 = x5 XOR x2;
          x6 = x6 XOR (x3 XOR x0);
          x7 = x7 XOR x0;
          x0 = x0 XOR x5;
          x1 = x1 XOR x6;
          x2 = x2 XOR (x7 XOR x4);
          x3 = x3 XOR x4
      in (x0, x1, x2, x3, x4, x5, x6, x7))"

text \<open>
  The state of a round is the list of the eight registers \<open>h0\<close> to \<open>h7\<close>. \<open>JH_S\<close> and \<open>JH_L\<close>
  are the macros \<open>S\<close> and \<open>L\<close>: they apply \<open>Sb\<close> and \<open>Lb\<close> to each word of the registers that
  the index list names, and write the results back.
\<close>

type_synonym 'a regs = "'a word list list"

definition JH_S :: "nat list \<Rightarrow> 'a::len word list \<Rightarrow> 'a regs \<Rightarrow> 'a regs" where
  "JH_S is c h =
     (let i0 = is ! 0; i1 = is ! 1; i2 = is ! 2; i3 = is ! 3;
          ys = map (\<lambda>j. Sb (h ! i0 ! j) (h ! i1 ! j) (h ! i2 ! j) (h ! i3 ! j) (c ! j)) [0..<length c]
      in h[i0 := map (\<lambda>(x0, x1, x2, x3). x0) ys, i1 := map (\<lambda>(x0, x1, x2, x3). x1) ys,
           i2 := map (\<lambda>(x0, x1, x2, x3). x2) ys, i3 := map (\<lambda>(x0, x1, x2, x3). x3) ys])"

definition JH_L :: "nat \<Rightarrow> 'a::len regs \<Rightarrow> 'a regs" where
  "JH_L k h =
     (let ys = map (\<lambda>j. Lb (h ! 0 ! j) (h ! 2 ! j) (h ! 4 ! j) (h ! 6 ! j)
                           (h ! 1 ! j) (h ! 3 ! j) (h ! 5 ! j) (h ! 7 ! j)) [0..<k]
      in [map (\<lambda>(x0, x1, x2, x3, x4, x5, x6, x7). x0) ys, map (\<lambda>(x0, x1, x2, x3, x4, x5, x6, x7). x4) ys,
          map (\<lambda>(x0, x1, x2, x3, x4, x5, x6, x7). x1) ys, map (\<lambda>(x0, x1, x2, x3, x4, x5, x6, x7). x5) ys,
          map (\<lambda>(x0, x1, x2, x3, x4, x5, x6, x7). x2) ys, map (\<lambda>(x0, x1, x2, x3, x4, x5, x6, x7). x6) ys,
          map (\<lambda>(x0, x1, x2, x3, x4, x5, x6, x7). x3) ys, map (\<lambda>(x0, x1, x2, x3, x4, x5, x6, x7). x7) ys])"

definition Wz :: "'a::len word \<Rightarrow> nat \<Rightarrow> 'a word \<Rightarrow> 'a word" where
  "Wz c n x = (let t = push_bit n (x AND c) in (drop_bit n x AND c) OR t)"

text \<open>The macros \<open>W0\<close> to \<open>W6\<close>, chosen by their number.\<close>

definition W_wide :: "nat \<Rightarrow> u64 list \<Rightarrow> u64 list" where
  "W_wide ro x =
     (if ro = 0 then map (Wz 0x5555555555555555 1) x
      else if ro = 1 then map (Wz 0x3333333333333333 2) x
      else if ro = 2 then map (Wz 0x0F0F0F0F0F0F0F0F 4) x
      else if ro = 3 then map (Wz 0x00FF00FF00FF00FF 8) x
      else if ro = 4 then map (Wz 0x0000FFFF0000FFFF 16) x
      else if ro = 5 then map (Wz 0x00000000FFFFFFFF 32) x
      else let t = x ! 0; x = x[0 := x ! 1] in x[1 := t])"

definition W_narrow :: "nat \<Rightarrow> u32 list \<Rightarrow> u32 list" where
  "W_narrow ro x =
     (if ro = 0 then map (Wz 0x55555555 1) x
      else if ro = 1 then map (Wz 0x33333333 2) x
      else if ro = 2 then map (Wz 0x0F0F0F0F 4) x
      else if ro = 3 then map (Wz 0x00FF00FF 8) x
      else if ro = 4 then map (Wz 0x0000FFFF 16) x
      else if ro = 5 then
        (let t = x ! 0; x = x[0 := x ! 1]; x = x[1 := t];
             t = x ! 2; x = x[2 := x ! 3] in x[3 := t])
      else
        (let t = x ! 0; x = x[0 := x ! 2]; x = x[2 := t];
             t = x ! 1; x = x[1 := x ! 3] in x[3 := t]))"

record ('w, 'n) jh_ops =
  JH_K :: nat
  JH_C :: "'w list"
  JH_W :: "nat \<Rightarrow> 'w list \<Rightarrow> 'w list"
  DECE :: "byte list \<Rightarrow> 'w"
  ENCE :: "'w \<Rightarrow> byte list"
  COUNT0 :: 'n
  COUNT_INC :: "'n \<Rightarrow> 'n"
  ENC_LEN :: "'n \<Rightarrow> nat \<Rightarrow> nat \<Rightarrow> byte list"

definition Ceven :: "('a word, 'n) jh_ops \<Rightarrow> nat \<Rightarrow> 'a word list" where
  "Ceven ops r = map (\<lambda>j. JH_C ops ! (2 * JH_K ops * r + j)) [0..<JH_K ops]"

definition Codd :: "('a word, 'n) jh_ops \<Rightarrow> nat \<Rightarrow> 'a word list" where
  "Codd ops r = map (\<lambda>j. JH_C ops ! (2 * JH_K ops * r + JH_K ops + j)) [0..<JH_K ops]"

definition SLu :: "('a::len word, 'n) jh_ops \<Rightarrow> nat \<Rightarrow> nat \<Rightarrow> 'a regs \<Rightarrow> 'a regs" where
  "SLu ops r ro h =
     (let h = JH_S [0, 2, 4, 6] (Ceven ops r) h;
          h = JH_S [1, 3, 5, 7] (Codd ops r) h;
          h = JH_L (JH_K ops) h;
          h = h[1 := JH_W ops ro (h ! 1)];
          h = h[3 := JH_W ops ro (h ! 3)];
          h = h[5 := JH_W ops ro (h ! 5)]
      in h[7 := JH_W ops ro (h ! 7)])"

subsection \<open>\<open>E8\<close>\<close>

text \<open>
  The unrolled \<open>E8\<close> of 64-bit targets, the loop over groups of seven rounds, and the loop of
  the small-footprint 32-bit build, whose \<open>switch\<close> selects the swap by a counter \<open>g\<close>.
\<close>

definition E8_unrolled :: "('a::len word, 'n) jh_ops \<Rightarrow> 'a regs \<Rightarrow> 'a regs" where
  "E8_unrolled ops h = fold (\<lambda>(r, ro). SLu ops r ro)
    [(0, 0), (1, 1), (2, 2), (3, 3), (4, 4), (5, 5), (6, 6),
     (7, 0), (8, 1), (9, 2), (10, 3), (11, 4), (12, 5), (13, 6),
     (14, 0), (15, 1), (16, 2), (17, 3), (18, 4), (19, 5), (20, 6),
     (21, 0), (22, 1), (23, 2), (24, 3), (25, 4), (26, 5), (27, 6),
     (28, 0), (29, 1), (30, 2), (31, 3), (32, 4), (33, 5), (34, 6),
     (35, 0), (36, 1), (37, 2), (38, 3), (39, 4), (40, 5), (41, 6)] h"

definition SL7 :: "('a::len word, 'n) jh_ops \<Rightarrow> nat \<Rightarrow> 'a regs \<Rightarrow> 'a regs" where
  "SL7 ops r h =
     (let h = SLu ops (r + 0) 0 h; h = SLu ops (r + 1) 1 h; h = SLu ops (r + 2) 2 h;
          h = SLu ops (r + 3) 3 h; h = SLu ops (r + 4) 4 h; h = SLu ops (r + 5) 5 h
      in SLu ops (r + 6) 6 h)"

definition E8_loop :: "('a::len word, 'n) jh_ops \<Rightarrow> 'a regs \<Rightarrow> 'a regs" where
  "E8_loop ops h = fold (SL7 ops) (map (\<lambda>i. 7 * i) [0..<6]) h"

definition E8_switch_step :: "('a::len word, 'n) jh_ops \<Rightarrow> nat \<Rightarrow> nat \<times> 'a regs \<Rightarrow> nat \<times> 'a regs" where
  "E8_switch_step ops r gh =
     (let (g, h) = gh; h = SLu ops r g h; g = g + 1
      in (if g = 7 then 0 else g, h))"

definition E8_switch :: "('a::len word, 'n) jh_ops \<Rightarrow> 'a regs \<Rightarrow> 'a regs" where
  "E8_switch ops h = snd (fold (E8_switch_step ops) [0..<42] (0, h))"

text \<open>The choice of the build without a small footprint.\<close>

definition E8 :: "('a::len word, 'n) jh_ops \<Rightarrow> 'a regs \<Rightarrow> 'a regs" where
  "E8 ops = (if JH_K ops = 2 then E8_unrolled ops else E8_loop ops)"

section \<open>The context and its operations\<close>

record ('w, 'n) sph_jh_context =
  jh_buf :: "byte list"
  jh_ptr :: nat
  jh_H :: "'w list"
  jh_block_count :: 'n

definition JH_READ_STATE :: "('a word, 'n) jh_ops \<Rightarrow> 'a word list \<Rightarrow> 'a regs" where
  "JH_READ_STATE ops H = map (\<lambda>i. map (\<lambda>j. H ! (JH_K ops * i + j)) [0..<JH_K ops]) [0..<8]"

definition JH_WRITE_STATE :: "'a regs \<Rightarrow> 'a word list" where
  "JH_WRITE_STATE h = concat h"

text \<open>The words \<open>m0\<close> to \<open>m3\<close> of a block, and their addition to four registers.\<close>

definition JH_block_words :: "('a word, 'n) jh_ops \<Rightarrow> byte list \<Rightarrow> 'a regs" where
  "JH_block_words ops buf =
     (let K = JH_K ops; wb = 16 div K
      in map (\<lambda>i. map (\<lambda>j. DECE ops (take wb (drop (wb * (K * i + j)) buf))) [0..<K]) [0..<4])"

definition xor_regs :: "nat \<Rightarrow> 'a::len regs \<Rightarrow> 'a regs \<Rightarrow> 'a regs" where
  "xor_regs i0 m h = fold (\<lambda>i h. h[i0 + i := map2 (XOR) (h ! (i0 + i)) (m ! i)]) [0, 1, 2, 3] h"

definition JH_INPUT_BUF1 :: "'a::len regs \<Rightarrow> 'a regs \<Rightarrow> 'a regs" where
  "JH_INPUT_BUF1 m h = xor_regs 0 m h"

definition JH_INPUT_BUF2 :: "'a::len regs \<Rightarrow> 'a regs \<Rightarrow> 'a regs" where
  "JH_INPUT_BUF2 m h = xor_regs 4 m h"

definition jh_init :: "('a word, 'n) jh_ops \<Rightarrow> 'a word list \<Rightarrow> ('a word, 'n) sph_jh_context \<Rightarrow> ('a word, 'n) sph_jh_context" where
  "jh_init ops iv sc = sc\<lparr>jh_ptr := 0, jh_H := iv, jh_block_count := COUNT0 ops\<rparr>"

text \<open>The body of \<open>jh_core\<close> that runs when the buffer is full.\<close>

definition jh_compress :: "('a::len word, 'n) jh_ops \<Rightarrow> ('a word, 'n) sph_jh_context \<Rightarrow> ('a word, 'n) sph_jh_context" where
  "jh_compress ops sc =
     (let h = JH_READ_STATE ops (jh_H sc);
          m = JH_block_words ops (jh_buf sc);
          h = JH_INPUT_BUF1 m h;
          h = E8 ops h;
          h = JH_INPUT_BUF2 m h
      in sc\<lparr>jh_H := JH_WRITE_STATE h, jh_block_count := COUNT_INC ops (jh_block_count sc)\<rparr>)"

partial_function (option) jh_core_loop ::
  "('a::len word, 'n) jh_ops \<Rightarrow> ('a word, 'n) sph_jh_context \<Rightarrow> nat \<Rightarrow> byte list
     \<Rightarrow> (('a word, 'n) sph_jh_context \<times> nat) option"
where
  "jh_core_loop ops sc ptr data =
     (if data = [] then Some (sc, ptr)
      else let clen = min (size_sub 64 ptr) (length data)
        in Option.bind (memcpy (jh_buf sc) ptr (take clen data)) (\<lambda>b.
             if ptr + clen = 64
             then jh_core_loop ops (jh_compress ops (sc\<lparr>jh_buf := b\<rparr>)) 0 (drop clen data)
             else jh_core_loop ops (sc\<lparr>jh_buf := b\<rparr>) (ptr + clen) (drop clen data)))"

definition jh_core ::
  "('a::len word, 'n) jh_ops \<Rightarrow> ('a word, 'n) sph_jh_context \<Rightarrow> byte list \<Rightarrow> ('a word, 'n) sph_jh_context option"
where
  "jh_core ops sc data =
     (if length data < size_sub 64 (jh_ptr sc)
      then do {
        b \<leftarrow> memcpy (jh_buf sc) (jh_ptr sc) data;
        Some (sc\<lparr>jh_buf := b, jh_ptr := jh_ptr sc + length data\<rparr>)
      }
      else do {
        (sc, ptr) \<leftarrow> jh_core_loop ops sc (jh_ptr sc) data;
        Some (sc\<lparr>jh_ptr := ptr\<rparr>)
      })"

text \<open>
  \<open>jh_close\<close>. The local array of 128 bytes, whose initial contents are indeterminate, is the
  parameter \<open>buf\<close>; \<open>w32\<close> is \<open>out_size_w32\<close>.
\<close>

definition jh_close ::
  "('a::len word, 'n) jh_ops \<Rightarrow> nat \<Rightarrow> 'a word list \<Rightarrow> byte list \<Rightarrow> ('a word, 'n) sph_jh_context \<Rightarrow> u32 \<Rightarrow> nat
     \<Rightarrow> (byte list \<times> ('a word, 'n) sph_jh_context) option"
where
  "jh_close ops w32 iv buf sc ub n =
     do {
       buf \<leftarrow> memcpy buf 0 [last_byte ub n];
       let numz = (if jh_ptr sc = 0 \<and> n = 0 then 47 else size_sub 111 (jh_ptr sc));
       buf \<leftarrow> memset buf 1 0 numz;
       buf \<leftarrow> memcpy buf (numz + 1) (ENC_LEN ops (jh_block_count sc) (jh_ptr sc) n);
       p \<leftarrow> mem_read buf 0 (numz + 17);
       sc \<leftarrow> jh_core ops sc p;
       buf \<leftarrow> memcpy buf 0 (concat (map (ENCE ops) (drop (4 * JH_K ops) (jh_H sc))));
       dst \<leftarrow> mem_read buf (4 * (16 - w32)) (4 * w32);
       Some (dst, jh_init ops iv sc)
     }"

section \<open>The three variants\<close>

definition jh_len64 :: "u64 \<Rightarrow> nat \<Rightarrow> nat \<Rightarrow> byte list" where
  "jh_len64 block_count ptr n =
     (let l0 = push_bit 9 block_count + push_bit 3 (of_nat ptr) + of_nat n;
          l1 = drop_bit 55 block_count
      in sph_enc64be l1 @ sph_enc64be l0)"

definition jh_wide_ops :: "(u64, u64) jh_ops" where
  "jh_wide_ops =
     \<lparr>JH_K = 2, JH_C = JH_C64, JH_W = W_wide, DECE = sph_dec64le, ENCE = sph_enc64le,
      COUNT0 = 0, COUNT_INC = (\<lambda>c. c + 1), ENC_LEN = jh_len64\<rparr>"

text \<open>Without 64-bit types the counter is the pair of \<open>block_count_high\<close> and \<open>block_count_low\<close>.\<close>

definition jh_count_inc32 :: "u32 \<times> u32 \<Rightarrow> u32 \<times> u32" where
  "jh_count_inc32 c = (let (high, low) = c; low = low + 1 in (if low = 0 then high + 1 else high, low))"

definition jh_len32 :: "u32 \<times> u32 \<Rightarrow> nat \<Rightarrow> nat \<Rightarrow> byte list" where
  "jh_len32 c ptr n =
     (let (high, low) = c;
          l0 = push_bit 9 low + push_bit 3 (of_nat ptr) + of_nat n;
          l1 = drop_bit 23 low + push_bit 9 high;
          l2 = drop_bit 23 high;
          l3 = 0
      in sph_enc32be l3 @ sph_enc32be l2 @ sph_enc32be l1 @ sph_enc32be l0)"

definition jh_narrow_ops :: "(u32, u32 \<times> u32) jh_ops" where
  "jh_narrow_ops =
     \<lparr>JH_K = 4, JH_C = JH_C32, JH_W = W_narrow, DECE = sph_dec32le, ENCE = sph_enc32le,
      COUNT0 = (0, 0), COUNT_INC = jh_count_inc32, ENC_LEN = jh_len32\<rparr>"

text \<open>
  With 64-bit types but 32-bit slices (\<open>SPH_64\<close> and not \<open>SPH_JH_64\<close>, as on a 32-bit machine) the
  counter is the 64-bit word \<open>block_count\<close>.
\<close>

definition jh_narrow64_ops :: "(u32, u64) jh_ops" where
  "jh_narrow64_ops =
     \<lparr>JH_K = 4, JH_C = JH_C32, JH_W = W_narrow, DECE = sph_dec32le, ENCE = sph_enc32le,
      COUNT0 = 0, COUNT_INC = (\<lambda>c. c + 1), ENC_LEN = jh_len64\<rparr>"

text \<open>The table of initial values of each word size, by output size in bits.\<close>

definition jh_iv_wide :: "nat \<Rightarrow> u64 list" where
  "jh_iv_wide out_size = (if out_size = 224 then IV224_64 else if out_size = 256 then IV256_64
     else if out_size = 384 then IV384_64 else IV512_64)"

definition jh_iv_narrow :: "nat \<Rightarrow> u32 list" where
  "jh_iv_narrow out_size = (if out_size = 224 then IV224_32 else if out_size = 256 then IV256_32
     else if out_size = 384 then IV384_32 else IV512_32)"

section \<open>The public functions\<close>

text \<open>\<open>iv\<close> is the table of the variant, \<open>jh_iv_wide\<close> or \<open>jh_iv_narrow\<close>.\<close>

definition sph_jh224_init where
  "sph_jh224_init ops iv cc = jh_init ops (iv (224 :: nat)) cc"

definition sph_jh224 where
  "sph_jh224 ops cc data = jh_core ops cc data"

definition sph_jh224_close where
  "sph_jh224_close ops iv buf cc = jh_close ops 7 (iv (224 :: nat)) buf cc 0 0"

definition sph_jh224_addbits_and_close where
  "sph_jh224_addbits_and_close ops iv buf cc ub n = jh_close ops 7 (iv (224 :: nat)) buf cc ub n"

definition sph_jh256_init where
  "sph_jh256_init ops iv cc = jh_init ops (iv (256 :: nat)) cc"

definition sph_jh256 where
  "sph_jh256 ops cc data = jh_core ops cc data"

definition sph_jh256_close where
  "sph_jh256_close ops iv buf cc = jh_close ops 8 (iv (256 :: nat)) buf cc 0 0"

definition sph_jh256_addbits_and_close where
  "sph_jh256_addbits_and_close ops iv buf cc ub n = jh_close ops 8 (iv (256 :: nat)) buf cc ub n"

definition sph_jh384_init where
  "sph_jh384_init ops iv cc = jh_init ops (iv (384 :: nat)) cc"

definition sph_jh384 where
  "sph_jh384 ops cc data = jh_core ops cc data"

definition sph_jh384_close where
  "sph_jh384_close ops iv buf cc = jh_close ops 12 (iv (384 :: nat)) buf cc 0 0"

definition sph_jh384_addbits_and_close where
  "sph_jh384_addbits_and_close ops iv buf cc ub n = jh_close ops 12 (iv (384 :: nat)) buf cc ub n"

definition sph_jh512_init where
  "sph_jh512_init ops iv cc = jh_init ops (iv (512 :: nat)) cc"

definition sph_jh512 where
  "sph_jh512 ops cc data = jh_core ops cc data"

definition sph_jh512_close where
  "sph_jh512_close ops iv buf cc = jh_close ops 16 (iv (512 :: nat)) buf cc 0 0"

definition sph_jh512_addbits_and_close where
  "sph_jh512_addbits_and_close ops iv buf cc ub n = jh_close ops 16 (iv (512 :: nat)) buf cc ub n"

end
