(* ===== verification/Jh_Spec.thy ===== *)
theory Jh_Spec
  imports Block_Stream
begin

text \<open>
  The hash function JH as its specification states it, on 4-bit elements and bit strings,
  written independently of the bit-sliced code of \<open>src/src/jh.c\<close>: the S-boxes are tables, the
  linear layer is multiplication in the field of 16 elements, the permutation of the elements
  is the composition of \<open>pi\<close>, \<open>P'\<close> and \<open>phi\<close>, the round constants come from the square root
  of 2 by a smaller round function, and the initial values from the output size.
\<close>

section \<open>The round function on 4-bit elements\<close>

type_synonym nibble = "4 word"

definition jh_S0 :: "nibble list" where
  "jh_S0 = [9, 0, 4, 11, 13, 12, 3, 15, 1, 10, 2, 6, 7, 5, 8, 14]"

definition jh_S1 :: "nibble list" where
  "jh_S1 = [3, 12, 6, 13, 5, 7, 1, 9, 15, 2, 0, 4, 11, 10, 14, 8]"

definition jh_sbox :: "bool \<Rightarrow> nibble \<Rightarrow> nibble" where
  "jh_sbox c x = (if c then jh_S1 else jh_S0) ! unat x"

text \<open>Multiplication by 2 modulo \<open>x\<^sup>4 + x + 1\<close>, and the map with the code \<open>(4, 2, 3)\<close>.\<close>

definition jh_mul2 :: "nibble \<Rightarrow> nibble" where
  "jh_mul2 x = push_bit 1 x XOR (if bit x 3 then 3 else 0)"

definition jh_L_spec :: "nibble \<Rightarrow> nibble \<Rightarrow> nibble \<times> nibble" where
  "jh_L_spec a b = (let d = b XOR jh_mul2 a; c = a XOR jh_mul2 d in (c, d))"

definition jh_pi :: "'a list \<Rightarrow> 'a list" where
  "jh_pi A = concat (map (\<lambda>i. [A ! (4 * i), A ! (4 * i + 1), A ! (4 * i + 3), A ! (4 * i + 2)])
     [0..<length A div 4])"

definition jh_P' :: "'a list \<Rightarrow> 'a list" where
  "jh_P' A = map (\<lambda>i. A ! (2 * i)) [0..<length A div 2] @ map (\<lambda>i. A ! (2 * i + 1)) [0..<length A div 2]"

definition jh_phi :: "'a list \<Rightarrow> 'a list" where
  "jh_phi A = take (length A div 2) A @
     concat (map (\<lambda>i. [A ! (2 * i + 1), A ! (2 * i)]) [length A div 4..<length A div 2])"

definition jh_P :: "'a list \<Rightarrow> 'a list" where
  "jh_P A = jh_phi (jh_P' (jh_pi A))"

definition jh_SL_spec :: "bool list \<Rightarrow> nibble list \<Rightarrow> nibble list" where
  "jh_SL_spec C A = concat (map (\<lambda>i.
     case jh_L_spec (jh_sbox (C ! (2 * i)) (A ! (2 * i))) (jh_sbox (C ! (2 * i + 1)) (A ! (2 * i + 1)))
     of (c, d) \<Rightarrow> [c, d]) [0..<length A div 2])"

definition jh_R :: "bool list \<Rightarrow> nibble list \<Rightarrow> nibble list" where
  "jh_R C A = jh_P (jh_SL_spec C A)"

section \<open>Round constants\<close>

text \<open>The 256 leading bits of the fractional part of the square root of 2.\<close>

definition jh_C0 :: nat where
  "jh_C0 = 0x6a09e667f3bcc908b2fb1366ea957d3e3adec17512775099da2f590b0667322a"

lemma jh_C0_sqrt2: "(2 ^ 256 + jh_C0)\<^sup>2 \<le> 2 * (2 ^ 256)\<^sup>2 \<and> 2 * (2 ^ 256)\<^sup>2 < (2 ^ 256 + jh_C0 + 1)\<^sup>2"
  by (simp add: jh_C0_def power2_eq_square)

definition jh_C0_nibbles :: "nibble list" where
  "jh_C0_nibbles = map (\<lambda>i. of_nat (jh_C0 div 16 ^ (63 - i) mod 16)) [0..<64]"

definition nibble_bits :: "nibble list \<Rightarrow> bool list" where
  "nibble_bits A = concat (map (\<lambda>x. [bit x 3, bit x 2, bit x 1, bit x 0]) A)"

definition jh_const_nibbles :: "nat \<Rightarrow> nibble list" where
  "jh_const_nibbles r = (jh_R (replicate 64 False) ^^ r) jh_C0_nibbles"

definition jh_const :: "nat \<Rightarrow> bool list" where
  "jh_const r = nibble_bits (jh_const_nibbles r)"

section \<open>\<open>E8\<close>, \<open>F8\<close> and the hash function\<close>

definition mk_nibble :: "bool \<Rightarrow> bool \<Rightarrow> bool \<Rightarrow> bool \<Rightarrow> nibble" where
  "mk_nibble b3 b2 b1 b0 = horner_sum of_bool 2 [b0, b1, b2, b3]"

definition jh_group :: "bool list \<Rightarrow> nibble list" where
  "jh_group H = concat (map (\<lambda>i.
     [mk_nibble (H ! i) (H ! (i + 256)) (H ! (i + 512)) (H ! (i + 768)),
      mk_nibble (H ! (i + 128)) (H ! (i + 384)) (H ! (i + 640)) (H ! (i + 896))]) [0..<128])"

definition jh_degroup :: "nibble list \<Rightarrow> bool list" where
  "jh_degroup A = concat (map (\<lambda>k.
     map (\<lambda>i. bit (A ! (2 * i)) (3 - k)) [0..<128] @ map (\<lambda>i. bit (A ! (2 * i + 1)) (3 - k)) [0..<128])
     [0, 1, 2, 3])"

definition E8_spec :: "bool list \<Rightarrow> bool list" where
  "E8_spec H = jh_degroup (fold (\<lambda>r. jh_R (jh_const r)) [0..<42] (jh_group H))"

definition F8_spec :: "bool list \<Rightarrow> bool list \<Rightarrow> bool list" where
  "F8_spec H M = (let A = E8_spec (map2 (\<noteq>) (take 512 H) M @ drop 512 H)
     in take 512 A @ map2 (\<noteq>) (drop 512 A) M)"

text \<open>A number as a string of \<open>n\<close> bits, the most significant bit first.\<close>

definition bits_be :: "nat \<Rightarrow> nat \<Rightarrow> bool list" where
  "bits_be n x = map (\<lambda>i. bit x (n - 1 - i)) [0..<n]"

definition jh_IV_spec :: "nat \<Rightarrow> bool list" where
  "jh_IV_spec d = F8_spec (bits_be 16 d @ replicate 1008 False) (replicate 512 False)"

text \<open>The bits of a byte string, each byte from its most significant bit on, and back.\<close>

definition msb_bits :: "byte list \<Rightarrow> bool list" where
  "msb_bits bs = concat (map (\<lambda>b. map (\<lambda>i. bit b (7 - i)) [0..<8]) bs)"

definition msb_bytes :: "bool list \<Rightarrow> byte list" where
  "msb_bytes bs = map (\<lambda>c. horner_sum of_bool 2 (rev c)) (chunks 8 bs)"

definition jh_pad :: "nat \<Rightarrow> bool list" where
  "jh_pad l = True # replicate (383 + nat ((- int l) mod 512)) False @ bits_be 128 l"

definition jh_spec :: "nat \<Rightarrow> bool list \<Rightarrow> bool list" where
  "jh_spec d M = drop (1024 - d) (foldl F8_spec (jh_IV_spec d) (chunks 512 (M @ jh_pad (length M))))"

section \<open>Bit strings and byte strings\<close>

lemma msb_bits_simps [simp]:
  "msb_bits [] = []" "msb_bits (b # bs) = map (\<lambda>i. bit b (7 - i)) [0..<8] @ msb_bits bs"
  "msb_bits (xs @ ys) = msb_bits xs @ msb_bits ys"
  by (simp_all add: msb_bits_def)

lemma length_msb_bits [simp]: "length (msb_bits bs) = 8 * length bs"
  by (induction bs) simp_all

lemma msb_bytes_Nil [simp]: "msb_bytes [] = []"
  by (simp add: msb_bytes_def chunks_short)

lemma msb_bytes_append: "msb_bytes (msb_bits bs @ x) = bs @ msb_bytes x"
proof (induction bs)
  case (Cons b bs)
  have "rev (map (\<lambda>i. bit b (7 - i)) [0..<8]) = map (bit b) [0..<8]"
    by (simp add: upt_rec numeral_eq_Suc)
  then have "horner_sum of_bool 2 (rev (map (\<lambda>i. bit b (7 - i)) [0..<8])) = b"
    using horner_sum_bit_eq_take_bit [of b 8] by (simp only: take_bit_word_eq_self len_num0 len_num1 len_bit0)
  then show ?case using Cons by (simp add: msb_bytes_def chunks_Cons del: upt.simps)
qed simp

lemma msb_bytes_msb_bits [simp]: "msb_bytes (msb_bits bs) = bs"
  using msb_bytes_append [of bs "[]"] by simp

lemma nth_msb_bits: "k < 8 * length bs \<Longrightarrow> msb_bits bs ! k = bit (bs ! (k div 8)) (7 - k mod 8)"
proof (induction bs arbitrary: k)
  case (Cons b bs)
  show ?case
  proof (cases "k < 8")
    case True
    then show ?thesis by (simp add: nth_append del: upt.simps)
  next
    case False
    define j where "j = k - 8"
    have "k = 8 + j" using False by (simp add: j_def)
    moreover have "(8 + j) div 8 = Suc (j div 8)" "(8 + j) mod 8 = j mod 8" by simp_all
    ultimately show ?thesis using Cons by (simp add: nth_append del: upt.simps)
  qed
qed simp

text \<open>The \<open>n\<close> high bits of the byte \<open>ub\<close> are the last bits of the message.\<close>

definition tail_bits :: "u32 \<Rightarrow> nat \<Rightarrow> bool list" where
  "tail_bits ub n = map (\<lambda>i. bit ub (7 - i)) [0..<n]"

lemma length_tail_bits [simp]: "length (tail_bits ub n) = n"
  by (simp add: tail_bits_def)

lemma msb_bits_last_byte:
  assumes "n < 8"
  shows "msb_bits [last_byte ub n] = tail_bits ub n @ True # replicate (7 - n) False"
proof (rule nth_equalityI)
  show "length (msb_bits [last_byte ub n]) = length (tail_bits ub n @ True # replicate (7 - n) False)"
    using assms by simp
  fix k assume "k < length (msb_bits [last_byte ub n])"
  then have k: "k < 8" by simp
  then have "msb_bits [last_byte ub n] ! k = bit (last_byte ub n) (7 - k)"
    using nth_msb_bits [of k "[last_byte ub n]"] by simp
  also have "\<dots> = (tail_bits ub n @ True # replicate (7 - n) False) ! k"
    using k assms by (auto simp: bit_last_byte nth_append tail_bits_def nth_Cons')
  finally show "msb_bits [last_byte ub n] ! k = (tail_bits ub n @ True # replicate (7 - n) False) ! k" .
qed

lemma msb_bits_zeros: "msb_bits (replicate k 0) = replicate (8 * k) False"
proof (induction k)
  case (Suc k)
  have "map (\<lambda>i. bit (0 :: byte) (7 - i)) [0..<8] = replicate 8 False"
    by (rule nth_equalityI) simp_all
  with Suc show ?case by (simp add: replicate_add [symmetric] del: upt.simps)
qed simp

lemma chunks_msb_bits: "0 < k \<Longrightarrow> chunks (8 * k) (msb_bits x) = map msb_bits (chunks k x)"
proof (induction "length x" arbitrary: x rule: less_induct)
  case less
  show ?case
  proof (cases "length x < k")
    case True
    then show ?thesis by (simp add: chunks_short)
  next
    case False
    then have x: "msb_bits x = msb_bits (take k x) @ msb_bits (drop k x)"
      by (metis append_take_drop_id msb_bits_simps(3))
    have "chunks (8 * k) (msb_bits x) = msb_bits (take k x) # chunks (8 * k) (msb_bits (drop k x))"
      unfolding x using False less.prems by (intro chunks_Cons) simp_all
    moreover have "chunks k x = take k x # chunks k (drop k x)"
      using False less.prems by (simp add: chunks.simps [of k x])
    ultimately show ?thesis using less.hyps [of "drop k x"] less.prems False by simp
  qed
qed

lemma msb_bits_drop: "msb_bits (drop k bs) = drop (8 * k) (msb_bits bs)"
proof (cases "k \<le> length bs")
  case True
  then show ?thesis by (metis append_take_drop_id append_eq_conv_conj length_msb_bits length_take min.absorb2 msb_bits_simps(3))
qed simp

end
