(* ===== verification/Jh_Bits.thy ===== *)
theory Jh_Bits
  imports Jh Jh_Spec
begin

text \<open>
  The bit-sliced round of \<open>jh.c\<close>, one position at a time: the eight bits of the registers at
  one position are two 4-bit elements of the specification, and \<open>Sb\<close>, \<open>Lb\<close> and the swaps act on
  them as the S-boxes, the linear layer and the permutation do.
\<close>

lemma mk_nibble_eval:
  "mk_nibble False False False False = 0" "mk_nibble False False False True = 1"
  "mk_nibble False False True False = 2" "mk_nibble False False True True = 3"
  "mk_nibble False True False False = 4" "mk_nibble False True False True = 5"
  "mk_nibble False True True False = 6" "mk_nibble False True True True = 7"
  "mk_nibble True False False False = 8" "mk_nibble True False False True = 9"
  "mk_nibble True False True False = 10" "mk_nibble True False True True = 11"
  "mk_nibble True True False False = 12" "mk_nibble True True False True = 13"
  "mk_nibble True True True False = 14" "mk_nibble True True True True = 15"
  by (simp_all add: mk_nibble_def)

lemma bit_mk_nibble:
  "bit (mk_nibble b3 b2 b1 b0) 0 = b0" "bit (mk_nibble b3 b2 b1 b0) (Suc 0) = b1"
  "bit (mk_nibble b3 b2 b1 b0) 2 = b2" "bit (mk_nibble b3 b2 b1 b0) 3 = b3"
  by (simp_all add: mk_nibble_def bit_horner_sum_bit_word_iff)

lemma nibble_eqI:
  fixes x y :: nibble
  assumes "bit x 0 = bit y 0" "bit x (Suc 0) = bit y (Suc 0)" "bit x 2 = bit y 2" "bit x 3 = bit y 3"
  shows "x = y"
proof (rule bit_word_eqI)
  fix n assume "n < LENGTH(4)"
  then have "n = 0 \<or> n = Suc 0 \<or> n = 2 \<or> n = 3" by auto
  with assms show "bit x n = bit y n" by auto
qed

lemma mk_nibble_bits: "mk_nibble (bit x 3) (bit x 2) (bit x (Suc 0)) (bit x 0) = x"
  by (rule nibble_eqI) (simp_all add: bit_mk_nibble)

lemma mk_nibble_XOR:
  "mk_nibble a3 a2 a1 a0 XOR mk_nibble b3 b2 b1 b0 =
     mk_nibble (a3 \<noteq> b3) (a2 \<noteq> b2) (a1 \<noteq> b1) (a0 \<noteq> b0)"
  by (rule nibble_eqI) (simp_all add: bit_mk_nibble bit_xor_iff)

lemma jh_mul2_mk_nibble: "jh_mul2 (mk_nibble b3 b2 b1 b0) = mk_nibble b2 b1 (b0 \<noteq> b3) b3"
  by (cases b0; cases b1; cases b2; cases b3) (simp_all add: jh_mul2_def mk_nibble_eval bit_mk_nibble)

text \<open>The S-boxes and the linear layer as formulas on the bits.\<close>

lemma Sb_nibble:
  fixes x0 :: "'a::len word"
  assumes "n < LENGTH('a)" and "Sb x0 x1 x2 x3 c = (y0, y1, y2, y3)"
  shows "mk_nibble (bit y0 n) (bit y1 n) (bit y2 n) (bit y3 n) =
    jh_sbox (bit c n) (mk_nibble (bit x0 n) (bit x1 n) (bit x2 n) (bit x3 n))"
  using assms
  by (cases "bit x0 n"; cases "bit x1 n"; cases "bit x2 n"; cases "bit x3 n"; cases "bit c n")
    (auto simp: Sb_def Let_def bit_simps mk_nibble_eval jh_sbox_def jh_S0_def jh_S1_def)

lemma Lb_nibble:
  fixes x0 :: "'a::len word"
  assumes "n < LENGTH('a)" and "Lb x0 x1 x2 x3 x4 x5 x6 x7 = (y0, y1, y2, y3, y4, y5, y6, y7)"
  shows "(mk_nibble (bit y0 n) (bit y1 n) (bit y2 n) (bit y3 n),
      mk_nibble (bit y4 n) (bit y5 n) (bit y6 n) (bit y7 n)) =
    jh_L_spec (mk_nibble (bit x0 n) (bit x1 n) (bit x2 n) (bit x3 n))
      (mk_nibble (bit x4 n) (bit x5 n) (bit x6 n) (bit x7 n))"
  using assms
  by (auto simp: Lb_def Let_def jh_L_spec_def jh_mul2_mk_nibble mk_nibble_XOR bit_xor_iff
      intro!: arg_cong4 [where f = mk_nibble])

section \<open>Registers as 128 positions\<close>

text \<open>
  Position \<open>p\<close> of a register is bit \<open>p\<close> of its bytes, each byte read from its most significant
  bit on: the words hold their bytes in little-endian order.
\<close>

definition byte_flip :: "nat \<Rightarrow> nat" where
  "byte_flip n = n XOR 7"

definition rbit :: "'a::len word list \<Rightarrow> nat \<Rightarrow> bool" where
  "rbit x p = bit (x ! (p div LENGTH('a))) (byte_flip (p mod LENGTH('a)))"

definition nib :: "'a::len regs \<Rightarrow> nat \<Rightarrow> nat \<Rightarrow> nibble" where
  "nib h e p = mk_nibble (rbit (h ! e) p) (rbit (h ! (e + 2)) p) (rbit (h ! (e + 4)) p) (rbit (h ! (e + 6)) p)"

definition regs_wf :: "nat \<Rightarrow> 'a::len regs \<Rightarrow> bool" where
  "regs_wf k h \<longleftrightarrow> length h = 8 \<and> (\<forall>x \<in> set h. length x = k)"

lemma list8E:
  assumes "length h = 8"
  obtains a b c d e f g i where "h = [a, b, c, d, e, f, g, i]"
  using assms by (auto simp: numeral_eq_Suc length_Suc_conv)

lemma regs_wf8: "regs_wf k h \<Longrightarrow> length h = 8"
  by (simp add: regs_wf_def)

lemma regs_wf_lengths:
  "regs_wf k [h0, h1, h2, h3, h4, h5, h6, h7] \<longleftrightarrow>
     length h0 = k \<and> length h1 = k \<and> length h2 = k \<and> length h3 = k \<and>
     length h4 = k \<and> length h5 = k \<and> length h6 = k \<and> length h7 = k"
  by (simp add: regs_wf_def)

lemma byte_flip_less:
  assumes "8 dvd w" "n < w"
  shows "byte_flip n < w"
proof -
  have "drop_bit 3 (n XOR 7) = drop_bit 3 n" by (simp add: drop_bit_xor)
  then have "byte_flip n div 8 = n div 8" by (simp add: byte_flip_def drop_bit_eq_div)
  moreover obtain k where "w = 8 * k" "n div 8 < k" using assms by (auto elim!: dvdE)
  ultimately have "byte_flip n div 8 < k" by simp
  then show ?thesis using \<open>w = 8 * k\<close> by linarith
qed

lemma rbit_map2:
  fixes x :: "'a::len word list"
  assumes "length x = k" "length y = k" "k * LENGTH('a) = 128" "8 dvd LENGTH('a)" "p < 128"
  shows "rbit (map2 (XOR) x y) p \<longleftrightarrow> rbit x p \<noteq> rbit y p"
proof -
  have "p div LENGTH('a) < k" using assms by (simp add: div_less_iff_less_mult)
  then show ?thesis
    using assms by (simp add: rbit_def bit_xor_iff)
qed

lemma JH_S_even_eq:
  "JH_S [0, 2, 4, 6] c [h0, h1, h2, h3, h4, h5, h6, h7] =
    (let ys = map (\<lambda>j. Sb (h0 ! j) (h2 ! j) (h4 ! j) (h6 ! j) (c ! j)) [0..<length c]
     in [map (\<lambda>(x0, x1, x2, x3). x0) ys, h1, map (\<lambda>(x0, x1, x2, x3). x1) ys,
         h3, map (\<lambda>(x0, x1, x2, x3). x2) ys, h5,
         map (\<lambda>(x0, x1, x2, x3). x3) ys, h7])"
  unfolding JH_S_def Let_def by simp

lemma JH_S_odd_eq:
  "JH_S [1, 3, 5, 7] c [h0, h1, h2, h3, h4, h5, h6, h7] =
    (let ys = map (\<lambda>j. Sb (h1 ! j) (h3 ! j) (h5 ! j) (h7 ! j) (c ! j)) [0..<length c]
     in [h0, map (\<lambda>(x0, x1, x2, x3). x0) ys, h2,
         map (\<lambda>(x0, x1, x2, x3). x1) ys, h4, map (\<lambda>(x0, x1, x2, x3). x2) ys,
         h6, map (\<lambda>(x0, x1, x2, x3). x3) ys])"
  unfolding JH_S_def Let_def by simp

lemma JH_S_even:
  fixes h :: "'a::len regs"
  assumes h: "regs_wf k h" and c: "length c = k" and k: "k * LENGTH('a) = 128" "8 dvd LENGTH('a)" and p: "p < 128"
  shows "regs_wf k (JH_S [0, 2, 4, 6] c h)"
    and "nib (JH_S [0, 2, 4, 6] c h) 0 p = jh_sbox (rbit c p) (nib h 0 p)"
    and "nib (JH_S [0, 2, 4, 6] c h) 1 p = nib h 1 p"
proof -
  obtain h0 h1 h2 h3 h4 h5 h6 h7 where e: "h = [h0, h1, h2, h3, h4, h5, h6, h7]"
    using regs_wf8 [OF h] by (rule list8E)
  note l = h [unfolded e regs_wf_lengths]
  define j where "j = p div LENGTH('a)"
  define n where "n = byte_flip (p mod LENGTH('a))"
  have j: "j < k" using p k by (simp add: j_def div_less_iff_less_mult)
  have n: "n < LENGTH('a)" unfolding n_def using k by (intro byte_flip_less) simp_all
  have r: "rbit x p = bit (x ! j) n" for x :: "'a word list" by (simp add: rbit_def j_def n_def)
  obtain y0 y1 y2 y3 where y: "Sb (h0 ! j) (h2 ! j) (h4 ! j) (h6 ! j) (c ! j) = (y0, y1, y2, y3)"
    by (rule prod_cases4)
  show "regs_wf k (JH_S [0, 2, 4, 6] c h)"
    unfolding e JH_S_even_eq using l c by (simp add: regs_wf_def Let_def)
  show "nib (JH_S [0, 2, 4, 6] c h) 0 p = jh_sbox (rbit c p) (nib h 0 p)"
    unfolding e JH_S_even_eq using c j by (simp add: Let_def nib_def r y Sb_nibble [OF n y])
  show "nib (JH_S [0, 2, 4, 6] c h) 1 p = nib h 1 p"
    unfolding e JH_S_even_eq by (simp add: Let_def nib_def)
qed

lemma JH_S_odd:
  fixes h :: "'a::len regs"
  assumes h: "regs_wf k h" and c: "length c = k" and k: "k * LENGTH('a) = 128" "8 dvd LENGTH('a)" and p: "p < 128"
  shows "regs_wf k (JH_S [1, 3, 5, 7] c h)"
    and "nib (JH_S [1, 3, 5, 7] c h) 1 p = jh_sbox (rbit c p) (nib h 1 p)"
    and "nib (JH_S [1, 3, 5, 7] c h) 0 p = nib h 0 p"
proof -
  obtain h0 h1 h2 h3 h4 h5 h6 h7 where e: "h = [h0, h1, h2, h3, h4, h5, h6, h7]"
    using regs_wf8 [OF h] by (rule list8E)
  note l = h [unfolded e regs_wf_lengths]
  define j where "j = p div LENGTH('a)"
  define n where "n = byte_flip (p mod LENGTH('a))"
  have j: "j < k" using p k by (simp add: j_def div_less_iff_less_mult)
  have n: "n < LENGTH('a)" unfolding n_def using k by (intro byte_flip_less) simp_all
  have r: "rbit x p = bit (x ! j) n" for x :: "'a word list" by (simp add: rbit_def j_def n_def)
  obtain y0 y1 y2 y3 where y: "Sb (h1 ! j) (h3 ! j) (h5 ! j) (h7 ! j) (c ! j) = (y0, y1, y2, y3)"
    by (rule prod_cases4)
  show "regs_wf k (JH_S [1, 3, 5, 7] c h)"
    unfolding e JH_S_odd_eq using l c by (simp add: regs_wf_def Let_def)
  show "nib (JH_S [1, 3, 5, 7] c h) 1 p = jh_sbox (rbit c p) (nib h 1 p)"
    unfolding e JH_S_odd_eq using c j by (simp add: Let_def nib_def r y Sb_nibble [OF n y])
  show "nib (JH_S [1, 3, 5, 7] c h) 0 p = nib h 0 p"
    unfolding e JH_S_odd_eq by (simp add: Let_def nib_def)
qed

lemma JH_L_nib:
  fixes h :: "'a::len regs"
  assumes h: "regs_wf k h" and k: "k * LENGTH('a) = 128" "8 dvd LENGTH('a)" and p: "p < 128"
  shows "regs_wf k (JH_L k h)"
    and "(nib (JH_L k h) 0 p, nib (JH_L k h) 1 p) = jh_L_spec (nib h 0 p) (nib h 1 p)"
proof -
  obtain h0 h1 h2 h3 h4 h5 h6 h7 where e: "h = [h0, h1, h2, h3, h4, h5, h6, h7]"
    using regs_wf8 [OF h] by (rule list8E)
  note l = h [unfolded e regs_wf_lengths]
  define j where "j = p div LENGTH('a)"
  define n where "n = byte_flip (p mod LENGTH('a))"
  have j: "j < k" using p k by (simp add: j_def div_less_iff_less_mult)
  have n: "n < LENGTH('a)" unfolding n_def using k by (intro byte_flip_less) simp_all
  have r: "rbit x p = bit (x ! j) n" for x :: "'a word list" by (simp add: rbit_def j_def n_def)
  obtain y0 y1 y2 y3 y4 y5 y6 y7 where y: "Lb (h0 ! j) (h2 ! j) (h4 ! j) (h6 ! j)
      (h1 ! j) (h3 ! j) (h5 ! j) (h7 ! j) = (y0, y1, y2, y3, y4, y5, y6, y7)"
    by (cases "Lb (h0 ! j) (h2 ! j) (h4 ! j) (h6 ! j) (h1 ! j) (h3 ! j) (h5 ! j) (h7 ! j)") auto
  show "regs_wf k (JH_L k h)"
    by (simp add: regs_wf_def JH_L_def Let_def)
  show "(nib (JH_L k h) 0 p, nib (JH_L k h) 1 p) = jh_L_spec (nib h 0 p) (nib h 1 p)"
    using Lb_nibble [OF n y] j by (simp add: e JH_L_def Let_def nib_def r y)
qed

end
