(* ===== verification/Jh_Round.thy ===== *)
theory Jh_Round
  imports Jh_Bits
begin

text \<open>
  The swaps \<open>W0\<close> to \<open>W6\<close> against the permutation \<open>P\<^sub>8\<close>. After \<open>r\<close> rounds, position \<open>p\<close> of the
  even registers holds element \<open>2 * sigma g p\<close> of the specification and position \<open>p\<close> of the odd
  registers the element after it, where \<open>g = r mod 7\<close> and \<open>sigma g\<close> rotates the 7-bit number
  \<open>p\<close> by \<open>g\<close>.
\<close>

definition flip :: "nat \<Rightarrow> nat \<Rightarrow> nat" where
  "flip g p = p XOR 2 ^ g"

definition sigma :: "nat \<Rightarrow> nat \<Rightarrow> nat" where
  "sigma g p = p div 2 ^ g + 2 ^ (7 - g) * (p mod 2 ^ g)"

section \<open>The swaps inside a word\<close>

lemma bit_Wz:
  fixes x :: "'a::len word"
  assumes "j < LENGTH('a)"
  shows "bit (Wz c n x) j \<longleftrightarrow> bit c j \<and> bit x (n + j) \<or> n \<le> j \<and> bit c (j - n) \<and> bit x (j - n)"
  using assms by (auto simp: Wz_def Let_def bit_simps)

lemma Wz_flip64:
  fixes x :: u64
  assumes "j < 64"
  shows "bit (Wz 0x5555555555555555 1 x) j = bit x (flip 0 j)"
    "bit (Wz 0x3333333333333333 2 x) j = bit x (flip 1 j)"
    "bit (Wz 0x0F0F0F0F0F0F0F0F 4 x) j = bit x (flip 2 j)"
    "bit (Wz 0x00FF00FF00FF00FF 8 x) j = bit x (flip 3 j)"
    "bit (Wz 0x0000FFFF0000FFFF 16 x) j = bit x (flip 4 j)"
    "bit (Wz 0x00000000FFFFFFFF 32 x) j = bit x (flip 5 j)"
proof -
  have "list_all (\<lambda>j. bit (Wz 0x5555555555555555 1 x) j = bit x (flip 0 j)) [0..<64]"
    and "list_all (\<lambda>j. bit (Wz 0x3333333333333333 2 x) j = bit x (flip 1 j)) [0..<64]"
    and "list_all (\<lambda>j. bit (Wz 0x0F0F0F0F0F0F0F0F 4 x) j = bit x (flip 2 j)) [0..<64]"
    and "list_all (\<lambda>j. bit (Wz 0x00FF00FF00FF00FF 8 x) j = bit x (flip 3 j)) [0..<64]"
    and "list_all (\<lambda>j. bit (Wz 0x0000FFFF0000FFFF 16 x) j = bit x (flip 4 j)) [0..<64]"
    and "list_all (\<lambda>j. bit (Wz 0x00000000FFFFFFFF 32 x) j = bit x (flip 5 j)) [0..<64]"
    by (simp_all add: upt_64 bit_Wz flip_def numeral_2_eq_2 [symmetric])
  with assms show "bit (Wz 0x5555555555555555 1 x) j = bit x (flip 0 j)"
    "bit (Wz 0x3333333333333333 2 x) j = bit x (flip 1 j)"
    "bit (Wz 0x0F0F0F0F0F0F0F0F 4 x) j = bit x (flip 2 j)"
    "bit (Wz 0x00FF00FF00FF00FF 8 x) j = bit x (flip 3 j)"
    "bit (Wz 0x0000FFFF0000FFFF 16 x) j = bit x (flip 4 j)"
    "bit (Wz 0x00000000FFFFFFFF 32 x) j = bit x (flip 5 j)"
    by (simp_all add: list_all_iff)
qed

lemma Wz_flip32:
  fixes x :: u32
  assumes "j < 32"
  shows "bit (Wz 0x55555555 1 x) j = bit x (flip 0 j)"
    "bit (Wz 0x33333333 2 x) j = bit x (flip 1 j)"
    "bit (Wz 0x0F0F0F0F 4 x) j = bit x (flip 2 j)"
    "bit (Wz 0x00FF00FF 8 x) j = bit x (flip 3 j)"
    "bit (Wz 0x0000FFFF 16 x) j = bit x (flip 4 j)"
proof -
  have "list_all (\<lambda>j. bit (Wz 0x55555555 1 x) j = bit x (flip 0 j)) [0..<32]"
    and "list_all (\<lambda>j. bit (Wz 0x33333333 2 x) j = bit x (flip 1 j)) [0..<32]"
    and "list_all (\<lambda>j. bit (Wz 0x0F0F0F0F 4 x) j = bit x (flip 2 j)) [0..<32]"
    and "list_all (\<lambda>j. bit (Wz 0x00FF00FF 8 x) j = bit x (flip 3 j)) [0..<32]"
    and "list_all (\<lambda>j. bit (Wz 0x0000FFFF 16 x) j = bit x (flip 4 j)) [0..<32]"
    by (simp_all add: upt_32 bit_Wz flip_def numeral_2_eq_2 [symmetric])
  with assms show "bit (Wz 0x55555555 1 x) j = bit x (flip 0 j)"
    "bit (Wz 0x33333333 2 x) j = bit x (flip 1 j)"
    "bit (Wz 0x0F0F0F0F 4 x) j = bit x (flip 2 j)"
    "bit (Wz 0x00FF00FF 8 x) j = bit x (flip 3 j)"
    "bit (Wz 0x0000FFFF 16 x) j = bit x (flip 4 j)"
    by (simp_all add: list_all_iff)
qed

text \<open>Flipping a bit of the position and the order of the bits in a byte do not interfere.\<close>

definition flip_ok :: "nat \<Rightarrow> nat \<Rightarrow> nat \<Rightarrow> bool" where
  "flip_ok w g p \<longleftrightarrow> flip g p < 128 \<and>
     (if 2 ^ g < w
      then flip g p div w = p div w \<and> flip g (byte_flip (p mod w)) = byte_flip (flip g p mod w)
      else flip g p mod w = p mod w)"

lemma bit_flip: "bit (flip g p) j \<longleftrightarrow> bit p j \<noteq> (j = g)"
  by (auto simp: flip_def bit_xor_iff bit_exp_iff)

lemma bit_byte_flip: "bit (byte_flip n) j \<longleftrightarrow> bit n j \<noteq> (j < 3)"
proof -
  have "(7 :: nat) = mask 3" by (simp add: mask_eq_exp_minus_1)
  then show ?thesis by (simp only: byte_flip_def bit_xor_iff bit_mask_iff) simp
qed

lemma flip_ok_pow:
  assumes "g < 7" "p < 128" "3 \<le> m"
  shows "flip_ok (2 ^ m) g p"
proof -
  have "take_bit 7 p = p" using assms(2) by (simp add: take_bit_nat_eq_self_iff)
  then have "bit p j \<Longrightarrow> j < 7" for j by (metis bit_take_bit_iff)
  then have "take_bit 7 (flip g p) = flip g p"
    using assms(1) by (auto intro!: bit_eqI simp: bit_take_bit_iff bit_flip)
  then have "flip g p < 128" by (simp add: take_bit_nat_eq_self_iff)
  moreover have "drop_bit m (flip g p) = drop_bit m p" if "g < m"
    using that by (auto intro!: bit_eqI simp: bit_drop_bit_eq bit_flip)
  moreover have "flip g (byte_flip (take_bit m p)) = byte_flip (take_bit m (flip g p))" if "g < m"
    using that by (auto intro!: bit_eqI simp: bit_take_bit_iff bit_flip bit_byte_flip)
  moreover have "take_bit m (flip g p) = take_bit m p" if "\<not> g < m"
    using that by (auto intro!: bit_eqI simp: bit_take_bit_iff bit_flip)
  ultimately show ?thesis by (simp add: flip_ok_def drop_bit_eq_div take_bit_eq_mod)
qed

lemma flip_ok: "g < 7 \<Longrightarrow> p < 128 \<Longrightarrow> flip_ok 64 g p" "g < 7 \<Longrightarrow> p < 128 \<Longrightarrow> flip_ok 32 g p"
  using flip_ok_pow [of g p 6] flip_ok_pow [of g p 5] by simp_all

lemma flip_div: "m \<le> g \<Longrightarrow> flip g p div 2 ^ m = flip (g - m) (p div 2 ^ m)"
  by (simp flip: drop_bit_eq_div) (auto intro!: bit_eqI simp: bit_drop_bit_eq bit_flip)

lemma less_7_cases:
  assumes "g < (7 :: nat)"
  obtains "g = 0" | "g = 1" | "g = 2" | "g = 3" | "g = 4" | "g = 5" | "g = 6"
  using assms by linarith

lemma less_2_cases: "n < (2 :: nat) \<Longrightarrow> n = 0 \<or> n = 1"
  by linarith

lemma length_W [simp]: "length (W_wide g x) = length x" "length (W_narrow g y) = length y"
  by (simp_all add: W_wide_def W_narrow_def Let_def)

lemma rbit_map_Wz:
  fixes x :: "'a::len word list"
  assumes wz: "\<And>w j. j < LENGTH('a) \<Longrightarrow> bit (Wz c n w) j = bit w (flip g j)"
    and len: "length x * LENGTH('a) = 128" "8 dvd LENGTH('a)" and g: "2 ^ g < LENGTH('a)"
    and ok: "flip_ok LENGTH('a) g p" and p: "p < 128"
  shows "rbit (map (Wz c n) x) p = rbit x (flip g p)"
proof -
  have "p div LENGTH('a) < length x" using p len by (simp add: div_less_iff_less_mult)
  moreover have "byte_flip (p mod LENGTH('a)) < LENGTH('a)" using len by (intro byte_flip_less) simp_all
  ultimately show ?thesis
    using ok g by (simp add: rbit_def wz flip_ok_def)
qed

lemma rbit_W_wide:
  assumes "length x = 2" "g < 7" "p < 128"
  shows "rbit (W_wide g x) p = rbit x (flip g p)"
  using assms(2)
proof (cases rule: less_7_cases)
  case 7
  obtain a b where x: "x = [a, b]" using assms(1) by (auto simp: numeral_2_eq_2 length_Suc_conv)
  have "p div 64 < 2" using assms(3) by simp
  then have "p div 64 = 0 \<or> p div 64 = 1" by linarith
  moreover have "flip 6 p div 64 = flip 0 (p div 64)" using flip_div [of 6 6 p] by simp
  moreover have "flip 6 p mod 64 = p mod 64" using flip_ok(1) [of 6 p] assms(3) by (simp add: flip_ok_def)
  ultimately show ?thesis
    by (auto simp: 7 x rbit_def W_wide_def Let_def flip_def)
qed (insert assms flip_ok(1) [OF assms(2,3)], simp_all add: W_wide_def,
      (rule rbit_map_Wz; simp add: Wz_flip64 [simplified])+)

lemma rbit_W_narrow:
  assumes "length x = 4" "g < 7" "p < 128"
  shows "rbit (W_narrow g x) p = rbit x (flip g p)"
  using assms(2)
proof (cases rule: less_7_cases)
  case 6
  obtain a b c d where x: "x = [a, b, c, d]" using assms(1) by (auto simp: numeral_eq_Suc length_Suc_conv)
  have "p div 32 < 4" using assms(3) by simp
  then have "p div 32 = 0 \<or> p div 32 = 1 \<or> p div 32 = 2 \<or> p div 32 = 3" by linarith
  moreover have "flip 5 p div 32 = flip 0 (p div 32)" using flip_div [of 5 5 p] by simp
  moreover have "flip 5 p mod 32 = p mod 32" using flip_ok(2) [of 5 p] assms(3) by (simp add: flip_ok_def)
  ultimately show ?thesis
    by (auto simp: 6 x rbit_def W_narrow_def Let_def flip_def)
next
  case 7
  obtain a b c d where x: "x = [a, b, c, d]" using assms(1) by (auto simp: numeral_eq_Suc length_Suc_conv)
  have "p div 32 < 4" using assms(3) by simp
  then have "p div 32 = 0 \<or> p div 32 = 1 \<or> p div 32 = 2 \<or> p div 32 = 3" by linarith
  moreover have "flip 6 p div 32 = flip 1 (p div 32)" using flip_div [of 5 6 p] by simp
  moreover have "flip 6 p mod 32 = p mod 32" using flip_ok(2) [of 6 p] assms(3) by (simp add: flip_ok_def)
  ultimately show ?thesis
    by (auto simp: 7 x rbit_def W_narrow_def Let_def flip_def)
qed (insert assms flip_ok(2) [OF assms(2,3)], simp_all add: W_narrow_def,
      (rule rbit_map_Wz; simp add: Wz_flip32 [simplified])+)

end
