(* ===== verification/Jh_Perm.thy ===== *)
theory Jh_Perm
  imports Jh_Round
begin

text \<open>
  The permutation \<open>P\<^sub>8\<close> of the specification, element by element, and the round of the
  bit-sliced code as the round of the specification under the position map \<open>sigma\<close>.
\<close>

section \<open>The permutation of the elements\<close>

lemma length_jh_pi: "length A = 4 * m \<Longrightarrow> length (jh_pi A) = 4 * m"
  unfolding jh_pi_def by (subst length_concat_map [where c = 4]) simp_all

lemma nth_jh_pi:
  assumes A: "length A = 4 * m" "q < m"
  shows "k = 4 * q \<Longrightarrow> jh_pi A ! k = A ! (4 * q)"
    and "k = 4 * q + 1 \<Longrightarrow> jh_pi A ! k = A ! (4 * q + 1)"
    and "k = 4 * q + 2 \<Longrightarrow> jh_pi A ! k = A ! (4 * q + 3)"
    and "k = 4 * q + 3 \<Longrightarrow> jh_pi A ! k = A ! (4 * q + 2)"
proof -
  have pi: "jh_pi A ! k = [A ! (4 * (k div 4)), A ! (4 * (k div 4) + 1), A ! (4 * (k div 4) + 3),
      A ! (4 * (k div 4) + 2)] ! (k mod 4)" if "k < 4 * m"
    unfolding jh_pi_def using A that by (subst nth_concat_map [where c = 4]) simp_all
  show "jh_pi A ! k = A ! (4 * q)" if "k = 4 * q"
    using pi that A by simp
  show "jh_pi A ! k = A ! (4 * q + 1)" if "k = 4 * q + 1"
  proof -
    have "k div 4 = q" "k mod 4 = 1" "k < 4 * m" using that A by presburger+
    then show ?thesis using pi by simp
  qed
  show "jh_pi A ! k = A ! (4 * q + 3)" if "k = 4 * q + 2"
  proof -
    have "k div 4 = q" "k mod 4 = 2" "k < 4 * m" using that A by presburger+
    then show ?thesis using pi by simp
  qed
  show "jh_pi A ! k = A ! (4 * q + 2)" if "k = 4 * q + 3"
  proof -
    have "k div 4 = q" "k mod 4 = 3" "k < 4 * m" using that A by presburger+
    then show ?thesis using pi by simp
  qed
qed

lemma length_jh_P': "length A = 2 * m \<Longrightarrow> length (jh_P' A) = 2 * m"
  by (simp add: jh_P'_def)

lemma nth_jh_P':
  "length A = 2 * m \<Longrightarrow> k < 2 * m \<Longrightarrow> jh_P' A ! k = A ! (if k < m then 2 * k else 2 * (k - m) + 1)"
  using nth_upt [of 0 "k - m" m] by (auto simp: jh_P'_def nth_append)

lemma jh_phi_alt:
  assumes "length A = 8 * m"
  shows "jh_phi A = take (4 * m) A @ concat (map (\<lambda>i. [A ! (2 * (i + 2 * m) + 1), A ! (2 * (i + 2 * m))]) [0..<2 * m])"
proof -
  have "[2 * m..<4 * m] = map (\<lambda>i. i + 2 * m) [0..<2 * m]"
    by (simp add: map_add_upt)
  then show ?thesis using assms by (simp add: jh_phi_def comp_def)
qed

lemma length_jh_phi: "length A = 8 * m \<Longrightarrow> length (jh_phi A) = 8 * m"
  unfolding jh_phi_alt by (simp, subst length_concat_map [where c = 2]) simp_all

lemma nth_jh_phi:
  assumes "length A = 8 * m" "k < 8 * m"
  shows "jh_phi A ! k = A ! (if k < 4 * m then k else if even k then k + 1 else k - 1)"
proof (cases "k < 4 * m")
  case True
  with assms show ?thesis by (simp add: jh_phi_alt nth_append)
next
  case False
  define j where "j = k - 4 * m"
  have j: "k = 4 * m + j" "j < 2 * m * 2" using False assms by (simp_all add: j_def)
  have "jh_phi A ! k = [A ! (2 * (j div 2 + 2 * m) + 1), A ! (2 * (j div 2 + 2 * m))] ! (j mod 2)"
    using j assms by (simp add: jh_phi_alt nth_append, subst nth_concat_map [where c = 2]) simp_all
  then show ?thesis
    using False j by (cases "even j") (auto elim!: evenE oddE simp: add.commute)
qed

text \<open>
  The new position of the pair of elements \<open>2t\<close> and \<open>2t + 1\<close> of 256: the first goes to
  \<open>2 s\<close>, where \<open>s\<close> is \<open>t\<close> rotated by one bit, and the second to the partner of \<open>t\<close>.
\<close>

lemma length_jh_P: "length A = 256 \<Longrightarrow> length (jh_P A) = 256"
  unfolding jh_P_def
  using length_jh_pi [of A 64] length_jh_P' [of "jh_pi A" 128] length_jh_phi [of "jh_P' (jh_pi A)" 32] by simp

lemma nth_jh_P:
  assumes A: "length A = 256"
  shows "k < 128 \<Longrightarrow> jh_P A ! k = jh_pi A ! (2 * k)"
    and "k = 128 + 2 * i \<Longrightarrow> i < 64 \<Longrightarrow> jh_P A ! k = jh_pi A ! (4 * i + 3)"
    and "k = 129 + 2 * i \<Longrightarrow> i < 64 \<Longrightarrow> jh_P A ! k = jh_pi A ! (4 * i + 1)"
proof -
  have pi: "length (jh_pi A) = 2 * 128" using length_jh_pi [of A 64] A by simp
  then have P': "length (jh_P' (jh_pi A)) = 8 * 32" using length_jh_P' [of "jh_pi A" 128] by simp
  show "jh_P A ! k = jh_pi A ! (2 * k)" if "k < 128"
    using that nth_jh_phi [OF P', of k] nth_jh_P' [OF pi, of k] by (simp add: jh_P_def)
  show "jh_P A ! k = jh_pi A ! (4 * i + 3)" if "k = 128 + 2 * i" "i < 64"
  proof -
    have "jh_P A ! k = jh_P' (jh_pi A) ! (129 + 2 * i)"
      using that nth_jh_phi [OF P', of k] by (simp add: jh_P_def)
    also have "\<dots> = jh_pi A ! (2 * (129 + 2 * i - 128) + 1)"
      using that nth_jh_P' [OF pi, of "129 + 2 * i"] by simp
    also have "2 * (129 + 2 * i - 128) + 1 = 4 * i + 3" by simp
    finally show ?thesis .
  qed
  show "jh_P A ! k = jh_pi A ! (4 * i + 1)" if "k = 129 + 2 * i" "i < 64"
  proof -
    have "jh_P A ! k = jh_P' (jh_pi A) ! (128 + 2 * i)"
      using that nth_jh_phi [OF P', of k] by (simp add: jh_P_def)
    also have "\<dots> = jh_pi A ! (2 * (128 + 2 * i - 128) + 1)"
      using that nth_jh_P' [OF pi, of "128 + 2 * i"] by simp
    also have "2 * (128 + 2 * i - 128) + 1 = 4 * i + 1" by simp
    finally show ?thesis .
  qed
qed

definition sigma_next :: "nat \<Rightarrow> nat" where
  "sigma_next t = t div 2 + 64 * (t mod 2)"

lemma flip_0_double: "flip 0 (2 * q) = 2 * q + 1" "flip 0 (2 * q + 1) = 2 * q"
  by (simp_all add: flip_def xor_Suc_0_eq)

lemma nth_jh_P_pair:
  assumes A: "length A = 256" and t: "t < 128"
  shows "jh_P A ! (2 * sigma_next t) = A ! (2 * t)"
    and "jh_P A ! (2 * sigma_next t + 1) = A ! (2 * flip 0 t + 1)"
proof -
  define q where "q = t div 2"
  have q: "q < 64" using t by (simp add: q_def)
  have A4: "length A = 4 * 64" using A by simp
  have "jh_P A ! (2 * sigma_next t) = A ! (2 * t) \<and> jh_P A ! (2 * sigma_next t + 1) = A ! (2 * flip 0 t + 1)"
  proof (cases "even t")
    case True
    then have e: "t = 2 * q" by (simp add: q_def)
    have "jh_P A ! (2 * sigma_next t) = jh_pi A ! (2 * (2 * q))"
      using nth_jh_P(1) [OF A, of "2 * q"] q by (simp add: e sigma_next_def)
    moreover have "jh_P A ! (2 * sigma_next t + 1) = jh_pi A ! (2 * (2 * q + 1))"
      using nth_jh_P(1) [OF A, of "2 * q + 1"] q by (simp add: e sigma_next_def)
    moreover have "2 * (2 * q) = 4 * q" "2 * (2 * q + 1) = 4 * q + 2" "2 * t = 4 * q" "2 * (2 * q + 1) + 1 = 4 * q + 3"
      using e by simp_all
    ultimately show ?thesis
      using nth_jh_pi(1,3) [OF A4 q refl] by (simp only: e flip_0_double)
  next
    case False
    then have e: "t = 2 * q + 1" by (simp add: q_def)
    have "jh_P A ! (2 * sigma_next t) = jh_pi A ! (4 * q + 3)"
      using nth_jh_P(2) [OF A, of "2 * sigma_next t" q] q by (simp add: e sigma_next_def)
    moreover have "jh_P A ! (2 * sigma_next t + 1) = jh_pi A ! (4 * q + 1)"
      using nth_jh_P(3) [OF A, of "2 * sigma_next t + 1" q] q by (simp add: e sigma_next_def)
    moreover have "2 * (2 * q + 1) = 4 * q + 2" "2 * (2 * q) + 1 = 4 * q + 1"
      by simp_all
    ultimately show ?thesis
      using nth_jh_pi(2,4) [OF A4 q refl] by (simp only: e flip_0_double)
  qed
  then show "jh_P A ! (2 * sigma_next t) = A ! (2 * t)"
    and "jh_P A ! (2 * sigma_next t + 1) = A ! (2 * flip 0 t + 1)" by simp_all
qed

section \<open>The position map\<close>

lemma less_128_bit:
  fixes p :: nat
  assumes "p < 128" "bit p m"
  shows "m < 7"
proof -
  have "bit (take_bit 7 p) m" using assms by (simp add: take_bit_nat_eq_self_iff [THEN iffD2])
  then show "m < 7" by (simp add: bit_take_bit_iff)
qed

lemma bit_sigma:
  assumes "g < 7" "p < 128"
  shows "bit (sigma g p) j \<longleftrightarrow> bit p (j + g) \<or> 7 - g \<le> j \<and> j < 7 \<and> bit p (j + g - 7)"
proof -
  have "sigma g p = drop_bit g p + push_bit (7 - g) (take_bit g p)"
    by (simp add: sigma_def drop_bit_eq_div take_bit_eq_mod push_bit_eq_mult)
  also have "\<dots> = drop_bit g p OR push_bit (7 - g) (take_bit g p)"
    using assms by (intro disjunctive_add_eq_or bit_eqI) (auto simp: bit_simps dest!: less_128_bit)
  finally show ?thesis
    using assms by (auto simp: bit_simps add.commute)
qed

lemma sigma_less:
  assumes "g < 7" "p < 128"
  shows "sigma g p < 128"
proof -
  have "take_bit 7 (sigma g p) = sigma g p"
    using assms by (intro bit_eqI) (auto simp: bit_take_bit_iff bit_sigma dest: less_128_bit)
  then show ?thesis by (simp add: take_bit_nat_eq_self_iff)
qed

lemma flip_less: "g < 7 \<Longrightarrow> p < 128 \<Longrightarrow> flip g p < 128"
  using flip_ok(1) [of g p] by (simp add: flip_ok_def)

lemma sigma_next_1: "sigma_next t = sigma 1 t"
  by (simp add: sigma_next_def sigma_def)

lemma sigma_Suc:
  assumes "g < 7" "p < 128"
  shows "sigma ((g + 1) mod 7) p = sigma_next (sigma g p)"
proof (cases "g = 6")
  case True
  have "bit p j = bit (sigma 1 (sigma 6 p)) j" for j
  proof -
    have "j < 6 \<or> j = 6 \<or> 7 \<le> j" by linarith
    then show ?thesis
      using True assms sigma_less [OF assms] less_128_bit [OF assms(2), of j]
        less_128_bit [OF assms(2), of "7 + j"]
      by (auto simp: bit_sigma)
  qed
  then have "p = sigma 1 (sigma 6 p)" by (rule bit_eqI)
  then show ?thesis using True by (simp add: sigma_next_1 sigma_def [of 0])
next
  case False
  then have g: "(g + 1) mod 7 = g + 1" "g + 1 < 7" using assms(1) by simp_all
  have "bit (sigma (g + 1) p) j = bit (sigma 1 (sigma g p)) j" for j
  proof -
    have "j < 6 \<or> j = 6 \<or> 7 \<le> j" by linarith
    then show ?thesis
      using g assms sigma_less [OF assms] less_128_bit [OF assms(2), of "j + g"]
        less_128_bit [OF assms(2), of "j + Suc g"]
      by (auto simp: bit_sigma)
  qed
  then show ?thesis unfolding g sigma_next_1 by (rule bit_eqI)
qed

lemma sigma_flip:
  assumes "g < 7" "p < 128"
  shows "sigma g (flip g p) = flip 0 (sigma g p)"
  using assms flip_less [OF assms]
  by (intro bit_eqI) (auto simp: bit_sigma bit_flip dest: less_128_bit)

lemma sigma_0: "sigma 0 p = p"
  by (simp add: sigma_def)

section \<open>One round\<close>

lemma length_jh_SL_spec: "length A = 256 \<Longrightarrow> length (jh_SL_spec C A) = 256"
  unfolding jh_SL_spec_def by (subst length_concat_map [where c = 2]) (auto split: prod.splits)

lemma nth_jh_SL_spec:
  assumes "length A = 256" "t < 128"
  shows "(jh_SL_spec C A ! (2 * t), jh_SL_spec C A ! (2 * t + 1)) =
    jh_L_spec (jh_sbox (C ! (2 * t)) (A ! (2 * t))) (jh_sbox (C ! (2 * t + 1)) (A ! (2 * t + 1)))"
proof -
  let ?f = "\<lambda>i. case jh_L_spec (jh_sbox (C ! (2 * i)) (A ! (2 * i))) (jh_sbox (C ! (2 * i + 1)) (A ! (2 * i + 1)))
     of (c, d) \<Rightarrow> [c, d]"
  have "length (?f i) = 2" for i by (simp split: prod.splits)
  then have "jh_SL_spec C A ! k = ?f (k div 2) ! (k mod 2)" if "k < 256" for k
    unfolding jh_SL_spec_def using assms(1) that by (subst nth_concat_map [where c = 2]) simp_all
  then show ?thesis
    using assms(2) by (simp split: prod.splits)
qed

text \<open>The relation between the registers after a number of rounds and the elements.\<close>

definition jh_rel :: "nat \<Rightarrow> 'a::len regs \<Rightarrow> nibble list \<Rightarrow> bool" where
  "jh_rel g h A \<longleftrightarrow> length A = 256 \<and>
     (\<forall>p < 128. A ! (2 * sigma g p) = nib h 0 p \<and> A ! (2 * sigma g p + 1) = nib h 1 p)"

locale jh_slices =
  fixes ops :: "('a::len word, 'n) jh_ops"
  assumes slice_K: "JH_K ops * LENGTH('a) = 128" "8 dvd LENGTH('a)"
    and slice_C: "r < 42 \<Longrightarrow> p < 128 \<Longrightarrow>
      rbit (Ceven ops r) p = jh_const r ! (2 * sigma (r mod 7) p) \<and>
      rbit (Codd ops r) p = jh_const r ! (2 * sigma (r mod 7) p + 1)"
    and slice_W: "length x = JH_K ops \<Longrightarrow> length (JH_W ops g x) = JH_K ops"
      "length x = JH_K ops \<Longrightarrow> g < 7 \<Longrightarrow> p < 128 \<Longrightarrow> rbit (JH_W ops g x) p = rbit x (flip g p)"
    and slice_DEC: "length bs = 16 div JH_K ops \<Longrightarrow> n < LENGTH('a) \<Longrightarrow>
      bit (DECE ops bs) n = bit (bs ! (n div 8)) (n mod 8)"
    and slice_ENC: "ENCE ops w = map (\<lambda>i. ucast (drop_bit (8 * i) w)) [0..<LENGTH('a) div 8]"
begin

lemma swaps_nib:
  assumes h: "regs_wf (JH_K ops) h" and g: "g < 7" and p: "p < 128"
  defines "h' \<equiv> h[1 := JH_W ops g (h ! 1), 3 := JH_W ops g (h ! 3), 5 := JH_W ops g (h ! 5), 7 := JH_W ops g (h ! 7)]"
  shows "regs_wf (JH_K ops) h'" "nib h' 0 p = nib h 0 p" "nib h' 1 p = nib h 1 (flip g p)"
proof -
  obtain h0 h1 h2 h3 h4 h5 h6 h7 where e: "h = [h0, h1, h2, h3, h4, h5, h6, h7]"
    using regs_wf8 [OF h] by (rule list8E)
  note l = h [unfolded e regs_wf_lengths]
  have h': "h' = [h0, JH_W ops g h1, h2, JH_W ops g h3, h4, JH_W ops g h5, h6, JH_W ops g h7]"
    by (simp add: h'_def e)
  show "regs_wf (JH_K ops) h'" unfolding h' using l by (simp add: regs_wf_def slice_W(1))
  show "nib h' 0 p = nib h 0 p" by (simp add: h' e nib_def)
  show "nib h' 1 p = nib h 1 (flip g p)" using l g p by (simp add: h' e nib_def slice_W(2))
qed

lemma length_C [simp]: "length (Ceven ops r) = JH_K ops" "length (Codd ops r) = JH_K ops"
  by (simp_all add: Ceven_def Codd_def)

lemma SLu_nib:
  assumes h: "regs_wf (JH_K ops) h" and g: "g < 7"
  shows "regs_wf (JH_K ops) (SLu ops r g h)"
    and "p < 128 \<Longrightarrow> nib (SLu ops r g h) 0 p =
      fst (jh_L_spec (jh_sbox (rbit (Ceven ops r) p) (nib h 0 p)) (jh_sbox (rbit (Codd ops r) p) (nib h 1 p)))"
    and "p < 128 \<Longrightarrow> nib (SLu ops r g h) 1 p = (let p = flip g p in
      snd (jh_L_spec (jh_sbox (rbit (Ceven ops r) p) (nib h 0 p)) (jh_sbox (rbit (Codd ops r) p) (nib h 1 p))))"
proof -
  define h1 where "h1 = JH_S [0, 2, 4, 6] (Ceven ops r) h"
  define h2 where "h2 = JH_S [1, 3, 5, 7] (Codd ops r) h1"
  define h3 where "h3 = JH_L (JH_K ops) h2"
  have w: "regs_wf (JH_K ops) h1" "regs_wf (JH_K ops) h2" "regs_wf (JH_K ops) h3"
    using JH_S_even(1) [OF h _ slice_K, of "Ceven ops r" 0] JH_S_odd(1) [OF _ _ slice_K, of h1 "Codd ops r" 0]
      JH_L_nib(1) [OF _ slice_K, of h2 0]
    by (simp_all add: h1_def h2_def h3_def)
  have L: "(nib h3 0 p, nib h3 1 p) =
      jh_L_spec (jh_sbox (rbit (Ceven ops r) p) (nib h 0 p)) (jh_sbox (rbit (Codd ops r) p) (nib h 1 p))"
    if "p < 128" for p
    using JH_S_even(2,3) [OF h _ slice_K that, of "Ceven ops r"] JH_S_odd(2,3) [OF w(1) _ slice_K that, of "Codd ops r"]
      JH_L_nib(2) [OF w(2) slice_K that]
    by (simp add: h1_def h2_def h3_def)
  have S: "SLu ops r g h = h3[1 := JH_W ops g (h3 ! 1), 3 := JH_W ops g (h3 ! 3),
      5 := JH_W ops g (h3 ! 5), 7 := JH_W ops g (h3 ! 7)]"
    by (simp add: SLu_def Let_def h1_def h2_def h3_def)
  show "regs_wf (JH_K ops) (SLu ops r g h)"
    using swaps_nib(1) [OF w(3) g, of 0] by (simp add: S)
  show "nib (SLu ops r g h) 0 p =
      fst (jh_L_spec (jh_sbox (rbit (Ceven ops r) p) (nib h 0 p)) (jh_sbox (rbit (Codd ops r) p) (nib h 1 p)))"
    if "p < 128"
    using swaps_nib(2) [OF w(3) g that] L [OF that, symmetric] by (simp add: S)
  show "nib (SLu ops r g h) 1 p = (let p = flip g p in
      snd (jh_L_spec (jh_sbox (rbit (Ceven ops r) p) (nib h 0 p)) (jh_sbox (rbit (Codd ops r) p) (nib h 1 p))))"
    if "p < 128"
    using swaps_nib(3) [OF w(3) g that] L [OF flip_less [OF g that], symmetric] by (simp add: S Let_def)
qed

lemma round_rel:
  assumes h: "regs_wf (JH_K ops) h" and r: "r < 42" and rel: "jh_rel (r mod 7) h A"
  shows "jh_rel ((r + 1) mod 7) (SLu ops r (r mod 7) h) (jh_R (jh_const r) A)"
proof -
  let ?g = "r mod 7"
  have g: "?g < 7" by simp
  have A: "length A = 256" using rel by (simp add: jh_rel_def)
  let ?w = "jh_SL_spec (jh_const r) A"
  have w: "length ?w = 256" using A by (rule length_jh_SL_spec)
  have pair: "(?w ! (2 * sigma ?g p), ?w ! (2 * sigma ?g p + 1)) =
      jh_L_spec (jh_sbox (rbit (Ceven ops r) p) (nib h 0 p)) (jh_sbox (rbit (Codd ops r) p) (nib h 1 p))"
    if "p < 128" for p
    using nth_jh_SL_spec [OF A sigma_less [OF g that], of "jh_const r"] slice_C [OF r that] rel that
    by (simp add: jh_rel_def)
  have "jh_R (jh_const r) A ! (2 * sigma ((r + 1) mod 7) p) = nib (SLu ops r ?g h) 0 p \<and>
      jh_R (jh_const r) A ! (2 * sigma ((r + 1) mod 7) p + 1) = nib (SLu ops r ?g h) 1 p"
    if p: "p < 128" for p
  proof -
    have s: "sigma ((r + 1) mod 7) p = sigma_next (sigma ?g p)"
      using sigma_Suc [OF g p] by (simp add: mod_Suc_eq)
    have "jh_R (jh_const r) A ! (2 * sigma_next (sigma ?g p)) = ?w ! (2 * sigma ?g p)"
      "jh_R (jh_const r) A ! (2 * sigma_next (sigma ?g p) + 1) = ?w ! (2 * sigma ?g (flip ?g p) + 1)"
      using nth_jh_P_pair [OF w sigma_less [OF g p]] by (simp_all add: jh_R_def sigma_flip [OF g p])
    then show ?thesis
      unfolding s using SLu_nib(2,3) [OF h g p, of r] pair [OF p, symmetric] pair [OF flip_less [OF g p], symmetric]
      by (simp add: Let_def)
  qed
  then show ?thesis using length_jh_P [OF w] by (simp add: jh_rel_def jh_R_def)
qed

end

end
