(* ===== verification/Jh_Const.thy ===== *)
theory Jh_Const
  imports Jh_Perm
begin

text \<open>
  The tables of round constants of \<open>jh.c\<close> are the round constants of the specification,
  written in the bit order of each round. The constants are computed round by round in
  the simplifier and compared with the words of the table bit by bit.
\<close>

section \<open>The constant of the next round\<close>

definition jh_c0 :: "nibble \<Rightarrow> nibble \<Rightarrow> nibble" where
  "jh_c0 a b = fst (jh_L_spec (jh_sbox False a) (jh_sbox False b))"

definition jh_d0 :: "nibble \<Rightarrow> nibble \<Rightarrow> nibble" where
  "jh_d0 a b = snd (jh_L_spec (jh_sbox False a) (jh_sbox False b))"

lemma jh_cd0: "(case jh_L_spec (jh_sbox False a) (jh_sbox False b) of (c, d) \<Rightarrow> [c, d]) = [jh_c0 a b, jh_d0 a b]"
  by (simp add: jh_c0_def jh_d0_def split: prod.splits)

lemma jh_SL_spec_64:
  "jh_SL_spec (replicate 64 False)
    [a0, a1, a2, a3, a4, a5, a6, a7, a8, a9, a10, a11, a12, a13, a14, a15,
     a16, a17, a18, a19, a20, a21, a22, a23, a24, a25, a26, a27, a28, a29, a30, a31,
     a32, a33, a34, a35, a36, a37, a38, a39, a40, a41, a42, a43, a44, a45, a46, a47,
     a48, a49, a50, a51, a52, a53, a54, a55, a56, a57, a58, a59, a60, a61, a62, a63] =
   [jh_c0 a0 a1, jh_d0 a0 a1, jh_c0 a2 a3, jh_d0 a2 a3,
    jh_c0 a4 a5, jh_d0 a4 a5, jh_c0 a6 a7, jh_d0 a6 a7,
    jh_c0 a8 a9, jh_d0 a8 a9, jh_c0 a10 a11, jh_d0 a10 a11,
    jh_c0 a12 a13, jh_d0 a12 a13, jh_c0 a14 a15, jh_d0 a14 a15,
    jh_c0 a16 a17, jh_d0 a16 a17, jh_c0 a18 a19, jh_d0 a18 a19,
    jh_c0 a20 a21, jh_d0 a20 a21, jh_c0 a22 a23, jh_d0 a22 a23,
    jh_c0 a24 a25, jh_d0 a24 a25, jh_c0 a26 a27, jh_d0 a26 a27,
    jh_c0 a28 a29, jh_d0 a28 a29, jh_c0 a30 a31, jh_d0 a30 a31,
    jh_c0 a32 a33, jh_d0 a32 a33, jh_c0 a34 a35, jh_d0 a34 a35,
    jh_c0 a36 a37, jh_d0 a36 a37, jh_c0 a38 a39, jh_d0 a38 a39,
    jh_c0 a40 a41, jh_d0 a40 a41, jh_c0 a42 a43, jh_d0 a42 a43,
    jh_c0 a44 a45, jh_d0 a44 a45, jh_c0 a46 a47, jh_d0 a46 a47,
    jh_c0 a48 a49, jh_d0 a48 a49, jh_c0 a50 a51, jh_d0 a50 a51,
    jh_c0 a52 a53, jh_d0 a52 a53, jh_c0 a54 a55, jh_d0 a54 a55,
    jh_c0 a56 a57, jh_d0 a56 a57, jh_c0 a58 a59, jh_d0 a58 a59,
    jh_c0 a60 a61, jh_d0 a60 a61, jh_c0 a62 a63, jh_d0 a62 a63]"
  by (simp add: jh_SL_spec_def upt_32 jh_cd0)

lemma jh_P_64:
  "jh_P
    [a0, a1, a2, a3, a4, a5, a6, a7, a8, a9, a10, a11, a12, a13, a14, a15,
     a16, a17, a18, a19, a20, a21, a22, a23, a24, a25, a26, a27, a28, a29, a30, a31,
     a32, a33, a34, a35, a36, a37, a38, a39, a40, a41, a42, a43, a44, a45, a46, a47,
     a48, a49, a50, a51, a52, a53, a54, a55, a56, a57, a58, a59, a60, a61, a62, a63] =
   [a0, a3, a4, a7, a8, a11, a12, a15, a16, a19, a20, a23, a24, a27, a28, a31,
    a32, a35, a36, a39, a40, a43, a44, a47, a48, a51, a52, a55, a56, a59, a60, a63,
    a2, a1, a6, a5, a10, a9, a14, a13, a18, a17, a22, a21, a26, a25, a30, a29,
    a34, a33, a38, a37, a42, a41, a46, a45, a50, a49, a54, a53, a58, a57, a62, a61]"
  by (simp add: jh_P_def jh_pi_def jh_P'_def jh_phi_def upt_16 upt_32)

section \<open>Words as bit lists\<close>

primrec num_bits :: "num \<Rightarrow> bool list" where
  "num_bits num.One = [True]"
| "num_bits (num.Bit0 n) = False # num_bits n"
| "num_bits (num.Bit1 n) = True # num_bits n"

lemma bit_num_bits: "bit (numeral n :: int) i \<longleftrightarrow> i < length (num_bits n) \<and> num_bits n ! i"
proof (induction n arbitrary: i)
  case (Bit0 n)
  then show ?case by (cases i) (simp_all add: bit_Suc)
next
  case (Bit1 n)
  then show ?case by (cases i) (simp_all add: bit_Suc)
qed (auto simp: bit_1_iff less_Suc_eq)

definition word_bits :: "u64 \<Rightarrow> bool list" where
  "word_bits w = map (\<lambda>i. bit w (63 - i)) [0..<64]"

lemma word_bits_numeral_replicate:
  "word_bits (numeral n) = rev (take 64 (num_bits n @ replicate 64 False))"
proof (rule nth_equalityI)
  define L where "L = num_bits n @ replicate 64 False"
  fix i assume "i < length (word_bits (numeral n))"
  then have i: "i < 64" by (simp add: word_bits_def)
  have L: "63 - i < length L" by (simp add: L_def)
  have "rev (take 64 L) ! i = L ! (63 - i)"
    using i by (simp add: rev_nth L_def del: take_append)
  also have "\<dots> = bit (numeral n :: int) (63 - i)"
    using i L by (auto simp: L_def bit_num_bits nth_append)
  finally show "word_bits (numeral n) ! i = rev (take 64 (num_bits n @ replicate 64 False)) ! i"
    using i less_imp_diff_less [of 63 64 i] by (simp add: word_bits_def L_def)
qed (simp add: word_bits_def)

lemma word_bits_numeral:
  "word_bits (numeral n) = rev (take 64 (num_bits n @
     [False, False, False, False, False, False, False, False, False, False, False, False, False,
      False, False, False, False, False, False, False, False, False, False, False, False, False,
      False, False, False, False, False, False, False, False, False, False, False, False, False,
      False, False, False, False, False, False, False, False, False, False, False, False, False,
      False, False, False, False, False, False, False, False, False, False, False, False]))"
proof -
  have "[False, False, False, False, False, False, False, False, False, False, False, False, False,
      False, False, False, False, False, False, False, False, False, False, False, False, False,
      False, False, False, False, False, False, False, False, False, False, False, False, False,
      False, False, False, False, False, False, False, False, False, False, False, False, False,
      False, False, False, False, False, False, False, False, False, False, False, False] = replicate 64 False"
    by (simp add: numeral_eq_Suc)
  then show ?thesis by (simp only: word_bits_numeral_replicate)
qed

fun evens :: "nibble list \<Rightarrow> bool list" where
  "evens [] = []" | "evens (a # A) = bit a 3 # bit a 1 # evens A"

fun odds :: "nibble list \<Rightarrow> bool list" where
  "odds [] = []" | "odds (a # A) = bit a 2 # bit a 0 # odds A"

fun interleave :: "'a list \<Rightarrow> 'a list \<Rightarrow> 'a list" where
  "interleave (x # xs) (y # ys) = x # y # interleave xs ys"
| "interleave _ _ = []"

definition shuffle :: "'a list \<Rightarrow> 'a list" where
  "shuffle X = interleave (take 64 X) (drop 64 X)"

text \<open>
  The check of four words of the table per round, from the constant \<open>A\<close> of a round \<open>r\<close> with
  \<open>g = r mod 7\<close> on. It returns the constant of the round after the last one.
\<close>

fun const_run :: "nat \<Rightarrow> nibble list \<Rightarrow> u64 list \<Rightarrow> nibble list option" where
  "const_run g A (w0 # w1 # w2 # w3 # ws) =
     (if word_bits w0 @ word_bits w1 = (shuffle ^^ g) (evens A) \<and>
         word_bits w2 @ word_bits w3 = (shuffle ^^ g) (odds A)
      then const_run (if g = 6 then 0 else g + 1) (jh_R (replicate 64 False) A) ws
      else None)"
| "const_run g A _ = Some A"

definition jh_const_at :: "nat \<Rightarrow> nibble list" where
  "jh_const_at k = [[6, 10, 0, 9, 14, 6, 6, 7, 15, 3, 11, 12, 12, 9, 0, 8, 11, 2, 15, 11, 1, 3, 6, 6, 14, 10, 9, 5, 7, 13, 3, 14,
     3, 10, 13, 14, 12, 1, 7, 5, 1, 2, 7, 7, 5, 0, 9, 9, 13, 10, 2, 15, 5, 9, 0, 11, 0, 6, 6, 7, 3, 2, 2, 10],
    [11, 1, 2, 6, 15, 11, 7, 4, 1, 7, 3, 3, 12, 5, 11, 15, 12, 14, 15, 6, 15, 4, 3, 10, 6, 2, 14, 8, 14, 5, 7, 0,
     6, 10, 2, 6, 6, 5, 6, 0, 2, 8, 10, 10, 8, 9, 7, 14, 12, 1, 14, 10, 4, 6, 1, 6, 12, 14, 8, 15, 13, 5, 1, 0],
    [7, 10, 1, 5, 2, 3, 14, 15, 3, 13, 9, 7, 0, 10, 3, 10, 9, 11, 0, 11, 4, 13, 6, 1, 0, 14, 0, 2, 7, 4, 9, 13,
     3, 7, 11, 8, 13, 5, 7, 12, 1, 8, 8, 5, 15, 14, 4, 2, 0, 6, 10, 7, 15, 3, 3, 8, 14, 8, 3, 5, 6, 8, 6, 6],
    [4, 11, 5, 13, 2, 7, 13, 3, 3, 6, 8, 15, 9, 12, 1, 7, 13, 4, 11, 2, 10, 2, 11, 2, 1, 6, 12, 7, 14, 7, 4, 14,
     7, 7, 1, 4, 13, 2, 12, 12, 0, 3, 14, 1, 14, 4, 4, 5, 8, 8, 12, 13, 9, 9, 3, 6, 13, 14, 7, 4, 3, 5, 7, 12],
    [10, 11, 13, 0, 6, 12, 5, 2, 14, 13, 5, 8, 15, 15, 0, 9, 1, 2, 0, 5, 13, 0, 15, 6, 2, 7, 5, 7, 4, 12, 8, 12,
     11, 12, 1, 15, 14, 7, 12, 15, 7, 9, 2, 1, 0, 15, 5, 10, 2, 2, 8, 6, 15, 6, 14, 2, 3, 10, 2, 7, 14, 15, 10, 0],
    [6, 1, 12, 15, 10, 4, 2, 7, 9, 2, 15, 9, 3, 11, 9, 15, 13, 14, 3, 6, 14, 11, 1, 6, 3, 14, 9, 7, 8, 7, 0, 9,
     15, 10, 15, 10, 7, 6, 1, 6, 14, 12, 3, 12, 7, 13, 10, 13, 0, 1, 3, 5, 8, 0, 6, 12, 3, 13, 9, 1, 10, 2, 1, 11],
    [3, 9, 8, 12, 3, 9, 11, 8, 13, 3, 8, 9, 7, 9, 1, 11, 14, 13, 2, 12, 3, 12, 10, 5, 6, 2, 12, 10, 11, 2, 6, 9,
     7, 6, 4, 12, 11, 2, 7, 14, 11, 10, 2, 7, 15, 4, 14, 5, 13, 4, 10, 0, 2, 0, 6, 7, 4, 14, 7, 6, 1, 0, 14, 1]] ! k"

lemma jh_C0_nibbles_eval: "jh_C0_nibbles =
    [6, 10, 0, 9, 14, 6, 6, 7, 15, 3, 11, 12, 12, 9, 0, 8, 11, 2, 15, 11, 1, 3, 6, 6, 14, 10, 9, 5, 7, 13, 3, 14,
     3, 10, 13, 14, 12, 1, 7, 5, 1, 2, 7, 7, 5, 0, 9, 9, 13, 10, 2, 15, 5, 9, 0, 11, 0, 6, 6, 7, 3, 2, 2, 10]"
  by (simp add: jh_C0_nibbles_def jh_C0_def upt_64)

lemma funpow_numeral_eval: "(f ^^ numeral k) x = f ((f ^^ pred_numeral k) x)"
  by (simp add: numeral_eq_Suc)

lemmas const_eval = funpow_numeral_eval jh_R_def jh_SL_spec_64 jh_P_64 jh_c0_def jh_d0_def jh_L_spec_def Let_def
  jh_sbox_def jh_S0_def jh_mul2_def word_bits_numeral shuffle_def numeral_2_eq_2 [symmetric]

lemma const_run_0: "const_run 0 (jh_const_at 0) (take 28 (drop 0 JH_C64_words)) = Some (jh_const_at 1)"
  unfolding JH_C64_words_def jh_const_at_def by (simp add: const_eval)

lemma const_run_1: "const_run 0 (jh_const_at 1) (take 28 (drop 28 JH_C64_words)) = Some (jh_const_at 2)"
  unfolding JH_C64_words_def jh_const_at_def by (simp add: const_eval)

lemma const_run_2: "const_run 0 (jh_const_at 2) (take 28 (drop 56 JH_C64_words)) = Some (jh_const_at 3)"
  unfolding JH_C64_words_def jh_const_at_def by (simp add: const_eval)

lemma const_run_3: "const_run 0 (jh_const_at 3) (take 28 (drop 84 JH_C64_words)) = Some (jh_const_at 4)"
  unfolding JH_C64_words_def jh_const_at_def by (simp add: const_eval)

lemma const_run_4: "const_run 0 (jh_const_at 4) (take 28 (drop 112 JH_C64_words)) = Some (jh_const_at 5)"
  unfolding JH_C64_words_def jh_const_at_def by (simp add: const_eval)

lemma const_run_5: "const_run 0 (jh_const_at 5) (take 28 (drop 140 JH_C64_words)) = Some (jh_const_at 6)"
  unfolding JH_C64_words_def jh_const_at_def by (simp add: const_eval)

end
