(* ===== verification/Jh_E8.thy ===== *)
theory Jh_E8
  imports Jh_Perm
begin

text \<open>
  The function \<open>E8\<close> in its three forms, and the compression function of a block, against the
  specification on bit strings. The string of a state is its registers in order, each from
  position 0 on.
\<close>

section \<open>The three forms of \<open>E8\<close>\<close>

lemma upt_42: "[0..<42] = [0, 1, 2, 3, 4, 5, 6, 7, 8, 9, 10, 11, 12, 13, 14, 15, 16, 17, 18, 19, 20,
  21, 22, 23, 24, 25, 26, 27, 28, 29, 30, 31, 32, 33, 34, 35, 36, 37, 38, 39, 40, 41]"
  "[0..<6] = [0, 1, 2, 3, 4, 5]"
  by code_simp+

lemma E8_unrolled_fold: "E8_unrolled ops h = fold (\<lambda>r. SLu ops r (r mod 7)) [0..<42] h"
  by (simp add: E8_unrolled_def upt_42)

lemma E8_loop_fold: "E8_loop ops h = fold (\<lambda>r. SLu ops r (r mod 7)) [0..<42] h"
  by (simp add: E8_loop_def SL7_def upt_42 Let_def numeral_2_eq_2 [symmetric])

lemma E8_switch_fold: "E8_switch ops h = fold (\<lambda>r. SLu ops r (r mod 7)) [0..<42] h"
  by (simp add: E8_switch_def E8_switch_step_def upt_42 Let_def numeral_2_eq_2 [symmetric])

lemma E8_fold: "E8 ops h = fold (\<lambda>r. SLu ops r (r mod 7)) [0..<42] h"
  by (simp add: E8_def E8_unrolled_fold E8_loop_fold)

section \<open>The bits of a state\<close>

definition reg_bits :: "'a::len regs \<Rightarrow> bool list" where
  "reg_bits h = concat (map (\<lambda>x. map (rbit x) [0..<128]) h)"

lemma length_reg_bits [simp]: "length (reg_bits h) = 128 * length h"
  by (induction h) (simp_all add: reg_bits_def)

lemma nth_reg_bits: "e < length h \<Longrightarrow> p < 128 \<Longrightarrow> reg_bits h ! (128 * e + p) = rbit (h ! e) p"
proof (induction h arbitrary: e)
  case (Cons x h)
  then show ?case
    by (cases e) (simp_all add: reg_bits_def nth_append del: upt.simps)
qed simp

lemma reg_bits_append: "reg_bits (xs @ ys) = reg_bits xs @ reg_bits ys"
  by (simp add: reg_bits_def)

lemma jh_rel_group:
  assumes "length h = 8"
  shows "jh_rel 0 h (jh_group (reg_bits h))"
proof -
  let ?f = "\<lambda>i. [mk_nibble (reg_bits h ! i) (reg_bits h ! (i + 256)) (reg_bits h ! (i + 512)) (reg_bits h ! (i + 768)),
      mk_nibble (reg_bits h ! (i + 128)) (reg_bits h ! (i + 384)) (reg_bits h ! (i + 640)) (reg_bits h ! (i + 896))]"
  have r: "reg_bits h ! (128 * e + p) = rbit (h ! e) p" if "e < 8" "p < 128" for e p
    using that assms by (simp add: nth_reg_bits)
  have "?f p = [nib h 0 p, nib h 1 p]" if "p < 128" for p
    using that r [of 0 p] r [of 1 p] r [of 2 p] r [of 3 p] r [of 4 p] r [of 5 p] r [of 6 p] r [of 7 p]
    by (simp add: nib_def add.commute numeral_2_eq_2 [symmetric] numeral_3_eq_3 [symmetric] del: One_nat_def)
  moreover have "jh_group (reg_bits h) = concat (map ?f [0..<128])"
    by (simp add: jh_group_def)
  moreover have "length (concat (map ?f [0..<128])) = 128 * 2"
    by (rule length_concat_map) simp
  moreover have "concat (map ?f [0..<128]) ! k = ?f (k div 2) ! (k mod 2)" if "k < 256" for k
    using that by (intro nth_concat_map) simp_all
  ultimately show ?thesis
    by (simp add: jh_rel_def sigma_0)
qed

lemma jh_rel_degroup:
  assumes "length h = 8" and "jh_rel 0 h A"
  shows "jh_degroup A = reg_bits h"
proof -
  obtain h0 h1 h2 h3 h4 h5 h6 h7 where h: "h = [h0, h1, h2, h3, h4, h5, h6, h7]"
    using assms(1) by (rule list8E)
  have "map (\<lambda>i. bit (A ! (2 * i)) m) [0..<128] = map (\<lambda>p. bit (nib h 0 p) m) [0..<128]"
    "map (\<lambda>i. bit (A ! (2 * i + 1)) m) [0..<128] = map (\<lambda>p. bit (nib h 1 p) m) [0..<128]" for m
    using assms(2) by (auto simp: jh_rel_def sigma_0)
  then show ?thesis
    by (simp only: jh_degroup_def) (simp add: h reg_bits_def nib_def bit_mk_nibble del: upt.simps)
qed

context jh_slices begin

lemma rounds_rel:
  assumes h: "regs_wf (JH_K ops) h"
  shows "n \<le> 42 \<Longrightarrow> regs_wf (JH_K ops) (fold (\<lambda>r. SLu ops r (r mod 7)) [0..<n] h) \<and>
    jh_rel (n mod 7) (fold (\<lambda>r. SLu ops r (r mod 7)) [0..<n] h)
      (fold (\<lambda>r. jh_R (jh_const r)) [0..<n] (jh_group (reg_bits h)))"
proof (induction n)
  case 0
  then show ?case using h jh_rel_group [OF regs_wf8 [OF h]] by simp
next
  case (Suc n)
  then show ?case
    using SLu_nib(1) [of "fold (\<lambda>r. SLu ops r (r mod 7)) [0..<n] h" "n mod 7" n]
      round_rel [of "fold (\<lambda>r. SLu ops r (r mod 7)) [0..<n] h" n]
    by simp
qed

lemma E8_refines:
  assumes "regs_wf (JH_K ops) h"
  shows "regs_wf (JH_K ops) (E8 ops h)" and "reg_bits (E8 ops h) = E8_spec (reg_bits h)"
proof -
  note r = rounds_rel [OF assms, of 42]
  then show wf: "regs_wf (JH_K ops) (E8 ops h)" by (simp add: E8_fold)
  show "reg_bits (E8 ops h) = E8_spec (reg_bits h)"
    using r jh_rel_degroup [OF regs_wf8 [OF wf]] by (simp add: E8_fold E8_spec_def)
qed

end

section \<open>Words and bytes of a state\<close>

lemma byte_flip_eq: "byte_flip n = 8 * (n div 8) + (7 - n mod 8)"
proof -
  have "drop_bit 3 (byte_flip n) = drop_bit 3 n" by (simp add: byte_flip_def drop_bit_xor)
  moreover have "take_bit 3 (byte_flip n) = take_bit 3 n XOR 7" by (simp add: byte_flip_def)
  moreover have "take_bit 3 n XOR 7 = 7 - take_bit 3 n"
  proof -
    have "take_bit 3 n < 8" using take_bit_nat_less_exp [of 3 n] by simp
    then show ?thesis by (cases rule: less_8_cases) simp_all
  qed
  moreover have "byte_flip n = 8 * drop_bit 3 (byte_flip n) + take_bit 3 (byte_flip n)"
    by (simp add: drop_bit_eq_div take_bit_eq_mod)
  ultimately show ?thesis by (simp only: drop_bit_eq_div take_bit_eq_mod) simp
qed

lemma byte_flip_div_mod [simp]: "byte_flip n div 8 = n div 8" "byte_flip n mod 8 = 7 - n mod 8"
proof -
  define d where "d = 7 - n mod 8"
  have "d < 8" by (simp add: d_def)
  then have "(8 * (n div 8) + d) div 8 = n div 8" "(8 * (n div 8) + d) mod 8 = d" by simp_all
  then show "byte_flip n div 8 = n div 8" "byte_flip n mod 8 = 7 - n mod 8"
    by (simp_all only: byte_flip_eq d_def)
qed

lemma regs_wf_READ [simp]: "regs_wf (JH_K ops) (JH_READ_STATE ops H)"
  by (simp add: regs_wf_def JH_READ_STATE_def)

lemma READ_WRITE_STATE:
  assumes "regs_wf (JH_K ops) h"
  shows "JH_READ_STATE ops (JH_WRITE_STATE h) = h"
proof (rule nth_equalityI)
  show "length (JH_READ_STATE ops (JH_WRITE_STATE h)) = length h"
    using assms by (simp add: JH_READ_STATE_def regs_wf_def)
  fix i assume "i < length (JH_READ_STATE ops (JH_WRITE_STATE h))"
  then have i: "i < 8" by (simp add: JH_READ_STATE_def)
  show "JH_READ_STATE ops (JH_WRITE_STATE h) ! i = h ! i"
  proof (rule nth_equalityI)
    show "length (JH_READ_STATE ops (JH_WRITE_STATE h) ! i) = length (h ! i)"
      using i assms by (simp add: JH_READ_STATE_def regs_wf_def)
    fix j assume "j < length (JH_READ_STATE ops (JH_WRITE_STATE h) ! i)"
    then have "j < JH_K ops" using i by (simp add: JH_READ_STATE_def)
    then show "JH_READ_STATE ops (JH_WRITE_STATE h) ! i ! j = h ! i ! j"
      using i assms nth_concat_eq [of h "JH_K ops" i j]
      by (simp add: JH_READ_STATE_def JH_WRITE_STATE_def regs_wf_def)
  qed
qed

lemma WRITE_READ_STATE:
  assumes "length H = 8 * JH_K ops"
  shows "JH_WRITE_STATE (JH_READ_STATE ops H) = H"
proof (rule nth_equalityI)
  let ?f = "\<lambda>i. map (\<lambda>j. H ! (JH_K ops * i + j)) [0..<JH_K ops]"
  show l: "length (JH_WRITE_STATE (JH_READ_STATE ops H)) = length H"
    using assms length_concat_map [of 8 ?f "JH_K ops"] by (simp add: JH_WRITE_STATE_def JH_READ_STATE_def)
  fix k assume "k < length (JH_WRITE_STATE (JH_READ_STATE ops H))"
  then have k: "k < 8 * JH_K ops" using l assms by simp
  then have "0 < JH_K ops" by (cases "JH_K ops") simp_all
  then show "JH_WRITE_STATE (JH_READ_STATE ops H) ! k = H ! k"
    using k nth_concat_map [of 8 ?f "JH_K ops" k]
    by (simp add: JH_WRITE_STATE_def JH_READ_STATE_def)
qed

lemma length_WRITE_STATE: "regs_wf k h \<Longrightarrow> length (JH_WRITE_STATE h) = 8 * k"
  using length_concat_eq [of h k] by (simp add: regs_wf_def JH_WRITE_STATE_def)

text \<open>The bit string that a state of words stands for, and the compression step on it.\<close>

definition jh_state :: "('a word, 'n) jh_ops \<Rightarrow> 'a word list \<Rightarrow> bool list" where
  "jh_state ops H = msb_bits (concat (map (ENCE ops) H))"

definition jh_step :: "('a::len word, 'n) jh_ops \<Rightarrow> 'a word list \<Rightarrow> byte list \<Rightarrow> 'a word list" where
  "jh_step ops H b = (let m = JH_block_words ops b
     in JH_WRITE_STATE (JH_INPUT_BUF2 m (E8 ops (JH_INPUT_BUF1 m (JH_READ_STATE ops H)))))"

context jh_slices begin

lemma word_bytes: "LENGTH('a) = 8 * (16 div JH_K ops)" "16 div JH_K ops * JH_K ops = 16" "0 < JH_K ops"
proof -
  obtain w where w: "LENGTH('a) = 8 * w" using slice_K(2) by (auto elim: dvdE)
  then have e: "JH_K ops * w = 16" using slice_K(1) by (simp add: mult.commute)
  then show k: "0 < JH_K ops" by (cases "JH_K ops") simp_all
  from e k have "16 div JH_K ops = w" by (metis nonzero_mult_div_cancel_left less_not_refl)
  with w e show "LENGTH('a) = 8 * (16 div JH_K ops)" "16 div JH_K ops * JH_K ops = 16"
    by (simp_all add: mult.commute)
qed

text \<open>The byte that holds position \<open>p\<close> of a register.\<close>

lemma position_byte:
  defines "wb \<equiv> 16 div JH_K ops"
  assumes "p < 128"
  shows "p div LENGTH('a) < JH_K ops" and "p mod LENGTH('a) div 8 < wb"
    and "wb * (p div LENGTH('a)) + p mod LENGTH('a) div 8 = p div 8"
    and "p mod LENGTH('a) mod 8 = p mod 8"
proof -
  define q where "q = p div LENGTH('a)"
  define s where "s = p mod LENGTH('a)"
  have p: "p = LENGTH('a) * q + s" by (simp add: q_def s_def)
  have L: "LENGTH('a) = 8 * wb" using word_bytes(1) by (simp add: wb_def)
  show "p div LENGTH('a) < JH_K ops" using assms(2) slice_K(1) by (simp add: div_less_iff_less_mult)
  have "p mod LENGTH('a) < wb * 8" using L by (metis len_gt_0 mod_less_divisor mult.commute)
  then show "p mod LENGTH('a) div 8 < wb" by (simp add: div_less_iff_less_mult)
  have "(8 * (wb * q) + s) div 8 = wb * q + s div 8" "(8 * (wb * q) + s) mod 8 = s mod 8"
    by simp_all
  then have "p div 8 = wb * q + s div 8" "p mod 8 = s mod 8"
    unfolding p L by (simp_all only: mult.assoc)
  then show "wb * (p div LENGTH('a)) + p mod LENGTH('a) div 8 = p div 8" "p mod LENGTH('a) mod 8 = p mod 8"
    by (simp_all add: q_def s_def)
qed

lemma length_ENCE: "length (ENCE ops w) = 16 div JH_K ops"
  using word_bytes(1) by (simp add: slice_ENC)

lemma bit_ENCE:
  assumes "s < 16 div JH_K ops" "i < 8"
  shows "bit (ENCE ops w ! s) i = bit w (8 * s + i)"
  using assms word_bytes(1) by (simp add: slice_ENC bit_simps)

text \<open>The bytes of a register, and of several, carry its bits in order.\<close>

lemma msb_bits_reg:
  assumes "length x = JH_K ops"
  shows "msb_bits (concat (map (ENCE ops) x)) = map (rbit x) [0..<128]"
proof (rule nth_equalityI)
  let ?wb = "16 div JH_K ops"
  have len: "length (concat (map (ENCE ops) x)) = 16"
    using assms word_bytes(2) length_concat_eq [of "map (ENCE ops) x" ?wb] by (simp add: length_ENCE)
  then show "length (msb_bits (concat (map (ENCE ops) x))) = length (map (rbit x) [0..<128])" by simp
  fix k assume "k < length (msb_bits (concat (map (ENCE ops) x)))"
  then have k: "k < 128" using len by simp
  note pos = position_byte [OF k]
  have "concat (map (ENCE ops) x) ! (k div 8) = ENCE ops (x ! (k div LENGTH('a))) ! (k mod LENGTH('a) div 8)"
    using nth_concat_eq [of "map (ENCE ops) x" ?wb "k div LENGTH('a)" "k mod LENGTH('a) div 8"] pos assms
    by (simp add: length_ENCE)
  then have "msb_bits (concat (map (ENCE ops) x)) ! k =
      bit (x ! (k div LENGTH('a))) (8 * (k mod LENGTH('a) div 8) + (7 - k mod 8))"
    using k len pos(2) by (simp add: nth_msb_bits bit_ENCE)
  also have "8 * (k mod LENGTH('a) div 8) + (7 - k mod 8) = byte_flip (k mod LENGTH('a))"
    by (simp only: byte_flip_eq pos(4))
  finally show "msb_bits (concat (map (ENCE ops) x)) ! k = map (rbit x) [0..<128] ! k"
    using k by (simp add: rbit_def)
qed

lemma msb_bits_regs:
  "\<forall>x \<in> set h. length x = JH_K ops \<Longrightarrow> msb_bits (concat (map (ENCE ops) (concat h))) = reg_bits h"
  by (induction h) (simp_all add: msb_bits_reg reg_bits_def)

section \<open>The compression of a block\<close>

lemma jh_state_regs: "length H = 8 * JH_K ops \<Longrightarrow> jh_state ops H = reg_bits (JH_READ_STATE ops H)"
  using msb_bits_regs [of "JH_READ_STATE ops H"] WRITE_READ_STATE [of H ops] regs_wf_READ [of ops H]
  by (simp add: jh_state_def JH_WRITE_STATE_def regs_wf_def)

lemma block_words_bits:
  assumes "length b = 64"
  shows "length (JH_block_words ops b) = 4" and "\<forall>x \<in> set (JH_block_words ops b). length x = JH_K ops"
    and "reg_bits (JH_block_words ops b) = msb_bits b"
proof -
  let ?wb = "16 div JH_K ops"
  show len: "length (JH_block_words ops b) = 4" "\<forall>x \<in> set (JH_block_words ops b). length x = JH_K ops"
    by (auto simp: JH_block_words_def Let_def)
  show "reg_bits (JH_block_words ops b) = msb_bits b"
  proof (rule nth_equalityI)
    show "length (reg_bits (JH_block_words ops b)) = length (msb_bits b)" using len assms by simp
    fix k assume "k < length (reg_bits (JH_block_words ops b))"
    then have k: "k < 512" using len by simp
    define e where "e = k div 128"
    define p where "p = k mod 128"
    have kp: "k = 128 * e + p" and e: "e < 4" and p: "p < 128" using k by (simp_all add: e_def p_def)
    note pos = position_byte [OF p]
    let ?q = "p div LENGTH('a)" and ?s = "p mod LENGTH('a) div 8"
    let ?off = "?wb * (JH_K ops * e + ?q)"
    have "?off + ?s = ?wb * JH_K ops * e + (?wb * ?q + ?s)" by (simp add: algebra_simps)
    then have off: "?off + ?s = 16 * e + p div 8" using pos(3) word_bytes(2) by simp
    have "?off + ?wb \<le> 64"
    proof -
      have "JH_K ops * (e + 1) \<le> JH_K ops * 4" using e by (intro mult_le_mono2) simp
      then have "JH_K ops * e + ?q + 1 \<le> JH_K ops * 4" using pos(1) unfolding distrib_left by linarith
      then have "?wb * (JH_K ops * e + ?q + 1) \<le> ?wb * (JH_K ops * 4)" by (rule mult_le_mono2)
      then show ?thesis using word_bytes(2) by (simp add: algebra_simps)
    qed
    then have l: "length (take ?wb (drop ?off b)) = ?wb" using assms by simp
    have n: "byte_flip (p mod LENGTH('a)) < LENGTH('a)" using slice_K(2) by (intro byte_flip_less) simp_all
    have "reg_bits (JH_block_words ops b) ! k = rbit (JH_block_words ops b ! e) p"
      unfolding kp using e p len by (intro nth_reg_bits) simp_all
    also have "\<dots> = bit (DECE ops (take ?wb (drop ?off b))) (byte_flip (p mod LENGTH('a)))"
      using e pos(1) by (simp add: rbit_def JH_block_words_def Let_def)
    also have "\<dots> = bit (b ! (16 * e + p div 8)) (7 - p mod 8)"
      using pos(2,4) assms l by (simp add: slice_DEC [OF l n] off)
    also have "\<dots> = msb_bits b ! k"
    proof -
      have "k = 8 * (16 * e) + p" unfolding kp by simp
      then have "k div 8 = 16 * e + p div 8" "k mod 8 = p mod 8" by (simp_all only: div_mult_self4 mod_mult_self4)
      then show ?thesis using k assms by (simp add: nth_msb_bits)
    qed
    finally show "reg_bits (JH_block_words ops b) ! k = msb_bits b ! k" .
  qed
qed

lemma reg_bits_xor:
  fixes x y :: "'a word list"
  assumes "length x = JH_K ops" "length y = JH_K ops"
  shows "map (rbit (map2 (XOR) x y)) [0..<128] = map2 (\<noteq>) (map (rbit x) [0..<128]) (map (rbit y) [0..<128])"
  using rbit_map2 [OF assms slice_K] by (intro nth_equalityI) simp_all

lemma zip_append_eq: "length xs = length ys \<Longrightarrow>
    map2 f (xs @ us) (ys @ vs) = map2 f xs ys @ map2 f us vs"
  by simp

lemma INPUT_BUF_bits:
  fixes h m :: "'a regs"
  assumes h: "regs_wf (JH_K ops) h" and m: "length m = 4" "\<forall>x \<in> set m. length x = JH_K ops"
  shows "regs_wf (JH_K ops) (JH_INPUT_BUF1 m h)" "regs_wf (JH_K ops) (JH_INPUT_BUF2 m h)"
    and "reg_bits (JH_INPUT_BUF1 m h) = map2 (\<noteq>) (take 512 (reg_bits h)) (reg_bits m) @ drop 512 (reg_bits h)"
    and "reg_bits (JH_INPUT_BUF2 m h) = take 512 (reg_bits h) @ map2 (\<noteq>) (drop 512 (reg_bits h)) (reg_bits m)"
proof -
  obtain h0 h1 h2 h3 h4 h5 h6 h7 where eh: "h = [h0, h1, h2, h3, h4, h5, h6, h7]"
    using regs_wf8 [OF h] by (rule list8E)
  obtain m0 m1 m2 m3 where em: "m = [m0, m1, m2, m3]" using m(1) by (rule list4E)
  note l = h [unfolded eh regs_wf_lengths] m(2) [unfolded em, simplified]
  have b1: "JH_INPUT_BUF1 m h = [map2 (XOR) h0 m0, map2 (XOR) h1 m1, map2 (XOR) h2 m2, map2 (XOR) h3 m3, h4, h5, h6, h7]"
    and b2: "JH_INPUT_BUF2 m h = [h0, h1, h2, h3, map2 (XOR) h4 m0, map2 (XOR) h5 m1, map2 (XOR) h6 m2, map2 (XOR) h7 m3]"
    by (simp_all add: JH_INPUT_BUF1_def JH_INPUT_BUF2_def xor_regs_def eh em numeral_3_eq_3 numeral_2_eq_2)
  show "regs_wf (JH_K ops) (JH_INPUT_BUF1 m h)" "regs_wf (JH_K ops) (JH_INPUT_BUF2 m h)"
    unfolding b1 b2 using l by (simp_all add: regs_wf_def)
  have hd: "reg_bits h = reg_bits [h0, h1, h2, h3] @ reg_bits [h4, h5, h6, h7]"
    by (simp add: eh reg_bits_def)
  have x: "reg_bits [map2 (XOR) x0 m0, map2 (XOR) x1 m1, map2 (XOR) x2 m2, map2 (XOR) x3 m3] =
      map2 (\<noteq>) (reg_bits [x0, x1, x2, x3]) (reg_bits m)"
    if "length x0 = JH_K ops" "length x1 = JH_K ops" "length x2 = JH_K ops" "length x3 = JH_K ops"
    for x0 x1 x2 x3 :: "'a word list"
    using that l reg_bits_xor [of x0 m0] reg_bits_xor [of x1 m1] reg_bits_xor [of x2 m2] reg_bits_xor [of x3 m3]
    by (simp add: reg_bits_def em)
  have "reg_bits (JH_INPUT_BUF1 m h) = map2 (\<noteq>) (reg_bits [h0, h1, h2, h3]) (reg_bits m) @ reg_bits [h4, h5, h6, h7]"
    unfolding b1 using x [of h0 h1 h2 h3] l by (simp add: reg_bits_def)
  then show "reg_bits (JH_INPUT_BUF1 m h) = map2 (\<noteq>) (take 512 (reg_bits h)) (reg_bits m) @ drop 512 (reg_bits h)"
    by (simp add: hd)
  have "reg_bits (JH_INPUT_BUF2 m h) = reg_bits [h0, h1, h2, h3] @ map2 (\<noteq>) (reg_bits [h4, h5, h6, h7]) (reg_bits m)"
    unfolding b2 using x [of h4 h5 h6 h7] l by (simp add: reg_bits_def)
  then show "reg_bits (JH_INPUT_BUF2 m h) = take 512 (reg_bits h) @ map2 (\<noteq>) (drop 512 (reg_bits h)) (reg_bits m)"
    by (simp add: hd)
qed

lemma jh_step_F8:
  assumes "length H = 8 * JH_K ops" and "length b = 64"
  shows "length (jh_step ops H b) = 8 * JH_K ops" and "jh_state ops (jh_step ops H b) = F8_spec (jh_state ops H) (msb_bits b)"
proof -
  let ?m = "JH_block_words ops b"
  let ?h1 = "JH_INPUT_BUF1 ?m (JH_READ_STATE ops H)"
  note m = block_words_bits [OF assms(2)]
  note i1 = INPUT_BUF_bits [OF regs_wf_READ m(1,2)]
  note e = E8_refines [OF i1(1) [of H]]
  note i2 = INPUT_BUF_bits [OF e(1) m(1,2)]
  have s: "jh_step ops H b = JH_WRITE_STATE (JH_INPUT_BUF2 ?m (E8 ops ?h1))"
    by (simp add: jh_step_def Let_def)
  show l: "length (jh_step ops H b) = 8 * JH_K ops"
    unfolding s by (rule length_WRITE_STATE [OF i2(2)])
  have "jh_state ops (jh_step ops H b) = reg_bits (JH_INPUT_BUF2 ?m (E8 ops ?h1))"
    unfolding jh_state_regs [OF l] unfolding s READ_WRITE_STATE [OF i2(2)] by (rule refl)
  then show "jh_state ops (jh_step ops H b) = F8_spec (jh_state ops H) (msb_bits b)"
    unfolding jh_state_regs [OF assms(1)]
    by (simp add: i2(4) e(2) i1(3) m(3) F8_spec_def Let_def)
qed

end

end
