(* ===== verification/Jh_Table.thy ===== *)
theory Jh_Table
  imports Jh_Const Jh_E8
begin

text \<open>
  The two tables of round constants, read at a position of a round, and the two variants of
  \<open>jh.c\<close> as instances of the interface \<open>jh_slices\<close>.
\<close>

section \<open>From the runs over the table to each round\<close>

lemma nth_evens_odds:
  "q < 2 * length A \<Longrightarrow> evens A ! q = nibble_bits A ! (2 * q) \<and> odds A ! q = nibble_bits A ! (2 * q + 1)"
proof (induction A arbitrary: q)
  case (Cons a A)
  consider "q = 0" | "q = 1" | q' where "q = Suc (Suc q')"
    by (metis One_nat_def not0_implies_Suc)
  then show ?case
    using Cons by cases (auto simp: nibble_bits_def numeral_3_eq_3)
qed simp

lemma length_evens_odds [simp]: "length (evens A) = 2 * length A" "length (odds A) = 2 * length A"
  by (induction A) simp_all

lemma length_interleave: "length xs = n \<Longrightarrow> length ys = n \<Longrightarrow> length (interleave xs ys) = 2 * n"
  by (induction xs ys arbitrary: n rule: interleave.induct) auto

lemma nth_interleave:
  "length xs = n \<Longrightarrow> length ys = n \<Longrightarrow> p < 2 * n \<Longrightarrow>
     interleave xs ys ! p = (if even p then xs ! (p div 2) else ys ! (p div 2))"
proof (induction xs ys arbitrary: n p rule: interleave.induct)
  case (1 x xs y ys)
  consider "p = 0" | "p = 1" | p' where "p = Suc (Suc p')"
    by (metis One_nat_def not0_implies_Suc)
  then show ?case
    using 1 by cases auto
qed auto

lemma length_shuffle [simp]: "length X = 128 \<Longrightarrow> length (shuffle X) = 128"
  using length_interleave [of "take 64 X" 64 "drop 64 X"] by (simp add: shuffle_def)

lemma nth_shuffle: "length X = 128 \<Longrightarrow> p < 128 \<Longrightarrow> shuffle X ! p = X ! sigma_next p"
  using nth_interleave [of "take 64 X" 64 "drop 64 X" p]
  by (auto simp: shuffle_def sigma_next_def add.commute elim!: evenE oddE)

lemma nth_shuffle_pow:
  "g < 7 \<Longrightarrow> length X = 128 \<Longrightarrow> p < 128 \<Longrightarrow> (shuffle ^^ g) X ! p = X ! sigma g p"
proof (induction g arbitrary: X)
  case 0
  then show ?case by (simp add: sigma_0)
next
  case (Suc g)
  have "(shuffle ^^ Suc g) X ! p = (shuffle ^^ g) (shuffle X) ! p"
    by (simp add: funpow_swap1)
  also have "\<dots> = X ! sigma_next (sigma g p)"
    using Suc sigma_less [of g p] by (simp add: nth_shuffle)
  also have "sigma_next (sigma g p) = sigma (Suc g) p"
    using sigma_Suc [of g p] Suc.prems by simp
  finally show ?case .
qed

lemma length_jh_R_64: "length A = 64 \<Longrightarrow> length (jh_R C A) = 64"
proof -
  assume A: "length A = 64"
  have "length (jh_SL_spec C A) = 32 * 2"
    unfolding jh_SL_spec_def using A by (subst length_concat_map [where c = 2]) (auto split: prod.splits)
  then show ?thesis
    using length_jh_pi [of "jh_SL_spec C A" 16] length_jh_P' [of "jh_pi (jh_SL_spec C A)" 32]
      length_jh_phi [of "jh_P' (jh_pi (jh_SL_spec C A))" 8]
    by (simp add: jh_R_def jh_P_def)
qed

text \<open>What a run over the table establishes: the words of a round, position by position.\<close>

definition table_round :: "nat \<Rightarrow> nibble list \<Rightarrow> u64 list \<Rightarrow> bool" where
  "table_round g A ws \<longleftrightarrow> (\<forall>p < 128.
     (word_bits (ws ! 0) @ word_bits (ws ! 1)) ! p = nibble_bits A ! (2 * sigma g p) \<and>
     (word_bits (ws ! 2) @ word_bits (ws ! 3)) ! p = nibble_bits A ! (2 * sigma g p + 1))"

lemma not_mult_4: "Suc 0 \<noteq> 4 * n" "Suc (Suc 0) \<noteq> 4 * n" "Suc (Suc (Suc 0)) \<noteq> 4 * n"
  by presburger+

lemma const_run_rounds:
  "const_run g A ws = Some B \<Longrightarrow> length A = 64 \<Longrightarrow> g < 7 \<Longrightarrow> length ws = 4 * n \<Longrightarrow>
     B = (jh_R (replicate 64 False) ^^ n) A \<and>
     (\<forall>i < n. table_round ((g + i) mod 7) ((jh_R (replicate 64 False) ^^ i) A) (drop (4 * i) ws))"
proof (induction g A ws arbitrary: n rule: const_run.induct)
  case (1 g A w0 w1 w2 w3 ws)
  let ?R = "jh_R (replicate 64 False)"
  obtain m where n: "n = Suc m" and m: "length ws = 4 * m"
    using "1.prems"(4) by (cases n) auto
  have ok: "word_bits w0 @ word_bits w1 = (shuffle ^^ g) (evens A)"
    "word_bits w2 @ word_bits w3 = (shuffle ^^ g) (odds A)"
    and rec: "const_run (if g = 6 then 0 else g + 1) (?R A) ws = Some B"
    using "1.prems"(1) by (simp_all split: if_splits)
  have first: "table_round g A (w0 # w1 # w2 # w3 # ws)"
    unfolding table_round_def using ok "1.prems"(2,3) nth_evens_odds [of _ A] sigma_less [of g]
    by (simp add: nth_shuffle_pow)
  have g': "(if g = 6 then 0 else g + 1) = (g + 1) mod 7" using "1.prems"(3) by auto
  have IH: "B = (?R ^^ m) (?R A) \<and>
      (\<forall>i < m. table_round (((g + 1) mod 7 + i) mod 7) ((?R ^^ i) (?R A)) (drop (4 * i) ws))"
    using "1.IH" ok rec m "1.prems"(2) length_jh_R_64 unfolding g' by simp
  show ?case
  proof (intro conjI allI impI)
    show "B = (?R ^^ n) A" using IH by (simp add: n funpow_swap1)
    show "table_round ((g + i) mod 7) ((?R ^^ i) A) (drop (4 * i) (w0 # w1 # w2 # w3 # ws))" if "i < n" for i
    proof (cases i)
      case 0
      then show ?thesis using first "1.prems"(3) by simp
    next
      case (Suc j)
      then have "table_round (((g + 1) mod 7 + j) mod 7) ((?R ^^ j) (?R A)) (drop (4 * j) ws)"
        using IH that n by simp
      then show ?thesis by (simp add: Suc funpow_swap1 mod_add_left_eq drop_Cons')
    qed
  qed
qed (auto simp: not_mult_4)

lemma jh_const_at_step:
  assumes "k < 6"
  shows "const_run 0 (jh_const_at k) (take 28 (drop (28 * k) JH_C64_words)) = Some (jh_const_at (k + 1))"
proof -
  consider "k = 0" | "k = 1" | "k = 2" | "k = 3" | "k = 4" | "k = 5" using assms by linarith
  then show ?thesis
  proof cases
    case 1 then show ?thesis using const_run_0 by simp
  next
    case 2 then show ?thesis using const_run_1 by (simp add: numeral_2_eq_2)
  next
    case 3 then show ?thesis using const_run_2 by simp
  next
    case 4 then show ?thesis using const_run_3 by simp
  next
    case 5 then show ?thesis using const_run_4 by simp
  next
    case 6 then show ?thesis using const_run_5 by simp
  qed
qed

lemma length_JH_C64_words: "length JH_C64_words = 168"
  by (simp add: JH_C64_words_def)

lemma length_jh_const_nibbles: "length (jh_const_nibbles r) = 64"
  by (induction r) (simp_all add: jh_const_nibbles_def jh_C0_nibbles_def length_jh_R_64)

lemma jh_const_at_eq: "k \<le> 6 \<Longrightarrow> jh_const_at k = jh_const_nibbles (7 * k)"
proof (induction k)
  case 0
  then show ?case by (simp add: jh_const_nibbles_def jh_C0_nibbles_eval jh_const_at_def)
next
  case (Suc k)
  then have "jh_const_at (k + 1) = (jh_R (replicate 64 False) ^^ 7) (jh_const_nibbles (7 * k))"
    using const_run_rounds [OF jh_const_at_step [of k], of 7] length_jh_const_nibbles
    by (simp add: length_JH_C64_words)
  also have "\<dots> = (jh_R (replicate 64 False) ^^ (7 + 7 * k)) jh_C0_nibbles"
    by (simp only: jh_const_nibbles_def funpow_add comp_apply)
  finally show ?case by (simp add: jh_const_nibbles_def)
qed

lemma table_64:
  assumes "r < 42"
  shows "table_round (r mod 7) (jh_const_nibbles r) (drop (4 * r) JH_C64_words)"
proof -
  define k where "k = r div 7"
  define i where "i = r mod 7"
  have r: "r = 7 * k + i" and k: "k < 6" and i: "i < 7" using assms by (auto simp: k_def i_def)
  have "table_round i ((jh_R (replicate 64 False) ^^ i) (jh_const_nibbles (7 * k)))
      (drop (4 * i) (take 28 (drop (28 * k) JH_C64_words)))"
    using const_run_rounds [OF jh_const_at_step [OF k], of 7] k i length_jh_const_nibbles
    by (simp add: length_JH_C64_words jh_const_at_eq)
  moreover have "(jh_R (replicate 64 False) ^^ i) (jh_const_nibbles (7 * k)) = jh_const_nibbles r"
    by (simp only: r jh_const_nibbles_def funpow_add [of i] add.commute [of "7 * k"] comp_apply)
  moreover have "drop (4 * i) (take 28 (drop (28 * k) JH_C64_words)) = take (28 - 4 * i) (drop (4 * r) JH_C64_words)"
    by (simp add: r drop_take add.commute)
  ultimately show ?thesis
    using i by (simp add: table_round_def i_def [symmetric])
qed


section \<open>The table of 64-bit words\<close>

lemma bit_C64e: "n < 64 \<Longrightarrow> bit (C64e w) (byte_flip n) = bit w (63 - n)"
proof -
  have "list_all (\<lambda>n. bit (C64e w) (byte_flip n) = bit w (63 - n)) [0..<64]"
    by (simp add: upt_64 C64e_def byte_flip_def bit_simps bit_beyond numeral_2_eq_2 [symmetric])
  then show "n < 64 \<Longrightarrow> ?thesis" by (simp add: list_all_iff)
qed

lemma bit_C32e: "n < 32 \<Longrightarrow> bit (C32e w) (byte_flip n) = bit w (31 - n)"
proof -
  have "list_all (\<lambda>n. bit (C32e w) (byte_flip n) = bit w (31 - n)) [0..<32]"
    by (simp add: upt_32 C32e_def byte_flip_def bit_simps bit_beyond numeral_2_eq_2 [symmetric])
  then show "n < 32 \<Longrightarrow> ?thesis" by (simp add: list_all_iff)
qed

text \<open>A position of a round in the table: bit \<open>63 - p mod 64\<close> of one of two words.\<close>

lemma table_bit:
  assumes "r < 42" "p < 128"
  shows "bit (JH_C64_words ! (4 * r + p div 64)) (63 - p mod 64) = jh_const r ! (2 * sigma (r mod 7) p)"
    and "bit (JH_C64_words ! (4 * r + 2 + p div 64)) (63 - p mod 64) = jh_const r ! (2 * sigma (r mod 7) p + 1)"
proof -
  have wb: "(word_bits a @ word_bits b) ! p = bit (if p div 64 = 0 then a else b) (63 - p mod 64)" for a b
  proof (cases "p < 64")
    case True
    then show ?thesis by (simp add: word_bits_def nth_append)
  next
    case False
    define q where "q = p - 64"
    have p: "p = 64 + q" "q < 64" using False assms(2) by (simp_all add: q_def)
    have d: "(64 + q) div 64 = 1" "(64 + q) mod 64 = q" using p(2) by (simp_all add: div_add_self1)
    show ?thesis unfolding p(1) d using p(2) by (simp add: word_bits_def nth_append)
  qed
  define c where "c = p div 64"
  define m where "m = 63 - p mod 64"
  have "c < 2" using assms(2) by (simp add: c_def)
  then have c: "c = 0 \<or> c = 1" by (rule less_2_cases)
  have "4 * r + 3 < length JH_C64_words" using assms(1) by (simp add: length_JH_C64_words)
  moreover note table_64 [OF assms(1), unfolded table_round_def, rule_format, OF assms(2),
    unfolded wb, folded c_def m_def]
  ultimately have "bit (JH_C64_words ! (4 * r + c)) m = jh_const r ! (2 * sigma (r mod 7) p) \<and>
      bit (JH_C64_words ! (4 * r + 2 + c)) m = jh_const r ! (2 * sigma (r mod 7) p + 1)"
    using c by (elim disjE) (simp_all add: jh_const_def numeral_2_eq_2 numeral_3_eq_3)
  then show "bit (JH_C64_words ! (4 * r + p div 64)) (63 - p mod 64) = jh_const r ! (2 * sigma (r mod 7) p)"
    and "bit (JH_C64_words ! (4 * r + 2 + p div 64)) (63 - p mod 64) = jh_const r ! (2 * sigma (r mod 7) p + 1)"
    by (simp_all add: c_def m_def)
qed

section \<open>The table of 32-bit words\<close>

lemma JH_C32_words_eq:
  "JH_C32_words = concat (map (\<lambda>w. [ucast (drop_bit 32 w), ucast w]) JH_C64_words)"
  unfolding JH_C32_words_def JH_C64_words_def by simp

lemma nth_JH_C32_words:
  assumes "i < 336"
  shows "JH_C32_words ! i = (if even i then ucast (drop_bit 32 (JH_C64_words ! (i div 2))) else ucast (JH_C64_words ! (i div 2)))"
proof -
  have "JH_C64_words = map ((!) JH_C64_words) [0..<168]"
    using map_nth [of JH_C64_words] by (simp add: length_JH_C64_words)
  then have *: "JH_C32_words = concat (map (\<lambda>i. [ucast (drop_bit 32 (JH_C64_words ! i)), ucast (JH_C64_words ! i)]) [0..<168])"
    unfolding JH_C32_words_eq by (metis (no_types, lifting) map_map comp_apply map_eq_conv)
  have "JH_C32_words ! i = [ucast (drop_bit 32 (JH_C64_words ! (i div 2))), ucast (JH_C64_words ! (i div 2))] ! (i mod 2)"
    unfolding * using assms by (intro nth_concat_map) simp_all
  then show ?thesis by (auto elim!: evenE oddE)
qed

section \<open>The two variants provide the interface\<close>

lemma jh_wide_slices: "jh_slices jh_wide_ops"
proof
  fix r p :: nat
  assume r: "r < 42" and p: "p < 128"
  have c: "p div 64 < 2" and m: "p mod 64 < 64" using p by simp_all
  have "4 * r + p div 64 < 168" "4 * r + 2 + p div 64 < 168" using r c by simp_all
  then show "rbit (Ceven jh_wide_ops r) p = jh_const r ! (2 * sigma (r mod 7) p) \<and>
      rbit (Codd jh_wide_ops r) p = jh_const r ! (2 * sigma (r mod 7) p + 1)"
    using table_bit [OF r p] c
    by (simp add: rbit_def Ceven_def Codd_def jh_wide_ops_def JH_C64_def length_JH_C64_words bit_C64e [OF m]
        del: div_less_iff_less_mult)
qed (simp_all add: jh_wide_ops_def rbit_W_wide bit_sph_dec64le sph_enc64le_map)

lemma jh_narrow_slices: "jh_slices jh_narrow_ops"
proof
  fix r p :: nat
  assume r: "r < 42" and p: "p < 128"
  define c where "c = p div 32"
  define m where "m = p mod 32"
  have c: "c < 4" and m: "m < 32" using p by (simp_all add: c_def m_def)
  have pc: "p div 64 = c div 2" "p mod 64 = 32 * (c mod 2) + m"
    using div_mult2_eq [of p 32 2] mod_mult2_eq [of p 32 2] by (simp_all add: c_def m_def)
  have idx: "8 * r + c < 336" "8 * r + 4 + c < 336" using r c by simp_all
  have half: "(8 * r + c) div 2 = 4 * r + c div 2" "(8 * r + 4 + c) div 2 = 4 * r + 2 + c div 2"
    "even (8 * r + c) = even c" "even (8 * r + 4 + c) = even c"
    by simp_all
  have w: "bit (if even c then ucast (drop_bit 32 w) else ucast w :: u32) (31 - m) = bit w (63 - (32 * (c mod 2) + m))"
    for w :: u64
    using m by (auto simp: bit_simps odd_iff_mod_2_eq_one)
  have len: "length JH_C32_words = 336" by (simp add: JH_C32_words_def)
  show "rbit (Ceven jh_narrow_ops r) p = jh_const r ! (2 * sigma (r mod 7) p) \<and>
      rbit (Codd jh_narrow_ops r) p = jh_const r ! (2 * sigma (r mod 7) p + 1)"
    using table_bit [OF r p, unfolded pc] c idx
    by (simp add: rbit_def Ceven_def Codd_def jh_narrow_ops_def JH_C32_def len c_def [symmetric] m_def [symmetric]
        bit_C32e [OF m] nth_JH_C32_words half w)
qed (simp_all add: jh_narrow_ops_def rbit_W_narrow bit_sph_dec32le sph_enc32le_map)

lemma jh_narrow64_slices: "jh_slices jh_narrow64_ops"
proof
  fix r p :: nat
  assume "r < 42" and "p < 128"
  then show "rbit (Ceven jh_narrow64_ops r) p = jh_const r ! (2 * sigma (r mod 7) p) \<and>
      rbit (Codd jh_narrow64_ops r) p = jh_const r ! (2 * sigma (r mod 7) p + 1)"
    using jh_slices.slice_C [OF jh_narrow_slices]
    by (simp add: Ceven_def Codd_def jh_narrow_ops_def jh_narrow64_ops_def)
qed (simp_all add: jh_narrow64_ops_def rbit_W_narrow bit_sph_dec32le sph_enc32le_map)

interpretation jh_wide: jh_slices jh_wide_ops
  by (rule jh_wide_slices)

interpretation jh_narrow: jh_slices jh_narrow_ops
  by (rule jh_narrow_slices)

interpretation jh_narrow64: jh_slices jh_narrow64_ops
  by (rule jh_narrow64_slices)

end
