(* ===== verification/Jh_IV.thy ===== *)
theory Jh_IV
  imports Jh_Table
begin

text \<open>
  The initial values of \<open>jh.c\<close> are those of the specification: the compression function applied
  to the output size. The 42 rounds are run in the simplifier on the 4-bit elements, together
  with the rounds that make the constants, and the result is compared with the tables.
\<close>

section \<open>The round as list recursion\<close>

text \<open>A name for the sum of elements, so that its table can be used in place of its arithmetic.\<close>

definition nibble_xor :: "nibble \<Rightarrow> nibble \<Rightarrow> nibble" where
  "nibble_xor a b = a XOR b"

definition jh_L_right :: "nibble \<Rightarrow> nibble \<Rightarrow> nibble" where
  "jh_L_right x y = nibble_xor y (jh_mul2 x)"

definition jh_L_left :: "nibble \<Rightarrow> nibble \<Rightarrow> nibble" where
  "jh_L_left x y = nibble_xor x (jh_mul2 (jh_L_right x y))"

lemma jh_L_spec_parts: "jh_L_spec x y = (jh_L_left x y, jh_L_right x y)"
  by (simp add: jh_L_spec_def jh_L_left_def jh_L_right_def nibble_xor_def Let_def)

fun jh_SL_list :: "bool list \<Rightarrow> nibble list \<Rightarrow> nibble list" where
  "jh_SL_list (c0 # c1 # C) (a # b # A) =
     jh_L_left (jh_sbox c0 a) (jh_sbox c1 b) # jh_L_right (jh_sbox c0 a) (jh_sbox c1 b) # jh_SL_list C A"
| "jh_SL_list _ _ = []"

fun jh_P_first :: "'a list \<Rightarrow> 'a list" where
  "jh_P_first (a # b # c # d # A) = a # d # jh_P_first A"
| "jh_P_first _ = []"

fun jh_P_second :: "'a list \<Rightarrow> 'a list" where
  "jh_P_second (a # b # c # d # A) = c # b # jh_P_second A"
| "jh_P_second _ = []"

definition jh_P_list :: "'a list \<Rightarrow> 'a list" where
  "jh_P_list A = jh_P_first A @ jh_P_second A"

lemma jh_SL_list_nth:
  "length C = 2 * m \<Longrightarrow> length A = 2 * m \<Longrightarrow> length (jh_SL_list C A) = 2 * m \<and> (\<forall>t < m.
     (jh_SL_list C A ! (2 * t), jh_SL_list C A ! (2 * t + 1)) =
     jh_L_spec (jh_sbox (C ! (2 * t)) (A ! (2 * t))) (jh_sbox (C ! (2 * t + 1)) (A ! (2 * t + 1))))"
proof (induction C A arbitrary: m rule: jh_SL_list.induct)
  case (1 c0 c1 C a b A)
  then obtain k where m: "m = Suc k" by (cases m) auto
  have IH: "length (jh_SL_list C A) = 2 * k \<and> (\<forall>t < k.
      (jh_SL_list C A ! (2 * t), jh_SL_list C A ! (2 * t + 1)) =
      jh_L_spec (jh_sbox (C ! (2 * t)) (A ! (2 * t))) (jh_sbox (C ! (2 * t + 1)) (A ! (2 * t + 1))))"
    using 1 m by simp
  show ?case
  proof (intro conjI allI impI)
    show "length (jh_SL_list (c0 # c1 # C) (a # b # A)) = 2 * m" using IH m by simp
    fix t assume "t < m"
    then show "(jh_SL_list (c0 # c1 # C) (a # b # A) ! (2 * t), jh_SL_list (c0 # c1 # C) (a # b # A) ! (2 * t + 1)) =
        jh_L_spec (jh_sbox ((c0 # c1 # C) ! (2 * t)) ((a # b # A) ! (2 * t)))
          (jh_sbox ((c0 # c1 # C) ! (2 * t + 1)) ((a # b # A) ! (2 * t + 1)))"
      using IH m by (cases t) (simp_all add: jh_L_spec_parts)
  qed
qed (auto simp: length_Suc_conv dest: sym)

lemma jh_SL_list_eq:
  assumes "length C = 256" "length A = 256"
  shows "jh_SL_spec C A = jh_SL_list C A"
proof (rule nth_equalityI)
  note l = jh_SL_list_nth [of C 128 A]
  show len: "length (jh_SL_spec C A) = length (jh_SL_list C A)"
    using assms l by (simp add: length_jh_SL_spec)
  fix k assume "k < length (jh_SL_spec C A)"
  then have k: "k div 2 < 128" using assms by (simp add: length_jh_SL_spec)
  have "(jh_SL_spec C A ! (2 * (k div 2)), jh_SL_spec C A ! (2 * (k div 2) + 1)) =
      (jh_SL_list C A ! (2 * (k div 2)), jh_SL_list C A ! (2 * (k div 2) + 1))"
    using l assms k nth_jh_SL_spec [OF assms(2) k, of C] by simp
  then show "jh_SL_spec C A ! k = jh_SL_list C A ! k"
    by (cases "even k") (auto elim!: evenE oddE)
qed

lemma jh_P_lists:
  "length A = 4 * m \<Longrightarrow> length (jh_P_first A) = 2 * m \<and> length (jh_P_second A) = 2 * m \<and>
     (\<forall>i < m. jh_P_first A ! (2 * i) = A ! (4 * i) \<and> jh_P_first A ! (2 * i + 1) = A ! (4 * i + 3) \<and>
       jh_P_second A ! (2 * i) = A ! (4 * i + 2) \<and> jh_P_second A ! (2 * i + 1) = A ! (4 * i + 1))"
proof (induction A arbitrary: m rule: jh_P_first.induct)
  case (1 a b c d A)
  then obtain k where m: "m = Suc k" by (cases m) auto
  with 1 have IH: "length (jh_P_first A) = 2 * k \<and> length (jh_P_second A) = 2 * k \<and>
     (\<forall>i < k. jh_P_first A ! (2 * i) = A ! (4 * i) \<and> jh_P_first A ! (2 * i + 1) = A ! (4 * i + 3) \<and>
       jh_P_second A ! (2 * i) = A ! (4 * i + 2) \<and> jh_P_second A ! (2 * i + 1) = A ! (4 * i + 1))"
    by simp
  show ?case
  proof (intro conjI allI impI)
    show "length (jh_P_first (a # b # c # d # A)) = 2 * m" "length (jh_P_second (a # b # c # d # A)) = 2 * m"
      using IH m by simp_all
    fix i assume i: "i < m"
    show "jh_P_first (a # b # c # d # A) ! (2 * i) = (a # b # c # d # A) ! (4 * i)"
      "jh_P_first (a # b # c # d # A) ! (2 * i + 1) = (a # b # c # d # A) ! (4 * i + 3)"
      "jh_P_second (a # b # c # d # A) ! (2 * i) = (a # b # c # d # A) ! (4 * i + 2)"
      "jh_P_second (a # b # c # d # A) ! (2 * i + 1) = (a # b # c # d # A) ! (4 * i + 1)"
      using IH m i by (cases i; simp add: numeral_3_eq_3 numeral_2_eq_2; fail)+
  qed
qed (auto simp: not_mult_4)

lemma jh_P_list_eq:
  assumes "length A = 256"
  shows "jh_P A = jh_P_list A"
  unfolding jh_P_list_def
proof (rule nth_equalityI)
  have A4: "length A = 4 * 64" using assms by simp
  note l = jh_P_lists [OF A4]
  show "length (jh_P A) = length (jh_P_first A @ jh_P_second A)"
    using assms l by (simp add: length_jh_P)
  fix k assume "k < length (jh_P A)"
  then have k: "k < 256" using assms by (simp add: length_jh_P)
  consider i where "k = 2 * i" "i < 64" | i where "k = 2 * i + 1" "i < 64"
    | i where "k = 128 + 2 * i" "i < 64" | i where "k = 129 + 2 * i" "i < 64"
  proof (cases "k < 128"; cases "even k")
    assume "k < 128" "even k" then show ?thesis using that(1) by (auto elim!: evenE)
  next
    assume "k < 128" "odd k" then show ?thesis using that(2) by (auto elim!: oddE)
  next
    assume a: "\<not> k < 128" "even k"
    define j where "j = k - 128"
    have "k = 128 + j" "even j" "j < 128" using a k by (auto simp: j_def)
    then show ?thesis using that(3) by (auto elim!: evenE)
  next
    assume a: "\<not> k < 128" "odd k"
    define j where "j = k - 128"
    have "k = 128 + j" "odd j" "j < 128" using a k by (auto simp: j_def)
    then show ?thesis using that(4) by (auto elim!: oddE)
  qed
  then show "jh_P A ! k = (jh_P_first A @ jh_P_second A) ! k"
  proof cases
    case 1
    then show ?thesis
      using l nth_jh_P(1) [OF assms, of k] nth_jh_pi(1) [OF A4, of i] by (simp add: nth_append)
  next
    case 2
    then show ?thesis
      using l nth_jh_P(1) [OF assms, of k] nth_jh_pi(3) [OF A4, of i] by (simp add: nth_append)
  next
    case 3
    then show ?thesis
      using l nth_jh_P(2) [OF assms, of k i] nth_jh_pi(4) [OF A4, of i] by (simp add: nth_append)
  next
    case 4
    then show ?thesis
      using l nth_jh_P(3) [OF assms, of k i] nth_jh_pi(2) [OF A4, of i] by (simp add: nth_append)
  qed
qed

section \<open>The rounds on lists\<close>

text \<open>The run carries the elements of the constant of the next round and those of the state.\<close>

fun E8_run :: "nat list \<Rightarrow> nibble list \<Rightarrow> nibble list \<Rightarrow> nibble list" where
  "E8_run [] C A = A"
| "E8_run (r # rs) C A = E8_run rs (jh_R (replicate 64 False) C)
     (jh_P_list (jh_SL_list (nibble_bits C) A))"

lemma length_nibble_bits: "length (nibble_bits C) = 4 * length C"
  by (induction C) (simp_all add: nibble_bits_def)

lemma E8_run_eq:
  "length A = 256 \<Longrightarrow> fold (\<lambda>r. jh_R (jh_const r)) [k..<k + n] A = E8_run [k..<k + n] (jh_const_nibbles k) A"
proof (induction n arbitrary: k A)
  case (Suc n)
  have r: "jh_R (jh_const k) A = jh_P_list (jh_SL_list (nibble_bits (jh_const_nibbles k)) A)"
    using Suc.prems
    by (simp add: jh_R_def jh_const_def jh_P_list_eq length_jh_SL_spec
        jh_SL_list_eq [symmetric] length_nibble_bits length_jh_const_nibbles)
  have "length (jh_R (jh_const k) A) = 256"
    using Suc.prems by (simp add: jh_R_def length_jh_P length_jh_SL_spec)
  moreover have "[k..<k + Suc n] = k # [Suc k..<Suc k + n]" by (simp add: upt_conv_Cons)
  moreover have "jh_const_nibbles (Suc k) = jh_R (replicate 64 False) (jh_const_nibbles k)"
    by (simp add: jh_const_nibbles_def)
  ultimately show ?case
    using Suc.IH [of "jh_R (jh_const k) A" "Suc k"] by (simp only: fold_Cons comp_apply E8_run.simps r)
qed simp

fun every_other :: "'a list \<Rightarrow> 'a list" where
  "every_other (a # b # A) = a # every_other A"
| "every_other _ = []"

lemma every_other_nth:
  "length A = 2 * m \<Longrightarrow> map (\<lambda>i. f (A ! (2 * i))) [0..<m] = map f (every_other A) \<and>
     map (\<lambda>i. f (A ! (2 * i + 1))) [0..<m] = map f (every_other (tl A @ [z]))"
proof (induction A arbitrary: m rule: every_other.induct)
  case (1 a b A)
  then obtain k where m: "m = Suc k" by (cases m) auto
  have u: "[0..<Suc k] = 0 # map Suc [0..<k]" by (simp add: upt_conv_Cons map_Suc_upt)
  have "map (\<lambda>i. f (A ! (2 * i))) [0..<k] = map f (every_other A)"
    "map (\<lambda>i. f (A ! (2 * i + 1))) [0..<k] = map f (every_other (tl A @ [z]))"
    using 1 m by simp_all
  moreover have "every_other (b # A @ [z]) = b # every_other (tl A @ [z])"
    using "1.prems" by (cases A) simp_all
  ultimately show ?case by (simp add: m u comp_def del: upt_Suc)
qed (auto simp: length_Suc_conv dest: sym)

definition E8_result :: "nibble list \<Rightarrow> bool list" where
  "E8_result A =
     map (\<lambda>x. bit x 3) (every_other A) @ map (\<lambda>x. bit x 3) (every_other (tl A @ [0])) @
     map (\<lambda>x. bit x 2) (every_other A) @ map (\<lambda>x. bit x 2) (every_other (tl A @ [0])) @
     map (\<lambda>x. bit x 1) (every_other A) @ map (\<lambda>x. bit x 1) (every_other (tl A @ [0])) @
     map (\<lambda>x. bit x 0) (every_other A) @ map (\<lambda>x. bit x 0) (every_other (tl A @ [0]))"

lemma degroup_result: "length A = 256 \<Longrightarrow> jh_degroup A = E8_result A"
  using every_other_nth [of A 128 "\<lambda>x. bit x j" 0 for j]
  by (simp add: jh_degroup_def E8_result_def Let_def)

section \<open>The output size as a state\<close>

definition size_nibbles :: "nat \<Rightarrow> nibble list" where
  "size_nibbles d = concat (map (\<lambda>b. [if b then 8 else 0, 0]) (bits_be 16 d)) @ replicate 224 0"

lemma group_size: "jh_group (bits_be 16 d @ replicate 1008 False) = size_nibbles d"
proof -
  have b: "(bits_be 16 d @ replicate 1008 False) ! k = (k < 16 \<and> bits_be 16 d ! k)" if "k < 1024" for k
    using that by (auto simp: nth_append bits_be_def)
  have "jh_group (bits_be 16 d @ replicate 1008 False) =
      concat (map (\<lambda>i. [if i < 16 \<and> bits_be 16 d ! i then 8 else 0, 0]) [0..<128])"
    unfolding jh_group_def by (intro arg_cong [where f = concat] map_cong refl) (auto simp: b mk_nibble_eval)
  also have "[0..<128] = [0..<16] @ [16..<128]" by (simp add: upt_add_eq_append [of 0 16 112, simplified])
  also have "concat (map (\<lambda>i. [if i < 16 \<and> bits_be 16 d ! i then 8 else 0 :: nibble, 0]) ([0..<16] @ [16..<128])) =
      concat (map (\<lambda>i. [if bits_be 16 d ! i then 8 else 0, 0]) [0..<16]) @ concat (map (\<lambda>i. [0, 0]) [16..<128])"
    unfolding map_append concat_append
    by (intro arg_cong2 [where f = "(@)"] arg_cong [where f = concat]; rule nth_equalityI; simp)
  also have "concat (map (\<lambda>i. [0, 0 :: nibble]) [16..<128]) = replicate 224 0"
    by (simp add: numeral_eq_Suc)
  also have "map (\<lambda>i. [if bits_be 16 d ! i then 8 else 0 :: nibble, 0]) [0..<16] =
      map (\<lambda>b. [if b then 8 else 0, 0]) (bits_be 16 d)"
    by (rule nth_equalityI) (simp_all add: bits_be_def)
  finally show ?thesis by (simp add: size_nibbles_def)
qed

lemma map2_False: "length xs = n \<Longrightarrow> map2 (\<noteq>) xs (replicate n False) = xs"
  by (rule nth_equalityI) simp_all

lemma length_size_nibbles: "length (size_nibbles d) = 256"
proof -
  have "length (bits_be 16 d) = 16" by (simp add: bits_be_def)
  then show ?thesis by (simp add: size_nibbles_def length_concat comp_def sum_list_triv)
qed

lemma length_E8_rounds: "length A = 256 \<Longrightarrow> length (fold (\<lambda>r. jh_R (jh_const r)) rs A) = 256"
  by (induction rs arbitrary: A) (simp_all add: jh_R_def length_jh_P length_jh_SL_spec)

lemma jh_IV_spec_run: "jh_IV_spec d = E8_result (E8_run [0..<42] jh_C0_nibbles (size_nibbles d))"
proof -
  let ?A = "fold (\<lambda>r. jh_R (jh_const r)) [0..<42] (size_nibbles d)"
  have "length (bits_be 16 d) = 16" by (simp add: bits_be_def)
  then have "map2 (\<noteq>) (take 512 (bits_be 16 d @ replicate 1008 False)) (replicate 512 False) @
      drop 512 (bits_be 16 d @ replicate 1008 False) = bits_be 16 d @ replicate 1008 False"
    by (subst map2_False) (simp_all add: replicate_add [symmetric])
  then have "jh_IV_spec d = take 512 (jh_degroup ?A) @ map2 (\<noteq>) (drop 512 (jh_degroup ?A)) (replicate 512 False)"
    by (simp add: jh_IV_spec_def F8_spec_def E8_spec_def group_size Let_def del: take_append)
  also have "\<dots> = jh_degroup ?A"
    by (subst map2_False) (simp_all add: jh_degroup_def)
  also have "\<dots> = E8_result ?A"
    by (intro degroup_result length_E8_rounds length_size_nibbles)
  also have "?A = E8_run [0..<42] jh_C0_nibbles (size_nibbles d)"
    using E8_run_eq [of "size_nibbles d" 0 42] by (simp add: length_size_nibbles jh_const_nibbles_def)
  finally show ?thesis .
qed

section \<open>Evaluation\<close>

lemma jh_sbox_False:
  "jh_sbox False 0 = 9" "jh_sbox False 1 = 0" "jh_sbox False 2 = 4" "jh_sbox False 3 = 11"
  "jh_sbox False 4 = 13" "jh_sbox False 5 = 12" "jh_sbox False 6 = 3" "jh_sbox False 7 = 15"
  "jh_sbox False 8 = 1" "jh_sbox False 9 = 10" "jh_sbox False 10 = 2" "jh_sbox False 11 = 6"
  "jh_sbox False 12 = 7" "jh_sbox False 13 = 5" "jh_sbox False 14 = 8" "jh_sbox False 15 = 14"
  by (simp_all add: jh_sbox_def jh_S0_def)

lemma jh_sbox_True:
  "jh_sbox True 0 = 3" "jh_sbox True 1 = 12" "jh_sbox True 2 = 6" "jh_sbox True 3 = 13"
  "jh_sbox True 4 = 5" "jh_sbox True 5 = 7" "jh_sbox True 6 = 1" "jh_sbox True 7 = 9"
  "jh_sbox True 8 = 15" "jh_sbox True 9 = 2" "jh_sbox True 10 = 0" "jh_sbox True 11 = 4"
  "jh_sbox True 12 = 11" "jh_sbox True 13 = 10" "jh_sbox True 14 = 14" "jh_sbox True 15 = 8"
  by (simp_all add: jh_sbox_def jh_S1_def)

lemma jh_mul2_table:
  "jh_mul2 0 = 0" "jh_mul2 1 = 2" "jh_mul2 2 = 4" "jh_mul2 3 = 6"
  "jh_mul2 4 = 8" "jh_mul2 5 = 10" "jh_mul2 6 = 12" "jh_mul2 7 = 14"
  "jh_mul2 8 = 3" "jh_mul2 9 = 1" "jh_mul2 10 = 7" "jh_mul2 11 = 5"
  "jh_mul2 12 = 11" "jh_mul2 13 = 9" "jh_mul2 14 = 15" "jh_mul2 15 = 13"
  by (simp_all add: jh_mul2_def)

lemma jh_c0_d0:
  "jh_c0 a b = jh_L_left (jh_sbox False a) (jh_sbox False b)"
  "jh_d0 a b = jh_L_right (jh_sbox False a) (jh_sbox False b)"
  by (simp_all add: jh_c0_def jh_d0_def jh_L_spec_parts)

lemma nibble_xor_table:
  "nibble_xor 0 0 = 0" "nibble_xor 0 1 = 1" "nibble_xor 0 2 = 2" "nibble_xor 0 3 = 3"
  "nibble_xor 0 4 = 4" "nibble_xor 0 5 = 5" "nibble_xor 0 6 = 6" "nibble_xor 0 7 = 7"
  "nibble_xor 0 8 = 8" "nibble_xor 0 9 = 9" "nibble_xor 0 10 = 10" "nibble_xor 0 11 = 11"
  "nibble_xor 0 12 = 12" "nibble_xor 0 13 = 13" "nibble_xor 0 14 = 14" "nibble_xor 0 15 = 15"
  "nibble_xor 1 0 = 1" "nibble_xor 1 1 = 0" "nibble_xor 1 2 = 3" "nibble_xor 1 3 = 2"
  "nibble_xor 1 4 = 5" "nibble_xor 1 5 = 4" "nibble_xor 1 6 = 7" "nibble_xor 1 7 = 6"
  "nibble_xor 1 8 = 9" "nibble_xor 1 9 = 8" "nibble_xor 1 10 = 11" "nibble_xor 1 11 = 10"
  "nibble_xor 1 12 = 13" "nibble_xor 1 13 = 12" "nibble_xor 1 14 = 15" "nibble_xor 1 15 = 14"
  "nibble_xor 2 0 = 2" "nibble_xor 2 1 = 3" "nibble_xor 2 2 = 0" "nibble_xor 2 3 = 1"
  "nibble_xor 2 4 = 6" "nibble_xor 2 5 = 7" "nibble_xor 2 6 = 4" "nibble_xor 2 7 = 5"
  "nibble_xor 2 8 = 10" "nibble_xor 2 9 = 11" "nibble_xor 2 10 = 8" "nibble_xor 2 11 = 9"
  "nibble_xor 2 12 = 14" "nibble_xor 2 13 = 15" "nibble_xor 2 14 = 12" "nibble_xor 2 15 = 13"
  "nibble_xor 3 0 = 3" "nibble_xor 3 1 = 2" "nibble_xor 3 2 = 1" "nibble_xor 3 3 = 0"
  "nibble_xor 3 4 = 7" "nibble_xor 3 5 = 6" "nibble_xor 3 6 = 5" "nibble_xor 3 7 = 4"
  "nibble_xor 3 8 = 11" "nibble_xor 3 9 = 10" "nibble_xor 3 10 = 9" "nibble_xor 3 11 = 8"
  "nibble_xor 3 12 = 15" "nibble_xor 3 13 = 14" "nibble_xor 3 14 = 13" "nibble_xor 3 15 = 12"
  "nibble_xor 4 0 = 4" "nibble_xor 4 1 = 5" "nibble_xor 4 2 = 6" "nibble_xor 4 3 = 7"
  "nibble_xor 4 4 = 0" "nibble_xor 4 5 = 1" "nibble_xor 4 6 = 2" "nibble_xor 4 7 = 3"
  "nibble_xor 4 8 = 12" "nibble_xor 4 9 = 13" "nibble_xor 4 10 = 14" "nibble_xor 4 11 = 15"
  "nibble_xor 4 12 = 8" "nibble_xor 4 13 = 9" "nibble_xor 4 14 = 10" "nibble_xor 4 15 = 11"
  "nibble_xor 5 0 = 5" "nibble_xor 5 1 = 4" "nibble_xor 5 2 = 7" "nibble_xor 5 3 = 6"
  "nibble_xor 5 4 = 1" "nibble_xor 5 5 = 0" "nibble_xor 5 6 = 3" "nibble_xor 5 7 = 2"
  "nibble_xor 5 8 = 13" "nibble_xor 5 9 = 12" "nibble_xor 5 10 = 15" "nibble_xor 5 11 = 14"
  "nibble_xor 5 12 = 9" "nibble_xor 5 13 = 8" "nibble_xor 5 14 = 11" "nibble_xor 5 15 = 10"
  "nibble_xor 6 0 = 6" "nibble_xor 6 1 = 7" "nibble_xor 6 2 = 4" "nibble_xor 6 3 = 5"
  "nibble_xor 6 4 = 2" "nibble_xor 6 5 = 3" "nibble_xor 6 6 = 0" "nibble_xor 6 7 = 1"
  "nibble_xor 6 8 = 14" "nibble_xor 6 9 = 15" "nibble_xor 6 10 = 12" "nibble_xor 6 11 = 13"
  "nibble_xor 6 12 = 10" "nibble_xor 6 13 = 11" "nibble_xor 6 14 = 8" "nibble_xor 6 15 = 9"
  "nibble_xor 7 0 = 7" "nibble_xor 7 1 = 6" "nibble_xor 7 2 = 5" "nibble_xor 7 3 = 4"
  "nibble_xor 7 4 = 3" "nibble_xor 7 5 = 2" "nibble_xor 7 6 = 1" "nibble_xor 7 7 = 0"
  "nibble_xor 7 8 = 15" "nibble_xor 7 9 = 14" "nibble_xor 7 10 = 13" "nibble_xor 7 11 = 12"
  "nibble_xor 7 12 = 11" "nibble_xor 7 13 = 10" "nibble_xor 7 14 = 9" "nibble_xor 7 15 = 8"
  "nibble_xor 8 0 = 8" "nibble_xor 8 1 = 9" "nibble_xor 8 2 = 10" "nibble_xor 8 3 = 11"
  "nibble_xor 8 4 = 12" "nibble_xor 8 5 = 13" "nibble_xor 8 6 = 14" "nibble_xor 8 7 = 15"
  "nibble_xor 8 8 = 0" "nibble_xor 8 9 = 1" "nibble_xor 8 10 = 2" "nibble_xor 8 11 = 3"
  "nibble_xor 8 12 = 4" "nibble_xor 8 13 = 5" "nibble_xor 8 14 = 6" "nibble_xor 8 15 = 7"
  "nibble_xor 9 0 = 9" "nibble_xor 9 1 = 8" "nibble_xor 9 2 = 11" "nibble_xor 9 3 = 10"
  "nibble_xor 9 4 = 13" "nibble_xor 9 5 = 12" "nibble_xor 9 6 = 15" "nibble_xor 9 7 = 14"
  "nibble_xor 9 8 = 1" "nibble_xor 9 9 = 0" "nibble_xor 9 10 = 3" "nibble_xor 9 11 = 2"
  "nibble_xor 9 12 = 5" "nibble_xor 9 13 = 4" "nibble_xor 9 14 = 7" "nibble_xor 9 15 = 6"
  "nibble_xor 10 0 = 10" "nibble_xor 10 1 = 11" "nibble_xor 10 2 = 8" "nibble_xor 10 3 = 9"
  "nibble_xor 10 4 = 14" "nibble_xor 10 5 = 15" "nibble_xor 10 6 = 12" "nibble_xor 10 7 = 13"
  "nibble_xor 10 8 = 2" "nibble_xor 10 9 = 3" "nibble_xor 10 10 = 0" "nibble_xor 10 11 = 1"
  "nibble_xor 10 12 = 6" "nibble_xor 10 13 = 7" "nibble_xor 10 14 = 4" "nibble_xor 10 15 = 5"
  "nibble_xor 11 0 = 11" "nibble_xor 11 1 = 10" "nibble_xor 11 2 = 9" "nibble_xor 11 3 = 8"
  "nibble_xor 11 4 = 15" "nibble_xor 11 5 = 14" "nibble_xor 11 6 = 13" "nibble_xor 11 7 = 12"
  "nibble_xor 11 8 = 3" "nibble_xor 11 9 = 2" "nibble_xor 11 10 = 1" "nibble_xor 11 11 = 0"
  "nibble_xor 11 12 = 7" "nibble_xor 11 13 = 6" "nibble_xor 11 14 = 5" "nibble_xor 11 15 = 4"
  "nibble_xor 12 0 = 12" "nibble_xor 12 1 = 13" "nibble_xor 12 2 = 14" "nibble_xor 12 3 = 15"
  "nibble_xor 12 4 = 8" "nibble_xor 12 5 = 9" "nibble_xor 12 6 = 10" "nibble_xor 12 7 = 11"
  "nibble_xor 12 8 = 4" "nibble_xor 12 9 = 5" "nibble_xor 12 10 = 6" "nibble_xor 12 11 = 7"
  "nibble_xor 12 12 = 0" "nibble_xor 12 13 = 1" "nibble_xor 12 14 = 2" "nibble_xor 12 15 = 3"
  "nibble_xor 13 0 = 13" "nibble_xor 13 1 = 12" "nibble_xor 13 2 = 15" "nibble_xor 13 3 = 14"
  "nibble_xor 13 4 = 9" "nibble_xor 13 5 = 8" "nibble_xor 13 6 = 11" "nibble_xor 13 7 = 10"
  "nibble_xor 13 8 = 5" "nibble_xor 13 9 = 4" "nibble_xor 13 10 = 7" "nibble_xor 13 11 = 6"
  "nibble_xor 13 12 = 1" "nibble_xor 13 13 = 0" "nibble_xor 13 14 = 3" "nibble_xor 13 15 = 2"
  "nibble_xor 14 0 = 14" "nibble_xor 14 1 = 15" "nibble_xor 14 2 = 12" "nibble_xor 14 3 = 13"
  "nibble_xor 14 4 = 10" "nibble_xor 14 5 = 11" "nibble_xor 14 6 = 8" "nibble_xor 14 7 = 9"
  "nibble_xor 14 8 = 6" "nibble_xor 14 9 = 7" "nibble_xor 14 10 = 4" "nibble_xor 14 11 = 5"
  "nibble_xor 14 12 = 2" "nibble_xor 14 13 = 3" "nibble_xor 14 14 = 0" "nibble_xor 14 15 = 1"
  "nibble_xor 15 0 = 15" "nibble_xor 15 1 = 14" "nibble_xor 15 2 = 13" "nibble_xor 15 3 = 12"
  "nibble_xor 15 4 = 11" "nibble_xor 15 5 = 10" "nibble_xor 15 6 = 9" "nibble_xor 15 7 = 8"
  "nibble_xor 15 8 = 7" "nibble_xor 15 9 = 6" "nibble_xor 15 10 = 5" "nibble_xor 15 11 = 4"
  "nibble_xor 15 12 = 3" "nibble_xor 15 13 = 2" "nibble_xor 15 14 = 1" "nibble_xor 15 15 = 0"
  by (simp_all add: nibble_xor_def)

lemmas run_eval = nibble_xor_table jh_sbox_False jh_sbox_True jh_mul2_table jh_c0_d0 jh_R_def jh_SL_spec_64 jh_P_64
  jh_L_left_def jh_L_right_def jh_P_list_def nibble_bits_def

lemma replicate_224: "replicate 224 x =
    [x, x, x, x, x, x, x, x, x, x, x, x, x, x, x, x, x, x, x, x, x, x, x, x, x, x, x, x, x, x, x, x,
     x, x, x, x, x, x, x, x, x, x, x, x, x, x, x, x, x, x, x, x, x, x, x, x, x, x, x, x, x, x, x, x,
     x, x, x, x, x, x, x, x, x, x, x, x, x, x, x, x, x, x, x, x, x, x, x, x, x, x, x, x, x, x, x, x,
     x, x, x, x, x, x, x, x, x, x, x, x, x, x, x, x, x, x, x, x, x, x, x, x, x, x, x, x, x, x, x, x,
     x, x, x, x, x, x, x, x, x, x, x, x, x, x, x, x, x, x, x, x, x, x, x, x, x, x, x, x, x, x, x, x,
     x, x, x, x, x, x, x, x, x, x, x, x, x, x, x, x, x, x, x, x, x, x, x, x, x, x, x, x, x, x, x, x,
     x, x, x, x, x, x, x, x, x, x, x, x, x, x, x, x, x, x, x, x, x, x, x, x, x, x, x, x, x, x, x, x]"
  by (simp add: numeral_eq_Suc)

lemma size_bits:
  "bits_be 16 224 = [False, False, False, False, False, False, False, False, True, True, True, False, False, False, False, False]"
  "bits_be 16 256 = [False, False, False, False, False, False, False, True, False, False, False, False, False, False, False, False]"
  "bits_be 16 384 = [False, False, False, False, False, False, False, True, True, False, False, False, False, False, False, False]"
  "bits_be 16 512 = [False, False, False, False, False, False, True, False, False, False, False, False, False, False, False, False]"
  by (simp_all add: bits_be_def upt_16 bit_0 [of "Suc 0"])

lemma size_nibbles_eval:
  "size_nibbles 224 =
     [0, 0, 0, 0, 0, 0, 0, 0, 0, 0, 0, 0, 0, 0, 0, 0, 8, 0, 8, 0, 8, 0, 0, 0, 0, 0, 0, 0, 0, 0, 0, 0,
      0, 0, 0, 0, 0, 0, 0, 0, 0, 0, 0, 0, 0, 0, 0, 0, 0, 0, 0, 0, 0, 0, 0, 0, 0, 0, 0, 0, 0, 0, 0, 0,
      0, 0, 0, 0, 0, 0, 0, 0, 0, 0, 0, 0, 0, 0, 0, 0, 0, 0, 0, 0, 0, 0, 0, 0, 0, 0, 0, 0, 0, 0, 0, 0,
      0, 0, 0, 0, 0, 0, 0, 0, 0, 0, 0, 0, 0, 0, 0, 0, 0, 0, 0, 0, 0, 0, 0, 0, 0, 0, 0, 0, 0, 0, 0, 0,
      0, 0, 0, 0, 0, 0, 0, 0, 0, 0, 0, 0, 0, 0, 0, 0, 0, 0, 0, 0, 0, 0, 0, 0, 0, 0, 0, 0, 0, 0, 0, 0,
      0, 0, 0, 0, 0, 0, 0, 0, 0, 0, 0, 0, 0, 0, 0, 0, 0, 0, 0, 0, 0, 0, 0, 0, 0, 0, 0, 0, 0, 0, 0, 0,
      0, 0, 0, 0, 0, 0, 0, 0, 0, 0, 0, 0, 0, 0, 0, 0, 0, 0, 0, 0, 0, 0, 0, 0, 0, 0, 0, 0, 0, 0, 0, 0,
      0, 0, 0, 0, 0, 0, 0, 0, 0, 0, 0, 0, 0, 0, 0, 0, 0, 0, 0, 0, 0, 0, 0, 0, 0, 0, 0, 0, 0, 0, 0, 0]"
  "size_nibbles 256 =
     [0, 0, 0, 0, 0, 0, 0, 0, 0, 0, 0, 0, 0, 0, 8, 0, 0, 0, 0, 0, 0, 0, 0, 0, 0, 0, 0, 0, 0, 0, 0, 0,
      0, 0, 0, 0, 0, 0, 0, 0, 0, 0, 0, 0, 0, 0, 0, 0, 0, 0, 0, 0, 0, 0, 0, 0, 0, 0, 0, 0, 0, 0, 0, 0,
      0, 0, 0, 0, 0, 0, 0, 0, 0, 0, 0, 0, 0, 0, 0, 0, 0, 0, 0, 0, 0, 0, 0, 0, 0, 0, 0, 0, 0, 0, 0, 0,
      0, 0, 0, 0, 0, 0, 0, 0, 0, 0, 0, 0, 0, 0, 0, 0, 0, 0, 0, 0, 0, 0, 0, 0, 0, 0, 0, 0, 0, 0, 0, 0,
      0, 0, 0, 0, 0, 0, 0, 0, 0, 0, 0, 0, 0, 0, 0, 0, 0, 0, 0, 0, 0, 0, 0, 0, 0, 0, 0, 0, 0, 0, 0, 0,
      0, 0, 0, 0, 0, 0, 0, 0, 0, 0, 0, 0, 0, 0, 0, 0, 0, 0, 0, 0, 0, 0, 0, 0, 0, 0, 0, 0, 0, 0, 0, 0,
      0, 0, 0, 0, 0, 0, 0, 0, 0, 0, 0, 0, 0, 0, 0, 0, 0, 0, 0, 0, 0, 0, 0, 0, 0, 0, 0, 0, 0, 0, 0, 0,
      0, 0, 0, 0, 0, 0, 0, 0, 0, 0, 0, 0, 0, 0, 0, 0, 0, 0, 0, 0, 0, 0, 0, 0, 0, 0, 0, 0, 0, 0, 0, 0]"
  "size_nibbles 384 =
     [0, 0, 0, 0, 0, 0, 0, 0, 0, 0, 0, 0, 0, 0, 8, 0, 8, 0, 0, 0, 0, 0, 0, 0, 0, 0, 0, 0, 0, 0, 0, 0,
      0, 0, 0, 0, 0, 0, 0, 0, 0, 0, 0, 0, 0, 0, 0, 0, 0, 0, 0, 0, 0, 0, 0, 0, 0, 0, 0, 0, 0, 0, 0, 0,
      0, 0, 0, 0, 0, 0, 0, 0, 0, 0, 0, 0, 0, 0, 0, 0, 0, 0, 0, 0, 0, 0, 0, 0, 0, 0, 0, 0, 0, 0, 0, 0,
      0, 0, 0, 0, 0, 0, 0, 0, 0, 0, 0, 0, 0, 0, 0, 0, 0, 0, 0, 0, 0, 0, 0, 0, 0, 0, 0, 0, 0, 0, 0, 0,
      0, 0, 0, 0, 0, 0, 0, 0, 0, 0, 0, 0, 0, 0, 0, 0, 0, 0, 0, 0, 0, 0, 0, 0, 0, 0, 0, 0, 0, 0, 0, 0,
      0, 0, 0, 0, 0, 0, 0, 0, 0, 0, 0, 0, 0, 0, 0, 0, 0, 0, 0, 0, 0, 0, 0, 0, 0, 0, 0, 0, 0, 0, 0, 0,
      0, 0, 0, 0, 0, 0, 0, 0, 0, 0, 0, 0, 0, 0, 0, 0, 0, 0, 0, 0, 0, 0, 0, 0, 0, 0, 0, 0, 0, 0, 0, 0,
      0, 0, 0, 0, 0, 0, 0, 0, 0, 0, 0, 0, 0, 0, 0, 0, 0, 0, 0, 0, 0, 0, 0, 0, 0, 0, 0, 0, 0, 0, 0, 0]"
  "size_nibbles 512 =
     [0, 0, 0, 0, 0, 0, 0, 0, 0, 0, 0, 0, 8, 0, 0, 0, 0, 0, 0, 0, 0, 0, 0, 0, 0, 0, 0, 0, 0, 0, 0, 0,
      0, 0, 0, 0, 0, 0, 0, 0, 0, 0, 0, 0, 0, 0, 0, 0, 0, 0, 0, 0, 0, 0, 0, 0, 0, 0, 0, 0, 0, 0, 0, 0,
      0, 0, 0, 0, 0, 0, 0, 0, 0, 0, 0, 0, 0, 0, 0, 0, 0, 0, 0, 0, 0, 0, 0, 0, 0, 0, 0, 0, 0, 0, 0, 0,
      0, 0, 0, 0, 0, 0, 0, 0, 0, 0, 0, 0, 0, 0, 0, 0, 0, 0, 0, 0, 0, 0, 0, 0, 0, 0, 0, 0, 0, 0, 0, 0,
      0, 0, 0, 0, 0, 0, 0, 0, 0, 0, 0, 0, 0, 0, 0, 0, 0, 0, 0, 0, 0, 0, 0, 0, 0, 0, 0, 0, 0, 0, 0, 0,
      0, 0, 0, 0, 0, 0, 0, 0, 0, 0, 0, 0, 0, 0, 0, 0, 0, 0, 0, 0, 0, 0, 0, 0, 0, 0, 0, 0, 0, 0, 0, 0,
      0, 0, 0, 0, 0, 0, 0, 0, 0, 0, 0, 0, 0, 0, 0, 0, 0, 0, 0, 0, 0, 0, 0, 0, 0, 0, 0, 0, 0, 0, 0, 0,
      0, 0, 0, 0, 0, 0, 0, 0, 0, 0, 0, 0, 0, 0, 0, 0, 0, 0, 0, 0, 0, 0, 0, 0, 0, 0, 0, 0, 0, 0, 0, 0]"
  by (simp_all add: size_nibbles_def size_bits replicate_224)

text \<open>The tables \<open>IV224\<close> to \<open>IV512\<close> as they are written in the source.\<close>

lemma IV224_run: "E8_result (E8_run [0..<42] jh_C0_nibbles (size_nibbles 224)) = concat (map word_bits
    [0x2dfedd62f99a98ac, 0xae7cacd619d634e7, 0xa4831005bc301216, 0xb86038c6c9661494,
     0x66d9899f2580706f, 0xce9ea31b1d9b1adc, 0x11e8325f7b366e10, 0xf994857f02fa06c1,
     0x1b4f1b5cd8c840b3, 0x97f6a17f6e738099, 0xdcdf93a5adeaa3d3, 0xa431e8dec9539a68,
     0x22b4a98aec86a1e4, 0xd574ac959ce56cf0, 0x15960deab5ab2bbf, 0x9611dcf0dd64ea6e])"
  unfolding jh_C0_nibbles_eval size_nibbles_eval upt_42
  by (simp add: run_eval E8_result_def word_bits_numeral)

lemma IV256_run: "E8_result (E8_run [0..<42] jh_C0_nibbles (size_nibbles 256)) = concat (map word_bits
    [0xeb98a3412c20d3eb, 0x92cdbe7b9cb245c1, 0x1c93519160d4c7fa, 0x260082d67e508a03,
     0xa4239e267726b945, 0xe0fb1a48d41a9477, 0xcdb5ab26026b177a, 0x56f024420fff2fa8,
     0x71a396897f2e4d75, 0x1d144908f77de262, 0x277695f776248f94, 0x87d5b6574780296c,
     0x5c5e272dac8e0d6c, 0x518450c657057a0f, 0x7be4d367702412ea, 0x89e3ab13d31cd769])"
  unfolding jh_C0_nibbles_eval size_nibbles_eval upt_42
  by (simp add: run_eval E8_result_def word_bits_numeral)

lemma IV384_run: "E8_result (E8_run [0..<42] jh_C0_nibbles (size_nibbles 384)) = concat (map word_bits
    [0x481e3bc6d813398a, 0x6d3b5e894ade879b, 0x63faea68d480ad2e, 0x332ccb21480f8267,
     0x98aec84d9082b928, 0xd455ea3041114249, 0x36f555b2924847ec, 0xc7250a93baf43ce1,
     0x569b7f8a27db454c, 0x9efcbd496397af0e, 0x589fc27d26aa80cd, 0x80c08b8c9deb2eda,
     0x8a7981e8f8d5373a, 0xf43967adddd17a71, 0xa9b4d3bda475d394, 0x976c3fba9842737f])"
  unfolding jh_C0_nibbles_eval size_nibbles_eval upt_42
  by (simp add: run_eval E8_result_def word_bits_numeral)

lemma IV512_run: "E8_result (E8_run [0..<42] jh_C0_nibbles (size_nibbles 512)) = concat (map word_bits
    [0x6fd14b963e00aa17, 0x636a2e057a15d543, 0x8a225e8d0c97ef0b, 0xe9341259f2b3c361,
     0x891da0c1536f801e, 0x2aa9056bea2b6d80, 0x588eccdb2075baa6, 0xa90f3a76baf83bf7,
     0x0169e60541e34a69, 0x46b58a8e2e6fe65a, 0x1047a7d0c1843c24, 0x3b6e71b12d5ac199,
     0xcf57f6ec9db1f856, 0xa706887c5716b156, 0xe3c2fcdfe68517fb, 0x545a4678cc8cdd4b])"
  unfolding jh_C0_nibbles_eval size_nibbles_eval upt_42
  by (simp add: run_eval E8_result_def word_bits_numeral)

section \<open>The tables of initial values\<close>

definition word_bits32 :: "u32 \<Rightarrow> bool list" where
  "word_bits32 w = map (\<lambda>i. bit w (31 - i)) [0..<32]"

lemma msb_bits_C64e: "msb_bits (sph_enc64le (C64e w)) = word_bits w"
proof (rule nth_equalityI)
  fix k assume "k < length (msb_bits (sph_enc64le (C64e w)))"
  then have k: "k < 64" by simp
  have "msb_bits (sph_enc64le (C64e w)) ! k = bit (C64e w) (8 * (k div 8) + (7 - k mod 8))"
    using k jh_wide.bit_ENCE [of "k div 8" "7 - k mod 8" "C64e w"] by (simp add: nth_msb_bits jh_wide_ops_def)
  then show "msb_bits (sph_enc64le (C64e w)) ! k = word_bits w ! k"
    using k by (simp add: byte_flip_eq [symmetric] bit_C64e word_bits_def)
qed (simp add: word_bits_def)

lemma msb_bits_C32e: "msb_bits (sph_enc32le (C32e w)) = word_bits32 w"
proof (rule nth_equalityI)
  fix k assume "k < length (msb_bits (sph_enc32le (C32e w)))"
  then have k: "k < 32" by simp
  have "msb_bits (sph_enc32le (C32e w)) ! k = bit (C32e w) (8 * (k div 8) + (7 - k mod 8))"
    using k jh_narrow.bit_ENCE [of "k div 8" "7 - k mod 8" "C32e w"] by (simp add: nth_msb_bits jh_narrow_ops_def)
  then show "msb_bits (sph_enc32le (C32e w)) ! k = word_bits32 w ! k"
    using k by (simp add: byte_flip_eq [symmetric] bit_C32e word_bits32_def)
qed (simp add: word_bits32_def)

lemma word_bits_split: "word_bits32 (ucast (drop_bit 32 w)) @ word_bits32 (ucast w) = word_bits w"
proof (rule nth_equalityI)
  fix k assume "k < length (word_bits32 (ucast (drop_bit 32 w)) @ word_bits32 (ucast w))"
  then have "k < 64" by (simp add: word_bits32_def)
  then show "(word_bits32 (ucast (drop_bit 32 w)) @ word_bits32 (ucast w)) ! k = word_bits w ! k"
    by (auto simp: nth_append word_bits32_def word_bits_def bit_simps)
qed (simp add: word_bits32_def word_bits_def)

lemma msb_bits_words:
  "msb_bits (concat (map sph_enc64le (map C64e ws))) = concat (map word_bits ws)"
  "msb_bits (concat (map sph_enc32le (map C32e
     (concat (map (\<lambda>w. [ucast (drop_bit 32 w), ucast w]) ws))))) = concat (map word_bits ws)"
  by (induction ws) (simp_all add: msb_bits_C64e msb_bits_C32e word_bits_split [symmetric] del: append_assoc)

definition jh_iv_words :: "nat \<Rightarrow> u64 list" where
  "jh_iv_words d =
    (if d = 224 then
      [0x2dfedd62f99a98ac, 0xae7cacd619d634e7, 0xa4831005bc301216, 0xb86038c6c9661494,
       0x66d9899f2580706f, 0xce9ea31b1d9b1adc, 0x11e8325f7b366e10, 0xf994857f02fa06c1,
       0x1b4f1b5cd8c840b3, 0x97f6a17f6e738099, 0xdcdf93a5adeaa3d3, 0xa431e8dec9539a68,
       0x22b4a98aec86a1e4, 0xd574ac959ce56cf0, 0x15960deab5ab2bbf, 0x9611dcf0dd64ea6e]
     else if d = 256 then
      [0xeb98a3412c20d3eb, 0x92cdbe7b9cb245c1, 0x1c93519160d4c7fa, 0x260082d67e508a03,
       0xa4239e267726b945, 0xe0fb1a48d41a9477, 0xcdb5ab26026b177a, 0x56f024420fff2fa8,
       0x71a396897f2e4d75, 0x1d144908f77de262, 0x277695f776248f94, 0x87d5b6574780296c,
       0x5c5e272dac8e0d6c, 0x518450c657057a0f, 0x7be4d367702412ea, 0x89e3ab13d31cd769]
     else if d = 384 then
      [0x481e3bc6d813398a, 0x6d3b5e894ade879b, 0x63faea68d480ad2e, 0x332ccb21480f8267,
       0x98aec84d9082b928, 0xd455ea3041114249, 0x36f555b2924847ec, 0xc7250a93baf43ce1,
       0x569b7f8a27db454c, 0x9efcbd496397af0e, 0x589fc27d26aa80cd, 0x80c08b8c9deb2eda,
       0x8a7981e8f8d5373a, 0xf43967adddd17a71, 0xa9b4d3bda475d394, 0x976c3fba9842737f]
     else
      [0x6fd14b963e00aa17, 0x636a2e057a15d543, 0x8a225e8d0c97ef0b, 0xe9341259f2b3c361,
       0x891da0c1536f801e, 0x2aa9056bea2b6d80, 0x588eccdb2075baa6, 0xa90f3a76baf83bf7,
       0x0169e60541e34a69, 0x46b58a8e2e6fe65a, 0x1047a7d0c1843c24, 0x3b6e71b12d5ac199,
       0xcf57f6ec9db1f856, 0xa706887c5716b156, 0xe3c2fcdfe68517fb, 0x545a4678cc8cdd4b])"

lemma jh_iv_wide_words: "jh_iv_wide d = map C64e (jh_iv_words d)"
  by (simp add: jh_iv_wide_def jh_iv_words_def IV224_64_def IV256_64_def IV384_64_def IV512_64_def)

lemma jh_iv_narrow_words:
  "jh_iv_narrow d = map C32e (concat (map (\<lambda>w. [ucast (drop_bit 32 w), ucast w]) (jh_iv_words d)))"
  unfolding jh_iv_narrow_def jh_iv_words_def IV224_32_def IV256_32_def IV384_32_def IV512_32_def
  by (cases "d = 224"; cases "d = 256"; cases "d = 384"; simp only: if_True if_False refl;
      rule arg_cong [where f = "map C32e"]; simp)

definition jh_sizes :: "nat list" where
  "jh_sizes = [224, 256, 384, 512]"

lemma jh_iv_words_spec:
  assumes "d \<in> set jh_sizes"
  shows "concat (map word_bits (jh_iv_words d)) = jh_IV_spec d"
proof -
  have "d = 224 \<or> d = 256 \<or> d = 384 \<or> d = 512" using assms by (simp add: jh_sizes_def)
  then show ?thesis
  proof (elim disjE)
    assume "d = 224"
    then show ?thesis using IV224_run by (simp only: jh_IV_spec_run jh_iv_words_def) simp
  next
    assume "d = 256"
    then show ?thesis using IV256_run by (simp only: jh_IV_spec_run jh_iv_words_def) simp
  next
    assume "d = 384"
    then show ?thesis using IV384_run by (simp only: jh_IV_spec_run jh_iv_words_def) simp
  next
    assume "d = 512"
    then show ?thesis using IV512_run by (simp only: jh_IV_spec_run jh_iv_words_def) simp
  qed
qed

lemma jh_iv_state:
  assumes "d \<in> set jh_sizes"
  shows "jh_state jh_wide_ops (jh_iv_wide d) = jh_IV_spec d" and "jh_state jh_narrow_ops (jh_iv_narrow d) = jh_IV_spec d"
    and "length (jh_iv_wide d) = 16" and "length (jh_iv_narrow d) = 32"
proof -
  show "jh_state jh_wide_ops (jh_iv_wide d) = jh_IV_spec d" "jh_state jh_narrow_ops (jh_iv_narrow d) = jh_IV_spec d"
    unfolding jh_state_def jh_iv_wide_words jh_iv_narrow_words
      jh_iv_words_spec [OF assms, symmetric]
    using msb_bits_words [of "jh_iv_words d"] by (simp_all add: jh_wide_ops_def jh_narrow_ops_def)
  show "length (jh_iv_wide d) = 16" "length (jh_iv_narrow d) = 32"
    by (simp_all add: jh_iv_wide_words jh_iv_narrow_words jh_iv_words_def)
qed

end
