(* ===== verification/Jh_Hash.thy ===== *)
theory Jh_Hash
  imports Jh_IV
begin

text \<open>
  The streaming functions of \<open>jh.c\<close> and the digest they compute. The locale \<open>jh_variant\<close>
  adds to the bit-slicing interface what the streaming functions need of a variant: the table of
  initial values and the encoding of the block counter.
\<close>

section \<open>The padding of the specification\<close>

definition close_zeros :: "nat \<Rightarrow> nat \<Rightarrow> nat" where
  "close_zeros ptr n = (if ptr = 0 \<and> n = 0 then 47 else 111 - ptr)"

lemma close_bits:
  assumes n: "n < 8" and ptr: "ptr < 64"
  shows "msb_bits (last_byte ub n # replicate (close_zeros ptr n) 0) @ bits_be 128 (512 * N + 8 * ptr + n) =
    tail_bits ub n @ jh_pad (512 * N + 8 * ptr + n)"
    and "64 dvd ptr + (close_zeros ptr n + 17)"
proof -
  let ?l = "512 * N + 8 * ptr + n"
  have "(- int ?l) mod 512 = (if ptr = 0 \<and> n = 0 then 0 else 512 - int (8 * ptr + n))"
  proof -
    have "- int ?l = - int (8 * ptr + n) + 512 * (- int N)" by simp
    then have "(- int ?l) mod 512 = (- int (8 * ptr + n)) mod 512" by (simp only: mod_mult_self2)
    also have "\<dots> = (if ptr = 0 \<and> n = 0 then 0 else 512 - int (8 * ptr + n))"
    proof (cases "ptr = 0 \<and> n = 0")
      case False
      have "(- int (8 * ptr + n)) mod 512 = (512 - int (8 * ptr + n)) mod 512"
        using mod_add_self1 [of 512 "- int (8 * ptr + n)"] by simp
      also have "\<dots> = 512 - int (8 * ptr + n)"
        using False n ptr by (intro mod_pos_pos_trivial) auto
      finally show ?thesis using False by simp
    qed simp
    finally show ?thesis .
  qed
  then have z: "383 + nat ((- int ?l) mod 512) = (7 - n) + 8 * close_zeros ptr n"
    using n ptr by (auto simp: close_zeros_def)
  have "msb_bits (last_byte ub n # replicate (close_zeros ptr n) 0) =
      msb_bits [last_byte ub n] @ msb_bits (replicate (close_zeros ptr n) 0)"
    by simp
  also have "\<dots> = tail_bits ub n @ True # replicate (7 - n) False @ replicate (8 * close_zeros ptr n) False"
    by (simp only: msb_bits_last_byte [OF n] msb_bits_zeros) simp
  finally show "msb_bits (last_byte ub n # replicate (close_zeros ptr n) 0) @ bits_be 128 ?l =
      tail_bits ub n @ jh_pad ?l"
    unfolding jh_pad_def z by (simp add: replicate_add)
  show "64 dvd ptr + (close_zeros ptr n + 17)"
    using ptr by (auto simp: close_zeros_def)
qed

section \<open>What a variant provides\<close>

locale jh_variant = jh_slices ops
  for ops :: "('a::len word, 'n) jh_ops" +
  fixes iv :: "nat \<Rightarrow> 'a word list"
  assumes iv_state: "d \<in> set jh_sizes \<Longrightarrow> length (iv d) = 8 * JH_K ops \<and> jh_state ops (iv d) = jh_IV_spec d"
    and len_bits: "N < 2 ^ 64 \<Longrightarrow> ptr < 64 \<Longrightarrow> n < 8 \<Longrightarrow>
      length (ENC_LEN ops ((COUNT_INC ops ^^ N) (COUNT0 ops)) ptr n) = 16 \<and>
      msb_bits (ENC_LEN ops ((COUNT_INC ops ^^ N) (COUNT0 ops)) ptr n) = bits_be 128 (512 * N + 8 * ptr + n)"

section \<open>The block counter\<close>

lemma count_wide: "(COUNT_INC jh_wide_ops ^^ N) (COUNT0 jh_wide_ops) = of_nat N"
  by (induction N) (simp_all add: jh_wide_ops_def)

lemma bits_be_words:
  "bits_be 128 x = msb_bits (sph_enc64be (of_nat (x div 2 ^ 64)) @ sph_enc64be (of_nat x))"
proof -
  have e: "msb_bits (sph_enc64be w) = map (\<lambda>i. bit w (63 - i)) [0..<64]" for w
  proof (rule nth_equalityI)
    fix k assume "k < length (msb_bits (sph_enc64be w))"
    then have k: "k < 64" by simp
    then have d: "k div 8 < 8" "7 - k mod 8 < 8" by simp_all
    have "rev (sph_enc64le w) ! (k div 8) = sph_enc64le w ! (7 - k div 8)"
      using d by (simp add: rev_nth)
    then have "msb_bits (sph_enc64be w) ! k = bit w (8 * (7 - k div 8) + (7 - k mod 8))"
      using k d jh_wide.bit_ENCE [of "7 - k div 8" "7 - k mod 8" w]
      by (simp add: nth_msb_bits sph_enc64be_rev jh_wide_ops_def)
    also have "8 * (7 - k div 8) + (7 - k mod 8) = 63 - k"
      using d(1) mult_div_mod_eq [of 8 k] by linarith
    finally show "msb_bits (sph_enc64be w) ! k = map (\<lambda>i. bit w (63 - i)) [0..<64] ! k"
      using k by simp
  qed simp
  show ?thesis
  proof (rule nth_equalityI)
    fix k assume "k < length (bits_be 128 x)"
    then have k: "k < 128" by (simp add: bits_be_def)
    have "bit (of_nat y :: u64) i = bit y i" if "i < 64" for y i
      using that by (simp add: bit_simps)
    moreover have "bit (x div 2 ^ 64) j = bit x (64 + j)" for j
      by (simp only: drop_bit_eq_div [symmetric] bit_drop_bit_eq comp_apply)
    ultimately show "bits_be 128 x ! k = msb_bits (sph_enc64be (of_nat (x div 2 ^ 64)) @ sph_enc64be (of_nat x)) ! k"
      using k by (auto simp: bits_be_def e nth_append)
  qed (simp add: bits_be_def e)
qed

lemma nat_bit_less:
  fixes N :: nat
  assumes "N < 2 ^ m" "bit N j"
  shows "j < m"
proof -
  have "bit (take_bit m N) j" using assms by (simp add: take_bit_nat_eq_self)
  then show ?thesis by (simp add: bit_take_bit_iff)
qed

lemma drop_bit_of_nat:
  assumes "N < 2 ^ LENGTH('a)"
  shows "drop_bit k (of_nat N :: 'a::len word) = of_nat (drop_bit k N)"
  by (rule bit_word_eqI) (auto simp: bit_simps dest: nat_bit_less [OF assms])

lemma jh_len64_eq:
  assumes "N < 2 ^ 64" "ptr < 64" "n < 8"
  shows "jh_len64 (of_nat N) ptr n =
    sph_enc64be (of_nat ((512 * N + 8 * ptr + n) div 2 ^ 64)) @ sph_enc64be (of_nat (512 * N + 8 * ptr + n))"
proof -
  have "8 * ptr + n < 512" using assms by linarith
  have "(512 * N + 8 * ptr + n) div 2 ^ 64 = (512 * N + 8 * ptr + n) div 512 div 2 ^ 55"
    by (simp add: div_mult2_eq [symmetric])
  also have "(512 * N + 8 * ptr + n) div 512 = N" using \<open>8 * ptr + n < 512\<close> by simp
  finally have "drop_bit 55 (of_nat N :: u64) = of_nat ((512 * N + 8 * ptr + n) div 2 ^ 64)"
    using drop_bit_of_nat [of N 55, where 'a = 64] assms(1) by (simp add: drop_bit_eq_div)
  moreover have "push_bit 9 (of_nat N) + push_bit 3 (of_nat ptr) + of_nat n = (of_nat (512 * N + 8 * ptr + n) :: u64)"
    by (simp add: push_bit_eq_mult)
  ultimately show ?thesis by (simp add: jh_len64_def Let_def)
qed

text \<open>The two halves of the counter of the 32-bit build.\<close>

lemma count_narrow:
  "N < 2 ^ 64 \<Longrightarrow> (COUNT_INC jh_narrow_ops ^^ N) (COUNT0 jh_narrow_ops) = (of_nat (N div 2 ^ 32), of_nat N)"
proof (induction N)
  case 0
  then show ?case by (simp add: jh_narrow_ops_def)
next
  case (Suc N)
  have step: "(COUNT_INC jh_narrow_ops ^^ Suc N) (COUNT0 jh_narrow_ops) =
      jh_count_inc32 (of_nat (N div 2 ^ 32), of_nat N)"
    using Suc by (simp only: funpow.simps comp_apply Suc_lessD) (simp add: jh_narrow_ops_def)
  have z: "(of_nat N + 1 :: u32) = 0 \<longleftrightarrow> 2 ^ 32 dvd Suc N"
  proof -
    have "(of_nat (Suc N) :: u32) = 0 \<longleftrightarrow> 2 ^ 32 dvd Suc N"
      by (simp add: word_of_nat_eq_0_iff del: of_nat_Suc)
    then show ?thesis by (simp only: of_nat_Suc add.commute)
  qed
  have "Suc N div 2 ^ 32 = (if 2 ^ 32 dvd Suc N then Suc (N div 2 ^ 32) else N div 2 ^ 32)"
    by (simp only: div_Suc dvd_eq_mod_eq_0)
  then show ?case
    unfolding step jh_count_inc32_def prod.case Let_def z by (cases "2 ^ 32 dvd Suc N") (simp_all only: if_True if_False of_nat_Suc add.commute)
qed

text \<open>A number split into words of 32 bits.\<close>

lemma enc64be_split:
  "sph_enc64be (of_nat Y) = sph_enc32be (of_nat (Y div 2 ^ 32)) @ sph_enc32be (of_nat Y)"
proof -
  have s: "sph_enc64be w = sph_enc32be (ucast (drop_bit 32 w)) @ sph_enc32be (ucast w)" for w
    by (simp add: sph_enc64be_def sph_enc32be_def) (intro conjI bit_word_eqI; simp add: bit_simps)
  have "ucast (drop_bit 32 (of_nat Y :: u64)) = (of_nat (drop_bit 32 Y) :: u32)"
    "ucast (of_nat Y :: u64) = (of_nat Y :: u32)"
    by (auto intro!: bit_word_eqI simp: bit_simps)
  then show ?thesis unfolding s by (simp only: drop_bit_eq_div)
qed

lemma jh_len32_eq:
  assumes "N < 2 ^ 64" "ptr < 64" "n < 8"
  shows "jh_len32 (of_nat (N div 2 ^ 32), of_nat N) ptr n =
    sph_enc64be (of_nat ((512 * N + 8 * ptr + n) div 2 ^ 64)) @ sph_enc64be (of_nat (512 * N + 8 * ptr + n))"
proof -
  define X where "X = 512 * N + 8 * ptr + n"
  define q where "q = N div 2 ^ 32"
  define r where "r = N mod 2 ^ 32"
  have N: "N = 2 ^ 32 * q + r" and r: "r < 2 ^ 32" by (simp_all add: q_def r_def)
  have q: "q < 2 ^ 32" using assms(1) by (simp add: q_def div_less_iff_less_mult)
  have "8 * ptr + n < 512" using assms by linarith
  then have X9: "X div 2 ^ 9 = N" by (simp add: X_def)
  have "X div 2 ^ (9 + k) = N div 2 ^ k" for k
    unfolding power_add div_mult2_eq X9 by (rule refl)
  from this [of 23] this [of 55] this [of 87]
  have X: "X div 2 ^ 32 = N div 2 ^ 23" "X div 2 ^ 64 = N div 2 ^ 55" "X div 2 ^ 96 = N div 2 ^ 87"
    by (simp_all only: arith_simps)
  have "N div 2 ^ 87 = 0" using assms(1) by (intro div_less) simp
  then have l3: "X div 2 ^ 64 div 2 ^ 32 = 0" using X(3) by (simp add: div_mult2_eq [symmetric])
  have l0: "push_bit 9 (of_nat N) + push_bit 3 (of_nat ptr) + of_nat n = (of_nat X :: u32)"
    by (simp add: push_bit_eq_mult X_def)
  have "(of_nat (2 ^ 32) :: u32) = 0" by simp
  then have rN: "(of_nat N :: u32) = of_nat r" by (simp only: N of_nat_add of_nat_mult mult_zero_left add_0_left)
  have "N div 2 ^ 23 = 2 ^ 9 * q + r div 2 ^ 23"
  proof -
    have "N = 2 ^ 23 * (2 ^ 9 * q) + r" by (simp add: N)
    then show ?thesis by (simp only: div_mult_self4) simp
  qed
  then have l1: "drop_bit 23 (of_nat N) + push_bit 9 (of_nat q) = (of_nat (X div 2 ^ 32) :: u32)"
    using drop_bit_of_nat [of r 23, where 'a = 32] r unfolding X rN
    by (simp add: push_bit_eq_mult drop_bit_eq_div)
  have "N div 2 ^ 55 = q div 2 ^ 23"
    unfolding q_def div_mult2_eq [symmetric] by simp
  then have l2: "drop_bit 23 (of_nat q) = (of_nat (X div 2 ^ 64) :: u32)"
    using drop_bit_of_nat [of q 23, where 'a = 32] q unfolding X by (simp add: drop_bit_eq_div)
  show ?thesis
    unfolding X_def [symmetric] enc64be_split l3 jh_len32_def prod.case Let_def q_def [symmetric] l0 l1 l2 by simp
qed

section \<open>The three variants\<close>

lemma jh_wide_variant: "jh_variant jh_wide_ops jh_iv_wide"
proof (unfold_locales, goal_cases)
  case (1 d)
  then show ?case using jh_iv_state by (simp add: jh_wide_ops_def)
next
  case (2 N ptr n)
  then show ?case
    unfolding count_wide bits_be_words using jh_len64_eq [of N ptr n] by (simp add: jh_wide_ops_def)
qed

lemma jh_narrow_variant: "jh_variant jh_narrow_ops jh_iv_narrow"
proof (unfold_locales, goal_cases)
  case (1 d)
  then show ?case using jh_iv_state by (simp add: jh_narrow_ops_def)
next
  case (2 N ptr n)
  then show ?case
    unfolding count_narrow [OF 2(1)] bits_be_words using jh_len32_eq [of N ptr n] by (simp add: jh_narrow_ops_def)
qed

lemma jh_narrow64_variant: "jh_variant jh_narrow64_ops jh_iv_narrow"
proof (unfold_locales, goal_cases)
  case (1 d)
  then show ?case using jh_iv_state [of d]
    by (simp add: jh_narrow_ops_def jh_narrow64_ops_def jh_state_def JH_READ_STATE_def)
next
  case (2 N ptr n)
  have "(COUNT_INC jh_narrow64_ops ^^ N) (COUNT0 jh_narrow64_ops) = of_nat N"
    by (induction N) (simp_all add: jh_narrow64_ops_def)
  with 2 show ?case
    unfolding bits_be_words using jh_len64_eq [of N ptr n] by (simp add: jh_narrow64_ops_def)
qed

section \<open>The update functions\<close>

definition jh_absorb ::
  "('a::len word, 'n) jh_ops \<Rightarrow> 'a word list \<times> 'n \<Rightarrow> byte list \<Rightarrow> 'a word list \<times> 'n"
where
  "jh_absorb ops Hc b = (jh_step ops (fst Hc) b, COUNT_INC ops (snd Hc))"

lemma jh_block_stream:
  "block_stream 64 64 jh_buf (\<lambda>b. jh_buf_update (\<lambda>_. b)) jh_ptr (\<lambda>p. jh_ptr_update (\<lambda>_. p))
    (\<lambda>c. (jh_H c, jh_block_count c)) (jh_compress ops) (jh_absorb ops) (jh_core_loop ops) (jh_core ops)"
proof
  fix c p data
  show "jh_core_loop ops c p data =
      (if data = [] then Some (c, p)
       else let clen = min (size_sub 64 p) (length data)
         in Option.bind (memcpy (jh_buf c) p (take clen data)) (\<lambda>b.
            if p + clen = 64
            then jh_core_loop ops (jh_compress ops (c\<lparr>jh_buf := b\<rparr>)) 0 (drop clen data)
            else jh_core_loop ops (c\<lparr>jh_buf := b\<rparr>) (p + clen) (drop clen data)))"
    by (subst jh_core_loop.simps) (rule refl)
qed (simp_all add: jh_compress_def jh_absorb_def jh_step_def jh_core_def Let_def)

interpretation jh_blocks: block_stream 64 64 jh_buf "\<lambda>b. jh_buf_update (\<lambda>_. b)" jh_ptr
    "\<lambda>p. jh_ptr_update (\<lambda>_. p)" "\<lambda>c. (jh_H c, jh_block_count c)" "jh_compress ops" "jh_absorb ops"
    "jh_core_loop ops" "jh_core ops"
  for ops :: "('a::len word, 'n) jh_ops"
  by (rule jh_block_stream)

lemma foldl_jh_absorb:
  "foldl (jh_absorb ops) (H, c) bs = (foldl (jh_step ops) H bs, (COUNT_INC ops ^^ length bs) c)"
  by (induction bs arbitrary: H c) (simp_all add: jh_absorb_def funpow_swap1)

lemma foldl_map: "foldl f s (map g xs) = foldl (\<lambda>s x. f s (g x)) s xs"
  by (induction xs arbitrary: s) simp_all

section \<open>The digest\<close>

context jh_variant begin

lemma foldl_step_state:
  "length H = 8 * JH_K ops \<Longrightarrow> \<forall>b \<in> set bs. length b = 64 \<Longrightarrow>
     length (foldl (jh_step ops) H bs) = 8 * JH_K ops \<and>
     jh_state ops (foldl (jh_step ops) H bs) = foldl F8_spec (jh_state ops H) (map msb_bits bs)"
  by (induction bs arbitrary: H) (simp_all add: jh_step_F8)

text \<open>The bytes that the close function writes out, and the digest among them.\<close>

lemma output_bits:
  assumes "length H = 8 * JH_K ops"
  shows "length (concat (map (ENCE ops) (drop (4 * JH_K ops) H))) = 64"
    and "msb_bits (concat (map (ENCE ops) (drop (4 * JH_K ops) H))) = drop 512 (jh_state ops H)"
proof -
  have len: "length (concat (map (ENCE ops) xs)) = 16 div JH_K ops * length xs" for xs
    using length_concat_eq [of "map (ENCE ops) xs" "16 div JH_K ops"] by (simp add: length_ENCE)
  show "length (concat (map (ENCE ops) (drop (4 * JH_K ops) H))) = 64"
    unfolding len using assms word_bytes(2) by (simp add: algebra_simps)
  have "length (concat (map (ENCE ops) (take (4 * JH_K ops) H))) = 64"
    unfolding len using assms word_bytes(2) by (simp add: algebra_simps)
  moreover have "concat (map (ENCE ops) H) =
      concat (map (ENCE ops) (take (4 * JH_K ops) H)) @ concat (map (ENCE ops) (drop (4 * JH_K ops) H))"
    by (metis append_take_drop_id concat_append map_append)
  ultimately show "msb_bits (concat (map (ENCE ops) (drop (4 * JH_K ops) H))) = drop 512 (jh_state ops H)"
    by (simp add: jh_state_def)
qed

lemma close_digest:
  assumes d: "d \<in> set jh_sizes" and n: "n < 8" and tmp: "length tmp = 128" and c: "jh_blocks.ready c"
    and m: "length m < 2 ^ 70"
    and hist: "((jh_H c, jh_block_count c), jh_blocks.pending c) =
      absorb_blocks 64 (jh_absorb ops) (iv d, COUNT0 ops) m"
  shows "\<exists>c'. jh_close ops (d div 32) (iv d) tmp c ub n =
      Some (msb_bytes (jh_spec d (msb_bits m @ tail_bits ub n)), jh_init ops (iv d) c') \<and> length (jh_buf c') = 64"
proof -
  define N where "N = length m div 64"
  define p where "p = last_byte ub n # replicate (close_zeros (jh_ptr c) n) 0 @
    ENC_LEN ops (jh_block_count c) (jh_ptr c) n"
  have buf: "length (jh_buf c) = 64" and ptr: "jh_ptr c < 64"
    using c by (simp_all add: jh_blocks.ready_def)
  have pend: "jh_blocks.pending c = drop (64 * N) m"
    and cnt: "jh_block_count c = (COUNT_INC ops ^^ N) (COUNT0 ops)"
    using hist by (simp_all add: absorb_blocks_eq foldl_jh_absorb length_chunks N_def)
  then have "jh_ptr c = length (drop (64 * N) m)"
    using ptr buf by (metis jh_blocks.pending_def length_take less_imp_le_nat min.absorb2)
  then have l: "length m = 64 * N + jh_ptr c" by (simp add: N_def minus_mult_div_eq_mod)
  have "N < 2 ^ 64" using m by (simp add: N_def div_less_iff_less_mult)
  note lens = len_bits [OF this ptr n, folded cnt]
  have p: "length p = close_zeros (jh_ptr c) n + 17" using lens by (simp add: p_def)
  have cz: "close_zeros (jh_ptr c) n + 17 \<le> 128" using ptr by (simp add: close_zeros_def)
  have wr: "jh_close ops (d div 32) (iv d) tmp c ub n = Option.bind (jh_core ops c p) (\<lambda>sc.
      Option.bind (memcpy (p @ drop (17 + close_zeros (jh_ptr c) n) tmp) 0
        (concat (map (ENCE ops) (drop (4 * JH_K ops) (jh_H sc))))) (\<lambda>b.
      Option.bind (mem_read b (4 * (16 - d div 32)) (4 * (d div 32))) (\<lambda>dst.
      Some (dst, jh_init ops (iv d) sc))))"
  proof -
    have "(if jh_ptr c = 0 \<and> n = 0 then 47 else size_sub 111 (jh_ptr c)) = close_zeros (jh_ptr c) n"
      using ptr by (simp add: close_zeros_def)
    then show ?thesis
      unfolding jh_close_def using tmp cz lens by (simp add: p_def take_Cons' drop_Cons' Let_def)
  qed
  obtain sc where core: "jh_core ops c p = Some sc" and rd: "jh_blocks.ready sc"
    and st: "((jh_H sc, jh_block_count sc), jh_blocks.pending sc) =
      absorb_blocks 64 (jh_absorb ops) (iv d, COUNT0 ops) (m @ p)"
    using jh_blocks.core_refines [OF c, of ops p] absorb_blocks_append [of 64 "jh_absorb ops" "(iv d, COUNT0 ops)" m p]
      hist [symmetric] by auto
  have H: "jh_H sc = foldl (jh_step ops) (iv d) (chunks 64 (m @ p))"
    using st by (simp add: absorb_blocks_eq foldl_jh_absorb)
  have "\<forall>b \<in> set (chunks 64 (m @ p)). length b = 64" using set_chunks_length by blast
  note H_state = foldl_step_state [OF iv_state [OF d, THEN conjunct1] this, folded H]
  let ?M = "msb_bits m @ tail_bits ub n"
  have "msb_bits (m @ p) = ?M @ jh_pad (length ?M)"
    using close_bits(1) [OF n ptr, of ub N] lens l by (simp add: p_def algebra_simps)
  then have state: "jh_state ops (jh_H sc) = foldl F8_spec (jh_IV_spec d) (chunks 512 (?M @ jh_pad (length ?M)))"
    using H_state iv_state [OF d] by (simp add: chunks_msb_bits [of 64, simplified, symmetric])
  let ?out = "concat (map (ENCE ops) (drop (4 * JH_K ops) (jh_H sc)))"
  note out = output_bits [OF H_state [THEN conjunct1]]
  have w: "d div 32 \<le> 16" "32 * (d div 32) = d" using d by (auto simp: jh_sizes_def)
  have "msb_bits (drop (4 * (16 - d div 32)) ?out) = drop (512 - d) (drop 512 (jh_state ops (jh_H sc)))"
    unfolding msb_bits_drop out(2) using w by (simp add: diff_mult_distrib2)
  also have "\<dots> = jh_spec d ?M"
  proof -
    have "512 - d + 512 = 1024 - d" using d by (auto simp: jh_sizes_def)
    then show ?thesis by (simp only: drop_drop jh_spec_def state)
  qed
  finally have "drop (4 * (16 - d div 32)) ?out = msb_bytes (jh_spec d ?M)"
    by (metis msb_bytes_msb_bits)
  moreover have "length (drop (4 * (16 - d div 32)) ?out) = 4 * (d div 32)"
    using out(1) w by simp
  ultimately show ?thesis
    unfolding wr core using p cz tmp out(1) w rd
    by (intro exI [of _ sc]) (simp add: jh_blocks.ready_def)
qed

lemma jh_run_hash:
  assumes d: "d \<in> set jh_sizes" and buf: "length (jh_buf cc) = 64" and n: "n < 8" and tmp: "length tmp = 128"
    and m: "length (concat ds) < 2 ^ 70"
  shows "run_hash (jh_init ops (iv d)) (jh_core ops) (\<lambda>c. jh_close ops (d div 32) (iv d) tmp c ub n) cc ds =
    Some (msb_bytes (jh_spec d (msb_bits (concat ds) @ tail_bits ub n)))"
proof -
  let ?c = "jh_init ops (iv d) cc"
  have "jh_blocks.ready ?c" "jh_blocks.pending ?c = []"
    using buf by (simp_all add: jh_blocks.ready_def jh_blocks.pending_def jh_init_def)
  with jh_blocks.feed_refines [of ?c ops ds] obtain c
    where "feed (jh_core ops) ?c ds = Some c" "jh_blocks.ready c"
      "((jh_H c, jh_block_count c), jh_blocks.pending c) =
        absorb_blocks 64 (jh_absorb ops) (iv d, COUNT0 ops) (concat ds)"
    by (auto simp: jh_init_def)
  note c = this
  obtain c' where "jh_close ops (d div 32) (iv d) tmp c ub n =
      Some (msb_bytes (jh_spec d (msb_bits (concat ds) @ tail_bits ub n)), jh_init ops (iv d) c')"
    using close_digest [OF d n tmp c(2) m c(3), of ub] by blast
  with c(1) show ?thesis by (simp add: run_hash_def)
qed

end

interpretation jh_w: jh_variant jh_wide_ops jh_iv_wide
  by (rule jh_wide_variant)

interpretation jh_n: jh_variant jh_narrow_ops jh_iv_narrow
  by (rule jh_narrow_variant)

interpretation jh_n64: jh_variant jh_narrow64_ops jh_iv_narrow
  by (rule jh_narrow64_variant)

end
