(* ===== verification/Echo_Spec.thy ===== *)
theory Echo_Spec
  imports Jh_Spec
begin

text \<open>
  The hash function ECHO as its specification states it, on bytes: the AES round of FIPS 197
  with its S-box as inversion in the field of 256 elements followed by an affine map, the big
  state of 16 cells of 16 bytes, the padding of a bit string and the counter of message bits.
  It is written independently of the tables and the word arithmetic of \<open>src/src/echo.c\<close> and
  \<open>src/src/aes_helper.c\<close>. A message is a bit string, each byte from its most significant bit
  on, as for JH.
\<close>

section \<open>The AES round\<close>

text \<open>Multiplication by 2, and by any element, modulo \<open>x\<^sup>8 + x\<^sup>4 + x\<^sup>3 + x + 1\<close>.\<close>

definition gf_mul2 :: "byte \<Rightarrow> byte" where
  "gf_mul2 x = push_bit 1 x XOR (if bit x 7 then 0x1B else 0)"

definition gf_mul :: "byte \<Rightarrow> byte \<Rightarrow> byte" where
  "gf_mul x y = fold (\<lambda>i s. s XOR (if bit y i then (gf_mul2 ^^ i) x else 0)) [0, 1, 2, 3, 4, 5, 6, 7] 0"

definition aes_affine :: "byte \<Rightarrow> byte" where
  "aes_affine x = x XOR word_rotl 1 x XOR word_rotl 2 x XOR word_rotl 3 x XOR word_rotl 4 x XOR 0x63"

text \<open>
  The affine map at the inverse of \<open>x\<close>, where 0 counts as its own inverse: the first \<open>y\<close> with
  a product of 1, if there is one.
\<close>

definition gf_inv :: "byte \<Rightarrow> byte" where
  "gf_inv x = (case find (\<lambda>y. gf_mul x y = 1) (map of_nat [0..<256]) of None \<Rightarrow> 0 | Some y \<Rightarrow> y)"

definition aes_sbox :: "byte \<Rightarrow> byte" where
  "aes_sbox x = aes_affine (gf_inv x)"

text \<open>
  The four steps on the 16 bytes of a state, column by column. The same permutation moves the
  bytes of a state and the cells of the big state.
\<close>

definition shift_rows :: "'b list \<Rightarrow> 'b list" where
  "shift_rows B = map (\<lambda>i. B ! ((i + 4 * (i mod 4)) mod 16)) [0..<16]"

definition mix4 :: "('b \<Rightarrow> 'b \<Rightarrow> 'b) \<Rightarrow> ('b \<Rightarrow> 'b) \<Rightarrow> 'b list \<Rightarrow> 'b list" where
  "mix4 add dbl c = (let mul3 = (\<lambda>x. add (dbl x) x) in
     [add (add (dbl (c ! 0)) (mul3 (c ! 1))) (add (c ! 2) (c ! 3)),
      add (add (c ! 0) (dbl (c ! 1))) (add (mul3 (c ! 2)) (c ! 3)),
      add (add (c ! 0) (c ! 1)) (add (dbl (c ! 2)) (mul3 (c ! 3))),
      add (add (mul3 (c ! 0)) (c ! 1)) (add (c ! 2) (dbl (c ! 3)))])"

definition mix_columns :: "('b \<Rightarrow> 'b \<Rightarrow> 'b) \<Rightarrow> ('b \<Rightarrow> 'b) \<Rightarrow> 'b list \<Rightarrow> 'b list" where
  "mix_columns add dbl B = concat (map (\<lambda>j. mix4 add dbl (take 4 (drop (4 * j) B))) [0, 1, 2, 3])"

definition xor_bytes :: "byte list \<Rightarrow> byte list \<Rightarrow> byte list" where
  "xor_bytes = map2 (XOR)"

definition aes_round_spec :: "byte list \<Rightarrow> byte list \<Rightarrow> byte list" where
  "aes_round_spec B K = xor_bytes (mix_columns (XOR) gf_mul2 (shift_rows (map aes_sbox B))) K"

section \<open>The big state\<close>

text \<open>A number as a string of \<open>n\<close> bytes, the least significant first.\<close>

definition le_bytes :: "nat \<Rightarrow> nat \<Rightarrow> byte list" where
  "le_bytes n x = map (\<lambda>i. of_nat (x div 256 ^ i)) [0..<n]"

text \<open>
  The two AES rounds of a cell, the first with the running counter as its key and the second
  with the salt, which is zero.
\<close>

definition big_sub_words :: "nat \<Rightarrow> byte list list \<Rightarrow> byte list list" where
  "big_sub_words c S =
     map (\<lambda>i. aes_round_spec (aes_round_spec (S ! i) (le_bytes 16 (c + i))) (replicate 16 0)) [0..<16]"

definition big_round_spec :: "nat \<Rightarrow> byte list list \<Rightarrow> byte list list" where
  "big_round_spec c S = mix_columns xor_bytes (map gf_mul2) (shift_rows (big_sub_words c S))"

definition echo_rounds_spec :: "nat \<Rightarrow> nat \<Rightarrow> byte list list \<Rightarrow> byte list list" where
  "echo_rounds_spec r c S = fold (\<lambda>j. big_round_spec (c + 16 * j)) [0..<r] S"

text \<open>
  The compression function: \<open>V\<close> are the cells of the chaining value, \<open>M\<close> those of the block.
\<close>

definition echo_compress_spec :: "nat \<Rightarrow> nat \<Rightarrow> byte list list \<Rightarrow> byte list list \<Rightarrow> byte list list" where
  "echo_compress_spec r c V M =
     (let S = V @ M; W = echo_rounds_spec r c S; n = length V
      in map (\<lambda>i. fold (\<lambda>k x. xor_bytes x (xor_bytes (S ! (i + n * k)) (W ! (i + n * k))))
           [0..<16 div n] (replicate 16 0)) [0..<n])"

section \<open>The hash function\<close>

text \<open>For a digest of \<open>d\<close> bits: the cells of the chaining value and the number of rounds.\<close>

definition echo_rows :: "nat \<Rightarrow> nat" where
  "echo_rows d = (if d \<le> 256 then 4 else 8)"

definition echo_num_rounds :: "nat \<Rightarrow> nat" where
  "echo_num_rounds d = (if d \<le> 256 then 8 else 10)"

definition echo_block_bits :: "nat \<Rightarrow> nat" where
  "echo_block_bits d = 128 * (16 - echo_rows d)"

definition echo_pad :: "nat \<Rightarrow> nat \<Rightarrow> bool list" where
  "echo_pad d l = True # replicate (nat ((- int (l + 145)) mod int (echo_block_bits d))) False @
     msb_bits (le_bytes 2 d @ le_bytes 16 l)"

text \<open>
  The counter of block \<open>i\<close> of a message of \<open>l\<close> bits: the message bits up to the end of the
  block, or 0 for a block that holds none.
\<close>

definition echo_counter :: "nat \<Rightarrow> nat \<Rightarrow> nat \<Rightarrow> nat" where
  "echo_counter b l i = (if b * i < l then min (b * (i + 1)) l else 0)"

definition echo_spec :: "nat \<Rightarrow> bool list \<Rightarrow> byte list" where
  "echo_spec d M =
     (let b = echo_block_bits d; l = length M;
          blocks = chunks b (M @ echo_pad d l);
          V = foldl (\<lambda>V (i, B). echo_compress_spec (echo_num_rounds d) (echo_counter b l i) V (chunks 16 (msb_bytes B)))
            (replicate (echo_rows d) (le_bytes 16 d)) (enumerate 0 blocks)
      in take (d div 8) (concat V))"

section \<open>Lemmas\<close>

lemma length_le_bytes [simp]: "length (le_bytes n x) = n"
  by (simp add: le_bytes_def)

lemma length_xor_bytes [simp]: "length (xor_bytes x y) = min (length x) (length y)"
  by (simp add: xor_bytes_def)

lemma length_shift_rows [simp]: "length (shift_rows B) = 16"
  by (simp add: shift_rows_def)

lemma length_mix4 [simp]: "length (mix4 add dbl c) = 4"
  by (simp add: mix4_def Let_def)

lemma length_mix_columns [simp]: "length (mix_columns add dbl B) = 16"
  by (simp add: mix_columns_def)

lemma length_aes_round_spec [simp]: "length K = 16 \<Longrightarrow> length (aes_round_spec B K) = 16"
  by (simp add: aes_round_spec_def)

lemma length_big_round_spec [simp]: "length (big_round_spec c S) = 16"
  by (simp add: big_round_spec_def)

lemma nth_mix_columns:
  "j < 4 \<Longrightarrow> k < 4 \<Longrightarrow> mix_columns add dbl B ! (4 * j + k) = mix4 add dbl (take 4 (drop (4 * j) B)) ! k"
  by (auto simp: mix_columns_def less_Suc_eq numeral_eq_Suc mix4_def Let_def nth_append)

end
