(* ===== verification/Aes_Field.thy ===== *)
theory Aes_Field
  imports Echo_Spec Aes_Helper
begin

text \<open>
  The tables of \<open>aes_helper.c\<close> are \<open>SubBytes\<close> followed by \<open>MixColumns\<close>. The inverses in the
  field of 256 elements are computed once, in the table \<open>inv_bytes\<close>; that they are the only
  ones follows from the associativity of the multiplication.
\<close>

section \<open>Multiplication in the field\<close>

lemma gf_mul2_XOR: "gf_mul2 (x XOR y) = gf_mul2 x XOR gf_mul2 y"
  by (rule bit_word_eqI) (auto simp: gf_mul2_def bit_simps simp del: bit_numeral_word_iff)

lemma gf_mul2_0 [simp]: "gf_mul2 0 = 0"
  by (simp add: gf_mul2_def)

lemma gf_mul2_pow_XOR: "(gf_mul2 ^^ i) (x XOR y) = (gf_mul2 ^^ i) x XOR (gf_mul2 ^^ i) y"
  by (induction i) (simp_all add: gf_mul2_XOR)

lemma gf_mul2_pow_0 [simp]: "(gf_mul2 ^^ i) 0 = 0"
  by (induction i) simp_all

text \<open>The product as a recursion over the bits of the second factor.\<close>

fun gf_run :: "bool list \<Rightarrow> byte \<Rightarrow> byte" where
  "gf_run [] x = 0"
| "gf_run (b # bs) x = (if b then x else 0) XOR gf_run bs (gf_mul2 x)"

lemma gf_mul_run: "gf_mul x y = gf_run (map (bit y) [0, 1, 2, 3, 4, 5, 6, 7]) x"
  by (simp add: gf_mul_def numeral_eq_Suc xor.assoc)

lemma gf_run_mul2: "gf_run bs (gf_mul2 x) = gf_mul2 (gf_run bs x)"
  by (induction bs arbitrary: x) (simp_all add: gf_mul2_XOR)

lemma gf_run_XOR: "length bs = length cs \<Longrightarrow> gf_run (map2 (\<noteq>) bs cs) x = gf_run bs x XOR gf_run cs x"
  by (induction bs cs arbitrary: x rule: list_induct2) (auto simp: ac_simps)

lemma gf_mul_XOR: "gf_mul x (y XOR z) = gf_mul x y XOR gf_mul x z"
proof -
  have "map (bit (y XOR z)) ks = map2 (\<noteq>) (map (bit y) ks) (map (bit z) ks)" for ks
    by (induction ks) (simp_all add: bit_xor_iff)
  then show ?thesis unfolding gf_mul_run by (simp only: gf_run_XOR length_map)
qed

lemma gf_mul_0 [simp]: "gf_mul x 0 = 0"
  by (simp add: gf_mul_run)

text \<open>The reduction: \<open>x\<^sup>8\<close> is \<open>x\<^sup>4 + x\<^sup>3 + x + 1\<close>.\<close>

lemma bit_gf_mul2: "i < 8 \<Longrightarrow> bit (gf_mul2 x) i \<longleftrightarrow> (0 < i \<and> bit x (i - 1)) \<noteq> (bit x 7 \<and> i \<in> {0, 1, 3, 4})"
proof -
  assume i: "i < 8"
  then have "bit (0x1B :: byte) i \<longleftrightarrow> i \<in> {0, 1, 3, 4}"
    by (auto simp: less_Suc_eq numeral_eq_Suc)
  moreover have "bit (push_bit 1 x) i \<longleftrightarrow> 0 < i \<and> bit x (i - 1)"
    using i by (simp only: bit_push_bit_iff) (auto simp: Suc_le_eq)
  ultimately show ?thesis
    by (simp only: gf_mul2_def bit_xor_iff if_distrib [of "\<lambda>w. bit w i"] bit_0_eq bot_apply) auto
qed

definition byte_bits :: "byte \<Rightarrow> bool list" where
  "byte_bits x = map (bit x) [0, 1, 2, 3, 4, 5, 6, 7]"

lemma byte_bits_inject: "byte_bits x = byte_bits y \<longleftrightarrow> x = y"
proof
  assume "byte_bits x = byte_bits y"
  then have "bit x i = bit y i" if "i < 8" for i
    using that by (auto simp: byte_bits_def less_Suc_eq numeral_eq_Suc)
  then show "x = y" by (intro bit_word_eqI) simp
qed simp

fun gf_bits2 :: "bool list \<Rightarrow> bool list" where
  "gf_bits2 [b0, b1, b2, b3, b4, b5, b6, b7] = [b7, b0 \<noteq> b7, b1, b2 \<noteq> b7, b3 \<noteq> b7, b4, b5, b6]"
| "gf_bits2 _ = []"

lemma byte_bits_mul2: "byte_bits (gf_mul2 x) = gf_bits2 (byte_bits x)"
  by (simp add: byte_bits_def bit_gf_mul2)

lemma byte_bits_XOR: "byte_bits (x XOR y) = map2 (\<noteq>) (byte_bits x) (byte_bits y)"
  by (simp add: byte_bits_def bit_simps)

lemma byte_bitsE: obtains b0 b1 b2 b3 b4 b5 b6 b7 where "byte_bits x = [b0, b1, b2, b3, b4, b5, b6, b7]"
  by (simp add: byte_bits_def)

text \<open>The reduction: \<open>x\<^sup>8\<close> is \<open>x\<^sup>4 + x\<^sup>3 + x + 1\<close>.\<close>

lemma gf_mul2_pow_8:
  "gf_mul2 (gf_mul2 (gf_mul2 (gf_mul2 (gf_mul2 (gf_mul2 (gf_mul2 (gf_mul2 x))))))) =
   x XOR gf_mul2 x XOR gf_mul2 (gf_mul2 (gf_mul2 x)) XOR gf_mul2 (gf_mul2 (gf_mul2 (gf_mul2 x)))"
proof -
  obtain b0 b1 b2 b3 b4 b5 b6 b7 where x: "byte_bits x = [b0, b1, b2, b3, b4, b5, b6, b7]"
    by (rule byte_bitsE)
  show ?thesis
    by (simp add: byte_bits_inject [symmetric] byte_bits_mul2 byte_bits_XOR x) blast
qed

lemma gf_mul_mul2: "gf_mul x (gf_mul2 y) = gf_mul2 (gf_mul x y)"
proof -
  obtain b0 b1 b2 b3 b4 b5 b6 b7 where y: "byte_bits y = [b0, b1, b2, b3, b4, b5, b6, b7]"
    by (rule byte_bitsE)
  show ?thesis
    unfolding gf_mul_run byte_bits_def [symmetric] byte_bits_mul2 y
    by (cases b7) (simp_all add: gf_mul2_XOR gf_mul2_pow_8 ac_simps if_distrib [of gf_mul2] cong: if_cong)
qed

lemma gf_mul_mul2_pow: "gf_mul x ((gf_mul2 ^^ i) y) = (gf_mul2 ^^ i) (gf_mul x y)"
  by (induction i) (simp_all add: gf_mul_mul2)

lemma gf_mul_assoc: "gf_mul x (gf_mul y z) = gf_mul (gf_mul x y) z"
proof -
  have "gf_mul x (gf_run bs y) = gf_run bs (gf_mul x y)" for bs
    by (induction bs arbitrary: y) (simp_all add: gf_mul_XOR gf_mul_mul2)
  then show ?thesis by (simp only: gf_mul_run [of y] gf_mul_run [of _ z])
qed

lemma gf_mul_0_left: "gf_mul 0 y = 0"
proof -
  have "gf_run bs 0 = 0" for bs by (induction bs) simp_all
  then show ?thesis by (simp add: gf_mul_run)
qed

lemma gf_mul_1: "gf_mul x 1 = x"
  by (simp add: gf_mul_run bit_1_iff)

fun run_bits :: "bool list \<Rightarrow> bool list \<Rightarrow> bool list" where
  "run_bits [] x = [False, False, False, False, False, False, False, False]"
| "run_bits (b # bs) x = (if b then map2 (\<noteq>) x (run_bits bs (gf_bits2 x)) else run_bits bs (gf_bits2 x))"

lemma byte_bits_mul: "byte_bits (gf_mul x y) = run_bits (byte_bits y) (byte_bits x)"
proof -
  have "byte_bits (gf_run bs x) = run_bits bs (byte_bits x)" for bs
  proof (induction bs arbitrary: x)
    case Nil
    then show ?case by (simp add: byte_bits_def)
  next
    case (Cons b bs)
    then show ?case by (cases b) (simp_all add: byte_bits_XOR byte_bits_mul2 [symmetric])
  qed
  then show ?thesis by (simp only: gf_mul_run byte_bits_def [symmetric])
qed

lemma gf_mul_1_left: "gf_mul 1 y = y"
proof -
  obtain b0 b1 b2 b3 b4 b5 b6 b7 where y: "byte_bits y = [b0, b1, b2, b3, b4, b5, b6, b7]"
    by (rule byte_bitsE)
  have "byte_bits 1 = [True, False, False, False, False, False, False, False]"
    by (simp add: byte_bits_def bit_1_iff)
  then show ?thesis by (simp add: byte_bits_inject [symmetric] byte_bits_mul y)
qed

section \<open>Inverses\<close>

definition inv_bytes :: "byte list" where
  "inv_bytes =
    [0x00, 0x01, 0x8D, 0xF6, 0xCB, 0x52, 0x7B, 0xD1, 0xE8, 0x4F, 0x29, 0xC0, 0xB0, 0xE1, 0xE5, 0xC7,
     0x74, 0xB4, 0xAA, 0x4B, 0x99, 0x2B, 0x60, 0x5F, 0x58, 0x3F, 0xFD, 0xCC, 0xFF, 0x40, 0xEE, 0xB2,
     0x3A, 0x6E, 0x5A, 0xF1, 0x55, 0x4D, 0xA8, 0xC9, 0xC1, 0x0A, 0x98, 0x15, 0x30, 0x44, 0xA2, 0xC2,
     0x2C, 0x45, 0x92, 0x6C, 0xF3, 0x39, 0x66, 0x42, 0xF2, 0x35, 0x20, 0x6F, 0x77, 0xBB, 0x59, 0x19,
     0x1D, 0xFE, 0x37, 0x67, 0x2D, 0x31, 0xF5, 0x69, 0xA7, 0x64, 0xAB, 0x13, 0x54, 0x25, 0xE9, 0x09,
     0xED, 0x5C, 0x05, 0xCA, 0x4C, 0x24, 0x87, 0xBF, 0x18, 0x3E, 0x22, 0xF0, 0x51, 0xEC, 0x61, 0x17,
     0x16, 0x5E, 0xAF, 0xD3, 0x49, 0xA6, 0x36, 0x43, 0xF4, 0x47, 0x91, 0xDF, 0x33, 0x93, 0x21, 0x3B,
     0x79, 0xB7, 0x97, 0x85, 0x10, 0xB5, 0xBA, 0x3C, 0xB6, 0x70, 0xD0, 0x06, 0xA1, 0xFA, 0x81, 0x82,
     0x83, 0x7E, 0x7F, 0x80, 0x96, 0x73, 0xBE, 0x56, 0x9B, 0x9E, 0x95, 0xD9, 0xF7, 0x02, 0xB9, 0xA4,
     0xDE, 0x6A, 0x32, 0x6D, 0xD8, 0x8A, 0x84, 0x72, 0x2A, 0x14, 0x9F, 0x88, 0xF9, 0xDC, 0x89, 0x9A,
     0xFB, 0x7C, 0x2E, 0xC3, 0x8F, 0xB8, 0x65, 0x48, 0x26, 0xC8, 0x12, 0x4A, 0xCE, 0xE7, 0xD2, 0x62,
     0x0C, 0xE0, 0x1F, 0xEF, 0x11, 0x75, 0x78, 0x71, 0xA5, 0x8E, 0x76, 0x3D, 0xBD, 0xBC, 0x86, 0x57,
     0x0B, 0x28, 0x2F, 0xA3, 0xDA, 0xD4, 0xE4, 0x0F, 0xA9, 0x27, 0x53, 0x04, 0x1B, 0xFC, 0xAC, 0xE6,
     0x7A, 0x07, 0xAE, 0x63, 0xC5, 0xDB, 0xE2, 0xEA, 0x94, 0x8B, 0xC4, 0xD5, 0x9D, 0xF8, 0x90, 0x6B,
     0xB1, 0x0D, 0xD6, 0xEB, 0xC6, 0x0E, 0xCF, 0xAD, 0x08, 0x4E, 0xD7, 0xE3, 0x5D, 0x50, 0x1E, 0xB3,
     0x5B, 0x23, 0x38, 0x34, 0x68, 0x46, 0x03, 0x8C, 0xDD, 0x9C, 0x7D, 0xA0, 0xCD, 0x1A, 0x41, 0x1C]"

text \<open>The S-box as a table.\<close>

definition sbox_bytes :: "byte list" where
  "sbox_bytes =
    [0x63, 0x7C, 0x77, 0x7B, 0xF2, 0x6B, 0x6F, 0xC5, 0x30, 0x01, 0x67, 0x2B, 0xFE, 0xD7, 0xAB, 0x76,
     0xCA, 0x82, 0xC9, 0x7D, 0xFA, 0x59, 0x47, 0xF0, 0xAD, 0xD4, 0xA2, 0xAF, 0x9C, 0xA4, 0x72, 0xC0,
     0xB7, 0xFD, 0x93, 0x26, 0x36, 0x3F, 0xF7, 0xCC, 0x34, 0xA5, 0xE5, 0xF1, 0x71, 0xD8, 0x31, 0x15,
     0x04, 0xC7, 0x23, 0xC3, 0x18, 0x96, 0x05, 0x9A, 0x07, 0x12, 0x80, 0xE2, 0xEB, 0x27, 0xB2, 0x75,
     0x09, 0x83, 0x2C, 0x1A, 0x1B, 0x6E, 0x5A, 0xA0, 0x52, 0x3B, 0xD6, 0xB3, 0x29, 0xE3, 0x2F, 0x84,
     0x53, 0xD1, 0x00, 0xED, 0x20, 0xFC, 0xB1, 0x5B, 0x6A, 0xCB, 0xBE, 0x39, 0x4A, 0x4C, 0x58, 0xCF,
     0xD0, 0xEF, 0xAA, 0xFB, 0x43, 0x4D, 0x33, 0x85, 0x45, 0xF9, 0x02, 0x7F, 0x50, 0x3C, 0x9F, 0xA8,
     0x51, 0xA3, 0x40, 0x8F, 0x92, 0x9D, 0x38, 0xF5, 0xBC, 0xB6, 0xDA, 0x21, 0x10, 0xFF, 0xF3, 0xD2,
     0xCD, 0x0C, 0x13, 0xEC, 0x5F, 0x97, 0x44, 0x17, 0xC4, 0xA7, 0x7E, 0x3D, 0x64, 0x5D, 0x19, 0x73,
     0x60, 0x81, 0x4F, 0xDC, 0x22, 0x2A, 0x90, 0x88, 0x46, 0xEE, 0xB8, 0x14, 0xDE, 0x5E, 0x0B, 0xDB,
     0xE0, 0x32, 0x3A, 0x0A, 0x49, 0x06, 0x24, 0x5C, 0xC2, 0xD3, 0xAC, 0x62, 0x91, 0x95, 0xE4, 0x79,
     0xE7, 0xC8, 0x37, 0x6D, 0x8D, 0xD5, 0x4E, 0xA9, 0x6C, 0x56, 0xF4, 0xEA, 0x65, 0x7A, 0xAE, 0x08,
     0xBA, 0x78, 0x25, 0x2E, 0x1C, 0xA6, 0xB4, 0xC6, 0xE8, 0xDD, 0x74, 0x1F, 0x4B, 0xBD, 0x8B, 0x8A,
     0x70, 0x3E, 0xB5, 0x66, 0x48, 0x03, 0xF6, 0x0E, 0x61, 0x35, 0x57, 0xB9, 0x86, 0xC1, 0x1D, 0x9E,
     0xE1, 0xF8, 0x98, 0x11, 0x69, 0xD9, 0x8E, 0x94, 0x9B, 0x1E, 0x87, 0xE9, 0xCE, 0x55, 0x28, 0xDF,
     0x8C, 0xA1, 0x89, 0x0D, 0xBF, 0xE6, 0x42, 0x68, 0x41, 0x99, 0x2D, 0x0F, 0xB0, 0x54, 0xBB, 0x16]"

lemma byte_list_all: "length xs = 256 \<Longrightarrow> list_all P (zip (map of_nat [0..<256]) xs) \<Longrightarrow> P (x :: byte, xs ! unat x)"
proof -
  assume "length xs = 256" "list_all P (zip (map of_nat [0..<256]) xs)"
  moreover have "unat x < 256" using unsigned_less [of x] by simp
  ultimately show ?thesis by (auto simp: list_all_length dest!: spec [of _ "unat x"])
qed

lemma length_inv_bytes: "length inv_bytes = 256"
  by (simp add: inv_bytes_def)

lemma length_sbox_bytes: "length sbox_bytes = 256"
  by (simp add: sbox_bytes_def)

lemma inv_bytes_mul: "x = 0 \<or> gf_mul x (inv_bytes ! unat x) = 1"
proof -
  have "list_all (\<lambda>(x, y). x = 0 \<or> gf_mul x y = 1) (zip (map of_nat [0..<256]) inv_bytes)"
    by (simp add: inv_bytes_def upt_rec byte_bits_inject [symmetric] byte_bits_mul) (simp add: byte_bits_def)
  from byte_list_all [OF length_inv_bytes this] show ?thesis by simp
qed

lemma inv_bytes_0: "inv_bytes ! 0 = 0"
  by (simp add: inv_bytes_def)

text \<open>A product of 1 has one second factor only.\<close>

lemma gf_mul_unique:
  assumes "gf_mul x y = 1" "gf_mul x z = 1"
  shows "y = z"
proof -
  have x: "x \<noteq> 0" using assms gf_mul_0_left by auto
  define w where "w = inv_bytes ! unat x"
  have w: "gf_mul x w = 1" using inv_bytes_mul x by (auto simp: w_def)
  then have "w \<noteq> 0" by auto
  then have "gf_mul w (inv_bytes ! unat w) = 1" using inv_bytes_mul by blast
  with w have "gf_mul w x = 1" by (metis gf_mul_1 gf_mul_1_left gf_mul_assoc)
  with assms show ?thesis by (metis gf_mul_1_left gf_mul_assoc)
qed

lemma gf_inv_table: "gf_inv x = inv_bytes ! unat x"
proof (cases "x = 0")
  case True
  have "find (\<lambda>y. gf_mul 0 y = 1) ys = None" for ys by (simp add: find_None_iff gf_mul_0_left)
  then show ?thesis by (simp add: True gf_inv_def inv_bytes_0)
next
  case False
  then have m: "gf_mul x (inv_bytes ! unat x) = 1" using inv_bytes_mul by blast
  show ?thesis
  proof (cases "find (\<lambda>y. gf_mul x y = 1) (map of_nat [0..<256])")
    case None
    have "inv_bytes ! unat x \<in> set (map of_nat [0..<256])"
      using unsigned_less [of "inv_bytes ! unat x"] by (auto intro!: image_eqI [where x = "unat (inv_bytes ! unat x)"])
    with None m show ?thesis unfolding find_None_iff by blast
  next
    case (Some y)
    then have "gf_mul x y = 1" by (auto simp: find_Some_iff)
    then show ?thesis using gf_mul_unique [OF _ m] Some by (simp add: gf_inv_def)
  qed
qed

lemma word_rotl_byte: "i < 8 \<Longrightarrow> k < 8 \<Longrightarrow> bit (word_rotl k (x :: byte)) i = bit x ((i + (8 - k)) mod 8)"
  by (auto simp: bit_word_rotl_iff mod_if)

lemma byte_bits_affine:
  "byte_bits x = [b0, b1, b2, b3, b4, b5, b6, b7] \<Longrightarrow>
   byte_bits (aes_affine x) = map2 (\<noteq>) [True, True, False, False, False, True, True, False]
     (map (\<lambda>(a, b, c, d, e). a \<noteq> (b \<noteq> (c \<noteq> (d \<noteq> e))))
       [(b0, b7, b6, b5, b4), (b1, b0, b7, b6, b5), (b2, b1, b0, b7, b6), (b3, b2, b1, b0, b7),
        (b4, b3, b2, b1, b0), (b5, b4, b3, b2, b1), (b6, b5, b4, b3, b2), (b7, b6, b5, b4, b3)])"
  by (auto simp: byte_bits_def aes_affine_def bit_xor_iff word_rotl_byte)

lemma aes_sbox_table: "aes_sbox x = sbox_bytes ! unat x"
proof -
  have "list_all (\<lambda>(y, s). aes_affine y = s) (zip inv_bytes sbox_bytes)"
    by (simp add: inv_bytes_def sbox_bytes_def byte_bits_inject [symmetric] byte_bits_affine [OF byte_bits_def [unfolded list.map]]) (simp add: byte_bits_def)
  moreover have "unat x < 256" using unsigned_less [of x] by simp
  ultimately show ?thesis
    by (auto simp: list_all_length length_inv_bytes length_sbox_bytes aes_sbox_def gf_inv_table dest!: spec [of _ "unat x"])
qed

section \<open>The tables of the code\<close>

definition dbl_bytes :: "byte list" where
  "dbl_bytes =
    [0xC6, 0xF8, 0xEE, 0xF6, 0xFF, 0xD6, 0xDE, 0x91, 0x60, 0x02, 0xCE, 0x56, 0xE7, 0xB5, 0x4D, 0xEC,
     0x8F, 0x1F, 0x89, 0xFA, 0xEF, 0xB2, 0x8E, 0xFB, 0x41, 0xB3, 0x5F, 0x45, 0x23, 0x53, 0xE4, 0x9B,
     0x75, 0xE1, 0x3D, 0x4C, 0x6C, 0x7E, 0xF5, 0x83, 0x68, 0x51, 0xD1, 0xF9, 0xE2, 0xAB, 0x62, 0x2A,
     0x08, 0x95, 0x46, 0x9D, 0x30, 0x37, 0x0A, 0x2F, 0x0E, 0x24, 0x1B, 0xDF, 0xCD, 0x4E, 0x7F, 0xEA,
     0x12, 0x1D, 0x58, 0x34, 0x36, 0xDC, 0xB4, 0x5B, 0xA4, 0x76, 0xB7, 0x7D, 0x52, 0xDD, 0x5E, 0x13,
     0xA6, 0xB9, 0x00, 0xC1, 0x40, 0xE3, 0x79, 0xB6, 0xD4, 0x8D, 0x67, 0x72, 0x94, 0x98, 0xB0, 0x85,
     0xBB, 0xC5, 0x4F, 0xED, 0x86, 0x9A, 0x66, 0x11, 0x8A, 0xE9, 0x04, 0xFE, 0xA0, 0x78, 0x25, 0x4B,
     0xA2, 0x5D, 0x80, 0x05, 0x3F, 0x21, 0x70, 0xF1, 0x63, 0x77, 0xAF, 0x42, 0x20, 0xE5, 0xFD, 0xBF,
     0x81, 0x18, 0x26, 0xC3, 0xBE, 0x35, 0x88, 0x2E, 0x93, 0x55, 0xFC, 0x7A, 0xC8, 0xBA, 0x32, 0xE6,
     0xC0, 0x19, 0x9E, 0xA3, 0x44, 0x54, 0x3B, 0x0B, 0x8C, 0xC7, 0x6B, 0x28, 0xA7, 0xBC, 0x16, 0xAD,
     0xDB, 0x64, 0x74, 0x14, 0x92, 0x0C, 0x48, 0xB8, 0x9F, 0xBD, 0x43, 0xC4, 0x39, 0x31, 0xD3, 0xF2,
     0xD5, 0x8B, 0x6E, 0xDA, 0x01, 0xB1, 0x9C, 0x49, 0xD8, 0xAC, 0xF3, 0xCF, 0xCA, 0xF4, 0x47, 0x10,
     0x6F, 0xF0, 0x4A, 0x5C, 0x38, 0x57, 0x73, 0x97, 0xCB, 0xA1, 0xE8, 0x3E, 0x96, 0x61, 0x0D, 0x0F,
     0xE0, 0x7C, 0x71, 0xCC, 0x90, 0x06, 0xF7, 0x1C, 0xC2, 0x6A, 0xAE, 0x69, 0x17, 0x99, 0x3A, 0x27,
     0xD9, 0xEB, 0x2B, 0x22, 0xD2, 0xA9, 0x07, 0x33, 0x2D, 0x3C, 0x15, 0xC9, 0x87, 0xAA, 0x50, 0xA5,
     0x03, 0x59, 0x09, 0x1A, 0x65, 0xD7, 0x84, 0xD0, 0x82, 0x29, 0x5A, 0x1E, 0x7B, 0xA8, 0x6D, 0x2C]"

definition tri_bytes :: "byte list" where
  "tri_bytes =
    [0xA5, 0x84, 0x99, 0x8D, 0x0D, 0xBD, 0xB1, 0x54, 0x50, 0x03, 0xA9, 0x7D, 0x19, 0x62, 0xE6, 0x9A,
     0x45, 0x9D, 0x40, 0x87, 0x15, 0xEB, 0xC9, 0x0B, 0xEC, 0x67, 0xFD, 0xEA, 0xBF, 0xF7, 0x96, 0x5B,
     0xC2, 0x1C, 0xAE, 0x6A, 0x5A, 0x41, 0x02, 0x4F, 0x5C, 0xF4, 0x34, 0x08, 0x93, 0x73, 0x53, 0x3F,
     0x0C, 0x52, 0x65, 0x5E, 0x28, 0xA1, 0x0F, 0xB5, 0x09, 0x36, 0x9B, 0x3D, 0x26, 0x69, 0xCD, 0x9F,
     0x1B, 0x9E, 0x74, 0x2E, 0x2D, 0xB2, 0xEE, 0xFB, 0xF6, 0x4D, 0x61, 0xCE, 0x7B, 0x3E, 0x71, 0x97,
     0xF5, 0x68, 0x00, 0x2C, 0x60, 0x1F, 0xC8, 0xED, 0xBE, 0x46, 0xD9, 0x4B, 0xDE, 0xD4, 0xE8, 0x4A,
     0x6B, 0x2A, 0xE5, 0x16, 0xC5, 0xD7, 0x55, 0x94, 0xCF, 0x10, 0x06, 0x81, 0xF0, 0x44, 0xBA, 0xE3,
     0xF3, 0xFE, 0xC0, 0x8A, 0xAD, 0xBC, 0x48, 0x04, 0xDF, 0xC1, 0x75, 0x63, 0x30, 0x1A, 0x0E, 0x6D,
     0x4C, 0x14, 0x35, 0x2F, 0xE1, 0xA2, 0xCC, 0x39, 0x57, 0xF2, 0x82, 0x47, 0xAC, 0xE7, 0x2B, 0x95,
     0xA0, 0x98, 0xD1, 0x7F, 0x66, 0x7E, 0xAB, 0x83, 0xCA, 0x29, 0xD3, 0x3C, 0x79, 0xE2, 0x1D, 0x76,
     0x3B, 0x56, 0x4E, 0x1E, 0xDB, 0x0A, 0x6C, 0xE4, 0x5D, 0x6E, 0xEF, 0xA6, 0xA8, 0xA4, 0x37, 0x8B,
     0x32, 0x43, 0x59, 0xB7, 0x8C, 0x64, 0xD2, 0xE0, 0xB4, 0xFA, 0x07, 0x25, 0xAF, 0x8E, 0xE9, 0x18,
     0xD5, 0x88, 0x6F, 0x72, 0x24, 0xF1, 0xC7, 0x51, 0x23, 0x7C, 0x9C, 0x21, 0xDD, 0xDC, 0x86, 0x85,
     0x90, 0x42, 0xC4, 0xAA, 0xD8, 0x05, 0x01, 0x12, 0xA3, 0x5F, 0xF9, 0xD0, 0x91, 0x58, 0x27, 0xB9,
     0x38, 0x13, 0xB3, 0x33, 0xBB, 0x70, 0x89, 0xA7, 0xB6, 0x22, 0x92, 0x20, 0x49, 0xFF, 0x78, 0x7A,
     0x8F, 0xF8, 0x80, 0x17, 0xDA, 0x31, 0xC6, 0xB8, 0xC3, 0xB0, 0x77, 0x11, 0xCB, 0xFC, 0xD6, 0x3A]"

lemma dbl_bytes_eq: "map gf_mul2 sbox_bytes = dbl_bytes"
  by (simp add: dbl_bytes_def sbox_bytes_def gf_mul2_def)

lemma tri_bytes_eq: "map (\<lambda>s. gf_mul2 s XOR s) sbox_bytes = tri_bytes"
  by (simp add: tri_bytes_def sbox_bytes_def gf_mul2_def)

lemma dec32le_sum: "sph_dec32le [b0, b1, b2, b3] = ucast b0 + 0x100 * ucast b1 + 0x10000 * ucast b2 + 0x1000000 * ucast b3"
proof -
  have "ucast b0 + 0x100 * ucast b1 + 0x10000 * ucast b2 + 0x1000000 * ucast b3 =
      ucast b0 + push_bit 8 (ucast b1) + push_bit 16 (ucast b2) + (push_bit 24 (ucast b3) :: u32)"
    by (simp add: push_bit_eq_mult mult.commute)
  also have "\<dots> = ucast b0 OR push_bit 8 (ucast b1) OR push_bit 16 (ucast b2) OR push_bit 24 (ucast b3)"
    by (subst word_add_or, force simp: bit_simps dest: bit_imp_le_length)+ (simp only: or.assoc)
  finally show ?thesis by (simp add: sph_dec32le_def)
qed

lemma AES0_words: "AES0 = map (\<lambda>(d, s, t). sph_dec32le [d, s, s, t]) (zip dbl_bytes (zip sbox_bytes tri_bytes))"
  by (simp add: dec32le_sum AES0_def dbl_bytes_def sbox_bytes_def tri_bytes_def)

lemma AES1_words: "AES1 = map (\<lambda>(d, s, t). sph_dec32le [t, d, s, s]) (zip dbl_bytes (zip sbox_bytes tri_bytes))"
  by (simp add: dec32le_sum AES1_def dbl_bytes_def sbox_bytes_def tri_bytes_def)

lemma AES2_words: "AES2 = map (\<lambda>(d, s, t). sph_dec32le [s, t, d, s]) (zip dbl_bytes (zip sbox_bytes tri_bytes))"
  by (simp add: dec32le_sum AES2_def dbl_bytes_def sbox_bytes_def tri_bytes_def)

lemma AES3_words: "AES3 = map (\<lambda>(d, s, t). sph_dec32le [s, s, t, d]) (zip dbl_bytes (zip sbox_bytes tri_bytes))"
  by (simp add: dec32le_sum AES3_def dbl_bytes_def sbox_bytes_def tri_bytes_def)

lemma table_triple:
  "zip dbl_bytes (zip sbox_bytes tri_bytes) ! unat x =
    (gf_mul2 (aes_sbox x), aes_sbox x, gf_mul2 (aes_sbox x) XOR aes_sbox x)"
  "unat x < length (zip dbl_bytes (zip sbox_bytes tri_bytes))"
proof -
  have "unat x < 256" using unsigned_less [of x] by simp
  then show "unat x < length (zip dbl_bytes (zip sbox_bytes tri_bytes))"
    "zip dbl_bytes (zip sbox_bytes tri_bytes) ! unat x =
      (gf_mul2 (aes_sbox x), aes_sbox x, gf_mul2 (aes_sbox x) XOR aes_sbox x)"
    by (simp_all add: dbl_bytes_eq [symmetric] tri_bytes_eq [symmetric] length_sbox_bytes aes_sbox_table)
qed

lemma AES_entries:
  "sph_enc32le (AES0 ! unat x) = (let s = aes_sbox x in [gf_mul2 s, s, s, gf_mul2 s XOR s])"
  "sph_enc32le (AES1 ! unat x) = (let s = aes_sbox x in [gf_mul2 s XOR s, gf_mul2 s, s, s])"
  "sph_enc32le (AES2 ! unat x) = (let s = aes_sbox x in [s, gf_mul2 s XOR s, gf_mul2 s, s])"
  "sph_enc32le (AES3 ! unat x) = (let s = aes_sbox x in [s, s, gf_mul2 s XOR s, gf_mul2 s])"
  unfolding AES0_words AES1_words AES2_words AES3_words
  by (simp_all only: nth_map table_triple prod.case Let_def) (simp_all add: sph_enc32le_dec32le)

section \<open>The round macros\<close>

text \<open>The 16 bytes of four words.\<close>

definition quad_bytes :: "u32 \<times> u32 \<times> u32 \<times> u32 \<Rightarrow> byte list" where
  "quad_bytes X = (case X of (X0, X1, X2, X3) \<Rightarrow>
     sph_enc32le X0 @ sph_enc32le X1 @ sph_enc32le X2 @ sph_enc32le X3)"

lemma length_quad_bytes [simp]: "length (quad_bytes X) = 16"
  by (simp add: quad_bytes_def split: prod.split)

lemma enc32le_XOR: "sph_enc32le (x XOR y) = xor_bytes (sph_enc32le x) (sph_enc32le y)"
  by (simp add: sph_enc32le_def xor_bytes_def) (auto intro!: bit_word_eqI simp: bit_simps)

lemma table_index:
  "unat (w AND 0xFF :: u32) = unat (ucast w :: byte)"
  "unat (drop_bit k w AND 0xFF :: u32) = unat (ucast (drop_bit k w) :: byte)"
proof -
  have "w AND 0xFF = ucast (ucast w :: byte)" for w :: u32
    by (rule bit_word_eqI) (auto simp: bit_simps bit_pad_words(3) simp del: bit_numeral_word_iff)
  moreover have "unat (ucast b :: u32) = unat b" for b :: byte
  proof -
    have "unat b < 256" using unsigned_less [of b] by simp
    then show ?thesis by (simp add: unsigned_ucast_eq take_bit_nat_eq_self)
  qed
  ultimately show "unat (w AND 0xFF :: u32) = unat (ucast w :: byte)"
    "unat (drop_bit k w AND 0xFF :: u32) = unat (ucast (drop_bit k w) :: byte)"
    by simp_all
qed

lemma aes_round_spec_columns:
  assumes "length k0 = 4" "length k1 = 4" "length k2 = 4"
  shows "aes_round_spec [a0, a1, a2, a3, a4, a5, a6, a7, a8, a9, a10, a11, a12, a13, a14, a15] (k0 @ k1 @ k2 @ k3) =
    xor_bytes (mix4 (XOR) gf_mul2 (map aes_sbox [a0, a5, a10, a15])) k0 @
    xor_bytes (mix4 (XOR) gf_mul2 (map aes_sbox [a4, a9, a14, a3])) k1 @
    xor_bytes (mix4 (XOR) gf_mul2 (map aes_sbox [a8, a13, a2, a7])) k2 @
    xor_bytes (mix4 (XOR) gf_mul2 (map aes_sbox [a12, a1, a6, a11])) k3"
  using assms by (simp add: aes_round_spec_def xor_bytes_def mix_columns_def shift_rows_def upt_16 zip_append)

lemma xor_bytes_assoc: "xor_bytes (xor_bytes x y) z = xor_bytes x (xor_bytes y z)"
  by (rule nth_equalityI) (simp_all add: xor_bytes_def xor.assoc)

lemma column_tables:
  assumes "length k = 4"
  shows "xor_bytes (sph_enc32le (AES0 ! unat a)) (xor_bytes (sph_enc32le (AES1 ! unat b))
      (xor_bytes (sph_enc32le (AES2 ! unat c)) (xor_bytes (sph_enc32le (AES3 ! unat d)) k))) =
    xor_bytes (mix4 (XOR) gf_mul2 (map aes_sbox [a, b, c, d])) k"
  by (rule list4E [OF assms]) (simp add: AES_entries mix4_def xor_bytes_def Let_def ac_simps)

lemma AES_ROUND_LE_bytes: "quad_bytes (AES_ROUND_LE X K) = aes_round_spec (quad_bytes X) (quad_bytes K)"
proof -
  obtain X0 X1 X2 X3 K0 K1 K2 K3 where X: "X = (X0, X1, X2, X3)" "K = (K0, K1, K2, K3)"
    by (metis prod.exhaust)
  have s: "quad_bytes X = [ucast X0, ucast (drop_bit 8 X0), ucast (drop_bit 16 X0), ucast (drop_bit 24 X0),
      ucast X1, ucast (drop_bit 8 X1), ucast (drop_bit 16 X1), ucast (drop_bit 24 X1),
      ucast X2, ucast (drop_bit 8 X2), ucast (drop_bit 16 X2), ucast (drop_bit 24 X2),
      ucast X3, ucast (drop_bit 8 X3), ucast (drop_bit 16 X3), ucast (drop_bit 24 X3)]"
    by (simp add: X quad_bytes_def sph_enc32le_def)
  show ?thesis
    unfolding s unfolding X AES_ROUND_LE_def quad_bytes_def prod.case Let_def AES_entry_def AESx_LE_def table_index
    by (simp only: enc32le_XOR xor_bytes_assoc column_tables aes_round_spec_columns length_enc)
qed

end
