(* ===== verification/Echo.thy ===== *)
theory Echo
  imports Block_Stream Aes_Helper
begin

text \<open>
  The model of \<open>src/src/echo.c\<close>: the compression functions \<open>COMPRESS_SMALL\<close> (ECHO-224 and
  ECHO-256) and \<open>COMPRESS_BIG\<close> (ECHO-384 and ECHO-512) and the streaming functions around
  them.

  The file is compiled with 64-bit words (\<open>SPH_ECHO_64\<close>: a cell of the 4 by 4 array \<open>W\<close> is
  two words) or with 32-bit words (four words). What differs is the record \<open>echo_ops\<close>. The
  C code has each streaming function twice, for the two sizes of the context; the copies
  differ in the sizes and in the compression function only, which are the record
  \<open>echo_size\<close>, and \<open>echo_small_core\<close>, \<open>echo_big_core\<close> and so on are its two instances.
\<close>

type_synonym counter = "u32 \<times> u32 \<times> u32 \<times> u32"

record 'w echo_ops =
  EK :: nat
  X_SPLIT :: "'w list \<Rightarrow> u32 \<times> u32 \<times> u32 \<times> u32"
  X_JOIN :: "u32 \<times> u32 \<times> u32 \<times> u32 \<Rightarrow> 'w list"
  M80 :: 'w
  M7F :: 'w
  DECW :: "byte list \<Rightarrow> 'w"
  ENCW :: "'w \<Rightarrow> byte list"
  OUT_WORDS :: "nat \<Rightarrow> nat"

definition echo_wide_ops :: "u64 echo_ops" where
  "echo_wide_ops =
     \<lparr>EK = 2,
      X_SPLIT = (\<lambda>X. (ucast (X ! 0), ucast (drop_bit 32 (X ! 0)), ucast (X ! 1), ucast (drop_bit 32 (X ! 1)))),
      X_JOIN = (\<lambda>(X0, X1, X2, X3). [ucast X0 OR push_bit 32 (ucast X1), ucast X2 OR push_bit 32 (ucast X3)]),
      M80 = 0x8080808080808080, M7F = 0x7F7F7F7F7F7F7F7F,
      DECW = sph_dec64le, ENCW = sph_enc64le, OUT_WORDS = (\<lambda>w32. (w32 + 1) div 2)\<rparr>"

definition echo_narrow_ops :: "u32 echo_ops" where
  "echo_narrow_ops =
     \<lparr>EK = 4,
      X_SPLIT = (\<lambda>X. (X ! 0, X ! 1, X ! 2, X ! 3)),
      X_JOIN = (\<lambda>(X0, X1, X2, X3). [X0, X1, X2, X3]),
      M80 = 0x80808080, M7F = 0x7F7F7F7F,
      DECW = sph_dec32le, ENCW = sph_enc32le, OUT_WORDS = (\<lambda>w32. w32)\<rparr>"

section \<open>The round\<close>

type_synonym 'w cells = "'w list list"

text \<open>Reading and writing \<open>W[i][n]\<close>.\<close>

definition cell_get :: "'w cells \<Rightarrow> nat \<Rightarrow> nat \<Rightarrow> 'w" where
  "cell_get W i n = W ! i ! n"

definition cell_set :: "'w cells \<Rightarrow> nat \<Rightarrow> nat \<Rightarrow> 'w \<Rightarrow> 'w cells" where
  "cell_set W i n v = W[i := (W ! i)[n := v]]"

text \<open>The increment of the key \<open>K3 K2 K1 K0\<close> after each cell.\<close>

definition K_INCR :: "counter \<Rightarrow> counter" where
  "K_INCR K =
     (let (K0, K1, K2, K3) = K; K0 = K0 + 1
      in if K0 = 0 then
           let K1 = K1 + 1
           in if K1 = 0 then
                let K2 = K2 + 1
                in if K2 = 0 then (K0, K1, K2, K3 + 1) else (K0, K1, K2, K3)
              else (K0, K1, K2, K3)
         else (K0, K1, K2, K3))"

definition AES_2ROUNDS :: "'w echo_ops \<Rightarrow> nat \<Rightarrow> 'w cells \<times> counter \<Rightarrow> 'w cells \<times> counter" where
  "AES_2ROUNDS ops n WK =
     (let (W, K) = WK; Y = AES_ROUND_LE (X_SPLIT ops (W ! n)) K; X = AES_ROUND_NOKEY_LE Y
      in (W[n := X_JOIN ops X], K_INCR K))"

definition BIG_SUB_WORDS :: "'w echo_ops \<Rightarrow> 'w cells \<times> counter \<Rightarrow> 'w cells \<times> counter" where
  "BIG_SUB_WORDS ops WK =
     fold (AES_2ROUNDS ops) [0, 1, 2, 3, 4, 5, 6, 7, 8, 9, 10, 11, 12, 13, 14, 15] WK"

text \<open>The loop of the small-footprint build.\<close>

definition aes_2rounds_all :: "'w echo_ops \<Rightarrow> 'w cells \<times> counter \<Rightarrow> 'w cells \<times> counter" where
  "aes_2rounds_all ops WK = fold (AES_2ROUNDS ops) [0..<16] WK"

definition SHIFT_ROW1 :: "'w echo_ops \<Rightarrow> nat \<Rightarrow> nat \<Rightarrow> nat \<Rightarrow> nat \<Rightarrow> 'w cells \<Rightarrow> 'w cells" where
  "SHIFT_ROW1 ops a b c d W =
     fold (\<lambda>n W.
       let tmp = cell_get W a n;
           W = cell_set W a n (cell_get W b n);
           W = cell_set W b n (cell_get W c n);
           W = cell_set W c n (cell_get W d n)
       in cell_set W d n tmp) [0..<EK ops] W"

definition SHIFT_ROW2 :: "'w echo_ops \<Rightarrow> nat \<Rightarrow> nat \<Rightarrow> nat \<Rightarrow> nat \<Rightarrow> 'w cells \<Rightarrow> 'w cells" where
  "SHIFT_ROW2 ops a b c d W =
     fold (\<lambda>n W.
       let tmp = cell_get W a n;
           W = cell_set W a n (cell_get W c n);
           W = cell_set W c n tmp;
           tmp = cell_get W b n;
           W = cell_set W b n (cell_get W d n)
       in cell_set W d n tmp) [0..<EK ops] W"

definition SHIFT_ROW3 :: "'w echo_ops \<Rightarrow> nat \<Rightarrow> nat \<Rightarrow> nat \<Rightarrow> nat \<Rightarrow> 'w cells \<Rightarrow> 'w cells" where
  "SHIFT_ROW3 ops a b c d W = SHIFT_ROW1 ops d c b a W"

definition BIG_SHIFT_ROWS :: "'w echo_ops \<Rightarrow> 'w cells \<Rightarrow> 'w cells" where
  "BIG_SHIFT_ROWS ops W =
     (let W = SHIFT_ROW1 ops 1 5 9 13 W;
          W = SHIFT_ROW2 ops 2 6 10 14 W
      in SHIFT_ROW3 ops 3 7 11 15 W)"

definition echo_x2 :: "'a::len word echo_ops \<Rightarrow> 'a word \<Rightarrow> 'a word" where
  "echo_x2 ops ab = (drop_bit 7 (ab AND M80 ops) * 27) XOR push_bit 1 (ab AND M7F ops)"

definition MIX_COLUMN1 ::
  "'a::len word echo_ops \<Rightarrow> nat \<Rightarrow> nat \<Rightarrow> nat \<Rightarrow> nat \<Rightarrow> nat \<Rightarrow> 'a word cells \<Rightarrow> 'a word cells"
where
  "MIX_COLUMN1 ops ia ib ic ie n W =
     (let a = cell_get W ia n; b = cell_get W ib n; c = cell_get W ic n; d = cell_get W ie n;
          ab = a XOR b; bc = b XOR c; cd = c XOR d;
          abx = echo_x2 ops ab; bcx = echo_x2 ops bc; cdx = echo_x2 ops cd;
          W = cell_set W ia n (abx XOR bc XOR d);
          W = cell_set W ib n (bcx XOR a XOR cd);
          W = cell_set W ic n (cdx XOR ab XOR d)
      in cell_set W ie n (abx XOR bcx XOR cdx XOR ab XOR c))"

definition MIX_COLUMN ::
  "'a::len word echo_ops \<Rightarrow> nat \<Rightarrow> nat \<Rightarrow> nat \<Rightarrow> nat \<Rightarrow> 'a word cells \<Rightarrow> 'a word cells"
where
  "MIX_COLUMN ops a b c d W = fold (MIX_COLUMN1 ops a b c d) [0..<EK ops] W"

definition BIG_MIX_COLUMNS :: "'a::len word echo_ops \<Rightarrow> 'a word cells \<Rightarrow> 'a word cells" where
  "BIG_MIX_COLUMNS ops W =
     (let W = MIX_COLUMN ops 0 1 2 3 W;
          W = MIX_COLUMN ops 4 5 6 7 W;
          W = MIX_COLUMN ops 8 9 10 11 W
      in MIX_COLUMN ops 12 13 14 15 W)"

definition BIG_ROUND ::
  "'a::len word echo_ops \<Rightarrow> 'a word cells \<times> counter \<Rightarrow> 'a word cells \<times> counter"
where
  "BIG_ROUND ops WK =
     (let (W, K) = BIG_SUB_WORDS ops WK
      in (BIG_MIX_COLUMNS ops (BIG_SHIFT_ROWS ops W), K))"

section \<open>The compression functions\<close>

text \<open>
  The two context structures have the same fields, with arrays of different sizes. \<open>ec_V\<close> is
  the array \<open>u.Vb\<close> or \<open>u.Vs\<close> read as a flat array of words, as \<open>memcpy\<close> and the
  pointer \<open>VV\<close> do; \<open>ec_C\<close> are the four fields \<open>C0\<close> to \<open>C3\<close>.
\<close>

record 'w sph_echo_context =
  ec_buf :: "byte list"
  ec_ptr :: nat
  ec_V :: "'w list"
  ec_C :: counter

definition word_at :: "'w echo_ops \<Rightarrow> byte list \<Rightarrow> nat \<Rightarrow> 'w" where
  "word_at ops buf off = DECW ops (take (16 div EK ops) (drop off buf))"

definition input_cells :: "'w echo_ops \<Rightarrow> nat \<Rightarrow> nat \<Rightarrow> 'w list \<Rightarrow> byte list \<Rightarrow> 'w cells" where
  "input_cells ops r m V buf =
     map (\<lambda>u. map (\<lambda>j. V ! (EK ops * u + j)) [0..<EK ops]) [0..<r] @
     map (\<lambda>u. map (\<lambda>j. word_at ops buf (16 * u + 16 div EK ops * j)) [0..<EK ops]) [0..<m]"

definition INPUT_BLOCK_SMALL :: "'w echo_ops \<Rightarrow> 'w list \<Rightarrow> byte list \<Rightarrow> 'w cells" where
  "INPUT_BLOCK_SMALL ops V buf = input_cells ops 4 12 V buf"

definition INPUT_BLOCK_BIG :: "'w echo_ops \<Rightarrow> 'w list \<Rightarrow> byte list \<Rightarrow> 'w cells" where
  "INPUT_BLOCK_BIG ops V buf = input_cells ops 8 8 V buf"

definition FINAL_SMALL :: "'a::len word echo_ops \<Rightarrow> byte list \<Rightarrow> 'a word cells \<Rightarrow> 'a word list \<Rightarrow> 'a word list" where
  "FINAL_SMALL ops buf W V =
     (let WW = concat W; n = 4 * EK ops; wb = 16 div EK ops
      in map (\<lambda>u. V ! u XOR (word_at ops buf (wb * u)
              XOR word_at ops buf (wb * u + 64)
              XOR word_at ops buf (wb * u + 128)
              XOR WW ! u XOR WW ! (u + n)
              XOR WW ! (u + 2 * n) XOR WW ! (u + 3 * n))) [0..<n])"

definition FINAL_BIG :: "'a::len word echo_ops \<Rightarrow> byte list \<Rightarrow> 'a word cells \<Rightarrow> 'a word list \<Rightarrow> 'a word list" where
  "FINAL_BIG ops buf W V =
     (let WW = concat W; n = 8 * EK ops; wb = 16 div EK ops
      in map (\<lambda>u. V ! u XOR (word_at ops buf (wb * u) XOR WW ! u XOR WW ! (u + n))) [0..<n])"

definition COMPRESS_SMALL :: "'a::len word echo_ops \<Rightarrow> 'a word sph_echo_context \<Rightarrow> 'a word sph_echo_context" where
  "COMPRESS_SMALL ops sc =
     (let W = INPUT_BLOCK_SMALL ops (ec_V sc) (ec_buf sc);
          (W, K) = (BIG_ROUND ops ^^ 8) (W, ec_C sc)
      in sc\<lparr>ec_V := FINAL_SMALL ops (ec_buf sc) W (ec_V sc)\<rparr>)"

definition COMPRESS_BIG :: "'a::len word echo_ops \<Rightarrow> 'a word sph_echo_context \<Rightarrow> 'a word sph_echo_context" where
  "COMPRESS_BIG ops sc =
     (let W = INPUT_BLOCK_BIG ops (ec_V sc) (ec_buf sc);
          (W, K) = (BIG_ROUND ops ^^ 10) (W, ec_C sc)
      in sc\<lparr>ec_V := FINAL_BIG ops (ec_buf sc) W (ec_V sc)\<rparr>)"

definition INCR_COUNTER :: "counter \<Rightarrow> u32 \<Rightarrow> counter" where
  "INCR_COUNTER C val =
     (let (C0, C1, C2, C3) = C; C0 = C0 + val
      in if C0 < val then
           let C1 = C1 + 1
           in if C1 = 0 then
                let C2 = C2 + 1
                in if C2 = 0 then (C0, C1, C2, C3 + 1) else (C0, C1, C2, C3)
              else (C0, C1, C2, C3)
         else (C0, C1, C2, C3))"

section \<open>The operations of a context\<close>

record 'w echo_size =
  ES_BUF :: nat
  ES_ROWS :: nat
  ES_BITS :: u32
  ES_COMPRESS :: "'w echo_ops \<Rightarrow> 'w sph_echo_context \<Rightarrow> 'w sph_echo_context"

definition echo_small :: "'a::len word echo_size" where
  "echo_small = \<lparr>ES_BUF = 192, ES_ROWS = 4, ES_BITS = 1536, ES_COMPRESS = COMPRESS_SMALL\<rparr>"

definition echo_big :: "'a::len word echo_size" where
  "echo_big = \<lparr>ES_BUF = 128, ES_ROWS = 8, ES_BITS = 1024, ES_COMPRESS = COMPRESS_BIG\<rparr>"

definition echo_init ::
  "'a::len word echo_size \<Rightarrow> 'a word echo_ops \<Rightarrow> nat \<Rightarrow> 'a word sph_echo_context \<Rightarrow> 'a word sph_echo_context"
where
  "echo_init sz ops out_len sc =
     sc\<lparr>ec_V := concat (replicate (ES_ROWS sz) (of_nat out_len # replicate (EK ops - 1) 0)),
        ec_ptr := 0, ec_C := (0, 0, 0, 0)\<rparr>"

text \<open>The body of the update loop that runs when the buffer is full.\<close>

definition echo_block ::
  "'w echo_size \<Rightarrow> 'w echo_ops \<Rightarrow> 'w sph_echo_context \<Rightarrow> 'w sph_echo_context"
where
  "echo_block sz ops sc = ES_COMPRESS sz ops (sc\<lparr>ec_C := INCR_COUNTER (ec_C sc) (ES_BITS sz)\<rparr>)"

partial_function (option) echo_core_loop ::
  "'w echo_size \<Rightarrow> 'w echo_ops \<Rightarrow> 'w sph_echo_context \<Rightarrow> nat \<Rightarrow> byte list
     \<Rightarrow> ('w sph_echo_context \<times> nat) option"
where
  "echo_core_loop sz ops sc ptr data =
     (if data = [] then Some (sc, ptr)
      else let clen = min (size_sub (ES_BUF sz) ptr) (length data)
        in Option.bind (memcpy (ec_buf sc) ptr (take clen data)) (\<lambda>b.
             if ptr + clen = ES_BUF sz
             then echo_core_loop sz ops (echo_block sz ops (sc\<lparr>ec_buf := b\<rparr>)) 0 (drop clen data)
             else echo_core_loop sz ops (sc\<lparr>ec_buf := b\<rparr>) (ptr + clen) (drop clen data)))"

definition echo_core ::
  "'w echo_size \<Rightarrow> 'w echo_ops \<Rightarrow> 'w sph_echo_context \<Rightarrow> byte list \<Rightarrow> 'w sph_echo_context option"
where
  "echo_core sz ops sc data =
     (if length data < size_sub (ES_BUF sz) (ec_ptr sc)
      then do {
        b \<leftarrow> memcpy (ec_buf sc) (ec_ptr sc) data;
        Some (sc\<lparr>ec_buf := b, ec_ptr := ec_ptr sc + length data\<rparr>)
      }
      else do {
        (sc, ptr) \<leftarrow> echo_core_loop sz ops sc (ec_ptr sc) data;
        Some (sc\<lparr>ec_ptr := ptr\<rparr>)
      })"

text \<open>
  The close functions. The local array \<open>u.tmp\<close> of 32 or 64 bytes, whose initial contents are
  indeterminate, is the parameter \<open>tmp\<close>.
\<close>

definition echo_close ::
  "'a::len word echo_size \<Rightarrow> 'a word echo_ops \<Rightarrow> nat \<Rightarrow> byte list \<Rightarrow> 'a word sph_echo_context \<Rightarrow> u32 \<Rightarrow> nat
     \<Rightarrow> (byte list \<times> 'a word sph_echo_context) option"
where
  "echo_close sz ops w32 tmp sc ub n =
     do {
       let ptr = ec_ptr sc;
       let elen = push_bit 3 (of_nat ptr) + of_nat n;
       let sc = sc\<lparr>ec_C := INCR_COUNTER (ec_C sc) elen\<rparr>;
       tmp \<leftarrow> (case ec_C sc of (C0, C1, C2, C3) \<Rightarrow>
         memcpy tmp 0 (sph_enc32le C0 @ sph_enc32le C1 @ sph_enc32le C2 @ sph_enc32le C3));
       let sc = (if elen = 0 then sc\<lparr>ec_C := (0, 0, 0, 0)\<rparr> else sc);
       buf \<leftarrow> memcpy (ec_buf sc) ptr [last_byte ub n];
       let ptr = ptr + 1;
       buf \<leftarrow> memset buf ptr 0 (size_sub (ES_BUF sz) ptr);
       sc \<leftarrow> (if ptr > ES_BUF sz - 18
         then do {
           let sc = ES_COMPRESS sz ops (sc\<lparr>ec_buf := buf\<rparr>);
           buf \<leftarrow> memset (ec_buf sc) 0 0 (ES_BUF sz);
           Some (sc\<lparr>ec_C := (0, 0, 0, 0), ec_buf := buf\<rparr>)
         }
         else Some (sc\<lparr>ec_buf := buf\<rparr>));
       buf \<leftarrow> memcpy (ec_buf sc) (ES_BUF sz - 18) (sph_enc16le (of_nat (32 * w32)));
       cnt \<leftarrow> mem_read tmp 0 16;
       buf \<leftarrow> memcpy buf (ES_BUF sz - 16) cnt;
       let sc = ES_COMPRESS sz ops (sc\<lparr>ec_buf := buf\<rparr>);
       tmp \<leftarrow> memcpy tmp 0 (concat (map (\<lambda>k. ENCW ops (ec_V sc ! k)) [0..<OUT_WORDS ops w32]));
       dst \<leftarrow> mem_read tmp 0 (4 * w32);
       Some (dst, echo_init sz ops (32 * w32) sc)
     }"

section \<open>The two sizes, and the public functions\<close>

definition echo_small_init where
  "echo_small_init ops out_len sc = echo_init echo_small ops out_len sc"

definition echo_small_core where
  "echo_small_core ops sc data = echo_core echo_small ops sc data"

definition echo_small_close where
  "echo_small_close ops w32 tmp sc ub n = echo_close echo_small ops w32 tmp sc ub n"

definition echo_big_init where
  "echo_big_init ops out_len sc = echo_init echo_big ops out_len sc"

definition echo_big_core where
  "echo_big_core ops sc data = echo_core echo_big ops sc data"

definition echo_big_close where
  "echo_big_close ops w32 tmp sc ub n = echo_close echo_big ops w32 tmp sc ub n"

definition sph_echo224_init where
  "sph_echo224_init ops cc = echo_small_init ops 224 cc"

definition sph_echo224 where
  "sph_echo224 ops cc data = echo_small_core ops cc data"

definition sph_echo224_close where
  "sph_echo224_close ops tmp cc = echo_small_close ops 7 tmp cc 0 0"

definition sph_echo224_addbits_and_close where
  "sph_echo224_addbits_and_close ops tmp cc ub n = echo_small_close ops 7 tmp cc ub n"

definition sph_echo256_init where
  "sph_echo256_init ops cc = echo_small_init ops 256 cc"

definition sph_echo256 where
  "sph_echo256 ops cc data = echo_small_core ops cc data"

definition sph_echo256_close where
  "sph_echo256_close ops tmp cc = echo_small_close ops 8 tmp cc 0 0"

definition sph_echo256_addbits_and_close where
  "sph_echo256_addbits_and_close ops tmp cc ub n = echo_small_close ops 8 tmp cc ub n"

definition sph_echo384_init where
  "sph_echo384_init ops cc = echo_big_init ops 384 cc"

definition sph_echo384 where
  "sph_echo384 ops cc data = echo_big_core ops cc data"

definition sph_echo384_close where
  "sph_echo384_close ops tmp cc = echo_big_close ops 12 tmp cc 0 0"

definition sph_echo384_addbits_and_close where
  "sph_echo384_addbits_and_close ops tmp cc ub n = echo_big_close ops 12 tmp cc ub n"

definition sph_echo512_init where
  "sph_echo512_init ops cc = echo_big_init ops 512 cc"

definition sph_echo512 where
  "sph_echo512 ops cc data = echo_big_core ops cc data"

definition sph_echo512_close where
  "sph_echo512_close ops tmp cc = echo_big_close ops 16 tmp cc 0 0"

definition sph_echo512_addbits_and_close where
  "sph_echo512_addbits_and_close ops tmp cc ub n = echo_big_close ops 16 tmp cc ub n"

end
