(* ===== verification/Echo_Words.thy ===== *)
theory Echo_Words
  imports Aes_Field Echo
begin

text \<open>
  What the round of \<open>echo.c\<close> relies on in its two builds, as a locale over the record
  \<open>echo_ops\<close>: the words of a cell are its 16 bytes in order, and the multiplication by 2 of all
  bytes of a word at once is the one of the field. The counter, four 32-bit words with explicit
  carries, counts modulo \<open>2\<^sup>1\<^sup>2\<^sup>8\<close>.
\<close>

section \<open>Multiplication of all bytes of a word by 2\<close>

lemma times_27: "(w :: 'a::len word) * 27 = w + push_bit 1 w + push_bit 3 w + push_bit 4 w"
  by (simp add: push_bit_eq_mult algebra_simps)

lemma bit_times_27:
  fixes w :: "'a::len word"
  assumes w: "\<And>i. bit w i \<Longrightarrow> i mod 8 = 0" and i: "i < LENGTH('a)"
  shows "bit (w * 27) i \<longleftrightarrow> i mod 8 \<in> {0, 1, 3, 4} \<and> bit w (8 * (i div 8))"
proof -
  have m: "j mod 8 = k" if "bit w (j - k)" "k \<le> j" "k < 8" for j k
  proof -
    have "8 dvd j - k" using w [OF that(1)] by (simp add: mod_eq_0_iff_dvd)
    then obtain q where "j - k = 8 * q" by (elim dvdE)
    then have "j = k + 8 * q" using that(2) by linarith
    then show ?thesis using that(3) by simp
  qed
  have "w * 27 = w OR push_bit 1 w OR push_bit 3 w OR push_bit 4 w"
    unfolding times_27
  proof -
    have p: "bit (push_bit n w) i \<Longrightarrow> i mod 8 = n" if "n < 8" for n i
      using m [of i n] that by (auto simp only: bit_push_bit_iff)
    note d = w p [of 1, simplified] p [of 3, simplified] p [of 4, simplified]
    have "w + push_bit 1 w = w OR push_bit 1 w"
      by (rule word_add_or) (auto dest!: d)
    moreover have "(w OR push_bit 1 w) + push_bit 3 w = (w OR push_bit 1 w) OR push_bit 3 w"
      by (rule word_add_or) (auto simp: bit_or_iff dest!: d)
    moreover have "((w OR push_bit 1 w) OR push_bit 3 w) + push_bit 4 w = ((w OR push_bit 1 w) OR push_bit 3 w) OR push_bit 4 w"
      by (rule word_add_or) (auto simp: bit_or_iff dest!: d)
    ultimately show "w + push_bit 1 w + push_bit 3 w + push_bit 4 w = w OR push_bit 1 w OR push_bit 3 w OR push_bit 4 w"
      by (simp only: or.assoc)
  qed
  then have "bit (w * 27) i \<longleftrightarrow> bit w i \<or> 1 \<le> i \<and> bit w (i - 1) \<or> 3 \<le> i \<and> bit w (i - 3) \<or> 4 \<le> i \<and> bit w (i - 4)"
    using i by (auto simp only: bit_or_iff bit_push_bit_iff possible_bit_word)
  moreover have "(k \<le> i \<and> bit w (i - k)) \<longleftrightarrow> i mod 8 = k \<and> bit w (8 * (i div 8))" if "k < 8" for k
  proof
    assume a: "k \<le> i \<and> bit w (i - k)"
    then have "i mod 8 = k" using m that by blast
    moreover from this have "i - k = 8 * (i div 8)" by (metis minus_mod_eq_mult_div)
    ultimately show "i mod 8 = k \<and> bit w (8 * (i div 8))" using a by simp
  next
    assume "i mod 8 = k \<and> bit w (8 * (i div 8))"
    then show "k \<le> i \<and> bit w (i - k)" by (auto simp: minus_mod_eq_mult_div)
  qed
  from this [of 0] this [of 1] this [of 3] this [of 4] show ?thesis
    unfolding calculation by auto
qed

lemma bit_echo_x2:
  fixes w :: "'a::len word"
  assumes L: "8 dvd LENGTH('a)" and j: "8 * j < LENGTH('a)" and k: "k < 8"
    and M80: "\<And>i. i < LENGTH('a) \<Longrightarrow> bit (M80 ops) i \<longleftrightarrow> i mod 8 = 7"
    and M7F: "\<And>i. i < LENGTH('a) \<Longrightarrow> bit (M7F ops) i \<longleftrightarrow> i mod 8 \<noteq> 7"
  shows "bit (echo_x2 ops w) (8 * j + k) \<longleftrightarrow>
    (0 < k \<and> bit w (8 * j + (k - 1))) \<noteq> (bit w (8 * j + 7) \<and> k \<in> {0, 1, 3, 4})"
proof -
  define y where "y = drop_bit 7 (w AND M80 ops)"
  obtain m where m: "LENGTH('a) = 8 * m" using L by (elim dvdE)
  have "j + 1 \<le> m" using j unfolding m by simp
  then have i: "8 * j + k < LENGTH('a)" "8 * j + 7 < LENGTH('a)" using k unfolding m by linarith+
  have y: "bit y i \<longleftrightarrow> i + 7 < LENGTH('a) \<and> (i + 7) mod 8 = 7 \<and> bit w (i + 7)" for i
    using M80 [of "i + 7"] by (auto simp: y_def bit_drop_bit_eq bit_and_iff add.commute dest: bit_imp_le_length)
  have "(i + 7) mod 8 = 7 \<Longrightarrow> i mod 8 = 0" for i :: nat
    by presburger
  then have "bit (y * 27) (8 * j + k) \<longleftrightarrow> (8 * j + k) mod 8 \<in> {0, 1, 3, 4} \<and> bit y (8 * ((8 * j + k) div 8))"
    using i by (intro bit_times_27) (auto simp: y)
  also have "\<dots> \<longleftrightarrow> bit w (8 * j + 7) \<and> k \<in> {0, 1, 3, 4}"
    using k i(2) by (auto simp: y)
  finally have 1: "bit (y * 27) (8 * j + k) \<longleftrightarrow> bit w (8 * j + 7) \<and> k \<in> {0, 1, 3, 4}" .
  have "bit (push_bit 1 (w AND M7F ops)) (8 * j + k) \<longleftrightarrow> 0 < 8 * j + k \<and> bit w (8 * j + k - 1) \<and> (8 * j + k - 1) mod 8 \<noteq> 7"
    using M7F [of "8 * j + k - 1"] i by (auto simp only: bit_push_bit_iff bit_and_iff possible_bit_word)
  also have "\<dots> \<longleftrightarrow> 0 < k \<and> bit w (8 * j + (k - 1))"
  proof (cases k)
    case 0
    then show ?thesis by (cases j) (auto simp: algebra_simps)
  next
    case (Suc l)
    then have "8 * j + k - 1 = 8 * j + l" "l < 7" using k by linarith+
    then show ?thesis using Suc by simp
  qed
  finally show ?thesis
    unfolding echo_x2_def y_def [symmetric] by (simp only: bit_xor_iff 1) blast
qed

lemma echo_x2_bytes:
  fixes w :: "'a::len word"
  assumes M80: "\<And>i. i < L \<Longrightarrow> bit (M80 ops) i \<longleftrightarrow> i mod 8 = 7"
    and M7F: "\<And>i. i < L \<Longrightarrow> bit (M7F ops) i \<longleftrightarrow> i mod 8 \<noteq> 7"
    and L: "LENGTH('a) = L" "8 dvd L" "8 * m \<le> L"
  shows "map (\<lambda>j. ucast (drop_bit (8 * j) (echo_x2 ops w))) [0..<m] =
    map gf_mul2 (map (\<lambda>j. ucast (drop_bit (8 * j) w)) [0..<m])"
proof -
  have "ucast (drop_bit (8 * j) (echo_x2 ops w)) = gf_mul2 (ucast (drop_bit (8 * j) w))" if "j < m" for j
  proof (rule bit_word_eqI)
    fix k assume "k < LENGTH(8)"
    then have k: "k < 8" by simp
    moreover have "8 * j < L" using that L by linarith
    ultimately show "bit (ucast (drop_bit (8 * j) (echo_x2 ops w)) :: byte) k =
        bit (gf_mul2 (ucast (drop_bit (8 * j) w))) k"
      using bit_echo_x2 [of j k ops w, unfolded L(1), OF L(2) _ _ M80 M7F]
      by (auto simp: bit_gf_mul2 bit_unsigned_iff bit_drop_bit_eq)
  qed
  then show ?thesis by simp
qed

lemma echo_ops_simps [simp]:
  "EK echo_wide_ops = 2" "EK echo_narrow_ops = 4"
  "M80 echo_wide_ops = 0x8080808080808080" "M80 echo_narrow_ops = 0x80808080"
  "M7F echo_wide_ops = 0x7F7F7F7F7F7F7F7F" "M7F echo_narrow_ops = 0x7F7F7F7F"
  "DECW echo_wide_ops = sph_dec64le" "DECW echo_narrow_ops = sph_dec32le"
  "ENCW echo_wide_ops = sph_enc64le" "ENCW echo_narrow_ops = sph_enc32le"
  "X_SPLIT echo_wide_ops = (\<lambda>X. (ucast (X ! 0), ucast (drop_bit 32 (X ! 0)), ucast (X ! 1), ucast (drop_bit 32 (X ! 1))))"
  "X_SPLIT echo_narrow_ops = (\<lambda>X. (X ! 0, X ! 1, X ! 2, X ! 3))"
  "X_JOIN echo_wide_ops = (\<lambda>(X0, X1, X2, X3). [ucast X0 OR push_bit 32 (ucast X1), ucast X2 OR push_bit 32 (ucast X3)])"
  "X_JOIN echo_narrow_ops = (\<lambda>(X0, X1, X2, X3). [X0, X1, X2, X3])"
  "OUT_WORDS echo_wide_ops = (\<lambda>w32. (w32 + 1) div 2)" "OUT_WORDS echo_narrow_ops = (\<lambda>w32. w32)"
  by (simp_all add: echo_wide_ops_def echo_narrow_ops_def)

section \<open>The interface\<close>

locale echo_words =
  fixes ops :: "'a::len word echo_ops"
  assumes EK_cell: "EK ops * (16 div EK ops) = 16" "EK ops \<le> 4"
    and length_ENCW: "length (ENCW ops w) = 16 div EK ops"
    and ENCW_XOR: "ENCW ops (x XOR y) = xor_bytes (ENCW ops x) (ENCW ops y)"
    and ENCW_DECW: "length b = 16 div EK ops \<Longrightarrow> ENCW ops (DECW ops b) = b"
    and DECW_ENCW: "DECW ops (ENCW ops w) = w"
    and ENCW_x2: "ENCW ops (echo_x2 ops w) = map gf_mul2 (ENCW ops w)"
    and SPLIT_bytes: "length X = EK ops \<Longrightarrow> quad_bytes (X_SPLIT ops X) = concat (map (ENCW ops) X)"
    and JOIN_bytes: "length (X_JOIN ops Y) = EK ops" "concat (map (ENCW ops) (X_JOIN ops Y)) = quad_bytes Y"
    and init_bytes: "n < 2 ^ 16 \<Longrightarrow> concat (map (ENCW ops) (of_nat n # replicate (EK ops - 1) 0)) = le_bytes 16 n"
    and OUT_bytes: "4 * w32 \<le> OUT_WORDS ops w32 * (16 div EK ops)"
      "OUT_WORDS ops w32 * (16 div EK ops) \<le> 8 * ((w32 + 1) div 2)"

lemma bit_masks:
  "i < 64 \<Longrightarrow> bit (0x8080808080808080 :: u64) i \<longleftrightarrow> i mod 8 = 7"
  "i < 64 \<Longrightarrow> bit (0x7F7F7F7F7F7F7F7F :: u64) i \<longleftrightarrow> i mod 8 \<noteq> 7"
  "i < 32 \<Longrightarrow> bit (0x80808080 :: u32) i \<longleftrightarrow> i mod 8 = 7"
  "i < 32 \<Longrightarrow> bit (0x7F7F7F7F :: u32) i \<longleftrightarrow> i mod 8 \<noteq> 7"
proof -
  have "\<forall>i \<in> set [0..<64]. (bit (0x8080808080808080 :: u64) i \<longleftrightarrow> i mod 8 = 7) \<and>
      (bit (0x7F7F7F7F7F7F7F7F :: u64) i \<longleftrightarrow> i mod 8 \<noteq> 7)"
    "\<forall>i \<in> set [0..<32]. (bit (0x80808080 :: u32) i \<longleftrightarrow> i mod 8 = 7) \<and>
      (bit (0x7F7F7F7F :: u32) i \<longleftrightarrow> i mod 8 \<noteq> 7)"
    by (simp_all add: upt_32 upt_64 del: set_upt)
  then show "i < 64 \<Longrightarrow> bit (0x8080808080808080 :: u64) i \<longleftrightarrow> i mod 8 = 7"
    "i < 64 \<Longrightarrow> bit (0x7F7F7F7F7F7F7F7F :: u64) i \<longleftrightarrow> i mod 8 \<noteq> 7"
    "i < 32 \<Longrightarrow> bit (0x80808080 :: u32) i \<longleftrightarrow> i mod 8 = 7"
    "i < 32 \<Longrightarrow> bit (0x7F7F7F7F :: u32) i \<longleftrightarrow> i mod 8 \<noteq> 7"
    by simp_all
qed

lemma enc64le_XOR: "sph_enc64le (x XOR y) = xor_bytes (sph_enc64le x) (sph_enc64le y)"
  by (simp add: sph_enc64le_def xor_bytes_def) (auto intro!: bit_word_eqI simp: bit_simps)

lemma ucast_drop_of_nat:
  "k + 8 \<le> LENGTH('a) \<Longrightarrow> (ucast (drop_bit k (of_nat n :: 'a::len word)) :: byte) = of_nat (drop_bit k n)"
  by (rule bit_word_eqI) (auto simp: bit_simps)

lemma enc_le_bytes: "sph_enc32le (of_nat n) = le_bytes 4 n" "sph_enc64le (of_nat n) = le_bytes 8 n"
proof -
  have p: "n div 256 ^ i = drop_bit (8 * i) n" for i
  proof -
    have "(256 :: nat) ^ i = 2 ^ (8 * i)" by (simp only: power_mult) simp
    then show ?thesis by (simp only: drop_bit_eq_div)
  qed
  show "sph_enc32le (of_nat n) = le_bytes 4 n" "sph_enc64le (of_nat n) = le_bytes 8 n"
    unfolding sph_enc32le_map sph_enc64le_map le_bytes_def p
    by (rule map_cong, rule refl, rule ucast_drop_of_nat, simp)+
qed

lemma le_bytes_append: "le_bytes (a + b) n = le_bytes a n @ le_bytes b (n div 256 ^ a)"
proof -
  have "[0..<a + b] = [0..<a] @ map (\<lambda>i. i + a) [0..<b]" using upt_add_eq_append [of 0 a b] map_add_upt [of a b] by (simp add: add.commute)
  moreover have "n div 256 ^ (i + a) = n div 256 ^ a div 256 ^ i" for i
    by (simp only: add.commute [of i] power_add div_mult2_eq)
  ultimately show ?thesis by (simp only: le_bytes_def map_append map_map comp_def)
qed

lemma le_bytes_small: "n < 256 ^ a \<Longrightarrow> le_bytes (a + b) n = le_bytes a n @ replicate b 0"
  by (simp add: le_bytes_append) (simp add: le_bytes_def map_replicate_const)

lemma enc64le_halves: "sph_enc64le w = sph_enc32le (ucast w) @ sph_enc32le (ucast (drop_bit 32 w))"
  by (simp add: sph_enc64le_def sph_enc32le_def) (intro conjI bit_word_eqI; simp add: bit_simps)

lemma enc64le_join: "sph_enc64le (ucast l OR push_bit 32 (ucast h)) = sph_enc32le l @ sph_enc32le h"
proof -
  have "ucast (ucast l OR push_bit 32 (ucast h) :: u64) = l"
    "ucast (drop_bit 32 (ucast l OR push_bit 32 (ucast h) :: u64)) = h"
    by (auto intro!: bit_word_eqI simp: bit_simps bit_beyond)
  then show ?thesis by (simp only: enc64le_halves)
qed

lemma echo_wide_words: "echo_words echo_wide_ops"
proof (unfold_locales, goal_cases)
  case (7 w)
  show ?case using echo_x2_bytes [of 64 echo_wide_ops 8 w] bit_masks(1,2) by (simp add: sph_enc64le_map)
next
  case (8 X)
  then obtain x y where "X = [x, y]" by (auto simp: numeral_eq_Suc length_Suc_conv)
  then show ?case by (simp add: quad_bytes_def enc64le_halves)
next
  case (11 n)
  have "sph_enc64le 0 = replicate 8 0" by (simp add: sph_enc64le_def numeral_eq_Suc)
  then show ?case
    using 11 le_bytes_small [of n 8 8] enc_le_bytes(2) [of n] by simp
qed (auto simp: enc64le_XOR sph_enc64le_dec64le sph_dec64le_enc64le enc64le_join quad_bytes_def split: prod.splits)

lemma echo_narrow_words: "echo_words echo_narrow_ops"
proof (unfold_locales, goal_cases)
  case (7 w)
  show ?case using echo_x2_bytes [of 32 echo_narrow_ops 4 w] bit_masks(3,4) by (simp add: sph_enc32le_map)
next
  case (8 X)
  then obtain x y z t where "X = [x, y, z, t]" by (auto simp: numeral_eq_Suc length_Suc_conv)
  then show ?case by (simp add: quad_bytes_def)
next
  case (11 n)
  have "sph_enc32le 0 = replicate 4 0" "replicate 12 0 = replicate 4 0 @ replicate 4 0 @ replicate 4 (0 :: byte)"
    "replicate 3 0 = [0, 0, 0 :: u32]"
    by (simp_all add: sph_enc32le_def replicate_add [symmetric] numeral_eq_Suc)
  then show ?case
    using 11 le_bytes_small [of n 4 12] enc_le_bytes(1) [of n] by simp
qed (auto simp: enc32le_XOR sph_enc32le_dec32le sph_dec32le_enc32le quad_bytes_def split: prod.splits)

interpretation ew_wide: echo_words echo_wide_ops
  by (rule echo_wide_words)

interpretation ew_narrow: echo_words echo_narrow_ops
  by (rule echo_narrow_words)

section \<open>The counter\<close>

text \<open>The four words of a number, modulo \<open>2\<^sup>1\<^sup>2\<^sup>8\<close>.\<close>

definition counter_of :: "nat \<Rightarrow> counter" where
  "counter_of n = (of_nat n, of_nat (n div 2 ^ 32), of_nat (n div 2 ^ 64), of_nat (n div 2 ^ 96))"

lemma counter_of_0: "counter_of 0 = (0, 0, 0, 0)"
  by (simp add: counter_of_def)

lemma quad_bytes_counter: "quad_bytes (counter_of n) = le_bytes 16 n"
proof -
  have "le_bytes (4 + (4 + (4 + 4))) n = le_bytes 4 n @ le_bytes 4 (n div 2 ^ 32) @ le_bytes 4 (n div 2 ^ 64) @ le_bytes 4 (n div 2 ^ 96)"
    by (simp only: le_bytes_append append_assoc div_mult2_eq [symmetric]) (simp add: div_mult2_eq [symmetric])
  then show ?thesis by (simp add: quad_bytes_def counter_of_def enc_le_bytes)
qed

text \<open>One carry: a word that becomes 0 passes it on.\<close>

lemma word_carry:
  "(of_nat N + 1 :: u32) = of_nat (Suc N)" "(of_nat N + 1 :: u32) = 0 \<longleftrightarrow> 2 ^ 32 dvd Suc N"
  "Suc N div 2 ^ 32 = (if 2 ^ 32 dvd Suc N then Suc (N div 2 ^ 32) else N div 2 ^ 32)"
proof -
  show s: "(of_nat N + 1 :: u32) = of_nat (Suc N)" by simp
  show "(of_nat N + 1 :: u32) = 0 \<longleftrightarrow> 2 ^ 32 dvd Suc N"
    unfolding s by (simp add: word_of_nat_eq_0_iff del: of_nat_Suc)
  show "Suc N div 2 ^ 32 = (if 2 ^ 32 dvd Suc N then Suc (N div 2 ^ 32) else N div 2 ^ 32)"
    by (simp only: div_Suc dvd_eq_mod_eq_0)
qed

text \<open>The three upper words.\<close>

definition upper_of :: "nat \<Rightarrow> u32 \<times> u32 \<times> u32" where
  "upper_of m = (of_nat m, of_nat (m div 2 ^ 32), of_nat (m div 2 ^ 32 div 2 ^ 32))"

lemma counter_of_upper: "counter_of n = (of_nat n, upper_of (n div 2 ^ 32))"
  by (simp add: counter_of_def upper_of_def div_mult2_eq [symmetric])

lemma upper_of_Suc:
  "upper_of (Suc m) = (case upper_of m of (K1, K2, K3) \<Rightarrow>
     let K1 = K1 + 1
     in if K1 = 0 then
          let K2 = K2 + 1
          in if K2 = 0 then (K1, K2, K3 + 1) else (K1, K2, K3)
        else (K1, K2, K3))"
  unfolding upper_of_def prod.case Let_def word_carry(2)
  by (cases "2 ^ 32 dvd Suc m"; cases "2 ^ 32 dvd Suc (m div 2 ^ 32)")
    (simp_all only: word_carry(1) word_carry(3) if_True if_False)

lemma K_INCR_counter: "K_INCR (counter_of n) = counter_of (Suc n)"
proof -
  have "K_INCR (of_nat n, upper_of m) = (of_nat (Suc n), if 2 ^ 32 dvd Suc n then upper_of (Suc m) else upper_of m)" for m
    unfolding K_INCR_def upper_of_Suc Let_def prod.case word_carry(2) by (auto split: prod.split)
  then show ?thesis unfolding counter_of_upper word_carry(3) [of n] by simp
qed

lemma INCR_COUNTER_counter:
  assumes "v < 2 ^ 32"
  shows "INCR_COUNTER (counter_of n) (of_nat v) = counter_of (n + v)"
proof -
  have u: "unat (of_nat n :: u32) = n mod 2 ^ 32" "unat (of_nat v :: u32) = v" "unat (of_nat n + of_nat v :: u32) = (n + v) mod 2 ^ 32"
    using assms by (simp_all add: unat_of_nat take_bit_eq_mod of_nat_add [symmetric] del: of_nat_add)
  define a where "a = n mod 2 ^ 32"
  have a: "a < 2 ^ 32" "n = 2 ^ 32 * (n div 2 ^ 32) + a" by (simp_all add: a_def)
  have "(n + v) mod 2 ^ 32 = (a + v) mod 2 ^ 32" by (simp add: a_def mod_add_left_eq)
  also have "\<dots> = (if a + v < 2 ^ 32 then a + v else a + v - 2 ^ 32)"
    using a(1) assms by (simp add: mod_if)
  finally have c: "(of_nat n + of_nat v < (of_nat v :: u32)) \<longleftrightarrow> 2 ^ 32 \<le> a + v"
    unfolding word_less_nat_alt u using a(1) assms by (auto split: if_splits)
  have d: "(n + v) div 2 ^ 32 = (if 2 ^ 32 \<le> a + v then Suc (n div 2 ^ 32) else n div 2 ^ 32)"
  proof -
    have "(2 ^ 32 * q + (a + v)) div 2 ^ 32 = q + (a + v) div 2 ^ 32" for q by simp
    from this [of "n div 2 ^ 32"] have "(n + v) div 2 ^ 32 = n div 2 ^ 32 + (a + v) div 2 ^ 32"
      using a(2) by (simp only: add.assoc [symmetric])
    also have "(a + v) div 2 ^ 32 = (if 2 ^ 32 \<le> a + v then 1 else 0)"
      using a(1) assms by (auto simp: div_if)
    finally show ?thesis by simp
  qed
  have "INCR_COUNTER (of_nat n, upper_of m) (of_nat v) =
      (of_nat (n + v), if 2 ^ 32 \<le> a + v then upper_of (Suc m) else upper_of m)" for m
    unfolding INCR_COUNTER_def upper_of_Suc Let_def prod.case c by (auto split: prod.split)
  then show ?thesis unfolding counter_of_upper d by simp
qed

end
