(* ===== verification/Echo_Round.thy ===== *)
theory Echo_Round
  imports Echo_Words
begin

text \<open>
  The big round and the compression functions of \<open>echo.c\<close> compute those of the specification.
  Shifting rows and mixing columns act on one word of each cell at a time; they are first shown
  to be the specification's operations on cells as lists of words, whatever the number of words,
  and then on cells as bytes.
\<close>

section \<open>Cells as lists of words\<close>

definition cells_wf :: "nat \<Rightarrow> 'w cells \<Rightarrow> bool" where
  "cells_wf k W \<longleftrightarrow> length W = 16 \<and> (\<forall>X \<in> set W. length X = k)"

definition col :: "nat \<Rightarrow> 'w cells \<Rightarrow> 'w list" where
  "col n W = map (\<lambda>X. X ! n) W"

lemma length_col [simp]: "length (col n W) = length W"
  by (simp add: col_def)

lemma cells_wf_nth: "cells_wf k W \<Longrightarrow> i < 16 \<Longrightarrow> length (W ! i) = k"
  by (simp add: cells_wf_def)

lemma cells_wf_length: "cells_wf k W \<Longrightarrow> length W = 16"
  by (simp add: cells_wf_def)

lemma cells_eqI:
  assumes "cells_wf k W" "cells_wf k W'" "\<And>n. n < k \<Longrightarrow> col n W = col n W'"
  shows "W = W'"
proof (rule nth_equalityI)
  show "length W = length W'" using assms by (simp add: cells_wf_def)
  fix i assume i: "i < length W"
  show "W ! i = W' ! i"
  proof (rule nth_equalityI)
    show "length (W ! i) = length (W' ! i)" using assms i by (simp add: cells_wf_def)
    fix n assume "n < length (W ! i)"
    then have "n < k" using assms i by (simp add: cells_wf_def)
    then have "col n W ! i = col n W' ! i" using assms(3) by simp
    then show "W ! i ! n = W' ! i ! n" using i assms by (simp add: col_def cells_wf_def)
  qed
qed

lemma cell_get_col: "cells_wf k W \<Longrightarrow> i < 16 \<Longrightarrow> cell_get W i n = col n W ! i"
  by (simp add: cell_get_def col_def cells_wf_def)

lemma col_cell_set:
  "cells_wf k W \<Longrightarrow> n < k \<Longrightarrow> i < 16 \<Longrightarrow> col n (cell_set W i n v) = (col n W)[i := v]"
  "n' \<noteq> n \<Longrightarrow> col n' (cell_set W i n v) = col n' W"
proof -
  assume "cells_wf k W" "n < k" "i < 16"
  then show "col n (cell_set W i n v) = (col n W)[i := v]"
    by (simp add: col_def cell_set_def map_update cells_wf_def)
next
  assume "n' \<noteq> n"
  then show "col n' (cell_set W i n v) = col n' W"
    by (cases "i < length W")
      (simp_all add: col_def cell_set_def map_update list_update_beyond, metis list_update_id map_update nth_map)
qed

lemma cells_wf_cell_set [simp]: "cells_wf k W \<Longrightarrow> cells_wf k (cell_set W i n v)"
  by (cases "i < length W")
    (auto simp: cells_wf_def cell_set_def list_update_beyond dest!: set_update_subset_insert [THEN subsetD])

text \<open>A loop over the words of a cell whose step works on one word of each.\<close>

definition col_step :: "nat \<Rightarrow> (nat \<Rightarrow> 'w cells \<Rightarrow> 'w cells) \<Rightarrow> ('w list \<Rightarrow> 'w list) \<Rightarrow> bool" where
  "col_step k step g \<longleftrightarrow> (\<forall>n W. n < k \<longrightarrow> cells_wf k W \<longrightarrow>
     cells_wf k (step n W) \<and> col n (step n W) = g (col n W) \<and> (\<forall>n'. n' \<noteq> n \<longrightarrow> col n' (step n W) = col n' W))"

lemma fold_col_step:
  assumes "col_step k step g" "cells_wf k W"
  shows "cells_wf k (fold step [0..<k] W)" and "n < k \<Longrightarrow> col n (fold step [0..<k] W) = g (col n W)"
proof -
  have *: "cells_wf k (fold step [0..<m] W) \<and>
      (\<forall>n < k. col n (fold step [0..<m] W) = (if n < m then g (col n W) else col n W))" if "m \<le> k" for m
    using that
  proof (induction m)
    case 0
    then show ?case using assms(2) by simp
  next
    case (Suc m)
    let ?U = "fold step [0..<m] W"
    have "cells_wf k (step m ?U) \<and> col m (step m ?U) = g (col m ?U) \<and> (\<forall>n'. n' \<noteq> m \<longrightarrow> col n' (step m ?U) = col n' ?U)"
      using assms(1) Suc unfolding col_step_def by simp
    then show ?case using Suc by (auto simp: less_Suc_eq)
  qed
  from * [of k] show "cells_wf k (fold step [0..<k] W)" "n < k \<Longrightarrow> col n (fold step [0..<k] W) = g (col n W)"
    by simp_all
qed

section \<open>Shifting rows\<close>

lemma col_step_ROW1:
  assumes "a < 16" "b < 16" "c < 16" "d < 16" "distinct [a, b, c, d]"
  shows "col_step k (\<lambda>n W.
       let tmp = cell_get W a n;
           W = cell_set W a n (cell_get W b n);
           W = cell_set W b n (cell_get W c n);
           W = cell_set W c n (cell_get W d n)
       in cell_set W d n tmp)
     (\<lambda>v. v[a := v ! b, b := v ! c, c := v ! d, d := v ! a])"
  using assms
  by (auto simp: col_step_def Let_def cell_get_col [where k = k] col_cell_set(1) [where k = k] col_cell_set(2))

lemma col_step_ROW2:
  assumes "a < 16" "b < 16" "c < 16" "d < 16" "distinct [a, b, c, d]"
  shows "col_step k (\<lambda>n W.
       let tmp = cell_get W a n;
           W = cell_set W a n (cell_get W c n);
           W = cell_set W c n tmp;
           tmp = cell_get W b n;
           W = cell_set W b n (cell_get W d n)
       in cell_set W d n tmp)
     (\<lambda>v. v[a := v ! c, c := v ! a, b := v ! d, d := v ! b])"
  using assms
  by (auto simp: col_step_def Let_def cell_get_col [where k = k] col_cell_set(1) [where k = k] col_cell_set(2))

lemma list16E:
  assumes "length v = 16"
  obtains v0 v1 v2 v3 v4 v5 v6 v7 v8 v9 v10 v11 v12 v13 v14 v15 where
    "v = [v0, v1, v2, v3, v4, v5, v6, v7, v8, v9, v10, v11, v12, v13, v14, v15]"
  using assms by (auto simp: length_Suc_conv eval_nat_numeral)

lemma row_updates:
  assumes "length v = 16"
  shows "(let v = v[1 := v ! 5, 5 := v ! 9, 9 := v ! 13, 13 := v ! 1];
      v = v[2 := v ! 10, 10 := v ! 2, 6 := v ! 14, 14 := v ! 6]
    in v[15 := v ! 11, 11 := v ! 7, 7 := v ! 3, 3 := v ! 15]) = shift_rows v"
  by (rule list16E [OF assms]) (simp add: shift_rows_def upt_16 Let_def)

lemma shift_rows_map: "length v = 16 \<Longrightarrow> map h (shift_rows v) = shift_rows (map h v)"
  by (simp add: shift_rows_def)

lemma cells_wf_shift_rows: "cells_wf k W \<Longrightarrow> cells_wf k (shift_rows W)"
  by (auto simp: cells_wf_def shift_rows_def)

lemma BIG_SHIFT_ROWS_cells:
  assumes W: "cells_wf (EK ops) W"
  shows "BIG_SHIFT_ROWS ops W = shift_rows W"
proof -
  let ?W1 = "SHIFT_ROW1 ops 1 5 9 13 W"
  let ?W2 = "SHIFT_ROW2 ops 2 6 10 14 ?W1"
  have s1: "cells_wf (EK ops) (?W1)"
    "n < EK ops \<Longrightarrow> col n (?W1) = (let v = col n W in v[1 := v ! 5, 5 := v ! 9, 9 := v ! 13, 13 := v ! 1])" for n
    using fold_col_step(1) [OF col_step_ROW1 [of 1 5 9 13 "EK ops"] W] fold_col_step(2) [OF col_step_ROW1 [of 1 5 9 13 "EK ops"] W, of n]
    by (simp_all add: SHIFT_ROW1_def Let_def)
  have s2: "cells_wf (EK ops) (?W2)"
    "n < EK ops \<Longrightarrow> col n (?W2) = (let v = col n ?W1 in v[2 := v ! 10, 10 := v ! 2, 6 := v ! 14, 14 := v ! 6])" for n
    using fold_col_step(1) [OF col_step_ROW2 [of 2 6 10 14 "EK ops"] s1(1)] fold_col_step(2) [OF col_step_ROW2 [of 2 6 10 14 "EK ops"] s1(1), of n]
    by (simp_all add: SHIFT_ROW2_def Let_def)
  have s3: "cells_wf (EK ops) (SHIFT_ROW1 ops 15 11 7 3 ?W2)"
    "n < EK ops \<Longrightarrow> col n (SHIFT_ROW1 ops 15 11 7 3 ?W2) = (let v = col n ?W2 in v[15 := v ! 11, 11 := v ! 7, 7 := v ! 3, 3 := v ! 15])" for n
    using fold_col_step(1) [OF col_step_ROW1 [of 15 11 7 3 "EK ops"] s2(1)] fold_col_step(2) [OF col_step_ROW1 [of 15 11 7 3 "EK ops"] s2(1), of n]
    by (simp_all add: SHIFT_ROW1_def Let_def)
  have B: "BIG_SHIFT_ROWS ops W = SHIFT_ROW1 ops 15 11 7 3 ?W2"
    by (simp add: BIG_SHIFT_ROWS_def SHIFT_ROW3_def)
  show ?thesis unfolding B
  proof (rule cells_eqI [OF s3(1)])
    show "cells_wf (EK ops) (shift_rows W)" by (rule cells_wf_shift_rows [OF W])
  next
    fix n assume n: "n < EK ops"
    have "length (col n W) = 16" using W by (simp add: cells_wf_def)
    from row_updates [OF this] show "col n (SHIFT_ROW1 ops 15 11 7 3 ?W2) = col n (shift_rows W)"
      using W unfolding s3(2) [OF n] s2(2) [OF n] s1(2) [OF n]
      by (simp add: Let_def col_def shift_rows_map cells_wf_def)
  qed
qed

section \<open>Mixing columns\<close>

lemma mix4_hom:
  assumes "length c = 4" "\<forall>x \<in> set c. P x"
    and P: "\<And>x y. P x \<Longrightarrow> P y \<Longrightarrow> P (add x y)" "\<And>x. P x \<Longrightarrow> P (dbl x)"
    and h: "\<And>x y. P x \<Longrightarrow> P y \<Longrightarrow> h (add x y) = add' (h x) (h y)" "\<And>x. P x \<Longrightarrow> h (dbl x) = dbl' (h x)"
  shows "map h (mix4 add dbl c) = mix4 add' dbl' (map h c)" and "\<forall>x \<in> set (mix4 add dbl c). P x"
  using assms by (auto simp: mix4_def Let_def P h)

lemma mix_columns_hom:
  assumes "length W = 16" "\<forall>x \<in> set W. P x"
    and P: "\<And>x y. P x \<Longrightarrow> P y \<Longrightarrow> P (add x y)" "\<And>x. P x \<Longrightarrow> P (dbl x)"
    and h: "\<And>x y. P x \<Longrightarrow> P y \<Longrightarrow> h (add x y) = add' (h x) (h y)" "\<And>x. P x \<Longrightarrow> h (dbl x) = dbl' (h x)"
  shows "map h (mix_columns add dbl W) = mix_columns add' dbl' (map h W)" and "\<forall>x \<in> set (mix_columns add dbl W). P x"
proof -
  have c: "length (take 4 (drop (4 * j) W)) = 4" "\<forall>x \<in> set (take 4 (drop (4 * j) W)). P x" if "j < 4" for j
    using assms that by (auto dest!: in_set_takeD in_set_dropD)
  note m = mix4_hom [where P = P and add = add and dbl = dbl and h = h and add' = add' and dbl' = dbl', OF c P h]
  have "map h (mix4 add dbl (take 4 (drop (4 * j) W))) = mix4 add' dbl' (take 4 (drop (4 * j) (map h W)))" if "j < 4" for j
    using m(1) [OF that that] by (simp only: take_map drop_map)
  from this [of 0] this [of 1] this [of 2] this [of 3]
  show "map h (mix_columns add dbl W) = mix_columns add' dbl' (map h W)"
    by (simp add: mix_columns_def)
  have "\<forall>x \<in> set (mix4 add dbl (take 4 (drop (4 * j) W))). P x" if "j < 4" for j
    using m(2) [OF that that] .
  moreover have "j < 4" if "j \<in> set [0, 1, 2, 3]" for j :: nat using that by auto
  ultimately show "\<forall>x \<in> set (mix_columns add dbl W). P x"
    unfolding mix_columns_def set_concat set_map by blast
qed

text \<open>
  The code shares \<open>a + b\<close>, \<open>b + c\<close> and \<open>c + d\<close> and their doubles between the four outputs.
\<close>

definition mix_code :: "'a::len word echo_ops \<Rightarrow> 'a word list \<Rightarrow> 'a word list" where
  "mix_code ops v = (case v of [a, b, c, d] \<Rightarrow>
     let ab = a XOR b; bc = b XOR c; cd = c XOR d;
         abx = echo_x2 ops ab; bcx = echo_x2 ops bc; cdx = echo_x2 ops cd
     in [abx XOR bc XOR d, bcx XOR a XOR cd, cdx XOR ab XOR d, abx XOR bcx XOR cdx XOR ab XOR c])"

lemma col_step_MIX:
  assumes "ia < 16" "ib < 16" "ic < 16" "ie < 16" "distinct [ia, ib, ic, ie]"
  shows "col_step k (MIX_COLUMN1 ops ia ib ic ie)
    (\<lambda>v. let m = mix_code ops [v ! ia, v ! ib, v ! ic, v ! ie]
      in v[ia := m ! 0, ib := m ! 1, ic := m ! 2, ie := m ! 3])"
  using assms
  by (auto simp: col_step_def Let_def MIX_COLUMN1_def mix_code_def cell_get_col [where k = k]
      col_cell_set(1) [where k = k] col_cell_set(2))

context echo_words begin

lemma ENCW_inject: "ENCW ops x = ENCW ops y \<Longrightarrow> x = y"
  by (metis DECW_ENCW)

lemma x2_XOR: "echo_x2 ops (x XOR y) = echo_x2 ops x XOR echo_x2 ops y"
  by (rule ENCW_inject) (auto simp: ENCW_x2 ENCW_XOR xor_bytes_def gf_mul2_XOR zip_map_map comp_def split_def
      intro!: nth_equalityI)

lemma mix_code_mix4: "length v = 4 \<Longrightarrow> mix_code ops v = mix4 (XOR) (echo_x2 ops) v"
  by (erule list4E) (simp add: mix_code_def mix4_def Let_def x2_XOR ac_simps)

lemma BIG_MIX_COLUMNS_cols:
  assumes W: "cells_wf (EK ops) W"
  shows "cells_wf (EK ops) (BIG_MIX_COLUMNS ops W)"
    and "n < EK ops \<Longrightarrow> col n (BIG_MIX_COLUMNS ops W) = mix_columns (XOR) (echo_x2 ops) (col n W)"
proof -
  define g where "g ia ib ic ie v = (let m = mix_code ops [v ! ia, v ! ib, v ! ic, v ! ie]
      in v[ia := m ! 0, ib := m ! 1, ic := m ! 2, ie := m ! 3])" for ia ib ic ie and v :: "'a word list"
  have step: "cells_wf (EK ops) (MIX_COLUMN ops ia ib ic ie U) \<and>
      (\<forall>n < EK ops. col n (MIX_COLUMN ops ia ib ic ie U) = g ia ib ic ie (col n U))"
    if "cells_wf (EK ops) U" "ia < 16" "ib < 16" "ic < 16" "ie < 16" "distinct [ia, ib, ic, ie]" for ia ib ic ie U
    using fold_col_step [OF col_step_MIX [OF that(2-6)] that(1)]
    by (simp add: MIX_COLUMN_def g_def)
  define W1 where "W1 = MIX_COLUMN ops 0 1 2 3 W"
  define W2 where "W2 = MIX_COLUMN ops 4 5 6 7 W1"
  define W3 where "W3 = MIX_COLUMN ops 8 9 10 11 W2"
  have 1: "cells_wf (EK ops) W1 \<and> (\<forall>n < EK ops. col n W1 = g 0 1 2 3 (col n W))"
    unfolding W1_def by (rule step) (simp_all add: W)
  then have 2: "cells_wf (EK ops) W2 \<and> (\<forall>n < EK ops. col n W2 = g 4 5 6 7 (col n W1))"
    unfolding W2_def by (intro step) simp_all
  then have 3: "cells_wf (EK ops) W3 \<and> (\<forall>n < EK ops. col n W3 = g 8 9 10 11 (col n W2))"
    unfolding W3_def by (intro step) simp_all
  then have 4: "cells_wf (EK ops) (MIX_COLUMN ops 12 13 14 15 W3) \<and>
      (\<forall>n < EK ops. col n (MIX_COLUMN ops 12 13 14 15 W3) = g 12 13 14 15 (col n W3))"
    by (intro step) simp_all
  have B: "BIG_MIX_COLUMNS ops W = MIX_COLUMN ops 12 13 14 15 W3"
    by (simp add: BIG_MIX_COLUMNS_def Let_def W1_def W2_def W3_def)
  show "cells_wf (EK ops) (BIG_MIX_COLUMNS ops W)" using 4 B by simp
  assume n: "n < EK ops"
  have "length (col n W) = 16" using W by (simp add: cells_wf_def)
  then have "g 12 13 14 15 (g 8 9 10 11 (g 4 5 6 7 (g 0 1 2 3 (col n W)))) = mix_columns (XOR) (echo_x2 ops) (col n W)"
    by (rule list16E) (simp add: g_def mix_code_mix4 Let_def mix_columns_def, simp add: mix4_def Let_def)
  then show "col n (BIG_MIX_COLUMNS ops W) = mix_columns (XOR) (echo_x2 ops) (col n W)"
    using 1 2 3 4 B n by simp
qed

lemma BIG_MIX_COLUMNS_cells:
  assumes W: "cells_wf (EK ops) W"
  shows "BIG_MIX_COLUMNS ops W = mix_columns (map2 (XOR)) (map (echo_x2 ops)) W"
proof (rule cells_eqI [OF BIG_MIX_COLUMNS_cols(1) [OF W]])
  have l: "length W = 16" "\<forall>X \<in> set W. length X = EK ops" using W by (simp_all add: cells_wf_def)
  note hom = mix_columns_hom [OF l, where add = "map2 (XOR)" and dbl = "map (echo_x2 ops)"]
  show "cells_wf (EK ops) (mix_columns (map2 (XOR)) (map (echo_x2 ops)) W)"
    unfolding cells_wf_def using hom(2) [where h = id and add' = "map2 (XOR)" and dbl' = "map (echo_x2 ops)"] by simp
  fix n assume n: "n < EK ops"
  then show "col n (BIG_MIX_COLUMNS ops W) = col n (mix_columns (map2 (XOR)) (map (echo_x2 ops)) W)"
    using hom(1) [where h = "\<lambda>X. X ! n" and add' = "(XOR)" and dbl' = "echo_x2 ops"]
    by (simp add: BIG_MIX_COLUMNS_cols(2) [OF W n]) (simp add: col_def)
qed

end

section \<open>Cells as bytes\<close>

definition cell_bytes :: "'w echo_ops \<Rightarrow> 'w list \<Rightarrow> byte list" where
  "cell_bytes ops X = concat (map (ENCW ops) X)"

definition cells_bytes :: "'w echo_ops \<Rightarrow> 'w cells \<Rightarrow> byte list list" where
  "cells_bytes ops W = map (cell_bytes ops) W"

context echo_words begin

lemma length_cell_bytes: "length (cell_bytes ops X) = 16 div EK ops * length X"
  using length_concat_eq [of "map (ENCW ops) X" "16 div EK ops"] by (simp add: cell_bytes_def length_ENCW)

lemma length_cell_bytes_16: "length X = EK ops \<Longrightarrow> length (cell_bytes ops X) = 16"
  using EK_cell(1) by (simp add: length_cell_bytes mult.commute)

lemma cell_bytes_XOR:
  "length X = length Y \<Longrightarrow> cell_bytes ops (map2 (XOR) X Y) = xor_bytes (cell_bytes ops X) (cell_bytes ops Y)"
proof (induction X Y rule: list_induct2)
  case (Cons x X y Y)
  then show ?case by (simp add: cell_bytes_def ENCW_XOR xor_bytes_def length_ENCW)
qed (simp add: cell_bytes_def xor_bytes_def)

lemma cell_bytes_x2: "cell_bytes ops (map (echo_x2 ops) X) = map gf_mul2 (cell_bytes ops X)"
  by (induction X) (simp_all add: cell_bytes_def ENCW_x2)

lemma cells_bytes_mix:
  assumes W: "cells_wf (EK ops) W"
  shows "cells_bytes ops (BIG_MIX_COLUMNS ops W) = mix_columns xor_bytes (map gf_mul2) (cells_bytes ops W)"
  unfolding BIG_MIX_COLUMNS_cells [OF W] cells_bytes_def
  by (rule mix_columns_hom(1) [where P = "\<lambda>X. length X = EK ops"])
    (use W in \<open>auto simp: cells_wf_def cell_bytes_XOR cell_bytes_x2\<close>)

lemma cells_bytes_shift:
  assumes "cells_wf (EK ops) W"
  shows "cells_bytes ops (BIG_SHIFT_ROWS ops W) = shift_rows (cells_bytes ops W)"
  using assms by (simp add: BIG_SHIFT_ROWS_cells cells_bytes_def shift_rows_map cells_wf_def)

text \<open>The two AES rounds of each cell, and the counter they leave behind.\<close>

lemma AES_2ROUNDS_bytes:
  assumes "cells_wf (EK ops) W" "i < 16"
  shows "\<exists>X. AES_2ROUNDS ops i (W, counter_of c) = (W[i := X], counter_of (Suc c)) \<and> length X = EK ops \<and>
    cell_bytes ops X = aes_round_spec (aes_round_spec (cell_bytes ops (W ! i)) (le_bytes 16 c)) (replicate 16 0)"
proof -
  have "quad_bytes (0, 0, 0, 0) = replicate 16 0"
    by (simp add: quad_bytes_def sph_enc32le_def eval_nat_numeral)
  then have "cell_bytes ops (X_JOIN ops (AES_ROUND_NOKEY_LE (AES_ROUND_LE (X_SPLIT ops (W ! i)) (counter_of c)))) =
      aes_round_spec (aes_round_spec (cell_bytes ops (W ! i)) (le_bytes 16 c)) (replicate 16 0)"
    using assms
    by (simp add: AES_ROUND_NOKEY_LE_def JOIN_bytes cell_bytes_def AES_ROUND_LE_bytes SPLIT_bytes cells_wf_nth
        quad_bytes_counter)
  then show ?thesis
    unfolding AES_2ROUNDS_def prod.case Let_def K_INCR_counter using JOIN_bytes(1) by blast
qed

lemma SUB_WORDS_bytes:
  assumes W: "cells_wf (EK ops) W"
  shows "\<exists>W'. BIG_SUB_WORDS ops (W, counter_of c) = (W', counter_of (c + 16)) \<and> cells_wf (EK ops) W' \<and>
    cells_bytes ops W' = big_sub_words c (cells_bytes ops W)"
proof -
  let ?f = "\<lambda>i. aes_round_spec (aes_round_spec (cell_bytes ops (W ! i)) (le_bytes 16 (c + i))) (replicate 16 0)"
  have "\<exists>W'. fold (AES_2ROUNDS ops) [0..<m] (W, counter_of c) = (W', counter_of (c + m)) \<and> cells_wf (EK ops) W' \<and>
      (\<forall>i < 16. cell_bytes ops (W' ! i) = (if i < m then ?f i else cell_bytes ops (W ! i)))" if "m \<le> 16" for m
    using that
  proof (induction m)
    case 0
    then show ?case using W by simp
  next
    case (Suc m)
    then obtain U where U: "fold (AES_2ROUNDS ops) [0..<m] (W, counter_of c) = (U, counter_of (c + m))" "cells_wf (EK ops) U"
      "\<forall>i < 16. cell_bytes ops (U ! i) = (if i < m then ?f i else cell_bytes ops (W ! i))" by auto
    obtain X where X: "AES_2ROUNDS ops m (U, counter_of (c + m)) = (U[m := X], counter_of (Suc (c + m)))" "length X = EK ops"
      "cell_bytes ops X = aes_round_spec (aes_round_spec (cell_bytes ops (U ! m)) (le_bytes 16 (c + m))) (replicate 16 0)"
      using AES_2ROUNDS_bytes [OF U(2), of m "c + m"] Suc.prems by auto
    have "cells_wf (EK ops) (U[m := X])"
      using U(2) X(2) by (auto simp: cells_wf_def dest!: set_update_subset_insert [THEN subsetD])
    moreover have "cell_bytes ops (U[m := X] ! i) = (if i < Suc m then ?f i else cell_bytes ops (W ! i))" if "i < 16" for i
      using that U(2,3) X(3) Suc.prems by (cases "i = m") (auto simp: cells_wf_def less_Suc_eq)
    ultimately show ?case using U(1) X(1) by simp
  qed
  from this [of 16] obtain W' where W': "BIG_SUB_WORDS ops (W, counter_of c) = (W', counter_of (c + 16))" "cells_wf (EK ops) W'"
    "\<forall>i < 16. cell_bytes ops (W' ! i) = ?f i"
    by (auto simp: BIG_SUB_WORDS_def upt_16)
  then have "cells_bytes ops W' = big_sub_words c (cells_bytes ops W)"
    using W by (intro nth_equalityI) (simp_all add: cells_bytes_def big_sub_words_def cells_wf_def)
  with W' show ?thesis by blast
qed

lemma BIG_ROUND_bytes:
  assumes W: "cells_wf (EK ops) W"
  shows "\<exists>W'. BIG_ROUND ops (W, counter_of c) = (W', counter_of (c + 16)) \<and> cells_wf (EK ops) W' \<and>
    cells_bytes ops W' = big_round_spec c (cells_bytes ops W)"
proof -
  obtain U where U: "BIG_SUB_WORDS ops (W, counter_of c) = (U, counter_of (c + 16))" "cells_wf (EK ops) U"
    "cells_bytes ops U = big_sub_words c (cells_bytes ops W)" using SUB_WORDS_bytes [OF W] by blast
  have S: "cells_wf (EK ops) (BIG_SHIFT_ROWS ops U)"
    using U(2) by (simp add: BIG_SHIFT_ROWS_cells cells_wf_shift_rows)
  show ?thesis
    using U S BIG_MIX_COLUMNS_cols(1) [OF S]
    by (simp add: BIG_ROUND_def cells_bytes_mix cells_bytes_shift big_round_spec_def)
qed

lemma ROUNDS_bytes:
  assumes W: "cells_wf (EK ops) W"
  shows "\<exists>W'. (BIG_ROUND ops ^^ r) (W, counter_of c) = (W', counter_of (c + 16 * r)) \<and> cells_wf (EK ops) W' \<and>
    cells_bytes ops W' = echo_rounds_spec r c (cells_bytes ops W)"
proof (induction r)
  case 0
  then show ?case using W by (simp add: echo_rounds_spec_def)
next
  case (Suc r)
  then obtain U where U: "(BIG_ROUND ops ^^ r) (W, counter_of c) = (U, counter_of (c + 16 * r))" "cells_wf (EK ops) U"
    "cells_bytes ops U = echo_rounds_spec r c (cells_bytes ops W)" by blast
  then show ?case
    using BIG_ROUND_bytes [OF U(2), of "c + 16 * r"] by (auto simp: echo_rounds_spec_def algebra_simps)
qed

end

section \<open>Compression\<close>

lemma concat_slices: "concat (map (\<lambda>j. take k (drop (b + k * j) xs)) [0..<n]) = take (k * n) (drop b xs)"
proof (induction n)
  case (Suc n)
  have "k * Suc n = k * n + k" by simp
  moreover have "take (k * n + k) (drop b xs) = take (k * n) (drop b xs) @ take k (drop (b + k * n) xs)"
    by (simp only: take_add drop_drop add.commute [of b])
  ultimately show ?case using Suc by (simp del: mult_Suc_right)
qed simp

lemma chunks_slices: "0 < n \<Longrightarrow> length xs = n * m \<Longrightarrow> chunks n xs = map (\<lambda>u. take n (drop (n * u) xs)) [0..<m]"
proof (induction m arbitrary: xs)
  case 0
  then show ?case by (simp add: chunks_short)
next
  case (Suc m)
  then have "chunks n xs = take n xs # chunks n (drop n xs)" by (simp add: chunks.simps [of n xs])
  also have "chunks n (drop n xs) = map (\<lambda>u. take n (drop (n * u) (drop n xs))) [0..<m]"
    using Suc by (intro Suc.IH) simp_all
  finally show ?case by (simp add: map_upt_Suc add.commute del: upt_Suc)
qed

text \<open>The chaining value, a flat array of words, as cells and as their bytes.\<close>

definition chain_cells :: "'w echo_ops \<Rightarrow> nat \<Rightarrow> 'w list \<Rightarrow> 'w cells" where
  "chain_cells ops r V = map (\<lambda>u. map (\<lambda>j. V ! (EK ops * u + j)) [0..<EK ops]) [0..<r]"

definition chain_bytes :: "'w echo_ops \<Rightarrow> nat \<Rightarrow> 'w list \<Rightarrow> byte list list" where
  "chain_bytes ops r V = cells_bytes ops (chain_cells ops r V)"

definition feed_forward :: "'a::len word echo_ops \<Rightarrow> nat \<Rightarrow> 'a word cells \<Rightarrow> 'a word cells \<Rightarrow> nat \<Rightarrow> 'a word list" where
  "feed_forward ops n S W i =
     fold (\<lambda>k x. map2 (XOR) x (map2 (XOR) (S ! (i + n * k)) (W ! (i + n * k)))) [0..<16 div n] (replicate (EK ops) 0)"

lemma nth_chain_cells: "i < r \<Longrightarrow> j < EK ops \<Longrightarrow> chain_cells ops r V ! i ! j = V ! (EK ops * i + j)"
  by (simp add: chain_cells_def)

lemma nth_cells_concat:
  "cells_wf k W \<Longrightarrow> i < 16 \<Longrightarrow> j < k \<Longrightarrow> concat W ! (k * i + j) = W ! i ! j"
  by (rule nth_concat_eq) (simp_all add: cells_wf_def)

text \<open>Sums of cells, word by word.\<close>

lemma fold_map2_XOR:
  assumes "\<And>k. k \<in> set ks \<Longrightarrow> length (f k) = L" "length x = L"
  shows "length (fold (\<lambda>k x. map2 (XOR) x (f k)) ks x) = L"
    and "j < L \<Longrightarrow> fold (\<lambda>k x. map2 (XOR) x (f k)) ks x ! j = fold (\<lambda>k y. y XOR f k ! j) ks (x ! j)"
  using assms by (induction ks arbitrary: x) simp_all

lemma nth_feed_forward:
  assumes "cells_wf (EK ops) S" "cells_wf (EK ops) W" "0 < n" "n dvd 16" "i < n"
  shows "length (feed_forward ops n S W i) = EK ops"
    and "j < EK ops \<Longrightarrow> feed_forward ops n S W i ! j =
      fold (\<lambda>k y. y XOR (S ! (i + n * k) ! j XOR W ! (i + n * k) ! j)) [0..<16 div n] 0"
proof -
  have b: "i + n * k < 16" if "k < 16 div n" for k
  proof -
    have "n * (k + 1) \<le> n * (16 div n)" using that by (intro mult_le_mono2) simp
    also have "\<dots> = 16" using assms(4) by simp
    finally show ?thesis using assms(5) by simp
  qed
  let ?f = "\<lambda>k. map2 (XOR) (S ! (i + n * k)) (W ! (i + n * k))"
  have f: "length (?f k) = EK ops" if "k \<in> set [0..<16 div n]" for k
    using b [of k] that assms(1,2) by (simp add: cells_wf_def)
  note m = fold_map2_XOR [where f = ?f and L = "EK ops" and x = "replicate (EK ops) 0", OF f]
  show "length (feed_forward ops n S W i) = EK ops"
    unfolding feed_forward_def by (rule m(1)) simp_all
  assume j: "j < EK ops"
  have "?f k ! j = S ! (i + n * k) ! j XOR W ! (i + n * k) ! j" if "k \<in> set [0..<16 div n]" for k
    using b [of k] that assms(1,2) j by (simp add: cells_wf_def)
  then show "feed_forward ops n S W i ! j =
      fold (\<lambda>k y. y XOR (S ! (i + n * k) ! j XOR W ! (i + n * k) ! j)) [0..<16 div n] 0"
    unfolding feed_forward_def using j by (subst m(2)) (auto intro!: fold_cong)
qed

context echo_words begin

lemma word_cell: "16 div EK ops * EK ops = 16"
  using EK_cell(1) by (simp only: mult.commute)

lemma block_bytes:
  assumes "length buf = 16 * m"
  shows "cells_bytes ops (map (\<lambda>u. map (\<lambda>j. word_at ops buf (16 * u + 16 div EK ops * j)) [0..<EK ops]) [0..<m]) = chunks 16 buf"
proof -
  have "cell_bytes ops (map (\<lambda>j. word_at ops buf (16 * u + 16 div EK ops * j)) [0..<EK ops]) = take 16 (drop (16 * u) buf)"
    if "u < m" for u
  proof -
    have "ENCW ops (word_at ops buf (16 * u + 16 div EK ops * j)) = take (16 div EK ops) (drop (16 * u + 16 div EK ops * j) buf)"
      if "j < EK ops" for j
    proof -
      have "16 div EK ops * (j + 1) \<le> 16 div EK ops * EK ops" using that by (intro mult_le_mono2) simp
      also have "\<dots> = 16" by (rule word_cell)
      finally have "16 * u + 16 div EK ops * j + 16 div EK ops \<le> 16 * (u + 1)" by simp
      also have "\<dots> \<le> length buf" unfolding assms using \<open>u < m\<close> by (intro mult_le_mono2) simp
      finally show ?thesis by (simp add: word_at_def ENCW_DECW)
    qed
    then have "cell_bytes ops (map (\<lambda>j. word_at ops buf (16 * u + 16 div EK ops * j)) [0..<EK ops]) =
        concat (map (\<lambda>j. take (16 div EK ops) (drop (16 * u + 16 div EK ops * j) buf)) [0..<EK ops])"
      unfolding cell_bytes_def map_map comp_def by (intro arg_cong [where f = concat] map_cong refl) simp
    then show ?thesis by (simp only: concat_slices word_cell)
  qed
  then show ?thesis
    using chunks_slices [of 16 buf m] assms by (simp add: cells_bytes_def)
qed

lemma input_cells_wf: "r + m = 16 \<Longrightarrow> cells_wf (EK ops) (input_cells ops r m V buf)"
  by (auto simp: cells_wf_def input_cells_def)

lemma input_cells_bytes:
  "length buf = 16 * m \<Longrightarrow> cells_bytes ops (input_cells ops r m V buf) = chain_bytes ops r V @ chunks 16 buf"
  using block_bytes by (simp add: input_cells_def chain_bytes_def chain_cells_def) (simp add: cells_bytes_def)

lemma length_chain_bytes [simp]: "length (chain_bytes ops r V) = r"
  by (simp add: chain_bytes_def cells_bytes_def chain_cells_def)

text \<open>The words of the chaining value and of the block in the 16 cells.\<close>

lemma nth_input_cells:
  "u < r \<Longrightarrow> j < EK ops \<Longrightarrow> input_cells ops r m V buf ! u ! j = V ! (EK ops * u + j)"
  "u < m \<Longrightarrow> j < EK ops \<Longrightarrow> input_cells ops r m V buf ! (r + u) ! j = word_at ops buf (16 div EK ops * (EK ops * u + j))"
proof -
  have "16 div EK ops * (EK ops * u + j) = 16 * u + 16 div EK ops * j"
    by (simp only: distrib_left mult.assoc [symmetric] word_cell)
  then show "u < m \<Longrightarrow> j < EK ops \<Longrightarrow> input_cells ops r m V buf ! (r + u) ! j = word_at ops buf (16 div EK ops * (EK ops * u + j))"
    by (simp add: input_cells_def nth_append)
qed (simp add: input_cells_def nth_append)

lemma upt_2_4: "[0..<2] = [0, 1]" "[0..<4] = [0, 1, 2, 3]"
  by code_simp+

lemma FINAL_SMALL_cells:
  assumes W: "cells_wf (EK ops) W" and i: "i < 4"
  shows "chain_cells ops 4 (FINAL_SMALL ops buf W V) ! i = feed_forward ops 4 (input_cells ops 4 12 V buf) W i"
proof (rule nth_equalityI)
  let ?S = "input_cells ops 4 12 V buf"
  note S = input_cells_wf [of 4 12 V buf, simplified]
  note ff = nth_feed_forward [OF S W, of 4, simplified, OF i]
  show "length (chain_cells ops 4 (FINAL_SMALL ops buf W V) ! i) = length (feed_forward ops 4 ?S W i)"
    using i by (simp add: chain_cells_def ff(1))
  fix j assume "j < length (chain_cells ops 4 (FINAL_SMALL ops buf W V) ! i)"
  then have j: "j < EK ops" using i by (simp add: chain_cells_def)
  have lt: "EK ops * i + j < 4 * EK ops" 
  proof -
    have "EK ops * i \<le> EK ops * 3" using i by (intro mult_le_mono2) simp
    then show ?thesis using j by linarith
  qed
  have WW: "concat W ! (EK ops * i + j + EK ops * (4 * k)) = W ! (i + 4 * k) ! j" if "k < 4" for k
    using nth_cells_concat [OF W, of "i + 4 * k" j] that i j by (simp add: algebra_simps)
  have SS: "?S ! (4 + (i + 4 * k)) ! j = word_at ops buf (16 div EK ops * (EK ops * i + j) + 64 * k)" if "k < 3" for k
  proof -
    have "16 div EK ops * (EK ops * (i + 4 * k) + j) = 16 div EK ops * (EK ops * i + j) + 16 div EK ops * EK ops * (4 * k)"
      by (simp only: algebra_simps)
    then show ?thesis using nth_input_cells(2) [of "i + 4 * k" 12 j 4 V buf] that i j by (simp add: word_cell)
  qed
  show "chain_cells ops 4 (FINAL_SMALL ops buf W V) ! i ! j = feed_forward ops 4 ?S W i ! j"
    using i j lt WW [of 0] WW [of 1] WW [of 2] WW [of 3] SS [of 0] SS [of 1] SS [of 2]
    by (simp add: nth_chain_cells ff(2) [unfolded upt_2_4] FINAL_SMALL_def Let_def nth_input_cells(1) ac_simps)
qed

lemma FINAL_BIG_cells:
  assumes W: "cells_wf (EK ops) W" and i: "i < 8"
  shows "chain_cells ops 8 (FINAL_BIG ops buf W V) ! i = feed_forward ops 8 (input_cells ops 8 8 V buf) W i"
proof (rule nth_equalityI)
  let ?S = "input_cells ops 8 8 V buf"
  note S = input_cells_wf [of 8 8 V buf, simplified]
  note ff = nth_feed_forward [OF S W, of 8, simplified, OF i]
  show "length (chain_cells ops 8 (FINAL_BIG ops buf W V) ! i) = length (feed_forward ops 8 ?S W i)"
    using i by (simp add: chain_cells_def ff(1))
  fix j assume "j < length (chain_cells ops 8 (FINAL_BIG ops buf W V) ! i)"
  then have j: "j < EK ops" using i by (simp add: chain_cells_def)
  have lt: "EK ops * i + j < 8 * EK ops"
  proof -
    have "EK ops * i \<le> EK ops * 7" using i by (intro mult_le_mono2) simp
    then show ?thesis using j by linarith
  qed
  have WW: "concat W ! (EK ops * i + j + EK ops * (8 * k)) = W ! (i + 8 * k) ! j" if "k < 2" for k
    using nth_cells_concat [OF W, of "i + 8 * k" j] that i j by (simp add: algebra_simps)
  have SS: "?S ! (8 + i) ! j = word_at ops buf (16 div EK ops * (EK ops * i + j))"
    using nth_input_cells(2) [of i 8 j 8 V buf] i j by simp
  show "chain_cells ops 8 (FINAL_BIG ops buf W V) ! i ! j = feed_forward ops 8 ?S W i ! j"
    using i j lt WW [of 0] WW [of 1] SS
    by (simp add: nth_chain_cells ff(2) [unfolded upt_2_4] FINAL_BIG_def Let_def nth_input_cells(1) ac_simps)
qed

lemma ENCW_0: "ENCW ops 0 = replicate (16 div EK ops) 0"
proof -
  have "ENCW ops (0 XOR 0) = xor_bytes (ENCW ops 0) (ENCW ops 0)" by (rule ENCW_XOR)
  also have "\<dots> = replicate (16 div EK ops) 0"
    by (rule nth_equalityI) (simp_all add: xor_bytes_def length_ENCW)
  finally show ?thesis by simp
qed

lemma cell_bytes_0: "cell_bytes ops (replicate (EK ops) 0) = replicate 16 0"
proof -
  have "concat (replicate n (replicate m z)) = replicate (m * n) z" for n m and z :: byte
    by (induction n) (simp_all add: replicate_add)
  then show ?thesis by (simp add: cell_bytes_def ENCW_0 word_cell)
qed

lemma cell_bytes_feed_forward:
  assumes "cells_wf (EK ops) S" "cells_wf (EK ops) W" "0 < n" "n dvd 16" "i < n"
  shows "cell_bytes ops (feed_forward ops n S W i) =
    fold (\<lambda>k x. xor_bytes x (xor_bytes (cells_bytes ops S ! (i + n * k)) (cells_bytes ops W ! (i + n * k))))
      [0..<16 div n] (replicate 16 0)"
proof -
  have b: "i + n * k < 16" if "k < 16 div n" for k
  proof -
    have "n * (k + 1) \<le> n * (16 div n)" using that by (intro mult_le_mono2) simp
    also have "\<dots> = 16" using assms(4) by simp
    finally show ?thesis using assms(5) by simp
  qed
  have "length x = EK ops \<Longrightarrow> \<forall>k \<in> set ks. i + n * k < 16 \<Longrightarrow>
      cell_bytes ops (fold (\<lambda>k x. map2 (XOR) x (map2 (XOR) (S ! (i + n * k)) (W ! (i + n * k)))) ks x) =
      fold (\<lambda>k x. xor_bytes x (xor_bytes (cells_bytes ops S ! (i + n * k)) (cells_bytes ops W ! (i + n * k)))) ks (cell_bytes ops x)"
    for ks x
    using assms(1,2) by (induction ks arbitrary: x) (simp_all add: cell_bytes_XOR cells_wf_def cells_bytes_def)
  from this [of "replicate (EK ops) 0" "[0..<16 div n]"] show ?thesis
    using b by (simp add: feed_forward_def cell_bytes_0)
qed

text \<open>The compression functions.\<close>

lemma COMPRESS_SMALL_bytes:
  assumes "length (ec_buf sc) = 192" "ec_C sc = counter_of c"
  shows "chain_bytes ops 4 (ec_V (COMPRESS_SMALL ops sc)) =
      echo_compress_spec 8 c (chain_bytes ops 4 (ec_V sc)) (chunks 16 (ec_buf sc))"
    and "ec_buf (COMPRESS_SMALL ops sc) = ec_buf sc" and "ec_C (COMPRESS_SMALL ops sc) = ec_C sc"
    and "ec_ptr (COMPRESS_SMALL ops sc) = ec_ptr sc"
proof -
  let ?S = "input_cells ops 4 12 (ec_V sc) (ec_buf sc)"
  have S: "cells_wf (EK ops) ?S" by (simp add: input_cells_wf)
  obtain W where W: "(BIG_ROUND ops ^^ 8) (?S, ec_C sc) = (W, counter_of (c + 16 * 8))" "cells_wf (EK ops) W"
    "cells_bytes ops W = echo_rounds_spec 8 c (cells_bytes ops ?S)"
    using ROUNDS_bytes [OF S, of 8 c] assms(2) by auto
  have C: "COMPRESS_SMALL ops sc = sc\<lparr>ec_V := FINAL_SMALL ops (ec_buf sc) W (ec_V sc)\<rparr>"
    by (simp add: COMPRESS_SMALL_def INPUT_BLOCK_SMALL_def W(1))
  then show "ec_buf (COMPRESS_SMALL ops sc) = ec_buf sc" "ec_C (COMPRESS_SMALL ops sc) = ec_C sc"
    "ec_ptr (COMPRESS_SMALL ops sc) = ec_ptr sc" by simp_all
  have b: "cells_bytes ops ?S = chain_bytes ops 4 (ec_V sc) @ chunks 16 (ec_buf sc)"
    using assms(1) by (simp add: input_cells_bytes)
  have "chain_bytes ops 4 (FINAL_SMALL ops (ec_buf sc) W (ec_V sc)) ! i =
      cell_bytes ops (feed_forward ops 4 ?S W i)" if "i < 4" for i
    using that FINAL_SMALL_cells [OF W(2) that] by (simp add: chain_bytes_def cells_bytes_def) (simp add: chain_cells_def)
  then show "chain_bytes ops 4 (ec_V (COMPRESS_SMALL ops sc)) =
      echo_compress_spec 8 c (chain_bytes ops 4 (ec_V sc)) (chunks 16 (ec_buf sc))"
    unfolding C using cell_bytes_feed_forward [OF S W(2), of 4]
    by (intro nth_equalityI) (simp_all add: echo_compress_spec_def Let_def b [symmetric] W(3))
qed

lemma COMPRESS_BIG_bytes:
  assumes "length (ec_buf sc) = 128" "ec_C sc = counter_of c"
  shows "chain_bytes ops 8 (ec_V (COMPRESS_BIG ops sc)) =
      echo_compress_spec 10 c (chain_bytes ops 8 (ec_V sc)) (chunks 16 (ec_buf sc))"
    and "ec_buf (COMPRESS_BIG ops sc) = ec_buf sc" and "ec_C (COMPRESS_BIG ops sc) = ec_C sc"
    and "ec_ptr (COMPRESS_BIG ops sc) = ec_ptr sc"
proof -
  let ?S = "input_cells ops 8 8 (ec_V sc) (ec_buf sc)"
  have S: "cells_wf (EK ops) ?S" by (simp add: input_cells_wf)
  obtain W where W: "(BIG_ROUND ops ^^ 10) (?S, ec_C sc) = (W, counter_of (c + 16 * 10))" "cells_wf (EK ops) W"
    "cells_bytes ops W = echo_rounds_spec 10 c (cells_bytes ops ?S)"
    using ROUNDS_bytes [OF S, of 10 c] assms(2) by auto
  have C: "COMPRESS_BIG ops sc = sc\<lparr>ec_V := FINAL_BIG ops (ec_buf sc) W (ec_V sc)\<rparr>"
    by (simp add: COMPRESS_BIG_def INPUT_BLOCK_BIG_def W(1))
  then show "ec_buf (COMPRESS_BIG ops sc) = ec_buf sc" "ec_C (COMPRESS_BIG ops sc) = ec_C sc"
    "ec_ptr (COMPRESS_BIG ops sc) = ec_ptr sc" by simp_all
  have b: "cells_bytes ops ?S = chain_bytes ops 8 (ec_V sc) @ chunks 16 (ec_buf sc)"
    using assms(1) by (simp add: input_cells_bytes)
  have "chain_bytes ops 8 (FINAL_BIG ops (ec_buf sc) W (ec_V sc)) ! i =
      cell_bytes ops (feed_forward ops 8 ?S W i)" if "i < 8" for i
    using that FINAL_BIG_cells [OF W(2) that] by (simp add: chain_bytes_def cells_bytes_def) (simp add: chain_cells_def)
  then show "chain_bytes ops 8 (ec_V (COMPRESS_BIG ops sc)) =
      echo_compress_spec 10 c (chain_bytes ops 8 (ec_V sc)) (chunks 16 (ec_buf sc))"
    unfolding C using cell_bytes_feed_forward [OF S W(2), of 8]
    by (intro nth_equalityI) (simp_all add: echo_compress_spec_def Let_def b [symmetric] W(3))
qed

end

end
