(* ===== verification/Echo_Hash.thy ===== *)
theory Echo_Hash
  imports Echo_Round
begin

text \<open>
  The streaming functions of \<open>echo.c\<close> and the digest they compute. The locale
  \<open>echo_sized\<close> adds to the word interface what the functions need of one of the two sizes of
  the state; it is interpreted on the two sizes in the two builds.
\<close>

section \<open>What a size provides\<close>

locale echo_sized = echo_words ops
  for ops :: "'a::len word echo_ops" +
  fixes sz :: "'a word echo_size" and rows rounds :: nat
  assumes rows: "rows = 4 \<or> rows = 8" "ES_ROWS sz = rows"
    and buf_size: "ES_BUF sz = 16 * (16 - rows)"
    and bits: "ES_BITS sz = of_nat (128 * (16 - rows))"
    and compress_bytes: "length (ec_buf sc) = ES_BUF sz \<Longrightarrow> ec_C sc = counter_of c \<Longrightarrow>
      chain_bytes ops rows (ec_V (ES_COMPRESS sz ops sc)) =
      echo_compress_spec rounds c (chain_bytes ops rows (ec_V sc)) (chunks 16 (ec_buf sc))"
    and compress_frame: "ec_buf (ES_COMPRESS sz ops sc) = ec_buf sc" "ec_C (ES_COMPRESS sz ops sc) = ec_C sc"
    and compress_length: "length (ec_V (ES_COMPRESS sz ops sc)) = EK ops * rows"
    and compress_ptr: "ec_V (ES_COMPRESS sz ops (sc\<lparr>ec_ptr := p\<rparr>)) = ec_V (ES_COMPRESS sz ops sc)"

lemma echo_small_sized: "echo_words ops \<Longrightarrow> echo_sized ops echo_small 4 8"
proof (intro echo_sized.intro echo_sized_axioms.intro, goal_cases)
  case (6 sc c)
  then show ?case
    using echo_words.COMPRESS_SMALL_bytes(1) [of ops sc c] by (simp add: echo_small_def)
qed (simp_all add: echo_small_def COMPRESS_SMALL_def FINAL_SMALL_def Let_def split: prod.split)

lemma echo_big_sized: "echo_words ops \<Longrightarrow> echo_sized ops echo_big 8 10"
proof (intro echo_sized.intro echo_sized_axioms.intro, goal_cases)
  case (6 sc c)
  then show ?case
    using echo_words.COMPRESS_BIG_bytes(1) [of ops sc c] by (simp add: echo_big_def)
qed (simp_all add: echo_big_def COMPRESS_BIG_def FINAL_BIG_def Let_def split: prod.split)

interpretation es_wide: echo_sized echo_wide_ops echo_small 4 8
  by (rule echo_small_sized [OF echo_wide_words])

interpretation es_narrow: echo_sized echo_narrow_ops echo_small 4 8
  by (rule echo_small_sized [OF echo_narrow_words])

interpretation eb_wide: echo_sized echo_wide_ops echo_big 8 10
  by (rule echo_big_sized [OF echo_wide_words])

interpretation eb_narrow: echo_sized echo_narrow_ops echo_big 8 10
  by (rule echo_big_sized [OF echo_narrow_words])

section \<open>The update functions\<close>

text \<open>The effect of a block on the chaining value and the counter.\<close>

definition echo_absorb ::
  "'w echo_size \<Rightarrow> 'w echo_ops \<Rightarrow> 'w list \<times> counter \<Rightarrow> byte list \<Rightarrow> 'w list \<times> counter"
where
  "echo_absorb sz ops VC b =
     (let sc = \<lparr>ec_buf = b, ec_ptr = 0, ec_V = fst VC, ec_C = INCR_COUNTER (snd VC) (ES_BITS sz)\<rparr>
      in (ec_V (ES_COMPRESS sz ops sc), ec_C sc))"

sublocale echo_sized \<subseteq> stream: block_stream "ES_BUF sz" "ES_BUF sz" ec_buf "\<lambda>b. ec_buf_update (\<lambda>_. b)"
    ec_ptr "\<lambda>p. ec_ptr_update (\<lambda>_. p)" "\<lambda>c. (ec_V c, ec_C c)" "echo_block sz ops" "echo_absorb sz ops"
    "echo_core_loop sz ops" "echo_core sz ops"
proof
  show "0 < ES_BUF sz" using rows buf_size by auto
  fix c :: "'a word sph_echo_context" and p data
  show "ec_buf (echo_block sz ops c) = ec_buf c"
    by (simp add: echo_block_def compress_frame)
  show "echo_core_loop sz ops c p data =
      (if data = [] then Some (c, p)
       else let clen = min (size_sub (ES_BUF sz) p) (length data)
         in Option.bind (memcpy (ec_buf c) p (take clen data)) (\<lambda>b.
            if p + clen = ES_BUF sz
            then echo_core_loop sz ops (echo_block sz ops (c\<lparr>ec_buf := b\<rparr>)) 0 (drop clen data)
            else echo_core_loop sz ops (c\<lparr>ec_buf := b\<rparr>) (p + clen) (drop clen data)))"
    by (subst echo_core_loop.simps) (rule refl)
  assume l: "length (ec_buf c) = ES_BUF sz"
  have "ec_V (ES_COMPRESS sz ops (c\<lparr>ec_C := C\<rparr>)) =
      ec_V (ES_COMPRESS sz ops \<lparr>ec_buf = ec_buf c, ec_ptr = 0, ec_V = ec_V c, ec_C = C\<rparr>)" for C
    using compress_ptr [of 0 "c\<lparr>ec_C := C\<rparr>"] by (cases c) simp
  then show "(ec_V (echo_block sz ops c), ec_C (echo_block sz ops c)) =
      echo_absorb sz ops (ec_V c, ec_C c) (take (ES_BUF sz) (ec_buf c))"
    using l by (simp add: echo_block_def echo_absorb_def compress_frame)
qed (simp_all add: echo_core_def Let_def)

section \<open>The blocks of a message\<close>

lemma chunks_append_full: "0 < k \<Longrightarrow> length x = k * n \<Longrightarrow> chunks k (x @ y) = chunks k x @ chunks k y"
proof (induction n arbitrary: x)
  case 0
  then show ?case by (simp add: chunks_short)
next
  case (Suc n)
  have "chunks k (take k x @ z) = take k x # chunks k z" for z
    using Suc by (intro chunks_Cons) simp_all
  from this [of "drop k x @ y"] this [of "drop k x"] show ?case
    using Suc.IH [of "drop k x"] Suc.prems by (simp flip: append_assoc)
qed

text \<open>The compression of a sequence of blocks, the counters given.\<close>

definition echo_chain :: "nat \<Rightarrow> byte list list \<Rightarrow> (nat \<times> byte list) list \<Rightarrow> byte list list" where
  "echo_chain rounds U cbs = foldl (\<lambda>U (c, b). echo_compress_spec rounds c U (chunks 16 b)) U cbs"

lemma echo_chain_simps [simp]:
  "echo_chain r U [] = U" "echo_chain r U ((c, b) # xs) = echo_chain r (echo_compress_spec r c U (chunks 16 b)) xs"
  "echo_chain r U (xs @ ys) = echo_chain r (echo_chain r U xs) ys"
  by (simp_all add: echo_chain_def)

lemma neg_mod_eq:
  fixes x t b q :: nat
  assumes "x + t = b * q" "t < b"
  shows "(- int x) mod int b = int t"
proof -
  have "int x + int t = int b * int q" by (metis assms(1) of_nat_add of_nat_mult)
  then have "- int x = int t + int b * (- int q)" by simp
  then have "(- int x) mod int b = int t mod int b" by (simp only: mod_mult_self2)
  then show ?thesis using assms(2) by simp
qed

lemma concat_rows:
  "concat (map (\<lambda>u. concat (map (\<lambda>j. f (e * u + j)) [0..<e])) [0..<r]) = concat (map f [0..<r * e])"
proof (induction r)
  case (Suc r)
  have "[0..<Suc r * e] = [0..<r * e] @ map (\<lambda>j. j + r * e) [0..<e]"
    using upt_add_eq_append [of 0 "r * e" e] map_add_upt [of "r * e" e] by (simp add: add.commute)
  then show ?case using Suc by (simp add: comp_def algebra_simps)
qed simp

context echo_sized begin

lemma absorb_blocks_bytes:
  "\<forall>b \<in> set bs. length b = ES_BUF sz \<Longrightarrow>
     snd (foldl (echo_absorb sz ops) (V, counter_of c) bs) = counter_of (c + 8 * ES_BUF sz * length bs) \<and>
     chain_bytes ops rows (fst (foldl (echo_absorb sz ops) (V, counter_of c) bs)) =
     echo_chain rounds (chain_bytes ops rows V)
       (zip (map (\<lambda>i. c + 8 * ES_BUF sz * (i + 1)) [0..<length bs]) bs)"
proof (induction bs arbitrary: V c)
  case Nil
  then show ?case by simp
next
  case (Cons b bs)
  have "128 * (16 - rows) < 2 ^ 32" by simp
  then have s: "INCR_COUNTER (counter_of c) (ES_BITS sz) = counter_of (c + 8 * ES_BUF sz)"
    unfolding bits buf_size by (subst INCR_COUNTER_counter) simp_all
  define V' where "V' = fst (echo_absorb sz ops (V, counter_of c) b)"
  have a: "echo_absorb sz ops (V, counter_of c) b = (V', counter_of (c + 8 * ES_BUF sz))"
    by (simp add: V'_def echo_absorb_def Let_def s)
  have v: "chain_bytes ops rows V' = echo_compress_spec rounds (c + 8 * ES_BUF sz) (chain_bytes ops rows V) (chunks 16 b)"
    unfolding V'_def echo_absorb_def Let_def fst_conv snd_conv s
    using Cons.prems by (subst compress_bytes [where c = "c + 8 * ES_BUF sz"]) simp_all
  have "map (\<lambda>i. c + 8 * ES_BUF sz + 8 * ES_BUF sz * (i + 1)) [0..<length bs] =
      map (\<lambda>i. c + 8 * ES_BUF sz * (i + 1)) [Suc 0..<Suc (length bs)]"
    by (simp add: map_Suc_upt [symmetric] algebra_simps del: upt_Suc)
  with Cons.IH [of V' "c + 8 * ES_BUF sz"] Cons.prems show ?case
    by (simp add: a v upt_conv_Cons algebra_simps del: upt_Suc)
qed

lemma blk: "ES_BUF sz = 16 * (16 - rows)" "ES_BUF sz = 192 \<or> ES_BUF sz = 128"
  using rows(1) buf_size by auto

text \<open>The bytes that the close function adds make up the padding of the specification.\<close>

definition close_bytes :: "nat \<Rightarrow> nat \<Rightarrow> u32 \<Rightarrow> nat \<Rightarrow> nat \<Rightarrow> byte list" where
  "close_bytes d ptr ub n l =
     (let z = (if ptr + 1 \<le> ES_BUF sz - 18 then ES_BUF sz - 18 - (ptr + 1) else 2 * ES_BUF sz - 18 - (ptr + 1))
      in last_byte ub n # replicate z 0 @ le_bytes 2 d @ le_bytes 16 l)"

lemma close_bytes_bits:
  assumes n: "n < 8" and ptr: "ptr < ES_BUF sz" and d: "echo_block_bits d = 8 * ES_BUF sz"
  shows "msb_bits (close_bytes d ptr ub n (8 * ES_BUF sz * N + 8 * ptr + n)) =
    tail_bits ub n @ echo_pad d (8 * ES_BUF sz * N + 8 * ptr + n)"
proof -
  let ?l = "8 * ES_BUF sz * N + 8 * ptr + n"
  define z where "z = (if ptr + 1 \<le> ES_BUF sz - 18 then ES_BUF sz - 18 - (ptr + 1) else 2 * ES_BUF sz - 18 - (ptr + 1))"
  have B: "18 < ES_BUF sz" using blk(2) by auto
  have z: "(7 - n) + 8 * z < 8 * ES_BUF sz" using n ptr B by (auto simp: z_def)
  obtain q where q: "ptr + 19 + z = ES_BUF sz * q"
  proof (cases "ptr + 1 \<le> ES_BUF sz - 18")
    case True
    then have "ptr + 19 + z = ES_BUF sz * 1" using B by (simp add: z_def)
    then show ?thesis by (rule that)
  next
    case False
    then have "ptr + 19 + z = ES_BUF sz * 2" using B ptr by (simp add: z_def)
    then show ?thesis by (rule that)
  qed
  have "?l + 145 + ((7 - n) + 8 * z) = 8 * ES_BUF sz * N + 8 * (ptr + 19 + z)" using n by simp
  also have "\<dots> = 8 * ES_BUF sz * (N + q)" unfolding q by (simp add: algebra_simps)
  finally have "(- int (?l + 145)) mod int (8 * ES_BUF sz) = int ((7 - n) + 8 * z)"
    using z by (rule neg_mod_eq)
  then have "nat ((- int (?l + 145)) mod int (echo_block_bits d)) = (7 - n) + 8 * z"
    unfolding d by simp
  then have "echo_pad d ?l = True # replicate (7 - n) False @ replicate (8 * z) False @ msb_bits (le_bytes 2 d @ le_bytes 16 ?l)"
    by (simp add: echo_pad_def replicate_add)
  moreover have "msb_bits (close_bytes d ptr ub n ?l) =
      msb_bits [last_byte ub n] @ msb_bits (replicate z 0) @ msb_bits (le_bytes 2 d @ le_bytes 16 ?l)"
    unfolding close_bytes_def Let_def z_def [symmetric] by simp
  ultimately show ?thesis by (simp only: msb_bits_last_byte [OF n] msb_bits_zeros) simp
qed

text \<open>The words written out are the bytes of the chaining value.\<close>

lemma output_bytes:
  assumes "length V = EK ops * rows" "w32 \<le> 2 * rows"
  shows "length (concat (map (\<lambda>k. ENCW ops (V ! k)) [0..<OUT_WORDS ops w32])) \<le> 8 * rows"
    and "4 * w32 \<le> length (concat (map (\<lambda>k. ENCW ops (V ! k)) [0..<OUT_WORDS ops w32]))"
    and "take (4 * w32) (concat (map (\<lambda>k. ENCW ops (V ! k)) [0..<OUT_WORDS ops w32])) =
      take (4 * w32) (concat (chain_bytes ops rows V))"
proof -
  let ?O = "OUT_WORDS ops w32"
  have len: "length (concat (map (\<lambda>k. ENCW ops (V ! k)) [0..<m])) = m * (16 div EK ops)" for m
    using length_concat_map [of m "\<lambda>k. ENCW ops (V ! k)" "16 div EK ops"] by (simp add: length_ENCW)
  have "8 * ((w32 + 1) div 2) \<le> 8 * rows" using assms(2) by simp
  then show O: "length (concat (map (\<lambda>k. ENCW ops (V ! k)) [0..<?O])) \<le> 8 * rows"
    unfolding len using OUT_bytes(2) [of w32] by linarith
  show w: "4 * w32 \<le> length (concat (map (\<lambda>k. ENCW ops (V ! k)) [0..<?O]))"
    unfolding len by (rule OUT_bytes(1))
  have all: "concat (chain_bytes ops rows V) = concat (map (\<lambda>k. ENCW ops (V ! k)) [0..<rows * EK ops])"
    using concat_rows [of "\<lambda>k. ENCW ops (V ! k)" "EK ops" rows]
    by (simp add: chain_bytes_def cells_bytes_def chain_cells_def cell_bytes_def comp_def)
  have "?O * (16 div EK ops) \<le> rows * EK ops * (16 div EK ops)"
    using O len [of ?O] EK_cell(1) by (simp add: mult.assoc)
  moreover have "0 < 16 div EK ops" using EK_cell(1) by (cases "16 div EK ops") simp_all
  ultimately have "?O \<le> rows * EK ops" by simp
  then have "[0..<rows * EK ops] = [0..<?O] @ [?O..<rows * EK ops]"
    using upt_add_eq_append [of 0 ?O "rows * EK ops - ?O"] by simp
  then show "take (4 * w32) (concat (map (\<lambda>k. ENCW ops (V ! k)) [0..<?O])) = take (4 * w32) (concat (chain_bytes ops rows V))"
    unfolding all using w by simp
qed

text \<open>
  The close function compresses one or two blocks; the counter of the first is the length of the
  message, unless the block holds no bit of it, and that of a second block is 0.
\<close>

definition final_blocks :: "nat \<Rightarrow> nat \<Rightarrow> byte list \<Rightarrow> byte list \<Rightarrow> (nat \<times> byte list) list" where
  "final_blocks l e r p =
     (let x = r @ p; c = (if e = 0 then 0 else l)
      in if length x = ES_BUF sz then [(c, x)]
         else [(c, take (ES_BUF sz) x), (0, drop (ES_BUF sz) x)])"

lemma compress_V:
  "length b = ES_BUF sz \<Longrightarrow> ec_C sc = counter_of c \<Longrightarrow>
     chain_bytes ops rows (ec_V (ES_COMPRESS sz ops (sc\<lparr>ec_buf := b\<rparr>))) =
     echo_compress_spec rounds c (chain_bytes ops rows (ec_V sc)) (chunks 16 b)"
  by (subst compress_bytes [where c = c]) simp_all

lemma enc16_le_bytes: "sph_enc16le (of_nat d) = le_bytes 2 d"
proof -
  have "[0..<2] = [0, 1 :: nat]" by (simp add: upt_2_4)
  moreover have "ucast (drop_bit 8 (of_nat d :: u32)) = (of_nat (d div 256) :: byte)"
    "ucast (of_nat d :: u32) = (of_nat d :: byte)"
    using ucast_drop_of_nat [of 8 d, where 'a = 32] ucast_drop_of_nat [of 0 d, where 'a = 32]
    by (simp_all add: drop_bit_eq_div)
  ultimately show ?thesis by (simp add: sph_enc16le_def le_bytes_def)
qed

text \<open>The end of the close function: the size and the length are written and the block compressed.\<close>

definition echo_finish where
  "echo_finish w32 cnt tmp sc =
     Option.bind (memcpy (ec_buf sc) (ES_BUF sz - 18) (sph_enc16le (of_nat (32 * w32)))) (\<lambda>buf.
     Option.bind (memcpy buf (ES_BUF sz - 16) cnt) (\<lambda>buf.
     let sc = ES_COMPRESS sz ops (sc\<lparr>ec_buf := buf\<rparr>)
     in Option.bind (memcpy tmp 0 (concat (map (\<lambda>k. ENCW ops (ec_V sc ! k)) [0..<OUT_WORDS ops w32]))) (\<lambda>tmp.
        Option.bind (mem_read tmp 0 (4 * w32)) (\<lambda>dst. Some (dst, echo_init sz ops (32 * w32) sc)))))"

lemma finish_eq:
  assumes "length (ec_buf sc) = ES_BUF sz" "ec_C sc = counter_of c" "length tmp = 8 * rows" "w32 \<le> 2 * rows"
  shows "\<exists>c'. echo_finish w32 (le_bytes 16 l) tmp sc = Some (take (4 * w32) (concat (
      echo_compress_spec rounds c (chain_bytes ops rows (ec_V sc))
        (chunks 16 (take (ES_BUF sz - 18) (ec_buf sc) @ le_bytes 2 (32 * w32) @ le_bytes 16 l)))),
      echo_init sz ops (32 * w32) c') \<and> length (ec_buf c') = ES_BUF sz"
proof -
  have B: "18 < ES_BUF sz" using blk(2) by auto
  define b where "b = take (ES_BUF sz - 18) (ec_buf sc) @ le_bytes 2 (32 * w32) @ le_bytes 16 l"
  define sc' where "sc' = ES_COMPRESS sz ops (sc\<lparr>ec_buf := b\<rparr>)"
  have b: "length b = ES_BUF sz" using assms(1) B by (simp add: b_def)
  have w: "memcpy (ec_buf sc) (ES_BUF sz - 18) (le_bytes 2 (32 * w32)) =
      Some (take (ES_BUF sz - 18) (ec_buf sc) @ le_bytes 2 (32 * w32) @ drop (ES_BUF sz - 16) (ec_buf sc))"
  proof -
    have "ES_BUF sz - 18 + 2 = ES_BUF sz - 16" "ES_BUF sz - 18 + 2 \<le> ES_BUF sz" using B by simp_all
    then show ?thesis using assms(1) by (simp only: memcpy_def length_le_bytes if_True)
  qed
  moreover have "memcpy (take (ES_BUF sz - 18) (ec_buf sc) @ le_bytes 2 (32 * w32) @ drop (ES_BUF sz - 16) (ec_buf sc))
      (ES_BUF sz - 16) (le_bytes 16 l) = Some b"
    using assms(1) B by (simp add: memcpy_def b_def)
  moreover note out = output_bytes [OF compress_length [of "sc\<lparr>ec_buf := b\<rparr>"] assms(4), folded sc'_def]
  moreover have "mem_read (concat (map (\<lambda>k. ENCW ops (ec_V sc' ! k)) [0..<OUT_WORDS ops w32]) @ x) 0 (4 * w32) =
      Some (take (4 * w32) (concat (chain_bytes ops rows (ec_V sc'))))" for x
    using out(2,3) by (simp add: mem_read_def)
  ultimately have "echo_finish w32 (le_bytes 16 l) tmp sc =
      Some (take (4 * w32) (concat (chain_bytes ops rows (ec_V sc'))), echo_init sz ops (32 * w32) sc')"
    unfolding echo_finish_def enc16_le_bytes Let_def using assms(3) by (simp add: sc'_def [symmetric])
  moreover have "chain_bytes ops rows (ec_V sc') = echo_compress_spec rounds c (chain_bytes ops rows (ec_V sc)) (chunks 16 b)"
    unfolding sc'_def using b assms(2) by (rule compress_V)
  moreover have "length (ec_buf sc') = ES_BUF sz" using b by (simp add: sc'_def compress_frame)
  ultimately show ?thesis unfolding b_def by metis
qed

lemma close_eq:
  assumes c: "stream.ready c" and n: "n < 8" and tmp: "length tmp = 8 * rows"
    and C: "ec_C c = counter_of m" and w32: "w32 \<le> 2 * rows"
  shows "\<exists>c'. echo_close sz ops w32 tmp c ub n = Some (take (4 * w32) (concat (
      echo_chain rounds (chain_bytes ops rows (ec_V c))
        (final_blocks (m + 8 * ec_ptr c + n) (8 * ec_ptr c + n) (stream.pending c)
          (close_bytes (32 * w32) (ec_ptr c) ub n (m + 8 * ec_ptr c + n))))),
      echo_init sz ops (32 * w32) c') \<and> length (ec_buf c') = ES_BUF sz"
proof -
  define ptr where "ptr = ec_ptr c"
  define B where "B = ES_BUF sz"
  define l where "l = m + 8 * ptr + n"
  define e where "e = 8 * ptr + n"
  define b where "b = take ptr (ec_buf c) @ last_byte ub n # replicate (B - (ptr + 1)) 0"
  define k where "k = (if e = 0 then 0 else l)"
  define sc where "sc = c\<lparr>ec_C := counter_of k, ec_buf := b\<rparr>"
  have buf: "length (ec_buf c) = B" "ptr < B" using c by (simp_all add: stream.ready_def ptr_def B_def)
  have B: "B = 192 \<or> B = 128" using blk(2) by (simp add: B_def)
  have lb: "length b = B" using buf by (simp add: b_def)
  have "e < 2 ^ 32" using buf B n by (auto simp: e_def)
  have elen: "push_bit 3 (of_nat ptr) + of_nat n = (of_nat e :: u32)"
    by (simp add: e_def push_bit_eq_mult)
  have incr: "INCR_COUNTER (ec_C c) (of_nat e) = counter_of l"
    unfolding C INCR_COUNTER_counter [OF \<open>e < 2 ^ 32\<close>] by (simp add: l_def e_def add.assoc)
  have e0: "(of_nat e :: u32) = 0 \<longleftrightarrow> e = 0"
    using \<open>e < 2 ^ 32\<close> by (auto simp: word_of_nat_eq_0_iff dest!: dvd_imp_le)
  have cnt: "(case counter_of l of (C0, C1, C2, C3) \<Rightarrow>
      memcpy tmp 0 (sph_enc32le C0 @ sph_enc32le C1 @ sph_enc32le C2 @ sph_enc32le C3)) =
      Some (le_bytes 16 l @ drop 16 tmp)"
  proof -
    have "16 \<le> length tmp" using tmp rows(1) by auto
    moreover have "(case counter_of l of (C0, C1, C2, C3) \<Rightarrow>
        memcpy tmp 0 (sph_enc32le C0 @ sph_enc32le C1 @ sph_enc32le C2 @ sph_enc32le C3)) =
        memcpy tmp 0 (quad_bytes (counter_of l))"
      by (simp add: quad_bytes_def split: prod.split)
    ultimately show ?thesis by (simp add: quad_bytes_counter memcpy_def)
  qed
  have first: "echo_close sz ops w32 tmp c ub n = Option.bind
      (if B - 18 < ptr + 1
       then Some ((ES_COMPRESS sz ops sc)\<lparr>ec_C := (0, 0, 0, 0), ec_buf := replicate B 0\<rparr>) else Some sc)
      (echo_finish w32 (le_bytes 16 l) (le_bytes 16 l @ drop 16 tmp))"
  proof -
    have cond: "(if e = 0 then c\<lparr>ec_C := counter_of l, ec_C := (0, 0, 0, 0)\<rparr> else c\<lparr>ec_C := counter_of l\<rparr>) =
        c\<lparr>ec_C := counter_of k\<rparr>" by (simp add: k_def counter_of_0)
    have sel: "ec_C (c\<lparr>ec_C := C\<rparr>) = C" "ec_buf (c\<lparr>ec_C := C\<rparr>) = ec_buf c" for C by simp_all
    have m1: "memcpy (ec_buf c) ptr [last_byte ub n] = Some (take ptr (ec_buf c) @ [last_byte ub n] @ drop (ptr + 1) (ec_buf c))"
      using buf by (simp add: memcpy_def)
    have m2: "memset (take ptr (ec_buf c) @ [last_byte ub n] @ drop (ptr + 1) (ec_buf c)) (ptr + 1) 0 (size_sub B (ptr + 1)) = Some b"
      using buf by (simp add: memset_def memcpy_def b_def)
    have m3: "mem_read (le_bytes 16 l @ drop 16 tmp) 0 16 = Some (le_bytes 16 l)"
      by (simp add: mem_read_def)
    have m4: "memset (ec_buf (ES_COMPRESS sz ops sc)) 0 0 B = Some (replicate B 0)"
      using lb by (simp add: memset_def memcpy_def compress_frame sc_def)
    show ?thesis
      unfolding echo_close_def Let_def ptr_def [symmetric] elen B_def [symmetric]
      by (simp only: sel incr cnt e0 Option.bind.bind_lunit cond m1 m2 sc_def [symmetric] m3 m4 echo_finish_def [abs_def] Let_def B_def [symmetric])
  qed
  have lr: "length (stream.pending c) = ptr" using buf by (simp add: stream.pending_def ptr_def [symmetric])
  have tb: "length (le_bytes 16 l @ drop 16 tmp) = 8 * rows" using tmp rows(1) by auto
  let ?p = "close_bytes (32 * w32) ptr ub n l"
  show ?thesis
  proof (cases "ptr + 1 \<le> B - 18")
    case True
    then have x: "stream.pending c @ ?p = take (B - 18) b @ le_bytes 2 (32 * w32) @ le_bytes 16 l"
      using buf by (simp add: close_bytes_def b_def B_def [symmetric] stream.pending_def ptr_def [symmetric] Let_def take_Cons')
    have "length (stream.pending c @ ?p) = B" unfolding x using lb B by auto
    then have "final_blocks l e (stream.pending c) ?p = [(k, take (B - 18) b @ le_bytes 2 (32 * w32) @ le_bytes 16 l)]"
      unfolding final_blocks_def Let_def by (simp add: x B_def [symmetric] k_def)
    moreover have "length (ec_buf sc) = ES_BUF sz" "ec_C sc = counter_of k" "ec_V sc = ec_V c" "ec_buf sc = b"
      using lb by (simp_all add: sc_def B_def)
    ultimately show ?thesis
      using finish_eq [of sc k "le_bytes 16 l @ drop 16 tmp" w32 l] first True tb w32
      by (simp add: l_def [symmetric] e_def [symmetric] ptr_def [symmetric] B_def [symmetric])
  next
    case False
    define sc2 where "sc2 = (ES_COMPRESS sz ops sc)\<lparr>ec_C := (0, 0, 0, 0), ec_buf := replicate B 0\<rparr>"
    have "e \<noteq> 0" using False B by (auto simp: e_def)
    then have k: "k = l" by (simp add: k_def)
    have "2 * B - 18 - (ptr + 1) = (B - (ptr + 1)) + (B - 18)" using False buf B by auto
    then have x: "stream.pending c @ ?p = b @ replicate (B - 18) 0 @ le_bytes 2 (32 * w32) @ le_bytes 16 l"
      using False by (simp add: close_bytes_def b_def B_def [symmetric] stream.pending_def ptr_def [symmetric] Let_def replicate_add)
    have lx: "length (stream.pending c @ ?p) \<noteq> B" unfolding x using lb by simp
    have fb: "final_blocks l e (stream.pending c) ?p =
        [(l, b), (0, replicate (B - 18) 0 @ le_bytes 2 (32 * w32) @ le_bytes 16 l)]"
      unfolding final_blocks_def Let_def B_def [symmetric] if_not_P [OF lx] if_not_P [OF \<open>e \<noteq> 0\<close>] x using lb by simp
    have V: "chain_bytes ops rows (ec_V sc2) = echo_compress_spec rounds l (chain_bytes ops rows (ec_V c)) (chunks 16 b)"
      using compress_V [of b "c\<lparr>ec_C := counter_of k\<rparr>" l] lb k by (simp add: sc2_def sc_def B_def)
    have "length (ec_buf sc2) = ES_BUF sz" "ec_C sc2 = counter_of 0" "take (B - 18) (ec_buf sc2) = replicate (B - 18) 0"
      by (simp_all add: sc2_def B_def counter_of_0 take_replicate)
    then show ?thesis
      using finish_eq [of sc2 0 "le_bytes 16 l @ drop 16 tmp" w32 l] first False tb w32 V fb
      by (simp add: l_def [symmetric] e_def [symmetric] ptr_def [symmetric] B_def [symmetric] sc2_def [symmetric])
  qed
qed

text \<open>The final blocks are the last blocks of the padded message, with the counters of the specification.\<close>

lemma final_blocks_eq:
  assumes n: "n < 8" and ptr: "ptr < ES_BUF sz" and r: "length r = ptr"
    and l: "l = 8 * ES_BUF sz * N + 8 * ptr + n"
  shows "map (\<lambda>(i, b). (echo_counter (8 * ES_BUF sz) l i, b))
      (enumerate N (chunks (ES_BUF sz) (r @ close_bytes d ptr ub n l))) =
    final_blocks l (8 * ptr + n) r (close_bytes d ptr ub n l)"
proof -
  let ?B = "ES_BUF sz"
  let ?x = "r @ close_bytes d ptr ub n l"
  have B: "18 < ?B" using blk(2) by auto
  have e: "8 * ptr + n < 8 * ?B" using n ptr by linarith
  have cN: "echo_counter (8 * ?B) l N = (if 8 * ptr + n = 0 then 0 else l)"
    using e by (auto simp: echo_counter_def l algebra_simps)
  have cS: "echo_counter (8 * ?B) l (Suc N) = 0"
    using e by (auto simp: echo_counter_def l algebra_simps)
  show ?thesis
  proof (cases "ptr + 1 \<le> ?B - 18")
    case True
    then have len: "length ?x = ?B" using r B by (simp add: close_bytes_def Let_def)
    then have "chunks ?B ?x = [?x]" using chunks_Cons [of ?B ?x "[]"] B by (simp add: chunks_short)
    then show ?thesis unfolding final_blocks_def Let_def if_P [OF len] by (simp add: cN)
  next
    case False
    then have len: "length ?x = 2 * ?B" using r B ptr by (simp add: close_bytes_def Let_def)
    have "chunks ?B ?x = take ?B ?x # chunks ?B (drop ?B ?x)"
      using len B by (subst chunks.simps) simp
    also have "chunks ?B (drop ?B ?x) = [drop ?B ?x]"
      using chunks_Cons [of ?B "drop ?B ?x" "[]"] len B by (simp add: chunks_short)
    finally show ?thesis
      unfolding final_blocks_def Let_def len using B by (simp add: cN cS)
  qed
qed

lemma full_blocks_eq:
  assumes "b * length bs \<le> l"
  shows "map (\<lambda>(i, x). (echo_counter b l i, x)) (enumerate 0 bs) = zip (map (\<lambda>i. 0 + b * (i + 1)) [0..<length bs]) bs"
proof (rule nth_equalityI)
  fix i assume "i < length (map (\<lambda>(i, x). (echo_counter b l i, x)) (enumerate 0 bs))"
  then have i: "i < length bs" by simp
  have "b * (i + 1) \<le> b * length bs" using i by (intro mult_le_mono2) simp
  then have "b * (i + 1) \<le> l" using assms by linarith
  moreover from this have "echo_counter b l i = b * (i + 1)"
    by (cases "b = 0") (auto simp: echo_counter_def)
  ultimately show "map (\<lambda>(i, x). (echo_counter b l i, x)) (enumerate 0 bs) ! i =
      zip (map (\<lambda>i. 0 + b * (i + 1)) [0..<length bs]) bs ! i"
    using i by (simp add: nth_enumerate_eq)
qed simp

lemma echo_spec_chain:
  assumes d: "echo_rows d = rows" "echo_num_rounds d = rounds" and M: "M @ echo_pad d (length M) = msb_bits x"
  shows "echo_spec d M = take (d div 8) (concat (echo_chain rounds (replicate rows (le_bytes 16 d))
    (map (\<lambda>(i, b). (echo_counter (8 * ES_BUF sz) (length M) i, b)) (enumerate 0 (chunks (ES_BUF sz) x)))))"
proof -
  have b: "echo_block_bits d = 8 * ES_BUF sz" by (simp add: echo_block_bits_def d blk(1))
  have "chunks (8 * ES_BUF sz) (msb_bits x) = map msb_bits (chunks (ES_BUF sz) x)"
    using blk(2) by (intro chunks_msb_bits) auto
  moreover have "enumerate k (map msb_bits bs) = map (\<lambda>(i, y). (i, msb_bits y)) (enumerate k bs)" for k bs
    by (induction bs arbitrary: k) simp_all
  ultimately show ?thesis
    by (simp add: echo_spec_def Let_def b d M echo_chain_def foldl_map split_def)
qed

lemma init_chain: "d < 2 ^ 16 \<Longrightarrow> chain_bytes ops rows (ec_V (echo_init sz ops d c)) = replicate rows (le_bytes 16 d)"
proof -
  assume d: "d < 2 ^ 16"
  define X :: "'a word list" where "X = of_nat d # replicate (EK ops - 1) 0"
  have "0 < EK ops" using EK_cell(1) by (cases "EK ops") simp_all
  then have X: "length X = EK ops" by (simp add: X_def)
  have "map (\<lambda>j. concat (replicate rows X) ! (EK ops * u + j)) [0..<EK ops] = X" if "u < rows" for u
  proof -
    have "concat (replicate rows X) ! (EK ops * u + j) = X ! j" if "j < EK ops" for j
      using nth_concat_eq [of "replicate rows X" "EK ops" u j] X that \<open>u < rows\<close> by simp
    then show ?thesis using X by (intro nth_equalityI) simp_all
  qed
  then have "chain_cells ops rows (concat (replicate rows X)) = replicate rows X"
    by (intro nth_equalityI) (simp_all add: chain_cells_def)
  moreover have "cell_bytes ops X = le_bytes 16 d" unfolding X_def cell_bytes_def by (rule init_bytes [OF d])
  ultimately show ?thesis
    unfolding chain_bytes_def cells_bytes_def echo_init_def X_def [symmetric] rows(2) by simp
qed

lemma echo_run_hash:
  assumes d: "echo_rows d = rows" "echo_num_rounds d = rounds" "d \<in> {224, 256, 384, 512}"
    and cc: "length (ec_buf cc) = ES_BUF sz" and n: "n < 8" and tmp: "length tmp = 8 * rows"
  shows "run_hash (echo_init sz ops d) (echo_core sz ops) (\<lambda>c. echo_close sz ops (d div 32) tmp c ub n) cc ds =
    Some (echo_spec d (msb_bits (concat ds) @ tail_bits ub n))"
proof -
  let ?c = "echo_init sz ops d cc" and ?m = "concat ds" and ?B = "ES_BUF sz"
  define N where "N = length ?m div ?B"
  have B: "0 < ?B" using blk(2) by auto
  have "stream.ready ?c" "stream.pending ?c = []"
    using cc B by (simp_all add: stream.ready_def stream.pending_def echo_init_def)
  with stream.feed_refines [of ?c ds] obtain c where c: "feed (echo_core sz ops) ?c ds = Some c" "stream.ready c"
    and st: "((ec_V c, ec_C c), stream.pending c) =
      absorb_blocks ?B (echo_absorb sz ops) (ec_V ?c, ec_C ?c) ?m" by auto
  have C0: "ec_C ?c = counter_of 0" by (simp add: echo_init_def counter_of_0)
  have pend: "stream.pending c = drop (?B * N) ?m"
    and fold: "(ec_V c, ec_C c) = foldl (echo_absorb sz ops) (ec_V ?c, counter_of 0) (chunks ?B ?m)"
    using st B unfolding C0 by (simp_all add: absorb_blocks_eq N_def)
  have lens: "\<forall>b \<in> set (chunks ?B ?m). length b = ?B" using set_chunks_length by blast
  have lN: "length (chunks ?B ?m) = N" using B by (simp add: length_chunks N_def)
  have C: "ec_C c = counter_of (8 * ?B * N)"
    and V: "chain_bytes ops rows (ec_V c) = echo_chain rounds (chain_bytes ops rows (ec_V ?c))
      (zip (map (\<lambda>i. 0 + 8 * ?B * (i + 1)) [0..<N]) (chunks ?B ?m))"
    using absorb_blocks_bytes [OF lens, of "ec_V ?c" 0] unfolding fold [symmetric] lN by simp_all
  have ptr: "ec_ptr c < ?B" "length (ec_buf c) = ?B" using c(2) by (simp_all add: stream.ready_def)
  then have lp: "length (stream.pending c) = ec_ptr c" by (simp add: stream.pending_def)
  then have l: "length ?m = ?B * N + ec_ptr c"
    using mult_div_mod_eq [of ?B "length ?m"] unfolding pend by (simp add: N_def minus_mult_div_eq_mod)
  define L where "L = 8 * ?B * N + 8 * ec_ptr c + n"
  have L: "length (msb_bits ?m @ tail_bits ub n) = L" by (simp add: L_def l algebra_simps)
  define p where "p = close_bytes d (ec_ptr c) ub n L"
  have b: "echo_block_bits d = 8 * ?B" by (simp add: echo_block_bits_def d blk(1))
  have M: "(msb_bits ?m @ tail_bits ub n) @ echo_pad d L = msb_bits (?m @ p)"
    using close_bytes_bits [OF n ptr(1) b, of ub N] by (simp add: L_def p_def)
  have "?m @ p = take (?B * N) ?m @ (stream.pending c @ p)" by (simp add: pend)
  moreover have "length (take (?B * N) ?m) = ?B * N" by (simp add: l)
  moreover have "chunks ?B ?m = chunks ?B (take (?B * N) ?m)"
    using chunks_append_full [OF B \<open>length (take (?B * N) ?m) = ?B * N\<close>, of "drop (?B * N) ?m"] lp ptr pend
    by (simp add: chunks_short)
  ultimately have ch: "chunks ?B (?m @ p) = chunks ?B ?m @ chunks ?B (stream.pending c @ p)"
    using chunks_append_full [OF B] by metis
  have w: "d div 32 \<le> 2 * rows" "32 * (d div 32) = d" "4 * (d div 32) = d div 8" "d < 2 ^ 16"
    using d by (auto simp: echo_rows_def)
  have "echo_spec d (msb_bits ?m @ tail_bits ub n) = take (d div 8) (concat (echo_chain rounds (replicate rows (le_bytes 16 d))
      (zip (map (\<lambda>i. 0 + 8 * ?B * (i + 1)) [0..<N]) (chunks ?B ?m) @
       final_blocks L (8 * ec_ptr c + n) (stream.pending c) p)))"
  proof -
    have "8 * ?B * length (chunks ?B ?m) \<le> L" by (simp add: lN L_def)
    from full_blocks_eq [OF this] final_blocks_eq [OF n ptr(1) lp L_def, of d ub] show ?thesis
      unfolding echo_spec_chain [OF d(1,2) M [folded L]] L ch enumerate_append_eq map_append lN
      by (simp add: p_def [symmetric])
  qed
  moreover obtain c' where "echo_close sz ops (d div 32) tmp c ub n = Some (take (d div 8) (concat (
      echo_chain rounds (chain_bytes ops rows (ec_V c))
        (final_blocks L (8 * ec_ptr c + n) (stream.pending c) p))), c')"
    using close_eq [OF c(2) n tmp C w(1), of ub] unfolding w L_def [symmetric] p_def [symmetric] by auto
  ultimately show ?thesis
    using c(1) by (simp add: run_hash_def V init_chain [OF w(4)])
qed

end

end
