(* ===== verification/Uint256.thy ===== *)
theory Uint256
  imports Sph_Types
begin

text \<open>
  The model of \<open>src/src/uint256.h\<close>: the class template \<open>base_uint\<close> of fixed-width unsigned
  integers, an array \<open>pn\<close> of \<open>WIDTH\<close> 32-bit words with the least significant word first. The
  classes \<open>uint160\<close>, \<open>uint256\<close> and \<open>uint512\<close> are its instances with 5, 8 and 16 words; the
  operators are the same code for each, so \<open>WIDTH\<close> is the length of the list. \<open>uint_val\<close> is the
  number an object stands for; every operator is shown to compute the operation on numbers,
  modulo \<open>2 ^ (32 * WIDTH)\<close>.
\<close>

type_synonym base_uint = "u32 list"

definition WIDTH160 :: nat where "WIDTH160 = 160 div 32"
definition WIDTH256 :: nat where "WIDTH256 = 256 div 32"
definition WIDTH512 :: nat where "WIDTH512 = 512 div 32"

section \<open>Construction and bitwise operators\<close>

definition bu_zero :: "nat \<Rightarrow> base_uint" where
  "bu_zero W = replicate W 0"

definition bu_set64 :: "nat \<Rightarrow> u64 \<Rightarrow> base_uint" where
  "bu_set64 W b = ucast b # ucast (drop_bit 32 b) # replicate (W - 2) 0"

fun bu_is_zero :: "base_uint \<Rightarrow> bool" where
  "bu_is_zero [] = True"
| "bu_is_zero (p # ps) = (if p \<noteq> 0 then False else bu_is_zero ps)"

definition bu_not :: "base_uint \<Rightarrow> base_uint" where
  "bu_not pn = map (\<lambda>p. NOT p) pn"

definition bu_xor :: "base_uint \<Rightarrow> base_uint \<Rightarrow> base_uint" where
  "bu_xor pn b = map2 (XOR) pn b"

definition bu_and :: "base_uint \<Rightarrow> base_uint \<Rightarrow> base_uint" where
  "bu_and pn b = map2 (AND) pn b"

definition bu_or :: "base_uint \<Rightarrow> base_uint \<Rightarrow> base_uint" where
  "bu_or pn b = map2 (OR) pn b"

definition bu_xor64 :: "base_uint \<Rightarrow> u64 \<Rightarrow> base_uint" where
  "bu_xor64 pn b =
     (let pn = pn[0 := pn ! 0 XOR ucast b]
      in pn[1 := pn ! 1 XOR ucast (drop_bit 32 b)])"

definition bu_or64 :: "base_uint \<Rightarrow> u64 \<Rightarrow> base_uint" where
  "bu_or64 pn b =
     (let pn = pn[0 := pn ! 0 OR ucast b]
      in pn[1 := pn ! 1 OR ucast (drop_bit 32 b)])"

section \<open>Shifts\<close>

definition shl_step :: "base_uint \<Rightarrow> nat \<Rightarrow> nat \<Rightarrow> nat \<Rightarrow> base_uint \<Rightarrow> base_uint" where
  "shl_step a k shift i pn =
     (let pn = (if i + k + 1 < length a \<and> shift \<noteq> 0
                then pn[i + k + 1 := pn ! (i + k + 1) OR drop_bit (32 - shift) (a ! i)] else pn)
      in if i + k < length a then pn[i + k := pn ! (i + k) OR push_bit shift (a ! i)] else pn)"

definition bu_shl :: "base_uint \<Rightarrow> nat \<Rightarrow> base_uint" where
  "bu_shl a shift =
     (let k = shift div 32; shift = shift mod 32
      in fold (shl_step a k shift) [0..<length a] (replicate (length a) 0))"

definition shr_step :: "base_uint \<Rightarrow> nat \<Rightarrow> nat \<Rightarrow> nat \<Rightarrow> base_uint \<Rightarrow> base_uint" where
  "shr_step a k shift i pn =
     (let pn = (if k + 1 \<le> i \<and> shift \<noteq> 0
                then pn[i - k - 1 := pn ! (i - k - 1) OR push_bit (32 - shift) (a ! i)] else pn)
      in if k \<le> i then pn[i - k := pn ! (i - k) OR drop_bit shift (a ! i)] else pn)"

definition bu_shr :: "base_uint \<Rightarrow> nat \<Rightarrow> base_uint" where
  "bu_shr a shift =
     (let k = shift div 32; shift = shift mod 32
      in fold (shr_step a k shift) [0..<length a] (replicate (length a) 0))"

section \<open>Arithmetic\<close>

text \<open>The prefix operators: the carry or borrow runs on while a word wraps around.\<close>

fun bu_inc :: "base_uint \<Rightarrow> base_uint" where
  "bu_inc [] = []"
| "bu_inc (p # ps) = (let p = p + 1 in if p = 0 \<and> ps \<noteq> [] then p # bu_inc ps else p # ps)"

fun bu_dec :: "base_uint \<Rightarrow> base_uint" where
  "bu_dec [] = []"
| "bu_dec (p # ps) = (let p = p - 1 in if p = - 1 \<and> ps \<noteq> [] then p # bu_dec ps else p # ps)"

definition bu_neg :: "base_uint \<Rightarrow> base_uint" where
  "bu_neg pn = bu_inc (map (\<lambda>p. NOT p) pn)"

fun bu_add_loop :: "u64 \<Rightarrow> base_uint \<Rightarrow> base_uint \<Rightarrow> base_uint" where
  "bu_add_loop carry (p # ps) (b # bs) =
     (let n = carry + ucast p + ucast b
      in ucast (n AND 0xffffffff) # bu_add_loop (drop_bit 32 n) ps bs)"
| "bu_add_loop carry _ _ = []"

definition bu_add :: "base_uint \<Rightarrow> base_uint \<Rightarrow> base_uint" where
  "bu_add pn b = bu_add_loop 0 pn b"

definition bu_sub :: "base_uint \<Rightarrow> base_uint \<Rightarrow> base_uint" where
  "bu_sub pn b = bu_add pn (bu_neg b)"

definition bu_add64 :: "base_uint \<Rightarrow> u64 \<Rightarrow> base_uint" where
  "bu_add64 pn b64 = bu_add pn (bu_set64 (length pn) b64)"

definition bu_sub64 :: "base_uint \<Rightarrow> u64 \<Rightarrow> base_uint" where
  "bu_sub64 pn b64 = bu_add pn (bu_neg (bu_set64 (length pn) b64))"

section \<open>Comparisons\<close>

text \<open>The loops run from the most significant word down; \<open>e\<close> is the result on equal numbers.\<close>

fun lt_loop :: "bool \<Rightarrow> (u32 \<times> u32) list \<Rightarrow> bool" where
  "lt_loop e [] = e"
| "lt_loop e ((a, b) # r) = (if a < b then True else if a > b then False else lt_loop e r)"

fun gt_loop :: "bool \<Rightarrow> (u32 \<times> u32) list \<Rightarrow> bool" where
  "gt_loop e [] = e"
| "gt_loop e ((a, b) # r) = (if a > b then True else if a < b then False else gt_loop e r)"

definition bu_less :: "base_uint \<Rightarrow> base_uint \<Rightarrow> bool" where
  "bu_less a b = lt_loop False (rev (zip a b))"

definition bu_less_eq :: "base_uint \<Rightarrow> base_uint \<Rightarrow> bool" where
  "bu_less_eq a b = lt_loop True (rev (zip a b))"

definition bu_greater :: "base_uint \<Rightarrow> base_uint \<Rightarrow> bool" where
  "bu_greater a b = gt_loop False (rev (zip a b))"

definition bu_greater_eq :: "base_uint \<Rightarrow> base_uint \<Rightarrow> bool" where
  "bu_greater_eq a b = gt_loop True (rev (zip a b))"

fun bu_eq :: "base_uint \<Rightarrow> base_uint \<Rightarrow> bool" where
  "bu_eq (a # as) (b # bs) = (if a \<noteq> b then False else bu_eq as bs)"
| "bu_eq _ _ = True"

definition bu_eq64 :: "base_uint \<Rightarrow> u64 \<Rightarrow> bool" where
  "bu_eq64 a b =
     (if a ! 0 \<noteq> ucast b then False
      else if a ! 1 \<noteq> ucast (drop_bit 32 b) then False
      else \<forall>i \<in> set [2..<length a]. a ! i = 0)"

section \<open>Bytes and hexadecimal strings\<close>

text \<open>The memory of the array, on a little-endian machine.\<close>

definition bu_bytes :: "base_uint \<Rightarrow> byte list" where
  "bu_bytes pn = concat (map native_store32 pn)"

definition bu_of_bytes :: "byte list \<Rightarrow> base_uint" where
  "bu_of_bytes bs = map native_load32 (chunks 4 bs)"

text \<open>The constructor from a byte vector: a vector of another size gives 0.\<close>

definition bu_of_vector :: "nat \<Rightarrow> byte list \<Rightarrow> base_uint" where
  "bu_of_vector W vch = (if length vch = 4 * W then bu_of_bytes vch else bu_set64 W 0)"

definition hex_digit :: "nat \<Rightarrow> char" where
  "hex_digit n = ''0123456789abcdef'' ! n"

definition byte_hex :: "byte \<Rightarrow> string" where
  "byte_hex b = [hex_digit (unat b div 16), hex_digit (unat b mod 16)]"

definition GetHex :: "base_uint \<Rightarrow> string" where
  "GetHex pn = concat (map byte_hex (rev (bu_bytes pn)))"

text \<open>The digit table, which is 0 from index 112 on, and the C library's classification of white space.\<close>

definition phexdigit_table :: "byte list" where
  "phexdigit_table =
     [0,0,0,0,0,0,0,0,0,0,0,0,0,0,0,0, 0,0,0,0,0,0,0,0,0,0,0,0,0,0,0,0,
      0,0,0,0,0,0,0,0,0,0,0,0,0,0,0,0, 0,1,2,3,4,5,6,7,8,9,0,0,0,0,0,0,
      0,0xa,0xb,0xc,0xd,0xe,0xf,0,0,0,0,0,0,0,0,0, 0,0,0,0,0,0,0,0,0,0,0,0,0,0,0,0,
      0,0xa,0xb,0xc,0xd,0xe,0xf,0,0,0,0,0,0,0,0,0]"

definition phexdigit :: "char \<Rightarrow> byte" where
  "phexdigit c = (let i = of_char c :: nat in if i < length phexdigit_table then phexdigit_table ! i else 0)"

definition c_isspace :: "char \<Rightarrow> bool" where
  "c_isspace c \<longleftrightarrow> (of_char c :: nat) \<in> {9, 10, 11, 12, 13, 32}"

fun hex_to_bytes :: "string \<Rightarrow> byte list" where
  "hex_to_bytes [] = []"
| "hex_to_bytes [c] = [phexdigit c]"
| "hex_to_bytes (c # d # cs) = (phexdigit c OR push_bit 4 (phexdigit d)) # hex_to_bytes cs"

definition skip_0x :: "string \<Rightarrow> string" where
  "skip_0x s = (case s of c0 # c1 # r \<Rightarrow>
     if c0 = CHR ''0'' \<and> (c1 = CHR ''x'' \<or> c1 = CHR ''X'') then r else s | _ \<Rightarrow> s)"

text \<open>
  The digits are read from the last one backwards, two for each byte of the array, until the
  digits or the array end.
\<close>

definition SetHex :: "nat \<Rightarrow> string \<Rightarrow> base_uint" where
  "SetHex W psz =
     (let psz = dropWhile c_isspace psz;
          psz = skip_0x psz;
          digits = takeWhile (\<lambda>c. phexdigit c \<noteq> 0 \<or> c = CHR ''0'') psz;
          bytes = take (4 * W) (hex_to_bytes (rev digits))
      in bu_of_bytes (bytes @ replicate (4 * W - length bytes) 0))"

definition Get64 :: "base_uint \<Rightarrow> nat \<Rightarrow> u64" where
  "Get64 pn n = ucast (pn ! (2 * n)) OR push_bit 32 (ucast (pn ! (2 * n + 1)))"

definition trim256 :: "base_uint \<Rightarrow> base_uint" where
  "trim256 pn = fold (\<lambda>i ret. ret[i := pn ! i]) [0..<WIDTH256] (bu_zero WIDTH256)"

section \<open>The number an object stands for\<close>

fun uint_val :: "base_uint \<Rightarrow> nat" where
  "uint_val [] = 0"
| "uint_val (p # ps) = unat p + 2 ^ 32 * uint_val ps"

lemma uint_val_less: "uint_val pn < 2 ^ (32 * length pn)"
proof (induction pn)
  case (Cons p ps)
  have "unat p < 2 ^ 32" using unsigned_less [of p] by simp
  moreover have "uint_val ps + 1 \<le> 2 ^ (32 * length ps)" using Cons by simp
  then have "2 ^ 32 * (uint_val ps + 1) \<le> 2 ^ 32 * 2 ^ (32 * length ps)" by (rule mult_le_mono2)
  ultimately show ?case by (simp add: power_add)
qed simp

lemma uint_val_append: "uint_val (xs @ ys) = uint_val xs + 2 ^ (32 * length xs) * uint_val ys"
  by (induction xs) (simp_all add: power_add algebra_simps)

text \<open>Numbers in base \<open>2\<^sup>3\<^sup>2\<close>, digit by digit.\<close>

lemma base_digits:
  fixes a b c d :: nat
  assumes "a < 2 ^ 32" "c < 2 ^ 32"
  shows "a + 2 ^ 32 * b = c + 2 ^ 32 * d \<longleftrightarrow> a = c \<and> b = d"
proof
  assume e: "a + 2 ^ 32 * b = c + 2 ^ 32 * d"
  have "a = (a + 2 ^ 32 * b) mod 2 ^ 32" "c = (c + 2 ^ 32 * d) mod 2 ^ 32" using assms by simp_all
  with e have "a = c" by simp
  with e show "a = c \<and> b = d" by simp
qed simp

lemma base_mod:
  fixes x y :: nat
  shows "(x + 2 ^ 32 * y) mod 2 ^ (32 * Suc l) = x mod 2 ^ 32 + 2 ^ 32 * ((x div 2 ^ 32 + y) mod 2 ^ (32 * l))"
proof -
  have "(x + 2 ^ 32 * y) mod (2 ^ 32 * 2 ^ (32 * l)) =
      2 ^ 32 * ((x + 2 ^ 32 * y) div 2 ^ 32 mod 2 ^ (32 * l)) + (x + 2 ^ 32 * y) mod 2 ^ 32"
    by (rule mod_mult2_eq)
  also have "(x + 2 ^ 32 * y) div 2 ^ 32 = x div 2 ^ 32 + y" by simp
  finally show ?thesis by (simp add: power_add)
qed

lemma unat_u32_less: "unat (p :: u32) < 2 ^ 32"
  using unsigned_less [of p] by simp

lemma uint_val_inject: "length a = length b \<Longrightarrow> uint_val a = uint_val b \<longleftrightarrow> a = b"
proof (induction a b rule: list_induct2)
  case (Cons x xs y ys)
  then show ?case
    using base_digits [OF unat_u32_less unat_u32_less, of x "uint_val xs" y "uint_val ys"]
    by (simp add: word_unat_eq_iff del: power_numeral)
qed simp

lemma uint_val_replicate_0 [simp]: "uint_val (replicate n 0) = 0"
  by (induction n) simp_all

lemma uint_val_set64: "2 \<le> W \<Longrightarrow> uint_val (bu_set64 W b) = unat b"
proof -
  have "unat (ucast b :: u32) + 2 ^ 32 * unat (ucast (drop_bit 32 b) :: u32) = unat b"
  proof -
    have "unat b < 2 ^ 64" using unsigned_less [of b] by simp
    then have "unat b div 2 ^ 32 < 2 ^ 32" by (simp add: div_less_iff_less_mult)
    then show ?thesis
      by (simp add: unsigned_ucast_eq unsigned_drop_bit_eq take_bit_eq_mod drop_bit_eq_div unat_div)
  qed
  then show ?thesis by (simp add: bu_set64_def)
qed

section \<open>Addition and its relatives\<close>

lemma length_add_loop: "length a = length b \<Longrightarrow> length (bu_add_loop c a b) = length a"
  by (induction a b arbitrary: c rule: list_induct2) (simp_all add: Let_def)

lemma add_loop_val:
  "length a = length b \<Longrightarrow> unat c \<le> 1 \<Longrightarrow>
     uint_val (bu_add_loop c a b) = (unat c + uint_val a + uint_val b) mod 2 ^ (32 * length a)"
proof (induction a b arbitrary: c rule: list_induct2)
  case (Cons x xs y ys)
  define n where "n = c + ucast x + ucast y"
  have x: "unat (ucast x :: u64) = unat x" "unat (ucast y :: u64) = unat y"
    using unat_u32_less [of x] unat_u32_less [of y] by (simp_all add: unsigned_ucast_eq take_bit_nat_eq_self)
  have n: "unat n = unat c + unat x + unat y"
    using unat_u32_less [of x] unat_u32_less [of y] Cons.prems x
    by (simp add: n_def unat_word_ariths)
  have low: "unat (ucast (n AND 0xffffffff) :: u32) = unat n mod 2 ^ 32"
  proof -
    have "n AND 0xffffffff = take_bit 32 n"
      by (simp add: take_bit_eq_mask mask_eq_exp_minus_1)
    then show ?thesis
      by (simp add: unsigned_ucast_eq unsigned_take_bit_eq take_bit_eq_mod unat_mod)
  qed
  have high: "unat (drop_bit 32 n) = unat n div 2 ^ 32"
    by (simp add: unsigned_drop_bit_eq drop_bit_eq_div unat_div)
  have "unat n div 2 ^ 32 < 2"
    by (rule less_mult_imp_div_less) (use n unat_u32_less [of x] unat_u32_less [of y] Cons.prems in simp)
  then have IH: "uint_val (bu_add_loop (drop_bit 32 n) xs ys) =
      (unat n div 2 ^ 32 + (uint_val xs + uint_val ys)) mod 2 ^ (32 * length xs)"
    using Cons.IH [of "drop_bit 32 n"] by (simp add: high add.assoc less_Suc_eq_le numeral_2_eq_2)
  have "uint_val (bu_add_loop c (x # xs) (y # ys)) =
      unat n mod 2 ^ 32 + 2 ^ 32 * ((unat n div 2 ^ 32 + (uint_val xs + uint_val ys)) mod 2 ^ (32 * length xs))"
    by (simp only: bu_add_loop.simps Let_def n_def [symmetric] uint_val.simps low IH)
  also have "\<dots> = (unat n + 2 ^ 32 * (uint_val xs + uint_val ys)) mod 2 ^ (32 * Suc (length xs))"
    by (rule base_mod [symmetric])
  also have "unat n + 2 ^ 32 * (uint_val xs + uint_val ys) = unat c + uint_val (x # xs) + uint_val (y # ys)"
    by (simp add: n)
  finally show ?case by simp
qed simp

lemma bu_add_val:
  "length a = length b \<Longrightarrow> uint_val (bu_add a b) = (uint_val a + uint_val b) mod 2 ^ (32 * length a)"
  by (simp add: bu_add_def add_loop_val)

lemma length_bu_inc [simp]: "length (bu_inc a) = length a"
  by (induction a) (simp_all add: Let_def)

lemma bu_inc_val: "uint_val (bu_inc a) = (uint_val a + 1) mod 2 ^ (32 * length a)"
proof (induction a)
  case (Cons x xs)
  have x: "unat (x + 1) = (unat x + 1) mod 2 ^ 32" by (simp add: unat_word_ariths)
  have "(unat x + 1 + 2 ^ 32 * uint_val xs) mod 2 ^ (32 * Suc (length xs)) =
      (unat x + 1) mod 2 ^ 32 + 2 ^ 32 * (((unat x + 1) div 2 ^ 32 + uint_val xs) mod 2 ^ (32 * length xs))"
    by (rule base_mod)
  moreover have "x + 1 = 0 \<longleftrightarrow> unat x + 1 = 2 ^ 32"
    using unat_u32_less [of x] by (auto simp: word_unat_eq_iff x mod_if)
  moreover have "(unat x + 1) div 2 ^ 32 = (if unat x + 1 = 2 ^ 32 then 1 else 0)"
    using unat_u32_less [of x] by (auto simp: div_if)
  moreover have "uint_val xs mod 2 ^ (32 * length xs) = uint_val xs" using uint_val_less by simp
  ultimately show ?case
    using Cons x by (cases "xs = []") (auto simp: Let_def algebra_simps simp del: power_numeral)
qed simp

lemma length_bu_dec [simp]: "length (bu_dec a) = length a"
  by (induction a) (simp_all add: Let_def)

lemma bu_dec_val: "a \<noteq> [] \<Longrightarrow> uint_val (bu_dec a) = (uint_val a + (2 ^ (32 * length a) - 1)) mod 2 ^ (32 * length a)"
proof -
  have "bu_inc (bu_dec a) = a"
  proof (induction a)
    case (Cons x xs)
    then show ?case by (cases "x = 0"; cases xs) (auto simp: Let_def)
  qed simp
  then have inc: "uint_val a = (uint_val (bu_dec a) + 1) mod 2 ^ (32 * length a)"
    using bu_inc_val [of "bu_dec a"] by simp
  let ?M = "2 ^ (32 * length a) :: nat"
  have d: "uint_val (bu_dec a) < ?M" using uint_val_less [of "bu_dec a"] by simp
  have "(uint_val a + (?M - 1)) mod ?M = (uint_val (bu_dec a) + 1 + (?M - 1)) mod ?M"
    unfolding inc by (simp only: mod_add_left_eq)
  also have "uint_val (bu_dec a) + 1 + (?M - 1) = uint_val (bu_dec a) + ?M" by simp
  finally show ?thesis using d by simp
qed

lemma bu_not_val: "uint_val (bu_not a) = 2 ^ (32 * length a) - 1 - uint_val a"
proof -
  have "uint_val (bu_not a) + uint_val a + 1 = 2 ^ (32 * length a)"
  proof (induction a)
    case (Cons x xs)
    have "unat (NOT x) + unat x = 2 ^ 32 - 1"
    proof -
      have "NOT x = - 1 - x" by (simp add: not_eq_complement)
      moreover have "unat (- 1 - x) = unat (- 1 :: u32) - unat x" by (rule unat_sub) (rule word_n1_ge)
      ultimately show ?thesis using unat_u32_less [of x] by (simp add: unsigned_minus_1_eq_mask mask_eq_exp_minus_1)
    qed
    then have "uint_val (bu_not (x # xs)) + uint_val (x # xs) + 1 = 2 ^ 32 * (uint_val (bu_not xs) + uint_val xs + 1)"
      by (simp add: bu_not_def)
    then show ?case unfolding Cons by (simp add: power_add)
  qed (simp add: bu_not_def)
  then show ?thesis by linarith
qed

lemma length_bu_neg [simp]: "length (bu_neg a) = length a"
  by (simp add: bu_neg_def)

lemma length_bu_not [simp]: "length (bu_not a) = length a"
  by (simp add: bu_not_def)

lemma bu_neg_val: "uint_val (bu_neg a) = (2 ^ (32 * length a) - uint_val a) mod 2 ^ (32 * length a)"
  unfolding bu_neg_def bu_not_def [symmetric]
  using bu_inc_val [of "bu_not a"] uint_val_less [of a] by (simp add: bu_not_val Suc_diff_Suc)

lemma bu_sub_val:
  assumes "length a = length b"
  shows "uint_val (bu_sub a b) = (uint_val a + (2 ^ (32 * length a) - uint_val b)) mod 2 ^ (32 * length a)"
  using assms by (simp add: bu_sub_def bu_add_val bu_neg_val mod_add_right_eq)

section \<open>Comparisons\<close>

lemma lt_loop_val:
  "lt_loop e (rev ps) \<longleftrightarrow> uint_val (map fst ps) < uint_val (map snd ps) \<or> e \<and> uint_val (map fst ps) = uint_val (map snd ps)"
proof (induction ps rule: rev_induct)
  case (snoc p ps)
  obtain x y where p: "p = (x, y)" by fastforce
  let ?M = "2 ^ (32 * length ps) :: nat"
  have l: "uint_val (map fst ps) < ?M" "uint_val (map snd ps) < ?M"
    using uint_val_less [of "map fst ps"] uint_val_less [of "map snd ps"] by simp_all
  have lt: "u + ?M * c < v + ?M * d" if "u < ?M" "c < d" for u v c d :: nat
  proof -
    have "?M * (c + 1) \<le> ?M * d" using that by (intro mult_le_mono2) simp
    then show ?thesis using that by simp
  qed
  consider "x < y" | "y < x" | "x = y" by fastforce
  then show ?case
  proof cases
    case 1
    then show ?thesis using lt [OF l(1), of "unat x" "unat y" "uint_val (map snd ps)"]
      by (simp add: p uint_val_append word_less_nat_alt)
  next
    case 2
    then show ?thesis using lt [OF l(2), of "unat y" "unat x" "uint_val (map fst ps)"]
      by (simp add: p uint_val_append word_less_nat_alt)
  next
    case 3
    then show ?thesis using snoc by (simp add: p uint_val_append)
  qed
qed simp

lemma gt_loop_swap: "gt_loop e ps = lt_loop e (map (\<lambda>(a, b). (b, a)) ps)"
  by (induction e ps rule: gt_loop.induct) auto

lemma bu_compare_val:
  assumes "length a = length b"
  shows "bu_less a b \<longleftrightarrow> uint_val a < uint_val b" "bu_less_eq a b \<longleftrightarrow> uint_val a \<le> uint_val b"
    "bu_greater a b \<longleftrightarrow> uint_val b < uint_val a" "bu_greater_eq a b \<longleftrightarrow> uint_val b \<le> uint_val a"
proof -
  have m: "map (\<lambda>(a, b). (b, a)) (rev (zip a b)) = rev (zip b a)"
    by (simp add: rev_map [symmetric]) (metis zip_commute)
  show "bu_less a b \<longleftrightarrow> uint_val a < uint_val b" "bu_less_eq a b \<longleftrightarrow> uint_val a \<le> uint_val b"
    "bu_greater a b \<longleftrightarrow> uint_val b < uint_val a" "bu_greater_eq a b \<longleftrightarrow> uint_val b \<le> uint_val a"
    using assms by (auto simp: bu_less_def bu_less_eq_def bu_greater_def bu_greater_eq_def gt_loop_swap m lt_loop_val)
qed

lemma bu_eq_val: "length a = length b \<Longrightarrow> bu_eq a b \<longleftrightarrow> uint_val a = uint_val b"
  by (simp only: uint_val_inject) (induction a b rule: list_induct2, simp_all)

lemma bu_is_zero_val: "bu_is_zero a \<longleftrightarrow> uint_val a = 0"
  by (induction a) (auto simp: unat_eq_0)

section \<open>Bits and shifts\<close>

lemma bit_uint_val: "t < 32 \<Longrightarrow> bit (uint_val a) (32 * j + t) \<longleftrightarrow> j < length a \<and> bit (a ! j) t"
proof (induction a arbitrary: j)
  case (Cons x xs)
  have x: "unat x < 2 ^ 32" by (rule unat_u32_less)
  have m: "take_bit 32 (uint_val (x # xs)) = unat x" "drop_bit 32 (uint_val (x # xs)) = uint_val xs"
    using x by (simp_all add: take_bit_eq_mod drop_bit_eq_div)
  show ?case
  proof (cases j)
    case 0
    have "bit (uint_val (x # xs)) t = bit (take_bit 32 (uint_val (x # xs))) t" using Cons.prems by (simp add: bit_take_bit_iff)
    then show ?thesis unfolding m using 0 by (simp add: bit_unsigned_iff)
  next
    case (Suc i)
    have "bit (uint_val (x # xs)) (32 * j + t) = bit (drop_bit 32 (uint_val (x # xs))) (32 * i + t)"
      by (simp add: Suc bit_drop_bit_eq add.assoc)
    then show ?thesis unfolding m using Cons Suc by simp
  qed
qed simp

lemma uint_val_bitI:
  assumes "\<And>j t. j < length a \<Longrightarrow> t < 32 \<Longrightarrow> bit (a ! j) t \<longleftrightarrow> bit x (32 * j + t)" "x < 2 ^ (32 * length a)"
  shows "uint_val a = x"
proof (rule bit_eqI)
  fix n :: nat
  have n: "n = 32 * (n div 32) + n mod 32" "n mod 32 < 32" by simp_all
  show "bit (uint_val a) n \<longleftrightarrow> bit x n"
  proof (cases "n div 32 < length a")
    case True
    then show ?thesis using bit_uint_val [of "n mod 32" a "n div 32"] assms(1) [of "n div 32" "n mod 32"] n by simp
  next
    case False
    have "\<not> bit x n"
    proof
      assume "bit x n"
      have "bit (take_bit (32 * length a) x) n" using assms(2) \<open>bit x n\<close> by (simp add: take_bit_nat_eq_self)
      then have "n < 32 * length a" by (simp add: bit_take_bit_iff)
      then show False using False by (simp add: div_less_iff_less_mult mult.commute)
    qed
    then show ?thesis using False bit_uint_val [of "n mod 32" a "n div 32"] n by simp
  qed
qed

text \<open>The effect of the loops of the shift operators on each word.\<close>

lemma shl_fold:
  assumes s: "s < 32" and m: "m \<le> length a"
  shows "length (fold (shl_step a k s) [0..<m] (replicate (length a) 0)) = length a \<and>
    (\<forall>j < length a. fold (shl_step a k s) [0..<m] (replicate (length a) 0) ! j =
      (if k \<le> j \<and> j - k < m then push_bit s (a ! (j - k)) else 0) OR
      (if s \<noteq> 0 \<and> k + 1 \<le> j \<and> j - k - 1 < m then drop_bit (32 - s) (a ! (j - k - 1)) else 0))"
  using m
proof (induction m)
  case (Suc m)
  define r where "r = fold (shl_step a k s) [0..<m] (replicate (length a) 0)"
  from Suc have l: "length r = length a" and r: "\<forall>j < length a. r ! j =
      (if k \<le> j \<and> j - k < m then push_bit s (a ! (j - k)) else 0) OR
      (if s \<noteq> 0 \<and> k + 1 \<le> j \<and> j - k - 1 < m then drop_bit (32 - s) (a ! (j - k - 1)) else 0)"
    by (simp_all add: r_def)
  have step: "fold (shl_step a k s) [0..<Suc m] (replicate (length a) 0) = shl_step a k s m r"
    by (simp add: r_def)
  have "shl_step a k s m r ! j =
      (if k \<le> j \<and> j - k < Suc m then push_bit s (a ! (j - k)) else 0) OR
      (if s \<noteq> 0 \<and> k + 1 \<le> j \<and> j - k - 1 < Suc m then drop_bit (32 - s) (a ! (j - k - 1)) else 0)"
    if j: "j < length a" for j
  proof -
    consider "j = m + k" | "j = m + k + 1" | "j \<noteq> m + k" "j \<noteq> m + k + 1" by blast
    then show ?thesis
    proof cases
      case 1
      then show ?thesis using j r l by (cases "s = 0") (simp_all add: shl_step_def Let_def nth_list_update or.commute)
    next
      case 2
      then show ?thesis using j r l by (cases "s = 0") (simp_all add: shl_step_def Let_def nth_list_update)
    next
      case 3
      then have "shl_step a k s m r ! j = r ! j" by (auto simp: shl_step_def Let_def)
      moreover have "(k \<le> j \<and> j - k < Suc m) = (k \<le> j \<and> j - k < m)"
        "(k + 1 \<le> j \<and> j - k - 1 < Suc m) = (k + 1 \<le> j \<and> j - k - 1 < m)" using 3 by auto
      ultimately show ?thesis using r j by simp
    qed
  qed
  then show ?case unfolding step using l by (simp add: shl_step_def Let_def)
qed simp

lemma bu_shl_val: "uint_val (bu_shl a n) = (uint_val a * 2 ^ n) mod 2 ^ (32 * length a)"
proof -
  define k where "k = n div 32"
  define s where "s = n mod 32"
  have s: "s < 32" and n: "n = 32 * k + s" by (simp_all add: s_def k_def)
  note f = shl_fold [OF s order_refl, of a k]
  have b: "bu_shl a n = fold (shl_step a k s) [0..<length a] (replicate (length a) 0)"
    by (simp add: bu_shl_def k_def s_def Let_def)
  have l: "length (bu_shl a n) = length a" using f by (simp add: b)
  have "uint_val (bu_shl a n) = take_bit (32 * length a) (push_bit n (uint_val a))"
  proof (rule uint_val_bitI)
    fix j t :: nat assume "j < length (bu_shl a n)" and t: "t < 32"
    then have j: "j < length a" by (simp add: l)
    have "32 * j + t < 32 * length a" using j t by linarith
    have w: "bit (bu_shl a n ! j) t \<longleftrightarrow> (k \<le> j \<and> s \<le> t \<and> bit (a ! (j - k)) (t - s)) \<or>
        (t < s \<and> k + 1 \<le> j \<and> bit (a ! (j - k - 1)) (t + 32 - s))"
    proof -
      have d: "bit (drop_bit (32 - s) (y :: u32)) t \<longleftrightarrow> t < s \<and> bit y (t + 32 - s)" for y
        using s t bit_imp_le_length [of y "t + 32 - s"] by (auto simp: bit_drop_bit_eq add.commute)
      have p: "bit (push_bit s (y :: u32)) t \<longleftrightarrow> s \<le> t \<and> bit y (t - s)" for y
        using t by (auto simp: bit_push_bit_iff)
      show ?thesis using f j by (auto simp: b bit_or_iff d p)
    qed
    have v: "bit (take_bit (32 * length a) (push_bit n (uint_val a))) (32 * j + t) \<longleftrightarrow>
        n \<le> 32 * j + t \<and> bit (uint_val a) (32 * j + t - n)"
      using \<open>32 * j + t < 32 * length a\<close> by (simp add: bit_take_bit_iff bit_push_bit_iff)
    show "bit (bu_shl a n ! j) t = bit (take_bit (32 * length a) (push_bit n (uint_val a))) (32 * j + t)"
    proof (cases "s \<le> t")
      case True
      have "n \<le> 32 * j + t \<longleftrightarrow> k \<le> j" using True t unfolding n by linarith
      moreover have "k \<le> j \<Longrightarrow> 32 * j + t - n = 32 * (j - k) + (t - s)" using True unfolding n by (simp add: diff_mult_distrib2)
      ultimately show ?thesis
        unfolding w v using True t j bit_uint_val [of "t - s" a "j - k"] by auto
    next
      case False
      have "n \<le> 32 * j + t \<longleftrightarrow> k + 1 \<le> j" using False s unfolding n by linarith
      moreover have "k + 1 \<le> j \<Longrightarrow> 32 * j + t - n = 32 * (j - k - 1) + (t + 32 - s)"
        using False s unfolding n by (simp add: diff_mult_distrib2)
      ultimately show ?thesis
        unfolding w v using False s j bit_uint_val [of "t + 32 - s" a "j - k - 1"] by auto
    qed
  qed (simp add: l take_bit_nat_less_exp)
  then show ?thesis by (simp add: take_bit_eq_mod push_bit_eq_mult)
qed

lemma shr_fold:
  assumes s: "s < 32" and m: "m \<le> length a"
  shows "length (fold (shr_step a k s) [0..<m] (replicate (length a) 0)) = length a \<and>
    (\<forall>j < length a. fold (shr_step a k s) [0..<m] (replicate (length a) 0) ! j =
      (if j + k < m then drop_bit s (a ! (j + k)) else 0) OR
      (if s \<noteq> 0 \<and> j + k + 1 < m then push_bit (32 - s) (a ! (j + k + 1)) else 0))"
  using m
proof (induction m)
  case (Suc m)
  define r where "r = fold (shr_step a k s) [0..<m] (replicate (length a) 0)"
  from Suc have l: "length r = length a" and r: "\<forall>j < length a. r ! j =
      (if j + k < m then drop_bit s (a ! (j + k)) else 0) OR
      (if s \<noteq> 0 \<and> j + k + 1 < m then push_bit (32 - s) (a ! (j + k + 1)) else 0)"
    by (simp_all add: r_def)
  have step: "fold (shr_step a k s) [0..<Suc m] (replicate (length a) 0) = shr_step a k s m r"
    by (simp add: r_def)
  have "shr_step a k s m r ! j =
      (if j + k < Suc m then drop_bit s (a ! (j + k)) else 0) OR
      (if s \<noteq> 0 \<and> j + k + 1 < Suc m then push_bit (32 - s) (a ! (j + k + 1)) else 0)"
    if j: "j < length a" for j
  proof -
    consider "m = j + k" | "m = j + k + 1" | "m \<noteq> j + k" "m \<noteq> j + k + 1" by blast
    then show ?thesis
    proof cases
      case 1
      then show ?thesis using j r l by (cases j) (simp_all add: shr_step_def Let_def nth_list_update)
    next
      case 2
      then show ?thesis using j r l by (cases "s = 0") (simp_all add: shr_step_def Let_def nth_list_update)
    next
      case 3
      then have "shr_step a k s m r ! j = r ! j" by (auto simp: shr_step_def Let_def)
      moreover have "(j + k < Suc m) = (j + k < m)" "(j + k + 1 < Suc m) = (j + k + 1 < m)" using 3 by auto
      ultimately show ?thesis using r j by simp
    qed
  qed
  then show ?case unfolding step using l by (simp add: shr_step_def Let_def)
qed simp

lemma bu_shr_val: "uint_val (bu_shr a n) = uint_val a div 2 ^ n"
proof -
  define k where "k = n div 32"
  define s where "s = n mod 32"
  have s: "s < 32" and n: "n = 32 * k + s" by (simp_all add: s_def k_def)
  note f = shr_fold [OF s order_refl, of a k]
  have b: "bu_shr a n = fold (shr_step a k s) [0..<length a] (replicate (length a) 0)"
    by (simp add: bu_shr_def k_def s_def Let_def)
  have l: "length (bu_shr a n) = length a" using f by (simp add: b)
  have "uint_val (bu_shr a n) = drop_bit n (uint_val a)"
  proof (rule uint_val_bitI)
    fix j t :: nat assume "j < length (bu_shr a n)" and t: "t < 32"
    then have j: "j < length a" by (simp add: l)
    have w: "bit (bu_shr a n ! j) t \<longleftrightarrow> (j + k < length a \<and> t + s < 32 \<and> bit (a ! (j + k)) (t + s)) \<or>
        (32 \<le> t + s \<and> j + k + 1 < length a \<and> bit (a ! (j + k + 1)) (t + s - 32))"
    proof -
      have d: "bit (drop_bit s (y :: u32)) t \<longleftrightarrow> t + s < 32 \<and> bit y (t + s)" for y
        using bit_imp_le_length [of y "t + s"] by (auto simp: bit_drop_bit_eq add.commute)
      have p: "s \<noteq> 0 \<Longrightarrow> bit (push_bit (32 - s) (y :: u32)) t \<longleftrightarrow> 32 \<le> t + s \<and> bit y (t + s - 32)" for y
        using t s by (auto simp: bit_push_bit_iff add.commute)
      show ?thesis using f j t by (cases "s = 0") (auto simp: b bit_or_iff d p)
    qed
    have v: "bit (drop_bit n (uint_val a)) (32 * j + t) \<longleftrightarrow> bit (uint_val a) (n + (32 * j + t))"
      by (simp add: bit_drop_bit_eq)
    show "bit (bu_shr a n ! j) t = bit (drop_bit n (uint_val a)) (32 * j + t)"
    proof (cases "t + s < 32")
      case True
      have e: "n + (32 * j + t) = 32 * (j + k) + (t + s)" unfolding n by simp
      show ?thesis unfolding w v e using True bit_uint_val [of "t + s" a "j + k"] by auto
    next
      case False
      then have e: "n + (32 * j + t) = 32 * (j + k + 1) + (t + s - 32)" unfolding n by simp
      have "t + s - 32 < 32" using t s by linarith
      then show ?thesis unfolding w v e using False bit_uint_val [of "t + s - 32" a "j + k + 1"] by auto
    qed
  next
    have "drop_bit n (uint_val a) \<le> uint_val a" by (simp add: drop_bit_eq_div)
    then show "drop_bit n (uint_val a) < 2 ^ (32 * length (bu_shr a n))"
      using uint_val_less [of a] l by simp
  qed
  then show ?thesis by (simp add: drop_bit_eq_div)
qed

section \<open>Bytes and hexadecimal strings\<close>

lemma length_native_store32: "length (native_store32 w) = 4"
  by (simp add: native_store_eq)

lemma bu_of_bytes_bytes: "bu_of_bytes (bu_bytes pn) = pn"
proof (induction pn)
  case (Cons p ps)
  have "chunks 4 (native_store32 p @ bu_bytes ps) = native_store32 p # chunks 4 (bu_bytes ps)"
    by (rule chunks_Cons) (simp_all add: length_native_store32)
  with Cons show ?case
    by (simp add: bu_of_bytes_def bu_bytes_def native_load32_eq native_store_eq sph_dec32le_enc32le)
qed (simp add: bu_of_bytes_def bu_bytes_def chunks_short)

lemma length_bu_bytes [simp]: "length (bu_bytes pn) = 4 * length pn"
  by (induction pn) (simp_all add: bu_bytes_def length_native_store32)

lemma bu_bytes_of_bytes: "length bs = 4 * n \<Longrightarrow> bu_bytes (bu_of_bytes bs) = bs"
proof (induction n arbitrary: bs)
  case (Suc n)
  then have "chunks 4 bs = take 4 bs # chunks 4 (drop 4 bs)" by (simp add: chunks.simps [of 4 bs])
  moreover have "bu_bytes (bu_of_bytes (drop 4 bs)) = drop 4 bs" using Suc by simp
  ultimately show ?case using Suc.prems
    by (simp add: bu_of_bytes_def bu_bytes_def native_load32_eq native_store_eq sph_enc32le_dec32le)
qed (simp add: bu_of_bytes_def bu_bytes_def chunks_short)

lemma hex_digits:
  "n < 16 \<Longrightarrow> phexdigit (hex_digit n) = of_nat n \<and> (phexdigit (hex_digit n) \<noteq> 0 \<or> hex_digit n = CHR ''0'') \<and>
     \<not> c_isspace (hex_digit n) \<and> hex_digit n \<noteq> CHR ''x'' \<and> hex_digit n \<noteq> CHR ''X''"
proof -
  have "\<forall>n \<in> set [0..<16]. phexdigit (hex_digit n) = of_nat n \<and> (phexdigit (hex_digit n) \<noteq> 0 \<or> hex_digit n = CHR ''0'') \<and>
     \<not> c_isspace (hex_digit n) \<and> hex_digit n \<noteq> CHR ''x'' \<and> hex_digit n \<noteq> CHR ''X''"
    by (simp add: upt_16 hex_digit_def phexdigit_def phexdigit_table_def c_isspace_def of_char_def Let_def del: set_upt)
  then show "n < 16 \<Longrightarrow> ?thesis" by simp
qed

lemma unat_byte_less: "unat (b :: byte) < 256"
  using unsigned_less [of b] by simp

lemma byte_nibbles: "unat (b :: byte) div 16 < 16" "unat b mod 16 < 16"
  using unat_byte_less [of b] by simp_all

lemma phexdigit_byte: "phexdigit (hex_digit (unat b mod 16)) OR push_bit 4 (phexdigit (hex_digit (unat b div 16))) = (b :: byte)"
proof -
  have "unat b mod 2 ^ 4 = unat (take_bit 4 b)" by (simp add: take_bit_eq_mod unat_mod)
  moreover have "unat b div 2 ^ 4 = unat (drop_bit 4 b)" by (simp only: unat_drop_bit_eq) (simp add: drop_bit_eq_div)
  ultimately have m: "unat b mod 16 = unat (take_bit 4 b)" "unat b div 16 = unat (drop_bit 4 b)" by simp_all
  have "phexdigit (hex_digit (unat b mod 16)) OR push_bit 4 (phexdigit (hex_digit (unat b div 16))) =
      of_nat (unat b mod 16) OR push_bit 4 (of_nat (unat b div 16))"
    using hex_digits [OF byte_nibbles(1) [of b]] hex_digits [OF byte_nibbles(2) [of b]] by simp
  also have "\<dots> = take_bit 4 b OR push_bit 4 (drop_bit 4 b)" unfolding m by simp
  also have "\<dots> = b"
  proof (rule bit_word_eqI)
    fix n
    show "bit (take_bit 4 b OR push_bit 4 (drop_bit 4 b)) n = bit b n" if "n < LENGTH(8)"
      using that by (cases "n < 4") (auto simp: bit_simps)
  qed
  finally show ?thesis .
qed

lemma hex_to_bytes_rev: "hex_to_bytes (rev (concat (map byte_hex (rev bs)))) = bs"
  by (induction bs) (simp_all add: byte_hex_def phexdigit_byte)

lemma GetHex_chars:
  assumes "c \<in> set (GetHex a)"
  shows "(phexdigit c \<noteq> 0 \<or> c = CHR ''0'') \<and> \<not> c_isspace c \<and> c \<noteq> CHR ''x'' \<and> c \<noteq> CHR ''X''"
proof -
  from assms obtain b :: byte where "c = hex_digit (unat b div 16) \<or> c = hex_digit (unat b mod 16)"
    by (auto simp: GetHex_def byte_hex_def)
  then obtain n where "n < 16" "c = hex_digit n" using byte_nibbles [of b] by blast
  then show ?thesis using hex_digits [of n] by simp
qed

lemma SetHex_prefix:
  assumes "list_all c_isspace ws" and "p = [] \<or> p = ''0x'' \<or> p = ''0X''"
  shows "SetHex (length a) (ws @ p @ GetHex a) = a"
proof -
  note c = GetHex_chars [of _ a]
  have z: "\<not> c_isspace CHR ''0''" by (simp add: c_isspace_def of_char_def)
  have 1: "dropWhile c_isspace (ws @ p @ GetHex a) = p @ GetHex a"
  proof -
    have "dropWhile c_isspace (p @ GetHex a) = p @ GetHex a"
    proof (cases "p = []")
      case True
      then show ?thesis using c by (cases "GetHex a") auto
    next
      case False
      then show ?thesis using assms(2) z by auto
    qed
    then show ?thesis using assms(1) by (simp add: dropWhile_append2 list_all_iff)
  qed
  have 2: "skip_0x (p @ GetHex a) = GetHex a"
  proof (cases "p = []")
    case True
    then show ?thesis using c by (auto simp: skip_0x_def split: list.split)
  next
    case False
    then show ?thesis using assms(2) by (auto simp: skip_0x_def)
  qed
  have 3: "takeWhile (\<lambda>c. phexdigit c \<noteq> 0 \<or> c = CHR ''0'') (GetHex a) = GetHex a"
    using c by (simp add: takeWhile_eq_all_conv)
  have 4: "hex_to_bytes (rev (GetHex a)) = bu_bytes a"
    unfolding GetHex_def by (rule hex_to_bytes_rev)
  show ?thesis
    by (simp only: SetHex_def Let_def 1 2 3 4) (simp add: bu_of_bytes_bytes)
qed

lemma SetHex_GetHex: "SetHex (length a) (GetHex a) = a"
  using SetHex_prefix [of "[]" "[]" a] by simp

lemma trim256_take: "length pn = WIDTH512 \<Longrightarrow> trim256 pn = take WIDTH256 pn"
proof -
  assume pn: "length pn = WIDTH512"
  have "fold (\<lambda>i ret. ret[i := pn ! i]) [0..<m] z = take m pn @ drop m z" if "m \<le> length z" "m \<le> length pn" for m z
    using that
  proof (induction m)
    case (Suc m)
    then show ?case by (simp add: list_update_append take_Suc_conv_app_nth) (simp add: Cons_nth_drop_Suc [symmetric])
  qed simp
  from this [of WIDTH256 "bu_zero WIDTH256"] pn show ?thesis
    by (simp add: trim256_def bu_zero_def WIDTH256_def WIDTH512_def)
qed

lemma bu_bytes_take: "bu_bytes (take n pn) = take (4 * n) (bu_bytes pn)"
proof (induction pn arbitrary: n)
  case (Cons p ps)
  then show ?case
    by (cases n) (simp_all add: bu_bytes_def length_native_store32)
qed (simp add: bu_bytes_def)

section \<open>Further facts of the operators\<close>

lemma int_mod_sub:
  fixes x y m :: nat
  assumes "y \<le> m"
  shows "int ((x + (m - y)) mod m) = (int x - int y) mod int m"
proof -
  have "int ((x + (m - y)) mod m) = (int x - int y + int m) mod int m"
    using assms by (simp add: zmod_int of_nat_diff algebra_simps)
  then show ?thesis by simp
qed

lemma bu_sub_int:
  assumes "length a = length b"
  shows "int (uint_val (bu_sub a b)) = (int (uint_val a) - int (uint_val b)) mod 2 ^ (32 * length a)"
  using int_mod_sub [of "uint_val b" "2 ^ (32 * length a)" "uint_val a"] uint_val_less [of b] assms
  by (simp add: bu_sub_val)

lemma bu_neg_int: "int (uint_val (bu_neg a)) = (- int (uint_val a)) mod 2 ^ (32 * length a)"
  using int_mod_sub [of "uint_val a" "2 ^ (32 * length a)" 0] uint_val_less [of a] by (simp add: bu_neg_val)

lemma bu_dec_int:
  assumes "a \<noteq> []"
  shows "int (uint_val (bu_dec a)) = (int (uint_val a) - 1) mod 2 ^ (32 * length a)"
  using int_mod_sub [of 1 "2 ^ (32 * length a)" "uint_val a"] by (simp add: bu_dec_val [OF assms])

lemma bu_eq64_val:
  assumes "2 \<le> length a"
  shows "bu_eq64 a b \<longleftrightarrow> uint_val a = unat b"
proof -
  obtain x y zs where a: "a = x # y # zs" using assms by (cases a; cases "tl a") auto
  have "(\<forall>i \<in> set [2..<length a]. a ! i = 0) \<longleftrightarrow> zs = replicate (length zs) 0"
  proof
    assume z: "\<forall>i \<in> set [2..<length a]. a ! i = 0"
    show "zs = replicate (length zs) 0"
    proof (rule nth_equalityI)
      fix i assume "i < length zs"
      then have "i + 2 \<in> set [2..<length a]" by (simp add: a del: upt_Suc)
      then have "a ! (i + 2) = 0" using z by blast
      then show "zs ! i = replicate (length zs) 0 ! i" using \<open>i < length zs\<close> by (simp add: a)
    qed simp
  next
    assume z: "zs = replicate (length zs) 0"
    show "\<forall>i \<in> set [2..<length a]. a ! i = 0"
    proof
      fix i assume i: "i \<in> set [2..<length a]"
      then have "2 \<le> i" "i - 2 < length zs" by (auto simp: a)
      then obtain j where j: "i = Suc (Suc j)" "j < length zs"
        using le_Suc_ex [of 2 i] by auto
      then have "zs ! j = 0" by (subst z) simp
      then show "a ! i = 0" by (simp add: a j)
    qed
  qed
  then have "bu_eq64 a b \<longleftrightarrow> a = bu_set64 (length a) b"
    by (auto simp: bu_eq64_def bu_set64_def a)
  also have "\<dots> \<longleftrightarrow> uint_val a = uint_val (bu_set64 (length a) b)"
    by (rule uint_val_inject [symmetric]) (use assms in \<open>simp add: bu_set64_def\<close>)
  finally show ?thesis using assms by (simp add: uint_val_set64)
qed

lemma length_GetHex: "length (GetHex a) = 8 * length a"
proof -
  have "length (concat (map byte_hex bs)) = 2 * length bs" for bs
    by (induction bs) (simp_all add: byte_hex_def)
  then show ?thesis by (simp add: GetHex_def)
qed

lemma length_bu_shifts [simp]: "length (bu_shl a n) = length a" "length (bu_shr a n) = length a"
proof -
  have "length (fold (shl_step a k s) xs pn) = length pn" "length (fold (shr_step a k s) xs pn) = length pn" for k s xs pn
    by (induction xs arbitrary: pn) (simp_all add: shl_step_def shr_step_def Let_def)
  then show "length (bu_shl a n) = length a" "length (bu_shr a n) = length a"
    by (simp_all add: bu_shl_def bu_shr_def Let_def)
qed

lemma bit_sign_byte: "bit (0x80 :: byte) i \<longleftrightarrow> i = 7"
proof -
  have "(0x80 :: byte) = push_bit 7 1" by simp
  then show ?thesis by (simp only: bit_push_bit_iff bit_1_iff) auto
qed

end
