(* ===== verification/Tribus.thy ===== *)
theory Tribus
  imports Keccak_Reps Jh_Hash Echo_Hash Uint256
begin

text \<open>
  The proof-of-work hash of \<open>src/src/hashblock.h\<close>: \<open>Tribus\<close> runs JH-512, Keccak-512 and
  ECHO-512 one after the other, each on the 64 bytes of the digest before, and returns the lower
  half of the last digest. The three context objects and the arrays that the close functions
  declare are not initialised by the C++ code; they are the record \<open>tribus_locals\<close>, and the
  result is shown not to depend on them.
\<close>

record ('jw, 'jn, 'kw, 'ew) tribus_locals =
  ctx_jh :: "('jw, 'jn) sph_jh_context"
  ctx_keccak :: "'kw sph_keccak_context"
  ctx_echo :: "'ew sph_echo_context"
  tmp_jh :: "byte list"
  tmp_keccak :: "byte list"
  tmp_echo :: "byte list"

definition Tribus ::
  "('a::len word, 'n) jh_ops \<Rightarrow> (nat \<Rightarrow> 'a word list) \<Rightarrow> 'k lane_ops \<Rightarrow> 'e::len word echo_ops
     \<Rightarrow> ('a word, 'n, 'k, 'e word) tribus_locals \<Rightarrow> byte list \<Rightarrow> base_uint option"
where
  "Tribus jops iv kops eops L data =
     do {
       let hash = replicate 17 (bu_zero WIDTH512);
       cj \<leftarrow> sph_jh512 jops (sph_jh512_init jops iv (ctx_jh L)) data;
       (d, cj) \<leftarrow> sph_jh512_close jops iv (tmp_jh L) cj;
       let hash = hash[0 := bu_of_bytes d];
       ck \<leftarrow> sph_keccak512 kops (sph_keccak512_init kops (ctx_keccak L)) (take 64 (bu_bytes (hash ! 0)));
       (d, ck) \<leftarrow> sph_keccak512_close kops (tmp_keccak L) ck;
       let hash = hash[1 := bu_of_bytes d];
       ce \<leftarrow> sph_echo512 eops (sph_echo512_init eops (ctx_echo L)) (take 64 (bu_bytes (hash ! 1)));
       (d, ce) \<leftarrow> sph_echo512_close eops (tmp_echo L) ce;
       let hash = hash[2 := bu_of_bytes d];
       Some (trim256 (hash ! 2))
     }"

text \<open>The arrays of a call have the sizes the code declares.\<close>

definition locals_wf :: "('jw, 'jn, 'kw, 'ew) tribus_locals \<Rightarrow> bool" where
  "locals_wf L \<longleftrightarrow> length (jh_buf (ctx_jh L)) = 64 \<and> length (kc_buf (ctx_keccak L)) = 144 \<and>
     length (ec_buf (ctx_echo L)) = 128 \<and> length (tmp_jh L) = 128 \<and> length (tmp_keccak L) = 73 \<and>
     length (tmp_echo L) = 64"

text \<open>The composition of the three specifications.\<close>

definition tribus_spec :: "byte list \<Rightarrow> byte list" where
  "tribus_spec data =
     (let j = msb_bytes (jh_spec 512 (msb_bits data));
          k = keccak_spec 72 64 (bits_of_bytes j)
      in take 32 (echo_spec 512 (msb_bits k)))"

section \<open>One piece of input\<close>

lemma run_hash_single:
  assumes "run_hash init upd close cc [d] = Some h"
  shows "\<exists>c. upd (init cc) d = Some c \<and> (\<exists>c'. close c = Some (h, c'))"
  using assms by (auto simp: run_hash_def split: Option.bind_splits)

lemma tail_bits_0 [simp]: "tail_bits ub 0 = []"
  by (simp add: tail_bits_def)

lemma last_bits_0 [simp]: "last_bits ub 0 = []"
  by (simp add: last_bits_def)

section \<open>The lengths of the digests\<close>

lemma mem_read_length: "mem_read b off n = Some d \<Longrightarrow> length d = n"
  by (auto simp: mem_read_def split: if_splits)

lemma jh_close_length: "jh_close ops w32 iv tmp c ub n = Some (d, c') \<Longrightarrow> length d = 4 * w32"
  by (auto simp: jh_close_def Let_def mem_read_length split: Option.bind_splits)

lemma echo_close_length: "echo_close sz ops w32 tmp c ub n = Some (d, c') \<Longrightarrow> length d = 4 * w32"
  by (auto simp: echo_close_def Let_def mem_read_length split: Option.bind_splits)

lemma keccak_close_length: "keccak_close ops d lim tmp c ub n = Some (h, c') \<Longrightarrow> length h = d"
  by (auto simp: keccak_close_def Let_def mem_read_length split: Option.bind_splits)

section \<open>The composition\<close>

lemma Tribus_refines:
  assumes J: "jh_variant jops iv" and K: "lane_rep kops rep" and E: "echo_words eops"
    and L: "locals_wf L" and data: "length data < 2 ^ 70"
  shows "Tribus jops iv kops eops L data = Some (bu_of_bytes (tribus_spec data)) \<and> length (tribus_spec data) = 32"
proof -
  note wf = L [unfolded locals_wf_def]
  define j where "j = msb_bytes (jh_spec 512 (msb_bits data))"
  define k where "k = keccak_spec 72 64 (bits_of_bytes j)"
  define e where "e = echo_spec 512 (msb_bits k)"
  have "run_hash (jh_init jops (iv 512)) (jh_core jops) (\<lambda>c. jh_close jops (512 div 32) (iv 512) (tmp_jh L) c 0 0)
      (ctx_jh L) [data] = Some (msb_bytes (jh_spec 512 (msb_bits (concat [data]) @ tail_bits 0 0)))"
    by (rule jh_variant.jh_run_hash [OF J]) (use wf data in \<open>simp_all add: jh_sizes_def\<close>)
  then have "run_hash (jh_init jops (iv 512)) (jh_core jops) (\<lambda>c. jh_close jops (512 div 32) (iv 512) (tmp_jh L) c 0 0)
      (ctx_jh L) [data] = Some j" by (simp add: j_def)
  then obtain cj cj' where j: "jh_core jops (jh_init jops (iv 512) (ctx_jh L)) data = Some cj"
    "jh_close jops 16 (iv 512) (tmp_jh L) cj 0 0 = Some (j, cj')"
    using run_hash_single by fastforce
  have lj: "length j = 64" using jh_close_length [OF j(2)] by simp
  have "run_hash (keccak_init kops 512) (keccak_core kops 72) (\<lambda>c. keccak_close kops 64 72 (tmp_keccak L) c 0 0)
      (ctx_keccak L) [j] = Some (keccak_spec 72 64 (bits_of_bytes (concat [j]) @ last_bits 0 0))"
    by (rule keccak_run_hash [OF K]) (use wf in \<open>simp_all add: keccak_rates_def\<close>)
  then have "run_hash (keccak_init kops 512) (keccak_core kops 72) (\<lambda>c. keccak_close kops 64 72 (tmp_keccak L) c 0 0)
      (ctx_keccak L) [j] = Some k" by (simp add: k_def)
  then obtain ck ck' where k: "keccak_core kops 72 (keccak_init kops 512 (ctx_keccak L)) j = Some ck"
    "keccak_close kops 64 72 (tmp_keccak L) ck 0 0 = Some (k, ck')"
    using run_hash_single by fastforce
  have lk: "length k = 64" using keccak_close_length [OF k(2)] by simp
  note big = echo_big_sized [OF E]
  have "run_hash (echo_init echo_big eops 512) (echo_core echo_big eops)
      (\<lambda>c. echo_close echo_big eops (512 div 32) (tmp_echo L) c 0 0) (ctx_echo L) [k] =
      Some (echo_spec 512 (msb_bits (concat [k]) @ tail_bits 0 0))"
    by (rule echo_sized.echo_run_hash [OF big])
      (use wf in \<open>simp_all add: echo_rows_def echo_num_rounds_def echo_big_def\<close>)
  then have "run_hash (echo_init echo_big eops 512) (echo_core echo_big eops)
      (\<lambda>c. echo_close echo_big eops (512 div 32) (tmp_echo L) c 0 0) (ctx_echo L) [k] = Some e" by (simp add: e_def)
  then obtain ce ce' where e: "echo_core echo_big eops (echo_init echo_big eops 512 (ctx_echo L)) k = Some ce"
    "echo_close echo_big eops 16 (tmp_echo L) ce 0 0 = Some (e, ce')"
    using run_hash_single by fastforce
  have le: "length e = 64" using echo_close_length [OF e(2)] by simp
  have mem: "take 64 (bu_bytes (bu_of_bytes h)) = h" if "length h = 64" for h
    using bu_bytes_of_bytes [of h 16] that by simp
  have "Tribus jops iv kops eops L data = Some (trim256 (bu_of_bytes e))"
    using j k e mem [OF lj] mem [OF lk]
    by (simp add: Tribus_def sph_jh512_def sph_jh512_init_def sph_jh512_close_def sph_keccak512_def
        sph_keccak512_init_def sph_keccak512_close_def sph_keccak512_addbits_and_close_def sph_echo512_def
        sph_echo512_init_def sph_echo512_close_def echo_big_init_def echo_big_core_def echo_big_close_def Let_def)
  moreover have "trim256 (bu_of_bytes e) = bu_of_bytes (take 32 e)"
  proof -
    have l: "length (bu_of_bytes e) = WIDTH512"
      using le by (simp add: bu_of_bytes_def length_chunks WIDTH512_def)
    have "bu_bytes (take 8 (bu_of_bytes e)) = take 32 e"
      using bu_bytes_take [of 8 "bu_of_bytes e"] bu_bytes_of_bytes [of e 16] le by simp
    then show ?thesis using trim256_take [OF l] bu_of_bytes_bytes [of "take 8 (bu_of_bytes e)"] by (simp add: WIDTH256_def)
  qed
  moreover have "tribus_spec data = take 32 e"
    by (simp add: tribus_spec_def Let_def e_def k_def j_def)
  ultimately show ?thesis using le by simp
qed

section \<open>The builds\<close>

text \<open>A result that does not depend on what the contexts and arrays of a call hold.\<close>

definition for_all_locals :: "(('jw, 'jn, 'kw, 'ew) tribus_locals \<Rightarrow> base_uint option) \<Rightarrow> base_uint option \<Rightarrow> bool" where
  "for_all_locals f h \<longleftrightarrow> (\<forall>L. locals_wf L \<longrightarrow> f L = h)"

lemma Tribus_for_all_locals:
  assumes "jh_variant jops iv" and "lane_rep kops rep" and "echo_words eops" and "length data < 2 ^ 70"
  shows "for_all_locals (\<lambda>L. Tribus jops iv kops eops L data) (Some (bu_of_bytes (tribus_spec data)))"
  unfolding for_all_locals_def using Tribus_refines [OF assms(1-3) _ assms(4)] by blast

lemma KECCAK_F_unroll_any:
  assumes "length a = 25"
  shows "KECCAK_F_1600_unroll n ops a = KECCAK_F_1600 ops a"
  unfolding KECCAK_F_1600_def
  by (rule gather_inj [OF perm25_P0]) (simp_all add: assms gather_KECCAK_F)

lemma aes_2rounds_all_eq: "aes_2rounds_all ops WK = BIG_SUB_WORDS ops WK"
  unfolding aes_2rounds_all_def BIG_SUB_WORDS_def by (simp only: upt_16)

section \<open>The update functions\<close>

lemma jh_update:
  assumes "length (jh_buf c) = 64" and "jh_ptr c < 64"
  shows "\<exists>c'. jh_core ops c d = Some c' \<and> length (jh_buf c') = 64 \<and> jh_ptr c' = (jh_ptr c + length d) mod 64"
proof -
  have "jh_blocks.ready c" using assms by (simp add: jh_blocks.ready_def)
  from jh_blocks.core_ptr [OF this, of ops d] show ?thesis by (auto simp: jh_blocks.ready_def)
qed

lemma keccak_update:
  assumes "lim \<in> {144, 136, 104, 72}" and "length (kc_buf c) = 144" and "kc_ptr c < lim"
  shows "\<exists>c'. keccak_core ops lim c d = Some c' \<and> length (kc_buf c') = 144 \<and> kc_ptr c' = (kc_ptr c + length d) mod lim"
  using assms kc28.core_ptr [of c ops d] kc32.core_ptr [of c ops d] kc48.core_ptr [of c ops d] kc64.core_ptr [of c ops d]
  by (auto simp: kc28.ready_def kc32.ready_def kc48.ready_def kc64.ready_def)

lemma echo_small_wide_update:
  assumes "length (ec_buf c) = 192" and "ec_ptr c < 192"
  shows "\<exists>c'. echo_small_core echo_wide_ops c d = Some c' \<and> length (ec_buf c') = 192 \<and> ec_ptr c' = (ec_ptr c + length d) mod 192"
proof -
  have r: "es_wide.stream.ready x \<longleftrightarrow> length (ec_buf x) = ES_BUF (echo_small :: u64 echo_size) \<and> ec_ptr x < ES_BUF (echo_small :: u64 echo_size)" for x :: "u64 sph_echo_context"
    by (rule es_wide.stream.ready_def)
  show ?thesis
    using assms es_wide.stream.core_ptr [of c d] unfolding echo_small_core_def r by (auto simp: es_wide.buf_size)
qed

lemma echo_small_narrow_update:
  assumes "length (ec_buf c) = 192" and "ec_ptr c < 192"
  shows "\<exists>c'. echo_small_core echo_narrow_ops c d = Some c' \<and> length (ec_buf c') = 192 \<and> ec_ptr c' = (ec_ptr c + length d) mod 192"
proof -
  have r: "es_narrow.stream.ready x \<longleftrightarrow> length (ec_buf x) = ES_BUF (echo_small :: u32 echo_size) \<and> ec_ptr x < ES_BUF (echo_small :: u32 echo_size)" for x :: "u32 sph_echo_context"
    by (rule es_narrow.stream.ready_def)
  show ?thesis
    using assms es_narrow.stream.core_ptr [of c d] unfolding echo_small_core_def r by (auto simp: es_narrow.buf_size)
qed

lemma echo_big_wide_update:
  assumes "length (ec_buf c) = 128" and "ec_ptr c < 128"
  shows "\<exists>c'. echo_big_core echo_wide_ops c d = Some c' \<and> length (ec_buf c') = 128 \<and> ec_ptr c' = (ec_ptr c + length d) mod 128"
proof -
  have r: "eb_wide.stream.ready x \<longleftrightarrow> length (ec_buf x) = ES_BUF (echo_big :: u64 echo_size) \<and> ec_ptr x < ES_BUF (echo_big :: u64 echo_size)" for x :: "u64 sph_echo_context"
    by (rule eb_wide.stream.ready_def)
  show ?thesis
    using assms eb_wide.stream.core_ptr [of c d] unfolding echo_big_core_def r by (auto simp: eb_wide.buf_size)
qed

lemma echo_big_narrow_update:
  assumes "length (ec_buf c) = 128" and "ec_ptr c < 128"
  shows "\<exists>c'. echo_big_core echo_narrow_ops c d = Some c' \<and> length (ec_buf c') = 128 \<and> ec_ptr c' = (ec_ptr c + length d) mod 128"
proof -
  have r: "eb_narrow.stream.ready x \<longleftrightarrow> length (ec_buf x) = ES_BUF (echo_big :: u32 echo_size) \<and> ec_ptr x < ES_BUF (echo_big :: u32 echo_size)" for x :: "u32 sph_echo_context"
    by (rule eb_narrow.stream.ready_def)
  show ?thesis
    using assms eb_narrow.stream.core_ptr [of c d] unfolding echo_big_core_def r by (auto simp: eb_narrow.buf_size)
qed

lemmas echo_updates = echo_small_wide_update echo_small_narrow_update echo_big_wide_update echo_big_narrow_update

end
