(* ===== verification/Bignum.thy ===== *)
theory Bignum
  imports Uint256
begin

text \<open>
  The model of \<open>src/src/bignum.h\<close>: the class \<open>CBigNum\<close>, a wrapper of the \<open>BIGNUM\<close>
  numbers of OpenSSL. OpenSSL is not part of the repository: the record \<open>bn_lib\<close> holds the
  library functions the class calls, for an arbitrary type of numbers, and every definition
  takes it as an argument. The locale \<open>openssl_bn\<close> states what the manual pages of OpenSSL
  document of them (\<open>val\<close> is the integer a number stands for), and \<open>int_bn\<close> is an
  instance on the integers. A library call that can fail returns an option; the class turns a
  failure into the exception \<open>bignum_error\<close>, the result \<open>None\<close>.
\<close>

section \<open>The library\<close>

record 'b bn_lib =
  BN_mpi2bn :: "byte list \<Rightarrow> 'b"
  BN_bn2mpi :: "'b \<Rightarrow> byte list"
  BN_set_word :: "u64 \<Rightarrow> 'b"
  BN_get_word :: "'b \<Rightarrow> u64"
  BN_add :: "'b \<Rightarrow> 'b \<Rightarrow> 'b option"
  BN_sub :: "'b \<Rightarrow> 'b \<Rightarrow> 'b option"
  BN_mul :: "'b \<Rightarrow> 'b \<Rightarrow> 'b option"
  BN_div :: "'b \<Rightarrow> 'b \<Rightarrow> ('b \<times> 'b) option"
  BN_nnmod :: "'b \<Rightarrow> 'b \<Rightarrow> 'b option"
  BN_lshift :: "'b \<Rightarrow> nat \<Rightarrow> 'b option"
  BN_rshift :: "'b \<Rightarrow> nat \<Rightarrow> 'b option"
  BN_cmp :: "'b \<Rightarrow> 'b \<Rightarrow> int"
  BN_is_negative :: "'b \<Rightarrow> bool"
  BN_set_negative :: "'b \<Rightarrow> bool \<Rightarrow> 'b"

section \<open>Numbers as bytes, most significant byte first\<close>

fun be_val :: "byte list \<Rightarrow> nat" where
  "be_val [] = 0"
| "be_val (b # bs) = unat b * 256 ^ length bs + be_val bs"

fun be_bytes :: "nat \<Rightarrow> byte list" where
  "be_bytes n = (if n = 0 then [] else be_bytes (n div 256) @ [of_nat (n mod 256)])"

declare be_bytes.simps [simp del]

lemma be_bytes_0 [simp]: "be_bytes 0 = []"
  by (simp add: be_bytes.simps)

lemma be_val_append: "be_val (xs @ ys) = be_val xs * 256 ^ length ys + be_val ys"
  by (induction xs) (simp_all add: power_add algebra_simps)

lemma be_val_zeros [simp]: "be_val (replicate k 0) = 0"
  by (induction k) simp_all

lemma be_val_less: "be_val bs < 256 ^ length bs"
proof (induction bs)
  case (Cons b bs)
  have "(unat b + 1) * 256 ^ length bs \<le> 256 * 256 ^ length bs"
    using unat_byte_less [of b] by (intro mult_le_mono1) simp
  with Cons show ?case
    unfolding be_val.simps list.size power_Suc add_mult_distrib by (simp only: mult_1 add_0_right add_Suc_right power_Suc, linarith?)
qed simp

lemma be_val_be_bytes [simp]: "be_val (be_bytes n) = n"
proof (induction n rule: be_bytes.induct)
  case (1 n)
  then show ?case by (subst be_bytes.simps) (simp add: be_val_append unat_of_nat)
qed

lemma be_bytes_snoc: "be_val bs \<noteq> 0 \<or> b \<noteq> 0 \<Longrightarrow> be_bytes (be_val (bs @ [b])) = be_bytes (be_val bs) @ [b]"
  using unat_byte_less [of b]
  by (subst be_bytes.simps) (auto simp: be_val_append unat_eq_0)

lemma be_val_eq_0: "be_val bs = 0 \<longleftrightarrow> (\<forall>b \<in> set bs. b = 0)"
  by (induction bs) (auto simp: unat_eq_0)

lemma be_bytes_be_val: "be_bytes (be_val bs) = dropWhile (\<lambda>b. b = 0) bs"
proof (induction bs rule: rev_induct)
  case Nil
  then show ?case by (simp add: be_bytes.simps)
next
  case (snoc b bs)
  show ?case
  proof (cases "be_val bs \<noteq> 0 \<or> b \<noteq> 0")
    case True
    then have "be_bytes (be_val (bs @ [b])) = dropWhile (\<lambda>b. b = 0) bs @ [b]"
      by (simp only: be_bytes_snoc snoc)
    then show ?thesis using True by (cases "be_val bs = 0") (auto simp: be_val_eq_0 dropWhile_append)
  next
    case False
    then show ?thesis by (simp add: be_val_append be_bytes.simps be_val_eq_0)
  qed
qed

lemma be_bytes_hd: "be_bytes n = d # r \<Longrightarrow> d \<noteq> 0"
proof -
  assume e: "be_bytes n = d # r"
  have "dropWhile (\<lambda>b. b = 0) (be_bytes n) = be_bytes n" using be_bytes_be_val [of "be_bytes n"] by simp
  then have "dropWhile (\<lambda>b. b = 0) (d # r) = d # r" by (simp only: e)
  then show "d \<noteq> 0" using length_dropWhile_le [of "\<lambda>b. b = 0" r] by (cases "d = 0") auto
qed

lemma length_be_bytes: "length (be_bytes n) \<le> k \<longleftrightarrow> n < 256 ^ k"
proof
  assume "length (be_bytes n) \<le> k"
  then have "(256 :: nat) ^ length (be_bytes n) \<le> 256 ^ k" by simp
  with be_val_less [of "be_bytes n"] show "n < 256 ^ k" by (simp only: be_val_be_bytes)
next
  assume n: "n < 256 ^ k"
  show "length (be_bytes n) \<le> k"
  proof (cases "be_bytes n")
    case (Cons d r)
    then have "unat d \<ge> 1" using be_bytes_hd [OF Cons] by (simp add: Suc_le_eq unat_gt_0)
    moreover have "n = unat d * 256 ^ length r + be_val r" using be_val_be_bytes [of n] Cons by simp
    ultimately have "1 * 256 ^ length r \<le> n" by (metis le_add1 mult_le_mono1 order_trans)
    then have "(256 :: nat) ^ length r < 256 ^ k" using le_less_trans [OF _ n] by (simp only: mult_1)
    then have "length r < k" by simp
    with Cons show ?thesis by simp
  qed simp
qed

text \<open>
  The MPI format of OpenSSL: a 4-byte length, then the magnitude with the sign in the top bit of
  the first byte; zero has no bytes.
\<close>

definition mpi_header :: "nat \<Rightarrow> byte list" where
  "mpi_header n = (let nSize = of_nat n :: u32 in
     [ucast (drop_bit 24 nSize AND 0xff), ucast (drop_bit 16 nSize AND 0xff),
      ucast (drop_bit 8 nSize AND 0xff), ucast (nSize AND 0xff)])"

definition mpi_val :: "byte list \<Rightarrow> int" where
  "mpi_val d = (case d of [] \<Rightarrow> 0 | b # r \<Rightarrow>
     let m = int (be_val ((b AND 0x7f) # r)) in if b AND 0x80 \<noteq> 0 then - m else m)"

definition mpi_bytes :: "int \<Rightarrow> byte list" where
  "mpi_bytes n = (case be_bytes (nat \<bar>n\<bar>) of [] \<Rightarrow> [] | b # r \<Rightarrow>
     if b AND 0x80 \<noteq> 0 then (if n < 0 then 0x80 else 0) # b # r
     else (if n < 0 then b OR 0x80 else b) # r)"

lemma byte_sign: "(b :: byte) AND 0x80 \<noteq> 0 \<longleftrightarrow> bit b 7"
  using and_exp_eq_0_iff_not_bit [of b 7] by simp

lemma byte_magnitude: "(b :: byte) AND 0x7f = take_bit 7 b"
  by (simp add: take_bit_eq_mask mask_eq_exp_minus_1)

lemma take_bit_sign:
  fixes b :: byte
  shows "take_bit 7 (b OR 0x80) = take_bit 7 b" and "\<not> bit b 7 \<Longrightarrow> take_bit 7 b = b" and "bit (b OR 0x80) 7"
proof -
  show "take_bit 7 (b OR 0x80) = take_bit 7 b"
    by (rule bit_word_eqI) (auto simp: bit_take_bit_iff bit_or_iff bit_sign_byte simp del: bit_numeral_word_iff)
  show "take_bit 7 b = b" if "\<not> bit b 7"
  proof (rule bit_word_eqI)
    fix n show "n < LENGTH(8) \<Longrightarrow> bit (take_bit 7 b) n = bit b n"
      using that by (cases "n = 7") (auto simp: bit_take_bit_iff)
  qed
  show "bit (b OR 0x80) 7" by (simp add: bit_or_iff bit_sign_byte del: bit_numeral_word_iff)
qed

lemma mpi_val_Cons: "mpi_val (b # r) = (let m = int (be_val (take_bit 7 b # r)) in if bit b 7 then - m else m)"
  by (simp only: mpi_val_def list.case byte_sign byte_magnitude)

lemma mpi_val_Nil [simp]: "mpi_val [] = 0"
  by (simp add: mpi_val_def)

lemma mpi_bytes_eq:
  "mpi_bytes n = (case be_bytes (nat \<bar>n\<bar>) of [] \<Rightarrow> [] | b # r \<Rightarrow>
     if bit b 7 then (if n < 0 then 0x80 else 0) # b # r else (if n < 0 then b OR 0x80 else b) # r)"
  by (simp only: mpi_bytes_def byte_sign)

lemma mpi_val_bytes [simp]: "mpi_val (mpi_bytes n) = n"
proof (cases "be_bytes (nat \<bar>n\<bar>)")
  case Nil
  then have "nat \<bar>n\<bar> = 0" using be_val_be_bytes [of "nat \<bar>n\<bar>"] by simp
  with Nil show ?thesis by (simp add: mpi_bytes_eq)
next
  case (Cons b r)
  then have v: "be_val (b # r) = nat \<bar>n\<bar>" using be_val_be_bytes [of "nat \<bar>n\<bar>"] by simp
  have m: "nat \<bar>n\<bar> = unat b * 256 ^ length r + be_val r" using v by simp
  show ?thesis
  proof (cases "bit b 7")
    case True
    have "mpi_val (x # b # r) = (if bit x 7 then - int (be_val (b # r)) else int (be_val (b # r)))"
      if "take_bit 7 x = 0" for x
      unfolding mpi_val_Cons Let_def be_val.simps(2) [of "take_bit 7 x"] that by simp
    moreover have "take_bit 7 (0x80 :: byte) = 0" "bit (0x80 :: byte) 7" by simp_all
    ultimately have "mpi_val (0x80 # b # r) = - int (nat \<bar>n\<bar>)" "mpi_val (0 # b # r) = int (nat \<bar>n\<bar>)"
      by (simp_all only: v) simp_all
    then show ?thesis by (simp add: mpi_bytes_eq Cons True)
  next
    case False
    have "mpi_val ((b OR 0x80) # r) = - int (nat \<bar>n\<bar>)" "mpi_val (b # r) = int (nat \<bar>n\<bar>)"
      unfolding mpi_val_Cons Let_def take_bit_sign(1) take_bit_sign(2) [OF False] v
      using take_bit_sign(3) [of b] False by simp_all
    then show ?thesis by (simp add: mpi_bytes_eq Cons False)
  qed
qed

lemma length_mpi_bytes_le: "\<bar>n\<bar> < 2 ^ (8 * k) \<Longrightarrow> length (mpi_bytes n) \<le> k + 1"
proof -
  assume "\<bar>n\<bar> < 2 ^ (8 * k)"
  then have "nat \<bar>n\<bar> < 256 ^ k" by (simp add: nat_less_iff power_mult)
  then have "length (be_bytes (nat \<bar>n\<bar>)) \<le> k" by (simp add: length_be_bytes)
  then show ?thesis by (auto simp: mpi_bytes_eq split: list.split)
qed

section \<open>The documented behaviour of the library\<close>

locale openssl_bn =
  fixes bn :: "'b bn_lib"
    and val :: "'b \<Rightarrow> int"
  assumes mpi2bn: "length d < 2 ^ 31 \<Longrightarrow> val (BN_mpi2bn bn (mpi_header (length d) @ d)) = mpi_val d"
    and bn2mpi: "length (mpi_bytes (val b)) < 2 ^ 31 \<Longrightarrow>
      BN_bn2mpi bn b = mpi_header (length (mpi_bytes (val b))) @ mpi_bytes (val b)"
    and set_word: "val (BN_set_word bn w) = uint w"
    and get_word: "uint (BN_get_word bn b) = (if \<bar>val b\<bar> < 2 ^ 64 then \<bar>val b\<bar> else 2 ^ 64 - 1)"
    and add: "map_option val (BN_add bn a b) = Some (val a + val b)"
    and sub: "map_option val (BN_sub bn a b) = Some (val a - val b)"
    and mul: "map_option val (BN_mul bn a b) = Some (val a * val b)"
    and div: "map_option (map_prod val val) (BN_div bn a b) =
      (if val b = 0 then None
       else let q = sgn (val a) * sgn (val b) * (\<bar>val a\<bar> div \<bar>val b\<bar>) in Some (q, val a - q * val b))"
    and nnmod: "map_option val (BN_nnmod bn a b) = (if val b = 0 then None else Some (val a mod \<bar>val b\<bar>))"
    and lshift: "map_option val (BN_lshift bn a n) = Some (val a * 2 ^ n)"
    and rshift: "map_option val (BN_rshift bn a n) = Some (sgn (val a) * (\<bar>val a\<bar> div 2 ^ n))"
    and cmp: "sgn (BN_cmp bn a b) = sgn (val a - val b)"
    and is_negative: "BN_is_negative bn b \<longleftrightarrow> val b < 0"
    and set_negative: "val (BN_set_negative bn b f) = (if f then - \<bar>val b\<bar> else \<bar>val b\<bar>)"

text \<open>An instance: the integers themselves.\<close>

definition int_bn :: "int bn_lib" where
  "int_bn = \<lparr>
     BN_mpi2bn = (\<lambda>s. mpi_val (drop 4 s)),
     BN_bn2mpi = (\<lambda>b. mpi_header (length (mpi_bytes b)) @ mpi_bytes b),
     BN_set_word = uint,
     BN_get_word = (\<lambda>b. if \<bar>b\<bar> < 2 ^ 64 then word_of_int \<bar>b\<bar> else - 1),
     BN_add = (\<lambda>a b. Some (a + b)), BN_sub = (\<lambda>a b. Some (a - b)), BN_mul = (\<lambda>a b. Some (a * b)),
     BN_div = (\<lambda>a b. if b = 0 then None
       else let q = sgn a * sgn b * (\<bar>a\<bar> div \<bar>b\<bar>) in Some (q, a - q * b)),
     BN_nnmod = (\<lambda>a b. if b = 0 then None else Some (a mod \<bar>b\<bar>)),
     BN_lshift = (\<lambda>a n. Some (a * 2 ^ n)), BN_rshift = (\<lambda>a n. Some (sgn a * (\<bar>a\<bar> div 2 ^ n))),
     BN_cmp = (\<lambda>a b. if a < b then - 1 else if a = b then 0 else 1),
     BN_is_negative = (\<lambda>b. b < 0),
     BN_set_negative = (\<lambda>b f. if f then - \<bar>b\<bar> else \<bar>b\<bar>)\<rparr>"

lemma length_mpi_header [simp]: "length (mpi_header n) = 4"
  by (simp add: mpi_header_def Let_def)

lemma openssl_int_bn: "openssl_bn int_bn (\<lambda>x. x)"
proof (unfold_locales, goal_cases)
  case (4 b)
  have "uint (- 1 :: u64) = 2 ^ 64 - 1" by (simp add: unsigned_minus_1_eq_mask mask_eq_exp_minus_1)
  then show ?case by (simp add: int_bn_def uint_word_of_int)
qed (simp_all add: int_bn_def Let_def option.map_ident)

interpretation int_bn: openssl_bn int_bn "\<lambda>x. x"
  by (rule openssl_int_bn)

section \<open>Conversions of the class\<close>

definition setulong :: "'b bn_lib \<Rightarrow> u64 \<Rightarrow> 'b" where
  "setulong bn n = BN_set_word bn n"

definition getulong :: "'b bn_lib \<Rightarrow> 'b \<Rightarrow> u64" where
  "getulong bn b = BN_get_word bn b"

definition getuint :: "'b bn_lib \<Rightarrow> 'b \<Rightarrow> u32" where
  "getuint bn b = ucast (BN_get_word bn b)"

definition getint :: "'b bn_lib \<Rightarrow> 'b \<Rightarrow> u32" where
  "getint bn b =
     (let n = BN_get_word bn b; int_max = 0x7fffffff :: u32; int_min = 0x80000000 :: u32
      in if \<not> BN_is_negative bn b then (if n > ucast int_max then int_max else ucast n)
         else (if n > ucast int_max then int_min else - ucast n))"

text \<open>
  The loops that write the bytes of a number behind the header: leading zeros are skipped, and
  the first byte carries the sign, or a byte of its own is put in front for it.
\<close>

fun put_bytes :: "bool \<Rightarrow> bool \<Rightarrow> byte list \<Rightarrow> byte list" where
  "put_bytes fNegative fLeadingZeroes [] = []"
| "put_bytes fNegative fLeadingZeroes (c # cs) =
     (if fLeadingZeroes then
        if c = 0 then put_bytes fNegative fLeadingZeroes cs
        else if c AND 0x80 \<noteq> 0 then (if fNegative then 0x80 else 0) # c # put_bytes fNegative False cs
        else (if fNegative then c OR 0x80 else c) # put_bytes fNegative False cs
      else c # put_bytes fNegative fLeadingZeroes cs)"

definition top_bytes :: "u64 \<Rightarrow> byte list" where
  "top_bytes n = map (\<lambda>i. ucast (drop_bit 56 (push_bit (8 * i) n) AND 0xff)) [0..<8]"

definition setint64 :: "'b bn_lib \<Rightarrow> u64 \<Rightarrow> 'b" where
  "setint64 bn sn =
     (let (n, fNegative) = (if sn <s 0 then (- (sn + 1) + 1, True) else (sn, False));
          p = put_bytes fNegative True (top_bytes n)
      in BN_mpi2bn bn (mpi_header (length p) @ p))"

definition setuint64 :: "'b bn_lib \<Rightarrow> u64 \<Rightarrow> 'b" where
  "setuint64 bn n =
     (let p = put_bytes False True (top_bytes n) in BN_mpi2bn bn (mpi_header (length p) @ p))"

definition setuint256 :: "'b bn_lib \<Rightarrow> base_uint \<Rightarrow> 'b" where
  "setuint256 bn n =
     (let p = put_bytes False True (rev (bu_bytes n)) in BN_mpi2bn bn (mpi_header (length p) @ p))"

text \<open>The constructor from a \<open>long\<close>, which is \<open>int64_t\<close> on the 64-bit platforms.\<close>

definition CBigNum_long :: "'b bn_lib \<Rightarrow> u64 \<Rightarrow> 'b" where
  "CBigNum_long bn n = (if 0 \<le>s n then setulong bn n else setint64 bn n)"

text \<open>
  Reading bytes back: the last ones, least significant first, into an object of \<open>k\<close> bytes
  that was 0; the byte of the sign loses its top bit.
\<close>

definition clear_sign :: "byte list \<Rightarrow> byte list" where
  "clear_sign vch = (if length vch > 4 then vch[4 := vch ! 4 AND 0x7f] else vch)"

definition mpi_low_bytes :: "nat \<Rightarrow> byte list \<Rightarrow> byte list" where
  "mpi_low_bytes k vch =
     (let bs = take k (rev (drop 4 vch)) in bs @ replicate (k - length bs) 0)"

definition getuint64 :: "'b bn_lib \<Rightarrow> 'b \<Rightarrow> u64" where
  "getuint64 bn b =
     (let vch = BN_bn2mpi bn b
      in if length vch < 4 then 0 else native_load64 (mpi_low_bytes 8 (clear_sign vch)))"

definition getuint256 :: "'b bn_lib \<Rightarrow> 'b \<Rightarrow> base_uint" where
  "getuint256 bn b =
     (let vch = BN_bn2mpi bn b
      in if length vch < 4 then bu_set64 WIDTH256 0 else bu_of_bytes (mpi_low_bytes 32 (clear_sign vch)))"

definition setvch :: "'b bn_lib \<Rightarrow> byte list \<Rightarrow> 'b" where
  "setvch bn vch = BN_mpi2bn bn (mpi_header (length vch) @ rev vch)"

definition getvch :: "'b bn_lib \<Rightarrow> 'b \<Rightarrow> byte list" where
  "getvch bn b = (let vch = BN_bn2mpi bn b in if length vch \<le> 4 then [] else rev (drop 4 vch))"

text \<open>
  The compact form of a target: the number of bytes of the MPI form in the top byte, and its
  first three bytes.
\<close>

definition SetCompact :: "'b bn_lib \<Rightarrow> u32 \<Rightarrow> 'b" where
  "SetCompact bn nCompact =
     (let nSize = unat (drop_bit 24 nCompact);
          vch = replicate (4 + nSize) 0;
          vch = vch[3 := of_nat nSize];
          vch = (if nSize \<ge> 1 then vch[4 := ucast (drop_bit 16 nCompact AND 0xff)] else vch);
          vch = (if nSize \<ge> 2 then vch[5 := ucast (drop_bit 8 nCompact AND 0xff)] else vch);
          vch = (if nSize \<ge> 3 then vch[6 := ucast (nCompact AND 0xff)] else vch)
      in BN_mpi2bn bn vch)"

definition GetCompact :: "'b bn_lib \<Rightarrow> 'b \<Rightarrow> u32" where
  "GetCompact bn b =
     (let vch = BN_bn2mpi bn b;
          nSize = of_nat (length vch) - 4 :: u32;
          nCompact = push_bit 24 nSize;
          nCompact = (if nSize \<ge> 1 then nCompact OR push_bit 16 (ucast (vch ! 4)) else nCompact);
          nCompact = (if nSize \<ge> 2 then nCompact OR push_bit 8 (ucast (vch ! 5)) else nCompact);
          nCompact = (if nSize \<ge> 3 then nCompact OR ucast (vch ! 6) else nCompact)
      in nCompact)"

section \<open>The operators\<close>

definition bn_add :: "'b bn_lib \<Rightarrow> 'b \<Rightarrow> 'b \<Rightarrow> 'b option" where "bn_add bn a b = BN_add bn a b"
definition bn_sub :: "'b bn_lib \<Rightarrow> 'b \<Rightarrow> 'b \<Rightarrow> 'b option" where "bn_sub bn a b = BN_sub bn a b"
definition bn_mul :: "'b bn_lib \<Rightarrow> 'b \<Rightarrow> 'b \<Rightarrow> 'b option" where "bn_mul bn a b = BN_mul bn a b"
definition bn_div :: "'b bn_lib \<Rightarrow> 'b \<Rightarrow> 'b \<Rightarrow> 'b option" where "bn_div bn a b = map_option fst (BN_div bn a b)"
definition bn_mod :: "'b bn_lib \<Rightarrow> 'b \<Rightarrow> 'b \<Rightarrow> 'b option" where "bn_mod bn a b = BN_nnmod bn a b"
definition bn_shl :: "'b bn_lib \<Rightarrow> 'b \<Rightarrow> nat \<Rightarrow> 'b option" where "bn_shl bn a n = BN_lshift bn a n"

definition bn_shr :: "'b bn_lib \<Rightarrow> 'b \<Rightarrow> nat \<Rightarrow> 'b option" where
  "bn_shr bn b shift =
     do {
       a \<leftarrow> bn_shl bn (setulong bn 1) shift;
       if BN_cmp bn a b > 0 then Some (setulong bn 0) else BN_rshift bn b shift
     }"

definition bn_neg :: "'b bn_lib \<Rightarrow> 'b \<Rightarrow> 'b" where
  "bn_neg bn r = BN_set_negative bn r (\<not> BN_is_negative bn r)"

definition bn_le :: "'b bn_lib \<Rightarrow> 'b \<Rightarrow> 'b \<Rightarrow> bool" where "bn_le bn a b \<longleftrightarrow> BN_cmp bn a b \<le> 0"
definition bn_lt :: "'b bn_lib \<Rightarrow> 'b \<Rightarrow> 'b \<Rightarrow> bool" where "bn_lt bn a b \<longleftrightarrow> BN_cmp bn a b < 0"
definition bn_gt :: "'b bn_lib \<Rightarrow> 'b \<Rightarrow> 'b \<Rightarrow> bool" where "bn_gt bn a b \<longleftrightarrow> BN_cmp bn a b > 0"
definition bn_eq :: "'b bn_lib \<Rightarrow> 'b \<Rightarrow> 'b \<Rightarrow> bool" where "bn_eq bn a b \<longleftrightarrow> BN_cmp bn a b = 0"

section \<open>Text\<close>

text \<open>The digits of a number, least significant first; the loop ends when the quotient is 0.\<close>

partial_function (option) ToString_loop :: "'b bn_lib \<Rightarrow> 'b \<Rightarrow> 'b \<Rightarrow> string \<Rightarrow> string option" where
  "ToString_loop bn bnBase b str =
     (if BN_cmp bn b (setulong bn 0) > 0 then
        Option.bind (BN_div bn b bnBase) (\<lambda>(dv, rem).
          ToString_loop bn bnBase dv (str @ [hex_digit (unat (getulong bn rem))]))
      else Some str)"

definition bn_ToString :: "'b bn_lib \<Rightarrow> u64 \<Rightarrow> 'b \<Rightarrow> string option" where
  "bn_ToString bn nBase n =
     (let bnBase = setulong bn nBase; b = BN_set_negative bn n False
      in if BN_cmp bn b (setulong bn 0) = 0 then Some ''0''
         else do {
           str \<leftarrow> ToString_loop bn bnBase b '''';
           let str = (if BN_is_negative bn n then str @ ''-'' else str);
           Some (rev str)
         })"

definition c_isxdigit :: "char \<Rightarrow> bool" where
  "c_isxdigit c = (let i = of_char c :: nat in i \<in> {48..57} \<or> i \<in> {65..70} \<or> i \<in> {97..102})"

fun SetHex_loop :: "'b bn_lib \<Rightarrow> 'b \<Rightarrow> string \<Rightarrow> 'b option" where
  "SetHex_loop bn b [] = Some b"
| "SetHex_loop bn b (c # cs) =
     (if c_isxdigit c then do {
        b \<leftarrow> bn_shl bn b 4;
        b \<leftarrow> bn_add bn b (setulong bn (ucast (phexdigit c)));
        SetHex_loop bn b cs
      }
      else Some b)"

definition bn_SetHex :: "'b bn_lib \<Rightarrow> string \<Rightarrow> 'b option" where
  "bn_SetHex bn str =
     (let psz = dropWhile c_isspace str;
          (fNegative, psz) = (case psz of c # r \<Rightarrow> if c = CHR ''-'' then (True, r) else (False, psz) | [] \<Rightarrow> (False, psz));
          psz = skip_0x psz;
          psz = dropWhile c_isspace psz
      in do {
        b \<leftarrow> SetHex_loop bn (setulong bn 0) psz;
        if fNegative then bn_sub bn (setulong bn 0) b else Some b
      })"

end
