(* ===== verification/Bignum_Laws.thy ===== *)
theory Bignum_Laws
  imports Bignum
begin

text \<open>
  What the conversions and operators of \<open>CBigNum\<close> compute, under the documented behaviour of
  the library: every setter and getter is shown to be the integer function it stands for, the
  compact form is given by a formula on the fields of the word, and the loop of \<open>ToString\<close>
  ends.
\<close>

section \<open>Bytes of numbers\<close>

lemma sint_word_of_int: "- (2 ^ 63) \<le> x \<Longrightarrow> x < 2 ^ 63 \<Longrightarrow> sint (word_of_int x :: u64) = x"
  by (simp add: signed_take_bit_int_eq_self sint_sbintrunc')

lemma be_val_digits: "be_val (map (\<lambda>i. of_nat (x div 256 ^ i mod 256)) (rev [0..<k])) = x mod 256 ^ k"
proof (induction k)
  case (Suc k)
  have "x mod (256 ^ k * 256) = 256 ^ k * (x div 256 ^ k mod 256) + x mod 256 ^ k"
    by (rule mod_mult2_eq)
  with Suc show ?case by (simp add: unat_of_nat mult.commute)
qed simp

lemma be_val_replicate_append: "be_val (replicate k 0 @ bs) = be_val bs"
  by (induction k) simp_all

lemma be_val_drop: "be_val (drop (length x - k) x) = be_val x mod 256 ^ k"
proof (cases "k \<le> length x")
  case True
  have "be_val x = be_val (take (length x - k) x @ drop (length x - k) x)" by simp
  also have "\<dots> = be_val (take (length x - k) x) * 256 ^ k + be_val (drop (length x - k) x)"
    using True by (simp only: be_val_append length_drop) simp
  finally show ?thesis using be_val_less [of "drop (length x - k) x"] True by simp
next
  case False
  then have "(256 :: nat) ^ length x \<le> 256 ^ k" by (intro power_increasing) simp_all
  then have "be_val x < 256 ^ k" by (rule less_le_trans [OF be_val_less])
  with False show ?thesis by simp
qed

lemma word_byte: "(ucast (drop_bit (8 * i) (w :: 'a::len word)) :: byte) = of_nat (unat w div 256 ^ i mod 256)"
proof -
  have "unat (ucast (drop_bit (8 * i) w) :: byte) = unat w div 2 ^ (8 * i) mod 2 ^ 8"
    by (simp add: unsigned_ucast_eq take_bit_eq_mod unsigned_drop_bit_eq drop_bit_eq_div [of _ "unat w"])
  then show ?thesis by (simp add: word_unat_eq_iff unat_of_nat power_mult)
qed

lemma be_val_rev_enc: "be_val (rev (sph_enc64le v)) = unat v" "be_val (rev (sph_enc32le w)) = unat w"
proof -
  have v: "unat v < 2 ^ 64" and w: "unat w < 2 ^ 32" using unsigned_less [of v] unsigned_less [of w] by simp_all
  have "rev (sph_enc64le v) = map (\<lambda>i. of_nat (unat v div 256 ^ i mod 256)) (rev [0..<8])"
    by (simp only: sph_enc64le_map word_byte rev_map)
  then show "be_val (rev (sph_enc64le v)) = unat v"
    using v by (simp only: be_val_digits) simp
  have "rev (sph_enc32le w) = map (\<lambda>i. of_nat (unat w div 256 ^ i mod 256)) (rev [0..<4])"
    by (simp only: sph_enc32le_map word_byte rev_map)
  then show "be_val (rev (sph_enc32le w)) = unat w"
    using w by (simp only: be_val_digits) simp
qed

lemma be_val_bu_bytes: "be_val (rev (bu_bytes n)) = uint_val n"
proof (induction n)
  case (Cons p ps)
  then show ?case
    by (simp add: bu_bytes_def native_store_eq be_val_append be_val_rev_enc)
qed (simp add: bu_bytes_def)

lemma uint_val_of_bytes: "length bs = 4 * k \<Longrightarrow> uint_val (bu_of_bytes bs) = be_val (rev bs)"
  using be_val_bu_bytes [of "bu_of_bytes bs"] by (simp add: bu_bytes_of_bytes)

lemma unat_native_load64: "length bs = 8 \<Longrightarrow> unat (native_load64 bs) = be_val (rev bs)"
  using be_val_rev_enc(1) [of "native_load64 bs"] by (simp add: native_load64_eq sph_enc64le_dec64le)

lemma ucast_and_ff: "(ucast ((x :: 'a::len word) AND 0xff) :: byte) = ucast x"
proof -
  have "(0xff :: 'a word) = mask 8" by (simp add: mask_eq_exp_minus_1)
  then show ?thesis by (intro bit_word_eqI) (simp only: bit_ucast_iff bit_and_iff bit_mask_iff, auto dest: bit_imp_le_length)
qed

lemma top_bytes_rev: "top_bytes n = rev (sph_enc64le n)"
proof (rule nth_equalityI)
  fix i assume "i < length (top_bytes n)"
  then have i: "i < 8" by (simp add: top_bytes_def)
  show "top_bytes n ! i = rev (sph_enc64le n) ! i"
  proof (rule bit_word_eqI)
    fix m assume m: "m < LENGTH(8)"
    then have "bit (top_bytes n ! i) m \<longleftrightarrow> bit n (56 + m - 8 * i)"
      using i by (simp add: top_bytes_def ucast_and_ff bit_simps add.commute)
    moreover have "8 * (7 - i) + m = 56 + m - 8 * i" "7 - i < 8" using i by linarith+
    ultimately show "bit (top_bytes n ! i) m = bit (rev (sph_enc64le n) ! i) m"
      using i m by (simp add: rev_nth sph_enc64le_map bit_simps)
  qed
qed (simp add: top_bytes_def)

section \<open>The MPI form\<close>

lemma put_bytes_False [simp]: "put_bytes neg False bs = bs"
  by (induction bs) simp_all

lemma put_bytes_strip:
  "put_bytes neg True bs = (case dropWhile (\<lambda>b. b = 0) bs of [] \<Rightarrow> [] | b # r \<Rightarrow>
     if bit b 7 then (if neg then 0x80 else 0) # b # r else (if neg then b OR 0x80 else b) # r)"
  by (induction bs) (simp_all add: byte_sign)

lemma put_bytes_mpi:
  "put_bytes neg True bs = mpi_bytes (if neg then - int (be_val bs) else int (be_val bs))"
proof (cases "be_val bs = 0")
  case True
  then have dw: "dropWhile (\<lambda>b. b = 0) bs = []" by (simp add: be_val_eq_0)
  have "put_bytes neg True bs = []" by (simp only: put_bytes_strip dw list.case)
  then show ?thesis using True by (simp add: mpi_bytes_eq)
next
  case False
  then have "\<exists>b \<in> set bs. b \<noteq> 0" by (simp add: be_val_eq_0)
  with False show ?thesis by (cases neg) (simp_all add: put_bytes_strip mpi_bytes_eq be_bytes_be_val split: list.split)
qed

lemma clear_sign_mpi:
  assumes "length h = 4"
  shows "be_val (drop 4 (clear_sign (h @ d))) = nat \<bar>mpi_val d\<bar>" "length (clear_sign (h @ d)) = 4 + length d"
proof -
  show "length (clear_sign (h @ d)) = 4 + length d" using assms by (simp add: clear_sign_def)
  show "be_val (drop 4 (clear_sign (h @ d))) = nat \<bar>mpi_val d\<bar>"
  proof (cases d)
    case (Cons b r)
    then have "drop 4 (clear_sign (h @ d)) = take_bit 7 b # r"
      using assms by (simp add: clear_sign_def nth_append byte_magnitude list_update_append)
    then show ?thesis by (simp add: Cons mpi_val_Cons Let_def del: be_val.simps)
  qed (use assms in \<open>simp add: clear_sign_def\<close>)
qed

lemma low_bytes_val: "be_val (rev (mpi_low_bytes k vch)) = be_val (drop 4 vch) mod 256 ^ k"
proof -
  have "rev (mpi_low_bytes k vch) = replicate (k - length (take k (rev (drop 4 vch)))) 0 @
      drop (length (drop 4 vch) - k) (drop 4 vch)"
    by (simp add: mpi_low_bytes_def Let_def take_rev)
  then show ?thesis by (simp only: be_val_replicate_append be_val_drop)
qed

lemma length_low_bytes [simp]: "length (mpi_low_bytes k vch) = k"
  by (simp add: mpi_low_bytes_def Let_def)

section \<open>The compact form\<close>

text \<open>
  The number a compact word stands for: the low 23 bits are the mantissa, bit 23 is the sign, and
  the top byte is the number of bytes.
\<close>

definition compact_val :: "u32 \<Rightarrow> int" where
  "compact_val c =
     (let e = unat c div 2 ^ 24; m = unat c mod 2 ^ 23;
          v = int (if e \<le> 3 then m div 256 ^ (3 - e) else m * 256 ^ (e - 3))
      in if bit c 23 then - v else v)"

definition compact_bytes :: "u32 \<Rightarrow> byte list" where
  "compact_bytes c =
     [ucast (drop_bit 16 c), ucast (drop_bit 8 c), ucast c]"

lemma compact_bytes_nat:
  "compact_bytes c = [of_nat (unat c div 65536 mod 256), of_nat (unat c div 256 mod 256), of_nat (unat c mod 256)]"
  using word_byte [of 2 c] word_byte [of 1 c] word_byte [of 0 c] by (simp add: compact_bytes_def)

lemma compact_size_cases:
  obtains "n = (0 :: nat)" | "n = 1" | "n = 2" | m where "n = 3 + m"
proof (cases "3 \<le> n")
  case True
  then show thesis using that(4) le_Suc_ex by blast
next
  case False
  then have "n = 0 \<or> n = 1 \<or> n = 2" by linarith
  then show thesis using that(1-3) by blast
qed

lemma compact_updates:
  "(let vch = replicate (4 + n) 0;
        vch = vch[3 := a];
        vch = (if n \<ge> 1 then vch[4 := x] else vch);
        vch = (if n \<ge> 2 then vch[5 := y] else vch);
        vch = (if n \<ge> 3 then vch[6 := z] else vch)
    in vch) = [0, 0, 0, a] @ take n [x, y, z] @ replicate (n - 3) 0"
  by (cases rule: compact_size_cases [of n]) (simp_all add: numeral_eq_Suc)

lemma SetCompact_mpi:
  "SetCompact bn c = BN_mpi2bn bn
     (mpi_header (unat (drop_bit 24 c)) @ take (unat (drop_bit 24 c)) (compact_bytes c) @ replicate (unat (drop_bit 24 c) - 3) 0)"
proof -
  define n where "n = unat (drop_bit 24 c)"
  have n: "n < 256"
    using unat_u32_less [of c] by (simp only: n_def unat_drop_bit_eq) (simp add: drop_bit_eq_div less_mult_imp_div_less)
  have h: "mpi_header n = [0, 0, 0, of_nat n]"
  proof -
    have "drop_bit k (of_nat n :: u32) = 0" if "8 \<le> k" for k
    proof -
      have "n < 2 ^ k" using n that power_increasing [of 8 k "2 :: nat"] by simp
      then show ?thesis using n by (simp only: word_unat_eq_iff unat_drop_bit_eq, simp add: drop_bit_eq_div unat_of_nat)
    qed
    moreover have "ucast (of_nat n :: u32) = (of_nat n :: byte)" using n by (simp add: word_unat_eq_iff unsigned_ucast_eq unat_of_nat take_bit_eq_mod)
    ultimately show ?thesis by (simp add: mpi_header_def Let_def ucast_and_ff)
  qed
  have "SetCompact bn c = BN_mpi2bn bn ([0, 0, 0, of_nat n] @ take n (compact_bytes c) @ replicate (n - 3) 0)"
    unfolding SetCompact_def n_def [symmetric] compact_bytes_def ucast_and_ff
    by (simp only: compact_updates [symmetric] Let_def)
  then show ?thesis by (simp only: n_def [symmetric] h)
qed

lemma mantissa_split:
  fixes x :: nat
  shows "x mod 2 ^ 23 = (x div 65536 mod 256) mod 128 * 65536 + (x div 256 mod 256) * 256 + x mod 256"
proof -
  have "x mod (65536 * 128) = 65536 * (x div 65536 mod 128) + x mod 65536" by (rule mod_mult2_eq)
  moreover have "x mod (256 * 256) = 256 * (x div 256 mod 256) + x mod 256" by (rule mod_mult2_eq)
  moreover have "(y :: nat) mod 256 mod 128 = y mod 128" for y by (simp add: mod_mod_cancel)
  ultimately show ?thesis by simp
qed

lemma compact_mpi_val:
  "mpi_val (take n (compact_bytes c) @ replicate (n - 3) 0) =
     (let m = unat c mod 2 ^ 23; v = int (if n \<le> 3 then m div 256 ^ (3 - n) else m * 256 ^ (n - 3))
      in if bit c 23 then - v else v)"
proof -
  define x where "x = unat c"
  define b1 b2 b3 where "b1 = x div 65536 mod 256" and "b2 = x div 256 mod 256" and "b3 = x mod 256"
  have b: "b1 < 256" "b2 < 256" "b3 < 256" by (simp_all add: b1_def b2_def b3_def)
  have cb: "compact_bytes c = [of_nat b1, of_nat b2, of_nat b3]"
    by (simp add: compact_bytes_nat b1_def b2_def b3_def x_def)
  have m: "x mod 2 ^ 23 = b1 mod 128 * 65536 + b2 * 256 + b3"
    unfolding b1_def b2_def b3_def by (rule mantissa_split)
  have s: "bit (of_nat b1 :: byte) 7 \<longleftrightarrow> bit c 23"
  proof -
    have "(of_nat b1 :: byte) = ucast (drop_bit 16 c)"
      using cb by (simp add: compact_bytes_def)
    then show ?thesis by (simp add: bit_simps)
  qed
  have u: "unat (take_bit 7 (of_nat b1 :: byte)) = b1 mod 128" "unat (of_nat b2 :: byte) = b2" "unat (of_nat b3 :: byte) = b3"
    using b by (simp_all only: unsigned_take_bit_eq) (simp_all add: take_bit_eq_mod unat_of_nat)
  have v: "mpi_val (of_nat b1 # r) = (let m = int (b1 mod 128 * 256 ^ length r + be_val r) in if bit c 23 then - m else m)" for r
    by (simp only: mpi_val_Cons s be_val.simps u)
  show ?thesis
  proof (cases rule: compact_size_cases [of n])
    case 1
    have "x mod 2 ^ 23 < 256 ^ 3" by (rule less_trans [OF mod_less_divisor]) simp_all
    then show ?thesis by (simp add: 1 x_def)
  next
    case 2
    have "x mod 2 ^ 23 div 256 ^ 2 = b1 mod 128" unfolding m using b by simp
    then show ?thesis unfolding x_def [symmetric] by (simp add: 2 cb v Let_def)
  next
    case 3
    have "x mod 2 ^ 23 div 256 = b1 mod 128 * 256 + b2" unfolding m using b by simp
    then show ?thesis unfolding x_def [symmetric] by (simp add: 3 cb v Let_def numeral_2_eq_2 u)
  next
    case (4 k)
    have "be_val (of_nat b2 # of_nat b3 # replicate k 0) = (b2 * 256 + b3) * 256 ^ k"
      by (simp add: u algebra_simps)
    then have "b1 mod 128 * 256 ^ length (of_nat b2 # of_nat b3 # replicate k (0 :: byte)) +
        be_val (of_nat b2 # of_nat b3 # replicate k 0) = x mod 2 ^ 23 * 256 ^ k"
      unfolding m by (simp add: algebra_simps)
    then show ?thesis unfolding x_def [symmetric]
      by (simp add: 4 cb v Let_def numeral_3_eq_3)
  qed
qed

lemma length_compact_bytes: "length (take n (compact_bytes c) @ replicate (n - 3) 0) = n"
  by (cases rule: compact_size_cases [of n]) (simp_all add: compact_bytes_def)

lemma compact_fields:
  fixes s x y z :: byte
  defines "c \<equiv> push_bit 24 (ucast s) OR push_bit 16 (ucast x) OR push_bit 8 (ucast y) OR ucast z :: u32"
  shows "drop_bit 24 c = ucast s" and "compact_bytes c = [x, y, z]"
proof -
  show "drop_bit 24 c = ucast s"
    by (rule bit_word_eqI) (auto simp: c_def bit_simps dest: bit_imp_le_length)
  have "ucast (drop_bit 16 c) = x" "ucast (drop_bit 8 c) = y" "ucast c = z"
    by (rule bit_word_eqI, auto simp: c_def bit_simps dest: bit_imp_le_length)+
  then show "compact_bytes c = [x, y, z]" by (simp add: compact_bytes_def)
qed

lemma be_val_take:
  "be_val (take j x @ replicate (length x - j) 0) = be_val x div 256 ^ (length x - j) * 256 ^ (length x - j)"
proof -
  have "be_val x = be_val (take j x @ drop j x)" by simp
  also have "\<dots> = be_val (take j x) * 256 ^ (length x - j) + be_val (drop j x)"
    by (simp only: be_val_append length_drop)
  finally show ?thesis using be_val_less [of "drop j x"] by (simp add: be_val_append)
qed

text \<open>Rounding to the three leading bytes of the MPI form.\<close>

definition compact_round :: "int \<Rightarrow> int" where
  "compact_round v = (let k = length (mpi_bytes v) - 3 in sgn v * (\<bar>v\<bar> div 256 ^ k * 256 ^ k))"

lemma mpi_val_take:
  assumes "0 < j"
  shows "mpi_val (take j d @ replicate (length d - j) 0) =
    sgn (mpi_val d) * (\<bar>mpi_val d\<bar> div 256 ^ (length d - j) * 256 ^ (length d - j))"
proof (cases d)
  case (Cons b r)
  obtain i where j: "j = Suc i" using assms by (cases j) auto
  define x where "x = take_bit 7 b # r"
  have l: "length d = length x" by (simp add: Cons x_def)
  have d: "mpi_val d = (if bit b 7 then - int (be_val x) else int (be_val x))"
    by (simp add: Cons mpi_val_Cons x_def Let_def)
  have "mpi_val (take j d @ replicate (length d - j) 0) =
      (if bit b 7 then - int (be_val (take j x @ replicate (length x - j) 0)) else int (be_val (take j x @ replicate (length x - j) 0)))"
    by (simp add: Cons j x_def mpi_val_Cons Let_def)
  also have "\<dots> = sgn (mpi_val d) * (\<bar>mpi_val d\<bar> div 256 ^ (length x - j) * 256 ^ (length x - j))"
    unfolding be_val_take d by (cases "be_val x = 0") (simp_all add: zdiv_int)
  finally show ?thesis by (simp only: l)
qed simp

lemma GetCompact_eq:
  assumes "BN_bn2mpi bn b = h @ d" and "length h = 4" and "length d < 256"
  shows "drop_bit 24 (GetCompact bn b) = of_nat (length d)"
    and "take (length d) (compact_bytes (GetCompact bn b)) = take 3 d"
proof -
  define n where "n = length d"
  have s: "(of_nat n :: u32) = ucast (of_nat n :: byte)"
    using assms(3) by (simp add: n_def word_unat_eq_iff unsigned_ucast_eq unat_of_nat take_bit_eq_mod)
  have le: "of_nat k \<le> (of_nat n :: u32) \<longleftrightarrow> k \<le> n" if "k < 256" for k
    using that assms(3) by (simp add: n_def word_le_nat_alt unat_of_nat)
  have le: "(1 :: u32) \<le> of_nat n \<longleftrightarrow> 1 \<le> n" "(2 :: u32) \<le> of_nat n \<longleftrightarrow> 2 \<le> n" "(3 :: u32) \<le> of_nat n \<longleftrightarrow> 3 \<le> n"
    using le [of 1] le [of 2] le [of 3] by simp_all
  have c: "GetCompact bn b =
      (let c = push_bit 24 (ucast (of_nat n :: byte));
           c = (if 1 \<le> n then c OR push_bit 16 (ucast (d ! 0)) else c);
           c = (if 2 \<le> n then c OR push_bit 8 (ucast (d ! 1)) else c)
       in if 3 \<le> n then c OR ucast (d ! 2) else c)"
    unfolding GetCompact_def assms(1) Let_def s [symmetric]
    using assms(2) by (simp add: nth_append le n_def [symmetric])
  have "drop_bit 24 (GetCompact bn b) = ucast (of_nat n :: byte) \<and> take n (compact_bytes (GetCompact bn b)) = take 3 d"
  proof (cases rule: compact_size_cases [of n])
    case 1
    then have "GetCompact bn b = push_bit 24 (ucast (of_nat n :: byte)) OR push_bit 16 (ucast (0 :: byte)) OR push_bit 8 (ucast (0 :: byte)) OR ucast (0 :: byte)"
      by (simp add: c)
    then show ?thesis using compact_fields [of "of_nat n" 0 0 0] 1 n_def by simp
  next
    case 2
    then have "GetCompact bn b = push_bit 24 (ucast (of_nat n :: byte)) OR push_bit 16 (ucast (d ! 0)) OR push_bit 8 (ucast (0 :: byte)) OR ucast (0 :: byte)"
      by (simp add: c)
    then show ?thesis using compact_fields [of "of_nat n" "d ! 0" 0 0] 2 n_def by (cases d) simp_all
  next
    case 3
    then have "GetCompact bn b = push_bit 24 (ucast (of_nat n :: byte)) OR push_bit 16 (ucast (d ! 0)) OR push_bit 8 (ucast (d ! 1)) OR ucast (0 :: byte)"
      by (simp add: c or.assoc)
    moreover obtain x y where "d = [x, y]" using 3 n_def by (cases d; cases "tl d"; auto simp: numeral_2_eq_2)
    ultimately show ?thesis using compact_fields [of "of_nat n" "d ! 0" "d ! 1" 0] 3 by simp
  next
    case (4 k)
    then have "GetCompact bn b = push_bit 24 (ucast (of_nat n :: byte)) OR push_bit 16 (ucast (d ! 0)) OR push_bit 8 (ucast (d ! 1)) OR ucast (d ! 2)"
      by (simp add: c or.assoc)
    moreover obtain x y z r where "d = x # y # z # r" using 4 n_def
      by (cases d; cases "tl d"; cases "tl (tl d)"; auto simp: numeral_3_eq_3)
    ultimately show ?thesis using compact_fields [of "of_nat n" "d ! 0" "d ! 1" "d ! 2"] 4 by simp
  qed
  then show "drop_bit 24 (GetCompact bn b) = of_nat (length d)"
    and "take (length d) (compact_bytes (GetCompact bn b)) = take 3 d" using s by (simp_all only: n_def)
qed

context openssl_bn
begin

lemma val_SetCompact: "val (SetCompact bn c) = compact_val c"
proof -
  define n where "n = unat (drop_bit 24 c)"
  have n: "n = unat c div 2 ^ 24" by (simp only: n_def unat_drop_bit_eq) (simp add: drop_bit_eq_div)
  then have "n < 256" using unat_u32_less [of c] by (simp add: less_mult_imp_div_less)
  then have "val (SetCompact bn c) = mpi_val (take n (compact_bytes c) @ replicate (n - 3) 0)"
    using mpi2bn [of "take n (compact_bytes c) @ replicate (n - 3) 0"]
    unfolding length_compact_bytes by (simp only: SetCompact_mpi n_def [symmetric]) simp
  then show ?thesis by (simp add: compact_mpi_val compact_val_def n Let_def)
qed

lemma GetCompact_int:
  assumes "length (mpi_bytes (val b)) < 2 ^ 31"
  shows "GetCompact bn b = GetCompact int_bn (val b)"
  using bn2mpi [OF assms] by (simp add: GetCompact_def int_bn_def)

lemma val_GetCompact:
  assumes "length (mpi_bytes (val b)) < 256"
  shows "compact_val (GetCompact bn b) = compact_round (val b)"
proof -
  let ?d = "mpi_bytes (val b)"
  let ?c = "GetCompact bn b"
  have "length ?d < 2 ^ 31" using assms by simp
  note g = GetCompact_eq [OF bn2mpi [OF this] length_mpi_header assms]
  have n: "unat (drop_bit 24 ?c) = length ?d" using assms by (simp only: g(1)) (simp add: unat_of_nat)
  then have "length ?d = unat ?c div 2 ^ 24" by (simp only: unat_drop_bit_eq) (simp add: drop_bit_eq_div)
  then have "compact_val ?c = mpi_val (take (length ?d) (compact_bytes ?c) @ replicate (length ?d - 3) 0)"
    by (simp add: compact_mpi_val compact_val_def Let_def)
  also have "\<dots> = compact_round (val b)"
    using mpi_val_take [of 3 ?d] by (simp add: g(2) compact_round_def Let_def)
  finally show ?thesis .
qed

lemma val_setulong: "val (setulong bn n) = uint n"
  by (simp add: setulong_def set_word)

lemma val_put_bytes:
  assumes "be_val bs < 256 ^ 64"
  shows "val (let p = put_bytes neg True bs in BN_mpi2bn bn (mpi_header (length p) @ p)) =
    (if neg then - int (be_val bs) else int (be_val bs))"
proof -
  let ?v = "if neg then - int (be_val bs) else int (be_val bs)"
  have "\<bar>?v\<bar> = int (be_val bs)" by simp
  also have "\<dots> < 2 ^ (8 * 64)" using assms by simp
  finally have "length (mpi_bytes ?v) \<le> 64 + 1" by (rule length_mpi_bytes_le)
  then have "length (mpi_bytes ?v) < 2 ^ 31" by simp
  from mpi2bn [OF this] show ?thesis by (simp only: put_bytes_mpi Let_def mpi_val_bytes)
qed

lemma top_bytes_small: "be_val (top_bytes n) = unat n" "unat (n :: u64) < 256 ^ 64"
proof -
  have "unat n < 2 ^ 64" using unsigned_less [of n] by simp
  then show "unat n < 256 ^ 64" by simp
qed (simp add: top_bytes_rev be_val_rev_enc)

lemma val_setuint64: "val (setuint64 bn n) = uint n"
  using val_put_bytes [of "top_bytes n" False] by (simp add: setuint64_def top_bytes_small del: power_numeral)

lemma val_setint64: "val (setint64 bn sn) = sint sn"
proof -
  have t: "take_bit 64 (uint sn) = uint sn"
    using uint_lt2p [of sn] by (simp add: take_bit_int_eq_self)
  show ?thesis
  proof (cases "sn <s 0")
    case True
    have e: "- (sn + 1) + 1 = - sn" by simp
    have "sint sn < 0" using True by (simp add: word_sless_alt)
    then have b: "bit (uint sn) 63" by (simp add: sint_uint)
    then have "sint sn = uint sn - 2 ^ 64"
      by (simp add: sint_uint signed_take_bit_eq_take_bit_minus t)
    moreover have "sn \<noteq> 0" using b by auto
    then have "uint (- sn) = 2 ^ 64 - uint sn" using t by (simp add: uint_word_ariths zmod_zminus1_eq_if take_bit_eq_mod uint_0_iff)
    ultimately show ?thesis
      using val_put_bytes [of "top_bytes (- sn)" True] True
      by (simp add: setint64_def Let_def top_bytes_small e del: power_numeral)
  next
    case False
    then have "\<not> sint sn < 0" by (simp add: word_sless_alt)
    then have "\<not> bit (uint sn) 63" by (simp add: sint_uint)
    then have "sint sn = uint sn" by (simp add: sint_uint signed_take_bit_eq_take_bit_minus t)
    with False show ?thesis
      using val_put_bytes [of "top_bytes sn" False]
      by (simp add: setint64_def Let_def top_bytes_small del: power_numeral)
  qed
qed

lemma val_setuint256:
  assumes "length n \<le> 16"
  shows "val (setuint256 bn n) = int (uint_val n)"
proof -
  have "uint_val n < 2 ^ (32 * length n)" by (rule uint_val_less)
  also have "\<dots> \<le> 2 ^ (32 * 16)" using assms by (intro power_increasing) simp_all
  finally show ?thesis
    using val_put_bytes [of "rev (bu_bytes n)" False] by (simp add: setuint256_def be_val_bu_bytes)
qed

lemma uint_val_getuint256:
  assumes "length (mpi_bytes (val b)) < 2 ^ 31"
  shows "uint_val (getuint256 bn b) = nat \<bar>val b\<bar> mod 2 ^ 256" "length (getuint256 bn b) = 8"
proof -
  have g: "getuint256 bn b = bu_of_bytes (mpi_low_bytes 32 (clear_sign (mpi_header (length (mpi_bytes (val b))) @ mpi_bytes (val b))))"
    by (simp add: getuint256_def bn2mpi [OF assms])
  show "uint_val (getuint256 bn b) = nat \<bar>val b\<bar> mod 2 ^ 256"
    unfolding g by (simp add: uint_val_of_bytes [where k = 8] low_bytes_val clear_sign_mpi)
  have "length (bu_bytes (getuint256 bn b)) = 32"
    unfolding g by (subst bu_bytes_of_bytes [where n = 8]) simp_all
  then show "length (getuint256 bn b) = 8" by simp
qed

lemma val_bn_ops:
  "map_option val (bn_add bn a b) = Some (val a + val b)"
  "map_option val (bn_sub bn a b) = Some (val a - val b)"
  "map_option val (bn_mul bn a b) = Some (val a * val b)"
  "map_option val (bn_shl bn a n) = Some (val a * 2 ^ n)"
  "bn_le bn a b \<longleftrightarrow> val a \<le> val b" "bn_lt bn a b \<longleftrightarrow> val a < val b"
  "bn_gt bn a b \<longleftrightarrow> val a > val b" "bn_eq bn a b \<longleftrightarrow> val a = val b"
  using cmp [of a b]
  by (auto simp: bn_add_def bn_sub_def bn_mul_def bn_shl_def add sub mul lshift bn_le_def bn_lt_def bn_gt_def bn_eq_def sgn_if split: if_splits)

lemma val_bn_div:
  "val b \<noteq> 0 \<Longrightarrow> map_option val (bn_div bn a b) = Some (sgn (val a) * sgn (val b) * (\<bar>val a\<bar> div \<bar>val b\<bar>))"
  "val b = 0 \<Longrightarrow> bn_div bn a b = None"
  using div [of a b] by (auto simp: bn_div_def Let_def)

end

end
