(* ===== verification/Uint256_Text.thy ===== *)
theory Uint256_Text
  imports Bignum_Laws
begin

text \<open>
  The text of a \<open>base_uint\<close>: what \<open>GetHex\<close> writes are the digits of the number in base 16, and
  \<open>SetHex\<close> reads them back, behind white space and a prefix, and whatever follows them.
\<close>

definition hex_number :: "string \<Rightarrow> nat" where
  "hex_number cs = foldl (\<lambda>v c. 16 * v + unat (phexdigit c)) 0 cs"

lemma hex_number_append: "hex_number (xs @ ys) = hex_number xs * 16 ^ length ys + hex_number ys"
proof -
  have "foldl (\<lambda>v c. 16 * v + unat (phexdigit c)) k ys = k * 16 ^ length ys + hex_number ys" for k
  proof (induction ys arbitrary: k)
    case (Cons c ys)
    have "hex_number (c # ys) = unat (phexdigit c) * 16 ^ length ys + hex_number ys"
      using Cons.IH [of "unat (phexdigit c)"] by (simp only: hex_number_def foldl_Cons mult_0_right add_0)
    then show ?case using Cons.IH [of "16 * k + unat (phexdigit c)"] by (simp add: algebra_simps)
  qed (simp add: hex_number_def)
  from this [of "hex_number xs"] show ?thesis
    by (simp only: hex_number_def [of "xs @ ys"] foldl_append hex_number_def [of xs, symmetric])
qed

lemma hex_number_byte: "hex_number (byte_hex b) = unat b"
proof -
  have "phexdigit (hex_digit (unat b div 16)) = of_nat (unat b div 16)" "phexdigit (hex_digit (unat b mod 16)) = of_nat (unat b mod 16)"
    using hex_digits byte_nibbles [of b] by blast+
  then have "hex_number (byte_hex b) = 16 * (unat b div 16) + unat b mod 16"
    using byte_nibbles [of b] by (simp add: hex_number_def byte_hex_def unat_of_nat)
  then show ?thesis by simp
qed

lemma length_bytes_hex: "length (concat (map byte_hex bs)) = 2 * length bs"
  by (induction bs) (simp_all add: byte_hex_def)

lemma hex_number_bytes: "hex_number (concat (map byte_hex bs)) = be_val bs"
proof (induction bs)
  case (Cons b bs)
  have "(16 :: nat) ^ (2 * k) = 256 ^ k" for k by (simp add: power_mult)
  with Cons show ?case by (simp add: hex_number_append hex_number_byte length_bytes_hex)
qed (simp add: hex_number_def)

lemma hex_number_GetHex: "hex_number (GetHex a) = uint_val a"
  by (simp add: GetHex_def hex_number_bytes be_val_bu_bytes)

text \<open>Reading stops at the first character that is no digit.\<close>

definition hex_stops :: "string \<Rightarrow> bool" where
  "hex_stops s \<longleftrightarrow> s = [] \<or> phexdigit (hd s) = 0 \<and> hd s \<noteq> CHR ''0''"

lemma SetHex_GetHex_text:
  assumes "a \<noteq> []" and "list_all c_isspace ws" and "p = [] \<or> p = ''0x'' \<or> p = ''0X''" and "hex_stops rest"
  shows "SetHex (length a) (ws @ p @ GetHex a @ rest) = a"
proof -
  note c = GetHex_chars [of _ a]
  have ne: "length (GetHex a) = 8 * length a" by (rule length_GetHex)
  obtain x y t where g: "GetHex a = x # y # t"
    using assms(1) ne by (cases "GetHex a"; cases "tl (GetHex a)") auto
  have z: "\<not> c_isspace CHR ''0''" by (simp add: c_isspace_def of_char_def)
  have x: "\<not> c_isspace x" "y \<noteq> CHR ''x''" "y \<noteq> CHR ''X''" using c [of x] c [of y] by (simp_all add: g)
  have "dropWhile c_isspace (p @ GetHex a @ rest) = p @ GetHex a @ rest"
    using assms(3) z x by (auto simp: g)
  then have 1: "dropWhile c_isspace (ws @ p @ GetHex a @ rest) = p @ GetHex a @ rest"
    using assms(2) by (simp add: dropWhile_append2 list_all_iff)
  have 2: "skip_0x (p @ GetHex a @ rest) = GetHex a @ rest"
    using assms(3) x by (auto simp: skip_0x_def g)
  have "takeWhile (\<lambda>c. phexdigit c \<noteq> 0 \<or> c = CHR ''0'') rest = []"
    using assms(4) by (cases rest) (auto simp: hex_stops_def)
  then have 3: "takeWhile (\<lambda>c. phexdigit c \<noteq> 0 \<or> c = CHR ''0'') (GetHex a @ rest) = GetHex a"
    using c by (subst takeWhile_append2) simp_all
  have 4: "hex_to_bytes (rev (GetHex a)) = bu_bytes a"
    unfolding GetHex_def by (rule hex_to_bytes_rev)
  show ?thesis
    by (simp only: SetHex_def Let_def 1 2 3 4) (simp add: bu_of_bytes_bytes)
qed

end
