(* ===== verification/Bignum_Text.thy ===== *)
theory Bignum_Text
  imports Bignum_Laws
begin

text \<open>
  \<open>ToString\<close> and \<open>SetHex\<close> of \<open>CBigNum\<close>: the loop that divides by the base ends for every
  number and writes its digits, and the hexadecimal text of a number, negative or not, is read
  back as the number.
\<close>

fun base_digits_of :: "nat \<Rightarrow> nat \<Rightarrow> string" where
  "base_digits_of base n = (if base < 2 \<or> n = 0 then [] else hex_digit (n mod base) # base_digits_of base (n div base))"

declare base_digits_of.simps [simp del]

definition number_text :: "nat \<Rightarrow> int \<Rightarrow> string" where
  "number_text base n =
     (if n = 0 then ''0''
      else (if n < 0 then ''-'' else '''') @ rev (base_digits_of base (nat \<bar>n\<bar>)))"

lemma hex_digit_props:
  assumes "n < 16"
  shows "c_isxdigit (hex_digit n)" "hex_digit n \<noteq> CHR ''-''"
proof -
  have "\<forall>n \<in> set [0..<16]. c_isxdigit (hex_digit n) \<and> hex_digit n \<noteq> CHR ''-''"
    by (simp add: upt_16 hex_digit_def c_isxdigit_def of_char_def Let_def del: set_upt)
  with assms show "c_isxdigit (hex_digit n)" "hex_digit n \<noteq> CHR ''-''" by simp_all
qed

lemma base_digits_chars: "base \<le> 16 \<Longrightarrow> c \<in> set (base_digits_of base n) \<Longrightarrow> \<exists>k < 16. c = hex_digit k"
proof (induction base n rule: base_digits_of.induct)
  case (1 base n)
  then have b: "\<not> (base < 2 \<or> n = 0)" and c: "c = hex_digit (n mod base) \<or> c \<in> set (base_digits_of base (n div base))"
    by (simp_all add: base_digits_of.simps [of base n] split: if_splits)
  have "n mod base < 16" using b 1(2) mod_less_divisor [of base n] by linarith
  with 1 b c show ?case by blast
qed

lemma base_digits_ne: "2 \<le> base \<Longrightarrow> n \<noteq> 0 \<Longrightarrow> base_digits_of base n \<noteq> []"
  by (subst base_digits_of.simps) simp

definition digits_val :: "string \<Rightarrow> int \<Rightarrow> int" where
  "digits_val cs v = foldl (\<lambda>a c. 16 * a + uint (phexdigit c)) v cs"

lemma digits_val_text: "digits_val (rev (base_digits_of 16 n)) 0 = int n"
proof (induction "16 :: nat" n rule: base_digits_of.induct)
  case (1 n)
  have "uint (phexdigit (hex_digit (n mod 16))) = int (n mod 16)"
    using hex_digits [of "n mod 16"] by (simp add: unat_of_nat uint_nat)
  with 1 show ?case
    by (subst base_digits_of.simps) (simp add: digits_val_def zdiv_int zmod_int)
qed

context openssl_bn
begin

lemma ToString_loop_digits:
  assumes "val bnBase = int base" and "2 \<le> base" and "base \<le> 16"
  shows "0 \<le> val b \<Longrightarrow> ToString_loop bn bnBase b str = Some (str @ base_digits_of base (nat (val b)))"
proof (induction "nat (val b)" arbitrary: b str rule: less_induct)
  case less
  have c: "BN_cmp bn b (setulong bn 0) > 0 \<longleftrightarrow> val b > 0"
    using cmp [of b "setulong bn 0"] by (auto simp: val_setulong sgn_if split: if_splits)
  show ?case
  proof (cases "val b > 0")
    case False
    with less.prems have "val b = 0" by simp
    then show ?thesis using c by (simp add: ToString_loop.simps base_digits_of.simps)
  next
    case True
    have "val bnBase \<noteq> 0" using assms by simp
    then obtain q r where d: "BN_div bn b bnBase = Some (q, r)"
      and q: "val q = val b div int base" and r: "val r = val b mod int base"
      using div [of b bnBase] True assms by (auto simp: Let_def minus_div_mult_eq_mod)
    have less': "nat (val q) < nat (val b)" "0 \<le> val q"
      using True assms q by (simp_all add: nat_less_iff int_div_less_self pos_imp_zdiv_nonneg_iff)
    have "0 \<le> val b mod int base" "val b mod int base < int base" using assms by simp_all
    then have "0 \<le> val r" "val r < 16" using assms r pos_mod_bound [of "int base" "val b"] by linarith+
    then have g: "unat (getulong bn r) = nat (val b) mod base"
      using get_word [of r] True r
      by (simp add: getulong_def unat_eq_nat_uint nat_mod_distrib)
    have n: "nat (val q) = nat (val b) div base" using True q by (simp add: nat_div_distrib)
    show ?thesis
      using less.hyps [OF less'] c True assms
      by (subst ToString_loop.simps) (simp add: d g n base_digits_of.simps [of base "nat (val b)"])
  qed
qed

lemma bn_ToString_text:
  assumes "uint nBase = int base" and "2 \<le> base" and "base \<le> 16"
  shows "bn_ToString bn nBase n = Some (number_text base (val n))"
proof -
  define b where "b = BN_set_negative bn n False"
  have b: "val b = \<bar>val n\<bar>" by (simp add: b_def set_negative)
  have c: "BN_cmp bn b (setulong bn 0) = 0 \<longleftrightarrow> val n = 0"
    using cmp [of b "setulong bn 0"] b by (auto simp: val_setulong sgn_if split: if_splits)
  have "val (setulong bn nBase) = int base" using assms by (simp add: val_setulong)
  from ToString_loop_digits [OF this assms(2,3), of b "''''"] show ?thesis
    by (auto simp: bn_ToString_def Let_def b_def [symmetric] b c number_text_def is_negative)
qed

lemma SetHex_loop_val:
  "list_all c_isxdigit cs \<Longrightarrow> \<exists>r. SetHex_loop bn b cs = Some r \<and> val r = digits_val cs (val b)"
proof (induction cs arbitrary: b)
  case (Cons c cs)
  obtain s where s: "bn_shl bn b 4 = Some s" "val s = val b * 16"
    using val_bn_ops(4) [of b 4] by auto
  obtain t where t: "bn_add bn s (setulong bn (ucast (phexdigit c))) = Some t"
    "val t = val s + uint (ucast (phexdigit c) :: u64)"
    using val_bn_ops(1) [of s "setulong bn (ucast (phexdigit c))"] by (auto simp: val_setulong)
  have "uint (ucast (phexdigit c) :: u64) = uint (phexdigit c)" by (rule uint_up_ucast) (simp add: is_up)
  with Cons.IH [of t] Cons.prems s t show ?case by (simp add: digits_val_def mult.commute)
qed (simp add: digits_val_def)

lemma SetHex_text: "\<exists>r. bn_SetHex bn (number_text 16 n) = Some r \<and> val r = n"
proof (cases "n = 0")
  case True
  have "SetHex_loop bn (setulong bn 0) ''0'' = Some r \<Longrightarrow> val r = 0" for r
    using SetHex_loop_val [of "''0''" "setulong bn 0"]
    by (auto simp: digits_val_def val_setulong c_isxdigit_def of_char_def phexdigit_def phexdigit_table_def)
  moreover have "\<exists>r. SetHex_loop bn (setulong bn 0) ''0'' = Some r"
    using SetHex_loop_val [of "''0''" "setulong bn 0"] by (auto simp: c_isxdigit_def of_char_def)
  ultimately show ?thesis using True
    by (auto simp: bn_SetHex_def number_text_def c_isspace_def of_char_def skip_0x_def)
next
  case False
  define ds where "ds = rev (base_digits_of 16 (nat \<bar>n\<bar>))"
  have ne: "ds \<noteq> []" using False base_digits_ne [of 16 "nat \<bar>n\<bar>"] by (simp add: ds_def)
  have "c_isxdigit c \<and> c \<noteq> CHR ''-'' \<and> \<not> c_isspace c \<and> c \<noteq> CHR ''x'' \<and> c \<noteq> CHR ''X''" if "c \<in> set ds" for c
    using that base_digits_chars [of 16 c "nat \<bar>n\<bar>"] hex_digit_props hex_digits by (auto simp: ds_def)
  note ch = this
  have skip: "skip_0x ds = ds" using ch by (auto simp: skip_0x_def split: list.split)
  have sp: "dropWhile c_isspace ds = ds" using ch ne by (cases ds) auto
  have minus: "\<not> c_isspace CHR ''-''" by (simp add: c_isspace_def of_char_def)
  obtain r where r: "SetHex_loop bn (setulong bn 0) ds = Some r" "val r = digits_val ds 0"
    using SetHex_loop_val [of ds "setulong bn 0"] ch by (auto simp: list_all_iff val_setulong)
  have v: "val r = \<bar>n\<bar>" using r(2) by (simp add: ds_def digits_val_text)
  show ?thesis
  proof (cases "n < 0")
    case True
    obtain t where "bn_sub bn (setulong bn 0) r = Some t" "val t = - val r"
      using val_bn_ops(2) [of "setulong bn 0" r] by (auto simp: val_setulong)
    moreover have "number_text 16 n = CHR ''-'' # ds" using True by (simp add: number_text_def ds_def)
    ultimately show ?thesis using True v r(1)
      by (simp add: bn_SetHex_def minus skip sp Let_def)
  next
    case nonneg: False
    obtain c cs where "ds = c # cs" "c \<noteq> CHR ''-''" using ne ch by (cases ds) auto
    moreover have "number_text 16 n = ds" using False nonneg by (simp add: number_text_def ds_def)
    ultimately show ?thesis using nonneg v r(1) sp skip
      by (simp add: bn_SetHex_def Let_def)
  qed
qed

end

end
