(* ===== verification/Serialize_Props.thy ===== *)
theory Serialize_Props
  imports Serialize
begin

text \<open>
  The contract of a serialization and the types that keep it: what was written is read back, an
  object has one encoding, and the size that is announced is the size that is written.
\<close>

locale serializable =
  fixes ser :: "'a \<Rightarrow> byte list"
    and unser :: "'a reader"
    and sz :: "'a \<Rightarrow> nat"
    and ok :: "'a \<Rightarrow> bool"
  assumes read_write: "ok x \<Longrightarrow> unser (ser x @ s) = Some (x, s)"
    and write_read: "unser b = Some (x, s) \<Longrightarrow> ok x \<and> b = ser x @ s"
    and size: "ok x \<Longrightarrow> length (ser x) = sz x"

section \<open>Basic types\<close>

lemma READDATA_append: "length d = n \<Longrightarrow> READDATA n (d @ s) = Some (d, s)"
  by (simp add: READDATA_def)

lemma READDATA_SomeD: "READDATA n b = Some (d, s) \<Longrightarrow> b = d @ s \<and> length d = n"
  by (auto simp: READDATA_def split: if_splits)

lemma serializable_flat:
  assumes "\<And>x. ok x \<Longrightarrow> length (ser x) = n" and "\<And>x. ok x \<Longrightarrow> dec (ser x) = x"
    and "\<And>d. length d = n \<Longrightarrow> ok (dec d) \<and> ser (dec d) = d"
  shows "serializable ser (\<lambda>s. do { (d, s) \<leftarrow> READDATA n s; Some (dec d, s) }) (\<lambda>_. n) ok"
proof
  fix x s b
  show "ok x \<Longrightarrow> (do { (d, s) \<leftarrow> READDATA n (ser x @ s); Some (dec d, s) }) = Some (x, s)"
    using assms(1,2) by (simp add: READDATA_append)
  show "ok x \<Longrightarrow> length (ser x) = n" by (rule assms(1))
  show "(do { (d, s) \<leftarrow> READDATA n b; Some (dec d, s) }) = Some (x, s) \<Longrightarrow> ok x \<and> b = ser x @ s"
    using assms(3) by (auto dest!: READDATA_SomeD split: Option.bind_splits)
qed

lemma length_1_ex: "length d = Suc 0 \<Longrightarrow> [d ! 0] = d"
  by (cases d) auto

lemma length_2_ex: "length d = 2 \<Longrightarrow> d = [d ! 0, d ! 1]"
  by (cases d; cases "tl d") auto

lemma load_store16:
  "(ucast (ucast a :: byte) OR push_bit 8 (ucast (ucast (drop_bit 8 a) :: byte)) :: u16) = a"
  "ucast (ucast (x :: byte) OR push_bit 8 (ucast y) :: u16) = x"
  "ucast (drop_bit 8 (ucast (x :: byte) OR push_bit 8 (ucast y) :: u16)) = (y :: byte)"
  by (rule bit_word_eqI, auto simp: bit_simps dest: bit_imp_le_length)+

interpretation ser_u8: serializable Serialize_u8 Unserialize_u8 "\<lambda>_. 1" "\<lambda>_. True"
  unfolding Unserialize_u8_def [abs_def]
  by (rule serializable_flat) (auto simp: Serialize_u8_def length_1_ex)

interpretation ser_u16: serializable Serialize_u16 Unserialize_u16 "\<lambda>_. 2" "\<lambda>_. True"
  unfolding Unserialize_u16_def [abs_def]
proof (rule serializable_flat)
  fix d :: "byte list" assume "length d = 2"
  then obtain x y where "d = [x, y]" using length_2_ex by blast
  then show "True \<and> Serialize_u16 (ucast (d ! 0) OR push_bit 8 (ucast (d ! 1))) = d"
    using load_store16(2,3) [of x y] by (simp add: Serialize_u16_def del: drop_bit_or)
qed (simp_all add: Serialize_u16_def load_store16)

interpretation ser_u32: serializable Serialize_u32 Unserialize_u32 "\<lambda>_. 4" "\<lambda>_. True"
  unfolding Unserialize_u32_def [abs_def]
  by (rule serializable_flat)
    (auto simp: Serialize_u32_def native_store_eq native_load32_eq sph_dec32le_enc32le sph_enc32le_dec32le)

interpretation ser_u64: serializable Serialize_u64 Unserialize_u64 "\<lambda>_. 8" "\<lambda>_. True"
  unfolding Unserialize_u64_def [abs_def]
  by (rule serializable_flat)
    (auto simp: Serialize_u64_def native_store_eq native_load64_eq sph_dec64le_enc64le sph_enc64le_dec64le)

lemma length_bu_of_bytes: "length bs = 4 * n \<Longrightarrow> length (bu_of_bytes bs) = n"
  using length_bu_bytes [of "bu_of_bytes bs"] by (simp add: bu_bytes_of_bytes)

interpretation ser_uint256: serializable Serialize_uint256 Unserialize_uint256 "\<lambda>_. 32" "\<lambda>a. length a = 8"
  unfolding Unserialize_uint256_def [abs_def]
  by (rule serializable_flat)
    (auto simp: Serialize_uint256_def bu_of_bytes_bytes bu_bytes_of_bytes [where n = 8] length_bu_of_bytes [where n = 8])

section \<open>Compact sizes\<close>

lemma ucast_ucast_small:
  fixes n :: u64
  shows "n \<le> 0xffff \<Longrightarrow> ucast (ucast n :: u16) = n" and "n \<le> 0xffffffff \<Longrightarrow> ucast (ucast n :: u32) = n"
    and "n < 253 \<Longrightarrow> ucast (ucast n :: byte) = n"
proof -
  have "unat (ucast (ucast n :: u16) :: u64) = unat n mod 2 ^ 16" "unat (ucast (ucast n :: u32) :: u64) = unat n mod 2 ^ 32"
    "unat (ucast (ucast n :: byte) :: u64) = unat n mod 2 ^ 8"
    by (simp_all only: unsigned_ucast_eq) (simp_all add: take_bit_eq_mod unat_mod)
  then show "n \<le> 0xffff \<Longrightarrow> ucast (ucast n :: u16) = n" and "n \<le> 0xffffffff \<Longrightarrow> ucast (ucast n :: u32) = n"
    and "n < 253 \<Longrightarrow> ucast (ucast n :: byte) = n"
    by (simp_all add: word_unat_eq_iff word_le_nat_alt word_less_nat_alt)
qed

lemma ucast_up:
  "unat (ucast (x :: u16) :: u64) = unat x" "unat (ucast (y :: u32) :: u64) = unat y" "unat (ucast (c :: byte) :: u64) = unat c"
proof -
  have "unat x < 2 ^ 16" "unat y < 2 ^ 32" using unsigned_less [of x] unsigned_less [of y] by simp_all
  then have "unat x < 2 ^ 64" "unat y < 2 ^ 64" "unat c < 2 ^ 64" using unat_byte_less [of c] by simp_all
  then show "unat (ucast (x :: u16) :: u64) = unat x" "unat (ucast (y :: u32) :: u64) = unat y" "unat (ucast (c :: byte) :: u64) = unat c"
    by (simp_all only: unsigned_ucast_eq) (simp_all add: take_bit_nat_eq_self)
qed

lemma ucast_down:
  "ucast (ucast (x :: u16) :: u64) = x" "ucast (ucast (y :: u32) :: u64) = y" "ucast (ucast (c :: byte) :: u64) = c"
  by (rule bit_word_eqI, simp add: bit_simps)+

lemma compact_write_read:
  assumes "ReadCompactSize b = Some (n, s)"
  shows "n \<le> MAX_SIZE \<and> b = WriteCompactSize n @ s"
proof -
  obtain c t where c: "Unserialize_u8 b = Some (c, t)" using assms
    by (auto simp: ReadCompactSize_def split: Option.bind_splits)
  have b: "b = c # t" using ser_u8.write_read [OF c] by (simp add: Serialize_u8_def)
  have x: "unat x < 2 ^ 16" "unat y < 2 ^ 32" for x :: u16 and y :: u32
    using unsigned_less [of x] unsigned_less [of y] by simp_all
  have c255: "c = 255" if "\<not> c < 253" "c \<noteq> 253" "c \<noteq> 254"
    using that unat_byte_less [of c] by (simp add: word_unat_eq_iff word_less_nat_alt)
  consider "c < 253" "n = ucast c" "s = t"
    | x where "c = 253" "Unserialize_u16 t = Some (x, s)" "\<not> (ucast x :: u64) < 253" "n = ucast x"
    | y where "c = 254" "Unserialize_u32 t = Some (y, s)" "\<not> (ucast y :: u64) < 0x10000" "n = ucast y"
    | "c = 255" "Unserialize_u64 t = Some (n, s)" "\<not> n < 0x100000000"
  proof (cases "c < 253 \<or> c = 253 \<or> c = 254")
    case True
    then consider "c < 253" | "c = 253" | "c = 254" by blast
    then show thesis
    proof cases
      case 1
      then show thesis using assms c that(1) by (simp add: ReadCompactSize_def split: if_splits)
    next
      case 2
      then show thesis using assms c that(2) by (auto simp: ReadCompactSize_def split: if_splits Option.bind_splits)
    next
      case 3
      then show thesis using assms c that(3) by (auto simp: ReadCompactSize_def split: if_splits Option.bind_splits)
    qed
  next
    case False
    then show thesis using assms c c255 that(4) by (auto simp: ReadCompactSize_def split: if_splits Option.bind_splits)
  qed
  then have "b = WriteCompactSize n @ s"
  proof cases
    case 1
    then have "n < 253" by (simp add: word_less_nat_alt ucast_up)
    then show ?thesis using 1 by (simp add: WriteCompactSize_def Serialize_u8_def b ucast_down)
  next
    case (2 x)
    then have "\<not> n < 253" "n \<le> 0xffff" using x(1) [of x] by (simp_all add: word_le_nat_alt ucast_up)
    then show ?thesis using 2 ser_u16.write_read [OF 2(2)]
      by (simp add: WriteCompactSize_def Serialize_u8_def b ucast_down)
  next
    case (3 y)
    then have "\<not> n < 253" "\<not> n \<le> 0xffff" "n \<le> 0xffffffff" using x(2) [of y] by (simp_all add: word_le_nat_alt word_less_nat_alt ucast_up)
    then show ?thesis using 3 ser_u32.write_read [OF 3(2)]
      by (simp add: WriteCompactSize_def Serialize_u8_def b ucast_down)
  next
    case 4
    then have "\<not> n < 253" "\<not> n \<le> 0xffff" "\<not> n \<le> 0xffffffff" by (simp_all add: word_le_nat_alt word_less_nat_alt)
    then show ?thesis using 4 ser_u64.write_read [OF 4(2)]
      by (simp add: WriteCompactSize_def Serialize_u8_def b)
  qed
  moreover have "n \<le> MAX_SIZE" using assms by (auto simp: ReadCompactSize_def split: if_splits Option.bind_splits)
  ultimately show ?thesis by simp
qed

lemma compact_read_write:
  assumes "n \<le> MAX_SIZE"
  shows "ReadCompactSize (WriteCompactSize n @ s) = Some (n, s)"
proof -
  have u8: "Unserialize_u8 (c # t) = Some (c, t)" for c t
    using ser_u8.read_write [of c t] by (simp add: Serialize_u8_def)
  consider "n < 253" | "\<not> n < 253" "n \<le> 0xffff" | "\<not> n < 253" "\<not> n \<le> 0xffff" "n \<le> 0xffffffff" | "\<not> n \<le> 0xffffffff" "\<not> n \<le> 0xffff" "\<not> n < 253"
    by (fastforce simp: word_le_nat_alt word_less_nat_alt)
  then show ?thesis
  proof cases
    case 1
    then have "(ucast n :: byte) < 253" by (simp add: word_less_nat_alt unsigned_ucast_eq take_bit_nat_eq_self)
    then show ?thesis using 1 assms
      by (simp add: WriteCompactSize_def Serialize_u8_def ReadCompactSize_def u8 ucast_ucast_small)
  next
    case 2
    then show ?thesis using assms
      by (simp add: WriteCompactSize_def Serialize_u8_def ReadCompactSize_def u8 ser_u16.read_write ucast_ucast_small)
  next
    case 3
    then have "\<not> n < 0x10000" by (simp add: word_le_nat_alt word_less_nat_alt)
    then show ?thesis using 3 assms
      by (simp add: WriteCompactSize_def Serialize_u8_def ReadCompactSize_def u8 ser_u32.read_write ucast_ucast_small)
  next
    case 4
    then show ?thesis using assms by (simp add: MAX_SIZE_def word_le_nat_alt)
  qed
qed

interpretation ser_compact: serializable WriteCompactSize ReadCompactSize GetSizeOfCompactSize "\<lambda>n. n \<le> MAX_SIZE"
proof
  fix n s b
  show "n \<le> MAX_SIZE \<Longrightarrow> ReadCompactSize (WriteCompactSize n @ s) = Some (n, s)" by (rule compact_read_write)
  show "ReadCompactSize b = Some (n, s) \<Longrightarrow> n \<le> MAX_SIZE \<and> b = WriteCompactSize n @ s" by (rule compact_write_read)
  show "length (WriteCompactSize n) = GetSizeOfCompactSize n"
    using ser_u8.size ser_u16.size ser_u32.size ser_u64.size
    by (simp add: WriteCompactSize_def GetSizeOfCompactSize_def)
qed

section \<open>Vectors\<close>

lemma read_objects_add:
  "read_objects unser (a + b) s =
     Option.bind (read_objects unser a s) (\<lambda>(xs, s). Option.bind (read_objects unser b s) (\<lambda>(ys, s). Some (xs @ ys, s)))"
  by (induction a arbitrary: s) (auto simp: bind_eq_Some_conv split: Option.bind_split prod.splits)

lemma vec_loop_objects:
  assumes "0 < step" and "m \<le> n"
  shows "Unserialize_vec_loop unser step n m v s =
    Option.bind (read_objects unser (n - m) s) (\<lambda>(xs, s). Some (v @ xs, s))"
  using assms(2)
proof (induction "n - m" arbitrary: m v s rule: less_induct)
  case less
  show ?case
  proof (cases "m < n")
    case True
    define k where "k = (if m + step > n then n else m + step)"
    have k: "m < k" "k \<le> n" using True assms(1) by (auto simp: k_def)
    have "n - m = (k - m) + (n - k)" using k by simp
    then have o: "read_objects unser (n - m) s = Option.bind (read_objects unser (k - m) s)
        (\<lambda>(xs, s). Option.bind (read_objects unser (n - k) s) (\<lambda>(ys, s). Some (xs @ ys, s)))"
      by (simp only: read_objects_add)
    have "Unserialize_vec_loop unser step n m v s =
        Option.bind (read_objects unser (k - m) s) (\<lambda>(xs, s). Unserialize_vec_loop unser step n k (v @ xs) s)"
      using True assms(1) by (subst Unserialize_vec_loop.simps) (simp add: Let_def k_def)
    moreover have "Unserialize_vec_loop unser step n k (v @ xs) t =
        Option.bind (read_objects unser (n - k) t) (\<lambda>(ys, s). Some ((v @ xs) @ ys, s))" for xs t
      using k by (intro less.hyps) simp_all
    note step' = calculation this
    show ?thesis
    proof (cases "read_objects unser (k - m) s")
      case (Some p)
      obtain xs t where p: "p = (xs, t)" by fastforce
      with Some step' show ?thesis
        by (cases "read_objects unser (n - k) t") (auto simp: o split: Option.bind_split)
    qed (simp add: step' o)
  next
    case False
    then show ?thesis using less.prems by (subst Unserialize_vec_loop.simps) simp
  qed
qed

lemma bytes_loop_data:
  assumes "i \<le> n"
  shows "Unserialize_bytes_loop n i v s = Option.bind (READDATA (n - i) s) (\<lambda>(d, s). Some (v @ d, s))"
  using assms
proof (induction "n - i" arbitrary: i v s rule: less_induct)
  case less
  show ?case
  proof (cases "i < n")
    case True
    define blk where "blk = min (n - i) (1 + 4999999 :: nat)"
    have b: "0 < blk" "i + blk \<le> n" using True by (auto simp: blk_def)
    have "Unserialize_bytes_loop n i v s =
        Option.bind (READDATA blk s) (\<lambda>(d, s). Unserialize_bytes_loop n (i + blk) (v @ d) s)"
      using True by (subst Unserialize_bytes_loop.simps) (simp only: Let_def blk_def if_True)
    moreover have "Unserialize_bytes_loop n (i + blk) (v @ d) t =
        Option.bind (READDATA (n - (i + blk)) t) (\<lambda>(e, s). Some ((v @ d) @ e, s))" for d t
      using b True by (intro less.hyps) simp_all
    moreover have "n - i = blk + (n - (i + blk))" using b by simp
    then have "take (n - i) s = take blk s @ take (n - (i + blk)) (drop blk s)" "drop (n - i) s = drop (n - (i + blk)) (drop blk s)"
      using take_add [of blk "n - (i + blk)" s] by (simp_all add: add.commute)
    ultimately show ?thesis using b by (auto simp: READDATA_def)
  next
    case False
    then show ?thesis using less.prems by (subst Unserialize_bytes_loop.simps) (simp add: READDATA_def)
  qed
qed

lemma compact_length:
  assumes "n \<le> 2 ^ 25"
  shows "(of_nat n :: u64) \<le> MAX_SIZE" and "unat (ucast (of_nat n :: u64) :: u32) = n"
  using assms by (simp_all add: MAX_SIZE_def word_le_nat_alt unat_of_nat unsigned_ucast_eq take_bit_eq_mod)

lemma compact_length':
  assumes "n \<le> MAX_SIZE"
  shows "of_nat (unat (ucast n :: u32)) = n" and "unat (ucast n :: u32) \<le> 2 ^ 25"
proof -
  have n: "unat n \<le> 2 ^ 25" using assms by (simp add: MAX_SIZE_def word_le_nat_alt)
  then have u: "unat (ucast n :: u32) = unat n"
    by (simp only: unsigned_ucast_eq) (simp add: take_bit_nat_eq_self)
  then show "of_nat (unat (ucast n :: u32)) = n" by (simp only: u) simp
  show "unat (ucast n :: u32) \<le> 2 ^ 25" using n u by simp
qed

lemma read_bytes:
  "Unserialize_bytes s = Option.bind (ReadCompactSize s) (\<lambda>(n, s). READDATA (unat (ucast n :: u32)) s)"
  by (auto simp: Unserialize_bytes_def bytes_loop_data split: Option.bind_split)

interpretation ser_bytes: serializable Serialize_bytes Unserialize_bytes GetSerializeSize_bytes "\<lambda>v. length v \<le> 2 ^ 25"
proof
  fix v s b :: "byte list"
  show "Unserialize_bytes (Serialize_bytes v @ s) = Some (v, s)" if "length v \<le> 2 ^ 25"
    using compact_length [OF that] by (simp add: read_bytes Serialize_bytes_def ser_compact.read_write READDATA_append)
  show "length v \<le> 2 ^ 25 \<and> b = Serialize_bytes v @ s" if r: "Unserialize_bytes b = Some (v, s)"
  proof -
    obtain n t where n: "ReadCompactSize b = Some (n, t)" "READDATA (unat (ucast n :: u32)) t = Some (v, s)"
      using r by (auto simp: read_bytes split: Option.bind_splits)
    have "n \<le> MAX_SIZE" "b = WriteCompactSize n @ t" using ser_compact.write_read [OF n(1)] by simp_all
    then show ?thesis using READDATA_SomeD [OF n(2)] compact_length' [of n] by (simp add: Serialize_bytes_def)
  qed
  show "length (Serialize_bytes v) = GetSerializeSize_bytes v" if "length v \<le> 2 ^ 25"
    using ser_compact.size [OF compact_length(1) [OF that]] by (simp add: Serialize_bytes_def GetSerializeSize_bytes_def)
qed

context serializable
begin

lemma read_objects_write:
  "list_all ok v \<Longrightarrow> read_objects unser (length v) (concat (map ser v) @ s) = Some (v, s)"
  by (induction v) (simp_all add: read_write)

lemma write_read_objects:
  "read_objects unser n b = Some (v, s) \<Longrightarrow> list_all ok v \<and> length v = n \<and> b = concat (map ser v) @ s"
proof (induction n arbitrary: b v)
  case (Suc n)
  then obtain x t xs where x: "unser b = Some (x, t)" and xs: "read_objects unser n t = Some (xs, s)" "v = x # xs"
    by (auto split: Option.bind_splits)
  from write_read [OF x] Suc.IH [OF xs(1)] xs(2) show ?case by simp
qed simp

lemma serializable_vec:
  assumes "0 < step"
  shows "serializable (Serialize_vec ser) (Unserialize_vec unser step) (GetSerializeSize_vec sz)
    (\<lambda>v. length v \<le> 2 ^ 25 \<and> list_all ok v)"
proof
  have r: "Unserialize_vec unser step s = Option.bind (ReadCompactSize s)
      (\<lambda>(n, s). read_objects unser (unat (ucast n :: u32)) s)" for s
    using assms by (auto simp: Unserialize_vec_def vec_loop_objects split: Option.bind_split)
  fix v s b
  show "Unserialize_vec unser step (Serialize_vec ser v @ s) = Some (v, s)" if "length v \<le> 2 ^ 25 \<and> list_all ok v"
    using that compact_length [of "length v"]
    by (simp add: r Serialize_vec_def ser_compact.read_write read_objects_write)
  show "(length v \<le> 2 ^ 25 \<and> list_all ok v) \<and> b = Serialize_vec ser v @ s" if rd: "Unserialize_vec unser step b = Some (v, s)"
  proof -
    obtain n t where n: "ReadCompactSize b = Some (n, t)" "read_objects unser (unat (ucast n :: u32)) t = Some (v, s)"
      using rd by (auto simp: r split: Option.bind_splits)
    have "n \<le> MAX_SIZE" "b = WriteCompactSize n @ t" using ser_compact.write_read [OF n(1)] by simp_all
    then show ?thesis using write_read_objects [OF n(2)] compact_length' [of n] by (auto simp: Serialize_vec_def)
  qed
  have "list_all ok v \<Longrightarrow> length (concat (map ser v)) = sum_list (map sz v)" for v
    by (induction v) (simp_all add: size)
  then show "length (Serialize_vec ser v) = GetSerializeSize_vec sz v" if "length v \<le> 2 ^ 25 \<and> list_all ok v"
    using that ser_compact.size [OF compact_length(1) [of "length v"]]
    by (simp add: Serialize_vec_def GetSerializeSize_vec_def)
qed

end

interpretation ser_vec_uint256: serializable "Serialize_vec Serialize_uint256" "Unserialize_vec Unserialize_uint256 156250"
  "GetSerializeSize_vec (\<lambda>_. 32)" "\<lambda>v. length v \<le> 2 ^ 25 \<and> list_all (\<lambda>a. length a = 8) v"
  by (rule ser_uint256.serializable_vec) simp

section \<open>Variable-length integers\<close>

lemma varint_digit:
  fixes n :: u64
  defines "d \<equiv> \<lambda>first. ucast (n AND 0x7F) OR (if first then 0x00 else 0x80) :: byte"
  shows "d first AND 0x80 \<noteq> 0 \<longleftrightarrow> \<not> first" and "push_bit 7 (drop_bit 7 n) OR ucast (d first AND 0x7F) = n"
    and "n \<le> 0x7F \<Longrightarrow> drop_bit 7 n = 0"
proof -
  have m: "(0x7F :: u64) = mask 7" "(0x7F :: byte) = mask 7" by (simp_all add: mask_eq_exp_minus_1)
  have b: "bit (d first) i \<longleftrightarrow> (if i < 7 then bit n i else i = 7 \<and> \<not> first)" for i
    unfolding d_def m(1)
    by (auto simp: bit_or_iff bit_ucast_iff bit_and_iff bit_mask_iff bit_sign_byte simp del: bit_numeral_word_iff dest: bit_imp_le_length)
  show "d first AND 0x80 \<noteq> 0 \<longleftrightarrow> \<not> first"
    using and_exp_eq_0_iff_not_bit [of "d first" 7] b [of 7] by simp
  show "push_bit 7 (drop_bit 7 n) OR ucast (d first AND 0x7F) = n"
  proof (rule bit_word_eqI)
    fix i assume "i < LENGTH(64)"
    then show "bit (push_bit 7 (drop_bit 7 n) OR ucast (d first AND 0x7F)) i = bit n i"
      unfolding m(2) by (simp add: bit_or_iff bit_push_bit_iff bit_drop_bit_eq bit_ucast_iff bit_and_iff b bit_mask_iff)
  qed
  show "drop_bit 7 n = 0" if "n \<le> 0x7F"
    using that by (simp only: word_unat_eq_iff unat_drop_bit_eq) (simp add: word_le_nat_alt drop_bit_eq_div)
qed

lemma read_varint_loop:
  "ReadVarInt_loop 0 (rev (VarInt_digits first n) @ s) =
     (if first then Some (n, s) else ReadVarInt_loop (n + 1) s)"
proof (induction first n arbitrary: s rule: VarInt_digits.induct)
  case (1 first n)
  show ?case
  proof (cases "n \<le> 0x7F")
    case True
    then show ?thesis using varint_digit(1,2) [of n first] varint_digit(3) [of n]
      by (subst VarInt_digits.simps) (simp add: Let_def)
  next
    case False
    have "drop_bit 7 n - 1 + 1 = drop_bit 7 n" by simp
    then show ?thesis using False 1 varint_digit(1,2) [of n first]
      by (subst VarInt_digits.simps) (simp add: Let_def)
  qed
qed

lemma length_VarInt_digits: "length (VarInt_digits first n) = GetSizeOfVarInt n"
  by (induction first n rule: VarInt_digits.induct)
    (subst VarInt_digits.simps, subst GetSizeOfVarInt.simps, simp)

lemma GetSizeOfVarInt_bound: "unat n < 2 ^ (7 * Suc k) \<Longrightarrow> GetSizeOfVarInt n \<le> Suc k"
proof (induction k arbitrary: n)
  case 0
  then have "n \<le> 0x7F" by (simp add: word_le_nat_alt)
  then show ?case by (subst GetSizeOfVarInt.simps) simp
next
  case (Suc k)
  show ?case
  proof (cases "n \<le> 0x7F")
    case True
    then show ?thesis by (subst GetSizeOfVarInt.simps) simp
  next
    case False
    have "unat n < 128 * 2 ^ (7 * Suc k)" using Suc.prems by (simp add: power_add)
    then have "unat n div 128 < 2 ^ (7 * Suc k)" by (intro less_mult_imp_div_less) (simp add: mult.commute)
    then have "unat (drop_bit 7 n - 1) < 2 ^ (7 * Suc k)" using varint_decreases [OF False] by linarith
    from Suc.IH [OF this] show ?thesis using False by (subst GetSizeOfVarInt.simps) simp
  qed
qed

end
