(* ===== verification/Script.thy ===== *)
theory Script
  imports Bignum_Text Serialize_Props
begin

text \<open>
  The model of \<open>src/src/script.h\<close>, the class \<open>CScript\<close> and the class \<open>CScriptNum\<close>. A script
  is its list of bytes; an iterator into a script is the list of the bytes from there on, so
  \<open>GetOp\<close> takes the bytes left and returns the opcode, the data of a push and the bytes behind,
  or \<open>None\<close> when the script ends inside an instruction (every caller stops there). The values
  of \<open>opcodetype\<close> are the bytes themselves. Scripts are shorter than \<open>2\<^sup>3\<^sup>2\<close> bytes.
\<close>

type_synonym valtype = "byte list"
type_synonym CScript = "byte list"

section \<open>Opcodes\<close>

abbreviation OP_0 :: byte where "OP_0 \<equiv> 0x00"
abbreviation OP_PUSHDATA1 :: byte where "OP_PUSHDATA1 \<equiv> 0x4c"
abbreviation OP_PUSHDATA2 :: byte where "OP_PUSHDATA2 \<equiv> 0x4d"
abbreviation OP_PUSHDATA4 :: byte where "OP_PUSHDATA4 \<equiv> 0x4e"
abbreviation OP_1NEGATE :: byte where "OP_1NEGATE \<equiv> 0x4f"
abbreviation OP_1 :: byte where "OP_1 \<equiv> 0x51"
abbreviation OP_16 :: byte where "OP_16 \<equiv> 0x60"
abbreviation OP_NOP :: byte where "OP_NOP \<equiv> 0x61"
abbreviation OP_IF :: byte where "OP_IF \<equiv> 0x63"
abbreviation OP_NOTIF :: byte where "OP_NOTIF \<equiv> 0x64"
abbreviation OP_ELSE :: byte where "OP_ELSE \<equiv> 0x67"
abbreviation OP_ENDIF :: byte where "OP_ENDIF \<equiv> 0x68"
abbreviation OP_VERIFY :: byte where "OP_VERIFY \<equiv> 0x69"
abbreviation OP_RETURN :: byte where "OP_RETURN \<equiv> 0x6a"
abbreviation OP_TOALTSTACK :: byte where "OP_TOALTSTACK \<equiv> 0x6b"
abbreviation OP_FROMALTSTACK :: byte where "OP_FROMALTSTACK \<equiv> 0x6c"
abbreviation OP_2DROP :: byte where "OP_2DROP \<equiv> 0x6d"
abbreviation OP_2DUP :: byte where "OP_2DUP \<equiv> 0x6e"
abbreviation OP_3DUP :: byte where "OP_3DUP \<equiv> 0x6f"
abbreviation OP_2OVER :: byte where "OP_2OVER \<equiv> 0x70"
abbreviation OP_2ROT :: byte where "OP_2ROT \<equiv> 0x71"
abbreviation OP_2SWAP :: byte where "OP_2SWAP \<equiv> 0x72"
abbreviation OP_IFDUP :: byte where "OP_IFDUP \<equiv> 0x73"
abbreviation OP_DEPTH :: byte where "OP_DEPTH \<equiv> 0x74"
abbreviation OP_DROP :: byte where "OP_DROP \<equiv> 0x75"
abbreviation OP_DUP :: byte where "OP_DUP \<equiv> 0x76"
abbreviation OP_NIP :: byte where "OP_NIP \<equiv> 0x77"
abbreviation OP_OVER :: byte where "OP_OVER \<equiv> 0x78"
abbreviation OP_PICK :: byte where "OP_PICK \<equiv> 0x79"
abbreviation OP_ROLL :: byte where "OP_ROLL \<equiv> 0x7a"
abbreviation OP_ROT :: byte where "OP_ROT \<equiv> 0x7b"
abbreviation OP_SWAP :: byte where "OP_SWAP \<equiv> 0x7c"
abbreviation OP_TUCK :: byte where "OP_TUCK \<equiv> 0x7d"
abbreviation OP_CAT :: byte where "OP_CAT \<equiv> 0x7e"
abbreviation OP_SUBSTR :: byte where "OP_SUBSTR \<equiv> 0x7f"
abbreviation OP_LEFT :: byte where "OP_LEFT \<equiv> 0x80"
abbreviation OP_RIGHT :: byte where "OP_RIGHT \<equiv> 0x81"
abbreviation OP_SIZE :: byte where "OP_SIZE \<equiv> 0x82"
abbreviation OP_INVERT :: byte where "OP_INVERT \<equiv> 0x83"
abbreviation OP_AND :: byte where "OP_AND \<equiv> 0x84"
abbreviation OP_OR :: byte where "OP_OR \<equiv> 0x85"
abbreviation OP_XOR :: byte where "OP_XOR \<equiv> 0x86"
abbreviation OP_EQUAL :: byte where "OP_EQUAL \<equiv> 0x87"
abbreviation OP_EQUALVERIFY :: byte where "OP_EQUALVERIFY \<equiv> 0x88"
abbreviation OP_1ADD :: byte where "OP_1ADD \<equiv> 0x8b"
abbreviation OP_1SUB :: byte where "OP_1SUB \<equiv> 0x8c"
abbreviation OP_2MUL :: byte where "OP_2MUL \<equiv> 0x8d"
abbreviation OP_2DIV :: byte where "OP_2DIV \<equiv> 0x8e"
abbreviation OP_NEGATE :: byte where "OP_NEGATE \<equiv> 0x8f"
abbreviation OP_ABS :: byte where "OP_ABS \<equiv> 0x90"
abbreviation OP_NOT :: byte where "OP_NOT \<equiv> 0x91"
abbreviation OP_0NOTEQUAL :: byte where "OP_0NOTEQUAL \<equiv> 0x92"
abbreviation OP_ADD :: byte where "OP_ADD \<equiv> 0x93"
abbreviation OP_SUB :: byte where "OP_SUB \<equiv> 0x94"
abbreviation OP_MUL :: byte where "OP_MUL \<equiv> 0x95"
abbreviation OP_DIV :: byte where "OP_DIV \<equiv> 0x96"
abbreviation OP_MOD :: byte where "OP_MOD \<equiv> 0x97"
abbreviation OP_LSHIFT :: byte where "OP_LSHIFT \<equiv> 0x98"
abbreviation OP_RSHIFT :: byte where "OP_RSHIFT \<equiv> 0x99"
abbreviation OP_BOOLAND :: byte where "OP_BOOLAND \<equiv> 0x9a"
abbreviation OP_BOOLOR :: byte where "OP_BOOLOR \<equiv> 0x9b"
abbreviation OP_NUMEQUAL :: byte where "OP_NUMEQUAL \<equiv> 0x9c"
abbreviation OP_NUMEQUALVERIFY :: byte where "OP_NUMEQUALVERIFY \<equiv> 0x9d"
abbreviation OP_NUMNOTEQUAL :: byte where "OP_NUMNOTEQUAL \<equiv> 0x9e"
abbreviation OP_LESSTHAN :: byte where "OP_LESSTHAN \<equiv> 0x9f"
abbreviation OP_GREATERTHAN :: byte where "OP_GREATERTHAN \<equiv> 0xa0"
abbreviation OP_LESSTHANOREQUAL :: byte where "OP_LESSTHANOREQUAL \<equiv> 0xa1"
abbreviation OP_GREATERTHANOREQUAL :: byte where "OP_GREATERTHANOREQUAL \<equiv> 0xa2"
abbreviation OP_MIN :: byte where "OP_MIN \<equiv> 0xa3"
abbreviation OP_MAX :: byte where "OP_MAX \<equiv> 0xa4"
abbreviation OP_WITHIN :: byte where "OP_WITHIN \<equiv> 0xa5"
abbreviation OP_RIPEMD160 :: byte where "OP_RIPEMD160 \<equiv> 0xa6"
abbreviation OP_SHA1 :: byte where "OP_SHA1 \<equiv> 0xa7"
abbreviation OP_SHA256 :: byte where "OP_SHA256 \<equiv> 0xa8"
abbreviation OP_HASH160 :: byte where "OP_HASH160 \<equiv> 0xa9"
abbreviation OP_HASH256 :: byte where "OP_HASH256 \<equiv> 0xaa"
abbreviation OP_CODESEPARATOR :: byte where "OP_CODESEPARATOR \<equiv> 0xab"
abbreviation OP_CHECKSIG :: byte where "OP_CHECKSIG \<equiv> 0xac"
abbreviation OP_CHECKSIGVERIFY :: byte where "OP_CHECKSIGVERIFY \<equiv> 0xad"
abbreviation OP_CHECKMULTISIG :: byte where "OP_CHECKMULTISIG \<equiv> 0xae"
abbreviation OP_CHECKMULTISIGVERIFY :: byte where "OP_CHECKMULTISIGVERIFY \<equiv> 0xaf"
abbreviation OP_NOP1 :: byte where "OP_NOP1 \<equiv> 0xb0"
abbreviation OP_NOP2 :: byte where "OP_NOP2 \<equiv> 0xb1"
abbreviation OP_NOP3 :: byte where "OP_NOP3 \<equiv> 0xb2"
abbreviation OP_NOP9 :: byte where "OP_NOP9 \<equiv> 0xb8"
abbreviation OP_ANON_MARKER :: byte where "OP_ANON_MARKER \<equiv> 0xb9"
abbreviation OP_INVALIDOPCODE :: byte where "OP_INVALIDOPCODE \<equiv> 0xff"

section \<open>Reading a script\<close>

definition GetOp2 :: "CScript \<Rightarrow> (byte \<times> valtype \<times> CScript) option" where
  "GetOp2 pc =
     (case pc of [] \<Rightarrow> None
      | opcode # pc \<Rightarrow>
          if opcode \<le> OP_PUSHDATA4 then
            do {
              (nSize, pc) \<leftarrow>
                (if opcode < OP_PUSHDATA1 then Some (unat opcode, pc)
                 else if opcode = OP_PUSHDATA1 then
                   (if length pc < 1 then None else Some (unat (pc ! 0), drop 1 pc))
                 else if opcode = OP_PUSHDATA2 then
                   (if length pc < 2 then None
                    else Some (unat (ucast (pc ! 0) OR push_bit 8 (ucast (pc ! 1)) :: u32), drop 2 pc))
                 else
                   (if length pc < 4 then None else Some (unat (native_load32 (take 4 pc)), drop 4 pc)));
              if length pc < nSize then None else Some (opcode, take nSize pc, drop nSize pc)
            }
          else Some (opcode, [], pc))"

lemma GetOp2_shorter: "GetOp2 pc = Some (opcode, vch, pc') \<Longrightarrow> length pc' < length pc"
  by (auto simp: GetOp2_def split: list.splits if_splits Option.bind_splits)

definition DecodeOP_N :: "byte \<Rightarrow> int option" where
  "DecodeOP_N opcode =
     (if opcode = OP_0 then Some 0
      else if opcode \<ge> OP_1 \<and> opcode \<le> OP_16 then Some (uint opcode - (uint OP_1 - 1))
      else None)"

definition EncodeOP_N :: "int \<Rightarrow> byte option" where
  "EncodeOP_N n =
     (if \<not> (n \<ge> 0 \<and> n \<le> 16) then None
      else if n = 0 then Some OP_0
      else Some (word_of_int (uint OP_1 + n - 1)))"

text \<open>
  The bytes from a position on with every occurrence of \<open>b\<close> that starts there deleted, and the
  number of occurrences; the loop of \<open>FindAndDelete\<close> keeps the bytes of an instruction and goes
  on behind it, and stops when there is no instruction any more.
\<close>

function erase_prefixes :: "CScript \<Rightarrow> CScript \<Rightarrow> nat \<times> CScript" where
  "erase_prefixes b pc =
     (if b \<noteq> [] \<and> length b \<le> length pc \<and> take (length b) pc = b then
        (let (nFound, pc) = erase_prefixes b (drop (length b) pc) in (Suc nFound, pc))
      else (0, pc))"
  by pat_completeness auto
termination
proof (relation "measure (\<lambda>(_, pc). length pc)", goal_cases)
  case (2 b pc)
  then have "0 < length b" "length b \<le> length pc" by auto
  then have "length pc - length b < length pc" by linarith
  then show ?case by simp
qed simp

declare erase_prefixes.simps [simp del]

lemma erase_prefixes_shorter: "length (snd (erase_prefixes b pc)) \<le> length pc"
proof (induction b pc rule: erase_prefixes.induct)
  case (1 b pc)
  show ?case
  proof (cases "b \<noteq> [] \<and> length b \<le> length pc \<and> take (length b) pc = b")
    case True
    with 1 have "length (snd (erase_prefixes b (drop (length b) pc))) \<le> length pc" by simp
    then show ?thesis using True by (auto simp: erase_prefixes.simps [of b pc] split: prod.split)
  next
    case False
    then show ?thesis by (subst erase_prefixes.simps) (simp only: if_False snd_conv)
  qed
qed

function FindAndDelete_loop :: "CScript \<Rightarrow> CScript \<Rightarrow> nat \<times> CScript" where
  "FindAndDelete_loop b pc =
     (let (n, pc) = erase_prefixes b pc
      in case GetOp2 pc of None \<Rightarrow> (n, pc)
         | Some (opcode, vch, pc') \<Rightarrow>
             (let (m, rest) = FindAndDelete_loop b pc'
              in (n + m, take (length pc - length pc') pc @ rest)))"
  by pat_completeness auto
termination
proof (relation "measure (\<lambda>(_, pc). length pc)", goal_cases)
  case (2 b pc x n pc1 y opcode z vch pc')
  have "length pc1 \<le> length pc" using erase_prefixes_shorter [of b pc] 2(1,2) by (metis snd_conv)
  moreover have "length pc' < length pc1" using GetOp2_shorter [of pc1 opcode vch pc'] 2(3-5) by simp
  ultimately show ?case by simp
qed simp

declare FindAndDelete_loop.simps [simp del]

definition FindAndDelete :: "CScript \<Rightarrow> CScript \<Rightarrow> nat \<times> CScript" where
  "FindAndDelete script b = (if b = [] then (0, script) else FindAndDelete_loop b script)"

function GetSigOpCount_loop :: "bool \<Rightarrow> byte \<Rightarrow> nat \<Rightarrow> CScript \<Rightarrow> nat" where
  "GetSigOpCount_loop fAccurate lastOpcode n pc =
     (case GetOp2 pc of None \<Rightarrow> n
      | Some (opcode, _, pc') \<Rightarrow>
          (let n = (if opcode = OP_CHECKSIG \<or> opcode = OP_CHECKSIGVERIFY then n + 1
                    else if opcode = OP_CHECKMULTISIG \<or> opcode = OP_CHECKMULTISIGVERIFY then
                      (if fAccurate \<and> lastOpcode \<ge> OP_1 \<and> lastOpcode \<le> OP_16
                       then n + (case DecodeOP_N lastOpcode of Some k \<Rightarrow> nat k | None \<Rightarrow> 0)
                       else n + 20)
                    else n)
           in GetSigOpCount_loop fAccurate opcode n pc'))"
  by pat_completeness auto
termination by (relation "measure (\<lambda>(_, _, _, pc). length pc)") (auto dest: GetOp2_shorter)

declare GetSigOpCount_loop.simps [simp del]

definition GetSigOpCount :: "bool \<Rightarrow> CScript \<Rightarrow> nat" where
  "GetSigOpCount fAccurate script = GetSigOpCount_loop fAccurate OP_INVALIDOPCODE 0 script"

definition IsPayToScriptHash :: "CScript \<Rightarrow> bool" where
  "IsPayToScriptHash script \<longleftrightarrow>
     length script = 23 \<and> script ! 0 = OP_HASH160 \<and> script ! 1 = 0x14 \<and> script ! 22 = OP_EQUAL"

text \<open>The loop that reads the pushes of a script: the data of the last one, or \<open>None\<close>.\<close>

function last_push :: "valtype \<Rightarrow> CScript \<Rightarrow> valtype option" where
  "last_push data pc =
     (if pc = [] then Some data
      else case GetOp2 pc of None \<Rightarrow> None
           | Some (opcode, data, pc') \<Rightarrow> if opcode > OP_16 then None else last_push data pc')"
  by pat_completeness auto
termination by (relation "measure (\<lambda>(_, pc). length pc)") (auto dest: GetOp2_shorter)

declare last_push.simps [simp del]

definition GetSigOpCount_P2SH :: "CScript \<Rightarrow> CScript \<Rightarrow> nat" where
  "GetSigOpCount_P2SH script scriptSig =
     (if \<not> IsPayToScriptHash script then GetSigOpCount True script
      else case last_push [] scriptSig of None \<Rightarrow> 0 | Some data \<Rightarrow> GetSigOpCount True data)"

function IsPushOnly :: "CScript \<Rightarrow> bool" where
  "IsPushOnly pc =
     (if pc = [] then True
      else case GetOp2 pc of None \<Rightarrow> False
           | Some (opcode, _, pc') \<Rightarrow> if opcode > OP_16 then False else IsPushOnly pc')"
  by pat_completeness auto
termination by (relation "measure length") (auto dest: GetOp2_shorter)

declare IsPushOnly.simps [simp del]

function HasCanonicalPushes :: "CScript \<Rightarrow> bool" where
  "HasCanonicalPushes pc =
     (if pc = [] then True
      else case GetOp2 pc of None \<Rightarrow> False
           | Some (opcode, data, pc') \<Rightarrow>
               if opcode > OP_16 then HasCanonicalPushes pc'
               else if opcode < OP_PUSHDATA1 \<and> opcode > OP_0 \<and> length data = 1 \<and> data ! 0 \<le> 16 then False
               else if opcode = OP_PUSHDATA1 \<and> length data < unat OP_PUSHDATA1 then False
               else if opcode = OP_PUSHDATA2 \<and> length data \<le> 0xFF then False
               else if opcode = OP_PUSHDATA4 \<and> length data \<le> 0xFFFF then False
               else HasCanonicalPushes pc')"
  by pat_completeness auto
termination by (relation "measure length") (auto dest: GetOp2_shorter)

declare HasCanonicalPushes.simps [simp del]

section \<open>Script numbers\<close>

text \<open>The member \<open>m_value\<close> of a \<open>CScriptNum\<close>, of type \<open>int64_t\<close>, is the number.\<close>

function serialize_loop :: "u64 \<Rightarrow> byte list" where
  "serialize_loop absvalue =
     (if absvalue = 0 then [] else ucast (absvalue AND 0xff) # serialize_loop (drop_bit 8 absvalue))"
  by pat_completeness auto
termination
proof (relation "measure unat", goal_cases)
  case (2 absvalue)
  have "unat (drop_bit 8 absvalue) = unat absvalue div 256" by (simp only: unat_drop_bit_eq) (simp add: drop_bit_eq_div)
  moreover have "0 < unat absvalue" using 2 by (simp add: unat_gt_0)
  ultimately show ?case by simp
qed simp

declare serialize_loop.simps [simp del]

definition CScriptNum_serialize :: "u64 \<Rightarrow> byte list" where
  "CScriptNum_serialize value =
     (if value = 0 then []
      else
        let neg = value <s 0;
            absvalue = (if neg then - value else value);
            result = serialize_loop absvalue
        in if last result AND 0x80 \<noteq> 0 then result @ [if neg then 0x80 else 0]
           else if neg then butlast result @ [last result OR 0x80]
           else result)"

definition set_vch :: "byte list \<Rightarrow> u64" where
  "set_vch vch =
     (if vch = [] then 0
      else
        let result = fold (\<lambda>i r. r OR push_bit (8 * i) (ucast (vch ! i))) [0..<length vch] 0
        in if last vch AND 0x80 \<noteq> 0
           then - (result AND NOT (push_bit (8 * (length vch - 1)) 0x80))
           else result)"

definition nMaxNumSize :: nat where "nMaxNumSize = 4"

definition CScriptNum :: "byte list \<Rightarrow> bool \<Rightarrow> u64 option" where
  "CScriptNum vch fRequireMinimal =
     (if length vch > nMaxNumSize then None
      else if fRequireMinimal \<and> length vch > 0 \<and> last vch AND 0x7f = 0 \<and>
        (length vch \<le> 1 \<or> vch ! (length vch - 2) AND 0x80 = 0) then None
      else Some (set_vch vch))"

section \<open>Writing a script\<close>

definition push_opcode :: "CScript \<Rightarrow> byte \<Rightarrow> CScript" where
  "push_opcode script opcode = script @ [opcode]"

definition push_data :: "CScript \<Rightarrow> valtype \<Rightarrow> CScript" where
  "push_data script b =
     (let script =
        (if length b < unat OP_PUSHDATA1 then script @ [of_nat (length b)]
         else if length b \<le> 0xff then script @ [OP_PUSHDATA1, of_nat (length b)]
         else if length b \<le> 0xffff then
           (let nSize = of_nat (length b) :: u16 in script @ [OP_PUSHDATA2] @ Serialize_u16 nSize)
         else
           (let nSize = of_nat (length b) :: u32 in script @ [OP_PUSHDATA4] @ native_store32 nSize))
      in script @ b)"

text \<open>
  The two builds of the function for integers: with OpenSSL 1.1 or later through \<open>CScriptNum\<close>,
  with an older one through \<open>CBigNum\<close>.
\<close>

definition push_int64 :: "CScript \<Rightarrow> u64 \<Rightarrow> CScript" where
  "push_int64 script n =
     (if n = - 1 \<or> (1 \<le>s n \<and> n \<le>s 16) then push_opcode script (ucast (n + (ucast OP_1 - 1)))
      else push_data script (CScriptNum_serialize n))"

definition push_int64_bn :: "'b bn_lib \<Rightarrow> CScript \<Rightarrow> u64 \<Rightarrow> CScript" where
  "push_int64_bn bn script n =
     (if n = - 1 \<or> (1 \<le>s n \<and> n \<le>s 16) then push_opcode script (ucast (n + (ucast OP_1 - 1)))
      else push_data script (getvch bn (setint64 bn n)))"

definition push_uint64 :: "CScript \<Rightarrow> u64 \<Rightarrow> CScript" where
  "push_uint64 script n =
     (if n \<ge> 1 \<and> n \<le> 16 then push_opcode script (ucast (n + (ucast OP_1 - 1)))
      else push_data script (CScriptNum_serialize n))"

definition push_uint64_bn :: "'b bn_lib \<Rightarrow> CScript \<Rightarrow> u64 \<Rightarrow> CScript" where
  "push_uint64_bn bn script n =
     (if n \<ge> 1 \<and> n \<le> 16 then push_opcode script (ucast (n + (ucast OP_1 - 1)))
      else push_data script (getvch bn (setuint64 bn n)))"

end
