(* ===== verification/Script_Props.thy ===== *)
theory Script_Props
  imports Script
begin

text \<open>
  The laws of scripts: reading an instruction gives back what was pushed, both builds of the
  functions that push integers write the same bytes, script numbers are the MPI format of the
  big numbers in the opposite order, and bounds on the functions that scan a script.
\<close>

section \<open>Pushes\<close>

lemma GetOp2_suffix: "GetOp2 pc = Some (opcode, vch, pc') \<Longrightarrow> \<exists>pre. pc = pre @ pc' \<and> pre \<noteq> []"
proof (cases pc)
  case (Cons c r)
  moreover assume "GetOp2 pc = Some (opcode, vch, pc')"
  ultimately have "\<exists>k. pc' = drop k r"
    by (auto simp: GetOp2_def drop_drop add.commute intro: exI [of _ "0 :: nat"] split: if_splits)
  then obtain k where "pc' = drop k r" ..
  then have "pc = (c # take k r) @ pc'" using Cons by simp
  then show ?thesis by blast
qed (simp add: GetOp2_def)

lemma of_nat_byte_less: "n < 256 \<Longrightarrow> unat (of_nat n :: byte) = n"
  by (simp add: unat_of_nat)

lemma GetOp2_push_data:
  assumes "length v < 2 ^ 32"
  shows "\<exists>opcode. GetOp2 (push_data [] v @ rest) = Some (opcode, v, rest) \<and> opcode \<le> OP_PUSHDATA4"
proof -
  consider "length v < 76" | "76 \<le> length v" "length v \<le> 0xff" | "0xff < length v" "length v \<le> 0xffff" | "0xffff < length v"
    by linarith
  then show ?thesis
  proof cases
    case 1
    then have "(of_nat (length v) :: byte) < OP_PUSHDATA1" "(of_nat (length v) :: byte) \<le> OP_PUSHDATA4"
      by (simp_all add: word_less_nat_alt word_le_nat_alt of_nat_byte_less)
    with 1 show ?thesis by (simp add: push_data_def GetOp2_def of_nat_byte_less)
  next
    case 2
    then show ?thesis by (simp add: push_data_def GetOp2_def of_nat_byte_less)
  next
    case 3
    have "(ucast (ucast a :: byte) OR push_bit 8 (ucast (ucast (drop_bit 8 a) :: byte)) :: u32) = ucast a" for a :: u16
      by (rule bit_word_eqI) (auto simp: bit_simps dest: bit_imp_le_length)
    moreover have "unat (ucast (of_nat (length v) :: u16) :: u32) = length v"
      using 3 by (simp add: unsigned_ucast_eq unat_of_nat take_bit_nat_eq_self)
    ultimately show ?thesis using 3 by (simp add: push_data_def GetOp2_def Serialize_u16_def Let_def)
  next
    case 4
    have l: "length (native_store32 (of_nat (length v))) = 4" by (simp add: native_store_eq)
    have "native_load32 (native_store32 w) = w" for w
      using ser_u32.read_write [of w "[]"] by (simp add: Unserialize_u32_def Serialize_u32_def READDATA_def native_store_eq)
    moreover have "unat (of_nat (length v) :: u32) = length v"
      using assms by (simp add: unat_of_nat take_bit_nat_eq_self)
    ultimately show ?thesis using 4 l by (simp add: push_data_def GetOp2_def Let_def)
  qed
qed

lemma push_data_append: "push_data script v = script @ push_data [] v"
  by (simp add: push_data_def Let_def)

lemma push_data_ne [simp]: "push_data [] v \<noteq> []"
  by (auto simp: push_data_def Let_def)

lemma push_data_inj:
  assumes "push_data script a = push_data script b" and "length a < 2 ^ 32" and "length b < 2 ^ 32"
  shows "a = b"
proof -
  have e: "push_data [] a = push_data [] b" using assms(1) by (simp only: push_data_append [of script] same_append_eq)
  obtain x y where "GetOp2 (push_data [] a @ []) = Some (x, a, [])" "GetOp2 (push_data [] b @ []) = Some (y, b, [])"
    using GetOp2_push_data [OF assms(2)] GetOp2_push_data [OF assms(3)] by blast
  then show ?thesis unfolding e by simp
qed

text \<open>A script of pushes only.\<close>

fun pushes :: "valtype list \<Rightarrow> CScript" where
  "pushes [] = []"
| "pushes (v # vs) = push_data [] v @ pushes vs"

lemma push_limit: "(opcode :: byte) \<le> OP_PUSHDATA4 \<Longrightarrow> \<not> opcode > OP_16"
  by (simp add: word_le_nat_alt word_less_nat_alt)

lemma IsPushOnly_pushes: "\<forall>v \<in> set vs. length v < 2 ^ 32 \<Longrightarrow> IsPushOnly (pushes vs)"
proof (induction vs)
  case (Cons v vs)
  obtain opcode where "GetOp2 (pushes (v # vs)) = Some (opcode, v, pushes vs)" "opcode \<le> OP_PUSHDATA4"
    using GetOp2_push_data [of v "pushes vs"] Cons.prems by auto
  then show ?case using Cons push_limit [of opcode] by (subst IsPushOnly.simps) simp
qed (simp add: IsPushOnly.simps)

lemma last_push_pushes:
  "\<forall>v \<in> set vs. length v < 2 ^ 32 \<Longrightarrow> last_push d (pushes vs) = Some (if vs = [] then d else last vs)"
proof (induction vs arbitrary: d)
  case (Cons v vs)
  obtain opcode where g: "GetOp2 (pushes (v # vs)) = Some (opcode, v, pushes vs)" "opcode \<le> OP_PUSHDATA4"
    using GetOp2_push_data [of v "pushes vs"] Cons.prems by auto
  show ?case using g Cons push_limit [of opcode] by (subst last_push.simps) simp
qed (simp add: last_push.simps)

section \<open>Scans\<close>

lemma DecodeOP_N_le: "DecodeOP_N opcode = Some k \<Longrightarrow> 0 \<le> k \<and> k \<le> 16"
  by (auto simp: DecodeOP_N_def word_le_def split: if_splits)

lemma Decode_EncodeOP_N: "0 \<le> n \<Longrightarrow> n \<le> 16 \<Longrightarrow> \<exists>c. EncodeOP_N n = Some c \<and> DecodeOP_N c = Some n"
proof -
  assume "0 \<le> n" "n \<le> 16"
  then have "n \<in> set [0..16]" by simp
  moreover have "\<forall>n \<in> set [0..16]. \<exists>c. EncodeOP_N n = Some c \<and> DecodeOP_N c = Some n"
    by (simp add: upto_rec1 EncodeOP_N_def DecodeOP_N_def)
  ultimately show ?thesis by blast
qed

lemma GetSigOpCount_loop_le:
  "GetSigOpCount_loop f l n pc \<le> n + 20 * length pc"
proof (induction f l n pc rule: GetSigOpCount_loop.induct)
  case (1 f l n pc)
  show ?case
  proof (cases "GetOp2 pc")
    case None
    then show ?thesis by (simp add: GetSigOpCount_loop.simps)
  next
    case (Some a)
    obtain opcode v pc' where a: "a = (opcode, v, pc')" by (cases a)
    let ?n = "if opcode = OP_CHECKSIG \<or> opcode = OP_CHECKSIGVERIFY then n + 1
      else if opcode = OP_CHECKMULTISIG \<or> opcode = OP_CHECKMULTISIGVERIFY then
        (if f \<and> l \<ge> OP_1 \<and> l \<le> OP_16 then n + (case DecodeOP_N l of Some k \<Rightarrow> nat k | None \<Rightarrow> 0) else n + 20)
      else n"
    have "?n \<le> n + 20" using DecodeOP_N_le [of l] by (auto split: option.split)
    moreover have "length pc' < length pc" using GetOp2_shorter Some a by blast
    moreover have "GetSigOpCount_loop f l n pc = GetSigOpCount_loop f opcode ?n pc'"
      by (subst GetSigOpCount_loop.simps) (simp add: Some a Let_def)
    moreover have "GetSigOpCount_loop f opcode ?n pc' \<le> ?n + 20 * length pc'"
      by (rule 1 [OF Some a [symmetric] refl refl])
    ultimately show ?thesis by linarith
  qed
qed

lemma erase_prefixes_eq:
  "erase_prefixes b pc = (n, r) \<Longrightarrow> pc = concat (replicate n b) @ r \<and> (b \<noteq> [] \<longrightarrow> take (length b) r \<noteq> b)"
proof (induction b pc arbitrary: n r rule: erase_prefixes.induct)
  case (1 b pc)
  show ?case
  proof (cases "b \<noteq> [] \<and> length b \<le> length pc \<and> take (length b) pc = b")
    case True
    obtain m where m: "erase_prefixes b (drop (length b) pc) = (m, r)" "n = Suc m"
      using 1(2) True by (auto simp: erase_prefixes.simps [of b pc] split: prod.splits)
    then have "drop (length b) pc = concat (replicate m b) @ r \<and> (b \<noteq> [] \<longrightarrow> take (length b) r \<noteq> b)"
      using 1(1) [OF True] by blast
    then show ?thesis using True m(2) append_take_drop_id [of "length b" pc] by (metis append_assoc concat.simps(2) replicate_Suc)
  next
    case False
    then have "erase_prefixes b pc = (0, pc)" by (subst erase_prefixes.simps) (simp only: if_False)
    then show ?thesis using False 1(2) by auto
  qed
qed

lemma FindAndDelete_loop_length:
  "FindAndDelete_loop b pc = (n, r) \<Longrightarrow> length pc = length r + n * length b"
proof (induction b pc arbitrary: n r rule: FindAndDelete_loop.induct)
  case (1 b pc)
  obtain k q where e: "erase_prefixes b pc = (k, q)" by (cases "erase_prefixes b pc")
  have l: "length pc = k * length b + length q"
    using erase_prefixes_eq [OF e] by (simp add: length_concat sum_list_replicate)
  show ?case
  proof (cases "GetOp2 q")
    case None
    then have "FindAndDelete_loop b pc = (k, q)" by (simp add: FindAndDelete_loop.simps [of b pc] e)
    then show ?thesis using 1(2) l by auto
  next
    case (Some a)
    obtain opcode v q' where a: "a = (opcode, v, q')" by (cases a)
    obtain m s where s: "FindAndDelete_loop b q' = (m, s)" by (cases "FindAndDelete_loop b q'")
    have "FindAndDelete_loop b pc = (k + m, take (length q - length q') q @ s)"
      by (subst FindAndDelete_loop.simps) (simp add: e Some a s)
    moreover have "length q' = length s + m * length b"
      by (rule 1(1) [OF refl e [symmetric] Some a [symmetric] refl s])
    moreover have "length q' < length q" using GetOp2_shorter Some a by blast
    ultimately show ?thesis using 1(2) l by (auto simp: algebra_simps)
  qed
qed

lemma FindAndDelete_length:
  "FindAndDelete script b = (n, r) \<Longrightarrow> length script = length r + n * length b"
  using FindAndDelete_loop_length by (auto simp: FindAndDelete_def split: if_splits)

section \<open>Script numbers\<close>

lemma serialize_loop_bytes: "serialize_loop a = rev (be_bytes (unat a))"
proof (induction a rule: serialize_loop.induct)
  case (1 a)
  show ?case
  proof (cases "a = 0")
    case False
    have "unat (drop_bit 8 a) = unat a div 256" by (simp only: unat_drop_bit_eq) (simp add: drop_bit_eq_div)
    moreover have "(ucast (a AND 0xff) :: byte) = of_nat (unat a mod 256)"
      using word_byte [of 0 a] by (simp add: ucast_and_ff)
    moreover have "unat a \<noteq> 0" using False by (simp add: unat_eq_0)
    ultimately show ?thesis
      using 1 [OF False] False by (simp add: serialize_loop.simps [of a] be_bytes.simps [of "unat a"])
  qed (simp add: serialize_loop.simps)
qed

lemma sint_neg:
  fixes v :: u64
  assumes "v <s 0"
  shows "int (unat (- v)) = - sint v"
proof -
  have t: "take_bit 64 (uint v) = uint v"
    using uint_lt2p [of v] by (simp add: take_bit_int_eq_self)
  have "sint v < 0" using assms by (simp add: word_sless_alt)
  then have b: "bit (uint v) 63" by (simp add: sint_uint)
  then have "sint v = uint v - 2 ^ 64"
    by (simp add: sint_uint signed_take_bit_eq_take_bit_minus t)
  moreover have "v \<noteq> 0" using b by auto
  then have "uint (- v) = 2 ^ 64 - uint v" using t by (simp add: uint_word_ariths zmod_zminus1_eq_if take_bit_eq_mod uint_0_iff)
  ultimately show ?thesis by simp
qed

lemma sint_nonneg:
  fixes v :: u64
  assumes "\<not> v <s 0"
  shows "int (unat v) = sint v"
proof -
  have t: "take_bit 64 (uint v) = uint v"
    using uint_lt2p [of v] by (simp add: take_bit_int_eq_self)
  have "\<not> sint v < 0" using assms by (simp add: word_sless_alt)
  then have "\<not> bit (uint v) 63" by (simp add: sint_uint)
  then show ?thesis by (simp add: sint_uint signed_take_bit_eq_take_bit_minus t)
qed

lemma serialize_mpi: "CScriptNum_serialize v = rev (mpi_bytes (sint v))"
proof (cases "v = 0")
  case False
  define A where "A = (if v <s 0 then - v else v)"
  have "int (unat A) = \<bar>sint v\<bar>"
    using sint_neg [of v] sint_nonneg [of v] by (auto simp: word_sless_alt A_def)
  then have a: "unat A = nat \<bar>sint v\<bar>" by (metis nat_int)
  have neg: "v <s 0 \<longleftrightarrow> sint v < 0" by (simp add: word_sless_alt)
  have "be_bytes (unat A) \<noteq> []"
  proof
    assume "be_bytes (unat A) = []"
    then have "unat A = 0" using be_val_be_bytes [of "unat A"] by simp
    with False show False by (auto simp: A_def unat_eq_0 split: if_splits)
  qed
  then obtain c r where c: "be_bytes (nat \<bar>sint v\<bar>) = c # r" by (metis a neq_Nil_conv)
  have "CScriptNum_serialize v =
     (if bit (last (serialize_loop A)) 7 then serialize_loop A @ [if v <s 0 then 0x80 else 0]
      else if v <s 0 then butlast (serialize_loop A) @ [last (serialize_loop A) OR 0x80] else serialize_loop A)"
    using False by (simp only: CScriptNum_serialize_def A_def Let_def byte_sign if_False)
  moreover have "serialize_loop A = rev r @ [c]" by (simp add: serialize_loop_bytes a c)
  ultimately show ?thesis by (simp add: c mpi_bytes_eq neg)
qed (simp add: CScriptNum_serialize_def mpi_bytes_def)

lemma be_val_le_fold:
  "k \<le> length vch \<Longrightarrow> k \<le> 8 \<Longrightarrow>
    fold (\<lambda>i r. r OR push_bit (8 * i) (ucast (vch ! i))) [0..<k] 0 = (of_nat (be_val (rev (take k vch))) :: u64)"
proof (induction k)
  case (Suc k)
  let ?r = "of_nat (be_val (rev (take k vch))) :: u64" and ?b = "push_bit (8 * k) (ucast (vch ! k)) :: u64"
  have l: "be_val (rev (take k vch)) < 256 ^ k" using be_val_less [of "rev (take k vch)"] Suc.prems by simp
  have "?r AND ?b = 0"
  proof (rule bit_word_eqI)
    fix i
    have "be_val (rev (take k vch)) < 2 ^ (8 * k)" using l by (simp add: power_mult)
    then have "take_bit (8 * k) (be_val (rev (take k vch))) = be_val (rev (take k vch))" by (rule take_bit_nat_eq_self)
    then have "bit (be_val (rev (take k vch))) i \<Longrightarrow> i < 8 * k" by (metis bit_take_bit_iff)
    then show "bit (?r AND ?b) i = bit 0 i"
      by (auto simp: bit_and_iff bit_of_nat_iff bit_push_bit_iff)
  qed
  then have "?r OR ?b = ?r + ?b" by (simp add: disjunctive_add_eq_or)
  moreover have "?b = of_nat (unat (vch ! k) * 256 ^ k)"
    by (simp add: push_bit_eq_mult power_mult)
  ultimately have "?r OR ?b = of_nat (be_val (rev (take k vch)) + unat (vch ! k) * 256 ^ k)"
    by (simp only: of_nat_add)
  with Suc show ?case by (simp add: take_Suc_conv_app_nth add.commute)
qed simp

lemma set_vch_mpi:
  assumes "length vch \<le> 8"
  shows "set_vch vch = word_of_int (mpi_val (rev vch))"
proof (cases vch rule: rev_cases)
  case (snoc r b)
  have n: "length r < 8" "length vch = Suc (length r)" using assms snoc by simp_all
  define R where "R = (of_nat (be_val (rev r)) :: u64)"
  have fold: "fold (\<lambda>i r. r OR push_bit (8 * i) (ucast ((r' @ [c]) ! i))) [0..<Suc (length r')] 0 =
      (of_nat (be_val (rev (r' @ [c]))) :: u64)" if "length r' < 8" for r' and c :: byte
    using be_val_le_fold [of "Suc (length r')" "r' @ [c]"] that by simp
  have step: "(of_nat (be_val (rev (r @ [c]))) :: u64) = R OR push_bit (8 * length r) (ucast c)" for c
  proof -
    have "fold (\<lambda>i a. a OR push_bit (8 * i) (ucast ((r @ [c]) ! i))) [0..<length r] 0 = R"
      using be_val_le_fold [of "length r" "r @ [c]"] n by (simp add: R_def)
    then show ?thesis using fold [of r c] n by simp
  qed
  have below: "i < 8 * length r" if "bit R i" for i
  proof -
    have "be_val (rev r) < 2 ^ (8 * length r)" using be_val_less [of "rev r"] by (simp add: power_mult)
    then have "take_bit (8 * length r) (be_val (rev r)) = be_val (rev r)" by (rule take_bit_nat_eq_self)
    moreover have "bit (be_val (rev r)) i" using that by (simp add: R_def bit_of_nat_iff)
    ultimately show ?thesis by (metis bit_take_bit_iff)
  qed
  have clear: "(R OR push_bit (8 * length r) (ucast b)) AND NOT (push_bit (8 * length r) 0x80) =
      R OR push_bit (8 * length r) (ucast (take_bit 7 b))"
  proof (rule bit_word_eqI)
    fix i
    have k: "bit (0x80 :: u64) j \<longleftrightarrow> j = 7" for j
    proof -
      have "(0x80 :: u64) = push_bit 7 1" by simp
      then show ?thesis by (auto simp only: bit_push_bit_iff bit_1_iff) auto
    qed
    show "bit ((R OR push_bit (8 * length r) (ucast b)) AND NOT (push_bit (8 * length r) 0x80)) i =
        bit (R OR push_bit (8 * length r) (ucast (take_bit 7 b))) i" if "i < LENGTH(64)"
      using that below [of i] bit_imp_le_length [of b "i - 8 * length r"]
      by (auto simp: bit_and_iff bit_or_iff bit_not_iff bit_push_bit_iff bit_ucast_iff bit_take_bit_iff k
          simp del: bit_numeral_word_iff)
  qed
  have "set_vch vch = (if bit b 7 then - of_nat (be_val (take_bit 7 b # rev r)) else of_nat (be_val (b # rev r)))"
    using fold [of r b] n(1) step [of b] step [of "take_bit 7 b"] clear
    by (simp add: set_vch_def snoc byte_sign Let_def)
  moreover have "\<not> bit b 7 \<Longrightarrow> take_bit 7 b = b" by (rule take_bit_sign(2))
  ultimately show ?thesis by (simp add: snoc mpi_val_Cons Let_def)
qed (simp add: set_vch_def)

lemma mpi_bytes_val:
  assumes "d \<noteq> [] \<longrightarrow> \<not> (hd d AND 0x7f = 0 \<and> (length d \<le> 1 \<or> d ! 1 AND 0x80 = 0))"
  shows "mpi_bytes (mpi_val d) = d"
proof (cases d)
  case (Cons b r)
  have strip: "be_bytes (be_val (take_bit 7 b # r)) = dropWhile (\<lambda>c. c = 0) (take_bit 7 b # r)" by (rule be_bytes_be_val)
  have v: "nat \<bar>mpi_val d\<bar> = be_val (take_bit 7 b # r)" "mpi_val d < 0 \<longleftrightarrow> bit b 7 \<and> be_val (take_bit 7 b # r) \<noteq> 0"
    by (auto simp: Cons mpi_val_Cons Let_def simp del: be_val.simps)
  show ?thesis
  proof (cases "take_bit 7 b = 0")
    case True
    then obtain c r' where r: "r = c # r'" "bit c 7"
      using assms Cons by (cases r) (auto simp: byte_magnitude simp flip: byte_sign)
    then have ne: "c \<noteq> 0" by auto
    have low: "\<not> bit b i" if "i < 7" for i
    proof -
      have "bit (take_bit 7 b) i = bit (0 :: byte) i" by (simp only: True)
      then show ?thesis using that by (simp add: bit_take_bit_iff)
    qed
    have b: "b = (if bit b 7 then 0x80 else 0)"
    proof (rule bit_word_eqI)
      fix i show "i < LENGTH(8) \<Longrightarrow> bit b i = bit (if bit b 7 then 0x80 else 0 :: byte) i"
        using low [of i] by (cases "i = 7") (auto simp: bit_sign_byte simp del: bit_numeral_word_iff)
    qed
    have "be_val (take_bit 7 b # r) \<noteq> 0" using ne r by (simp add: be_val_eq_0 del: be_val.simps)
    then have neg: "mpi_val d < 0 \<longleftrightarrow> bit b 7" by (simp only: v(2) simp_thms)
    have "be_bytes (nat \<bar>mpi_val d\<bar>) = c # r'" by (simp only: v(1) strip) (simp add: True r ne)
    then have "mpi_bytes (mpi_val d) = (if bit b 7 then 0x80 else 0) # c # r'"
      by (subst mpi_bytes_eq) (simp only: list.case r(2) if_True neg)
    then show ?thesis by (simp only: b [symmetric] Cons r(1))
  next
    case False
    then have "be_val (take_bit 7 b # r) \<noteq> 0" by (simp add: be_val_eq_0 del: be_val.simps)
    then have neg: "mpi_val d < 0 \<longleftrightarrow> bit b 7" by (simp only: v(2) simp_thms)
    have "be_bytes (nat \<bar>mpi_val d\<bar>) = take_bit 7 b # r" by (simp only: v(1) strip) (simp add: False)
    moreover have "\<not> bit (take_bit 7 b) 7" by (simp add: bit_take_bit_iff)
    ultimately have "mpi_bytes (mpi_val d) = (if bit b 7 then take_bit 7 b OR 0x80 else take_bit 7 b) # r"
      by (subst mpi_bytes_eq) (simp only: list.case if_False neg)
    moreover have "take_bit 7 b OR 0x80 = b" if "bit b 7"
      using that by (intro bit_word_eqI) (auto simp: bit_or_iff bit_sign_byte bit_take_bit_iff simp del: bit_numeral_word_iff)
    moreover have "\<not> bit b 7 \<Longrightarrow> take_bit 7 b = b" by (rule take_bit_sign(2))
    ultimately show ?thesis by (simp add: Cons)
  qed
qed (simp add: mpi_bytes_def)

lemma mpi_bytes_minimal:
  assumes "mpi_bytes n = d" and "d \<noteq> []"
  shows "\<not> (hd d AND 0x7f = 0 \<and> (length d \<le> 1 \<or> d ! 1 AND 0x80 = 0))"
proof (cases "be_bytes (nat \<bar>n\<bar>)")
  case Nil
  then show ?thesis using assms by (simp add: mpi_bytes_eq)
next
  case (Cons b r)
  then have b: "b \<noteq> 0" by (rule be_bytes_hd)
  show ?thesis
  proof (cases "bit b 7")
    case True
    then show ?thesis using assms(1) Cons by (auto simp: mpi_bytes_eq simp flip: byte_sign)
  next
    case False
    then have "take_bit 7 b = b" by (rule take_bit_sign(2))
    moreover have "d = (if n < 0 then b OR 0x80 else b) # r" using assms(1) Cons False by (simp add: mpi_bytes_eq)
    ultimately have "take_bit 7 (hd d) = b" by (simp add: take_bit_sign(1))
    then show ?thesis using b by (simp add: byte_magnitude)
  qed
qed

lemma length_mpi_bytes_31:
  assumes "\<bar>n\<bar> < 2 ^ 31"
  shows "length (mpi_bytes n) \<le> 4"
proof (cases "be_bytes (nat \<bar>n\<bar>)")
  case (Cons b r)
  have v: "nat \<bar>n\<bar> = unat b * 256 ^ length r + be_val r" using be_val_be_bytes [of "nat \<bar>n\<bar>"] Cons by simp
  have "nat \<bar>n\<bar> < 256 ^ 4" using assms by simp
  then have l: "length r \<le> 3" using length_be_bytes [of "nat \<bar>n\<bar>" 4] Cons by simp
  have "length r \<le> 2" if "bit b 7"
  proof (rule ccontr)
    assume "\<not> length r \<le> 2"
    then have "length r = 3" using l by simp
    then have "unat b * 256 ^ 3 < 2 ^ 31" using v assms by simp
    moreover have "128 \<le> unat b"
    proof -
      have "bit (unat b) 7" using that by (simp add: bit_unsigned_iff)
      then show ?thesis using unat_byte_less [of b] by (simp add: bit_iff_odd) (cases "unat b < 128"; simp)
    qed
    ultimately show False by simp
  qed
  then show ?thesis using l Cons by (auto simp: mpi_bytes_eq)
qed (simp add: mpi_bytes_eq)

lemma mpi_val_less:
  assumes "length d \<le> 4"
  shows "\<bar>mpi_val d\<bar> < 2 ^ 31"
proof (cases d)
  case (Cons b r)
  have "take_bit 7 b < 128" by (simp add: take_bit_eq_mod word_less_nat_alt unat_word_ariths unat_mod)
  then have "unat (take_bit 7 b) \<le> 127" by (simp add: word_less_nat_alt)
  then have "unat (take_bit 7 b) * 256 ^ length r \<le> 127 * 256 ^ length r" by (rule mult_le_mono1)
  then have "be_val (take_bit 7 b # r) < 128 * 256 ^ length r" using be_val_less [of r] unfolding be_val.simps by linarith
  also have "\<dots> \<le> 128 * 256 ^ 3" using assms Cons by (intro mult_left_mono power_increasing) auto
  finally have "be_val (take_bit 7 b # r) < 2 ^ 31" by simp
  then show ?thesis by (auto simp: Cons mpi_val_Cons Let_def simp del: be_val.simps)
qed simp

lemma CScriptNum_of_serialize:
  assumes "\<bar>sint v\<bar> < 2 ^ 31"
  shows "CScriptNum (CScriptNum_serialize v) f = Some v"
proof -
  let ?d = "mpi_bytes (sint v)"
  have l: "length ?d \<le> 4" by (rule length_mpi_bytes_31 [OF assms])
  have "set_vch (rev ?d) = v" using set_vch_mpi [of "rev ?d"] l by simp
  moreover have "\<not> (last (rev ?d) AND 0x7f = 0 \<and> (length ?d \<le> 1 \<or> rev ?d ! (length ?d - 2) AND 0x80 = 0))" if "?d \<noteq> []"
  proof -
    have "1 < length ?d \<Longrightarrow> rev ?d ! (length ?d - 2) = ?d ! 1" by (simp add: rev_nth Suc_diff_Suc numeral_2_eq_2)
    with mpi_bytes_minimal [OF refl that] show ?thesis using that by (auto simp: last_rev)
  qed
  ultimately show ?thesis using l by (auto simp: CScriptNum_def serialize_mpi nMaxNumSize_def)
qed

lemma serialize_of_CScriptNum:
  assumes "CScriptNum vch True = Some v"
  shows "CScriptNum_serialize v = vch" and "\<bar>sint v\<bar> < 2 ^ 31"
proof -
  have l: "length vch \<le> 4" and v: "v = set_vch vch"
    and min: "vch \<noteq> [] \<Longrightarrow> \<not> (last vch AND 0x7f = 0 \<and> (length vch \<le> 1 \<or> vch ! (length vch - 2) AND 0x80 = 0))"
    using assms by (auto simp: CScriptNum_def nMaxNumSize_def split: if_splits)
  have small: "\<bar>mpi_val (rev vch)\<bar> < 2 ^ 31" by (rule mpi_val_less) (use l in simp)
  then have s: "sint v = mpi_val (rev vch)"
    using set_vch_mpi [of vch] l by (simp add: v sint_word_of_int)
  then show "\<bar>sint v\<bar> < 2 ^ 31" using small by simp
  have "1 < length vch \<Longrightarrow> rev vch ! 1 = vch ! (length vch - 2)" by (simp add: rev_nth numeral_2_eq_2)
  then have "mpi_bytes (mpi_val (rev vch)) = rev vch"
    using min by (intro mpi_bytes_val) (auto simp: hd_rev)
  then show "CScriptNum_serialize v = vch" by (simp add: serialize_mpi s)
qed

context openssl_bn
begin

lemma getvch_mpi: "length (mpi_bytes (val b)) < 2 ^ 31 \<Longrightarrow> getvch bn b = rev (mpi_bytes (val b))"
  by (simp add: getvch_def bn2mpi Let_def)

lemma length_mpi_64: "length (mpi_bytes (sint (v :: u64))) < 2 ^ 31" "length (mpi_bytes (uint v)) < 2 ^ 31"
proof -
  have "- (2 ^ 63) \<le> sint v" "sint v < 2 ^ 63" using sint_greater_eq [of v] sint_less [of v] by simp_all
  then have "\<bar>sint v\<bar> < 2 ^ (8 * 8)" by simp
  from length_mpi_bytes_le [OF this] show "length (mpi_bytes (sint v)) < 2 ^ 31" by simp
  have "\<bar>uint v\<bar> < 2 ^ (8 * 8)" using uint_lt2p [of v] by simp
  from length_mpi_bytes_le [OF this] show "length (mpi_bytes (uint v)) < 2 ^ 31" by simp
qed

lemma push_int64_builds: "push_int64_bn bn script n = push_int64 script n"
  using getvch_mpi [of "setint64 bn n"] length_mpi_64(1) [of n]
  by (simp add: push_int64_bn_def push_int64_def val_setint64 serialize_mpi)

lemma push_uint64_builds:
  "push_uint64_bn bn script n = push_uint64 script n \<longleftrightarrow> n < 0x8000000000000000"
proof (cases "n < 0x8000000000000000")
  case True
  then have "uint n < 2 ^ 63" by (simp add: word_less_def)
  moreover have "- (2 ^ 63) \<le> uint n" by (rule order_trans [OF _ uint_ge_0]) simp
  ultimately have "signed_take_bit 63 (uint n) = uint n" by (intro signed_take_bit_int_eq_self)
  then have "sint n = uint n" by (simp add: sint_uint)
  then show ?thesis
    using True getvch_mpi [of "setuint64 bn n"] length_mpi_64(2) [of n]
    by (simp add: push_uint64_bn_def push_uint64_def val_setuint64 serialize_mpi)
next
  case False
  then have big: "2 ^ 63 \<le> uint n" by (simp add: word_less_def)
  moreover have "sint n < 2 ^ 63" using sint_less [of n] by simp
  ultimately have "mpi_bytes (uint n) \<noteq> mpi_bytes (sint n)" by (metis mpi_val_bytes not_le)
  moreover have "\<not> (n \<ge> 1 \<and> n \<le> 16)" using big by (simp add: word_le_def)
  moreover have "length (rev (mpi_bytes (uint n))) < 2 ^ 32" "length (rev (mpi_bytes (sint n))) < 2 ^ 32"
    using length_mpi_64 [of n] by simp_all
  ultimately have "push_data script (rev (mpi_bytes (uint n))) \<noteq> push_data script (rev (mpi_bytes (sint n)))"
    using push_data_inj [of script "rev (mpi_bytes (uint n))" "rev (mpi_bytes (sint n))"] by (metis rev_rev_ident)
  then show ?thesis
    using False \<open>\<not> (n \<ge> 1 \<and> n \<le> 16)\<close> getvch_mpi [of "setuint64 bn n"] length_mpi_64(2) [of n]
    by (auto simp add: push_uint64_bn_def push_uint64_def val_setuint64 serialize_mpi)
qed

end

end
