(* ===== verification/Core.thy ===== *)
theory Core
  imports Script_Props
begin

text \<open>
  The model of \<open>src/src/core.h\<close>: outpoints, transaction inputs and outputs, and the records of
  anonymous outputs, with their serialization. The member \<open>prevPubKey\<close> of an input is not
  serialized, so it is empty in an input that was read.
\<close>

section \<open>Outpoints\<close>

record COutPoint =
  op_hash :: base_uint
  op_n :: u32

definition COutPoint_null :: COutPoint where
  "COutPoint_null = \<lparr>op_hash = bu_set64 WIDTH256 0, op_n = - 1\<rparr>"

definition COutPoint_IsNull :: "COutPoint \<Rightarrow> bool" where
  "COutPoint_IsNull p \<longleftrightarrow> bu_eq64 (op_hash p) 0 \<and> op_n p = - 1"

definition COutPoint_less :: "COutPoint \<Rightarrow> COutPoint \<Rightarrow> bool" where
  "COutPoint_less a b \<longleftrightarrow> bu_less (op_hash a) (op_hash b) \<or> (bu_eq (op_hash a) (op_hash b) \<and> op_n a < op_n b)"

definition COutPoint_eq :: "COutPoint \<Rightarrow> COutPoint \<Rightarrow> bool" where
  "COutPoint_eq a b \<longleftrightarrow> bu_eq (op_hash a) (op_hash b) \<and> op_n a = op_n b"

definition Serialize_COutPoint :: "COutPoint \<Rightarrow> byte list" where
  "Serialize_COutPoint p = bu_bytes (op_hash p) @ native_store32 (op_n p)"

definition Unserialize_COutPoint :: "COutPoint reader" where
  "Unserialize_COutPoint s =
     do {
       (d, s) \<leftarrow> READDATA 36 s;
       Some (\<lparr>op_hash = bu_of_bytes (take 32 d), op_n = native_load32 (drop 32 d)\<rparr>, s)
     }"

definition outpoint_ok :: "COutPoint \<Rightarrow> bool" where
  "outpoint_ok p \<longleftrightarrow> length (op_hash p) = 8"

section \<open>Inputs\<close>

record CTxIn =
  prevout :: COutPoint
  scriptSig :: CScript
  prevPubKey :: CScript
  nSequence :: u32

definition CTxIn_new :: "COutPoint \<Rightarrow> CScript \<Rightarrow> u32 \<Rightarrow> CTxIn" where
  "CTxIn_new prevoutIn scriptSigIn nSequenceIn =
     \<lparr>prevout = prevoutIn, scriptSig = scriptSigIn, prevPubKey = [], nSequence = nSequenceIn\<rparr>"

definition Serialize_CTxIn :: "CTxIn \<Rightarrow> byte list" where
  "Serialize_CTxIn i = Serialize_COutPoint (prevout i) @ Serialize_bytes (scriptSig i) @ Serialize_u32 (nSequence i)"

definition Unserialize_CTxIn :: "CTxIn reader" where
  "Unserialize_CTxIn s =
     do {
       (p, s) \<leftarrow> Unserialize_COutPoint s;
       (sig, s) \<leftarrow> Unserialize_bytes s;
       (q, s) \<leftarrow> Unserialize_u32 s;
       Some (CTxIn_new p sig q, s)
     }"

definition GetSerializeSize_CTxIn :: "CTxIn \<Rightarrow> nat" where
  "GetSerializeSize_CTxIn i = 36 + GetSerializeSize_bytes (scriptSig i) + 4"

definition CTxIn_IsFinal :: "CTxIn \<Rightarrow> bool" where
  "CTxIn_IsFinal i \<longleftrightarrow> nSequence i = - 1"

definition IsAnonInput :: "CTxIn \<Rightarrow> bool" where
  "IsAnonInput i \<longleftrightarrow> length (scriptSig i) \<ge> 2 + (33 + 32 + 32) \<and>
     scriptSig i ! 0 = OP_RETURN \<and> scriptSig i ! 1 = OP_ANON_MARKER"

definition CTxIn_eq :: "CTxIn \<Rightarrow> CTxIn \<Rightarrow> bool" where
  "CTxIn_eq a b \<longleftrightarrow> COutPoint_eq (prevout a) (prevout b) \<and> scriptSig a = scriptSig b \<and> nSequence a = nSequence b"

text \<open>An anonymous input stores a key image of 33 bytes and the size of its ring in its outpoint.\<close>

definition ExtractKeyImage :: "CTxIn \<Rightarrow> byte list" where
  "ExtractKeyImage i = bu_bytes (op_hash (prevout i)) @ [ucast (op_n (prevout i) AND 0xFF)]"

definition ExtractRingSize :: "CTxIn \<Rightarrow> u32" where
  "ExtractRingSize i = drop_bit 16 (op_n (prevout i)) AND 0xFFFF"

definition txin_ok :: "CTxIn \<Rightarrow> bool" where
  "txin_ok i \<longleftrightarrow> outpoint_ok (prevout i) \<and> length (scriptSig i) \<le> 2 ^ 25 \<and> prevPubKey i = []"

section \<open>Outputs\<close>

record CTxOut =
  nValue :: u64
  scriptPubKey :: CScript

definition CTxOut_null :: CTxOut where
  "CTxOut_null = \<lparr>nValue = - 1, scriptPubKey = []\<rparr>"

definition CTxOut_IsNull :: "CTxOut \<Rightarrow> bool" where
  "CTxOut_IsNull t \<longleftrightarrow> nValue t = - 1"

definition CTxOut_empty :: CTxOut where
  "CTxOut_empty = \<lparr>nValue = 0, scriptPubKey = []\<rparr>"

definition CTxOut_IsEmpty :: "CTxOut \<Rightarrow> bool" where
  "CTxOut_IsEmpty t \<longleftrightarrow> nValue t = 0 \<and> scriptPubKey t = []"

definition MIN_ANON_OUT_SIZE :: nat where "MIN_ANON_OUT_SIZE = 1 + 1 + 1 + 33 + 1 + 33"

definition IsAnonOutput :: "CTxOut \<Rightarrow> bool" where
  "IsAnonOutput t \<longleftrightarrow> length (scriptPubKey t) \<ge> MIN_ANON_OUT_SIZE \<and>
     scriptPubKey t ! 0 = OP_RETURN \<and> scriptPubKey t ! 1 = OP_ANON_MARKER"

definition CTxOut_IsUnspendable :: "CTxOut \<Rightarrow> bool" where
  "CTxOut_IsUnspendable t \<longleftrightarrow>
     CTxOut_IsEmpty t \<or> (length (scriptPubKey t) > 0 \<and> scriptPubKey t ! 0 = OP_RETURN)"

definition CTxOut_eq :: "CTxOut \<Rightarrow> CTxOut \<Rightarrow> bool" where
  "CTxOut_eq a b \<longleftrightarrow> nValue a = nValue b \<and> scriptPubKey a = scriptPubKey b"

definition Serialize_CTxOut :: "CTxOut \<Rightarrow> byte list" where
  "Serialize_CTxOut t = Serialize_u64 (nValue t) @ Serialize_bytes (scriptPubKey t)"

definition Unserialize_CTxOut :: "CTxOut reader" where
  "Unserialize_CTxOut s =
     do {
       (v, s) \<leftarrow> Unserialize_u64 s;
       (k, s) \<leftarrow> Unserialize_bytes s;
       Some (\<lparr>nValue = v, scriptPubKey = k\<rparr>, s)
     }"

definition GetSerializeSize_CTxOut :: "CTxOut \<Rightarrow> nat" where
  "GetSerializeSize_CTxOut t = 8 + GetSerializeSize_bytes (scriptPubKey t)"

definition txout_ok :: "CTxOut \<Rightarrow> bool" where
  "txout_ok t \<longleftrightarrow> length (scriptPubKey t) \<le> 2 ^ 25"

section \<open>Laws\<close>

lemma COutPoint_eq_iff: "outpoint_ok a \<Longrightarrow> outpoint_ok b \<Longrightarrow> COutPoint_eq a b \<longleftrightarrow> a = b"
  by (auto simp: COutPoint_eq_def outpoint_ok_def bu_eq_val uint_val_inject)

lemma COutPoint_null_IsNull: "COutPoint_IsNull COutPoint_null"
  by (simp add: COutPoint_IsNull_def COutPoint_null_def bu_eq64_val bu_set64_def WIDTH256_def)

lemma lex_mult_less:
  fixes k :: nat
  assumes "\<And>z. f z < k"
  shows "x * k + f a < y * k + f b \<longleftrightarrow> x < y \<or> (x = y \<and> f a < f b)"
proof -
  have "x * k + f a < y * k + f b" if "x < y" for x y a b
  proof -
    have "x * k + f a < (x + 1) * k" using assms [of a] by simp
    also have "\<dots> \<le> y * k" using that by (intro mult_le_mono1) simp
    finally show ?thesis by simp
  qed
  from this [of x y a b] this [of y x b a] show ?thesis by (cases x y rule: linorder_cases) auto
qed

text \<open>The order of outpoints is a strict linear order, as the maps and sets of the program need.\<close>

lemma COutPoint_less_val:
  assumes "outpoint_ok a" "outpoint_ok b"
  shows "COutPoint_less a b \<longleftrightarrow>
    uint_val (op_hash a) * 2 ^ 32 + unat (op_n a) < uint_val (op_hash b) * 2 ^ 32 + unat (op_n b)"
proof -
  have "unat (op_n x) < 2 ^ 32" for x by (rule unat_u32_less)
  then have "x * 2 ^ 32 + unat (op_n a) < y * 2 ^ 32 + unat (op_n b) \<longleftrightarrow>
      x < y \<or> (x = y \<and> unat (op_n a) < unat (op_n b))" for x y
    by (rule lex_mult_less)
  then show ?thesis
    using assms by (simp add: COutPoint_less_def outpoint_ok_def bu_compare_val bu_eq_val word_less_nat_alt)
qed

interpretation ser_outpoint: serializable Serialize_COutPoint Unserialize_COutPoint "\<lambda>_. 36" outpoint_ok
proof
  have l: "length (native_store32 n) = 4" for n by (simp add: native_store_eq)
  have n: "native_load32 (native_store32 n) = n" for n
    using ser_u32.read_write [of n "[]"] by (simp add: Unserialize_u32_def Serialize_u32_def READDATA_def l)
  have n': "native_store32 (native_load32 d) = d" if "length d = 4" for d
    using ser_u32.write_read [of d "native_load32 d" "[]"] that
    by (simp add: Unserialize_u32_def Serialize_u32_def READDATA_def)
  fix x :: COutPoint and b s
  show "Unserialize_COutPoint (Serialize_COutPoint x @ s) = Some (x, s)" if "outpoint_ok x"
    using that by (simp add: Unserialize_COutPoint_def Serialize_COutPoint_def READDATA_def outpoint_ok_def l n bu_of_bytes_bytes)
  show "outpoint_ok x \<and> b = Serialize_COutPoint x @ s" if rd: "Unserialize_COutPoint b = Some (x, s)"
  proof -
    obtain d where d: "READDATA 36 b = Some (d, s)" "x = \<lparr>op_hash = bu_of_bytes (take 32 d), op_n = native_load32 (drop 32 d)\<rparr>"
      using rd by (auto simp: Unserialize_COutPoint_def split: Option.bind_splits)
    have "b = d @ s" "length d = 36" using READDATA_SomeD [OF d(1)] by simp_all
    then show ?thesis
      using d(2) length_bu_of_bytes [of "take 32 d" 8] bu_bytes_of_bytes [of "take 32 d" 8] n' [of "drop 32 d"]
      by (simp add: outpoint_ok_def Serialize_COutPoint_def)
  qed
  show "length (Serialize_COutPoint x) = 36" if "outpoint_ok x"
    using that by (simp add: Serialize_COutPoint_def outpoint_ok_def l)
qed

interpretation ser_txin: serializable Serialize_CTxIn Unserialize_CTxIn GetSerializeSize_CTxIn txin_ok
proof
  fix x :: CTxIn and b s
  show "Unserialize_CTxIn (Serialize_CTxIn x @ s) = Some (x, s)" if "txin_ok x"
    using that by (simp add: Unserialize_CTxIn_def Serialize_CTxIn_def txin_ok_def CTxIn_new_def
        ser_outpoint.read_write ser_bytes.read_write ser_u32.read_write)
  show "txin_ok x \<and> b = Serialize_CTxIn x @ s" if "Unserialize_CTxIn b = Some (x, s)"
    using that by (auto simp: Unserialize_CTxIn_def Serialize_CTxIn_def txin_ok_def CTxIn_new_def split: Option.bind_splits
        dest!: ser_outpoint.write_read ser_bytes.write_read ser_u32.write_read)
  show "length (Serialize_CTxIn x) = GetSerializeSize_CTxIn x" if "txin_ok x"
    using that by (simp add: Serialize_CTxIn_def GetSerializeSize_CTxIn_def txin_ok_def
        ser_outpoint.size ser_bytes.size ser_u32.size)
qed

interpretation ser_txout: serializable Serialize_CTxOut Unserialize_CTxOut GetSerializeSize_CTxOut txout_ok
proof
  fix x :: CTxOut and b s
  show "Unserialize_CTxOut (Serialize_CTxOut x @ s) = Some (x, s)" if "txout_ok x"
    using that by (simp add: Unserialize_CTxOut_def Serialize_CTxOut_def txout_ok_def
        ser_u64.read_write ser_bytes.read_write)
  show "txout_ok x \<and> b = Serialize_CTxOut x @ s" if "Unserialize_CTxOut b = Some (x, s)"
    using that by (auto simp: Unserialize_CTxOut_def Serialize_CTxOut_def txout_ok_def split: Option.bind_splits
        dest!: ser_bytes.write_read ser_u64.write_read)
  show "length (Serialize_CTxOut x) = GetSerializeSize_CTxOut x" if "txout_ok x"
    using that by (simp add: Serialize_CTxOut_def GetSerializeSize_CTxOut_def txout_ok_def ser_bytes.size ser_u64.size)
qed

end
