(* ===== verification/Chain.thy ===== *)
theory Chain
  imports Core
begin

text \<open>
  The consensus rules of \<open>src/src/main.cpp\<close> and \<open>src/src/main.h\<close> on targets, rewards and the
  index of blocks. A block index object is the record \<open>CBlockIndex\<close>; the objects reached from
  one by \<open>pprev\<close> form a finite chain down to the genesis block, so a pointer is modelled as the
  list of the object and its ancestors, the null pointer as the empty list, and \<open>pprev\<close> as the
  tail. The global \<open>pindexBest->nHeight\<close> and \<open>fTestNet\<close> are arguments, and so is the
  library of the big numbers.
\<close>

record CBlockIndex =
  phashBlock :: base_uint
  bi_nFile :: u32
  bi_nBlockPos :: u32
  bi_nChainTrust :: base_uint
  nHeight :: int
  bi_nMint :: u64
  bi_nMoneySupply :: u64
  bi_nTx :: u32
  bi_nChainTx :: u32
  nFlags :: u32
  nStakeModifier :: u64
  nStakeModifierChecksum :: u32
  prevoutStake :: COutPoint
  nStakeTime :: u32
  hashProof :: base_uint
  bi_nVersion :: int
  bi_hashMerkleRoot :: base_uint
  bi_nTime :: u32
  bi_nBits :: u32
  bi_nNonce :: u32

type_synonym pindex = "CBlockIndex list"

definition BLOCK_PROOF_OF_STAKE :: u32 where "BLOCK_PROOF_OF_STAKE = push_bit 0 1"
definition BLOCK_STAKE_ENTROPY :: u32 where "BLOCK_STAKE_ENTROPY = push_bit 1 1"
definition BLOCK_STAKE_MODIFIER :: u32 where "BLOCK_STAKE_MODIFIER = push_bit 2 1"

definition GetBlockTime :: "CBlockIndex \<Rightarrow> int" where
  "GetBlockTime b = uint (bi_nTime b)"

definition IsProofOfStake :: "CBlockIndex \<Rightarrow> bool" where
  "IsProofOfStake b \<longleftrightarrow> nFlags b AND BLOCK_PROOF_OF_STAKE \<noteq> 0"

definition IsProofOfWork :: "CBlockIndex \<Rightarrow> bool" where
  "IsProofOfWork b \<longleftrightarrow> nFlags b AND BLOCK_PROOF_OF_STAKE = 0"

definition SetProofOfStake :: "CBlockIndex \<Rightarrow> CBlockIndex" where
  "SetProofOfStake b = b\<lparr>nFlags := nFlags b OR BLOCK_PROOF_OF_STAKE\<rparr>"

definition GetStakeEntropyBit :: "CBlockIndex \<Rightarrow> u32" where
  "GetStakeEntropyBit b = drop_bit 1 (nFlags b AND BLOCK_STAKE_ENTROPY)"

definition SetStakeEntropyBit :: "u32 \<Rightarrow> CBlockIndex \<Rightarrow> bool \<times> CBlockIndex" where
  "SetStakeEntropyBit nEntropyBit b =
     (if nEntropyBit > 1 then (False, b)
      else (True, b\<lparr>nFlags := nFlags b OR (if nEntropyBit \<noteq> 0 then BLOCK_STAKE_ENTROPY else 0)\<rparr>))"

definition GeneratedStakeModifier :: "CBlockIndex \<Rightarrow> bool" where
  "GeneratedStakeModifier b \<longleftrightarrow> nFlags b AND BLOCK_STAKE_MODIFIER \<noteq> 0"

definition SetStakeModifier :: "u64 \<Rightarrow> bool \<Rightarrow> CBlockIndex \<Rightarrow> CBlockIndex" where
  "SetStakeModifier nModifier fGeneratedStakeModifier b =
     (let b = b\<lparr>nStakeModifier := nModifier\<rparr>
      in if fGeneratedStakeModifier then b\<lparr>nFlags := nFlags b OR BLOCK_STAKE_MODIFIER\<rparr> else b)"

section \<open>Rewards\<close>

definition COIN :: int where "COIN = 100000000"
definition MAX_MONEY :: int where "MAX_MONEY = 10000000 * COIN"
definition MoneyRange :: "int \<Rightarrow> bool" where "MoneyRange v \<longleftrightarrow> v \<ge> 0 \<and> v \<le> MAX_MONEY"

text \<open>\<open>0.06 * COIN\<close>, computed in \<open>double\<close> and converted to an integer, is exactly 6000000.\<close>

definition COIN_YEAR_REWARD :: int where "COIN_YEAR_REWARD = 6000000"
definition ZERO_POW_BLOCK :: int where "ZERO_POW_BLOCK = 3000000"
definition FAIR_LAUNCH_BLOCK :: int where "FAIR_LAUNCH_BLOCK = 210"
definition MAINNET_POSFIX :: int where "MAINNET_POSFIX = 640000"
definition YEARLY_BLOCKCOUNT :: int where "YEARLY_BLOCKCOUNT = 1051896"

definition GetProofOfWorkReward :: "bool \<Rightarrow> int \<Rightarrow> int \<Rightarrow> int \<Rightarrow> int" where
  "GetProofOfWorkReward fTestNet best nH nFees =
     (let nSubsidy = 1 * COIN
      in if fTestNet then
        let nSubsidy =
          (if best = 1 then 3000000 * COIN
           else if best \<le> FAIR_LAUNCH_BLOCK then c_div (1 * COIN) 2
           else if best \<le> 4000 then 3 * COIN
           else if best > 4000 then 0
           else if best > 30000 then 10000
           else nSubsidy)
        in s64 (nSubsidy + nFees)
      else
        let nSubsidy =
          (if best = 1 then 1000000 * COIN
           else if best \<le> FAIR_LAUNCH_BLOCK then c_div (1 * COIN) 2
           else if best \<le> 1000000 then 3 * COIN
           else if best \<le> 2000000 then 4 * COIN
           else if best \<le> 3000000 then 3 * COIN
           else if best > ZERO_POW_BLOCK \<and> best < 4693333 then 0
           else if best \<ge> 4693333 then 10000
           else nSubsidy)
        in s64 (nSubsidy + nFees))"

definition GetProofOfStakeReward :: "bool \<Rightarrow> int \<Rightarrow> int \<Rightarrow> int \<Rightarrow> int" where
  "GetProofOfStakeReward fTestNet best nCoinAge nFees =
     (if best > s32 (YEARLY_BLOCKCOUNT * 9000) then nFees
      else
        let nRewardCoinYear = COIN_YEAR_REWARD;
            nSubsidy = c_div (s64 (nCoinAge * nRewardCoinYear)) 365;
            nSubsidy = (if best \<ge> MAINNET_POSFIX \<or> fTestNet
                        then c_div (s64 (nCoinAge * nRewardCoinYear)) 365 else nSubsidy)
        in s64 (nSubsidy + nFees))"

definition GetFortunastakePayment :: "int \<Rightarrow> int \<Rightarrow> int" where
  "GetFortunastakePayment nH blockValue = c_div (s64 (blockValue * 1)) 3"

section \<open>Targets\<close>

text \<open>
  The limit of the proof of work is a variable: \<open>LoadBlockIndex\<close> (\<open>main.cpp\<close>, line 4045) replaces it
  by \<open>bnProofOfWorkLimitTestNet\<close> when \<open>fTestNet\<close> is set, before any block is checked. The limit of
  the proof of stake is the same on both networks.
\<close>

definition bnProofOfWorkLimitTestNet :: "'b bn_lib \<Rightarrow> 'b" where
  "bnProofOfWorkLimitTestNet bn = setuint256 bn (bu_shr (bu_not (bu_set64 WIDTH256 0)) 16)"

definition bnProofOfWorkLimit :: "'b bn_lib \<Rightarrow> bool \<Rightarrow> 'b" where
  "bnProofOfWorkLimit bn fTestNet =
     (if fTestNet then bnProofOfWorkLimitTestNet bn
      else setuint256 bn (bu_shr (bu_not (bu_set64 WIDTH256 0)) 20))"

definition bnProofOfStakeLimit :: "'b bn_lib \<Rightarrow> 'b" where
  "bnProofOfStakeLimit bn = setuint256 bn (bu_shr (bu_not (bu_set64 WIDTH256 0)) 20)"

definition nTargetSpacing :: int where "nTargetSpacing = 30"
definition nTargetTimespan :: int where "nTargetTimespan = 60"

function ComputeMaxBits_loop :: "'b bn_lib \<Rightarrow> 'b \<Rightarrow> int \<Rightarrow> 'b \<Rightarrow> 'b option" where
  "ComputeMaxBits_loop bn bnTargetLimit nTime bnResult =
     (if nTime > 0 \<and> bn_lt bn bnResult bnTargetLimit
      then Option.bind (bn_mul bn bnResult (setulong bn 2))
             (\<lambda>bnResult. ComputeMaxBits_loop bn bnTargetLimit (nTime - 24 * 60 * 60) bnResult)
      else Some bnResult)"
  by pat_completeness auto
termination by (relation "measure (\<lambda>(_, _, t, _). nat t)") auto

declare ComputeMaxBits_loop.simps [simp del]

definition ComputeMaxBits :: "'b bn_lib \<Rightarrow> 'b \<Rightarrow> u32 \<Rightarrow> int \<Rightarrow> u32 option" where
  "ComputeMaxBits bn bnTargetLimit nBase nTime =
     do {
       let bnResult = SetCompact bn nBase;
       bnResult \<leftarrow> bn_mul bn bnResult (setulong bn 2);
       bnResult \<leftarrow> ComputeMaxBits_loop bn bnTargetLimit nTime bnResult;
       let bnResult = (if bn_gt bn bnResult bnTargetLimit then bnTargetLimit else bnResult);
       Some (GetCompact bn bnResult)
     }"

definition ComputeMinWork :: "'b bn_lib \<Rightarrow> bool \<Rightarrow> u32 \<Rightarrow> int \<Rightarrow> u32 option" where
  "ComputeMinWork bn fTestNet nBase nTime = ComputeMaxBits bn (bnProofOfWorkLimit bn fTestNet) nBase nTime"

definition ComputeMinStake :: "'b bn_lib \<Rightarrow> u32 \<Rightarrow> int \<Rightarrow> u32 \<Rightarrow> u32 option" where
  "ComputeMinStake bn nBase nTime nBlockTime = ComputeMaxBits bn (bnProofOfStakeLimit bn) nBase nTime"

fun GetLastBlockIndex :: "pindex \<Rightarrow> bool \<Rightarrow> pindex" where
  "GetLastBlockIndex (b # p # r) fProofOfStake =
     (if IsProofOfStake b \<noteq> fProofOfStake then GetLastBlockIndex (p # r) fProofOfStake else b # p # r)"
| "GetLastBlockIndex chain fProofOfStake = chain"

definition GetNextTargetRequired :: "'b bn_lib \<Rightarrow> bool \<Rightarrow> pindex \<Rightarrow> bool \<Rightarrow> u32 option" where
  "GetNextTargetRequired bn fTestNet pindexLast fProofOfStake =
     (let bnTargetLimit = (if fProofOfStake then bnProofOfStakeLimit bn else bnProofOfWorkLimit bn fTestNet)
      in if pindexLast = [] then Some (GetCompact bn bnTargetLimit)
      else let pindexPrev = GetLastBlockIndex pindexLast fProofOfStake
      in if tl pindexPrev = [] then Some (GetCompact bn bnTargetLimit)
      else let pindexPrevPrev = GetLastBlockIndex (tl pindexPrev) fProofOfStake
      in if tl pindexPrevPrev = [] then Some (GetCompact bn bnTargetLimit)
      else
        let nActualSpacing = GetBlockTime (hd pindexPrev) - GetBlockTime (hd pindexPrevPrev);
            nActualSpacing = (if nActualSpacing < 0 then nTargetSpacing else nActualSpacing);
            bnNew = SetCompact bn (bi_nBits (hd pindexPrev));
            nInterval = c_div nTargetTimespan nTargetSpacing
        in do {
          bnNew \<leftarrow> bn_mul bn bnNew
            (CBigNum_long bn (word_of_int ((nInterval - 1) * nTargetSpacing + nActualSpacing + nActualSpacing)));
          bnNew \<leftarrow> bn_div bn bnNew (CBigNum_long bn (word_of_int ((nInterval + 1) * nTargetSpacing)));
          let bnNew = (if bn_le bn bnNew (setulong bn 0) \<or> bn_gt bn bnNew bnTargetLimit
                       then bnTargetLimit else bnNew);
          Some (GetCompact bn bnNew)
        })"

definition CheckProofOfWork :: "'b bn_lib \<Rightarrow> bool \<Rightarrow> base_uint \<Rightarrow> u32 \<Rightarrow> bool" where
  "CheckProofOfWork bn fTestNet hash nBits =
     (let bnTarget = SetCompact bn nBits
      in if bn_le bn bnTarget (setulong bn 0) \<or> bn_gt bn bnTarget (bnProofOfWorkLimit bn fTestNet) then False
      else if bu_greater hash (getuint256 bn bnTarget) then False
      else True)"

definition GetBlockTrust :: "'b bn_lib \<Rightarrow> u32 \<Rightarrow> base_uint option" where
  "GetBlockTrust bn nBits =
     (let bnTarget = SetCompact bn nBits
      in if bn_le bn bnTarget (setulong bn 0) then Some (bu_set64 WIDTH256 0)
      else do {
        n \<leftarrow> bn_shl bn (setulong bn 1) 256;
        d \<leftarrow> bn_add bn bnTarget (setulong bn 1);
        q \<leftarrow> bn_div bn n d;
        Some (getuint256 bn q)
      })"

section \<open>The block index\<close>

fun IsSuperMajority_loop :: "int \<Rightarrow> pindex \<Rightarrow> nat \<Rightarrow> nat \<Rightarrow> nat \<Rightarrow> nat" where
  "IsSuperMajority_loop minVersion [] nRequired k nFound = nFound"
| "IsSuperMajority_loop minVersion (b # r) nRequired 0 nFound = nFound"
| "IsSuperMajority_loop minVersion (b # r) nRequired (Suc k) nFound =
     (if nFound < nRequired then
        IsSuperMajority_loop minVersion r nRequired k (if bi_nVersion b \<ge> minVersion then nFound + 1 else nFound)
      else nFound)"

text \<open>The arguments are of type \<open>unsigned int\<close>; the counter runs from \<open>nToCheck\<close> down to 0.\<close>

definition IsSuperMajority :: "int \<Rightarrow> pindex \<Rightarrow> u32 \<Rightarrow> u32 \<Rightarrow> bool" where
  "IsSuperMajority minVersion pstart nRequired nToCheck =
     (IsSuperMajority_loop minVersion pstart (unat nRequired) (unat nToCheck) 0 \<ge> unat nRequired)"

definition nMedianTimeSpan :: nat where "nMedianTimeSpan = 11"

definition GetMedianTimePast :: "pindex \<Rightarrow> int" where
  "GetMedianTimePast chain =
     (let pmedian = sort (rev (map GetBlockTime (take nMedianTimeSpan chain)))
      in pmedian ! (length pmedian div 2))"

text \<open>The locator of a chain: the hashes of blocks at growing distances, and the genesis block.\<close>

function Locator_loop :: "pindex \<Rightarrow> nat \<Rightarrow> base_uint list \<Rightarrow> base_uint list" where
  "Locator_loop chain nStep vHave =
     (if chain = [] \<or> nStep = 0 then vHave
      else
        let vHave = vHave @ [phashBlock (hd chain)];
            chain = drop nStep chain;
            nStep = (if length vHave > 10 then nStep * 2 else nStep)
        in if nStep > 1024 then vHave else Locator_loop chain nStep vHave)"
  by pat_completeness auto
termination by (relation "measure (\<lambda>(c, _, _). length c)") auto

declare Locator_loop.simps [simp del]

definition CBlockLocator_Set :: "base_uint \<Rightarrow> pindex \<Rightarrow> base_uint list" where
  "CBlockLocator_Set hashGenesis chain = Locator_loop chain 1 [] @ [hashGenesis]"

end
