(* ===== verification/Transaction.thy ===== *)
theory Transaction
  imports Chain
begin

text \<open>
  Transactions: the class \<open>CTransaction\<close> of \<open>src/src/main.h\<close> and its operations of
  \<open>src/src/main.cpp\<close> that need no database. The global state they read (the height of the best
  chain, the adjusted time, the previous transactions) is an argument. An exception is the result
  \<open>None\<close>. The counter \<open>nDoS\<close> is a mutable member, so a check returns the transaction with it.

  Vectors are read in steps that depend on the size of an object in memory: 96 bytes for an
  input, 32 for an output and 64 for a transaction on the 64-bit platforms.
\<close>

section \<open>Constants\<close>

definition MAX_BLOCK_SIZE :: nat where "MAX_BLOCK_SIZE = 1000000"
definition MAX_BLOCK_SIZE_GEN :: u32 where "MAX_BLOCK_SIZE_GEN = 1000000 div 2"
definition MAX_BLOCK_SIGOPS :: nat where "MAX_BLOCK_SIGOPS = MAX_BLOCK_SIZE div 50"
definition LOCKTIME_THRESHOLD :: int where "LOCKTIME_THRESHOLD = 500000000"
definition ANON_TXN_VERSION :: u32 where "ANON_TXN_VERSION = 1000"
definition MIN_TX_FEE :: int where "MIN_TX_FEE = 1000"
definition MIN_TX_FEE_ANON :: int where "MIN_TX_FEE_ANON = 10000"
definition MIN_RELAY_TX_FEE :: int where "MIN_RELAY_TX_FEE = MIN_TX_FEE"
definition CENT :: int where "CENT = 1000000"

section \<open>The data\<close>

record CTransaction =
  tx_nVersion :: u32
  tx_nTime :: u32
  vin :: "CTxIn list"
  vout :: "CTxOut list"
  nLockTime :: u32
  tx_nDoS :: int

definition tx_DoS :: "int \<Rightarrow> bool \<Rightarrow> CTransaction \<Rightarrow> bool \<times> CTransaction" where
  "tx_DoS nDoSIn fIn tx = (fIn, tx\<lparr>tx_nDoS := tx_nDoS tx + nDoSIn\<rparr>)"

definition tx_IsNull :: "CTransaction \<Rightarrow> bool" where
  "tx_IsNull tx \<longleftrightarrow> vin tx = [] \<and> vout tx = []"

definition IsCoinBase :: "CTransaction \<Rightarrow> bool" where
  "IsCoinBase tx \<longleftrightarrow> length (vin tx) = 1 \<and> COutPoint_IsNull (prevout (vin tx ! 0)) \<and> length (vout tx) \<ge> 1"

definition IsCoinStake :: "CTransaction \<Rightarrow> bool" where
  "IsCoinStake tx \<longleftrightarrow> length (vin tx) > 0 \<and> \<not> COutPoint_IsNull (prevout (vin tx ! 0)) \<and>
     length (vout tx) \<ge> 2 \<and> CTxOut_IsEmpty (vout tx ! 0)"

section \<open>Serialization\<close>

definition Serialize_CTransaction :: "CTransaction \<Rightarrow> byte list" where
  "Serialize_CTransaction tx =
     Serialize_u32 (tx_nVersion tx) @ Serialize_u32 (tx_nTime tx) @ Serialize_vec Serialize_CTxIn (vin tx) @
     Serialize_vec Serialize_CTxOut (vout tx) @ Serialize_u32 (nLockTime tx)"

definition Unserialize_CTransaction :: "CTransaction reader" where
  "Unserialize_CTransaction s =
     do {
       (ver, s) \<leftarrow> Unserialize_u32 s;
       (time, s) \<leftarrow> Unserialize_u32 s;
       (ins, s) \<leftarrow> Unserialize_vec Unserialize_CTxIn (5000000 div 96) s;
       (outs, s) \<leftarrow> Unserialize_vec Unserialize_CTxOut (5000000 div 32) s;
       (lock, s) \<leftarrow> Unserialize_u32 s;
       Some (\<lparr>tx_nVersion = ver, tx_nTime = time, vin = ins, vout = outs, nLockTime = lock, tx_nDoS = 0\<rparr>, s)
     }"

definition GetSerializeSize_CTransaction :: "CTransaction \<Rightarrow> nat" where
  "GetSerializeSize_CTransaction tx =
     4 + 4 + GetSerializeSize_vec GetSerializeSize_CTxIn (vin tx) +
     GetSerializeSize_vec GetSerializeSize_CTxOut (vout tx) + 4"

definition tx_ok :: "CTransaction \<Rightarrow> bool" where
  "tx_ok tx \<longleftrightarrow> length (vin tx) \<le> 2 ^ 25 \<and> list_all txin_ok (vin tx) \<and>
     length (vout tx) \<le> 2 ^ 25 \<and> list_all txout_ok (vout tx) \<and> tx_nDoS tx = 0"

text \<open>The hash of a transaction; the hash of a list of bytes is an argument.\<close>

definition tx_GetHash :: "(byte list \<Rightarrow> base_uint) \<Rightarrow> CTransaction \<Rightarrow> base_uint" where
  "tx_GetHash H tx = H (Serialize_CTransaction tx)"

definition tx_eq :: "CTransaction \<Rightarrow> CTransaction \<Rightarrow> bool" where
  "tx_eq a b \<longleftrightarrow> tx_nVersion a = tx_nVersion b \<and> tx_nTime a = tx_nTime b \<and>
     list_all2 CTxIn_eq (vin a) (vin b) \<and> list_all2 CTxOut_eq (vout a) (vout b) \<and> nLockTime a = nLockTime b"

section \<open>Finality\<close>

definition tx_IsFinal :: "int \<Rightarrow> int \<Rightarrow> CTransaction \<Rightarrow> int \<Rightarrow> int \<Rightarrow> bool" where
  "tx_IsFinal nBestHeight adjustedTime tx nBlockHeight nBlockTime =
     (if nLockTime tx = 0 then True
      else
        let nBlockHeight = (if nBlockHeight = 0 then nBestHeight else nBlockHeight);
            nBlockTime = (if nBlockTime = 0 then adjustedTime else nBlockTime)
        in if uint (nLockTime tx) < (if uint (nLockTime tx) < LOCKTIME_THRESHOLD then nBlockHeight else nBlockTime)
           then True
           else list_all CTxIn_IsFinal (vin tx))"

definition IsFinalTx :: "int \<Rightarrow> int \<Rightarrow> CTransaction \<Rightarrow> int \<Rightarrow> int \<Rightarrow> bool" where
  "IsFinalTx nBestHeight adjustedTime tx nBlockHeight nBlockTime =
     (if nLockTime tx = 0 then True
      else
        let nBlockHeight = (if nBlockHeight = 0 then nBestHeight else nBlockHeight);
            nBlockTime = (if nBlockTime = 0 then adjustedTime else nBlockTime)
        in if uint (nLockTime tx) < (if uint (nLockTime tx) < LOCKTIME_THRESHOLD then nBlockHeight else nBlockTime)
           then True
           else list_all CTxIn_IsFinal (vin tx))"

fun IsNewerThan_loop :: "bool \<Rightarrow> u32 \<Rightarrow> (CTxIn \<times> CTxIn) list \<Rightarrow> bool" where
  "IsNewerThan_loop fNewer nLowest [] = fNewer"
| "IsNewerThan_loop fNewer nLowest ((new, old) # r) =
     (if nSequence new \<noteq> nSequence old then
        let (fNewer, nLowest) = (if nSequence new \<le> nLowest then (False, nSequence new) else (fNewer, nLowest));
            (fNewer, nLowest) = (if nSequence old < nLowest then (True, nSequence old) else (fNewer, nLowest))
        in IsNewerThan_loop fNewer nLowest r
      else IsNewerThan_loop fNewer nLowest r)"

definition IsNewerThan :: "CTransaction \<Rightarrow> CTransaction \<Rightarrow> bool" where
  "IsNewerThan tx old =
     (if length (vin tx) \<noteq> length (vin old) then False
      else if list_ex (\<lambda>(a, b). \<not> COutPoint_eq (prevout a) (prevout b)) (zip (vin tx) (vin old)) then False
      else IsNewerThan_loop False (- 1) (zip (vin tx) (vin old)))"

section \<open>Values and fees\<close>

fun GetValueOut_loop :: "u64 \<Rightarrow> CTxOut list \<Rightarrow> u64 option" where
  "GetValueOut_loop nValueOut [] = Some nValueOut"
| "GetValueOut_loop nValueOut (txout # r) =
     (let nValueOut = nValueOut + nValue txout
      in if \<not> MoneyRange (sint (nValue txout)) \<or> \<not> MoneyRange (sint nValueOut) then None
         else GetValueOut_loop nValueOut r)"

definition GetValueOut :: "CTransaction \<Rightarrow> u64 option" where
  "GetValueOut tx = GetValueOut_loop 0 (vout tx)"

text \<open>The previous transactions, by hash; the first component is an index that is not used here.\<close>

type_synonym 'i MapPrevTx = "base_uint \<rightharpoonup> 'i \<times> CTransaction"

definition GetOutputFor :: "CTxIn \<Rightarrow> 'i MapPrevTx \<Rightarrow> CTxOut option" where
  "GetOutputFor input inputs =
     (case inputs (op_hash (prevout input)) of None \<Rightarrow> None
      | Some (_, txPrev) \<Rightarrow>
          if unat (op_n (prevout input)) \<ge> length (vout txPrev) then None
          else Some (vout txPrev ! unat (op_n (prevout input))))"

fun GetValueIn_loop :: "bool \<Rightarrow> 'i MapPrevTx \<Rightarrow> u64 \<Rightarrow> CTxIn list \<Rightarrow> u64 option" where
  "GetValueIn_loop fAnon inputs nResult [] = Some nResult"
| "GetValueIn_loop fAnon inputs nResult (txin # r) =
     (if fAnon \<and> IsAnonInput txin then GetValueIn_loop fAnon inputs nResult r
      else case GetOutputFor txin inputs of None \<Rightarrow> None
           | Some txout \<Rightarrow> GetValueIn_loop fAnon inputs (nResult + nValue txout) r)"

definition GetValueIn :: "CTransaction \<Rightarrow> 'i MapPrevTx \<Rightarrow> u64 option" where
  "GetValueIn tx inputs =
     (if IsCoinBase tx then Some 0
      else GetValueIn_loop (tx_nVersion tx = ANON_TXN_VERSION) inputs 0 (vin tx))"

datatype GetMinFee_mode = GMF_BLOCK | GMF_RELAY | GMF_SEND | GMF_ANON

definition GetMinFee :: "CTransaction \<Rightarrow> u32 \<Rightarrow> GetMinFee_mode \<Rightarrow> u32 \<Rightarrow> int" where
  "GetMinFee tx nBlockSize mode nBytes =
     (let mode = (if tx_nVersion tx = ANON_TXN_VERSION then GMF_ANON else mode);
          nBaseFee = (case mode of GMF_RELAY \<Rightarrow> MIN_RELAY_TX_FEE | GMF_ANON \<Rightarrow> MIN_TX_FEE_ANON | _ \<Rightarrow> MIN_TX_FEE);
          nNewBlockSize = nBlockSize + nBytes;
          nMinFee = (1 + uint nBytes div 1000) * nBaseFee;
          nMinFee = (if nMinFee < nBaseFee then
                       fold (\<lambda>txout f. if sint (nValue txout) < CENT then nBaseFee else f) (vout tx) nMinFee
                     else nMinFee);
          fFull = (mode \<noteq> GMF_ANON \<and> nBlockSize \<noteq> 1 \<and> nNewBlockSize \<ge> MAX_BLOCK_SIZE_GEN div 2)
      in if fFull \<and> nNewBlockSize \<ge> MAX_BLOCK_SIZE_GEN then MAX_MONEY
         else
           let nMinFee = (if fFull then nMinFee * uint (MAX_BLOCK_SIZE_GEN div (MAX_BLOCK_SIZE_GEN - nNewBlockSize))
                          else nMinFee)
           in if \<not> MoneyRange nMinFee then MAX_MONEY else nMinFee)"

section \<open>Signature operations and stealth outputs\<close>

definition GetLegacySigOpCount :: "CTransaction \<Rightarrow> nat" where
  "GetLegacySigOpCount tx =
     fold (\<lambda>txout n. n + GetSigOpCount False (scriptPubKey txout)) (vout tx)
       (fold (\<lambda>txin n. n + GetSigOpCount False (scriptSig txin)) (vin tx) 0)"

fun GetP2SHSigOpCount_loop :: "bool \<Rightarrow> 'i MapPrevTx \<Rightarrow> nat \<Rightarrow> CTxIn list \<Rightarrow> nat option" where
  "GetP2SHSigOpCount_loop fAnon inputs nSigOps [] = Some nSigOps"
| "GetP2SHSigOpCount_loop fAnon inputs nSigOps (txin # r) =
     (if fAnon \<and> IsAnonInput txin then GetP2SHSigOpCount_loop fAnon inputs nSigOps r
      else case GetOutputFor txin inputs of None \<Rightarrow> None
           | Some txout \<Rightarrow>
               GetP2SHSigOpCount_loop fAnon inputs
                 (if IsPayToScriptHash (scriptPubKey txout)
                  then nSigOps + GetSigOpCount_P2SH (scriptPubKey txout) (scriptSig txin) else nSigOps) r)"

definition GetP2SHSigOpCount :: "CTransaction \<Rightarrow> 'i MapPrevTx \<Rightarrow> nat option" where
  "GetP2SHSigOpCount tx inputs =
     (if IsCoinBase tx then Some 0
      else GetP2SHSigOpCount_loop (tx_nVersion tx = ANON_TXN_VERSION) inputs 0 (vin tx))"

definition HasStealthOutput :: "CTransaction \<Rightarrow> bool" where
  "HasStealthOutput tx =
     list_ex (\<lambda>it. if tx_nVersion tx = ANON_TXN_VERSION \<and> IsAnonOutput it then False
        else case GetOp2 (scriptPubKey it) of None \<Rightarrow> False
        | Some (opCode, _, itScript) \<Rightarrow>
            if opCode \<noteq> OP_RETURN then False
            else case GetOp2 itScript of None \<Rightarrow> False
            | Some (_, vchEphemPK, _) \<Rightarrow> length vchEphemPK = 33) (vout tx)"

section \<open>The context-free checks\<close>

fun CheckTransaction_outs :: "bool \<Rightarrow> u64 \<Rightarrow> CTxOut list \<Rightarrow> bool" where
  "CheckTransaction_outs fCoin nValueOut [] = True"
| "CheckTransaction_outs fCoin nValueOut (txout # r) =
     (if CTxOut_IsEmpty txout \<and> \<not> fCoin then False
      else if sint (nValue txout) < 0 then False
      else if sint (nValue txout) > MAX_MONEY then False
      else
        let nValueOut = nValueOut + nValue txout
        in if \<not> MoneyRange (sint nValueOut) then False
           else CheckTransaction_outs fCoin nValueOut r)"

fun CheckTransaction_ins :: "bool \<Rightarrow> COutPoint set \<Rightarrow> CTxIn list \<Rightarrow> bool" where
  "CheckTransaction_ins fAnon vInOutPoints [] = True"
| "CheckTransaction_ins fAnon vInOutPoints (txin # r) =
     (if fAnon \<and> IsAnonInput txin then
        let opTest = (prevout txin)\<lparr>op_n := op_n (prevout txin) AND 0xFF\<rparr>
        in if opTest \<in> vInOutPoints then False
           else CheckTransaction_ins fAnon (insert opTest vInOutPoints) r
      else if prevout txin \<in> vInOutPoints then False
      else CheckTransaction_ins fAnon (insert (prevout txin) vInOutPoints) r)"

text \<open>
  Two public keys are equal for the order of the class \<open>CPubKey\<close> when their first bytes are, and
  as many bytes as the first one announces; a key of an anonymous output has 33 bytes. For a first
  byte of 4, 6 or 7 the code compares also the 32 bytes of the object behind the copied ones, which
  are not initialised; here they count as equal.
\<close>

definition CPubKey_GetLen :: "byte \<Rightarrow> nat" where
  "CPubKey_GetLen chHeader =
     (if chHeader = 2 \<or> chHeader = 3 then 33
      else if chHeader = 4 \<or> chHeader = 6 \<or> chHeader = 7 then 65 else 0)"

definition anon_pubkey :: "CScript \<Rightarrow> byte \<times> byte list" where
  "anon_pubkey s = (let vch = take 33 (drop (2 + 1) s) in (vch ! 0, take (CPubKey_GetLen (vch ! 0)) vch))"

fun CheckTransaction_anon :: "(byte \<times> byte list) set \<Rightarrow> CTxOut list \<Rightarrow> bool" where
  "CheckTransaction_anon vAnonOutPubkeys [] = True"
| "CheckTransaction_anon vAnonOutPubkeys (txout # r) =
     (if \<not> IsAnonOutput txout then CheckTransaction_anon vAnonOutPubkeys r
      else
        let pkTest = anon_pubkey (scriptPubKey txout)
        in if pkTest \<in> vAnonOutPubkeys then False
           else CheckTransaction_anon (insert pkTest vAnonOutPubkeys) r)"

definition CheckTransaction :: "CTransaction \<Rightarrow> bool \<times> CTransaction" where
  "CheckTransaction tx =
     (if vin tx = [] then tx_DoS 10 False tx
      else if vout tx = [] then tx_DoS 10 False tx
      else if GetSerializeSize_CTransaction tx > MAX_BLOCK_SIZE then tx_DoS 100 False tx
      else if \<not> CheckTransaction_outs (IsCoinBase tx \<or> IsCoinStake tx) 0 (vout tx) then tx_DoS 100 False tx
      else if \<not> CheckTransaction_ins (tx_nVersion tx = ANON_TXN_VERSION) {} (vin tx) then (False, tx)
      else if tx_nVersion tx = ANON_TXN_VERSION \<and> \<not> CheckTransaction_anon {} (vout tx) then (False, tx)
      else if IsCoinBase tx then
        (if length (scriptSig (vin tx ! 0)) < 2 \<or> length (scriptSig (vin tx ! 0)) > 100
         then tx_DoS 100 False tx else (True, tx))
      else if list_ex (\<lambda>txin. COutPoint_IsNull (prevout txin)) (vin tx) then tx_DoS 10 False tx
      else (True, tx))"

end
