(* ===== verification/Ordered_Set.thy ===== *)
theory Ordered_Set
  imports Prelude
begin

text \<open>
  The operations of \<open>std::set\<close> that the code uses, on the list of the elements in the order of the
  comparison: an element is equivalent to another one when neither is less. The locale
  \<open>set_order\<close> is what the comparison of an element type has to satisfy, on the elements that are
  stored.
\<close>

fun set_insert :: "('a \<Rightarrow> 'a \<Rightarrow> bool) \<Rightarrow> 'a \<Rightarrow> 'a list \<Rightarrow> 'a list" where
  "set_insert lt k [] = [k]"
| "set_insert lt k (e # S) =
     (if lt e k then e # set_insert lt k S else if lt k e then k # e # S else e # S)"

text \<open>The elements from the first one on that is not less than \<open>k\<close>.\<close>

definition lower_bound :: "('a \<Rightarrow> 'a \<Rightarrow> bool) \<Rightarrow> 'a \<Rightarrow> 'a list \<Rightarrow> 'a list" where
  "lower_bound lt k S = dropWhile (\<lambda>e. lt e k) S"

definition set_find :: "('a \<Rightarrow> 'a \<Rightarrow> bool) \<Rightarrow> 'a \<Rightarrow> 'a list \<Rightarrow> bool" where
  "set_find lt k S = (case lower_bound lt k S of [] \<Rightarrow> False | e # _ \<Rightarrow> \<not> lt k e)"

definition set_erase :: "('a \<Rightarrow> 'a \<Rightarrow> bool) \<Rightarrow> 'a \<Rightarrow> 'a list \<Rightarrow> 'a list" where
  "set_erase lt k S = filter (\<lambda>e. lt e k \<or> lt k e) S"

lemma set_set_erase: "set (set_erase lt k S) \<subseteq> set S"
  by (auto simp: set_erase_def)

lemma length_set_erase: "length (set_erase lt k S) \<le> length S"
  by (simp add: set_erase_def)

locale set_order =
  fixes lt :: "'a \<Rightarrow> 'a \<Rightarrow> bool" and ok :: "'a \<Rightarrow> bool"
  assumes lt_irrefl: "ok x \<Longrightarrow> \<not> lt x x"
    and lt_trans: "ok x \<Longrightarrow> ok y \<Longrightarrow> ok z \<Longrightarrow> lt x y \<Longrightarrow> lt y z \<Longrightarrow> lt x z"
    and lt_total: "ok x \<Longrightarrow> ok y \<Longrightarrow> lt x y \<or> x = y \<or> lt y x"
begin

definition ordered :: "'a list \<Rightarrow> bool" where
  "ordered S \<longleftrightarrow> list_all ok S \<and> sorted_wrt lt S"

lemma ordered_Nil [simp]: "ordered []"
  by (simp add: ordered_def)

lemma ordered_Cons: "ordered (e # S) \<longleftrightarrow> ok e \<and> (\<forall>x \<in> set S. lt e x) \<and> ordered S"
  by (auto simp: ordered_def)

lemma ordered_ok: "ordered S \<Longrightarrow> x \<in> set S \<Longrightarrow> ok x"
  by (simp add: ordered_def list_all_iff)

lemma set_insert_set: "ordered S \<Longrightarrow> ok k \<Longrightarrow> set (set_insert lt k S) = insert k (set S)"
proof (induction S)
  case (Cons e S)
  then show ?case using lt_total [of e k] by (auto simp: ordered_Cons)
qed simp

lemma set_insert_ordered: "ordered S \<Longrightarrow> ok k \<Longrightarrow> ordered (set_insert lt k S)"
proof (induction S)
  case (Cons e S)
  then have e: "ok e" "\<forall>x \<in> set S. lt e x" "ordered S" by (auto simp: ordered_Cons)
  consider "lt e k" | "\<not> lt e k" "lt k e" | "\<not> lt e k" "\<not> lt k e" by blast
  then show ?case
  proof cases
    case 1
    then show ?thesis using Cons.IH e Cons.prems set_insert_set [of S k] by (simp add: ordered_Cons)
  next
    case 2
    have "lt k x" if "x \<in> set S" for x
      using 2 e that ordered_ok [OF e(3) that] Cons.prems(2) lt_trans by blast
    then show ?thesis using 2 e Cons.prems by (simp add: ordered_Cons)
  qed (use Cons.prems in simp)
qed (simp add: ordered_Cons)

lemma length_set_insert: "length (set_insert lt k S) \<le> Suc (length S)"
  by (induction S) auto

lemma set_find_iff: "ordered S \<Longrightarrow> ok k \<Longrightarrow> set_find lt k S \<longleftrightarrow> k \<in> set S"
proof (induction S)
  case (Cons e S)
  then have e: "ok e" "\<forall>x \<in> set S. lt e x" "ordered S" by (auto simp: ordered_Cons)
  show ?case
  proof (cases "lt e k")
    case True
    then have "e \<noteq> k" using lt_irrefl [OF Cons.prems(2)] by blast
    moreover have "set_find lt k (e # S) = set_find lt k S" using True by (simp add: set_find_def lower_bound_def)
    ultimately show ?thesis using Cons.IH [OF e(3) Cons.prems(2)] by simp
  next
    case False
    have f: "set_find lt k (e # S) \<longleftrightarrow> \<not> lt k e" using False by (simp add: set_find_def lower_bound_def)
    have "k \<notin> set S" using False e(2) by blast
    moreover have "\<not> lt k e \<longleftrightarrow> k = e" using False lt_total [of e k] lt_irrefl e(1) Cons.prems(2) by blast
    ultimately show ?thesis using f by simp
  qed
qed (simp add: set_find_def lower_bound_def)

lemma set_erase_ordered: "ordered S \<Longrightarrow> ordered (set_erase lt k S)"
  by (auto simp: ordered_def set_erase_def list_all_iff sorted_wrt_filter)

lemma set_erase_set: "ordered S \<Longrightarrow> ok k \<Longrightarrow> set (set_erase lt k S) = set S - {k}"
  using lt_total lt_irrefl ordered_ok [of S] by (auto simp: set_erase_def)

lemma set_erase_shorter: "ordered S \<Longrightarrow> k \<in> set S \<Longrightarrow> length (set_erase lt k S) < length S"
  using lt_irrefl ordered_ok [of S k] by (auto simp: set_erase_def intro!: length_filter_less)

end

end
