(* ===== verification/Signature.thy ===== *)
theory Signature
  imports Transaction Ordered_Set "HOL-Library.List_Lexorder"
begin

text \<open>
  Signatures in scripts, \<open>src/src/script.cpp\<close> and \<open>src/src/key.cpp\<close>: the canonical encodings, the
  hash of a transaction that an input signs, the hashes of \<open>src/src/util.h\<close>, and the check of a
  signature with its cache. The hash functions of OpenSSL and its elliptic curve check are the
  record \<open>crypto\<close>; the command-line argument that selects the size of the cache and the random
  hashes that choose the entries to evict are arguments.
\<close>

record crypto =
  RIPEMD160 :: "byte list \<Rightarrow> byte list"
  SHA1 :: "byte list \<Rightarrow> byte list"
  SHA256 :: "byte list \<Rightarrow> byte list"
  ECDSA_verify :: "byte list \<Rightarrow> base_uint \<Rightarrow> byte list \<Rightarrow> bool"

section \<open>Hashes\<close>

definition Hash :: "crypto \<Rightarrow> byte list \<Rightarrow> base_uint" where
  "Hash C p = bu_of_bytes (SHA256 C (SHA256 C p))"

definition Hash160 :: "crypto \<Rightarrow> byte list \<Rightarrow> base_uint" where
  "Hash160 C p = bu_of_bytes (RIPEMD160 C (SHA256 C p))"

section \<open>Canonical encodings\<close>

definition IsCompressedOrUncompressedPubKey :: "valtype \<Rightarrow> bool" where
  "IsCompressedOrUncompressedPubKey vchPubKey =
     (if length vchPubKey < 33 then False
      else if vchPubKey ! 0 = 0x04 then length vchPubKey = 65
      else if vchPubKey ! 0 = 0x02 \<or> vchPubKey ! 0 = 0x03 then length vchPubKey = 33
      else False)"

definition IsDERSignature :: "valtype \<Rightarrow> bool \<Rightarrow> bool" where
  "IsDERSignature vchSig haveHashType =
     (if length vchSig < 9 then False
      else if length vchSig > 73 then False
      else if vchSig ! 0 \<noteq> 0x30 then False
      else if unat (vchSig ! 1) \<noteq> length vchSig - (if haveHashType then 3 else 2) then False
      else
        let nLenR = unat (vchSig ! 3)
        in if 5 + nLenR \<ge> length vchSig then False
      else
        let nLenS = unat (vchSig ! (5 + nLenR))
        in if nLenR + nLenS + (if haveHashType then 7 else 6) \<noteq> length vchSig then False
      else
        let R = drop 4 vchSig
        in if vchSig ! 2 \<noteq> 0x02 then False
           else if nLenR = 0 then False
           else if R ! 0 AND 0x80 \<noteq> 0 then False
           else if nLenR > 1 \<and> R ! 0 = 0 \<and> R ! 1 AND 0x80 = 0 then False
      else
        let S = drop (6 + nLenR) vchSig
        in if vchSig ! (4 + nLenR) \<noteq> 0x02 then False
           else if nLenS = 0 then False
           else if S ! 0 AND 0x80 \<noteq> 0 then False
           else if nLenS > 1 \<and> S ! 0 = 0 \<and> S ! 1 AND 0x80 = 0 then False
      else True)"

text \<open>The comparison of two numbers of any lengths, most significant byte first.\<close>

fun compare_bytes :: "byte list \<Rightarrow> byte list \<Rightarrow> int" where
  "compare_bytes (a # as) (b # bs) = (if a > b then 1 else if b > a then - 1 else compare_bytes as bs)"
| "compare_bytes _ _ = 0"

fun CompareBigEndian :: "byte list \<Rightarrow> byte list \<Rightarrow> int" where
  "CompareBigEndian c1 c2 =
     (if length c1 > length c2 then (if hd c1 \<noteq> 0 then 1 else CompareBigEndian (tl c1) c2)
      else if length c2 > length c1 then (if hd c2 \<noteq> 0 then - 1 else CompareBigEndian c1 (tl c2))
      else compare_bytes c1 c2)"

declare CompareBigEndian.simps [simp del]

definition vchMaxModOrder :: "byte list" where
  "vchMaxModOrder =
    [0xFF, 0xFF, 0xFF, 0xFF, 0xFF, 0xFF, 0xFF, 0xFF,
     0xFF, 0xFF, 0xFF, 0xFF, 0xFF, 0xFF, 0xFF, 0xFE,
     0xBA, 0xAE, 0xDC, 0xE6, 0xAF, 0x48, 0xA0, 0x3B,
     0xBF, 0xD2, 0x5E, 0x8C, 0xD0, 0x36, 0x41, 0x40]"

definition vchMaxModHalfOrder :: "byte list" where
  "vchMaxModHalfOrder =
    [0x7F, 0xFF, 0xFF, 0xFF, 0xFF, 0xFF, 0xFF, 0xFF,
     0xFF, 0xFF, 0xFF, 0xFF, 0xFF, 0xFF, 0xFF, 0xFF,
     0x5D, 0x57, 0x6E, 0x73, 0x57, 0xA4, 0x50, 0x1D,
     0xDF, 0xE9, 0x2F, 0x46, 0x68, 0x1B, 0x20, 0xA0]"

definition CheckSignatureElement :: "byte list \<Rightarrow> bool \<Rightarrow> bool" where
  "CheckSignatureElement vch half \<longleftrightarrow>
     CompareBigEndian vch [] > 0 \<and> CompareBigEndian vch (if half then vchMaxModHalfOrder else vchMaxModOrder) \<le> 0"

definition IsLowDERSignature :: "valtype \<Rightarrow> bool" where
  "IsLowDERSignature vchSig =
     (if \<not> IsDERSignature vchSig True then False
      else
        let nLenR = unat (vchSig ! 3);
            nLenS = unat (vchSig ! (5 + nLenR));
            S = take nLenS (drop (6 + nLenR) vchSig)
        in CheckSignatureElement S True)"

abbreviation SIGHASH_ALL :: byte where "SIGHASH_ALL \<equiv> 1"
abbreviation SIGHASH_NONE :: byte where "SIGHASH_NONE \<equiv> 2"
abbreviation SIGHASH_SINGLE :: byte where "SIGHASH_SINGLE \<equiv> 3"
abbreviation SIGHASH_ANYONECANPAY :: byte where "SIGHASH_ANYONECANPAY \<equiv> 0x80"

definition IsDefinedHashtypeSignature :: "valtype \<Rightarrow> bool" where
  "IsDefinedHashtypeSignature vchSig =
     (if length vchSig = 0 then False
      else
        let nHashType = vchSig ! (length vchSig - 1) AND NOT SIGHASH_ANYONECANPAY
        in \<not> (nHashType < SIGHASH_ALL \<or> nHashType > SIGHASH_SINGLE))"

definition CheckSignatureEncoding :: "valtype \<Rightarrow> bool" where
  "CheckSignatureEncoding vchSig =
     (if \<not> IsLowDERSignature vchSig then False
      else if \<not> IsDefinedHashtypeSignature vchSig then False
      else True)"

definition CheckPubKeyEncoding :: "valtype \<Rightarrow> bool" where
  "CheckPubKeyEncoding vchSig = (if \<not> IsCompressedOrUncompressedPubKey vchSig then False else True)"

section \<open>The hash an input signs\<close>

definition SignatureHash :: "crypto \<Rightarrow> CScript \<Rightarrow> CTransaction \<Rightarrow> nat \<Rightarrow> u32 \<Rightarrow> base_uint" where
  "SignatureHash C scriptCode txTo nIn nHashType =
     (if nIn \<ge> length (vin txTo) then bu_set64 WIDTH256 1
      else
        let scriptCode = snd (FindAndDelete scriptCode [OP_CODESEPARATOR]);
            blank = map (\<lambda>i. i\<lparr>scriptSig := []\<rparr>) (vin txTo);
            txTmp = txTo\<lparr>vin := blank[nIn := (blank ! nIn)\<lparr>scriptSig := scriptCode\<rparr>]\<rparr>;
            others = (\<lambda>tx. tx\<lparr>vin := map (\<lambda>i. if i \<noteq> nIn then (vin tx ! i)\<lparr>nSequence := 0\<rparr> else vin tx ! i)
                                  [0..<length (vin tx)]\<rparr>)
        in if nHashType AND 0x1f = ucast SIGHASH_SINGLE \<and> nIn \<ge> length (vout txTmp) then bu_set64 WIDTH256 1
      else
        let txTmp =
              (if nHashType AND 0x1f = ucast SIGHASH_NONE then others (txTmp\<lparr>vout := []\<rparr>)
               else if nHashType AND 0x1f = ucast SIGHASH_SINGLE then
                 others (txTmp\<lparr>vout := replicate nIn CTxOut_null @ [vout txTmp ! nIn]\<rparr>)
               else txTmp);
            txTmp = (if nHashType AND ucast SIGHASH_ANYONECANPAY \<noteq> 0 then txTmp\<lparr>vin := [vin txTmp ! nIn]\<rparr> else txTmp)
        in Hash C (Serialize_CTransaction txTmp @ Serialize_u32 nHashType))"

section \<open>The check of a signature\<close>

definition CPubKey_Set :: "byte list \<Rightarrow> byte list" where
  "CPubKey_Set vch =
     (let len = (if vch = [] then 0 else CPubKey_GetLen (vch ! 0))
      in if len \<noteq> 0 \<and> len = length vch then vch else [0xFF])"

definition CPubKey_IsValid :: "byte list \<Rightarrow> bool" where
  "CPubKey_IsValid pubkey \<longleftrightarrow> CPubKey_GetLen (pubkey ! 0) > 0"

definition CPubKey_Verify :: "crypto \<Rightarrow> byte list \<Rightarrow> base_uint \<Rightarrow> byte list \<Rightarrow> bool" where
  "CPubKey_Verify C pubkey sighash vchSig =
     (if \<not> CPubKey_IsValid pubkey then False else ECDSA_verify C pubkey sighash vchSig)"

section \<open>The cache of signatures\<close>

text \<open>
  The cache is a \<open>std::set\<close> of triples of the signed hash, the signature and the key, in the order of
  the comparisons of the three classes. Byte vectors are compared lexicographically, as lists are by
  \<open>List_Lexorder\<close>; keys by the first byte and then by as many bytes as it announces.
\<close>

type_synonym sigdata = "base_uint \<times> byte list \<times> byte list"
type_synonym sigcache = "sigdata list"

definition CPubKey_less :: "byte list \<Rightarrow> byte list \<Rightarrow> bool" where
  "CPubKey_less a b \<longleftrightarrow> a ! 0 < b ! 0 \<or>
     a ! 0 = b ! 0 \<and> take (CPubKey_GetLen (a ! 0)) a < take (CPubKey_GetLen (a ! 0)) b"

fun sigdata_less :: "sigdata \<Rightarrow> sigdata \<Rightarrow> bool" where
  "sigdata_less (hash, vchSig, pubkey) (hash', vchSig', pubkey') \<longleftrightarrow>
     bu_less hash hash' \<or> \<not> bu_less hash' hash \<and>
       (vchSig < vchSig' \<or> \<not> vchSig' < vchSig \<and> CPubKey_less pubkey pubkey')"

definition sigcache_Get :: "sigcache \<Rightarrow> base_uint \<Rightarrow> byte list \<Rightarrow> byte list \<Rightarrow> bool" where
  "sigcache_Get setValid hash vchSig pubkey = set_find sigdata_less (hash, vchSig, pubkey) setValid"

lemma bu_less_irrefl [simp]: "\<not> bu_less a a"
  by (simp add: bu_compare_val)

lemma sigdata_less_irrefl [simp]: "\<not> sigdata_less k k"
  by (cases k) (simp add: CPubKey_less_def)

lemma lower_bound_hd: "lower_bound lt k S \<noteq> [] \<Longrightarrow> hd (lower_bound lt k S) \<in> set S"
  unfolding lower_bound_def by (metis hd_in_set set_dropWhileD)

lemma set_erase_less: "k \<in> set S \<Longrightarrow> length (set_erase sigdata_less k S) < length S"
  by (auto simp: set_erase_def intro!: length_filter_less)

text \<open>
  The loop of the eviction: the entry at or behind a random hash, or the first one, is erased while
  there are more than \<open>nMaxCacheSize\<close> entries. \<open>rnd\<close> gives the successive results of \<open>GetRandHash\<close>.
\<close>

function sigcache_evict :: "nat \<Rightarrow> (nat \<Rightarrow> base_uint) \<Rightarrow> nat \<Rightarrow> sigcache \<Rightarrow> sigcache" where
  "sigcache_evict nMaxCacheSize rnd i setValid =
     (if length setValid > nMaxCacheSize then
        let it = lower_bound sigdata_less (rnd i, [], CPubKey_Set []) setValid;
            it = (if it = [] then setValid else it)
        in sigcache_evict nMaxCacheSize rnd (Suc i) (set_erase sigdata_less (hd it) setValid)
      else setValid)"
  by pat_completeness auto

termination
proof (relation "measure (\<lambda>(_, _, _, S). length S)")
  fix n :: nat and rnd :: "nat \<Rightarrow> base_uint" and i :: nat and S x y :: sigcache
  assume "n < length S" and "x = lower_bound sigdata_less (rnd i, [], CPubKey_Set []) S" and "y = (if x = [] then S else x)"
  then have "hd y \<in> set S" using lower_bound_hd [of sigdata_less _ S] by (auto intro: hd_in_set)
  then show "((n, rnd, Suc i, set_erase sigdata_less (hd y) S), n, rnd, i, S) \<in> measure (\<lambda>(_, _, _, S). length S)"
    by (simp add: set_erase_less)
qed simp

declare sigcache_evict.simps [simp del]

definition sigcache_Set ::
  "int \<Rightarrow> (nat \<Rightarrow> base_uint) \<Rightarrow> sigcache \<Rightarrow> base_uint \<Rightarrow> byte list \<Rightarrow> byte list \<Rightarrow> sigcache"
where
  "sigcache_Set nMaxCacheSize rnd setValid hash vchSig pubkey =
     (if nMaxCacheSize \<le> 0 then setValid
      else set_insert sigdata_less (hash, vchSig, pubkey) (sigcache_evict (nat nMaxCacheSize) rnd 0 setValid))"

definition SCRIPT_VERIFY_NOCACHE :: u32 where "SCRIPT_VERIFY_NOCACHE = push_bit 0 1"

definition CheckSig ::
  "crypto \<Rightarrow> int \<Rightarrow> (nat \<Rightarrow> base_uint) \<Rightarrow> sigcache \<Rightarrow> CTransaction \<Rightarrow> nat \<Rightarrow> u32 \<Rightarrow> u32 \<Rightarrow>
     valtype \<Rightarrow> valtype \<Rightarrow> CScript \<Rightarrow> bool \<times> sigcache"
where
  "CheckSig C nMaxCacheSize rnd signatureCache txTo nIn nHashType flags vchSig vchPubKey scriptCode =
     (let pubkey = CPubKey_Set vchPubKey
      in if \<not> CPubKey_IsValid pubkey then (False, signatureCache)
      else if vchSig = [] then (False, signatureCache)
      else if nHashType \<noteq> 0 \<and> nHashType \<noteq> ucast (last vchSig) then (False, signatureCache)
      else
        let nHashType = ucast (last vchSig);
            vchSig = butlast vchSig;
            sighash = SignatureHash C scriptCode txTo nIn nHashType
        in if sigcache_Get signatureCache sighash vchSig pubkey then (True, signatureCache)
           else if \<not> CPubKey_Verify C pubkey sighash vchSig then (False, signatureCache)
           else (True, if flags AND SCRIPT_VERIFY_NOCACHE = 0
                       then sigcache_Set nMaxCacheSize rnd signatureCache sighash vchSig pubkey
                       else signatureCache))"

end
