(* ===== verification/Interpreter.thy ===== *)
theory Interpreter
  imports Signature
begin

text \<open>
  The interpreter of scripts, \<open>EvalScript\<close> and \<open>VerifyScript\<close> of \<open>src/src/script.cpp\<close>. A stack is
  a list with the top first, so \<open>stacktop(-i)\<close> is element \<open>i - 1\<close>; the conditional stack
  \<open>vfExec\<close> has its innermost entry first. The iterator \<open>pbegincodehash\<close> is the list of the bytes
  from the last code separator on. Both \<open>return false\<close> and a caught exception are \<open>None\<close>. The
  cases of the big switch are grouped in one definition per group of opcodes; the environment is
  what the function gets as arguments, with the big numbers and the check of a signature.
\<close>

record 'b script_env =
  se_bn :: "'b bn_lib"
  se_crypto :: crypto
  se_checksig :: "valtype \<Rightarrow> valtype \<Rightarrow> CScript \<Rightarrow> bool"
  se_txTo :: CTransaction
  se_nIn :: nat
  se_flags :: u32

record exec_state =
  es_stack :: "valtype list"
  es_altstack :: "valtype list"
  es_vfExec :: "bool list"
  es_pbegincodehash :: CScript
  es_nOpCount :: nat

abbreviation SCRIPT_VERIFY_STRICTENC :: u32 where "SCRIPT_VERIFY_STRICTENC \<equiv> 2"
abbreviation SCRIPT_VERIFY_NULLDUMMY :: u32 where "SCRIPT_VERIFY_NULLDUMMY \<equiv> 16"
abbreviation SCRIPT_VERIFY_CHECKLOCKTIMEVERIFY :: u32 where "SCRIPT_VERIFY_CHECKLOCKTIMEVERIFY \<equiv> 64"
abbreviation SCRIPT_VERIFY_DISCOURAGE_UPGRADABLE_NOPS :: u32 where "SCRIPT_VERIFY_DISCOURAGE_UPGRADABLE_NOPS \<equiv> 256"

definition MAX_SCRIPT_ELEMENT_SIZE :: nat where "MAX_SCRIPT_ELEMENT_SIZE = 520"

definition vchFalse :: valtype where "vchFalse = []"
definition vchTrue :: valtype where "vchTrue = [1]"

section \<open>Conversions\<close>

definition CastToBigNum :: "'b bn_lib \<Rightarrow> valtype \<Rightarrow> 'b option" where
  "CastToBigNum bn vch =
     (if length vch > nMaxNumSize then None else Some (setvch bn (getvch bn (setvch bn vch))))"

fun CastToBool :: "valtype \<Rightarrow> bool" where
  "CastToBool [] = False"
| "CastToBool (c # r) = (if c \<noteq> 0 then \<not> (r = [] \<and> c = 0x80) else CastToBool r)"

definition bool_num :: "'b bn_lib \<Rightarrow> bool \<Rightarrow> 'b" where
  "bool_num bn b = CBigNum_long bn (if b then 1 else 0)"

section \<open>Push and control\<close>

definition op_number :: "'b bn_lib \<Rightarrow> byte \<Rightarrow> valtype list \<Rightarrow> valtype list option" where
  "op_number bn opcode stack = Some (getvch bn (CBigNum_long bn (ucast opcode - (ucast OP_1 - 1))) # stack)"

text \<open>
  The constructor of \<open>CScriptNum\<close> is called with the arguments \<open>(stacktop(-1), 5)\<close>: its second
  parameter is the flag \<open>fRequireMinimal\<close>, so the 5 is the value true.
\<close>

definition op_checklocktime :: "CTransaction \<Rightarrow> nat \<Rightarrow> u32 \<Rightarrow> valtype list \<Rightarrow> valtype list option" where
  "op_checklocktime txTo nIn flags stack =
     (if flags AND SCRIPT_VERIFY_CHECKLOCKTIMEVERIFY = 0 then Some stack
      else if length stack < 1 then None
      else do {
        n \<leftarrow> CScriptNum (stack ! 0) True;
        if sint n < 0 then None
        else if \<not> ((uint (nLockTime txTo) < LOCKTIME_THRESHOLD \<and> sint n < LOCKTIME_THRESHOLD) \<or>
                   (uint (nLockTime txTo) \<ge> LOCKTIME_THRESHOLD \<and> sint n \<ge> LOCKTIME_THRESHOLD)) then None
        else if sint n > uint (nLockTime txTo) then None
        else if CTxIn_IsFinal (vin txTo ! nIn) then None
        else Some stack
      })"

definition op_control :: "byte \<Rightarrow> bool \<Rightarrow> valtype list \<Rightarrow> bool list \<Rightarrow> (valtype list \<times> bool list) option" where
  "op_control opcode fExec stack vfExec =
     (if opcode = OP_IF \<or> opcode = OP_NOTIF then
        (if fExec then
           (case stack of [] \<Rightarrow> None
            | vch # stack \<Rightarrow>
                let fValue = CastToBool vch; fValue = (if opcode = OP_NOTIF then \<not> fValue else fValue)
                in Some (stack, fValue # vfExec))
         else Some (stack, False # vfExec))
      else if opcode = OP_ELSE then
        (case vfExec of [] \<Rightarrow> None | f # r \<Rightarrow> Some (stack, (\<not> f) # r))
      else
        (case vfExec of [] \<Rightarrow> None | f # r \<Rightarrow> Some (stack, r)))"

definition op_verify :: "valtype list \<Rightarrow> valtype list option" where
  "op_verify stack = (case stack of [] \<Rightarrow> None | v # s \<Rightarrow> if CastToBool v then Some s else None)"

section \<open>Stack operations\<close>

definition op_pick_roll :: "'b bn_lib \<Rightarrow> byte \<Rightarrow> valtype list \<Rightarrow> valtype list option" where
  "op_pick_roll bn opcode stack =
     (if length stack < 2 then None
      else do {
        b \<leftarrow> CastToBigNum bn (stack ! 0);
        let n = sint (getint bn b);
        let stack = tl stack;
        if n < 0 \<or> n \<ge> int (length stack) then None
        else
          let vch = stack ! nat n;
              stack = (if opcode = OP_ROLL then take (nat n) stack @ drop (Suc (nat n)) stack else stack)
          in Some (vch # stack)
      })"

definition op_altstack :: "byte \<Rightarrow> valtype list \<Rightarrow> valtype list \<Rightarrow> (valtype list \<times> valtype list) option" where
  "op_altstack opcode stack altstack =
     (if opcode = OP_TOALTSTACK then (case stack of [] \<Rightarrow> None | v # s \<Rightarrow> Some (s, v # altstack))
      else (case altstack of [] \<Rightarrow> None | v # a \<Rightarrow> Some (v # stack, a)))"

definition op_stack :: "'b bn_lib \<Rightarrow> byte \<Rightarrow> valtype list \<Rightarrow> valtype list option" where
  "op_stack bn opcode stack =
     (if opcode = OP_2DROP then (case stack of x2 # x1 # s \<Rightarrow> Some s | _ \<Rightarrow> None)
      else if opcode = OP_2DUP then (case stack of x2 # x1 # s \<Rightarrow> Some (x2 # x1 # x2 # x1 # s) | _ \<Rightarrow> None)
      else if opcode = OP_3DUP then
        (case stack of x3 # x2 # x1 # s \<Rightarrow> Some (x3 # x2 # x1 # x3 # x2 # x1 # s) | _ \<Rightarrow> None)
      else if opcode = OP_2OVER then
        (case stack of x4 # x3 # x2 # x1 # s \<Rightarrow> Some (x2 # x1 # x4 # x3 # x2 # x1 # s) | _ \<Rightarrow> None)
      else if opcode = OP_2ROT then
        (case stack of x6 # x5 # x4 # x3 # x2 # x1 # s \<Rightarrow> Some (x2 # x1 # x6 # x5 # x4 # x3 # s) | _ \<Rightarrow> None)
      else if opcode = OP_2SWAP then
        (case stack of x4 # x3 # x2 # x1 # s \<Rightarrow> Some (x2 # x1 # x4 # x3 # s) | _ \<Rightarrow> None)
      else if opcode = OP_IFDUP then
        (case stack of x # s \<Rightarrow> Some (if CastToBool x then x # x # s else x # s) | _ \<Rightarrow> None)
      else if opcode = OP_DEPTH then Some (getvch bn (setulong bn (of_nat (length stack))) # stack)
      else if opcode = OP_DROP then (case stack of x # s \<Rightarrow> Some s | _ \<Rightarrow> None)
      else if opcode = OP_DUP then (case stack of x # s \<Rightarrow> Some (x # x # s) | _ \<Rightarrow> None)
      else if opcode = OP_NIP then (case stack of x2 # x1 # s \<Rightarrow> Some (x2 # s) | _ \<Rightarrow> None)
      else if opcode = OP_OVER then (case stack of x2 # x1 # s \<Rightarrow> Some (x1 # x2 # x1 # s) | _ \<Rightarrow> None)
      else if opcode = OP_PICK \<or> opcode = OP_ROLL then op_pick_roll bn opcode stack
      else if opcode = OP_ROT then (case stack of x3 # x2 # x1 # s \<Rightarrow> Some (x1 # x3 # x2 # s) | _ \<Rightarrow> None)
      else if opcode = OP_SWAP then (case stack of x2 # x1 # s \<Rightarrow> Some (x1 # x2 # s) | _ \<Rightarrow> None)
      else if opcode = OP_TUCK then (case stack of x2 # x1 # s \<Rightarrow> Some (x2 # x1 # x2 # s) | _ \<Rightarrow> None)
      else None)"

definition op_size :: "'b bn_lib \<Rightarrow> valtype list \<Rightarrow> valtype list option" where
  "op_size bn stack =
     (case stack of [] \<Rightarrow> None | x # s \<Rightarrow> Some (getvch bn (setulong bn (of_nat (length x))) # x # s))"

definition op_equal :: "byte \<Rightarrow> valtype list \<Rightarrow> valtype list option" where
  "op_equal opcode stack =
     (case stack of
        vch2 # vch1 # s \<Rightarrow>
          let fEqual = (vch1 = vch2)
          in if opcode = OP_EQUALVERIFY then (if fEqual then Some s else None)
             else Some ((if fEqual then vchTrue else vchFalse) # s)
      | _ \<Rightarrow> None)"

section \<open>Numbers\<close>

text \<open>
  The disabled opcodes, which \<open>EvalScript\<close> refuses before the switch, have no case here. The last
  two operands of \<open>op_within\<close> are the bounds.
\<close>

definition op_unary :: "'b bn_lib \<Rightarrow> byte \<Rightarrow> valtype list \<Rightarrow> valtype list option" where
  "op_unary bn opcode stack =
     (case stack of [] \<Rightarrow> None
      | x # s \<Rightarrow> do {
          b \<leftarrow> CastToBigNum bn x;
          let bnZero = CBigNum_long bn 0;
          r \<leftarrow> (if opcode = OP_1ADD then bn_add bn b (CBigNum_long bn 1)
               else if opcode = OP_1SUB then bn_sub bn b (CBigNum_long bn 1)
               else if opcode = OP_NEGATE then Some (bn_neg bn b)
               else if opcode = OP_ABS then Some (if bn_lt bn b bnZero then bn_neg bn b else b)
               else if opcode = OP_NOT then Some (bool_num bn (bn_eq bn b bnZero))
               else Some (bool_num bn (\<not> bn_eq bn b bnZero)));
          Some (getvch bn r # s)
        })"

definition binary_num :: "'b bn_lib \<Rightarrow> byte \<Rightarrow> 'b \<Rightarrow> 'b \<Rightarrow> 'b option" where
  "binary_num bn opcode bn1 bn2 =
     (let bnZero = CBigNum_long bn 0
      in if opcode = OP_ADD then bn_add bn bn1 bn2
         else if opcode = OP_SUB then bn_sub bn bn1 bn2
         else if opcode = OP_MIN then Some (if bn_lt bn bn1 bn2 then bn1 else bn2)
         else if opcode = OP_MAX then Some (if bn_gt bn bn1 bn2 then bn1 else bn2)
         else Some (bool_num bn
           (if opcode = OP_BOOLAND then \<not> bn_eq bn bn1 bnZero \<and> \<not> bn_eq bn bn2 bnZero
            else if opcode = OP_BOOLOR then \<not> bn_eq bn bn1 bnZero \<or> \<not> bn_eq bn bn2 bnZero
            else if opcode = OP_NUMNOTEQUAL then \<not> bn_eq bn bn1 bn2
            else if opcode = OP_LESSTHAN then bn_lt bn bn1 bn2
            else if opcode = OP_GREATERTHAN then bn_gt bn bn1 bn2
            else if opcode = OP_LESSTHANOREQUAL then bn_le bn bn1 bn2
            else if opcode = OP_GREATERTHANOREQUAL then bn_le bn bn2 bn1
            else bn_eq bn bn1 bn2)))"

definition op_binary :: "'b bn_lib \<Rightarrow> byte \<Rightarrow> valtype list \<Rightarrow> valtype list option" where
  "op_binary bn opcode stack =
     (case stack of
        x2 # x1 # s \<Rightarrow> do {
          bn1 \<leftarrow> CastToBigNum bn x1;
          bn2 \<leftarrow> CastToBigNum bn x2;
          r \<leftarrow> binary_num bn opcode bn1 bn2;
          let vch = getvch bn r;
          if opcode = OP_NUMEQUALVERIFY then (if CastToBool vch then Some s else None)
          else Some (vch # s)
        }
      | _ \<Rightarrow> None)"

definition op_within :: "'b bn_lib \<Rightarrow> valtype list \<Rightarrow> valtype list option" where
  "op_within bn stack =
     (case stack of
        x3 # x2 # x1 # s \<Rightarrow> do {
          bn1 \<leftarrow> CastToBigNum bn x1;
          bn2 \<leftarrow> CastToBigNum bn x2;
          bn3 \<leftarrow> CastToBigNum bn x3;
          Some ((if bn_le bn bn2 bn1 \<and> bn_lt bn bn1 bn3 then vchTrue else vchFalse) # s)
        }
      | _ \<Rightarrow> None)"

section \<open>Hashes and signatures\<close>

definition op_digest :: "crypto \<Rightarrow> byte \<Rightarrow> valtype list \<Rightarrow> valtype list option" where
  "op_digest C opcode stack =
     (case stack of [] \<Rightarrow> None
      | vch # s \<Rightarrow>
          Some ((if opcode = OP_RIPEMD160 then RIPEMD160 C vch
                 else if opcode = OP_SHA1 then SHA1 C vch
                 else if opcode = OP_SHA256 then SHA256 C vch
                 else if opcode = OP_HASH160 then bu_bytes (Hash160 C vch)
                 else bu_bytes (Hash C vch)) # s))"

definition result_verify :: "bool \<Rightarrow> bool \<Rightarrow> valtype list \<Rightarrow> valtype list option" where
  "result_verify verify fSuccess s =
     (if verify then (if fSuccess then Some s else None)
      else Some ((if fSuccess then vchTrue else vchFalse) # s))"

text \<open>One check: \<open>None\<close> when the strict encoding is asked for and not kept.\<close>

definition check_one :: "'b script_env \<Rightarrow> valtype \<Rightarrow> valtype \<Rightarrow> CScript \<Rightarrow> bool option" where
  "check_one E vchSig vchPubKey scriptCode =
     (if se_flags E AND SCRIPT_VERIFY_STRICTENC \<noteq> 0 \<and>
         (\<not> CheckSignatureEncoding vchSig \<or> \<not> CheckPubKeyEncoding vchPubKey) then None
      else Some (CheckSignatureEncoding vchSig \<and> CheckPubKeyEncoding vchPubKey \<and>
                 se_checksig E vchSig vchPubKey scriptCode))"

definition op_checksig :: "'b script_env \<Rightarrow> byte \<Rightarrow> CScript \<Rightarrow> valtype list \<Rightarrow> valtype list option" where
  "op_checksig E opcode pbegincodehash stack =
     (case stack of
        vchPubKey # vchSig # s \<Rightarrow> do {
          let scriptCode = snd (FindAndDelete pbegincodehash (push_data [] vchSig));
          fSuccess \<leftarrow> check_one E vchSig vchPubKey scriptCode;
          result_verify (opcode = OP_CHECKSIGVERIFY) fSuccess s
        }
      | _ \<Rightarrow> None)"

fun multisig_loop :: "'b script_env \<Rightarrow> CScript \<Rightarrow> valtype list \<Rightarrow> valtype list \<Rightarrow> bool option" where
  "multisig_loop E scriptCode [] keys = Some True"
| "multisig_loop E scriptCode (vchSig # sigs) [] = Some False"
| "multisig_loop E scriptCode (vchSig # sigs) (vchPubKey # keys) = do {
     fOk \<leftarrow> check_one E vchSig vchPubKey scriptCode;
     let sigs' = (if fOk then sigs else vchSig # sigs);
     if length sigs' > length keys then Some False else multisig_loop E scriptCode sigs' keys
   }"

definition op_checkmultisig ::
  "'b script_env \<Rightarrow> byte \<Rightarrow> CScript \<Rightarrow> nat \<Rightarrow> valtype list \<Rightarrow> (valtype list \<times> nat) option"
where
  "op_checkmultisig E opcode pbegincodehash nOpCount stack =
     (if length stack < 1 then None
      else do {
        bk \<leftarrow> CastToBigNum (se_bn E) (stack ! 0);
        let keysCount = sint (getint (se_bn E) bk);
        if keysCount < 0 \<or> keysCount > 20 then None
        else do {
          let nKeysCount = nat keysCount;
          let nOpCount = nOpCount + nKeysCount;
          if nOpCount > 201 then None
          else if length stack < 2 + nKeysCount then None
          else do {
            bs \<leftarrow> CastToBigNum (se_bn E) (stack ! (1 + nKeysCount));
            let sigsCount = sint (getint (se_bn E) bs);
            if sigsCount < 0 \<or> sigsCount > keysCount then None
            else do {
              let nSigsCount = nat sigsCount;
              if length stack < 3 + nKeysCount + nSigsCount then None
              else do {
                let keys = take nKeysCount (drop 1 stack);
                let sigs = take nSigsCount (drop (2 + nKeysCount) stack);
                let scriptCode = fold (\<lambda>vchSig sc. snd (FindAndDelete sc (push_data [] vchSig))) sigs pbegincodehash;
                fSuccess \<leftarrow> multisig_loop E scriptCode sigs keys;
                let stack = drop (2 + nKeysCount + nSigsCount) stack;
                if se_flags E AND SCRIPT_VERIFY_NULLDUMMY \<noteq> 0 \<and> stack ! 0 \<noteq> [] then None
                else do {
                  stack \<leftarrow> result_verify (opcode = OP_CHECKMULTISIGVERIFY) fSuccess (tl stack);
                  Some (stack, nOpCount)
                }
              }
            }
          }
        }
      })"

section \<open>The switch\<close>

abbreviation with_stack :: "exec_state \<Rightarrow> valtype list option \<Rightarrow> exec_state option" where
  "with_stack st \<equiv> map_option (\<lambda>s. st\<lparr>es_stack := s\<rparr>)"

definition exec_op :: "'b script_env \<Rightarrow> byte \<Rightarrow> bool \<Rightarrow> CScript \<Rightarrow> exec_state \<Rightarrow> exec_state option" where
  "exec_op E opcode fExec pc st =
     (let bn = se_bn E; stack = es_stack st
      in if opcode = OP_1NEGATE \<or> (OP_1 \<le> opcode \<and> opcode \<le> OP_16) then with_stack st (op_number bn opcode stack)
         else if opcode = OP_NOP then Some st
         else if opcode = OP_NOP2 then with_stack st (op_checklocktime (se_txTo E) (se_nIn E) (se_flags E) stack)
         else if OP_NOP1 \<le> opcode \<and> opcode \<le> OP_NOP9 then
           (if se_flags E AND SCRIPT_VERIFY_DISCOURAGE_UPGRADABLE_NOPS \<noteq> 0 then None else Some st)
         else if opcode = OP_IF \<or> opcode = OP_NOTIF \<or> opcode = OP_ELSE \<or> opcode = OP_ENDIF then
           map_option (\<lambda>(s, v). st\<lparr>es_stack := s, es_vfExec := v\<rparr>) (op_control opcode fExec stack (es_vfExec st))
         else if opcode = OP_VERIFY then with_stack st (op_verify stack)
         else if opcode = OP_RETURN then None
         else if opcode = OP_TOALTSTACK \<or> opcode = OP_FROMALTSTACK then
           map_option (\<lambda>(s, a). st\<lparr>es_stack := s, es_altstack := a\<rparr>) (op_altstack opcode stack (es_altstack st))
         else if OP_2DROP \<le> opcode \<and> opcode \<le> OP_TUCK then with_stack st (op_stack bn opcode stack)
         else if opcode = OP_SIZE then with_stack st (op_size bn stack)
         else if opcode = OP_EQUAL \<or> opcode = OP_EQUALVERIFY then with_stack st (op_equal opcode stack)
         else if OP_1ADD \<le> opcode \<and> opcode \<le> OP_0NOTEQUAL then with_stack st (op_unary bn opcode stack)
         else if OP_ADD \<le> opcode \<and> opcode \<le> OP_MAX then with_stack st (op_binary bn opcode stack)
         else if opcode = OP_WITHIN then with_stack st (op_within bn stack)
         else if OP_RIPEMD160 \<le> opcode \<and> opcode \<le> OP_HASH256 then with_stack st (op_digest (se_crypto E) opcode stack)
         else if opcode = OP_CODESEPARATOR then Some (st\<lparr>es_pbegincodehash := pc\<rparr>)
         else if opcode = OP_CHECKSIG \<or> opcode = OP_CHECKSIGVERIFY then
           with_stack st (op_checksig E opcode (es_pbegincodehash st) stack)
         else if opcode = OP_CHECKMULTISIG \<or> opcode = OP_CHECKMULTISIGVERIFY then
           map_option (\<lambda>(s, n). st\<lparr>es_stack := s, es_nOpCount := n\<rparr>)
             (op_checkmultisig E opcode (es_pbegincodehash st) (es_nOpCount st) stack)
         else None)"

section \<open>The loop\<close>

definition disabled_opcodes :: "byte list" where
  "disabled_opcodes =
     [OP_CAT, OP_SUBSTR, OP_LEFT, OP_RIGHT, OP_INVERT, OP_AND, OP_OR, OP_XOR, OP_2MUL, OP_2DIV,
      OP_MUL, OP_DIV, OP_MOD, OP_LSHIFT, OP_RSHIFT]"

text \<open>One turn of the loop: the state and the bytes behind the instruction.\<close>

definition EvalScript_step :: "'b script_env \<Rightarrow> exec_state \<Rightarrow> CScript \<Rightarrow> (exec_state \<times> CScript) option" where
  "EvalScript_step E st pc =
     do {
       let fExec = (\<not> False \<in> set (es_vfExec st));
       (opcode, vchPushValue, pc) \<leftarrow> GetOp2 pc;
       let nOpCount = (if opcode > OP_16 then es_nOpCount st + 1 else es_nOpCount st);
       if length vchPushValue > MAX_SCRIPT_ELEMENT_SIZE then None
       else if opcode > OP_16 \<and> nOpCount > 201 then None
       else if opcode \<in> set disabled_opcodes then None
       else do {
         let st = st\<lparr>es_nOpCount := nOpCount\<rparr>;
         st \<leftarrow> (if fExec \<and> opcode \<le> OP_PUSHDATA4 then Some (st\<lparr>es_stack := vchPushValue # es_stack st\<rparr>)
               else if fExec \<or> (OP_IF \<le> opcode \<and> opcode \<le> OP_ENDIF) then exec_op E opcode fExec pc st
               else Some st);
         if length (es_stack st) + length (es_altstack st) > 1000 then None else Some (st, pc)
       }
     }"

lemma EvalScript_step_shorter: "EvalScript_step E st pc = Some (st', pc') \<Longrightarrow> length pc' < length pc"
  by (auto simp: EvalScript_step_def Let_def dest: GetOp2_shorter split: if_splits Option.bind_splits)

function EvalScript_loop :: "'b script_env \<Rightarrow> exec_state \<Rightarrow> CScript \<Rightarrow> exec_state option" where
  "EvalScript_loop E st pc =
     (if pc = [] then Some st
      else case EvalScript_step E st pc of None \<Rightarrow> None
           | Some (st', pc') \<Rightarrow> EvalScript_loop E st' pc')"
  by pat_completeness auto

termination
  by (relation "measure (\<lambda>(E, st, pc). length pc)") (auto dest: EvalScript_step_shorter)

declare EvalScript_loop.simps [simp del]

definition EvalScript :: "'b script_env \<Rightarrow> valtype list \<Rightarrow> CScript \<Rightarrow> valtype list option" where
  "EvalScript E stack script =
     (if length script > 22000 then None
      else do {
        st \<leftarrow> EvalScript_loop E
          \<lparr>es_stack = stack, es_altstack = [], es_vfExec = [], es_pbegincodehash = script, es_nOpCount = 0\<rparr> script;
        if es_vfExec st \<noteq> [] then None else Some (es_stack st)
      })"

section \<open>The check of an input\<close>

definition VerifyScript :: "'b script_env \<Rightarrow> CScript \<Rightarrow> CScript \<Rightarrow> bool" where
  "VerifyScript E sigScript pubKeyScript =
     (case EvalScript E [] sigScript of None \<Rightarrow> False
      | Some stackCopy \<Rightarrow>
          (case EvalScript E stackCopy pubKeyScript of None \<Rightarrow> False
           | Some stack \<Rightarrow>
               if stack = [] then False
               else if CastToBool (hd stack) = False then False
               else if IsPayToScriptHash pubKeyScript then
                 (if \<not> IsPushOnly sigScript then False
                  else
                    (case EvalScript E (tl stackCopy) (hd stackCopy) of None \<Rightarrow> False
                     | Some stackCopy \<Rightarrow> if stackCopy = [] then False else CastToBool (hd stackCopy)))
               else True))"

text \<open>
  \<open>VerifySignature\<close>, with \<open>verify nIn\<close> for the check of the input \<open>nIn\<close> by \<open>VerifyScript\<close>.
\<close>

definition VerifySignature ::
  "crypto \<Rightarrow> (CScript \<Rightarrow> CScript \<Rightarrow> bool) \<Rightarrow> CTransaction \<Rightarrow> CTransaction \<Rightarrow> nat \<Rightarrow> bool"
where
  "VerifySignature C verify txFrom txTo nIn =
     (let txin = vin txTo ! nIn
      in if unat (op_n (prevout txin)) \<ge> length (vout txFrom) then False
         else let txout = vout txFrom ! unat (op_n (prevout txin))
              in if op_hash (prevout txin) \<noteq> tx_GetHash (Hash C) txFrom then False
                 else verify (scriptSig txin) (scriptPubKey txout))"

end
