(* ===== verification/Anon.thy ===== *)
theory Anon
  imports Signature
begin

text \<open>
  Anonymous inputs: the checks of ring signatures in \<open>src/src/main.cpp\<close>, on the records
  \<open>CKeyImageSpent\<close> and \<open>CAnonOutput\<close> of \<open>src/src/core.h\<close>. The tables of the database and the memory
  pool are maps of the environment, and so are the two checks of a ring signature, which are
  computations on the curve of OpenSSL: \<open>True\<close> is their result 0. The code copies the 33 bytes of a
  member of a ring into an object \<open>CPubKey\<close> with 65 bytes, and looks it up with as many bytes as the
  first one announces, which can be more than were copied: \<open>an_vch\<close> gives the bytes the object held
  before, for the key image of the input and the index of the member.
\<close>

record CKeyImageSpent =
  ki_txnHash :: base_uint
  ki_inputNo :: u32
  ki_nValue :: u64

record CAnonOutput =
  ao_outpoint :: COutPoint
  ao_nValue :: u64
  ao_nBlockHeight :: int
  ao_nCompromised :: byte

record anon_env =
  an_crypto :: crypto
  an_vch :: "byte list \<Rightarrow> nat \<Rightarrow> byte list"
  an_outputs :: "byte list \<rightharpoonup> CAnonOutput"
  an_spent :: "byte list \<rightharpoonup> CKeyImageSpent"
  an_mempool_spent :: "byte list \<rightharpoonup> CKeyImageSpent"
  an_in_system :: "base_uint \<Rightarrow> bool"
  an_ring :: "byte list \<Rightarrow> base_uint \<Rightarrow> nat \<Rightarrow> byte list \<Rightarrow> byte list \<Rightarrow> byte list \<Rightarrow> bool"
  an_ringAB :: "byte list \<Rightarrow> base_uint \<Rightarrow> nat \<Rightarrow> byte list \<Rightarrow> byte list \<Rightarrow> byte list \<Rightarrow> bool"
  an_nBestHeight :: int

definition ec_secret_size :: nat where "ec_secret_size = 32"
definition ec_compressed_size :: nat where "ec_compressed_size = 33"
definition MIN_ANON_SPEND_DEPTH :: int where "MIN_ANON_SPEND_DEPTH = 10"
definition MIN_RING_SIZE :: int where "MIN_RING_SIZE = 5"
definition MAX_RING_SIZE_OLD :: int where "MAX_RING_SIZE_OLD = 200"
definition MAX_RING_SIZE :: int where "MAX_RING_SIZE = 32"

text \<open>The database is asked before the memory pool.\<close>

definition GetKeyImage :: "'a anon_env_scheme \<Rightarrow> byte list \<Rightarrow> CKeyImageSpent option" where
  "GetKeyImage E keyImage =
     (case an_spent E keyImage of Some s \<Rightarrow> Some s | None \<Rightarrow> an_mempool_spent E keyImage)"

text \<open>The bytes of a transaction that are signed; no result when a script is too short.\<close>

definition preimage_input :: "CTxIn \<Rightarrow> byte list" where
  "preimage_input txin =
     Serialize_COutPoint (prevout txin) @
     take (unat (ExtractRingSize txin) * ec_compressed_size) (drop 2 (scriptSig txin))"

definition GetTxnPreImage :: "crypto \<Rightarrow> CTransaction \<Rightarrow> base_uint option" where
  "GetTxnPreImage C txn =
     (if list_ex (\<lambda>txin. length (scriptSig txin) < 2 + unat (ExtractRingSize txin) * ec_compressed_size) (vin txn)
      then None
      else Some (Hash C
        (Serialize_u32 (tx_nVersion txn) @ Serialize_u32 (tx_nTime txn) @ concat (map preimage_input (vin txn)) @
         concat (map Serialize_CTxOut (vout txn)) @ Serialize_u32 (nLockTime txn))))"

section \<open>Rings\<close>

text \<open>
  The constructor from a pointer and a length copies without looking at the first byte; \<open>vch\<close> is what
  the array of the object held. The serialization of a key has the bytes that the first one announces,
  and is what the database is asked for.
\<close>

definition CPubKey_copy :: "byte list \<Rightarrow> byte list \<Rightarrow> byte list" where
  "CPubKey_copy vch p = (if length p \<le> 65 then p @ drop (length p) vch else vch[0 := 0xFF])"

definition CPubKey_bytes :: "byte list \<Rightarrow> byte list" where
  "CPubKey_bytes pubkey = take (CPubKey_GetLen (pubkey ! 0)) pubkey"

definition ReadAnonOutput :: "'a anon_env_scheme \<Rightarrow> byte list \<Rightarrow> CAnonOutput option" where
  "ReadAnonOutput E pkCoin = an_outputs E (CPubKey_bytes pkCoin)"

text \<open>The keys of a ring lie one after the other.\<close>

definition ring_keys :: "'a anon_env_scheme \<Rightarrow> byte list \<Rightarrow> nat \<Rightarrow> byte list \<Rightarrow> byte list list" where
  "ring_keys E vchImage nRingSize pPubkeys =
     map (\<lambda>ri. CPubKey_copy (an_vch E vchImage ri) (take ec_compressed_size (drop (ri * ec_compressed_size) pPubkeys)))
       [0..<nRingSize]"

text \<open>The loop over the members of a ring: the common value of their coins, \<open>- 1\<close> before the first.\<close>

fun ring_value :: "'a anon_env_scheme \<Rightarrow> u64 \<Rightarrow> byte list list \<Rightarrow> u64 option" where
  "ring_value E nCoinValue [] = Some nCoinValue"
| "ring_value E nCoinValue (pk # r) =
     (case ReadAnonOutput E pk of None \<Rightarrow> None
      | Some ao \<Rightarrow>
          if nCoinValue \<noteq> - 1 \<and> nCoinValue \<noteq> ao_nValue ao then None
          else if ao_nBlockHeight ao = 0 \<or> an_nBestHeight E - ao_nBlockHeight ao < MIN_ANON_SPEND_DEPTH then None
          else ring_value E (if nCoinValue = - 1 then ao_nValue ao else nCoinValue) r)"

definition CheckAnonInputAB :: "'a anon_env_scheme \<Rightarrow> CTxIn \<Rightarrow> nat \<Rightarrow> byte list \<Rightarrow> base_uint \<Rightarrow> u64 \<Rightarrow> u64 option" where
  "CheckAnonInputAB E txin nRingSize vchImage preimage nCoinValue =
     (let s = scriptSig txin;
          pSigC = take ec_secret_size (drop 2 s);
          pSigS = drop (2 + ec_secret_size) s;
          pPubkeys = drop (2 + ec_secret_size + ec_secret_size * nRingSize) s
      in case ring_value E nCoinValue (ring_keys E vchImage nRingSize pPubkeys) of None \<Rightarrow> None
         | Some v \<Rightarrow>
             if \<not> an_ringAB E vchImage preimage nRingSize (take (nRingSize * ec_compressed_size) pPubkeys) pSigC
                   (take (nRingSize * ec_secret_size) pSigS)
             then None else Some v)"

definition CheckAnonInput :: "'a anon_env_scheme \<Rightarrow> CTxIn \<Rightarrow> nat \<Rightarrow> byte list \<Rightarrow> base_uint \<Rightarrow> u64 \<Rightarrow> u64 option" where
  "CheckAnonInput E txin nRingSize vchImage preimage nCoinValue =
     (let s = scriptSig txin;
          pPubkeys = drop 2 s;
          pSigc = drop (2 + ec_compressed_size * nRingSize) s;
          pSigr = drop (2 + (ec_compressed_size + ec_secret_size) * nRingSize) s
      in if length s < 2 + (ec_compressed_size + ec_secret_size + ec_secret_size) * nRingSize then None
         else case ring_value E nCoinValue (ring_keys E vchImage nRingSize pPubkeys) of None \<Rightarrow> None
         | Some v \<Rightarrow>
             if \<not> an_ring E vchImage preimage nRingSize (take (nRingSize * ec_compressed_size) pPubkeys)
                   (take (nRingSize * ec_secret_size) pSigc) (take (nRingSize * ec_secret_size) pSigr)
             then None else Some v)"

section \<open>The inputs of a transaction\<close>

text \<open>
  The result and the sum of the values so far, which the caller gets also on a failure; \<open>fInvalid\<close>
  is set exactly on a failure.
\<close>

fun CheckAnonInputs_loop ::
  "'a anon_env_scheme \<Rightarrow> base_uint \<Rightarrow> base_uint \<Rightarrow> bool \<Rightarrow> u64 \<Rightarrow> CTxIn list \<Rightarrow> bool \<times> u64"
where
  "CheckAnonInputs_loop E txnHash preimage fCheckExists nSumValue [] = (True, nSumValue)"
| "CheckAnonInputs_loop E txnHash preimage fCheckExists nSumValue (txin # r) =
     (if \<not> IsAnonInput txin then CheckAnonInputs_loop E txnHash preimage fCheckExists nSumValue r
      else
        let s = scriptSig txin;
            vchImage = ExtractKeyImage txin;
            nRingSize = sint (ExtractRingSize txin)
        in if (case GetKeyImage E vchImage of None \<Rightarrow> False
               | Some spent \<Rightarrow> ki_txnHash spent \<noteq> txnHash \<and> \<not> (fCheckExists \<and> \<not> an_in_system E (ki_txnHash spent)))
           then (False, nSumValue)
           else if nRingSize < 1 \<or> nRingSize > (if an_nBestHeight E \<noteq> 0 then MAX_RING_SIZE else MAX_RING_SIZE_OLD)
           then (False, nSumValue)
           else
             case (if nRingSize > 1 \<and>
                       length s = 2 + ec_secret_size + (ec_secret_size + ec_compressed_size) * nat nRingSize
                   then CheckAnonInputAB E txin (nat nRingSize) vchImage preimage (- 1)
                   else CheckAnonInput E txin (nat nRingSize) vchImage preimage (- 1)) of
               None \<Rightarrow> (False, nSumValue)
             | Some nCoinValue \<Rightarrow>
                 CheckAnonInputs_loop E txnHash preimage fCheckExists (nSumValue + nCoinValue) r)"

definition CheckAnonInputs :: "'a anon_env_scheme \<Rightarrow> CTransaction \<Rightarrow> bool \<Rightarrow> bool \<times> u64" where
  "CheckAnonInputs E tx fCheckExists =
     (case GetTxnPreImage (an_crypto E) tx of None \<Rightarrow> (False, 0)
      | Some preimage \<Rightarrow>
          CheckAnonInputs_loop E (tx_GetHash (Hash (an_crypto E)) tx) preimage fCheckExists 0 (vin tx))"

end
