(* ===== verification/Solver.thy ===== *)
theory Solver
  imports Interpreter Anon
begin

text \<open>
  The standard forms of scripts, \<open>src/src/script.cpp\<close>: \<open>Solver\<close> matches a script against templates
  and returns the type of the script with its keys and hashes; \<open>SetDestination\<close> and
  \<open>SetMultisigpub\<close> write such scripts. The multimap of the templates lists the types in the order
  of the enumeration.
\<close>

datatype txnouttype = TX_NONSTANDARD | TX_PUBKEY | TX_PUBKEYHASH | TX_SCRIPTHASH | TX_MULTISIG | TX_NULL_DATA

abbreviation OP_SMALLDATA :: byte where "OP_SMALLDATA \<equiv> 0xf9"
abbreviation OP_SMALLINTEGER :: byte where "OP_SMALLINTEGER \<equiv> 0xfa"
abbreviation OP_PUBKEYS :: byte where "OP_PUBKEYS \<equiv> 0xfb"
abbreviation OP_PUBKEYHASH :: byte where "OP_PUBKEYHASH \<equiv> 0xfd"
abbreviation OP_PUBKEY :: byte where "OP_PUBKEY \<equiv> 0xfe"

definition MAX_OP_RETURN_RELAY :: nat where "MAX_OP_RETURN_RELAY = 48"

section \<open>Templates\<close>

definition mTemplates :: "(txnouttype \<times> CScript) list" where
  "mTemplates =
     [(TX_PUBKEY, [OP_PUBKEY, OP_CHECKSIG]),
      (TX_PUBKEYHASH, [OP_DUP, OP_HASH160, OP_PUBKEYHASH, OP_EQUALVERIFY, OP_CHECKSIG]),
      (TX_MULTISIG, [OP_SMALLINTEGER, OP_PUBKEYS, OP_SMALLINTEGER, OP_CHECKMULTISIG]),
      (TX_NULL_DATA, [OP_RETURN]),
      (TX_NULL_DATA, [OP_RETURN, OP_SMALLDATA]),
      (TX_NULL_DATA, [OP_RETURN, OP_SMALLDATA, OP_RETURN, OP_SMALLDATA])]"

text \<open>
  The loop over the keys of a multisignature; when the script ends there, \<open>GetOp\<close> leaves the invalid
  opcode and no data, which no template matches.
\<close>

function take_pubkeys ::
  "byte \<Rightarrow> valtype \<Rightarrow> CScript \<Rightarrow> valtype list \<Rightarrow> byte \<times> valtype \<times> CScript \<times> valtype list"
where
  "take_pubkeys opcode1 vch1 pc1 sols =
     (if length vch1 \<ge> 33 \<and> length vch1 \<le> 120 then
        (case GetOp2 pc1 of None \<Rightarrow> (OP_INVALIDOPCODE, [], [], sols @ [vch1])
         | Some (opcode, vch, pc) \<Rightarrow> take_pubkeys opcode vch pc (sols @ [vch1]))
      else (opcode1, vch1, pc1, sols))"
  by pat_completeness auto
termination by (relation "measure (\<lambda>(_, _, pc, _). length pc)") (auto dest: GetOp2_shorter)

declare take_pubkeys.simps [simp del]

lemma take_pubkeys_shorter: "take_pubkeys o1 v1 pc1 sols = (o', v', pc', sols') \<Longrightarrow> length pc' \<le> length pc1"
proof (induction o1 v1 pc1 sols rule: take_pubkeys.induct)
  case (1 o1 v1 pc1 sols)
  show ?case
  proof (cases "33 \<le> length v1 \<and> length v1 \<le> 120 \<and> GetOp2 pc1 \<noteq> None")
    case True
    then obtain opcode v pc where g: "GetOp2 pc1 = Some (opcode, v, pc)" by auto
    then have "take_pubkeys opcode v pc (sols @ [v1]) = (o', v', pc', sols')"
      using 1(2) True by (subst (asm) take_pubkeys.simps) simp
    from 1(1) [OF _ g refl refl this] True GetOp2_shorter [OF g] show ?thesis by simp
  next
    case False
    then show ?thesis using 1(2) by (subst (asm) take_pubkeys.simps) (auto split: if_splits option.splits)
  qed
qed

definition match_op :: "byte \<Rightarrow> valtype \<Rightarrow> byte \<Rightarrow> valtype \<Rightarrow> valtype list option" where
  "match_op opcode1 vch1 opcode2 vch2 =
     (if opcode2 = OP_PUBKEY then (if length vch1 < 33 \<or> length vch1 > 120 then None else Some [vch1])
      else if opcode2 = OP_PUBKEYHASH then (if length vch1 \<noteq> 20 then None else Some [vch1])
      else if opcode2 = OP_SMALLINTEGER then map_option (\<lambda>n. [[word_of_int n]]) (DecodeOP_N opcode1)
      else if opcode2 = OP_SMALLDATA then (if length vch1 > MAX_OP_RETURN_RELAY then None else Some [])
      else if opcode1 \<noteq> opcode2 \<or> vch1 \<noteq> vch2 then None
      else Some [])"

definition match_step :: "CScript \<Rightarrow> CScript \<Rightarrow> valtype list \<Rightarrow> (CScript \<times> CScript \<times> valtype list) option" where
  "match_step pc1 pc2 sols =
     do {
       (opcode1, vch1, pc1) \<leftarrow> GetOp2 pc1;
       (opcode2, vch2, pc2) \<leftarrow> GetOp2 pc2;
       (opcode1, vch1, pc1, opcode2, vch2, pc2, sols) \<leftarrow>
         (if opcode2 = OP_PUBKEYS then
            (let (opcode1, vch1, pc1, sols) = take_pubkeys opcode1 vch1 pc1 sols
             in map_option (\<lambda>(opcode2, vch2, pc2). (opcode1, vch1, pc1, opcode2, vch2, pc2, sols)) (GetOp2 pc2))
          else Some (opcode1, vch1, pc1, opcode2, vch2, pc2, sols));
       new \<leftarrow> match_op opcode1 vch1 opcode2 vch2;
       Some (pc1, pc2, sols @ new)
     }"

lemma match_step_shorter: "match_step pc1 pc2 sols = Some (pc1', pc2', sols') \<Longrightarrow> length pc1' < length pc1"
  by (auto simp: match_step_def split: Option.bind_splits if_splits prod.splits
      dest!: GetOp2_shorter dest: take_pubkeys_shorter le_less_trans)

function match_template :: "CScript \<Rightarrow> CScript \<Rightarrow> valtype list \<Rightarrow> valtype list option" where
  "match_template pc1 pc2 sols =
     (if pc1 = [] \<and> pc2 = [] then Some sols
      else case match_step pc1 pc2 sols of None \<Rightarrow> None
           | Some (pc1', pc2', sols') \<Rightarrow> match_template pc1' pc2' sols')"
  by pat_completeness auto
termination by (relation "measure (\<lambda>(pc, _, _). length pc)") (auto dest: match_step_shorter)

declare match_template.simps [simp del]

fun scan_templates :: "CScript \<Rightarrow> (txnouttype \<times> CScript) list \<Rightarrow> bool \<times> txnouttype \<times> valtype list" where
  "scan_templates script1 [] = (False, TX_NONSTANDARD, [])"
| "scan_templates script1 ((t, script2) # r) =
     (case match_template script1 script2 [] of None \<Rightarrow> scan_templates script1 r
      | Some sols \<Rightarrow>
          if t = TX_MULTISIG then
            (let m = hd sols ! 0; n = last sols ! 0
             in (\<not> (m < 1 \<or> n < 1 \<or> m > n \<or> length sols - 2 \<noteq> unat n), t, sols))
          else (True, t, sols))"

definition Solver :: "CScript \<Rightarrow> bool \<times> txnouttype \<times> valtype list" where
  "Solver script =
     (if IsPayToScriptHash script then (True, TX_SCRIPTHASH, [take 20 (drop 2 script)])
      else scan_templates script mTemplates)"

definition ScriptSigArgsExpected :: "txnouttype \<Rightarrow> valtype list \<Rightarrow> int" where
  "ScriptSigArgsExpected t vSolutions =
     (case t of TX_NONSTANDARD \<Rightarrow> - 1 | TX_NULL_DATA \<Rightarrow> - 1 | TX_PUBKEY \<Rightarrow> 1 | TX_PUBKEYHASH \<Rightarrow> 2
      | TX_MULTISIG \<Rightarrow>
          if length vSolutions < 1 \<or> length (vSolutions ! 0) < 1 then - 1 else uint (vSolutions ! 0 ! 0) + 1
      | TX_SCRIPTHASH \<Rightarrow> 1)"

definition IsStandard :: "CScript \<Rightarrow> bool \<times> txnouttype" where
  "IsStandard script =
     (let (f, whichType, vSolutions) = Solver script
      in if \<not> f then (False, whichType)
         else if whichType = TX_MULTISIG then
           (let m = hd vSolutions ! 0; n = last vSolutions ! 0
            in if n < 1 \<or> n > 3 then (False, whichType)
               else if m < 1 \<or> m > n then (False, whichType)
               else (True, whichType))
         else (whichType \<noteq> TX_NONSTANDARD, whichType))"

section \<open>Destinations\<close>

text \<open>The address of a stealth payment, \<open>stealth.h\<close>.\<close>

record stealth_prefix =
  sp_number_bits :: byte
  sp_bitfield :: u32

record CStealthAddress =
  st_options :: byte
  st_scan_pubkey :: "byte list"
  st_spend_pubkey :: "byte list"
  st_number_signatures :: u64
  st_prefix :: stealth_prefix
  st_label :: string
  st_scan_secret :: "byte list"
  st_spend_secret :: "byte list"

datatype CTxDestination =
  NoDestination | DestKeyID base_uint | DestScriptID base_uint | DestStealth CStealthAddress

definition CPubKey_GetID :: "crypto \<Rightarrow> byte list \<Rightarrow> base_uint" where
  "CPubKey_GetID C pubkey = Hash160 C (take (CPubKey_GetLen (pubkey ! 0)) pubkey)"

definition ExtractDestination :: "crypto \<Rightarrow> CScript \<Rightarrow> CTxDestination option" where
  "ExtractDestination C script =
     (let (f, whichType, vSolutions) = Solver script
      in if \<not> f then None
         else if whichType = TX_PUBKEY then Some (DestKeyID (CPubKey_GetID C (CPubKey_Set (vSolutions ! 0))))
         else if whichType = TX_PUBKEYHASH then Some (DestKeyID (bu_of_vector 5 (vSolutions ! 0)))
         else if whichType = TX_SCRIPTHASH then Some (DestScriptID (bu_of_vector 5 (vSolutions ! 0)))
         else None)"

definition push_uint160 :: "CScript \<Rightarrow> base_uint \<Rightarrow> CScript" where
  "push_uint160 script b = script @ [20] @ bu_bytes b"

text \<open>Every case of the visitor first clears the script; \<open>SetDestination\<close> ignores its answer.\<close>

fun CScriptVisitor :: "CTxDestination \<Rightarrow> bool \<times> CScript" where
  "CScriptVisitor NoDestination = (False, [])"
| "CScriptVisitor (DestKeyID keyID) =
     (True,
      push_opcode (push_opcode (push_uint160 (push_opcode (push_opcode [] OP_DUP) OP_HASH160) keyID) OP_EQUALVERIFY) OP_CHECKSIG)"
| "CScriptVisitor (DestScriptID scriptID) =
     (True, push_opcode (push_uint160 (push_opcode [] OP_HASH160) scriptID) OP_EQUAL)"
| "CScriptVisitor (DestStealth stxAddr) = (False, [])"

definition SetDestination :: "CTxDestination \<Rightarrow> CScript" where
  "SetDestination dest = snd (CScriptVisitor dest)"

definition SetMultisigpub :: "int \<Rightarrow> byte list list \<Rightarrow> CScript option" where
  "SetMultisigpub nRequired keys =
     do {
       m \<leftarrow> EncodeOP_N nRequired;
       let script = push_opcode [] m;
       let script = fold (\<lambda>key script. push_data script key) keys script;
       n \<leftarrow> EncodeOP_N (int (length keys));
       Some (push_opcode (push_opcode script n) OP_CHECKMULTISIG)
     }"

section \<open>Standard transactions\<close>

text \<open>
  The check of the inputs; an exception of \<open>GetOutputFor\<close> is \<open>None\<close>. The evaluation of an input is
  an argument, \<open>eval i\<close>, which is \<open>EvalScript\<close> on an empty stack for the input \<open>i\<close>. An input with a
  script that is no standard form decides for all inputs.
\<close>

definition MAX_P2SH_SIGOPS :: nat where "MAX_P2SH_SIGOPS = 15"

definition FutureDrift :: "int \<Rightarrow> int" where "FutureDrift nTime = nTime + 10 * 60"

fun AreInputsStandard_loop ::
  "(nat \<Rightarrow> CScript \<Rightarrow> valtype list option) \<Rightarrow> bool \<Rightarrow> 'i MapPrevTx \<Rightarrow> nat \<Rightarrow> CTxIn list \<Rightarrow> bool option"
where
  "AreInputsStandard_loop eval fAnon mapInputs i [] = Some True"
| "AreInputsStandard_loop eval fAnon mapInputs i (txin # r) =
     (if fAnon \<and> IsAnonInput txin then AreInputsStandard_loop eval fAnon mapInputs (i + 1) r
      else case GetOutputFor txin mapInputs of None \<Rightarrow> None
      | Some prev \<Rightarrow>
          let (f, whichType, vSolutions) = Solver (scriptPubKey prev);
              nArgsExpected = ScriptSigArgsExpected whichType vSolutions
          in if \<not> f \<or> nArgsExpected < 0 then Some False
             else case eval i (scriptSig txin) of None \<Rightarrow> Some False
             | Some stack \<Rightarrow>
                 if whichType = TX_SCRIPTHASH then
                   (if stack = [] then Some False
                    else
                      let (f2, whichType2, vSolutions2) = Solver (hd stack);
                          tmpExpected = ScriptSigArgsExpected whichType2 vSolutions2
                      in if f2 then
                           (if tmpExpected < 0 then Some False
                            else if int (length stack) \<noteq> nArgsExpected + tmpExpected then Some False
                            else AreInputsStandard_loop eval fAnon mapInputs (i + 1) r)
                         else Some (GetSigOpCount True (hd stack) \<le> MAX_P2SH_SIGOPS))
                 else if int (length stack) \<noteq> nArgsExpected then Some False
                 else AreInputsStandard_loop eval fAnon mapInputs (i + 1) r)"

definition AreInputsStandard ::
  "(nat \<Rightarrow> CScript \<Rightarrow> valtype list option) \<Rightarrow> CTransaction \<Rightarrow> 'i MapPrevTx \<Rightarrow> bool option"
where
  "AreInputsStandard eval tx mapInputs =
     (if IsCoinBase tx then Some True
      else AreInputsStandard_loop eval (tx_nVersion tx = ANON_TXN_VERSION) mapInputs 0 (vin tx))"

text \<open>The text of the reason of a refusal is left out.\<close>

definition MAX_STANDARD_TX_SIZE :: nat where "MAX_STANDARD_TX_SIZE = 1000000 div 2 div 5"
definition NAMECOIN_TX_VERSION :: u32 where "NAMECOIN_TX_VERSION = 0x0333"
definition MAX_ANON_NARRATION_SIZE :: nat where "MAX_ANON_NARRATION_SIZE = 48"

definition standard_input :: "bool \<Rightarrow> CTxIn \<Rightarrow> bool" where
  "standard_input fAnon txin =
     (if IsAnonInput txin then
        (let nRingSize = sint (ExtractRingSize txin)
         in \<not> (\<not> fAnon \<or> nRingSize < MIN_RING_SIZE \<or> nRingSize > MAX_RING_SIZE \<or>
               int (length (scriptSig txin)) > 36 + 2 + (33 + 32 + 32) * nRingSize))
      else if length (scriptSig txin) > 1650 then False
      else if \<not> IsPushOnly (scriptSig txin) then False
      else HasCanonicalPushes (scriptSig txin))"

fun standard_outputs :: "bool \<Rightarrow> bool \<Rightarrow> nat \<Rightarrow> nat \<Rightarrow> CTxOut list \<Rightarrow> bool" where
  "standard_outputs fAnon fEnforceCanonical nDataOut nTxnOut [] = (\<not> nDataOut > nTxnOut)"
| "standard_outputs fAnon fEnforceCanonical nDataOut nTxnOut (txout # r) =
     (if IsAnonOutput txout then
        (if \<not> fAnon \<or> sint (nValue txout) < 1 \<or> length (scriptPubKey txout) > MIN_ANON_OUT_SIZE + MAX_ANON_NARRATION_SIZE
         then False else standard_outputs fAnon fEnforceCanonical nDataOut nTxnOut r)
      else
        let (f, whichType) = IsStandard (scriptPubKey txout)
        in if \<not> f then False
           else if whichType \<noteq> TX_NULL_DATA \<and> nValue txout = 0 then False
           else if fEnforceCanonical \<and> \<not> HasCanonicalPushes (scriptPubKey txout) then False
           else if whichType = TX_NULL_DATA then standard_outputs fAnon fEnforceCanonical (nDataOut + 1) nTxnOut r
           else standard_outputs fAnon fEnforceCanonical nDataOut (nTxnOut + 1) r)"

definition IsStandardTx :: "int \<Rightarrow> int \<Rightarrow> bool \<Rightarrow> CTransaction \<Rightarrow> bool" where
  "IsStandardTx nBestHeight adjustedTime fEnforceCanonical tx =
     (let fAnon = (tx_nVersion tx = ANON_TXN_VERSION)
      in if sint (tx_nVersion tx) > 1 \<and> \<not> fAnon \<and> tx_nVersion tx \<noteq> NAMECOIN_TX_VERSION then False
         else if \<not> tx_IsFinal nBestHeight adjustedTime tx (nBestHeight + 1) 0 then False
         else if uint (tx_nTime tx) > FutureDrift adjustedTime then False
         else if GetSerializeSize_CTransaction tx \<ge> MAX_STANDARD_TX_SIZE then False
         else if \<not> list_all (standard_input fAnon) (vin tx) then False
         else standard_outputs fAnon fEnforceCanonical 0 0 (vout tx))"

end
