(* ===== verification/Merkle.thy ===== *)
theory Merkle
  imports Uint256
begin

text \<open>
  The Merkle tree of a block, from the class \<open>CBlock\<close> of \<open>src/src/main.h\<close>: all levels lie one
  after the other in the vector \<open>vMerkleTree\<close>, and a level of odd size pairs its last hash with
  itself. The double SHA-256 of OpenSSL on the bytes of two hashes is the parameter \<open>H\<close>. The
  branch of a transaction is shown to lead to the root, for every position, and a branch that leads
  to the root can belong to another hash only if \<open>H\<close> has a collision.
\<close>

definition push_level :: "(base_uint \<Rightarrow> base_uint \<Rightarrow> base_uint) \<Rightarrow> nat \<Rightarrow> nat \<Rightarrow> base_uint list \<Rightarrow> base_uint list" where
  "push_level H j nSize tree =
     fold (\<lambda>k tree. let i = 2 * k; i2 = min (i + 1) (nSize - 1)
        in tree @ [H (tree ! (j + i)) (tree ! (j + i2))]) [0..<(nSize + 1) div 2] tree"

function BuildMerkleTree_loop ::
  "(base_uint \<Rightarrow> base_uint \<Rightarrow> base_uint) \<Rightarrow> nat \<Rightarrow> nat \<Rightarrow> base_uint list \<Rightarrow> base_uint list"
where
  "BuildMerkleTree_loop H j nSize tree =
     (if nSize > 1 then BuildMerkleTree_loop H (j + nSize) ((nSize + 1) div 2) (push_level H j nSize tree)
      else tree)"
  by pat_completeness auto
termination by (relation "measure (\<lambda>(_, _, n, _). n)") auto

declare BuildMerkleTree_loop.simps [simp del]

definition vMerkleTree :: "(base_uint \<Rightarrow> base_uint \<Rightarrow> base_uint) \<Rightarrow> base_uint list \<Rightarrow> base_uint list" where
  "vMerkleTree H vtx = BuildMerkleTree_loop H 0 (length vtx) vtx"

definition BuildMerkleTree :: "(base_uint \<Rightarrow> base_uint \<Rightarrow> base_uint) \<Rightarrow> base_uint list \<Rightarrow> base_uint" where
  "BuildMerkleTree H vtx = (let tree = vMerkleTree H vtx in if tree = [] then bu_set64 WIDTH256 0 else last tree)"

function GetMerkleBranch_loop :: "base_uint list \<Rightarrow> nat \<Rightarrow> nat \<Rightarrow> nat \<Rightarrow> base_uint list" where
  "GetMerkleBranch_loop tree j nSize nIndex =
     (if nSize > 1 then
        (let i = min (nIndex XOR 1) (nSize - 1)
         in tree ! (j + i) # GetMerkleBranch_loop tree (j + nSize) ((nSize + 1) div 2) (drop_bit 1 nIndex))
      else [])"
  by pat_completeness auto
termination by (relation "measure (\<lambda>(_, _, n, _). n)") auto

declare GetMerkleBranch_loop.simps [simp del]

definition GetMerkleBranch :: "(base_uint \<Rightarrow> base_uint \<Rightarrow> base_uint) \<Rightarrow> base_uint list \<Rightarrow> nat \<Rightarrow> base_uint list" where
  "GetMerkleBranch H vtx nIndex = GetMerkleBranch_loop (vMerkleTree H vtx) 0 (length vtx) nIndex"

fun CheckMerkleBranch_loop ::
  "(base_uint \<Rightarrow> base_uint \<Rightarrow> base_uint) \<Rightarrow> base_uint \<Rightarrow> base_uint list \<Rightarrow> int \<Rightarrow> base_uint"
where
  "CheckMerkleBranch_loop H hash [] nIndex = hash"
| "CheckMerkleBranch_loop H hash (otherside # rest) nIndex =
     CheckMerkleBranch_loop H (if nIndex AND 1 \<noteq> 0 then H otherside hash else H hash otherside) rest (drop_bit 1 nIndex)"

definition CheckMerkleBranch ::
  "(base_uint \<Rightarrow> base_uint \<Rightarrow> base_uint) \<Rightarrow> base_uint \<Rightarrow> base_uint list \<Rightarrow> int \<Rightarrow> base_uint"
where
  "CheckMerkleBranch H hash vMerkleBranch nIndex =
     (if nIndex = - 1 then bu_set64 WIDTH256 0 else CheckMerkleBranch_loop H hash vMerkleBranch nIndex)"

section \<open>Levels\<close>

text \<open>The specification: the level above a level, and the levels up to the root.\<close>

definition next_level :: "('h \<Rightarrow> 'h \<Rightarrow> 'h) \<Rightarrow> 'h list \<Rightarrow> 'h list" where
  "next_level H r = map (\<lambda>k. H (r ! (2 * k)) (r ! min (2 * k + 1) (length r - 1))) [0..<(length r + 1) div 2]"

lemma length_next_level [simp]: "length (next_level H r) = (length r + 1) div 2"
  by (simp add: next_level_def)

function merkle_root :: "('h \<Rightarrow> 'h \<Rightarrow> 'h) \<Rightarrow> 'h list \<Rightarrow> 'h" where
  "merkle_root H r = (if length r > 1 then merkle_root H (next_level H r) else hd r)"
  by pat_completeness auto
termination by (relation "measure (\<lambda>(_, r). length r)") auto

function merkle_path :: "('h \<Rightarrow> 'h \<Rightarrow> 'h) \<Rightarrow> 'h list \<Rightarrow> nat \<Rightarrow> 'h list" where
  "merkle_path H r i =
     (if length r > 1 then r ! min (i XOR 1) (length r - 1) # merkle_path H (next_level H r) (i div 2) else [])"
  by pat_completeness auto
termination by (relation "measure (\<lambda>(_, r, _). length r)") auto

declare merkle_root.simps [simp del] merkle_path.simps [simp del]

lemma push_level_next:
  assumes "j + nSize = length tree" and "0 < nSize"
  shows "push_level H j nSize tree = tree @ next_level H (drop j tree)"
proof -
  let ?f = "\<lambda>k tree. let i = 2 * k; i2 = min (i + 1) (nSize - 1) in tree @ [H (tree ! (j + i)) (tree ! (j + i2))]"
  have "fold ?f [0..<m] tree = tree @ map (\<lambda>k. H (tree ! (j + 2 * k)) (tree ! (j + min (2 * k + 1) (nSize - 1)))) [0..<m]"
    if "m \<le> (nSize + 1) div 2" for m
    using that
  proof (induction m)
    case (Suc m)
    then have "2 * m < nSize" by linarith
    moreover have "j + min (2 * m + 1) (nSize - 1) < length tree" using assms by (auto simp: min_def)
    ultimately show ?case using Suc assms by (simp add: Let_def nth_append)
  qed simp
  moreover have "length tree - j = nSize" "length tree - Suc j = nSize - Suc 0" using assms by simp_all
  ultimately show ?thesis using assms
    by (simp add: push_level_def next_level_def Let_def add.assoc)
qed

lemma loop_levels:
  assumes "j + nSize = length tree" and "0 < nSize"
  shows "\<exists>up. BuildMerkleTree_loop H j nSize tree = tree @ up \<and> last (tree @ up) = merkle_root H (drop j tree)"
  using assms
proof (induction H j nSize tree rule: BuildMerkleTree_loop.induct)
  case (1 H j nSize tree)
  have l: "length (drop j tree) = nSize" using 1(2) by simp
  show ?case
  proof (cases "nSize > 1")
    case True
    have p: "push_level H j nSize tree = tree @ next_level H (drop j tree)" using 1(2,3) by (rule push_level_next)
    obtain up where "BuildMerkleTree_loop H (j + nSize) ((nSize + 1) div 2) (push_level H j nSize tree) = push_level H j nSize tree @ up"
        "last (push_level H j nSize tree @ up) = merkle_root H (drop (j + nSize) (push_level H j nSize tree))"
      using 1(2) l True 1(1) [OF True] by (auto simp: p)
    moreover have "drop (j + nSize) (push_level H j nSize tree) = next_level H (drop j tree)"
      using 1(2) by (simp add: p)
    moreover have "merkle_root H (drop j tree) = merkle_root H (next_level H (drop j tree))"
      using True l by (subst merkle_root.simps) simp
    moreover have "BuildMerkleTree_loop H j nSize tree = BuildMerkleTree_loop H (j + nSize) ((nSize + 1) div 2) (push_level H j nSize tree)"
      using True by (subst BuildMerkleTree_loop.simps) simp
    ultimately show ?thesis by (intro exI [of _ "next_level H (drop j tree) @ up"]) (simp add: p)
  next
    case False
    then have "nSize = 1" using 1(3) by simp
    with l obtain x where x: "drop j tree = [x]" by (cases "drop j tree") auto
    then have "last tree = x" using last_drop [of j tree] 1(2,3) by simp
    then show ?thesis using False x
      by (subst BuildMerkleTree_loop.simps) (simp add: merkle_root.simps)
  qed
qed

lemma branch_levels:
  assumes "j + nSize = length tree" and "0 < nSize"
  shows "GetMerkleBranch_loop (BuildMerkleTree_loop H j nSize tree) j nSize i = merkle_path H (drop j tree) i"
  using assms
proof (induction H j nSize tree arbitrary: i rule: BuildMerkleTree_loop.induct)
  case (1 H j nSize tree)
  have l: "length (drop j tree) = nSize" using 1(2) by simp
  show ?case
  proof (cases "nSize > 1")
    case True
    have p: "push_level H j nSize tree = tree @ next_level H (drop j tree)" using 1(2,3) by (rule push_level_next)
    let ?T = "BuildMerkleTree_loop H j nSize tree"
    have T: "?T = BuildMerkleTree_loop H (j + nSize) ((nSize + 1) div 2) (push_level H j nSize tree)"
      using True by (subst BuildMerkleTree_loop.simps) simp
    have "drop (j + nSize) (push_level H j nSize tree) = next_level H (drop j tree)" using 1(2) by (simp add: p)
    moreover have "GetMerkleBranch_loop ?T (j + nSize) ((nSize + 1) div 2) (i div 2) =
        merkle_path H (drop (j + nSize) (push_level H j nSize tree)) (i div 2)"
      unfolding T using 1(2) l True by (intro 1(1) [OF True]) (simp_all add: p)
    moreover obtain up where "?T = tree @ up" using loop_levels [OF 1(2,3)] by blast
    then have "?T ! (j + min (i XOR 1) (nSize - 1)) = drop j tree ! min (i XOR 1) (nSize - 1)"
    proof -
      assume T': "?T = tree @ up"
      have "j + min (i XOR 1) (nSize - 1) < length tree" using 1(2) True by (auto simp: min_def)
      then show ?thesis using True 1(2) by (simp add: T' nth_append)
    qed
    ultimately show ?thesis using True l
      by (subst GetMerkleBranch_loop.simps, subst merkle_path.simps) (simp add: Let_def drop_bit_eq_div)
  next
    case False
    then show ?thesis using l by (subst GetMerkleBranch_loop.simps, subst merkle_path.simps) simp
  qed
qed

lemma BuildMerkleTree_root: "vtx \<noteq> [] \<Longrightarrow> BuildMerkleTree H vtx = merkle_root H vtx"
  using loop_levels [of 0 "length vtx" vtx H] by (auto simp: BuildMerkleTree_def vMerkleTree_def Let_def)

lemma GetMerkleBranch_path: "vtx \<noteq> [] \<Longrightarrow> GetMerkleBranch H vtx i = merkle_path H vtx i"
  using branch_levels [of 0 "length vtx" vtx H] by (simp add: GetMerkleBranch_def vMerkleTree_def)

section \<open>Branches\<close>

lemma index_pair:
  fixes i n :: nat
  assumes "i < n" "1 < n"
  shows "i div 2 < (n + 1) div 2"
    and "even i \<Longrightarrow> 2 * (i div 2) = i \<and> min (i XOR 1) (n - 1) = min (2 * (i div 2) + 1) (n - 1)"
    and "odd i \<Longrightarrow> min (2 * (i div 2) + 1) (n - 1) = i \<and> min (i XOR 1) (n - 1) = 2 * (i div 2)"
proof -
  show "i div 2 < (n + 1) div 2" using assms by linarith
  show "2 * (i div 2) = i \<and> min (i XOR 1) (n - 1) = min (2 * (i div 2) + 1) (n - 1)" if "even i"
    using that by (simp add: xor_one_eq del: One_nat_def)
  show "min (2 * (i div 2) + 1) (n - 1) = i \<and> min (i XOR 1) (n - 1) = 2 * (i div 2)" if "odd i"
  proof -
    have "i = 2 * (i div 2) + 1" using that by simp
    moreover have "i XOR 1 = 2 * (i div 2)" using that by (simp add: xor_one_eq del: One_nat_def)
    ultimately show ?thesis using assms by linarith
  qed
qed

lemma nth_next_level_at:
  "k < (length r + 1) div 2 \<Longrightarrow> next_level H r ! k = H (r ! (2 * k)) (r ! min (2 * k + 1) (length r - 1))"
  by (simp add: next_level_def)

lemma nth_next_level:
  assumes "i < length r" "1 < length r"
  shows "next_level H r ! (i div 2) =
    (if odd i then H (r ! min (i XOR 1) (length r - 1)) (r ! i) else H (r ! i) (r ! min (i XOR 1) (length r - 1)))"
  using index_pair [OF assms] by (simp add: next_level_def)

lemma odd_int_nat: "(int i AND 1 \<noteq> 0) = odd i" "drop_bit 1 (int i) = int (i div 2)"
  by (simp_all add: and_one_eq drop_bit_eq_div zdiv_int mod2_eq_if)

lemma CheckMerkleBranch_path:
  "i < length r \<Longrightarrow> CheckMerkleBranch_loop H (r ! i) (merkle_path H r i) (int i) = merkle_root H r"
proof (induction H r i rule: merkle_path.induct)
  case (1 H r i)
  show ?case
  proof (cases "length r > 1")
    case True
    have "i div 2 < length (next_level H r)" using index_pair(1) [OF 1(2) True] by simp
    with 1(1) [OF True] True show ?thesis
      by (subst merkle_path.simps, subst merkle_root.simps)
        (simp only: True if_True CheckMerkleBranch_loop.simps odd_int_nat nth_next_level [OF 1(2) True] split: if_splits)
  next
    case False
    then have "i = 0" "r \<noteq> []" using 1(2) by auto
    then show ?thesis using False
      by (subst merkle_path.simps, subst merkle_root.simps) (simp add: hd_conv_nth)
  qed
qed

text \<open>
  The pairs of hashes that the check of a branch hashes. A branch of the right length that leads
  to the root from a position of the tree belongs to the hash at that position, or two different
  pairs, one hashed for this branch and one for the branch of the tree, have the same hash.
\<close>

fun check_pairs :: "('h \<Rightarrow> 'h \<Rightarrow> 'h) \<Rightarrow> 'h \<Rightarrow> 'h list \<Rightarrow> nat \<Rightarrow> ('h \<times> 'h) list" where
  "check_pairs H hash [] i = []"
| "check_pairs H hash (otherside # rest) i =
     (let p = (if odd i then (otherside, hash) else (hash, otherside))
      in p # check_pairs H (H (fst p) (snd p)) rest (i div 2))"

definition collision :: "('h \<Rightarrow> 'h \<Rightarrow> 'h) \<Rightarrow> ('h \<times> 'h) list \<Rightarrow> ('h \<times> 'h) list \<Rightarrow> bool" where
  "collision H ps qs \<longleftrightarrow> (\<exists>p \<in> set ps. \<exists>q \<in> set qs. p \<noteq> q \<and> H (fst p) (snd p) = H (fst q) (snd q))"

lemma collision_Cons: "collision H ps qs \<Longrightarrow> collision H (p # ps) (q # qs)"
  unfolding collision_def by (meson list.set_intros(2))

lemma CheckMerkleBranch_binding:
  "i < length r \<Longrightarrow> length br = length (merkle_path H r i) \<Longrightarrow>
    CheckMerkleBranch_loop H h br (int i) = merkle_root H r \<Longrightarrow>
    (h = r ! i \<and> br = merkle_path H r i) \<or>
    collision H (check_pairs H h br i) (check_pairs H (r ! i) (merkle_path H r i) i)"
proof (induction H r i arbitrary: h br rule: merkle_path.induct)
  case (1 H r i)
  show ?case
  proof (cases "length r > 1")
    case True
    let ?o = "r ! min (i XOR 1) (length r - 1)"
    have path: "merkle_path H r i = ?o # merkle_path H (next_level H r) (i div 2)"
      using True by (subst merkle_path.simps) simp
    obtain x xs where br: "br = x # xs" using 1(3) path by (cases br) auto
    let ?p = "if odd i then (x, h) else (h, x)" and ?q = "if odd i then (?o, r ! i) else (r ! i, ?o)"
    define g where "g = H (fst ?p) (snd ?p)"
    have g: "g = (if odd i then H x h else H h x)" by (simp add: g_def)
    have n: "next_level H r ! (i div 2) = H (fst ?q) (snd ?q)"
      by (simp add: nth_next_level [OF \<open>i < length r\<close> True])
    have root: "merkle_root H r = merkle_root H (next_level H r)" using True by (subst merkle_root.simps) simp
    have "i div 2 < length (next_level H r)" using index_pair(1) [OF 1(2) True] by simp
    moreover have "length xs = length (merkle_path H (next_level H r) (i div 2))" using 1(3) by (simp add: br path)
    moreover have "CheckMerkleBranch_loop H g xs (int (i div 2)) = merkle_root H (next_level H r)"
      using 1(4) unfolding br root g CheckMerkleBranch_loop.simps odd_int_nat .
    ultimately consider "g = next_level H r ! (i div 2)" "xs = merkle_path H (next_level H r) (i div 2)"
      | "collision H (check_pairs H g xs (i div 2))
          (check_pairs H (next_level H r ! (i div 2)) (merkle_path H (next_level H r) (i div 2)) (i div 2))"
      using 1(1) [OF True] by blast
    then show ?thesis
    proof cases
      case 1
      have c: "check_pairs H h br i = ?p # check_pairs H g xs (i div 2)"
        "check_pairs H (r ! i) (merkle_path H r i) i = ?q # check_pairs H (H (fst ?q) (snd ?q)) xs (i div 2)"
        by (simp_all add: br path g_def Let_def 1(2))
      show ?thesis
      proof (cases "?p = ?q")
        case True
        then have "h = r ! i" "x = ?o" by (auto split: if_splits)
        then show ?thesis by (simp add: br path 1(2))
      next
        case False
        moreover have "H (fst ?p) (snd ?p) = H (fst ?q) (snd ?q)" using 1(1) n by (simp only: g_def)
        ultimately show ?thesis unfolding c collision_def by (intro disjI2 bexI [of _ ?p] bexI [of _ ?q]) auto
      qed
    next
      case 2
      then show ?thesis
        unfolding br path check_pairs.simps Let_def g_def n by (intro disjI2 collision_Cons)
    qed
  next
    case False
    then have "i = 0" "r \<noteq> []" using 1(2) by auto
    then show ?thesis using False 1(3,4)
      by (simp add: merkle_path.simps [of H r] merkle_root.simps [of H r] hd_conv_nth)
  qed
qed

text \<open>The tree of an odd number of hashes is also the tree of the list with the last one repeated.\<close>

lemma root_duplicate:
  assumes "odd (length r)" "1 < length r"
  shows "merkle_root H (r @ [last r]) = merkle_root H r"
proof -
  have "next_level H (r @ [last r]) = next_level H r"
  proof (rule nth_equalityI)
    show "length (next_level H (r @ [last r])) = length (next_level H r)" using assms(1) by simp
    fix k assume k: "k < length (next_level H (r @ [last r]))"
    then have k: "k < (length r + 1) div 2" using assms(1) by simp
    have r: "length r = 2 * (length r div 2) + 1" using assms(1) by simp
    show "next_level H (r @ [last r]) ! k = next_level H r ! k"
    proof (cases "k = length r div 2")
      case True
      then have e: "2 * k = length r - 1" "k < length r - k" "r \<noteq> []" using r assms(2) by auto
      have "next_level H r ! k = H (last r) (last r)"
        using e by (simp add: nth_next_level_at [OF k] last_conv_nth)
      moreover have "k < (length (r @ [last r]) + 1) div 2" using k assms by simp
      then have "next_level H (r @ [last r]) ! k = H (last r) (last r)"
        using e by (simp add: nth_next_level_at last_conv_nth nth_append)
      ultimately show ?thesis by simp
    next
      case False
      then have "2 * k + 1 < length r" using k r by linarith
      then show ?thesis using k assms by (simp add: next_level_def nth_append min_def)
    qed
  qed
  moreover have "r \<noteq> []" using assms(2) by auto
  ultimately show ?thesis using assms by (simp add: merkle_root.simps [of H "r @ [last r]"] merkle_root.simps [of H r])
qed

end
