(* ===== verification/Block.thy ===== *)
theory Block
  imports Solver Merkle Chain
begin

text \<open>
  Blocks: the class \<open>CBlock\<close> of \<open>src/src/main.h\<close>, and the checks of a block that need no chain,
  \<open>CheckBlock\<close> of \<open>src/src/main.cpp\<close>. The hash of the header is the argument \<open>pow\<close>, a function of
  the bytes from \<open>nVersion\<close> to \<open>nNonce\<close>; it is \<open>Tribus\<close>, which returns for every header. The
  adjusted time is an argument, and \<open>nDoS\<close> a member that a check returns with the block, and with
  the transaction that failed.
\<close>

record CBlock =
  cb_nVersion :: u32
  cb_hashPrevBlock :: base_uint
  cb_hashMerkleRoot :: base_uint
  cb_nTime :: u32
  cb_nBits :: u32
  cb_nNonce :: u32
  cb_vtx :: "CTransaction list"
  cb_vchBlockSig :: "byte list"
  cb_nDoS :: int

definition cb_DoS :: "int \<Rightarrow> bool \<Rightarrow> CBlock \<Rightarrow> bool \<times> CBlock" where
  "cb_DoS nDoSIn fIn b = (fIn, b\<lparr>cb_nDoS := cb_nDoS b + nDoSIn\<rparr>)"

definition cb_SetNull :: "CBlock" where
  "cb_SetNull = \<lparr>cb_nVersion = 6, cb_hashPrevBlock = bu_set64 WIDTH256 0, cb_hashMerkleRoot = bu_set64 WIDTH256 0,
     cb_nTime = 0, cb_nBits = 0, cb_nNonce = 0, cb_vtx = [], cb_vchBlockSig = [], cb_nDoS = 0\<rparr>"

definition cb_IsNull :: "CBlock \<Rightarrow> bool" where
  "cb_IsNull b \<longleftrightarrow> cb_nBits b = 0"

section \<open>Serialization and hashes\<close>

definition Serialize_header :: "CBlock \<Rightarrow> byte list" where
  "Serialize_header b =
     Serialize_u32 (cb_nVersion b) @ Serialize_uint256 (cb_hashPrevBlock b) @ Serialize_uint256 (cb_hashMerkleRoot b) @
     Serialize_u32 (cb_nTime b) @ Serialize_u32 (cb_nBits b) @ Serialize_u32 (cb_nNonce b)"

definition Serialize_CBlock :: "CBlock \<Rightarrow> byte list" where
  "Serialize_CBlock b =
     Serialize_header b @ Serialize_vec Serialize_CTransaction (cb_vtx b) @ Serialize_bytes (cb_vchBlockSig b)"

definition Unserialize_CBlock :: "CBlock reader" where
  "Unserialize_CBlock s =
     do {
       (ver, s) \<leftarrow> Unserialize_u32 s;
       (prev, s) \<leftarrow> Unserialize_uint256 s;
       (root, s) \<leftarrow> Unserialize_uint256 s;
       (time, s) \<leftarrow> Unserialize_u32 s;
       (bits, s) \<leftarrow> Unserialize_u32 s;
       (nonce, s) \<leftarrow> Unserialize_u32 s;
       (txs, s) \<leftarrow> Unserialize_vec Unserialize_CTransaction (5000000 div 64) s;
       (sig, s) \<leftarrow> Unserialize_bytes s;
       Some (\<lparr>cb_nVersion = ver, cb_hashPrevBlock = prev, cb_hashMerkleRoot = root, cb_nTime = time,
         cb_nBits = bits, cb_nNonce = nonce, cb_vtx = txs, cb_vchBlockSig = sig, cb_nDoS = 0\<rparr>, s)
     }"

definition GetSerializeSize_CBlock :: "CBlock \<Rightarrow> nat" where
  "GetSerializeSize_CBlock b =
     4 + 32 + 32 + 4 + 4 + 4 + GetSerializeSize_vec GetSerializeSize_CTransaction (cb_vtx b) +
     GetSerializeSize_bytes (cb_vchBlockSig b)"

text \<open>The memory from \<open>nVersion\<close> to \<open>nNonce\<close>, which has no padding.\<close>

definition header_memory :: "CBlock \<Rightarrow> byte list" where
  "header_memory b =
     native_store32 (cb_nVersion b) @ bu_bytes (cb_hashPrevBlock b) @ bu_bytes (cb_hashMerkleRoot b) @
     native_store32 (cb_nTime b) @ native_store32 (cb_nBits b) @ native_store32 (cb_nNonce b)"

definition GetPoWHash :: "(byte list \<Rightarrow> base_uint) \<Rightarrow> CBlock \<Rightarrow> base_uint" where
  "GetPoWHash pow b = pow (header_memory b)"

definition cb_GetHash :: "(byte list \<Rightarrow> base_uint) \<Rightarrow> CBlock \<Rightarrow> base_uint" where
  "cb_GetHash pow b = GetPoWHash pow b"

definition cb_GetStakeEntropyBit :: "(byte list \<Rightarrow> base_uint) \<Rightarrow> CBlock \<Rightarrow> u32" where
  "cb_GetStakeEntropyBit pow b = ucast (Get64 (cb_GetHash pow b) 0 AND 1)"

definition cb_IsProofOfStake :: "CBlock \<Rightarrow> bool" where
  "cb_IsProofOfStake b \<longleftrightarrow> length (cb_vtx b) > 1 \<and> IsCoinStake (cb_vtx b ! 1)"

definition cb_IsProofOfWork :: "CBlock \<Rightarrow> bool" where
  "cb_IsProofOfWork b \<longleftrightarrow> \<not> cb_IsProofOfStake b"

definition GetProofOfStake :: "CBlock \<Rightarrow> COutPoint \<times> u32" where
  "GetProofOfStake b =
     (if cb_IsProofOfStake b then (prevout (vin (cb_vtx b ! 1) ! 0), tx_nTime (cb_vtx b ! 1)) else (COutPoint_null, 0))"

definition cb_GetBlockTime :: "CBlock \<Rightarrow> int" where
  "cb_GetBlockTime b = uint (cb_nTime b)"

definition GetMaxTransactionTime :: "CBlock \<Rightarrow> int" where
  "GetMaxTransactionTime b = fold (\<lambda>tx m. max m (uint (tx_nTime tx))) (cb_vtx b) 0"

text \<open>The hash of two nodes of the Merkle tree, and the root of the transactions of the block.\<close>

definition Hash2 :: "crypto \<Rightarrow> base_uint \<Rightarrow> base_uint \<Rightarrow> base_uint" where
  "Hash2 C a b = Hash C (bu_bytes a @ bu_bytes b)"

definition block_merkle_root :: "crypto \<Rightarrow> CBlock \<Rightarrow> base_uint" where
  "block_merkle_root C b = BuildMerkleTree (Hash2 C) (map (tx_GetHash (Hash C)) (cb_vtx b))"

section \<open>The signature of a block\<close>

definition CheckBlockSignature :: "crypto \<Rightarrow> (byte list \<Rightarrow> base_uint) \<Rightarrow> CBlock \<Rightarrow> bool" where
  "CheckBlockSignature C pow b =
     (if cb_IsProofOfWork b then cb_vchBlockSig b = []
      else
        let txout = vout (cb_vtx b ! 1) ! 1;
            (f, whichType, vSolutions) = Solver (scriptPubKey txout)
        in if \<not> f then False
           else if whichType = TX_PUBKEY
                then CPubKey_Verify C (CPubKey_Set (vSolutions ! 0)) (cb_GetHash pow b) (cb_vchBlockSig b)
                else False)"

section \<open>The checks of a block\<close>

definition CheckCoinStakeTimestamp :: "int \<Rightarrow> int \<Rightarrow> bool" where
  "CheckCoinStakeTimestamp nTimeBlock nTimeTx \<longleftrightarrow> nTimeBlock = nTimeTx"

text \<open>
  The loop over the transactions: the amount a failure is charged, or \<open>None\<close>, and the transactions
  with the counters that \<open>CheckTransaction\<close> left.
\<close>

fun CheckBlock_txs :: "int \<Rightarrow> CTransaction list \<Rightarrow> int option \<times> CTransaction list" where
  "CheckBlock_txs nBlockTime [] = (None, [])"
| "CheckBlock_txs nBlockTime (tx # r) =
     (let (f, tx) = CheckTransaction tx
      in if \<not> f then (Some (tx_nDoS tx), tx # r)
         else if nBlockTime < uint (tx_nTime tx) then (Some 50, tx # r)
         else let (res, r) = CheckBlock_txs nBlockTime r in (res, tx # r))"

definition CheckBlock_stake :: "crypto \<Rightarrow> (byte list \<Rightarrow> base_uint) \<Rightarrow> bool \<Rightarrow> CBlock \<Rightarrow> int option" where
  "CheckBlock_stake C pow fCheckSig b =
     (let vtx0 = cb_vtx b ! 0
      in if length (vout vtx0) \<noteq> 1 \<or> \<not> CTxOut_IsEmpty (vout vtx0 ! 0) then Some 100
         else if cb_vtx b = [] \<or> \<not> IsCoinStake (cb_vtx b ! 1) then Some 100
         else if list_ex IsCoinStake (drop 2 (cb_vtx b)) then Some 100
         else if \<not> CheckCoinStakeTimestamp (cb_GetBlockTime b) (uint (tx_nTime (cb_vtx b ! 1))) then Some 50
         else if fCheckSig \<and> \<not> CheckBlockSignature C pow b then Some 100
         else None)"

definition CheckBlock ::
  "'b bn_lib \<Rightarrow> bool \<Rightarrow> crypto \<Rightarrow> (byte list \<Rightarrow> base_uint) \<Rightarrow> int \<Rightarrow> bool \<Rightarrow> bool \<Rightarrow> bool \<Rightarrow> CBlock \<Rightarrow> bool \<times> CBlock"
where
  "CheckBlock bn fTestNet C pow adjustedTime fCheckPOW fCheckMerkleRoot fCheckSig b =
     (if cb_vtx b = [] \<or> length (cb_vtx b) > MAX_BLOCK_SIZE \<or> GetSerializeSize_CBlock b > MAX_BLOCK_SIZE then cb_DoS 100 False b
      else if fCheckPOW \<and> cb_IsProofOfWork b \<and> \<not> CheckProofOfWork bn fTestNet (GetPoWHash pow b) (cb_nBits b) then cb_DoS 50 False b
      else if cb_GetBlockTime b > FutureDrift adjustedTime then (False, b)
      else if cb_vtx b = [] \<or> \<not> IsCoinBase (cb_vtx b ! 0) then cb_DoS 100 False b
      else if list_ex IsCoinBase (drop 1 (cb_vtx b)) then cb_DoS 100 False b
      else if cb_GetBlockTime b > FutureDrift (uint (tx_nTime (cb_vtx b ! 0))) then cb_DoS 50 False b
      else case (if cb_IsProofOfStake b then CheckBlock_stake C pow fCheckSig b else None) of
        Some nDoS \<Rightarrow> cb_DoS nDoS False b
      | None \<Rightarrow>
        let (res, txs) = CheckBlock_txs (cb_GetBlockTime b) (cb_vtx b);
            b = b\<lparr>cb_vtx := txs\<rparr>
        in case res of Some nDoS \<Rightarrow> cb_DoS nDoS False b
           | None \<Rightarrow>
             if card (set (map (tx_GetHash (Hash C)) (cb_vtx b))) \<noteq> length (cb_vtx b) then cb_DoS 100 False b
             else if sum_list (map GetLegacySigOpCount (cb_vtx b)) > MAX_BLOCK_SIGOPS then cb_DoS 100 False b
             else if fCheckMerkleRoot \<and> \<not> bu_eq (cb_hashMerkleRoot b) (block_merkle_root C b) then cb_DoS 100 False b
             else (True, b))"

end
