(* ===== verification/TxIndex.thy ===== *)
theory TxIndex
  imports Block Anon
begin

text \<open>
  The index of transactions and its use by blocks, \<open>src/src/main.cpp\<close>: for every transaction of the
  chain, where it is on the disk and which transaction spent each of its outputs. \<open>ConnectInputs\<close>
  checks and marks the outputs a transaction spends, \<open>DisconnectInputs\<close> takes the marks back. The
  database is a map from identifiers; reading and writing it does not fail. The files of blocks, the
  memory pool, the checks of scripts and the parameters of the network are in the record \<open>tx_env\<close>.
\<close>

section \<open>The index\<close>

record CDiskTxPos =
  dp_nFile :: u32
  dp_nBlockPos :: u32
  dp_nTxPos :: u32

definition CDiskTxPos_null :: CDiskTxPos where
  "CDiskTxPos_null = \<lparr>dp_nFile = - 1, dp_nBlockPos = 0, dp_nTxPos = 0\<rparr>"

definition CDiskTxPos_IsNull :: "CDiskTxPos \<Rightarrow> bool" where
  "CDiskTxPos_IsNull p \<longleftrightarrow> dp_nFile p = - 1"

definition CDiskTxPos_eq :: "CDiskTxPos \<Rightarrow> CDiskTxPos \<Rightarrow> bool" where
  "CDiskTxPos_eq a b \<longleftrightarrow> dp_nFile a = dp_nFile b \<and> dp_nBlockPos a = dp_nBlockPos b \<and> dp_nTxPos a = dp_nTxPos b"

text \<open>The position that stands for the memory pool.\<close>

definition pos_mempool :: CDiskTxPos where
  "pos_mempool = \<lparr>dp_nFile = 1, dp_nBlockPos = 1, dp_nTxPos = 1\<rparr>"

record CTxIndex =
  ti_pos :: CDiskTxPos
  ti_vSpent :: "CDiskTxPos list"

definition CTxIndex_null :: CTxIndex where
  "CTxIndex_null = \<lparr>ti_pos = CDiskTxPos_null, ti_vSpent = []\<rparr>"

definition CTxIndex_new :: "CDiskTxPos \<Rightarrow> nat \<Rightarrow> CTxIndex" where
  "CTxIndex_new posIn nOutputs = \<lparr>ti_pos = posIn, ti_vSpent = replicate nOutputs CDiskTxPos_null\<rparr>"

type_synonym CTxDB = "base_uint \<rightharpoonup> CTxIndex"

definition ReadTxIndex :: "CTxDB \<Rightarrow> base_uint \<Rightarrow> CTxIndex option" where
  "ReadTxIndex txdb hash = txdb hash"

definition UpdateTxIndex :: "CTxDB \<Rightarrow> base_uint \<Rightarrow> CTxIndex \<Rightarrow> CTxDB" where
  "UpdateTxIndex txdb hash txindex = txdb(hash \<mapsto> txindex)"

definition EraseTxIndex :: "crypto \<Rightarrow> CTxDB \<Rightarrow> CTransaction \<Rightarrow> CTxDB" where
  "EraseTxIndex C txdb tx = txdb(tx_GetHash (Hash C) tx := None)"

record tx_env = anon_env +
  te_disk :: "CDiskTxPos \<Rightarrow> CTransaction option"
  te_block_time :: "u32 \<Rightarrow> u32 \<Rightarrow> int option"
  te_mempool :: "base_uint \<rightharpoonup> CTransaction"
  te_verify :: "u32 \<Rightarrow> CTransaction \<Rightarrow> nat \<Rightarrow> CScript \<Rightarrow> CScript \<Rightarrow> bool"
  te_nCoinbaseMaturity :: int
  te_TotalBlocksEstimate :: int
  te_fTestNet :: bool

text \<open>An assertion or exception of the code, or a refusal with the charge for it.\<close>

datatype connect_error = Abort | Rejected int

section \<open>Fetching the inputs\<close>

fun FetchInputs_loop ::
  "tx_env \<Rightarrow> CTxDB \<Rightarrow> CTxDB \<Rightarrow> bool \<Rightarrow> bool \<Rightarrow> bool \<Rightarrow> CTxIndex MapPrevTx \<Rightarrow> CTxIn list \<Rightarrow> CTxIndex MapPrevTx option"
where
  "FetchInputs_loop E txdb mapTestPool fBlock fMiner fAnon inputsRet [] = Some inputsRet"
| "FetchInputs_loop E txdb mapTestPool fBlock fMiner fAnon inputsRet (txin # r) =
     (let hash = op_hash (prevout txin) in
      if fAnon \<and> IsAnonInput txin then FetchInputs_loop E txdb mapTestPool fBlock fMiner fAnon inputsRet r
      else if inputsRet hash \<noteq> None then FetchInputs_loop E txdb mapTestPool fBlock fMiner fAnon inputsRet r
      else
        let found = (if (fBlock \<or> fMiner) \<and> mapTestPool hash \<noteq> None then mapTestPool hash else ReadTxIndex txdb hash)
        in if found = None \<and> (fBlock \<or> fMiner) then None
           else if found = None \<or> CDiskTxPos_eq (ti_pos (the found)) pos_mempool then
             (case te_mempool E hash of None \<Rightarrow> None
              | Some txPrev \<Rightarrow>
                  let txindex = (case found of Some txindex \<Rightarrow> txindex
                    | None \<Rightarrow> CTxIndex_null\<lparr>ti_vSpent := replicate (length (vout txPrev)) CDiskTxPos_null\<rparr>)
                  in FetchInputs_loop E txdb mapTestPool fBlock fMiner fAnon (inputsRet(hash \<mapsto> (txindex, txPrev))) r)
           else
             (case te_disk E (ti_pos (the found)) of None \<Rightarrow> None
              | Some txPrev \<Rightarrow>
                  FetchInputs_loop E txdb mapTestPool fBlock fMiner fAnon (inputsRet(hash \<mapsto> (the found, txPrev))) r))"

definition prevout_in_range :: "CTxIndex \<times> CTransaction \<Rightarrow> u32 \<Rightarrow> bool" where
  "prevout_in_range p n \<longleftrightarrow> unat n < length (vout (snd p)) \<and> unat n < length (ti_vSpent (fst p))"

text \<open>The inputs, or the flag \<open>fInvalid\<close>.\<close>

definition FetchInputs ::
  "tx_env \<Rightarrow> CTxDB \<Rightarrow> CTxDB \<Rightarrow> bool \<Rightarrow> bool \<Rightarrow> CTransaction \<Rightarrow> CTxIndex MapPrevTx \<Rightarrow> bool + CTxIndex MapPrevTx"
where
  "FetchInputs E txdb mapTestPool fBlock fMiner tx inputsRet =
     (let fAnon = (tx_nVersion tx = ANON_TXN_VERSION)
      in if IsCoinBase tx then Inr inputsRet
         else case FetchInputs_loop E txdb mapTestPool fBlock fMiner fAnon inputsRet (vin tx) of None \<Rightarrow> Inl False
         | Some inputsRet \<Rightarrow>
             if list_ex (\<lambda>txin. \<not> (fAnon \<and> IsAnonInput txin) \<and>
                   \<not> prevout_in_range (the (inputsRet (op_hash (prevout txin)))) (op_n (prevout txin))) (vin tx)
             then Inl True else Inr inputsRet)"

section \<open>Connecting the inputs\<close>

definition STANDARD_NOT_MANDATORY_VERIFY_FLAGS :: u32 where
  "STANDARD_NOT_MANDATORY_VERIFY_FLAGS =
     (SCRIPT_VERIFY_STRICTENC OR SCRIPT_VERIFY_NULLDUMMY OR SCRIPT_VERIFY_CHECKLOCKTIMEVERIFY OR
      SCRIPT_VERIFY_DISCOURAGE_UPGRADABLE_NOPS) AND NOT 0"

text \<open>A coinbase or coinstake in one of the last blocks of the chain, the block itself included.\<close>

definition immature :: "tx_env \<Rightarrow> pindex \<Rightarrow> CDiskTxPos \<Rightarrow> bool" where
  "immature E pindexBlock pos \<longleftrightarrow>
     list_ex (\<lambda>pindex. bi_nBlockPos pindex = dp_nBlockPos pos \<and> bi_nFile pindex = dp_nFile pos)
       (takeWhile (\<lambda>pindex. nHeight (hd pindexBlock) - nHeight pindex < te_nCoinbaseMaturity E) pindexBlock)"

fun ConnectInputs_values ::
  "tx_env \<Rightarrow> pindex \<Rightarrow> CTransaction \<Rightarrow> CTxIndex MapPrevTx \<Rightarrow> u64 \<Rightarrow> CTxIn list \<Rightarrow> connect_error + u64"
where
  "ConnectInputs_values E pindexBlock tx inputs nValueIn [] = Inr nValueIn"
| "ConnectInputs_values E pindexBlock tx inputs nValueIn (txin # r) =
     (if tx_nVersion tx = ANON_TXN_VERSION \<and> IsAnonInput txin then ConnectInputs_values E pindexBlock tx inputs nValueIn r
      else case inputs (op_hash (prevout txin)) of None \<Rightarrow> Inl Abort
      | Some (txindex, txPrev) \<Rightarrow>
          let n = unat (op_n (prevout txin))
          in if n \<ge> length (vout txPrev) \<or> n \<ge> length (ti_vSpent txindex) then Inl (Rejected 100)
             else if (IsCoinBase txPrev \<or> IsCoinStake txPrev) \<and> immature E pindexBlock (ti_pos txindex) then Inl (Rejected 0)
             else if tx_nTime txPrev > tx_nTime tx then Inl (Rejected 100)
             else
               let nValueIn = nValueIn + nValue (vout txPrev ! n)
               in if \<not> MoneyRange (sint (nValue (vout txPrev ! n))) \<or> \<not> MoneyRange (sint nValueIn) then Inl (Rejected 100)
                  else ConnectInputs_values E pindexBlock tx inputs nValueIn r)"

text \<open>The check of the scripts of an input: no result when it is accepted.\<close>

definition ConnectInputs_verify ::
  "tx_env \<Rightarrow> CTransaction \<Rightarrow> CTransaction \<Rightarrow> nat \<Rightarrow> bool \<Rightarrow> u32 \<Rightarrow> bool \<Rightarrow> connect_error option"
where
  "ConnectInputs_verify E tx txPrev i fBlock flags fValidateSig =
     (if fValidateSig \<and> \<not> (fBlock \<and> an_nBestHeight E < te_TotalBlocksEstimate E) then
        if \<not> VerifySignature (an_crypto E) (te_verify E flags tx i) txPrev tx i then
          if flags AND STANDARD_NOT_MANDATORY_VERIFY_FLAGS \<noteq> 0 \<and>
             VerifySignature (an_crypto E) (te_verify E (flags AND NOT STANDARD_NOT_MANDATORY_VERIFY_FLAGS) tx i) txPrev tx i
          then Some (Rejected 0) else Some (Rejected 100)
        else None
      else None)"

fun ConnectInputs_spend ::
  "tx_env \<Rightarrow> CTransaction \<Rightarrow> CDiskTxPos \<Rightarrow> bool \<Rightarrow> bool \<Rightarrow> u32 \<Rightarrow> bool \<Rightarrow>
    nat \<Rightarrow> CTxIndex MapPrevTx \<Rightarrow> CTxDB \<Rightarrow> CTxIn list \<Rightarrow> connect_error option \<times> CTxDB"
where
  "ConnectInputs_spend E tx posThisTx fBlock fMiner flags fValidateSig i inputs mapTestPool [] = (None, mapTestPool)"
| "ConnectInputs_spend E tx posThisTx fBlock fMiner flags fValidateSig i inputs mapTestPool (txin # r) =
     (let hash = op_hash (prevout txin); n = unat (op_n (prevout txin)) in
      if tx_nVersion tx = ANON_TXN_VERSION \<and> IsAnonInput txin
      then ConnectInputs_spend E tx posThisTx fBlock fMiner flags fValidateSig (i + 1) inputs mapTestPool r
      else case inputs hash of None \<Rightarrow> (Some Abort, mapTestPool)
      | Some (txindex, txPrev) \<Rightarrow>
          if \<not> CDiskTxPos_IsNull (ti_vSpent txindex ! n) then (Some (Rejected 0), mapTestPool)
          else case ConnectInputs_verify E tx txPrev i fBlock flags fValidateSig of Some e \<Rightarrow> (Some e, mapTestPool)
          | None \<Rightarrow>
              let txindex = txindex\<lparr>ti_vSpent := (ti_vSpent txindex)[n := posThisTx]\<rparr>;
                  mapTestPool = (if fBlock \<or> fMiner then mapTestPool(hash \<mapsto> txindex) else mapTestPool)
              in ConnectInputs_spend E tx posThisTx fBlock fMiner flags fValidateSig (i + 1)
                   (inputs(hash \<mapsto> (txindex, txPrev))) mapTestPool r)"

definition ConnectInputs_fees :: "CTransaction \<Rightarrow> bool \<Rightarrow> u64 \<Rightarrow> connect_error option" where
  "ConnectInputs_fees tx fBlock nValueIn =
     (case GetValueOut tx of None \<Rightarrow> Some Abort
      | Some nValueOut \<Rightarrow>
          if sint nValueIn < sint nValueOut then Some (Rejected 100)
          else
            let nTxFee = sint (nValueIn - nValueOut)
            in if nTxFee < 0 then Some (Rejected 100)
               else if nTxFee < GetMinFee tx 1 GMF_BLOCK 0 then Some (Rejected (if fBlock then 100 else 0))
               else if \<not> MoneyRange nTxFee then Some (Rejected 100)
               else None)"

text \<open>
  The error, if any, the charge the transaction gets for a failed check of anonymous inputs, which
  is not an error here, and the changes to the index.
\<close>

definition ConnectInputs ::
  "tx_env \<Rightarrow> CTransaction \<Rightarrow> CTxIndex MapPrevTx \<Rightarrow> CTxDB \<Rightarrow> CDiskTxPos \<Rightarrow> pindex \<Rightarrow> bool \<Rightarrow> bool \<Rightarrow> u32 \<Rightarrow> bool \<Rightarrow>
    connect_error option \<times> int \<times> CTxDB"
where
  "ConnectInputs E tx inputs mapTestPool posThisTx pindexBlock fBlock fMiner flags fValidateSig =
     (if IsCoinBase tx then (None, 0, mapTestPool)
      else case ConnectInputs_values E pindexBlock tx inputs 0 (vin tx) of Inl e \<Rightarrow> (Some e, 0, mapTestPool)
      | Inr nValueIn \<Rightarrow>
        case ConnectInputs_spend E tx posThisTx fBlock fMiner flags fValidateSig 0 inputs mapTestPool (vin tx) of
          (Some e, mapTestPool) \<Rightarrow> (Some e, 0, mapTestPool)
        | (None, mapTestPool) \<Rightarrow>
          let (nDoS, nValueIn) =
                (if tx_nVersion tx = ANON_TXN_VERSION
                 then let (ok, nSumAnon) = CheckAnonInputs E tx True in (if ok then 0 else 100, nValueIn + nSumAnon)
                 else (0, nValueIn))
          in if IsCoinStake tx then (None, nDoS, mapTestPool)
             else (ConnectInputs_fees tx fBlock nValueIn, nDoS, mapTestPool))"

section \<open>Disconnecting the inputs\<close>

fun DisconnectInputs_loop :: "CTxDB \<Rightarrow> CTxIn list \<Rightarrow> bool \<times> CTxDB" where
  "DisconnectInputs_loop txdb [] = (True, txdb)"
| "DisconnectInputs_loop txdb (txin # r) =
     (case ReadTxIndex txdb (op_hash (prevout txin)) of None \<Rightarrow> (False, txdb)
      | Some txindex \<Rightarrow>
          let n = unat (op_n (prevout txin))
          in if n \<ge> length (ti_vSpent txindex) then (False, txdb)
             else DisconnectInputs_loop
               (UpdateTxIndex txdb (op_hash (prevout txin))
                 (txindex\<lparr>ti_vSpent := (ti_vSpent txindex)[n := CDiskTxPos_null]\<rparr>)) r)"

definition DisconnectInputs :: "crypto \<Rightarrow> CTxDB \<Rightarrow> CTransaction \<Rightarrow> bool \<times> CTxDB" where
  "DisconnectInputs C txdb tx =
     (if IsCoinBase tx then (True, EraseTxIndex C txdb tx)
      else let (f, txdb) = DisconnectInputs_loop txdb (vin tx)
           in if \<not> f then (False, txdb) else (True, EraseTxIndex C txdb tx))"

end
