(* ===== verification/Connect.thy ===== *)
theory Connect
  imports TxIndex
begin

text \<open>
  Connecting and disconnecting a block, \<open>src/src/main.cpp\<close>. \<open>ConnectBlock\<close> runs over the
  transactions of the block with a map of changes to the index, checks the reward, and writes the
  changes back. The check of the payment to a fortunastake, which works on the list of fortunastakes
  of the node, is the argument \<open>payment\<close>; the address index is optional and not modelled.
\<close>

section \<open>The age of coins\<close>

definition nStakeMinAge :: int where "nStakeMinAge = 8 * 60 * 60"

definition ReadFromDisk_prevout :: "tx_env \<Rightarrow> CTxDB \<Rightarrow> COutPoint \<Rightarrow> (CTransaction \<times> CTxIndex) option" where
  "ReadFromDisk_prevout E txdb outpoint =
     (case ReadTxIndex txdb (op_hash outpoint) of None \<Rightarrow> None
      | Some txindex \<Rightarrow>
          case te_disk E (ti_pos txindex) of None \<Rightarrow> None
          | Some tx \<Rightarrow> if unat (op_n outpoint) \<ge> length (vout tx) then None else Some (tx, txindex))"

fun GetCoinAge_loop ::
  "'b bn_lib \<Rightarrow> tx_env \<Rightarrow> CTxDB \<Rightarrow> CTransaction \<Rightarrow> 'b \<Rightarrow> CTxIn list \<Rightarrow> connect_error + 'b"
where
  "GetCoinAge_loop bn E txdb tx bnCentSecond [] = Inr bnCentSecond"
| "GetCoinAge_loop bn E txdb tx bnCentSecond (txin # r) =
     (case ReadFromDisk_prevout E txdb (prevout txin) of None \<Rightarrow> GetCoinAge_loop bn E txdb tx bnCentSecond r
      | Some (txPrev, txindex) \<Rightarrow>
          if tx_nTime tx < tx_nTime txPrev then Inl (Rejected 0)
          else case te_block_time E (dp_nFile (ti_pos txindex)) (dp_nBlockPos (ti_pos txindex)) of
            None \<Rightarrow> Inl (Rejected 0)
          | Some blockTime \<Rightarrow>
              if blockTime + nStakeMinAge > uint (tx_nTime tx) then GetCoinAge_loop bn E txdb tx bnCentSecond r
              else
                let nValueIn = nValue (vout txPrev ! unat (op_n (prevout txin)))
                in case do {
                     p \<leftarrow> bn_mul bn (CBigNum_long bn nValueIn) (setulong bn (ucast (tx_nTime tx - tx_nTime txPrev)));
                     q \<leftarrow> bn_div bn p (CBigNum_long bn (word_of_int CENT));
                     bn_add bn bnCentSecond q
                   } of None \<Rightarrow> Inl Abort
                   | Some bnCentSecond \<Rightarrow> GetCoinAge_loop bn E txdb tx bnCentSecond r)"

definition GetCoinAge :: "'b bn_lib \<Rightarrow> tx_env \<Rightarrow> CTxDB \<Rightarrow> CTransaction \<Rightarrow> connect_error + u64" where
  "GetCoinAge bn E txdb tx =
     (if IsCoinBase tx then Inr 0
      else case GetCoinAge_loop bn E txdb tx (CBigNum_long bn 0) (vin tx) of Inl e \<Rightarrow> Inl e
      | Inr bnCentSecond \<Rightarrow>
          case do {
            a \<leftarrow> bn_mul bn bnCentSecond (CBigNum_long bn (word_of_int CENT));
            b \<leftarrow> bn_div bn a (CBigNum_long bn (word_of_int COIN));
            bn_div bn b (CBigNum_long bn (24 * 60 * 60))
          } of None \<Rightarrow> Inl Abort
          | Some bnCoinDay \<Rightarrow> Inr (getuint64 bn bnCoinDay))"

section \<open>The transactions of a block\<close>

record connect_state =
  cs_nTxPos :: u32
  cs_mapQueuedChanges :: CTxDB
  cs_nFees :: u64
  cs_nValueIn :: u64
  cs_nValueOut :: u64
  cs_nAmountBurned :: u64
  cs_nStakeReward :: u64
  cs_nSigOps :: nat

definition CScript_IsUnspendable :: "CScript \<Rightarrow> bool" where
  "CScript_IsUnspendable s \<longleftrightarrow> length s > 0 \<and> s ! 0 = OP_RETURN"

text \<open>The part of a turn of the loop for a transaction that is no coinbase.\<close>

definition ConnectBlock_spend ::
  "tx_env \<Rightarrow> CTxDB \<Rightarrow> pindex \<Rightarrow> u32 \<Rightarrow> CDiskTxPos \<Rightarrow> CTransaction \<Rightarrow> connect_state \<Rightarrow> connect_error + connect_state"
where
  "ConnectBlock_spend E txdb pindexBlock flags posThisTx tx st =
     (case FetchInputs E txdb (cs_mapQueuedChanges st) True False tx Map.empty of Inl _ \<Rightarrow> Inl (Rejected 0)
      | Inr mapInputs \<Rightarrow>
        case (GetP2SHSigOpCount tx mapInputs, GetValueIn tx mapInputs, GetValueOut tx) of
          (Some nP2SH, valueIn, valueOut) \<Rightarrow>
            let nSigOps = cs_nSigOps st + nP2SH
            in if nSigOps > MAX_BLOCK_SIGOPS then Inl (Rejected 100)
               else case (valueIn, valueOut) of
                 (Some nTxValueIn, Some nTxValueOut) \<Rightarrow>
                   let (ok, nSumAnon) =
                         (if tx_nVersion tx = ANON_TXN_VERSION then CheckAnonInputs E tx True else (True, 0));
                       nTxValueIn = nTxValueIn + nSumAnon
                   in if \<not> ok then Inl (Rejected 0)
                      else case ConnectInputs E tx mapInputs (cs_mapQueuedChanges st) posThisTx pindexBlock True False flags True of
                        (Some Abort, _, _) \<Rightarrow> Inl Abort
                      | (Some (Rejected _), _, _) \<Rightarrow> Inl (Rejected 0)
                      | (None, _, mapQueuedChanges) \<Rightarrow>
                          Inr (st\<lparr>cs_mapQueuedChanges := mapQueuedChanges,
                             cs_nSigOps := nSigOps,
                             cs_nValueIn := cs_nValueIn st + nTxValueIn,
                             cs_nValueOut := cs_nValueOut st + nTxValueOut,
                             cs_nAmountBurned := cs_nAmountBurned st +
                               sum_list (map nValue (filter (CScript_IsUnspendable \<circ> scriptPubKey) (vout tx))),
                             cs_nFees := (if IsCoinStake tx then cs_nFees st else cs_nFees st + (nTxValueIn - nTxValueOut)),
                             cs_nStakeReward := (if IsCoinStake tx then nTxValueOut - nTxValueIn else cs_nStakeReward st)\<rparr>)
               | _ \<Rightarrow> Inl Abort
        | _ \<Rightarrow> Inl Abort)"

definition ConnectBlock_tx ::
  "tx_env \<Rightarrow> CTxDB \<Rightarrow> pindex \<Rightarrow> bool \<Rightarrow> u32 \<Rightarrow> CTransaction \<Rightarrow> connect_state \<Rightarrow> connect_error + connect_state"
where
  "ConnectBlock_tx E txdb pindexBlock fJustCheck flags tx st =
     (let hashTx = tx_GetHash (Hash (an_crypto E)) tx;
          nSigOps = cs_nSigOps st + GetLegacySigOpCount tx;
          posThisTx = \<lparr>dp_nFile = bi_nFile (hd pindexBlock), dp_nBlockPos = bi_nBlockPos (hd pindexBlock), dp_nTxPos = cs_nTxPos st\<rparr>;
          nTxPos = (if fJustCheck then cs_nTxPos st else cs_nTxPos st + of_nat (GetSerializeSize_CTransaction tx))
      in if (case ReadTxIndex txdb hashTx of None \<Rightarrow> False | Some txindexOld \<Rightarrow> list_ex CDiskTxPos_IsNull (ti_vSpent txindexOld))
         then Inl (Rejected 0)
         else if nSigOps > MAX_BLOCK_SIGOPS then Inl (Rejected 100)
         else
           let st = st\<lparr>cs_nSigOps := nSigOps, cs_nTxPos := nTxPos\<rparr>
           in case (if IsCoinBase tx
                    then (case GetValueOut tx of None \<Rightarrow> Inl Abort
                          | Some nTxValueOut \<Rightarrow> Inr (st\<lparr>cs_nValueOut := cs_nValueOut st + nTxValueOut\<rparr>))
                    else ConnectBlock_spend E txdb pindexBlock flags posThisTx tx st) of
                Inl e \<Rightarrow> Inl e
              | Inr st \<Rightarrow>
                  Inr (st\<lparr>cs_mapQueuedChanges := (cs_mapQueuedChanges st)(hashTx \<mapsto> CTxIndex_new posThisTx (length (vout tx)))\<rparr>))"

fun ConnectBlock_txs ::
  "tx_env \<Rightarrow> CTxDB \<Rightarrow> pindex \<Rightarrow> bool \<Rightarrow> u32 \<Rightarrow> CTransaction list \<Rightarrow> connect_state \<Rightarrow> connect_error + connect_state"
where
  "ConnectBlock_txs E txdb pindexBlock fJustCheck flags [] st = Inr st"
| "ConnectBlock_txs E txdb pindexBlock fJustCheck flags (tx # r) st =
     (case ConnectBlock_tx E txdb pindexBlock fJustCheck flags tx st of Inl e \<Rightarrow> Inl e
      | Inr st \<Rightarrow> ConnectBlock_txs E txdb pindexBlock fJustCheck flags r st)"

section \<open>The reward\<close>

definition ConnectBlock_reward :: "'b bn_lib \<Rightarrow> tx_env \<Rightarrow> CTxDB \<Rightarrow> pindex \<Rightarrow> CBlock \<Rightarrow> connect_state \<Rightarrow> connect_error option" where
  "ConnectBlock_reward bn E txdb pindexBlock b st =
     (if cb_IsProofOfWork b then
        (case GetValueOut (cb_vtx b ! 0) of None \<Rightarrow> Some Abort
         | Some nValueOut \<Rightarrow>
             if sint nValueOut > GetProofOfWorkReward (te_fTestNet E) (an_nBestHeight E) (nHeight (hd pindexBlock)) (sint (cs_nFees st))
             then Some (Rejected 50) else None)
      else
        case GetCoinAge bn E txdb (cb_vtx b ! 1) of Inl e \<Rightarrow> Some e
        | Inr nCoinAge \<Rightarrow>
            if sint (cs_nStakeReward st) > GetProofOfStakeReward (te_fTestNet E) (an_nBestHeight E) (sint nCoinAge) (sint (cs_nFees st))
            then Some (Rejected 100) else None)"

section \<open>Blocks\<close>

text \<open>The first transaction of a block lies behind its header and the number of its transactions.\<close>

definition first_nTxPos :: "u32 \<Rightarrow> bool \<Rightarrow> CBlock \<Rightarrow> u32" where
  "first_nTxPos nBlockPos fJustCheck b =
     (if fJustCheck then 1
      else nBlockPos + of_nat (GetSerializeSize_CBlock cb_SetNull) - 2 * of_nat (GetSizeOfCompactSize 0) +
        of_nat (GetSizeOfCompactSize (of_nat (length (cb_vtx b)))))"

text \<open>The supply the index keeps for logging; the code asserts that it is not negative.\<close>

definition set_supply :: "pindex \<Rightarrow> connect_state \<Rightarrow> CBlockIndex" where
  "set_supply pindexBlock st =
     (let nPrev = (case tl pindexBlock of [] \<Rightarrow> 0 | p # _ \<Rightarrow> bi_nMoneySupply p)
      in (hd pindexBlock)\<lparr>bi_nMint := cs_nValueOut st - cs_nValueIn st + cs_nFees st,
           bi_nMoneySupply := nPrev + cs_nValueOut st - cs_nValueIn st - cs_nAmountBurned st\<rparr>)"

definition ConnectBlock ::
  "'b bn_lib \<Rightarrow> (byte list \<Rightarrow> base_uint) \<Rightarrow> int \<Rightarrow> tx_env \<Rightarrow> (connect_state \<Rightarrow> connect_error option) \<Rightarrow>
    CTxDB \<Rightarrow> pindex \<Rightarrow> bool \<Rightarrow> CBlock \<Rightarrow> connect_error + (CBlockIndex \<times> CTxDB)"
where
  "ConnectBlock bn pow adjustedTime E payment txdb pindexBlock fJustCheck b =
     (let (ok, _) = CheckBlock bn (te_fTestNet E) (an_crypto E) pow adjustedTime (\<not> fJustCheck) (\<not> fJustCheck) False b
      in if \<not> ok then Inl (Rejected 0)
         else
           let st = \<lparr>cs_nTxPos = first_nTxPos (bi_nBlockPos (hd pindexBlock)) fJustCheck b, cs_mapQueuedChanges = Map.empty,
                  cs_nFees = 0, cs_nValueIn = 0, cs_nValueOut = 0, cs_nAmountBurned = 0, cs_nStakeReward = 0, cs_nSigOps = 0\<rparr>
           in case ConnectBlock_txs E txdb pindexBlock fJustCheck SCRIPT_VERIFY_NOCACHE (cb_vtx b) st of Inl e \<Rightarrow> Inl e
           | Inr st \<Rightarrow>
             case ConnectBlock_reward bn E txdb pindexBlock b st of Some e \<Rightarrow> Inl e
             | None \<Rightarrow>
               case payment st of Some e \<Rightarrow> Inl e
               | None \<Rightarrow>
                 let pindex = set_supply pindexBlock st
                 in if sint (bi_nMoneySupply pindex) < 0 then Inl Abort
                    else if fJustCheck then Inr (pindex, txdb)
                    else Inr (pindex, txdb ++ cs_mapQueuedChanges st))"

text \<open>The transactions are disconnected from the last to the first.\<close>

fun DisconnectBlock_txs :: "crypto \<Rightarrow> CTxDB \<Rightarrow> CTransaction list \<Rightarrow> bool \<times> CTxDB" where
  "DisconnectBlock_txs C txdb [] = (True, txdb)"
| "DisconnectBlock_txs C txdb (tx # r) =
     (let (ok, txdb) = DisconnectInputs C txdb tx
      in if \<not> ok then (False, txdb) else DisconnectBlock_txs C txdb r)"

definition DisconnectBlock :: "crypto \<Rightarrow> CTxDB \<Rightarrow> CBlock \<Rightarrow> bool \<times> CTxDB" where
  "DisconnectBlock C txdb b = DisconnectBlock_txs C txdb (rev (cb_vtx b))"

end
