(* ===== verification/Merkle_Unique.thy ===== *)
theory Merkle_Unique
  imports Merkle
begin

text \<open>
  A Merkle root determines the hashes it was built from, when they are distinct: two lists of
  distinct hashes with one root are the same list, or a hash function had a collision among the
  values hashed to build the two trees. Without distinctness this fails (\<open>root_duplicate\<close>): the
  check of a block for duplicate transactions is what makes its root unambiguous.
\<close>

section \<open>The pairs that are hashed\<close>

definition level_pairs :: "'h list \<Rightarrow> ('h \<times> 'h) set" where
  "level_pairs r = (\<lambda>k. (r ! (2 * k), r ! min (2 * k + 1) (length r - 1))) ` {..<(length r + 1) div 2}"

function tree_pairs :: "('h \<Rightarrow> 'h \<Rightarrow> 'h) \<Rightarrow> 'h list \<Rightarrow> ('h \<times> 'h) set" where
  "tree_pairs H r = (if length r > 1 then level_pairs r \<union> tree_pairs H (next_level H r) else {})"
  by pat_completeness auto
termination by (relation "measure (\<lambda>(_, r). length r)") auto

function merkle_depth :: "nat \<Rightarrow> nat" where
  "merkle_depth n = (if n > 1 then Suc (merkle_depth ((n + 1) div 2)) else 0)"
  by pat_completeness auto
termination by (relation "measure id") auto

declare tree_pairs.simps [simp del] merkle_depth.simps [simp del]

text \<open>The height of a hash above the hashes of the transactions.\<close>

inductive height :: "('h \<Rightarrow> 'h \<Rightarrow> 'h) \<Rightarrow> ('h \<times> 'h) set \<Rightarrow> 'h set \<Rightarrow> nat \<Rightarrow> 'h \<Rightarrow> bool" for H P L where
  height_leaf: "x \<in> L \<Longrightarrow> height H P L 0 x"
| height_node: "(a, b) \<in> P \<Longrightarrow> height H P L i a \<Longrightarrow> height H P L (Suc i) (H a b)"

lemma inj_pair:
  assumes "inj_on (\<lambda>(a, b). H a b) P" and "(a, b) \<in> P" and "(c, d) \<in> P" and "H a b = H c d"
  shows "a = c \<and> b = d"
  using inj_onD [OF assms(1), of "(a, b)" "(c, d)"] assms(2-4) by simp

lemma height_unique:
  assumes "height H P L i x" and "height H P L j x"
    and inj: "inj_on (\<lambda>(a, b). H a b) P" and leaf: "L \<inter> (\<lambda>(a, b). H a b) ` P = {}"
  shows "i = j"
  using assms(1,2)
proof (induction arbitrary: j)
  case (height_leaf x)
  from height_leaf(2) show ?case
    by cases (use height_leaf(1) leaf in auto)
next
  case (height_node a b i)
  from height_node.prems show ?case
  proof cases
    case height_leaf
    then show ?thesis using height_node.hyps(1) leaf by auto
  next
    case (height_node c d k)
    then have "a = c" using inj_pair [OF inj \<open>(a, b) \<in> P\<close>, of c d] by simp
    then show ?thesis using height_node \<open>\<And>j. height H P L j a \<Longrightarrow> i = j\<close> by simp
  qed
qed

lemma nth_level: "k < (length r + 1) div 2 \<Longrightarrow> (r ! (2 * k), r ! min (2 * k + 1) (length r - 1)) \<in> level_pairs r"
  by (auto simp: level_pairs_def)

lemma height_root:
  "r \<noteq> [] \<Longrightarrow> \<forall>x \<in> set r. height H P L i x \<Longrightarrow> tree_pairs H r \<subseteq> P \<Longrightarrow>
    height H P L (i + merkle_depth (length r)) (merkle_root H r)"
proof (induction H r arbitrary: i rule: merkle_root.induct)
  case (1 H r)
  show ?case
  proof (cases "length r > 1")
    case True
    have p: "level_pairs r \<subseteq> P" "tree_pairs H (next_level H r) \<subseteq> P"
      using 1(4) True by (simp_all add: tree_pairs.simps [of H r])
    have "height H P L (Suc i) x" if "x \<in> set (next_level H r)" for x
    proof -
      from that obtain k where k: "k < (length r + 1) div 2" "x = H (r ! (2 * k)) (r ! min (2 * k + 1) (length r - 1))"
        by (auto simp: next_level_def)
      then have "2 * k < length r" by linarith
      then show ?thesis using k p(1) nth_level [OF k(1)] 1(3) by (auto intro: height_node)
    qed
    moreover have "next_level H r \<noteq> []" using True by (auto simp: next_level_def)
    ultimately have "height H P L (Suc i + merkle_depth (length (next_level H r))) (merkle_root H (next_level H r))"
      using 1(1) [OF True] p(2) by blast
    then show ?thesis
      using True by (simp add: merkle_depth.simps [of "length r"] merkle_root.simps [of H r])
  next
    case False
    with 1(2) obtain x where "r = [x]" by (cases r) auto
    with 1(3) show ?thesis
      by (simp add: merkle_depth.simps [of "Suc 0"] merkle_root.simps [of H "[x]"])
  qed
qed

section \<open>Levels of distinct hashes\<close>

lemma level_step:
  assumes "r \<noteq> []" and "distinct r'" and "length r \<le> length r'"
    and inj: "inj_on (\<lambda>(a, b). H a b) P" and "level_pairs r \<subseteq> P" and "level_pairs r' \<subseteq> P"
    and eq: "next_level H r = next_level H r'"
  shows "r = r'"
proof -
  let ?n = "length r" and ?n' = "length r'"
  have l: "(?n + 1) div 2 = (?n' + 1) div 2" using arg_cong [OF eq, of length] by simp
  have pair: "r ! (2 * k) = r' ! (2 * k) \<and> r ! min (2 * k + 1) (?n - 1) = r' ! min (2 * k + 1) (?n' - 1)"
    if k: "k < (?n + 1) div 2" for k
  proof -
    have k': "k < (?n' + 1) div 2" using k l by simp
    have "H (r ! (2 * k)) (r ! min (2 * k + 1) (?n - 1)) = H (r' ! (2 * k)) (r' ! min (2 * k + 1) (?n' - 1))"
      using arg_cong [OF eq, of "\<lambda>x. x ! k"] nth_next_level_at [OF k] nth_next_level_at [OF k'] by metis
    moreover have "(r ! (2 * k), r ! min (2 * k + 1) (?n - 1)) \<in> P" "(r' ! (2 * k), r' ! min (2 * k + 1) (?n' - 1)) \<in> P"
      using nth_level [OF k] nth_level [OF k'] assms(5,6) by auto
    ultimately show ?thesis using inj_pair [OF inj] by blast
  qed
  have n: "?n = ?n'"
  proof (rule ccontr)
    assume "?n \<noteq> ?n'"
    then have "odd ?n" "?n' = ?n + 1" using l assms(3) by presburger+
    then have k: "2 * (?n div 2) + 1 = ?n" by simp
    then have "?n div 2 < (?n + 1) div 2" by linarith
    moreover have "2 * (?n div 2) = ?n - 1" "min (2 * (?n div 2) + 1) (?n - 1) = ?n - 1" "min (2 * (?n div 2) + 1) (?n' - 1) = ?n"
      using k \<open>?n' = ?n + 1\<close> by linarith+
    ultimately have "r ! (?n - 1) = r' ! (?n - 1) \<and> r ! (?n - 1) = r' ! ?n" using pair [of "?n div 2"] by metis
    then have "r' ! (?n - 1) = r' ! ?n" by metis
    then show False
      using assms(1,2) \<open>?n' = ?n + 1\<close> nth_eq_iff_index_eq [of r' "?n - 1" ?n] by (cases ?n) auto
  qed
  show ?thesis
  proof (rule nth_equalityI [OF n])
    fix i assume i: "i < ?n"
    then have "i div 2 < (?n + 1) div 2" by linarith
    from pair [OF this] show "r ! i = r' ! i"
    proof (cases "even i")
      case True
      then show ?thesis using pair [OF \<open>i div 2 < (?n + 1) div 2\<close>] by simp
    next
      case False
      then have "2 * (i div 2) + 1 = i" by simp
      moreover have "min i (?n - 1) = i" "min i (?n' - 1) = i" using i n by simp_all
      ultimately show ?thesis using pair [OF \<open>i div 2 < (?n + 1) div 2\<close>] by simp
    qed
  qed
qed

lemma next_level_distinct:
  assumes "distinct r" and "inj_on (\<lambda>(a, b). H a b) P" and "level_pairs r \<subseteq> P"
  shows "distinct (next_level H r)"
proof -
  have "inj_on (\<lambda>k. H (r ! (2 * k)) (r ! min (2 * k + 1) (length r - 1))) {0..<(length r + 1) div 2}"
  proof (rule inj_onI)
    fix k m
    assume k: "k \<in> {0..<(length r + 1) div 2}" and m: "m \<in> {0..<(length r + 1) div 2}"
      and e: "H (r ! (2 * k)) (r ! min (2 * k + 1) (length r - 1)) = H (r ! (2 * m)) (r ! min (2 * m + 1) (length r - 1))"
    have "(r ! (2 * k), r ! min (2 * k + 1) (length r - 1)) \<in> P" "(r ! (2 * m), r ! min (2 * m + 1) (length r - 1)) \<in> P"
      using nth_level [of k r] nth_level [of m r] k m assms(3) by auto
    then have "r ! (2 * k) = r ! (2 * m)" using inj_pair [OF assms(2)] e by blast
    moreover have "2 * k < length r" "2 * m < length r" using k m by auto
    ultimately show "k = m" using assms(1) by (simp add: nth_eq_iff_index_eq)
  qed
  then show ?thesis by (simp add: next_level_def distinct_map)
qed

lemma merkle_root_same_depth:
  "r \<noteq> [] \<Longrightarrow> r' \<noteq> [] \<Longrightarrow> distinct r \<Longrightarrow> distinct r' \<Longrightarrow> inj_on (\<lambda>(a, b). H a b) P \<Longrightarrow>
    tree_pairs H r \<subseteq> P \<Longrightarrow> tree_pairs H r' \<subseteq> P \<Longrightarrow> merkle_depth (length r) = merkle_depth (length r') \<Longrightarrow>
    merkle_root H r = merkle_root H r' \<Longrightarrow> r = r'"
proof (induction H r arbitrary: r' rule: merkle_root.induct)
  case (1 H r)
  show ?case
  proof (cases "length r > 1")
    case True
    then have T': "length r' > 1"
      using 1(9) by (simp add: merkle_depth.simps [of "length r"] merkle_depth.simps [of "length r'"] split: if_splits)
    have p: "level_pairs r \<subseteq> P" "tree_pairs H (next_level H r) \<subseteq> P" "level_pairs r' \<subseteq> P" "tree_pairs H (next_level H r') \<subseteq> P"
      using 1(7,8) True T' by (simp_all add: tree_pairs.simps [of H r] tree_pairs.simps [of H r'])
    have "next_level H r = next_level H r'"
    proof (rule 1(1) [OF True])
      show "next_level H r \<noteq> []" "next_level H r' \<noteq> []" using True T' by (auto simp: next_level_def)
      show "distinct (next_level H r)" "distinct (next_level H r')"
        using next_level_distinct 1(4,5,6) p by blast+
      show "merkle_depth (length (next_level H r)) = merkle_depth (length (next_level H r'))"
        using 1(9) True T' by (simp add: merkle_depth.simps [of "length r"] merkle_depth.simps [of "length r'"])
      show "merkle_root H (next_level H r) = merkle_root H (next_level H r')"
        using 1(10) True T' by (simp add: merkle_root.simps [of H r] merkle_root.simps [of H r'])
    qed (use 1(6) p in simp_all)
    then have "next_level H r' = next_level H r" by (rule sym)
    show ?thesis
    proof (cases "length r \<le> length r'")
      case True
      show ?thesis by (rule level_step [OF 1(2,5) True 1(6) p(1,3) \<open>next_level H r = next_level H r'\<close>])
    next
      case False
      then have "length r' \<le> length r" by simp
      from level_step [OF 1(3,4) this 1(6) p(3,1) \<open>next_level H r' = next_level H r\<close>] show ?thesis by (rule sym)
    qed
  next
    case False
    then have "\<not> length r' > 1" using 1(9) by (simp add: merkle_depth.simps [of "length r"] merkle_depth.simps [of "length r'"] split: if_splits)
    with False 1(2,3) obtain x y where "r = [x]" "r' = [y]" by (cases r; cases r') auto
    with 1(10) show ?thesis by (simp add: merkle_root.simps [of H "[x]"] merkle_root.simps [of H "[y]"])
  qed
qed

theorem merkle_root_unique:
  assumes "r \<noteq> []" "r' \<noteq> []" "distinct r" "distinct r'"
    and inj: "inj_on (\<lambda>(a, b). H a b) (tree_pairs H r \<union> tree_pairs H r')"
    and leaf: "(set r \<union> set r') \<inter> (\<lambda>(a, b). H a b) ` (tree_pairs H r \<union> tree_pairs H r') = {}"
    and root: "merkle_root H r = merkle_root H r'"
  shows "r = r'"
proof -
  let ?P = "tree_pairs H r \<union> tree_pairs H r'" and ?L = "set r \<union> set r'"
  have "height H ?P ?L (0 + merkle_depth (length r)) (merkle_root H r)"
    and "height H ?P ?L (0 + merkle_depth (length r')) (merkle_root H r')"
    using assms(1,2) by (intro height_root; simp add: height_leaf)+
  then have "merkle_depth (length r) = merkle_depth (length r')"
    using height_unique [OF _ _ inj leaf] root by simp
  then show ?thesis
    using assms(1-4) inj root by (intro merkle_root_same_depth [of r r' H ?P]) simp_all
qed

end
