(* ===== verification/Transaction_Props.thy ===== *)
theory Transaction_Props
  imports Transaction
begin

text \<open>
  The laws of transactions: the serialization is one to one, the context-free checks accept
  exactly the transactions the specification describes, and a transaction they accept has a sum
  of outputs that \<open>GetValueOut\<close> computes without leaving the range of money.
\<close>

section \<open>Serialization\<close>

interpretation ser_vin: serializable "Serialize_vec Serialize_CTxIn" "Unserialize_vec Unserialize_CTxIn 52083"
  "GetSerializeSize_vec GetSerializeSize_CTxIn" "\<lambda>v. length v \<le> 2 ^ 25 \<and> list_all txin_ok v"
  by (rule ser_txin.serializable_vec) simp

interpretation ser_vout: serializable "Serialize_vec Serialize_CTxOut" "Unserialize_vec Unserialize_CTxOut 156250"
  "GetSerializeSize_vec GetSerializeSize_CTxOut" "\<lambda>v. length v \<le> 2 ^ 25 \<and> list_all txout_ok v"
  by (rule ser_txout.serializable_vec) simp

interpretation ser_tx: serializable Serialize_CTransaction Unserialize_CTransaction GetSerializeSize_CTransaction tx_ok
proof
  fix x :: CTransaction and b s
  show "Unserialize_CTransaction (Serialize_CTransaction x @ s) = Some (x, s)" if "tx_ok x"
    using that ser_vin.read_write [of "vin x"] ser_vout.read_write [of "vout x"]
    by (simp add: Unserialize_CTransaction_def Serialize_CTransaction_def tx_ok_def ser_u32.read_write)
  show "tx_ok x \<and> b = Serialize_CTransaction x @ s" if "Unserialize_CTransaction b = Some (x, s)"
    using that unfolding Unserialize_CTransaction_def Serialize_CTransaction_def tx_ok_def
    by (clarsimp split: Option.bind_splits) (drule ser_u32.write_read ser_vin.write_read ser_vout.write_read; clarsimp)+
  show "length (Serialize_CTransaction x) = GetSerializeSize_CTransaction x" if "tx_ok x"
    using that ser_vin.size [of "vin x"] ser_vout.size [of "vout x"]
    by (simp add: Serialize_CTransaction_def GetSerializeSize_CTransaction_def tx_ok_def ser_u32.size)
qed

section \<open>Sums of values\<close>

lemma sint_add_range:
  fixes a b :: u64
  assumes "0 \<le> sint a" "sint a \<le> MAX_MONEY" "0 \<le> sint b" "sint b \<le> MAX_MONEY"
  shows "sint (a + b) = sint a + sint b"
proof -
  have "sint (a + b) = signed_take_bit 63 (sint a + sint b)" by (simp add: sint_word_ariths)
  also have "\<dots> = sint a + sint b"
    using assms by (intro signed_take_bit_int_eq_self) (simp_all add: MAX_MONEY_def COIN_def)
  finally show ?thesis .
qed

definition values_ok :: "CTxOut list \<Rightarrow> bool" where
  "values_ok ts \<longleftrightarrow> (\<forall>t \<in> set ts. MoneyRange (sint (nValue t))) \<and> (\<Sum>t\<leftarrow>ts. sint (nValue t)) \<le> MAX_MONEY"

lemma sum_values_nonneg: "\<forall>t \<in> set ts. MoneyRange (sint (nValue t)) \<Longrightarrow> 0 \<le> (\<Sum>t\<leftarrow>ts. sint (nValue t))"
  by (induction ts) (auto simp: MoneyRange_def)

lemma GetValueOut_loop_val:
  assumes "MoneyRange (sint v)"
  shows "(\<exists>w. GetValueOut_loop v ts = Some w) \<longleftrightarrow>
      (\<forall>t \<in> set ts. MoneyRange (sint (nValue t))) \<and> sint v + (\<Sum>t\<leftarrow>ts. sint (nValue t)) \<le> MAX_MONEY"
    and "GetValueOut_loop v ts = Some w \<Longrightarrow> sint w = sint v + (\<Sum>t\<leftarrow>ts. sint (nValue t))"
  using assms
proof (induction ts arbitrary: v)
  case Nil
  { case 1 then show ?case by (simp add: MoneyRange_def) }
  { case 2 then show ?case by simp }
next
  case (Cons t ts)
  have step: "sint (v + nValue t) = sint v + sint (nValue t)"
    if "MoneyRange (sint v)" "MoneyRange (sint (nValue t))" for v
    using that by (intro sint_add_range) (auto simp: MoneyRange_def)
  { case 1
    show ?case
    proof (cases "MoneyRange (sint (nValue t)) \<and> MoneyRange (sint (v + nValue t))")
      case True
      then show ?thesis using Cons.IH(1) [of "v + nValue t"] step [OF 1] by (simp add: Let_def add.assoc)
    next
      case False
      then show ?thesis
        using step [OF 1] 1 sum_values_nonneg [of ts] by (auto simp: Let_def MoneyRange_def)
    qed }
  { case 2
    then have "MoneyRange (sint (nValue t)) \<and> MoneyRange (sint (v + nValue t))"
      "GetValueOut_loop (v + nValue t) ts = Some w" by (auto simp: Let_def split: if_splits)
    then show ?case using Cons.IH(2) [of "v + nValue t"] step [OF 2(2)] by simp }
qed

lemma GetValueOut_val:
  "(\<exists>w. GetValueOut tx = Some w) \<longleftrightarrow> values_ok (vout tx)"
  "GetValueOut tx = Some w \<Longrightarrow> sint w = (\<Sum>t\<leftarrow>vout tx. sint (nValue t))"
proof -
  have m: "MoneyRange (sint (0 :: u64))" by (simp add: MoneyRange_def MAX_MONEY_def COIN_def)
  show "(\<exists>w. GetValueOut tx = Some w) \<longleftrightarrow> values_ok (vout tx)"
    using GetValueOut_loop_val(1) [OF m, of "vout tx"] by (simp add: GetValueOut_def values_ok_def)
  show "GetValueOut tx = Some w \<Longrightarrow> sint w = (\<Sum>t\<leftarrow>vout tx. sint (nValue t))"
    using GetValueOut_loop_val(2) [OF m, of "vout tx" w] by (simp add: GetValueOut_def)
qed

lemma CheckTransaction_outs_spec:
  assumes "MoneyRange (sint v)"
  shows "CheckTransaction_outs c v ts \<longleftrightarrow>
    (\<forall>t \<in> set ts. CTxOut_IsEmpty t \<longrightarrow> c) \<and> (\<exists>w. GetValueOut_loop v ts = Some w)"
  using assms
proof (induction ts arbitrary: v)
  case (Cons t ts)
  show ?case
  proof (cases "MoneyRange (sint (nValue t)) \<and> MoneyRange (sint (v + nValue t))")
    case True
    then show ?thesis using Cons.IH [of "v + nValue t"] by (auto simp: Let_def MoneyRange_def)
  next
    case False
    then show ?thesis by (auto simp: Let_def MoneyRange_def)
  qed
qed simp

section \<open>Accepted transactions\<close>

definition input_key :: "bool \<Rightarrow> CTxIn \<Rightarrow> COutPoint" where
  "input_key fAnon i =
     (if fAnon \<and> IsAnonInput i then (prevout i)\<lparr>op_n := op_n (prevout i) AND 0xFF\<rparr> else prevout i)"

lemma CheckTransaction_ins_spec:
  "CheckTransaction_ins f S ins \<longleftrightarrow> distinct (map (input_key f) ins) \<and> input_key f ` set ins \<inter> S = {}"
proof (induction ins arbitrary: S)
  case (Cons i ins)
  have "CheckTransaction_ins f S (i # ins) \<longleftrightarrow>
      input_key f i \<notin> S \<and> CheckTransaction_ins f (insert (input_key f i) S) ins"
    by (simp add: input_key_def Let_def)
  then show ?case using Cons.IH [of "insert (input_key f i) S"] by auto
qed simp

lemma CheckTransaction_anon_spec:
  "CheckTransaction_anon S ts \<longleftrightarrow>
    distinct (map (anon_pubkey \<circ> scriptPubKey) (filter IsAnonOutput ts)) \<and>
    (anon_pubkey \<circ> scriptPubKey) ` {t \<in> set ts. IsAnonOutput t} \<inter> S = {}"
  by (induction ts arbitrary: S) (auto simp: Let_def)

definition tx_valid :: "CTransaction \<Rightarrow> bool" where
  "tx_valid tx \<longleftrightarrow>
     vin tx \<noteq> [] \<and> vout tx \<noteq> [] \<and> GetSerializeSize_CTransaction tx \<le> 1000000 \<and>
     (\<forall>t \<in> set (vout tx). CTxOut_IsEmpty t \<longrightarrow> IsCoinBase tx \<or> IsCoinStake tx) \<and> values_ok (vout tx) \<and>
     distinct (map (input_key (tx_nVersion tx = 1000)) (vin tx)) \<and>
     (tx_nVersion tx = 1000 \<longrightarrow> distinct (map (anon_pubkey \<circ> scriptPubKey) (filter IsAnonOutput (vout tx)))) \<and>
     (if IsCoinBase tx then length (scriptSig (hd (vin tx))) \<in> {2..100}
      else \<forall>i \<in> set (vin tx). \<not> COutPoint_IsNull (prevout i))"

lemma CheckTransaction_valid: "fst (CheckTransaction tx) \<longleftrightarrow> tx_valid tx"
proof -
  have "MoneyRange (sint (0 :: u64))" by (simp add: MoneyRange_def MAX_MONEY_def COIN_def)
  from CheckTransaction_outs_spec [OF this, of "IsCoinBase tx \<or> IsCoinStake tx" "vout tx"]
  have "CheckTransaction_outs (IsCoinBase tx \<or> IsCoinStake tx) 0 (vout tx) \<longleftrightarrow>
      (\<forall>t \<in> set (vout tx). CTxOut_IsEmpty t \<longrightarrow> IsCoinBase tx \<or> IsCoinStake tx) \<and> values_ok (vout tx)"
    using GetValueOut_val(1) [of tx] by (simp add: GetValueOut_def)
  then show ?thesis
    by (auto simp: CheckTransaction_def tx_valid_def tx_DoS_def CheckTransaction_ins_spec CheckTransaction_anon_spec
        MAX_BLOCK_SIZE_def ANON_TXN_VERSION_def hd_conv_nth list_ex_iff not_le not_less)
qed

text \<open>A rejected transaction is charged at most 100, an accepted one nothing.\<close>

lemma CheckTransaction_DoS:
  "CheckTransaction tx = (f, tx') \<Longrightarrow>
    (\<exists>k \<in> {0, 10, 100}. tx' = tx\<lparr>tx_nDoS := tx_nDoS tx + k\<rparr>) \<and> (f \<longrightarrow> tx' = tx)"
  by (auto simp: CheckTransaction_def tx_DoS_def split: if_splits)

section \<open>Fees\<close>

lemma GetMinFee_outputs: "GetMinFee (tx\<lparr>vout := ts\<rparr>) sz mode n = GetMinFee tx sz mode n"
proof -
  have "0 \<le> uint n div 1000" by (simp add: pos_imp_zdiv_nonneg_iff)
  then have "\<not> (1 + uint n div 1000) * b < b" if "0 \<le> b" for b :: int
    using that mult_left_mono [of 1 "1 + uint n div 1000" b] by (simp add: mult.commute not_less)
  then have "\<not> (1 + uint n div 1000) * (case m of GMF_RELAY \<Rightarrow> MIN_RELAY_TX_FEE | GMF_ANON \<Rightarrow> MIN_TX_FEE_ANON | _ \<Rightarrow> MIN_TX_FEE)
      < (case m of GMF_RELAY \<Rightarrow> MIN_RELAY_TX_FEE | GMF_ANON \<Rightarrow> MIN_TX_FEE_ANON | _ \<Rightarrow> MIN_TX_FEE)" for m
    by (auto simp: MIN_TX_FEE_def MIN_RELAY_TX_FEE_def MIN_TX_FEE_ANON_def split: GetMinFee_mode.split)
  then show ?thesis by (simp only: GetMinFee_def Let_def if_False) simp
qed

end
