(* ===== verification/Chain_Props.thy ===== *)
theory Chain_Props
  imports Chain
begin

text \<open>
  What the consensus rules of \<open>Chain\<close> compute: targets as integers, under the documented
  behaviour of the library of big numbers, and the facts about the chain of block indices.
\<close>

section \<open>Targets\<close>

lemma compact_round_le: "\<bar>compact_round v\<bar> \<le> \<bar>v\<bar>"
proof -
  have "x div y * y \<le> x" if "0 \<le> x" "0 < y" for x y :: int
  proof -
    have "0 \<le> x mod y" using that by simp
    then show ?thesis using minus_mod_eq_div_mult [of x y] by linarith
  qed
  then have "\<bar>v\<bar> div 256 ^ k * 256 ^ k \<le> \<bar>v\<bar>" for k by simp
  moreover have "0 \<le> \<bar>v\<bar> div 256 ^ k * 256 ^ k" for k
    by (simp add: pos_imp_zdiv_nonneg_iff)
  then have "\<bar>compact_round v\<bar> = \<bar>v\<bar> div 256 ^ (length (mpi_bytes v) - 3) * 256 ^ (length (mpi_bytes v) - 3)" if "v \<noteq> 0"
    using that by (simp add: compact_round_def Let_def abs_mult abs_sgn_eq pos_imp_zdiv_nonneg_iff)
  ultimately show ?thesis by (cases "v = 0") (simp_all add: compact_round_def)
qed

lemma compact_round_small: "length (mpi_bytes v) \<le> 3 \<Longrightarrow> compact_round v = v"
  by (simp add: compact_round_def mult_sgn_abs)

lemma compact_round_pos:
  assumes "0 < v"
  shows "0 < compact_round v"
proof -
  let ?k = "length (mpi_bytes v) - 3"
  have "256 ^ ?k \<le> v"
  proof (rule ccontr)
    assume "\<not> 256 ^ ?k \<le> v"
    then have "\<bar>v\<bar> < 2 ^ (8 * ?k)" using assms by (simp add: power_mult)
    then have "length (mpi_bytes v) \<le> ?k + 1" by (rule length_mpi_bytes_le)
    then have "?k = 0" by linarith
    with \<open>\<not> 256 ^ ?k \<le> v\<close> assms show False by simp
  qed
  then have "0 < v div 256 ^ ?k" by (simp add: pos_imp_zdiv_pos_iff)
  then show ?thesis using assms by (simp add: compact_round_def Let_def)
qed

lemma compact_round_bytes:
  assumes "v = int (be_val (b # bs))" and "b \<noteq> 0" "\<not> bit b 7"
  shows "compact_round v = v div 256 ^ (length bs - 2) * 256 ^ (length bs - 2)"
proof -
  have "be_bytes (nat \<bar>v\<bar>) = b # bs" using assms(1,2) by (simp add: be_bytes_be_val del: be_val.simps)
  then have l: "length (mpi_bytes v) = Suc (length bs)"
    using assms(3) by (simp add: mpi_bytes_eq)
  have "0 < be_val (b # bs)" using assms(2) by (simp add: word_greater_zero_iff unat_gt_0)
  then have "sgn v = 1" "\<bar>v\<bar> = v" using assms(1) by (simp_all del: be_val.simps)
  then show ?thesis by (simp add: compact_round_def l Let_def)
qed

lemma be_val_ones: "be_val (replicate k 0xff) + 1 = 256 ^ k"
  by (induction k) simp_all

text \<open>The limits of the targets: of the proof of work on the two networks, and of both kinds of blocks.\<close>

definition pow_limit :: "bool \<Rightarrow> int" where
  "pow_limit fTestNet = 2 ^ (if fTestNet then 240 else 236) - 1"

definition target_limit :: "bool \<Rightarrow> bool \<Rightarrow> int" where
  "target_limit fTestNet stake = pow_limit (fTestNet \<and> \<not> stake)"

lemma pow_limit_range: "0 < pow_limit tn" "pow_limit tn < 2 ^ 240"
  by (simp_all add: pow_limit_def)

lemma target_limit_range: "0 < target_limit tn stake" "target_limit tn stake < 2 ^ 240"
  unfolding target_limit_def by (rule pow_limit_range)+

lemma length_mpi_limit: "\<bar>v\<bar> < 2 ^ 240 \<Longrightarrow> length (mpi_bytes v) \<le> 31"
  using length_mpi_bytes_le [of v 30] by simp

context openssl_bn
begin

lemma val_limits: "val (bnProofOfWorkLimit bn tn) = pow_limit tn" "val (bnProofOfStakeLimit bn) = pow_limit False"
proof -
  let ?z = "bu_set64 WIDTH256 0"
  have l: "length ?z = 8" by (simp add: bu_set64_def WIDTH256_def)
  then have s: "length (bu_shr (bu_not ?z) k) = 8" for k by simp
  have "uint_val ?z = 0" using uint_val_set64 [of WIDTH256 0] by (simp add: WIDTH256_def)
  then have "uint_val (bu_shr (bu_not ?z) 20) = (2 ^ 256 - 1) div 2 ^ 20"
    "uint_val (bu_shr (bu_not ?z) 16) = (2 ^ 256 - 1) div 2 ^ 16"
    using l by (simp_all add: bu_shr_val bu_not_val)
  then show "val (bnProofOfWorkLimit bn tn) = pow_limit tn" "val (bnProofOfStakeLimit bn) = pow_limit False"
    using s by (simp_all add: bnProofOfWorkLimit_def bnProofOfWorkLimitTestNet_def bnProofOfStakeLimit_def
        val_setuint256 pow_limit_def)
qed

lemma CheckProofOfWork_val:
  assumes "length hash = 8"
  shows "CheckProofOfWork bn tn hash nBits \<longleftrightarrow>
    0 < compact_val nBits \<and> compact_val nBits \<le> pow_limit tn \<and> int (uint_val hash) \<le> compact_val nBits"
proof -
  let ?T = "SetCompact bn nBits"
  have z: "bn_le bn ?T (setulong bn 0) \<longleftrightarrow> compact_val nBits \<le> 0"
    and g: "bn_gt bn ?T (bnProofOfWorkLimit bn tn) \<longleftrightarrow> compact_val nBits > pow_limit tn"
    by (simp_all add: val_bn_ops val_SetCompact val_setulong val_limits)
  show ?thesis
  proof (cases "0 < compact_val nBits \<and> compact_val nBits \<le> pow_limit tn")
    case True
    have "length (mpi_bytes (val ?T)) \<le> 31" using True pow_limit_range [of tn] by (intro length_mpi_limit) (simp add: val_SetCompact)
    then have m: "length (mpi_bytes (val ?T)) < 2 ^ 31" by simp
    have "nat (compact_val nBits) < 2 ^ 256" using True pow_limit_range [of tn] by (simp add: nat_less_iff)
    then have u: "int (uint_val (getuint256 bn ?T)) = compact_val nBits"
      using True by (simp add: uint_val_getuint256 [OF m] val_SetCompact)
    have "bu_greater hash (getuint256 bn ?T) \<longleftrightarrow> uint_val (getuint256 bn ?T) < uint_val hash"
      using assms uint_val_getuint256(2) [OF m] by (simp add: bu_compare_val)
    also have "\<dots> \<longleftrightarrow> compact_val nBits < int (uint_val hash)" unfolding u [symmetric] by simp
    finally show ?thesis using True z g by (simp add: CheckProofOfWork_def Let_def)
  next
    case False
    then show ?thesis using z g by (auto simp: CheckProofOfWork_def Let_def)
  qed
qed

lemma GetBlockTrust_val:
  "\<exists>t. GetBlockTrust bn nBits = Some t \<and> length t = 8 \<and>
     int (uint_val t) = (if compact_val nBits \<le> 0 then 0 else 2 ^ 256 div (compact_val nBits + 1))"
proof (cases "compact_val nBits \<le> 0")
  case True
  then have "GetBlockTrust bn nBits = Some (bu_set64 WIDTH256 0)"
    by (simp add: GetBlockTrust_def Let_def val_bn_ops val_SetCompact val_setulong)
  then show ?thesis using True uint_val_set64 [of WIDTH256 0] by (simp add: bu_set64_def WIDTH256_def)
next
  case False
  let ?T = "compact_val nBits"
  obtain n where n: "bn_shl bn (setulong bn 1) 256 = Some n" "val n = 2 ^ 256"
    using val_bn_ops(4) [of "setulong bn 1" 256] by (auto simp: val_setulong)
  obtain d where d: "bn_add bn (SetCompact bn nBits) (setulong bn 1) = Some d" "val d = ?T + 1"
    using val_bn_ops(1) [of "SetCompact bn nBits" "setulong bn 1"] by (auto simp: val_setulong val_SetCompact)
  obtain q where q: "bn_div bn n d = Some q" "val q = 2 ^ 256 div (?T + 1)"
    using val_bn_div(1) [of d n] n(2) d(2) False by auto
  have t: "GetBlockTrust bn nBits = Some (getuint256 bn q)"
    using False n d q by (simp add: GetBlockTrust_def Let_def val_bn_ops val_SetCompact val_setulong)
  have "2 ^ 256 div (?T + 1) \<le> 2 ^ 256 div 2"
    using False by (intro zdiv_mono2) simp_all
  then have b: "0 \<le> val q" "val q \<le> 2 ^ 255" using False q by (simp_all add: pos_imp_zdiv_nonneg_iff)
  then have "\<bar>val q\<bar> < 2 ^ (8 * 32)" by simp
  from length_mpi_bytes_le [OF this] have m: "length (mpi_bytes (val q)) < 2 ^ 31" by simp
  have "nat (val q) < 2 ^ 256" using b by (simp add: nat_less_iff)
  then show ?thesis
    using t uint_val_getuint256 [OF m] b(1) q(2) False by simp
qed

text \<open>The loop of \<open>ComputeMaxBits\<close> doubles once for every day begun, up to the limit.\<close>

lemma ComputeMaxBits_loop_val:
  assumes "0 < val b"
  shows "\<exists>r. ComputeMaxBits_loop bn limit nTime b = Some r \<and>
    min (val r) (val limit) = min (val b * 2 ^ nat ((nTime + 86399) div 86400)) (val limit)"
  using assms
proof (induction "nat nTime" arbitrary: nTime b rule: less_induct)
  case less
  show ?case
  proof (cases "nTime > 0 \<and> val b < val limit")
    case True
    obtain c where c: "bn_mul bn b (setulong bn 2) = Some c" "val c = val b * 2"
      using val_bn_ops(3) [of b "setulong bn 2"] by (auto simp: val_setulong)
    have "nat (nTime - 86400) < nat nTime" "0 < val c" using True c(2) less.prems by auto
    from less.hyps [OF this] obtain r where r: "ComputeMaxBits_loop bn limit (nTime - 86400) c = Some r"
      "min (val r) (val limit) = min (val c * 2 ^ nat ((nTime - 1) div 86400)) (val limit)" by auto
    have "nat ((nTime + 86399) div 86400) = Suc (nat ((nTime - 1) div 86400))"
    proof -
      have "(nTime + 86399) div 86400 = (nTime - 1) div 86400 + 1"
        using div_add_self2 [of 86400 "nTime - 1"] by simp
      moreover have "0 \<le> (nTime - 1) div 86400" using True by (simp add: pos_imp_zdiv_nonneg_iff)
      ultimately show ?thesis by simp
    qed
    then show ?thesis using True c r
      by (subst ComputeMaxBits_loop.simps) (simp add: val_bn_ops ac_simps)
  next
    case False
    then have l: "ComputeMaxBits_loop bn limit nTime b = Some b"
      by (subst ComputeMaxBits_loop.simps) (auto simp: val_bn_ops)
    show ?thesis
    proof (cases "nTime > 0")
      case True
      let ?k = "nat ((nTime + 86399) div 86400)"
      have "val b * 1 \<le> val b * 2 ^ ?k" using less.prems by (intro mult_left_mono) simp_all
      then show ?thesis using False True l by (auto simp: min_def)
    next
      case neg: False
      then have "(nTime + 86399) div 86400 \<le> 0" by (intro order.trans [OF zdiv_mono1 [of "nTime + 86399" 86399 86400]]) simp_all
      then show ?thesis using l by simp
    qed
  qed
qed

lemma ComputeMaxBits_val:
  assumes "0 < compact_val nBase" and "val limit = pow_limit tn"
  shows "\<exists>c. ComputeMaxBits bn limit nBase nTime = Some c \<and>
    compact_val c = compact_round (min (compact_val nBase * 2 * 2 ^ nat ((nTime + 86399) div 86400)) (pow_limit tn))"
proof -
  obtain b where b: "bn_mul bn (SetCompact bn nBase) (setulong bn 2) = Some b" "val b = compact_val nBase * 2"
    using val_bn_ops(3) [of "SetCompact bn nBase" "setulong bn 2"] by (auto simp: val_setulong val_SetCompact)
  have "0 < val b" using assms(1) b(2) by simp
  from ComputeMaxBits_loop_val [OF this, of limit nTime] obtain r where
    r: "ComputeMaxBits_loop bn limit nTime b = Some r"
      "min (val r) (val limit) = min (val b * 2 ^ nat ((nTime + 86399) div 86400)) (val limit)" by blast
  define x where "x = (if bn_gt bn r limit then limit else r)"
  have "0 < val b * 2 ^ nat ((nTime + 86399) div 86400)" using \<open>0 < val b\<close> by simp
  then have "0 < min (val r) (pow_limit tn)" using r(2) assms(2) pow_limit_range(1) [of tn] by simp
  moreover have vx: "val x = min (val r) (val limit)" by (auto simp: x_def val_bn_ops min_def)
  ultimately have "\<bar>val x\<bar> < 2 ^ 240" using assms(2) pow_limit_range(2) [of tn] by simp
  then have "length (mpi_bytes (val x)) < 256" using length_mpi_limit [of "val x"] by simp
  then have "compact_val (GetCompact bn x) = compact_round (val x)" by (rule val_GetCompact)
  then show ?thesis using b r vx assms(2)
    by (simp add: ComputeMaxBits_def Let_def x_def [symmetric])
qed

lemma val_CBigNum_long: "val (CBigNum_long bn n) = sint n"
proof (cases "0 \<le>s n")
  case True
  then have "\<not> sint n < 0" by (simp add: word_sle_eq)
  then have "\<not> bit (uint n) 63" by (simp add: sint_uint)
  moreover have "take_bit 64 (uint n) = uint n" using uint_lt2p [of n] by (simp add: take_bit_int_eq_self)
  ultimately have "sint n = uint n" by (simp add: sint_uint signed_take_bit_eq_take_bit_minus)
  then show ?thesis using True by (simp add: CBigNum_long_def val_setulong)
qed (simp add: CBigNum_long_def val_setint64)

end

text \<open>The target after a block: exponential moving average of the spacing, cut at the limit.\<close>

definition retarget :: "int \<Rightarrow> int \<Rightarrow> int \<Rightarrow> int" where
  "retarget limit T spacing =
     (let a = (if spacing < 0 then 30 else spacing); n = c_div (T * (30 + 2 * a)) 90
      in if n \<le> 0 \<or> n > limit then limit else n)"

definition next_target :: "bool \<Rightarrow> pindex \<Rightarrow> bool \<Rightarrow> int" where
  "next_target fTestNet chain stake =
     (case GetLastBlockIndex chain stake of
        p # q # r \<Rightarrow>
          (case GetLastBlockIndex (q # r) stake of
             p' # _ # _ \<Rightarrow> retarget (target_limit fTestNet stake) (compact_val (bi_nBits p)) (GetBlockTime p - GetBlockTime p')
           | _ \<Rightarrow> target_limit fTestNet stake)
      | _ \<Rightarrow> target_limit fTestNet stake)"

lemma next_target_range: "0 < next_target tn chain stake" "next_target tn chain stake \<le> target_limit tn stake"
  using target_limit_range [of tn stake] by (auto simp: next_target_def retarget_def Let_def split: list.split)

lemma GetLastBlockIndex_ne: "chain \<noteq> [] \<Longrightarrow> GetLastBlockIndex chain f \<noteq> []"
  by (induction chain f rule: GetLastBlockIndex.induct) auto

context openssl_bn
begin

lemma GetCompact_target:
  assumes "0 < val b" "val b < 2 ^ 240"
  shows "compact_val (GetCompact bn b) = compact_round (val b)"
proof -
  have "length (mpi_bytes (val b)) \<le> 31" using assms by (intro length_mpi_limit) simp
  then show ?thesis by (intro val_GetCompact) simp
qed

lemma retarget_val:
  assumes "val limit = L" and "a \<le> 2 ^ 32"
  shows "\<exists>m q. bn_mul bn (SetCompact bn c) (CBigNum_long bn (word_of_int ((2 - 1) * 30 + (if a < 0 then 30 else a) + (if a < 0 then 30 else a)))) = Some m \<and>
    bn_div bn m (CBigNum_long bn (word_of_int ((2 + 1) * 30))) = Some q \<and>
    val (if bn_le bn q (setulong bn 0) \<or> bn_gt bn q limit then limit else q) = retarget L (compact_val c) a"
proof -
  define s where "s = (if a < 0 then 30 else a)"
  have s: "0 \<le> s" "s \<le> 2 ^ 32" using assms(2) by (auto simp: s_def)
  let ?f = "CBigNum_long bn (word_of_int ((2 - 1) * 30 + s + s))"
  have f: "val ?f = 30 + 2 * s" unfolding val_CBigNum_long using s by (subst sint_word_of_int) simp_all
  obtain m where m: "bn_mul bn (SetCompact bn c) ?f = Some m" "val m = compact_val c * (30 + 2 * s)"
    using val_bn_ops(3) [of "SetCompact bn c" ?f] f by (auto simp: val_SetCompact)
  let ?g = "CBigNum_long bn (word_of_int ((2 + 1) * 30))"
  have g: "val ?g = 90" unfolding val_CBigNum_long by (subst sint_word_of_int) simp_all
  obtain q where q: "bn_div bn m ?g = Some q" "val q = c_div (val m) 90"
    using val_bn_div(1) [of ?g m] g by (auto simp: c_div_def)
  show ?thesis unfolding s_def [symmetric]
    using m q assms(1) by (auto simp: val_bn_ops val_setulong retarget_def s_def [symmetric] Let_def)
qed

lemma GetNextTargetRequired_val:
  "\<exists>c. GetNextTargetRequired bn tn chain stake = Some c \<and> compact_val c = compact_round (next_target tn chain stake)"
proof -
  let ?limit = "if stake then bnProofOfStakeLimit bn else bnProofOfWorkLimit bn tn"
  have l: "val ?limit = target_limit tn stake" by (simp add: val_limits target_limit_def)
  then have ll: "compact_val (GetCompact bn ?limit) = compact_round (target_limit tn stake)"
    using GetCompact_target [of ?limit] target_limit_range [of tn stake] by simp
  show ?thesis
  proof (cases "chain = [] \<or> tl (GetLastBlockIndex chain stake) = []")
    case True
    then have "next_target tn chain stake = target_limit tn stake"
      by (auto simp: next_target_def split: list.split)
    with True ll show ?thesis by (auto simp: GetNextTargetRequired_def Let_def)
  next
    case False
    then obtain p q r where p: "GetLastBlockIndex chain stake = p # q # r"
      by (cases "GetLastBlockIndex chain stake"; cases "tl (GetLastBlockIndex chain stake)") auto
    obtain p' t where p': "GetLastBlockIndex (q # r) stake = p' # t"
      using GetLastBlockIndex_ne [of "q # r" stake] by (cases "GetLastBlockIndex (q # r) stake") auto
    show ?thesis
    proof (cases "t = []")
      case True
      then have "next_target tn chain stake = target_limit tn stake" using p p' by (simp add: next_target_def)
      then show ?thesis using False p p' True ll by (simp add: GetNextTargetRequired_def Let_def)
    next
      case t: False
      define a where "a = GetBlockTime p - GetBlockTime p'"
      have "GetBlockTime p < 2 ^ 32" "0 \<le> GetBlockTime p'"
        using uint_lt2p [of "bi_nTime p"] by (simp_all add: GetBlockTime_def)
      then have "a \<le> 2 ^ 32" by (simp add: a_def)
      from retarget_val [OF l this, of "bi_nBits p"] obtain m q' where
        m: "bn_mul bn (SetCompact bn (bi_nBits p)) (CBigNum_long bn (word_of_int ((2 - 1) * 30 + (if a < 0 then 30 else a) + (if a < 0 then 30 else a)))) = Some m"
        and q': "bn_div bn m (CBigNum_long bn (word_of_int ((2 + 1) * 30))) = Some q'"
        and v: "val (if bn_le bn q' (setulong bn 0) \<or> bn_gt bn q' ?limit then ?limit else q') = retarget (target_limit tn stake) (compact_val (bi_nBits p)) a"
        by blast
      define x where "x = (if bn_le bn q' (setulong bn 0) \<or> bn_gt bn q' ?limit then ?limit else q')"
      have n: "next_target tn chain stake = retarget (target_limit tn stake) (compact_val (bi_nBits p)) a"
        using p p' t by (auto simp: next_target_def a_def split: list.split)
      have "compact_val (GetCompact bn x) = compact_round (val x)"
        using next_target_range [of tn chain stake] target_limit_range [of tn stake] v n by (intro GetCompact_target) (simp_all add: x_def)
      moreover have "GetNextTargetRequired bn tn chain stake = Some (GetCompact bn x)"
      proof -
        have i: "c_div nTargetTimespan 30 = 2" "nTargetSpacing = 30"
          by (simp_all add: nTargetTimespan_def nTargetSpacing_def c_div_def)
        have e: "(t = []) = False" "(chain = []) = False" "(q # r = []) = False" using t False by simp_all
        show ?thesis
          by (simp only: GetNextTargetRequired_def Let_def p list.sel p' e i if_False a_def [symmetric] m q'
              bind.bind_lunit x_def)
      qed
      ultimately show ?thesis using v n by (simp add: x_def)
    qed
  qed
qed

end

section \<open>Rewards\<close>

lemma sum_const_ivl:
  fixes f :: "int \<Rightarrow> int"
  assumes "\<forall>h. a \<le> h \<and> h \<le> b \<longrightarrow> f h = c" and "a \<le> b + 1"
  shows "sum f {a..b} = (b - a + 1) * c"
proof -
  have "sum f {a..b} = (\<Sum>h \<in> {a..b}. c)" by (rule sum.cong) (use assms in auto)
  then show ?thesis using assms(2) by simp
qed

lemma sum_ivl_split:
  fixes f :: "int \<Rightarrow> int"
  assumes "a \<le> b" "b \<le> c"
  shows "sum f {a..c} = sum f {a..b} + sum f {b + 1..c}"
proof -
  have "{a..c} = {a..b} \<union> {b + 1..c}" using assms by auto
  moreover have "{a..b} \<inter> {b + 1..c} = {}" by auto
  ultimately show ?thesis by (simp add: sum.union_disjoint)
qed

lemma total_reward:
  "(\<Sum>h \<in> {0..4693332}. GetProofOfWorkReward False h n 0) = 10999475 * COIN"
proof -
  let ?f = "\<lambda>h. GetProofOfWorkReward False h n 0"
  note defs = GetProofOfWorkReward_def Let_def COIN_def FAIR_LAUNCH_BLOCK_def ZERO_POW_BLOCK_def c_div_def
  have "sum ?f {0..0} = 50000000" "sum ?f {1..1} = 100000000000000" by (simp_all add: defs)
  moreover have "sum ?f {2..210} = (210 - 2 + 1) * 50000000" by (rule sum_const_ivl) (auto simp: defs)
  moreover have "sum ?f {211..1000000} = (1000000 - 211 + 1) * 300000000" by (rule sum_const_ivl) (auto simp: defs)
  moreover have "sum ?f {1000001..2000000} = (2000000 - 1000001 + 1) * 400000000" by (rule sum_const_ivl) (auto simp: defs)
  moreover have "sum ?f {2000001..3000000} = (3000000 - 2000001 + 1) * 300000000" by (rule sum_const_ivl) (auto simp: defs)
  moreover have "sum ?f {3000001..4693332} = (4693332 - 3000001 + 1) * 0" by (rule sum_const_ivl) (auto simp: defs)
  ultimately show ?thesis
    using sum_ivl_split [of 0 0 4693332 ?f] sum_ivl_split [of 1 1 4693332 ?f] sum_ivl_split [of 2 210 4693332 ?f]
      sum_ivl_split [of 211 1000000 4693332 ?f] sum_ivl_split [of 1000001 2000000 4693332 ?f]
      sum_ivl_split [of 2000001 3000000 4693332 ?f]
    by (simp add: COIN_def)
qed

section \<open>The chain of block indices\<close>

lemma GetLastBlockIndex_drop:
  "\<exists>k. GetLastBlockIndex chain f = drop k chain \<and> (\<forall>b \<in> set (take k chain). IsProofOfStake b \<noteq> f) \<and>
     (\<forall>b p r. drop k chain = b # p # r \<longrightarrow> IsProofOfStake b = f)"
proof (induction chain f rule: GetLastBlockIndex.induct)
  case (1 b p r f)
  show ?case
  proof (cases "IsProofOfStake b = f")
    case True
    then show ?thesis by (intro exI [of _ 0]) simp
  next
    case False
    with 1 obtain k where "GetLastBlockIndex (p # r) f = drop k (p # r) \<and> (\<forall>b \<in> set (take k (p # r)). IsProofOfStake b \<noteq> f) \<and>
       (\<forall>b q t. drop k (p # r) = b # q # t \<longrightarrow> IsProofOfStake b = f)" by blast
    with False show ?thesis by (intro exI [of _ "Suc k"]) simp
  qed
qed (intro exI [of _ 0], simp)+

lemma IsSuperMajority_loop_count:
  "IsSuperMajority_loop v chain R k n \<ge> R \<longleftrightarrow> n + length (filter (\<lambda>b. bi_nVersion b \<ge> v) (take k chain)) \<ge> R"
  by (induction v chain R k n rule: IsSuperMajority_loop.induct) auto

text \<open>The distances of a locator grow, so it has at most 22 entries.\<close>

definition locator_step :: "nat \<Rightarrow> nat \<Rightarrow> bool" where
  "locator_step n step \<longleftrightarrow> n \<le> 20 \<and> step = (if n \<le> 10 then 1 else 2 ^ (n - 10))"

lemma Locator_loop_bound:
  "locator_step (length vHave) step \<Longrightarrow> length (Locator_loop chain step vHave) \<le> 21"
proof (induction chain step vHave rule: Locator_loop.induct)
  case (1 chain step vHave)
  let ?v = "vHave @ [phashBlock (hd chain)]"
  let ?s = "if length ?v > 10 then step * 2 else step"
  show ?case
  proof (cases "chain = [] \<or> step = 0 \<or> ?s > 1024")
    case True
    then show ?thesis using 1(2) by (subst Locator_loop.simps) (auto simp: locator_step_def Let_def)
  next
    case False
    have "locator_step (length ?v) ?s"
    proof (cases "length vHave < 10")
      case True
      then show ?thesis using 1(2) by (simp add: locator_step_def)
    next
      case 10: False
      then have s: "?s = 2 ^ (length ?v - 10)" using 1(2)
        using power_Suc [of "2 :: nat" "length vHave - 10"] Suc_diff_le [of 10 "length vHave"]
        by (cases "length vHave = 10") (auto simp: locator_step_def)
      have "(2 :: nat) ^ (length ?v - 10) \<le> 2 ^ 10" using False unfolding s by simp
      then have "length ?v - 10 \<le> 10" by (rule power_le_imp_le_exp [rotated]) simp
      then show ?thesis using s 10 by (simp add: locator_step_def)
    qed
    with 1(1) False show ?thesis
      by (subst Locator_loop.simps) (simp add: Let_def)
  qed
qed

lemma Locator_loop_hashes:
  "0 < step \<Longrightarrow> \<exists>ks. Locator_loop chain step vHave = vHave @ map (\<lambda>k. phashBlock (chain ! k)) ks \<and>
     sorted_wrt (<) ks \<and> (\<forall>k \<in> set ks. k < length chain) \<and> (chain \<noteq> [] \<longrightarrow> ks \<noteq> [] \<and> hd ks = 0)"
proof (induction chain step vHave rule: Locator_loop.induct)
  case (1 chain step vHave)
  let ?v = "vHave @ [phashBlock (hd chain)]"
  let ?s = "if length ?v > 10 then step * 2 else step"
  show ?case
  proof (cases "chain = []")
    case True
    then show ?thesis by (subst Locator_loop.simps) simp
  next
    case ne: False
    show ?thesis
    proof (cases "?s > 1024")
      case True
      then show ?thesis using ne 1(2)
        by (subst Locator_loop.simps) (auto simp: Let_def hd_conv_nth intro!: exI [of _ "[0]"])
    next
      case False
      have "\<not> (chain = [] \<or> step = 0)" "0 < ?s" using ne 1(2) by simp_all
      from 1(1) [OF this(1) refl refl refl False this(2)]
      obtain ks where ks: "Locator_loop (drop step chain) ?s ?v = ?v @ map (\<lambda>k. phashBlock (drop step chain ! k)) ks"
        "sorted_wrt (<) ks" "\<forall>k \<in> set ks. k < length (drop step chain)"
        by blast
      have "map (\<lambda>k. phashBlock (drop step chain ! k)) ks = map (\<lambda>k. phashBlock (chain ! k)) (map ((+) step) ks)"
        using ks(3) by (auto simp: nth_drop)
      moreover have "\<forall>k \<in> set ks. step + k < length chain" using ks(3) by auto
      moreover have "sorted_wrt (<) (0 # map ((+) step) ks)" using ks(2) 1(2) by (simp add: sorted_wrt_map)
      ultimately show ?thesis
        using ne False ks 1(2)
        by (subst Locator_loop.simps) (auto simp: Let_def hd_conv_nth intro!: exI [of _ "0 # map ((+) step) ks"])
    qed
  qed
qed

section \<open>A chain of three blocks, with different next targets on the two networks\<close>

definition sample_index :: "u32 \<Rightarrow> CBlockIndex" where
  "sample_index t = \<lparr>phashBlock = [], bi_nFile = 0, bi_nBlockPos = 0, bi_nChainTrust = [], nHeight = 0, bi_nMint = 0,
     bi_nMoneySupply = 0, bi_nTx = 0, bi_nChainTx = 0, nFlags = 0, nStakeModifier = 0, nStakeModifierChecksum = 0,
     prevoutStake = COutPoint_null, nStakeTime = 0, hashProof = [], bi_nVersion = 0, bi_hashMerkleRoot = [], bi_nTime = t,
     bi_nBits = 0x1e0fffff, bi_nNonce = 0\<rparr>"

definition sample_chain :: pindex where
  "sample_chain = map sample_index [160, 100, 40]"

lemma sample_target: "next_target False sample_chain False = 2 ^ 236 - 1"
  "next_target True sample_chain False = 1747625 * 2 ^ 216"
  by (simp_all add: sample_chain_def next_target_def sample_index_def IsProofOfStake_def BLOCK_PROOF_OF_STAKE_def
     retarget_def target_limit_def pow_limit_def GetBlockTime_def compact_val_def c_div_def Let_def)

lemma sample_target_round: "compact_round (2 ^ 236 - 1) = 0xfffff * 2 ^ 216" "compact_round (1747625 * 2 ^ 216) = 1747625 * 2 ^ 216"
proof -
  have "be_val (replicate 29 0xff) = 256 ^ 29 - 1" using be_val_ones [of 29] by simp
  then have "int (be_val (0xf # replicate 29 0xff)) = 2 ^ 236 - 1" by simp
  from compact_round_bytes [OF this [symmetric]] show "compact_round (2 ^ 236 - 1) = 0xfffff * 2 ^ 216" by simp
  have "int (be_val (0x1a # [0xaa, 0xa9] @ replicate 27 0)) = 1747625 * 2 ^ 216" by (simp add: be_val_append)
  from compact_round_bytes [OF this [symmetric]] show "compact_round (1747625 * 2 ^ 216) = 1747625 * 2 ^ 216" by simp
qed

end
