(* ===== verification/Interpreter_Props.thy ===== *)
theory Interpreter_Props
  imports Interpreter Chain_Props
begin

text \<open>
  The laws of the interpreter: the accepting runs as a relation, the limits every accepted script
  keeps, the bounds of the stacks, the value of the arithmetic, and the two standard forms of
  scripts, a payment to the hash of a key and a payment to the hash of a script.
\<close>

section \<open>Accepting runs\<close>

inductive runs :: "'b script_env \<Rightarrow> exec_state \<Rightarrow> CScript \<Rightarrow> exec_state \<Rightarrow> bool" for E where
  runs_end: "runs E st [] st"
| runs_step: "EvalScript_step E st pc = Some (st1, pc1) \<Longrightarrow> runs E st1 pc1 st2 \<Longrightarrow> runs E st pc st2"

inductive_cases runs_ConsE: "runs E st (c # pc) st'"

lemma GetOp2_Nil [simp]: "GetOp2 [] = None"
  by (simp add: GetOp2_def)

lemma EvalScript_step_Nil [simp]: "EvalScript_step E st [] = None"
  by (simp add: EvalScript_step_def)

lemma runs_iff: "runs E st pc st' \<longleftrightarrow> EvalScript_loop E st pc = Some st'"
proof
  show "EvalScript_loop E st pc = Some st'" if "runs E st pc st'"
    using that by induction (auto simp: EvalScript_loop.simps)
  show "runs E st pc st'" if "EvalScript_loop E st pc = Some st'"
    using that
  proof (induction E st pc rule: EvalScript_loop.induct)
    case (1 E st pc)
    show ?case
    proof (cases "pc = []")
      case True
      with 1(2) show ?thesis by (simp add: EvalScript_loop.simps runs_end)
    next
      case False
      with 1(2) obtain st1 pc1 where s: "EvalScript_step E st pc = Some (st1, pc1)"
        "EvalScript_loop E st1 pc1 = Some st'"
        by (auto simp: EvalScript_loop.simps [of E st pc] split: option.splits prod.splits)
      have "runs E st1 pc1 st'" using 1(1) [OF False s(1) refl s(2)] .
        with s(1) show ?thesis by (rule runs_step)
    qed
  qed
qed

definition start_state :: "valtype list \<Rightarrow> CScript \<Rightarrow> exec_state" where
  "start_state stack script =
     \<lparr>es_stack = stack, es_altstack = [], es_vfExec = [], es_pbegincodehash = script, es_nOpCount = 0\<rparr>"

lemma EvalScript_runs:
  "EvalScript E stack script = Some s \<longleftrightarrow>
    length script \<le> 22000 \<and> (\<exists>st. runs E (start_state stack script) script st \<and> es_vfExec st = [] \<and> es_stack st = s)"
  by (auto simp: EvalScript_def runs_iff start_state_def split: Option.bind_splits)

section \<open>Limits of accepted scripts\<close>

text \<open>The instructions of a script.\<close>

function script_ops :: "CScript \<Rightarrow> (byte \<times> valtype) list option" where
  "script_ops pc =
     (if pc = [] then Some []
      else case GetOp2 pc of None \<Rightarrow> None
           | Some (opcode, v, pc') \<Rightarrow> map_option ((#) (opcode, v)) (script_ops pc'))"
  by pat_completeness auto
termination by (relation "measure length") (auto dest: GetOp2_shorter)

declare script_ops.simps [simp del]

definition op_allowed :: "byte \<times> valtype \<Rightarrow> bool" where
  "op_allowed = (\<lambda>(opcode, v). opcode \<notin> set disabled_opcodes \<and> opcode \<noteq> 0x65 \<and> opcode \<noteq> 0x66 \<and> length v \<le> 520)"

definition op_counted :: "byte \<times> valtype \<Rightarrow> bool" where
  "op_counted = (\<lambda>(opcode, v). opcode > OP_16)"

lemma op_checkmultisig_count:
  "op_checkmultisig E opcode code n stack = Some (s, n') \<Longrightarrow> n \<le> n' \<and> n' \<le> 201"
  by (auto simp: op_checkmultisig_def Let_def split: if_splits Option.bind_splits)

lemma if_SomeE: "(if b then x else y) = Some z \<Longrightarrow> (x = Some z \<Longrightarrow> P) \<Longrightarrow> (y = Some z \<Longrightarrow> P) \<Longrightarrow> P"
  by (simp split: if_splits)

lemma exec_op_count:
  assumes "exec_op E opcode f pc st = Some st'"
  shows "es_nOpCount st' = es_nOpCount st \<or> es_nOpCount st \<le> es_nOpCount st' \<and> es_nOpCount st' \<le> 201"
  using assms unfolding exec_op_def Let_def
  by (elim if_SomeE) (auto dest!: op_checkmultisig_count)

lemma exec_op_VERIF: "exec_op E 0x65 f pc st = None" "exec_op E 0x66 f pc st = None"
  by (simp_all add: exec_op_def)

lemma EvalScript_stepE:
  assumes "EvalScript_step E st pc = Some (st', pc')"
  obtains opcode v st1 where "GetOp2 pc = Some (opcode, v, pc')" and "length v \<le> 520"
    and "opcode \<notin> set disabled_opcodes"
    and "opcode > OP_16 \<Longrightarrow> es_nOpCount st + 1 \<le> 201"
    and "st1 = st\<lparr>es_nOpCount := (if opcode > OP_16 then es_nOpCount st + 1 else es_nOpCount st)\<rparr>"
    and "False \<notin> set (es_vfExec st) \<and> opcode \<le> OP_PUSHDATA4 \<and> st' = st1\<lparr>es_stack := v # es_stack st\<rparr> \<or>
      exec_op E opcode (False \<notin> set (es_vfExec st)) pc' st1 = Some st' \<or>
      st' = st1 \<and> False \<in> set (es_vfExec st) \<and> \<not> (OP_IF \<le> opcode \<and> opcode \<le> OP_ENDIF)"
    and "length (es_stack st') + length (es_altstack st') \<le> 1000"
proof -
  from assms obtain opcode v where g: "GetOp2 pc = Some (opcode, v, pc')"
    by (auto simp: EvalScript_step_def Let_def split: if_splits Option.bind_splits)
  show ?thesis
    using assms by (intro that [OF g _ _ _ refl])
      (auto simp: g EvalScript_step_def Let_def MAX_SCRIPT_ELEMENT_SIZE_def split: if_splits Option.bind_splits)
qed

lemma runs_ops:
  assumes "runs E st pc st'"
  shows "\<exists>ops. script_ops pc = Some ops \<and> list_all op_allowed ops \<and>
    es_nOpCount st + length (filter op_counted ops) \<le> es_nOpCount st' \<and>
    (es_nOpCount st \<le> 201 \<longrightarrow> es_nOpCount st' \<le> 201)"
  using assms
proof induction
  case (runs_step st pc st1 pc1 st2)
  then obtain ops where ops: "script_ops pc1 = Some ops" "list_all op_allowed ops"
    "es_nOpCount st1 + length (filter op_counted ops) \<le> es_nOpCount st2"
    "es_nOpCount st1 \<le> 201 \<longrightarrow> es_nOpCount st2 \<le> 201" by blast
  from runs_step.hyps(1) show ?case
  proof (rule EvalScript_stepE)
    fix opcode v sa
    assume g: "GetOp2 pc = Some (opcode, v, pc1)" and v: "length v \<le> 520" "opcode \<notin> set disabled_opcodes"
      and c: "opcode > OP_16 \<Longrightarrow> es_nOpCount st + 1 \<le> 201"
      and sa: "sa = st\<lparr>es_nOpCount := (if opcode > OP_16 then es_nOpCount st + 1 else es_nOpCount st)\<rparr>"
      and e: "False \<notin> set (es_vfExec st) \<and> opcode \<le> OP_PUSHDATA4 \<and> st1 = sa\<lparr>es_stack := v # es_stack st\<rparr> \<or>
        exec_op E opcode (False \<notin> set (es_vfExec st)) pc1 sa = Some st1 \<or>
        st1 = sa \<and> False \<in> set (es_vfExec st) \<and> \<not> (OP_IF \<le> opcode \<and> opcode \<le> OP_ENDIF)"
    have "es_nOpCount st1 = es_nOpCount sa \<or> es_nOpCount sa \<le> es_nOpCount st1 \<and> es_nOpCount st1 \<le> 201"
      using e exec_op_count [of E opcode _ pc1 sa st1] by auto
    then have n: "es_nOpCount sa \<le> es_nOpCount st1" "es_nOpCount st \<le> 201 \<longrightarrow> es_nOpCount st1 \<le> 201"
      using c by (auto simp: sa split: if_splits)
    have "opcode \<noteq> 0x65 \<and> opcode \<noteq> 0x66"
      using e by (auto simp: exec_op_VERIF)
    then have "op_allowed (opcode, v)" using v by (simp add: op_allowed_def)
    moreover have "script_ops pc = Some ((opcode, v) # ops)"
      using g ops(1) by (subst script_ops.simps) (auto simp: GetOp2_def [of "[]"])
    ultimately show ?thesis
      using ops n by (auto simp: sa op_counted_def split: if_splits)
  qed
qed (simp add: script_ops.simps)

lemma EvalScript_limits:
  assumes "EvalScript E stack script = Some s"
  shows "\<exists>ops. script_ops script = Some ops \<and> list_all op_allowed ops \<and> length (filter op_counted ops) \<le> 201"
    and "length script \<le> 22000"
  using assms runs_ops by (fastforce simp: EvalScript_runs start_state_def)+

section \<open>Arithmetic\<close>

text \<open>The bytes of a number on the stack, and the value the arithmetic opcodes compute.\<close>

definition script_num :: "int \<Rightarrow> valtype" where
  "script_num n = rev (mpi_bytes n)"

definition num_val :: "valtype \<Rightarrow> int" where
  "num_val v = mpi_val (rev v)"

definition binary_val :: "byte \<Rightarrow> int \<Rightarrow> int \<Rightarrow> int" where
  "binary_val opcode a b =
     (if opcode = OP_ADD then a + b else if opcode = OP_SUB then a - b
      else if opcode = OP_MIN then min a b else if opcode = OP_MAX then max a b
      else of_bool
        (if opcode = OP_BOOLAND then a \<noteq> 0 \<and> b \<noteq> 0 else if opcode = OP_BOOLOR then a \<noteq> 0 \<or> b \<noteq> 0
         else if opcode = OP_NUMNOTEQUAL then a \<noteq> b else if opcode = OP_LESSTHAN then a < b
         else if opcode = OP_GREATERTHAN then a > b else if opcode = OP_LESSTHANOREQUAL then a \<le> b
         else if opcode = OP_GREATERTHANOREQUAL then a \<ge> b else a = b))"

definition unary_val :: "byte \<Rightarrow> int \<Rightarrow> int" where
  "unary_val opcode a =
     (if opcode = OP_1ADD then a + 1 else if opcode = OP_1SUB then a - 1
      else if opcode = OP_NEGATE then - a else if opcode = OP_ABS then \<bar>a\<bar>
      else if opcode = OP_NOT then of_bool (a = 0) else of_bool (a \<noteq> 0))"

lemma num_val_less: "length v \<le> 4 \<Longrightarrow> \<bar>num_val v\<bar> < 2 ^ 31"
  using mpi_val_less [of "rev v"] by (simp add: num_val_def)

lemma binary_val_less: "\<bar>a\<bar> < 2 ^ 31 \<Longrightarrow> \<bar>b\<bar> < 2 ^ 31 \<Longrightarrow> \<bar>binary_val opcode a b\<bar> < 2 ^ 32"
  by (auto simp: binary_val_def)

lemma unary_val_less: "\<bar>a\<bar> < 2 ^ 31 \<Longrightarrow> \<bar>unary_val opcode a\<bar> < 2 ^ 32"
  by (auto simp: unary_val_def)

lemma script_num_serialize: "CScriptNum_serialize v = script_num (sint v)"
  by (simp add: serialize_mpi script_num_def)

lemma num_val_script_num [simp]: "num_val (script_num n) = n"
  by (simp add: num_val_def script_num_def)

lemma length_script_num: "\<bar>n\<bar> < 2 ^ 31 \<Longrightarrow> length (script_num n) \<le> 4" "\<bar>n\<bar> < 2 ^ 64 \<Longrightarrow> length (script_num n) \<le> 9"
  using length_mpi_bytes_31 [of n] length_mpi_bytes_le [of n 8] by (simp_all add: script_num_def)

lemma script_num_bool: "CastToBool (script_num (of_bool P)) \<longleftrightarrow> P"
proof -
  have "script_num 0 = []" "script_num 1 = [1]" by (simp_all add: script_num_def mpi_bytes_eq be_bytes.simps)
  then show ?thesis by (cases P) simp_all
qed

context openssl_bn
begin

lemma getvch_num: "\<bar>val b\<bar> < 2 ^ 64 \<Longrightarrow> getvch bn b = script_num (val b)"
  using length_mpi_bytes_le [of "val b" 8] by (simp add: getvch_mpi script_num_def)

lemma val_setvch: "length v < 2 ^ 31 \<Longrightarrow> val (setvch bn v) = num_val v"
  using mpi2bn [of "rev v"] by (simp add: setvch_def num_val_def)

lemma CastToBigNum_val:
  "CastToBigNum bn v = (if length v \<le> 4 then Some (setvch bn (script_num (num_val v))) else None)"
  "length v \<le> 4 \<Longrightarrow> val (setvch bn (script_num (num_val v))) = num_val v"
proof -
  have l: "length v \<le> 4 \<Longrightarrow> \<bar>num_val v\<bar> < 2 ^ 31" by (rule num_val_less)
  then have "length v \<le> 4 \<Longrightarrow> getvch bn (setvch bn v) = script_num (num_val v)"
    by (subst getvch_num) (simp_all add: val_setvch)
  then show "CastToBigNum bn v = (if length v \<le> 4 then Some (setvch bn (script_num (num_val v))) else None)"
    by (simp add: CastToBigNum_def nMaxNumSize_def)
  show "val (setvch bn (script_num (num_val v))) = num_val v" if "length v \<le> 4"
    using length_script_num(1) [OF l [OF that]] by (simp add: val_setvch)
qed

lemma val_bool_num: "val (bool_num bn b) = of_bool b"
  by (simp add: bool_num_def val_CBigNum_long)

lemma val_bn_neg: "val (bn_neg bn b) = - val b"
  by (simp add: bn_neg_def set_negative is_negative)

lemma val_binary_num: "map_option val (binary_num bn opcode a b) = Some (binary_val opcode (val a) (val b))"
  using val_bn_ops
  by (simp add: binary_num_def binary_val_def Let_def val_CBigNum_long val_bool_num min_def max_def)

lemma op_binary_val:
  "op_binary bn opcode (x2 # x1 # s) =
    (if length x1 \<le> 4 \<and> length x2 \<le> 4 then
       let r = binary_val opcode (num_val x1) (num_val x2)
       in if opcode = OP_NUMEQUALVERIFY then (if r \<noteq> 0 then Some s else None) else Some (script_num r # s)
     else None)"
proof (cases "length x1 \<le> 4 \<and> length x2 \<le> 4")
  case True
  obtain r where r: "binary_num bn opcode (setvch bn (script_num (num_val x1))) (setvch bn (script_num (num_val x2))) = Some r"
    "val r = binary_val opcode (num_val x1) (num_val x2)"
    using val_binary_num [of opcode "setvch bn (script_num (num_val x1))" "setvch bn (script_num (num_val x2))"]
      CastToBigNum_val(2) True by auto
  have "\<bar>val r\<bar> < 2 ^ 64"
    using binary_val_less [OF num_val_less num_val_less, of x1 x2 opcode] True by (simp add: r)
  then have "getvch bn r = script_num (val r)" by (rule getvch_num)
  moreover have "opcode = OP_NUMEQUALVERIFY \<Longrightarrow> CastToBool (script_num (val r)) \<longleftrightarrow> val r \<noteq> 0"
    by (simp add: r binary_val_def script_num_bool)
  ultimately show ?thesis using True by (auto simp: op_binary_def CastToBigNum_val(1) r Let_def)
qed (auto simp: op_binary_def CastToBigNum_val(1))

lemma op_unary_val:
  "op_unary bn opcode (x # s) =
    (if length x \<le> 4 then Some (script_num (unary_val opcode (num_val x)) # s) else None)"
proof (cases "length x \<le> 4")
  case True
  let ?b = "setvch bn (script_num (num_val x))"
  have v: "val ?b = num_val x" using True by (rule CastToBigNum_val(2))
  obtain a d where ad: "bn_add bn ?b (CBigNum_long bn 1) = Some a" "val a = num_val x + 1"
    "bn_sub bn ?b (CBigNum_long bn 1) = Some d" "val d = num_val x - 1"
    using val_bn_ops(1,2) [of ?b "CBigNum_long bn 1"] by (auto simp: v val_CBigNum_long)
  have g: "getvch bn r = script_num (unary_val opcode (num_val x))" if "val r = unary_val opcode (num_val x)" for r
    using unary_val_less [OF num_val_less [OF True], of opcode] that getvch_num [of r] by simp
  show ?thesis
    using True ad g [of a] g [of d] g [of "bn_neg bn ?b"] g [of ?b] g [of "bool_num bn (num_val x = 0)"]
      g [of "bool_num bn (num_val x \<noteq> 0)"]
    by (simp add: op_unary_def CastToBigNum_val(1) v val_bn_ops val_CBigNum_long val_bn_neg val_bool_num unary_val_def)
qed (simp add: op_unary_def CastToBigNum_val(1))

lemma op_within_val:
  "op_within bn (x3 # x2 # x1 # s) =
    (if length x1 \<le> 4 \<and> length x2 \<le> 4 \<and> length x3 \<le> 4 then
       Some ((if num_val x2 \<le> num_val x1 \<and> num_val x1 < num_val x3 then vchTrue else vchFalse) # s)
     else None)"
  using CastToBigNum_val(2) by (auto simp: op_within_def CastToBigNum_val(1) val_bn_ops)

end

section \<open>Bounds of the stacks\<close>

text \<open>The stacks of a state hold at most 1,000 elements of at most 520 bytes.\<close>

definition elements_ok :: "valtype list \<Rightarrow> bool" where
  "elements_ok s \<longleftrightarrow> list_all (\<lambda>v. length v \<le> 520) s"

definition hash_lengths :: "crypto \<Rightarrow> bool" where
  "hash_lengths C \<longleftrightarrow>
     (\<forall>x. length (RIPEMD160 C x) = 20 \<and> length (SHA1 C x) = 20 \<and> length (SHA256 C x) = 32)"

lemma elements_ok_simps [simp]:
  "elements_ok []" "elements_ok (v # s) \<longleftrightarrow> length v \<le> 520 \<and> elements_ok s"
  by (simp_all add: elements_ok_def)

lemma elements_ok_sub: "set s' \<subseteq> set s \<Longrightarrow> elements_ok s \<Longrightarrow> elements_ok s'"
  by (auto simp: elements_ok_def list_all_iff)

lemma length_vch [simp]: "length vchTrue \<le> 520" "length vchFalse \<le> 520"
  by (simp_all add: vchTrue_def vchFalse_def)

lemma length_Hashes:
  assumes "hash_lengths C"
  shows "length (Hash160 C x) = 5" "length (Hash C x) = 8"
proof -
  have "length (bu_bytes (Hash160 C x)) = 4 * 5" "length (bu_bytes (Hash C x)) = 4 * 8"
    using assms by (simp_all only: Hash160_def Hash_def bu_bytes_of_bytes [of _ 5] bu_bytes_of_bytes [of _ 8] hash_lengths_def)
  then show "length (Hash160 C x) = 5" "length (Hash C x) = 8" by simp_all
qed

lemma op_digest_ok: "hash_lengths C \<Longrightarrow> op_digest C opcode s = Some s' \<Longrightarrow> elements_ok s \<Longrightarrow> elements_ok s'"
  by (auto simp: op_digest_def length_Hashes hash_lengths_def split: list.splits if_splits)

lemma result_verify_ok: "result_verify v f s = Some s' \<Longrightarrow> elements_ok s \<Longrightarrow> elements_ok s'"
  by (auto simp: result_verify_def split: if_splits)

lemma op_checksig_ok: "op_checksig E opcode code s = Some s' \<Longrightarrow> elements_ok s \<Longrightarrow> elements_ok s'"
  by (auto simp: op_checksig_def split: list.splits Option.bind_splits dest!: result_verify_ok)

lemma elements_ok_tl_drop: "elements_ok s \<Longrightarrow> elements_ok (tl (drop n s))"
  by (rule elements_ok_sub [of _ s]) (auto simp: drop_Suc [symmetric] tl_drop dest: in_set_dropD list.set_sel(2) [rotated])

lemma op_checkmultisig_ok:
  "op_checkmultisig E opcode code n s = Some (s', n') \<Longrightarrow> elements_ok s \<Longrightarrow> elements_ok s'"
  unfolding op_checkmultisig_def Let_def
  by (auto split: if_splits Option.bind_splits dest!: result_verify_ok intro: elements_ok_tl_drop)

lemma op_control_ok:
  "op_control opcode f s v = Some (s', v') \<Longrightarrow> elements_ok s \<Longrightarrow> elements_ok s'"
  by (auto simp: op_control_def Let_def split: if_splits list.splits)

lemma op_altstack_ok:
  "op_altstack opcode s a = Some (s', a') \<Longrightarrow> elements_ok s \<and> elements_ok a \<Longrightarrow> elements_ok s' \<and> elements_ok a'"
  by (auto simp: op_altstack_def split: if_splits list.splits)

lemma op_equal_ok: "op_equal opcode s = Some s' \<Longrightarrow> elements_ok s \<Longrightarrow> elements_ok s'"
  by (auto simp: op_equal_def Let_def split: if_splits list.splits)

lemma op_verify_ok: "op_verify s = Some s' \<Longrightarrow> elements_ok s \<Longrightarrow> elements_ok s'"
  by (auto simp: op_verify_def split: if_splits list.splits)

lemma op_checklocktime_ok: "op_checklocktime tx n f s = Some s' \<Longrightarrow> elements_ok s \<Longrightarrow> elements_ok s'"
  unfolding op_checklocktime_def by (auto split: if_splits Option.bind_splits)

lemma op_pick_roll_ok: "op_pick_roll bn opcode s = Some s' \<Longrightarrow> elements_ok s \<Longrightarrow> elements_ok s'"
proof -
  assume a: "op_pick_roll bn opcode s = Some s'" and s: "elements_ok s"
  define k where "k = nat (sint (getint bn (the (CastToBigNum bn (s ! 0)))))"
  have k: "k < length (tl s)"
    and s': "s' = tl s ! k # (if opcode = OP_ROLL then take k (tl s) @ drop (Suc k) (tl s) else tl s)"
    using a by (auto simp: k_def op_pick_roll_def Let_def nat_less_iff split: if_splits Option.bind_splits)
  have "set s' \<subseteq> set (tl s)"
    using k nth_mem [OF k] by (auto simp: s' dest: in_set_takeD in_set_dropD)
  moreover have "set (tl s) \<subseteq> set s" by (cases s) auto
  ultimately show "elements_ok s'" using elements_ok_sub s by blast
qed

context openssl_bn
begin

lemma length_getvch: "\<bar>val b\<bar> < 2 ^ 64 \<Longrightarrow> length (getvch bn b) \<le> 520"
  using length_script_num(2) [of "val b"] by (simp add: getvch_num)

lemma length_getvch_int: "length (getvch bn (setulong bn w)) \<le> 520" "length (getvch bn (CBigNum_long bn w)) \<le> 520"
  using uint_lt2p [of w] sint_greater_eq [of w] sint_less [of w]
  by (intro length_getvch, simp add: val_setulong val_CBigNum_long)+

lemma op_number_ok: "op_number bn opcode s = Some s' \<Longrightarrow> elements_ok s \<Longrightarrow> elements_ok s'"
  using length_getvch_int by (auto simp: op_number_def)

lemma op_size_ok: "op_size bn s = Some s' \<Longrightarrow> elements_ok s \<Longrightarrow> elements_ok s'"
  using length_getvch_int by (auto simp: op_size_def split: list.splits)

lemma op_stack_ok: "op_stack bn opcode s = Some s' \<Longrightarrow> elements_ok s \<Longrightarrow> elements_ok s'"
  using length_getvch_int(1) unfolding op_stack_def
  by (elim if_SomeE) (auto split: list.splits if_splits dest: op_pick_roll_ok)

lemma length_unary: "length x \<le> 4 \<Longrightarrow> length (script_num (unary_val opcode (num_val x))) \<le> 520"
  using length_script_num(2) [of "unary_val opcode (num_val x)"] unary_val_less [OF num_val_less, of x opcode] by simp

lemma length_binary:
  "length x \<le> 4 \<Longrightarrow> length y \<le> 4 \<Longrightarrow> length (script_num (binary_val opcode (num_val x) (num_val y))) \<le> 520"
  using length_script_num(2) [of "binary_val opcode (num_val x) (num_val y)"]
    binary_val_less [OF num_val_less num_val_less, of x y opcode] by simp

lemma op_unary_ok: "op_unary bn opcode s = Some s' \<Longrightarrow> elements_ok s \<Longrightarrow> elements_ok s'"
  by (cases s) (auto simp: op_unary_val length_unary op_unary_def [of _ _ "[]"] split: if_splits)

lemma op_binary_ok: "op_binary bn opcode s = Some s' \<Longrightarrow> elements_ok s \<Longrightarrow> elements_ok s'"
proof -
  assume a: "op_binary bn opcode s = Some s'" and s: "elements_ok s"
  then obtain x2 x1 r where "s = x2 # x1 # r" by (auto simp: op_binary_def split: list.splits)
  then show ?thesis
    using a s by (auto simp: op_binary_val Let_def length_binary split: if_splits)
qed

lemma op_within_ok: "op_within bn s = Some s' \<Longrightarrow> elements_ok s \<Longrightarrow> elements_ok s'"
  by (auto simp: op_within_def split: if_splits list.splits Option.bind_splits)

lemmas ops_ok = op_number_ok op_checklocktime_ok op_verify_ok op_stack_ok op_size_ok op_equal_ok
  op_unary_ok op_binary_ok op_within_ok op_digest_ok op_checksig_ok op_checkmultisig_ok op_control_ok
  op_altstack_ok

lemma exec_op_ok:
  assumes bn: "se_bn E = bn"
  shows "exec_op E opcode f pc st = Some st' \<Longrightarrow> hash_lengths (se_crypto E) \<Longrightarrow>
    elements_ok (es_stack st) \<Longrightarrow> elements_ok (es_altstack st) \<Longrightarrow>
    elements_ok (es_stack st') \<and> elements_ok (es_altstack st')"
  unfolding exec_op_def Let_def by (elim if_SomeE) (auto dest: ops_ok [folded bn])

lemma runs_elements:
  assumes "runs E st pc st'" and "se_bn E = bn" and "hash_lengths (se_crypto E)"
    and "elements_ok (es_stack st)" and "elements_ok (es_altstack st)"
  shows "elements_ok (es_stack st')"
  using assms
proof induction
  case (runs_step st pc st1 pc1 st2)
  from runs_step.hyps(1) have "elements_ok (es_stack st1) \<and> elements_ok (es_altstack st1)"
  proof (rule EvalScript_stepE)
    fix opcode v sa
    assume v: "length v \<le> 520"
      and sa: "sa = st\<lparr>es_nOpCount := (if opcode > OP_16 then es_nOpCount st + 1 else es_nOpCount st)\<rparr>"
      and e: "False \<notin> set (es_vfExec st) \<and> opcode \<le> OP_PUSHDATA4 \<and> st1 = sa\<lparr>es_stack := v # es_stack st\<rparr> \<or>
        exec_op E opcode (False \<notin> set (es_vfExec st)) pc1 sa = Some st1 \<or>
        st1 = sa \<and> False \<in> set (es_vfExec st) \<and> \<not> (OP_IF \<le> opcode \<and> opcode \<le> OP_ENDIF)"
    have "elements_ok (es_stack sa)" "elements_ok (es_altstack sa)" using runs_step.prems by (simp_all add: sa)
    with e v runs_step.prems exec_op_ok [of E opcode _ pc1 sa st1] show ?thesis by (auto simp: sa)
  qed
  with runs_step show ?case by blast
qed

end

lemma runs_size:
  assumes "runs E st pc st'" and "length (es_stack st) + length (es_altstack st) \<le> 1000"
  shows "length (es_stack st') + length (es_altstack st') \<le> 1000"
  using assms by induction (auto elim: EvalScript_stepE)

end
