(* ===== verification/Block_Props.thy ===== *)
theory Block_Props
  imports Block Merkle_Unique Transaction_Props Interpreter_Props
begin

text \<open>
  The laws of blocks: the serialization is one to one, the memory of the header is its
  serialization, \<open>CheckBlock\<close> accepts exactly the blocks of the specification, and an accepted block
  is determined by the Merkle root of its header, or a hash has a collision.
\<close>

section \<open>Serialization\<close>

definition block_ok :: "CBlock \<Rightarrow> bool" where
  "block_ok b \<longleftrightarrow> length (cb_hashPrevBlock b) = 8 \<and> length (cb_hashMerkleRoot b) = 8 \<and>
     length (cb_vtx b) \<le> 2 ^ 25 \<and> list_all tx_ok (cb_vtx b) \<and> length (cb_vchBlockSig b) \<le> 2 ^ 25 \<and> cb_nDoS b = 0"

interpretation ser_vtx: serializable "Serialize_vec Serialize_CTransaction" "Unserialize_vec Unserialize_CTransaction 78125"
  "GetSerializeSize_vec GetSerializeSize_CTransaction" "\<lambda>v. length v \<le> 2 ^ 25 \<and> list_all tx_ok v"
  by (rule ser_tx.serializable_vec) simp

interpretation ser_block: serializable Serialize_CBlock Unserialize_CBlock GetSerializeSize_CBlock block_ok
proof
  fix x :: CBlock and b s
  show "Unserialize_CBlock (Serialize_CBlock x @ s) = Some (x, s)" if "block_ok x"
    using that ser_vtx.read_write [of "cb_vtx x"]
    by (simp add: Unserialize_CBlock_def Serialize_CBlock_def Serialize_header_def block_ok_def
        ser_u32.read_write ser_uint256.read_write ser_bytes.read_write)
  show "block_ok x \<and> b = Serialize_CBlock x @ s" if "Unserialize_CBlock b = Some (x, s)"
    using that unfolding Unserialize_CBlock_def Serialize_CBlock_def Serialize_header_def block_ok_def
    by (clarsimp split: Option.bind_splits)
      (drule ser_u32.write_read ser_uint256.write_read ser_vtx.write_read ser_bytes.write_read; clarsimp)+
  show "length (Serialize_CBlock x) = GetSerializeSize_CBlock x" if "block_ok x"
    using that ser_vtx.size [of "cb_vtx x"]
    by (simp add: Serialize_CBlock_def Serialize_header_def GetSerializeSize_CBlock_def block_ok_def
        ser_u32.size ser_uint256.size ser_bytes.size)
qed

lemma header_memory_eq: "header_memory b = Serialize_header b"
  by (simp add: header_memory_def Serialize_header_def Serialize_u32_def Serialize_uint256_def)

lemma length_header: "block_ok b \<Longrightarrow> length (header_memory b) = 80"
  by (simp add: header_memory_eq Serialize_header_def block_ok_def ser_u32.size ser_uint256.size)

section \<open>Accepted blocks\<close>

lemma length_le_GetSerializeSize_vec:
  "\<forall>x \<in> set v. 1 \<le> sz x \<Longrightarrow> length v \<le> GetSerializeSize_vec sz v"
proof -
  assume "\<forall>x \<in> set v. 1 \<le> sz x"
  then have "length v \<le> sum_list (map sz v)" by (induction v) auto
  then show ?thesis by (simp add: GetSerializeSize_vec_def)
qed

lemma length_vtx_size: "length (cb_vtx b) \<le> GetSerializeSize_CBlock b"
  using length_le_GetSerializeSize_vec [of "cb_vtx b" GetSerializeSize_CTransaction]
  by (simp add: GetSerializeSize_CBlock_def GetSerializeSize_CTransaction_def)

lemma CheckBlock_txs_spec:
  "CheckBlock_txs t txs = (res, txs') \<Longrightarrow>
    (res = None \<longleftrightarrow> (\<forall>tx \<in> set txs. tx_valid tx \<and> uint (tx_nTime tx) \<le> t)) \<and> (res = None \<longrightarrow> txs' = txs)"
proof (induction txs arbitrary: res txs')
  case (Cons tx txs)
  obtain f tx' where c: "CheckTransaction tx = (f, tx')" by (cases "CheckTransaction tx")
  then have f: "f \<longleftrightarrow> tx_valid tx" using CheckTransaction_valid [of tx] by simp
  have same: "f \<Longrightarrow> tx' = tx" using CheckTransaction_DoS [OF c] by blast
  obtain r rs where r: "CheckBlock_txs t txs = (r, rs)" by (cases "CheckBlock_txs t txs")
  show ?case
    using Cons.prems Cons.IH [OF r] f same by (auto simp: c r split: if_splits)
qed simp

text \<open>A failure among the transactions is charged what \<open>CheckTransaction\<close> charges, or 50.\<close>

lemma CheckBlock_txs_charge:
  "CheckBlock_txs t txs = (Some k, txs') \<Longrightarrow> \<forall>tx \<in> set txs. tx_nDoS tx = 0 \<Longrightarrow> k \<in> {0, 10, 50, 100}"
proof (induction txs arbitrary: txs')
  case (Cons tx txs)
  obtain f tx' where c: "CheckTransaction tx = (f, tx')" by (cases "CheckTransaction tx")
  obtain r rs where r: "CheckBlock_txs t txs = (r, rs)" by (cases "CheckBlock_txs t txs")
  have "tx_nDoS tx' \<in> {0, 10, 100}" using CheckTransaction_DoS [OF c] Cons.prems(2) by auto
  then show ?case
    using Cons.prems Cons.IH r by (auto simp: c r split: if_splits)
qed simp

definition stake_valid :: "crypto \<Rightarrow> (byte list \<Rightarrow> base_uint) \<Rightarrow> bool \<Rightarrow> CBlock \<Rightarrow> bool" where
  "stake_valid C pow fCheckSig b \<longleftrightarrow>
     (\<forall>i < length (cb_vtx b). IsCoinStake (cb_vtx b ! i) \<longleftrightarrow> i = 1) \<and> vout (cb_vtx b ! 0) = [CTxOut_empty] \<and>
     tx_nTime (cb_vtx b ! 1) = cb_nTime b \<and> (fCheckSig \<longrightarrow> CheckBlockSignature C pow b)"

definition block_valid ::
  "bool \<Rightarrow> crypto \<Rightarrow> (byte list \<Rightarrow> base_uint) \<Rightarrow> int \<Rightarrow> bool \<Rightarrow> bool \<Rightarrow> bool \<Rightarrow> CBlock \<Rightarrow> bool"
where
  "block_valid fTestNet C pow now fCheckPOW fCheckMerkleRoot fCheckSig b \<longleftrightarrow>
     cb_vtx b \<noteq> [] \<and> GetSerializeSize_CBlock b \<le> 1000000 \<and>
     (\<forall>i < length (cb_vtx b). IsCoinBase (cb_vtx b ! i) \<longleftrightarrow> i = 0) \<and>
     (fCheckPOW \<and> \<not> cb_IsProofOfStake b \<longrightarrow>
        0 < compact_val (cb_nBits b) \<and> compact_val (cb_nBits b) \<le> pow_limit fTestNet \<and>
        int (uint_val (pow (header_memory b))) \<le> compact_val (cb_nBits b)) \<and>
     (cb_IsProofOfStake b \<longrightarrow> stake_valid C pow fCheckSig b) \<and>
     uint (cb_nTime b) \<le> now + 600 \<and> uint (cb_nTime b) \<le> uint (tx_nTime (cb_vtx b ! 0)) + 600 \<and>
     (\<forall>tx \<in> set (cb_vtx b). tx_valid tx \<and> tx_nTime tx \<le> cb_nTime b) \<and>
     distinct (map (tx_GetHash (Hash C)) (cb_vtx b)) \<and>
     sum_list (map GetLegacySigOpCount (cb_vtx b)) \<le> 20000 \<and>
     (fCheckMerkleRoot \<longrightarrow> bu_eq (cb_hashMerkleRoot b) (block_merkle_root C b))"

lemma list_ex_drop_nth: "list_ex P (drop k r) \<longleftrightarrow> (\<exists>i < length r. k \<le> i \<and> P (r ! i))"
proof
  assume "list_ex P (drop k r)"
  then obtain j where "j < length r - k" "P (r ! (k + j))" by (auto simp: list_ex_length)
  then show "\<exists>i < length r. k \<le> i \<and> P (r ! i)" by (intro exI [of _ "k + j"]) auto
next
  assume "\<exists>i < length r. k \<le> i \<and> P (r ! i)"
  then obtain i where "i < length r" "k \<le> i" "P (r ! i)" by blast
  then show "list_ex P (drop k r)" by (auto simp: list_ex_length intro!: exI [of _ "i - k"])
qed

lemma coinbase_not_coinstake: "IsCoinBase tx \<Longrightarrow> \<not> IsCoinStake tx"
  by (auto simp: IsCoinBase_def IsCoinStake_def)

lemma IsEmpty_eq: "CTxOut_IsEmpty t \<longleftrightarrow> t = CTxOut_empty"
  by (cases t) (simp add: CTxOut_IsEmpty_def CTxOut_empty_def)

lemma index_split: "(\<forall>i < n. P i \<longleftrightarrow> i = (0 :: nat)) \<longleftrightarrow> (0 < n \<longrightarrow> P 0) \<and> \<not> (\<exists>i < n. 1 \<le> i \<and> P i)"
  by (auto simp: Suc_le_eq)

lemma CheckBlock_stake_spec:
  assumes "cb_IsProofOfStake b" and "IsCoinBase (cb_vtx b ! 0)"
  shows "CheckBlock_stake C pow fCheckSig b = None \<longleftrightarrow> stake_valid C pow fCheckSig b"
proof -
  have l: "1 < length (cb_vtx b)" "IsCoinStake (cb_vtx b ! 1)" "cb_vtx b \<noteq> []"
    using assms(1) by (auto simp: cb_IsProofOfStake_def)
  have "\<not> list_ex IsCoinStake (drop 2 (cb_vtx b)) \<longleftrightarrow> (\<forall>i < length (cb_vtx b). IsCoinStake (cb_vtx b ! i) \<longleftrightarrow> i = 1)"
  proof -
    have "i = 0 \<or> i = 1 \<or> 2 \<le> i" for i :: nat by linarith
    then show ?thesis
      using l coinbase_not_coinstake [OF assms(2)] unfolding list_ex_drop_nth by (metis not_numeral_le_zero numeral_le_one_iff semiring_norm(69))
  qed
  moreover have "(length (vout (cb_vtx b ! 0)) \<noteq> 1 \<or> \<not> CTxOut_IsEmpty (vout (cb_vtx b ! 0) ! 0)) \<longleftrightarrow>
      vout (cb_vtx b ! 0) \<noteq> [CTxOut_empty]"
    by (cases "vout (cb_vtx b ! 0)") (auto simp: IsEmpty_eq)
  ultimately show ?thesis
    using l by (auto simp: CheckBlock_stake_def stake_valid_def Let_def CheckCoinStakeTimestamp_def cb_GetBlockTime_def
        word_uint_eq_iff)
qed

lemma accepts:
  "fst (if c then cb_DoS k False b else X) \<longleftrightarrow> \<not> c \<and> fst X"
  "fst (if c then (False, b) else X) \<longleftrightarrow> \<not> c \<and> fst X"
  "fst (case res of None \<Rightarrow> X | Some k \<Rightarrow> cb_DoS k False b) \<longleftrightarrow> res = None \<and> fst X"
  by (simp_all add: cb_DoS_def split: option.split)

lemma CheckBlock_spec:
  assumes "openssl_bn bn val" and "length (pow (header_memory b)) = 8"
  shows "fst (CheckBlock bn tn C pow now fp fm fs b) \<longleftrightarrow> block_valid tn C pow now fp fm fs b"
    and "fst (CheckBlock bn tn C pow now fp fm fs b) \<Longrightarrow> snd (CheckBlock bn tn C pow now fp fm fs b) = b"
proof -
  obtain res txs where r: "CheckBlock_txs (cb_GetBlockTime b) (cb_vtx b) = (res, txs)"
    by (cases "CheckBlock_txs (cb_GetBlockTime b) (cb_vtx b)")
  note txs = CheckBlock_txs_spec [OF r]
  have pow: "CheckProofOfWork bn tn (GetPoWHash pow b) (cb_nBits b) \<longleftrightarrow>
      0 < compact_val (cb_nBits b) \<and> compact_val (cb_nBits b) \<le> pow_limit tn \<and>
      int (uint_val (pow (header_memory b))) \<le> compact_val (cb_nBits b)"
    using openssl_bn.CheckProofOfWork_val [OF assms(1), of "pow (header_memory b)"] assms(2) by (simp add: GetPoWHash_def)
  have size: "(length (cb_vtx b) > MAX_BLOCK_SIZE \<or> GetSerializeSize_CBlock b > MAX_BLOCK_SIZE) \<longleftrightarrow> \<not> GetSerializeSize_CBlock b \<le> 1000000"
    using length_vtx_size [of b] by (auto simp: MAX_BLOCK_SIZE_def)
  have coin: "(IsCoinBase (cb_vtx b ! 0) \<and> \<not> list_ex IsCoinBase (drop 1 (cb_vtx b))) \<longleftrightarrow>
      (\<forall>i < length (cb_vtx b). IsCoinBase (cb_vtx b ! i) \<longleftrightarrow> i = 0)" if "cb_vtx b \<noteq> []"
    using that unfolding list_ex_drop_nth index_split by auto
  have uniq: "card (set (map (tx_GetHash (Hash C)) (cb_vtx b))) \<noteq> length (cb_vtx b) \<longleftrightarrow>
      \<not> distinct (map (tx_GetHash (Hash C)) (cb_vtx b))"
    using card_distinct [of "map (tx_GetHash (Hash C)) (cb_vtx b)"] distinct_card [of "map (tx_GetHash (Hash C)) (cb_vtx b)"]
    by auto
  have sig: "MAX_BLOCK_SIGOPS = 20000" by (simp add: MAX_BLOCK_SIGOPS_def MAX_BLOCK_SIZE_def)
  have run: "fst (CheckBlock bn tn C pow now fp fm fs b) \<longleftrightarrow>
      cb_vtx b \<noteq> [] \<and> GetSerializeSize_CBlock b \<le> 1000000 \<and>
      (fp \<and> cb_IsProofOfWork b \<longrightarrow> CheckProofOfWork bn tn (GetPoWHash pow b) (cb_nBits b)) \<and>
      cb_GetBlockTime b \<le> FutureDrift now \<and> IsCoinBase (cb_vtx b ! 0) \<and> \<not> list_ex IsCoinBase (drop 1 (cb_vtx b)) \<and>
      cb_GetBlockTime b \<le> FutureDrift (uint (tx_nTime (cb_vtx b ! 0))) \<and>
      (cb_IsProofOfStake b \<longrightarrow> CheckBlock_stake C pow fs b = None) \<and> res = None \<and>
      distinct (map (tx_GetHash (Hash C)) txs) \<and> sum_list (map GetLegacySigOpCount txs) \<le> 20000 \<and>
      (fm \<longrightarrow> bu_eq (cb_hashMerkleRoot b) (block_merkle_root C (b\<lparr>cb_vtx := txs\<rparr>)))"
  proof -
    have "card (set (map (tx_GetHash (Hash C)) txs)) \<noteq> length txs \<longleftrightarrow> \<not> distinct (map (tx_GetHash (Hash C)) txs)"
      using card_distinct [of "map (tx_GetHash (Hash C)) txs"] distinct_card [of "map (tx_GetHash (Hash C)) txs"] by auto
    then show ?thesis
      unfolding CheckBlock_def r Let_def prod.case accepts using length_vtx_size [of b]
      by (auto simp: MAX_BLOCK_SIZE_def sig not_less)
  qed
  show valid: "fst (CheckBlock bn tn C pow now fp fm fs b) \<longleftrightarrow> block_valid tn C pow now fp fm fs b"
  proof (cases "res = None \<and> cb_vtx b \<noteq> [] \<and> IsCoinBase (cb_vtx b ! 0)")
    case True
    then have t: "txs = cb_vtx b" and all: "\<forall>tx \<in> set (cb_vtx b). tx_valid tx \<and> tx_nTime tx \<le> cb_nTime b"
      using txs by (auto simp: cb_GetBlockTime_def word_le_def)
    have st: "cb_IsProofOfStake b \<Longrightarrow> CheckBlock_stake C pow fs b = None \<longleftrightarrow> stake_valid C pow fs b"
      using True by (intro CheckBlock_stake_spec) auto
    have c: "\<not> list_ex IsCoinBase (drop 1 (cb_vtx b)) \<longleftrightarrow> (\<forall>i < length (cb_vtx b). IsCoinBase (cb_vtx b ! i) \<longleftrightarrow> i = 0)"
      using coin True by blast
    have e: "b\<lparr>cb_vtx := cb_vtx b\<rparr> = b" by simp
    show ?thesis
      unfolding run block_valid_def t e c pow cb_GetBlockTime_def FutureDrift_def cb_IsProofOfWork_def using True all st
      by auto
  next
    case False
    then have "\<not> block_valid tn C pow now fp fm fs b"
      using txs coin by (auto simp: block_valid_def cb_GetBlockTime_def word_le_def)
    then show ?thesis unfolding run using False by blast
  qed
  show "snd (CheckBlock bn tn C pow now fp fm fs b) = b" if a: "fst (CheckBlock bn tn C pow now fp fm fs b)"
  proof -
    from a have "snd (CheckBlock bn tn C pow now fp fm fs b) = b\<lparr>cb_vtx := txs\<rparr>"
      unfolding CheckBlock_def r Let_def prod.case accepts by (auto split: option.splits)
    then show ?thesis using a run txs by simp
  qed
qed

lemma CheckBlock_stake_charge: "CheckBlock_stake C pow fs b = Some k \<Longrightarrow> k \<in> {50, 100}"
  by (auto simp: CheckBlock_stake_def Let_def split: if_splits)

lemma CheckBlock_charge:
  assumes "\<forall>tx \<in> set (cb_vtx b). tx_nDoS tx = 0"
  shows "\<exists>k \<in> {0, 10, 50, 100}. cb_nDoS (snd (CheckBlock bn tn C pow now fp fm fs b)) = cb_nDoS b + k"
proof -
  obtain res txs where r: "CheckBlock_txs (cb_GetBlockTime b) (cb_vtx b) = (res, txs)"
    by (cases "CheckBlock_txs (cb_GetBlockTime b) (cb_vtx b)")
  have res: "res = Some k \<Longrightarrow> k \<in> {0, 10, 50, 100}" for k
    using CheckBlock_txs_charge [of "cb_GetBlockTime b" "cb_vtx b" k txs] r assms by simp
  have stake: "CheckBlock_stake C pow fs b = Some k \<Longrightarrow> k \<in> {0, 10, 50, 100}" for k
    using CheckBlock_stake_charge [of C pow fs b k] by simp
  have dos: "\<exists>k \<in> {0, 10, 50, 100}. cb_nDoS (snd (if c then cb_DoS n False b' else X)) = cb_nDoS b + k"
    if "n \<in> {0, 10, 50, 100}" "cb_nDoS b' = cb_nDoS b" "\<exists>k \<in> {0, 10, 50, 100}. cb_nDoS (snd X) = cb_nDoS b + k" for c n b' X
    using that by (auto simp: cb_DoS_def)
  have zero: "\<exists>k \<in> {0, 10, 50, 100}. cb_nDoS (snd (if c then (False, b) else X)) = cb_nDoS b + k"
    if "\<exists>k \<in> {0, 10, 50, 100}. cb_nDoS (snd X) = cb_nDoS b + k" for c X
    using that by auto
  have opt: "\<exists>k \<in> {0, 10, 50, 100}. cb_nDoS (snd (case w of None \<Rightarrow> X | Some n \<Rightarrow> cb_DoS n False b')) = cb_nDoS b + k"
    if "\<And>n. w = Some n \<Longrightarrow> n \<in> {0, 10, 50, 100}" "cb_nDoS b' = cb_nDoS b" "\<exists>k \<in> {0, 10, 50, 100}. cb_nDoS (snd X) = cb_nDoS b + k"
    for w b' X
    using that by (cases w) (auto simp: cb_DoS_def)
  show ?thesis
    unfolding CheckBlock_def r Let_def prod.case
    by (intro dos zero opt) (auto dest: res stake split: if_splits)
qed

section \<open>The commitment of the header\<close>

text \<open>The byte strings that are hashed for the Merkle root of a block.\<close>

definition hashed_bytes :: "crypto \<Rightarrow> CBlock \<Rightarrow> byte list set" where
  "hashed_bytes C b =
     Serialize_CTransaction ` set (cb_vtx b) \<union>
     (\<lambda>(x, y). bu_bytes x @ bu_bytes y) ` tree_pairs (Hash2 C) (map (tx_GetHash (Hash C)) (cb_vtx b))"

lemma tree_pairs_length:
  "\<forall>x \<in> set r. length x = n \<Longrightarrow> \<forall>a b. length (H a b) = n \<Longrightarrow> (a, b) \<in> tree_pairs H r \<Longrightarrow> length a = n \<and> length b = n"
proof (induction H r rule: tree_pairs.induct)
  case (1 H r)
  have l: "length r > 1" using 1(4) by (auto simp: tree_pairs.simps [of H r] split: if_splits)
  then consider "(a, b) \<in> level_pairs r" | "(a, b) \<in> tree_pairs H (next_level H r)"
    using 1(4) by (auto simp: tree_pairs.simps [of H r])
  then show ?case
  proof cases
    case 1
    then obtain k where k: "k < (length r + 1) div 2" "a = r ! (2 * k)" "b = r ! min (2 * k + 1) (length r - 1)"
      by (auto simp: level_pairs_def)
    then have "2 * k < length r" "min (2 * k + 1) (length r - 1) < length r" using l by linarith+
    then show ?thesis using \<open>\<forall>x \<in> set r. length x = n\<close> k by simp
  next
    case 2
    have "\<forall>x \<in> set (next_level H r). length x = n" using 1(3) by (auto simp: next_level_def)
    from 1(1) [OF l this 1(3) 2] show ?thesis .
  qed
qed

lemma bu_bytes_inj: "bu_bytes a = bu_bytes b \<Longrightarrow> a = b"
  by (metis bu_of_bytes_bytes)

lemma block_root_unique:
  assumes hl: "hash_lengths C" and ne: "cb_vtx b \<noteq> []" "cb_vtx b' \<noteq> []"
    and d: "distinct (map (tx_GetHash (Hash C)) (cb_vtx b))" "distinct (map (tx_GetHash (Hash C)) (cb_vtx b'))"
    and l64: "\<forall>tx \<in> set (cb_vtx b) \<union> set (cb_vtx b'). length (Serialize_CTransaction tx) \<noteq> 64"
    and inj: "inj_on (Hash C) (hashed_bytes C b \<union> hashed_bytes C b')"
    and root: "block_merkle_root C b = block_merkle_root C b'"
  shows "map Serialize_CTransaction (cb_vtx b) = map Serialize_CTransaction (cb_vtx b')"
proof -
  let ?H = "Hash2 C" and ?r = "map (tx_GetHash (Hash C)) (cb_vtx b)" and ?r' = "map (tx_GetHash (Hash C)) (cb_vtx b')"
  let ?P = "tree_pairs ?H ?r \<union> tree_pairs ?H ?r'"
  let ?S = "hashed_bytes C b \<union> hashed_bytes C b'"
  have H8: "\<forall>a b. length (?H a b) = 8" using hl by (simp add: Hash2_def length_Hashes)
  have r8: "\<forall>x \<in> set ?r. length x = 8" "\<forall>x \<in> set ?r'. length x = 8" using hl by (simp_all add: tx_GetHash_def length_Hashes)
  have p8: "length x = 8 \<and> length y = 8" if "(x, y) \<in> ?P" for x y
    using that tree_pairs_length [OF r8(1) H8] tree_pairs_length [OF r8(2) H8] by blast
  have pS: "bu_bytes x @ bu_bytes y \<in> ?S" if "(x, y) \<in> ?P" for x y
    using that by (force simp: hashed_bytes_def)
  have tS: "Serialize_CTransaction tx \<in> ?S" if "tx \<in> set (cb_vtx b) \<union> set (cb_vtx b')" for tx
    using that by (auto simp: hashed_bytes_def)
  have "inj_on (\<lambda>(x, y). ?H x y) ?P"
  proof (rule inj_onI, clarify)
    fix x y u v
    assume p: "(x, y) \<in> ?P" "(u, v) \<in> ?P" and e: "?H x y = ?H u v"
    from e have "bu_bytes x @ bu_bytes y = bu_bytes u @ bu_bytes v"
      using inj_onD [OF inj] pS [OF p(1)] pS [OF p(2)] by (simp add: Hash2_def)
    then have "bu_bytes x = bu_bytes u \<and> bu_bytes y = bu_bytes v"
      using p8 [OF p(1)] p8 [OF p(2)] by (simp add: append_eq_append_conv)
    then show "x = u \<and> y = v" by (simp add: bu_bytes_inj)
  qed
  moreover have "(set ?r \<union> set ?r') \<inter> (\<lambda>(x, y). ?H x y) ` ?P = {}"
  proof -
    have False if tx: "tx \<in> set (cb_vtx b) \<union> set (cb_vtx b')" and p: "(x, y) \<in> ?P"
      and e: "tx_GetHash (Hash C) tx = ?H x y" for tx x y
    proof -
      have "Serialize_CTransaction tx = bu_bytes x @ bu_bytes y"
        using e inj_onD [OF inj _ tS [OF tx] pS [OF p]] by (simp add: tx_GetHash_def Hash2_def)
      then have "length (Serialize_CTransaction tx) = 64" using p8 [OF p] by simp
      then show False using l64 tx by blast
    qed
    then show ?thesis by fastforce
  qed
  moreover have "merkle_root ?H ?r = merkle_root ?H ?r'"
    using root ne by (simp add: block_merkle_root_def BuildMerkleTree_root)
  ultimately have "?r = ?r'" using ne d merkle_root_unique [of ?r ?r' ?H] by simp
  then have "map (Hash C) (map Serialize_CTransaction (cb_vtx b)) = map (Hash C) (map Serialize_CTransaction (cb_vtx b'))"
    by (simp add: tx_GetHash_def [abs_def] comp_def)
  moreover have "inj_on (Hash C) (set (map Serialize_CTransaction (cb_vtx b)) \<union> set (map Serialize_CTransaction (cb_vtx b')))"
    using inj by (rule inj_on_subset) (auto simp: hashed_bytes_def)
  ultimately show ?thesis by (rule map_inj_on)
qed

lemma merkle_root_length:
  "r \<noteq> [] \<Longrightarrow> \<forall>x \<in> set r. length x = n \<Longrightarrow> \<forall>a b. length (H a b) = n \<Longrightarrow> length (merkle_root H r) = n"
proof (induction H r rule: merkle_root.induct)
  case (1 H r)
  show ?case
  proof (cases "length r > 1")
    case True
    then have "next_level H r \<noteq> []" "\<forall>x \<in> set (next_level H r). length x = n" using 1(4) by (auto simp: next_level_def)
    then show ?thesis using 1(1) [OF True _ _ 1(4)] True by (simp add: merkle_root.simps [of H r])
  next
    case False
    then show ?thesis using 1(2,3) by (simp add: merkle_root.simps [of H r])
  qed
qed

lemma length_block_merkle_root:
  assumes "hash_lengths C" and "cb_vtx b \<noteq> []"
  shows "length (block_merkle_root C b) = 8"
  using assms merkle_root_length [of "map (tx_GetHash (Hash C)) (cb_vtx b)" 8 "Hash2 C"]
  by (simp add: block_merkle_root_def BuildMerkleTree_root tx_GetHash_def Hash2_def length_Hashes)

lemma bu_eq_same_length: "length a = length b \<Longrightarrow> bu_eq a b \<longleftrightarrow> a = b"
  by (simp add: bu_eq_val uint_val_inject)

section \<open>A small block\<close>

text \<open>A block with a coinbase only, for the examples.\<close>

definition sample_crypto :: crypto where
  "sample_crypto = \<lparr>RIPEMD160 = \<lambda>_. replicate 20 0, SHA1 = \<lambda>_. replicate 20 0, SHA256 = \<lambda>_. replicate 32 0,
     ECDSA_verify = \<lambda>_ _ _. True\<rparr>"

definition sample_coinbase :: CTransaction where
  "sample_coinbase = \<lparr>tx_nVersion = 1, tx_nTime = 5, vin = [CTxIn_new COutPoint_null [1, 2] 0],
     vout = [\<lparr>nValue = 7, scriptPubKey = []\<rparr>], nLockTime = 0, tx_nDoS = 0\<rparr>"

definition sample_block :: CBlock where
  "sample_block = \<lparr>cb_nVersion = 6, cb_hashPrevBlock = replicate 8 0, cb_hashMerkleRoot = replicate 8 0, cb_nTime = 100,
     cb_nBits = 0x1e0fffff, cb_nNonce = 0, cb_vtx = [sample_coinbase], cb_vchBlockSig = [], cb_nDoS = 0\<rparr>"

lemma sample_lengths: "hash_lengths sample_crypto"
  by (simp add: hash_lengths_def sample_crypto_def)

lemma sample_hash: "Hash sample_crypto x = replicate 8 0"
proof -
  have "Hash sample_crypto x = bu_of_bytes (bu_bytes (replicate 8 0))"
    by (simp add: Hash_def sample_crypto_def bu_bytes_def native_store_eq sph_enc32le_def numeral_eq_Suc)
  then show ?thesis by (simp add: bu_of_bytes_bytes)
qed

lemma sample_valid: "block_valid tn sample_crypto (\<lambda>_. replicate 8 0) 0 True True True sample_block"
proof -
  have c: "IsCoinBase sample_coinbase"
    by (simp add: IsCoinBase_def sample_coinbase_def CTxIn_new_def COutPoint_null_IsNull)
  have s: "GetSerializeSize_CTransaction sample_coinbase = 66"
    by (simp add: GetSerializeSize_CTransaction_def GetSerializeSize_vec_def sample_coinbase_def CTxIn_new_def
        GetSerializeSize_CTxIn_def GetSerializeSize_CTxOut_def GetSerializeSize_bytes_def GetSizeOfCompactSize_def)
  have v: "tx_valid sample_coinbase"
    using c s by (simp add: tx_valid_def)
      (simp add: sample_coinbase_def values_ok_def MoneyRange_def MAX_MONEY_def COIN_def CTxIn_new_def CTxOut_IsEmpty_def)
  have "block_merkle_root sample_crypto sample_block = replicate 8 0"
    by (simp add: block_merkle_root_def sample_block_def BuildMerkleTree_root merkle_root.simps tx_GetHash_def sample_hash)
  moreover have "GetLegacySigOpCount sample_coinbase \<le> 20000"
    by (simp add: GetLegacySigOpCount_def sample_coinbase_def CTxIn_new_def GetSigOpCount_def GetSigOpCount_loop.simps GetOp2_def)
  moreover have "0 < compact_val 0x1e0fffff" "compact_val 0x1e0fffff \<le> pow_limit tn"
    by (simp_all add: compact_val_def pow_limit_def)
  ultimately show ?thesis
    using c s v by (simp add: block_valid_def sample_block_def cb_IsProofOfStake_def GetSerializeSize_CBlock_def
        GetSerializeSize_vec_def GetSerializeSize_bytes_def GetSizeOfCompactSize_def sample_coinbase_def bu_eq_same_length)
qed

end
