(* ===== verification/TxIndex_Props.thy ===== *)
theory TxIndex_Props
  imports TxIndex Block_Props
begin

text \<open>
  The laws of the index of transactions: fetching reads the index as the changes of the block left
  it, connecting marks exactly the outputs the transaction names, which were unspent, and
  disconnecting takes the marks back.
\<close>

section \<open>Outpoints and marks\<close>

type_synonym outpoint = "base_uint \<times> nat"

definition out_of :: "CTxIn \<Rightarrow> outpoint" where
  "out_of i = (op_hash (prevout i), unat (op_n (prevout i)))"

definition plain_ins :: "CTransaction \<Rightarrow> CTxIn list \<Rightarrow> CTxIn list" where
  "plain_ins tx ins = filter (\<lambda>i. \<not> (tx_nVersion tx = ANON_TXN_VERSION \<and> IsAnonInput i)) ins"

text \<open>The outputs a transaction spends.\<close>

definition outs :: "CTransaction \<Rightarrow> outpoint list" where
  "outs tx = (if IsCoinBase tx then [] else map out_of (plain_ins tx (vin tx)))"

definition unspent :: "CTxDB \<Rightarrow> outpoint \<Rightarrow> bool" where
  "unspent d x \<longleftrightarrow> (\<exists>ti. d (fst x) = Some ti \<and> snd x < length (ti_vSpent ti) \<and> CDiskTxPos_IsNull (ti_vSpent ti ! snd x))"

definition mark1 :: "CDiskTxPos \<Rightarrow> outpoint \<Rightarrow> CTxDB \<Rightarrow> CTxDB" where
  "mark1 p x d = (case d (fst x) of None \<Rightarrow> d
     | Some ti \<Rightarrow> d(fst x \<mapsto> ti\<lparr>ti_vSpent := (ti_vSpent ti)[snd x := p]\<rparr>))"

definition mark :: "CDiskTxPos \<Rightarrow> outpoint list \<Rightarrow> CTxDB \<Rightarrow> CTxDB" where
  "mark p xs d = fold (mark1 p) xs d"

lemma mark_simps [simp]: "mark p [] d = d" "mark p (x # xs) d = mark p xs (mark1 p x d)"
  by (simp_all add: mark_def)

lemma mark1_apply: "mark1 p x d h =
    (if h = fst x then map_option (\<lambda>ti. ti\<lparr>ti_vSpent := (ti_vSpent ti)[snd x := p]\<rparr>) (d h) else d h)"
  by (simp add: mark1_def split: option.split)

lemma mark1_upd: "d (fst x) = Some ti \<Longrightarrow> mark1 p x d = d(fst x \<mapsto> ti\<lparr>ti_vSpent := (ti_vSpent ti)[snd x := p]\<rparr>)"
  by (simp add: mark1_def)

lemma mark1_fresh:
  assumes "h \<noteq> fst x"
  shows "mark1 p x (d(h := v)) = (mark1 p x d)(h := v)"
proof
  fix k
  show "mark1 p x (d(h := v)) k = ((mark1 p x d)(h := v)) k" using assms by (cases "k = h") (auto simp: mark1_apply)
qed

lemma mark_fresh: "h \<notin> fst ` set xs \<Longrightarrow> mark p xs (d(h := v)) = (mark p xs d)(h := v)"
  by (induction xs arbitrary: d) (auto simp: mark1_fresh)

lemma mark1_commute:
  assumes "x \<noteq> y"
  shows "mark1 p x (mark1 q y d) = mark1 q y (mark1 p x d)"
proof
  fix h
  obtain a m b n where xy: "x = (a, m)" "y = (b, n)" by (cases x; cases y) auto
  show "mark1 p x (mark1 q y d) h = mark1 q y (mark1 p x d) h"
  proof (cases "d h")
    case (Some ti)
    have "m \<noteq> n \<Longrightarrow> (ti_vSpent ti)[n := q, m := p] = (ti_vSpent ti)[m := p, n := q]" by (rule list_update_swap) simp
    then show ?thesis using Some assms by (auto simp: xy mark1_apply)
  qed (auto simp: mark1_apply)
qed

lemma mark1_mark: "x \<notin> set xs \<Longrightarrow> mark1 p x (mark q xs d) = mark q xs (mark1 p x d)"
  by (induction xs arbitrary: d) (auto simp: mark1_commute)

lemma dom_mark1 [simp]: "dom (mark1 p x d) = dom d"
  by (auto simp: mark1_def split: option.split)

lemma dom_mark [simp]: "dom (mark p xs d) = dom d"
  by (induction xs arbitrary: d) auto

lemma mark1_None [simp]: "mark1 p x d h = None \<longleftrightarrow> d h = None"
  by (simp add: mark1_apply)

lemma mark_None [simp]: "mark p xs d h = None \<longleftrightarrow> d h = None"
  by (induction xs arbitrary: d) auto

lemma unspent_mark1: "x \<noteq> y \<Longrightarrow> unspent (mark1 p x d) y \<longleftrightarrow> unspent d y"
  by (cases x; cases y) (auto simp: unspent_def mark1_apply nth_list_update)

lemma not_unspent_mark1: "\<not> CDiskTxPos_IsNull p \<Longrightarrow> \<not> unspent (mark1 p x d) x"
  by (auto simp: unspent_def mark1_apply)

text \<open>Marking with the null position what was marked restores the index.\<close>

definition null_at :: "CTxDB \<Rightarrow> outpoint \<Rightarrow> bool" where
  "null_at d x \<longleftrightarrow> (\<exists>ti. d (fst x) = Some ti \<and> snd x < length (ti_vSpent ti) \<and> ti_vSpent ti ! snd x = CDiskTxPos_null)"

lemma null_at_mark1: "x \<noteq> y \<Longrightarrow> null_at (mark1 p x d) y \<longleftrightarrow> null_at d y"
  by (cases x; cases y) (auto simp: null_at_def mark1_apply nth_list_update)

lemma mark1_undo: "null_at d x \<Longrightarrow> mark1 CDiskTxPos_null x (mark1 p x d) = d"
proof
  fix h
  assume "null_at d x"
  then obtain ti where "d (fst x) = Some ti" "(ti_vSpent ti)[snd x := CDiskTxPos_null] = ti_vSpent ti"
    by (auto simp: null_at_def) (metis list_update_id)
  then show "mark1 CDiskTxPos_null x (mark1 p x d) h = d h" by (simp add: mark1_apply)
qed

lemma mark_undo:
  "distinct xs \<Longrightarrow> \<forall>x \<in> set xs. null_at d x \<Longrightarrow> mark CDiskTxPos_null xs (mark p xs d) = d"
proof (induction xs arbitrary: d)
  case (Cons x xs)
  have "\<forall>y \<in> set xs. null_at (mark1 p x d) y" using Cons.prems null_at_mark1 by (metis distinct.simps(2) list.set_intros(2))
  then have "mark CDiskTxPos_null xs (mark p xs (mark1 p x d)) = mark1 p x d" using Cons by simp
  moreover have "mark1 CDiskTxPos_null x (mark p xs (mark1 p x d)) = mark p xs (mark1 CDiskTxPos_null x (mark1 p x d))"
    using Cons.prems(1) by (simp add: mark1_mark)
  ultimately show ?case using Cons.prems mark1_undo [of d x p]
    by (simp add: mark1_mark) (metis mark1_mark mark1_undo)
qed simp

section \<open>Fetching\<close>

lemma CDiskTxPos_eq_iff: "CDiskTxPos_eq a b \<longleftrightarrow> a = b"
  by (cases a; cases b) (auto simp: CDiskTxPos_eq_def)

text \<open>The transaction an entry of the index stands for.\<close>

definition prev_tx :: "tx_env \<Rightarrow> base_uint \<Rightarrow> CTxIndex \<Rightarrow> CTransaction option" where
  "prev_tx E h ti = (if ti_pos ti = pos_mempool then te_mempool E h else te_disk E (ti_pos ti))"

definition fetched :: "tx_env \<Rightarrow> CTxDB \<Rightarrow> CTxIndex MapPrevTx \<Rightarrow> bool" where
  "fetched E d inputs \<longleftrightarrow> (\<forall>h ti t. inputs h = Some (ti, t) \<longrightarrow> d h = Some ti \<and> prev_tx E h ti = Some t)"

lemma FetchInputs_loop_fetched:
  "FetchInputs_loop E txdb pool True fMiner fAnon inputs ins = Some inputs' \<Longrightarrow> fetched E (txdb ++ pool) inputs \<Longrightarrow>
    fetched E (txdb ++ pool) inputs' \<and>
    (\<forall>i \<in> set ins. \<not> (fAnon \<and> IsAnonInput i) \<longrightarrow> inputs' (op_hash (prevout i)) \<noteq> None) \<and> dom inputs \<subseteq> dom inputs'"
proof (induction ins arbitrary: inputs)
  case (Cons i ins)
  let ?h = "op_hash (prevout i)"
  consider (skip) "fAnon \<and> IsAnonInput i \<or> inputs ?h \<noteq> None"
    | (new) ti t where "\<not> (fAnon \<and> IsAnonInput i)" "inputs ?h = None" "(txdb ++ pool) ?h = Some ti" "prev_tx E ?h ti = Some t"
      "FetchInputs_loop E txdb pool True fMiner fAnon (inputs(?h \<mapsto> (ti, t))) ins = Some inputs'"
    using Cons.prems(1)
    by (fastforce simp: Let_def prev_tx_def ReadTxIndex_def CDiskTxPos_eq_iff map_add_def split: if_splits option.splits)
  then show ?case
  proof cases
    case skip
    then have "FetchInputs_loop E txdb pool True fMiner fAnon inputs ins = Some inputs'"
      using Cons.prems(1) by (auto simp: Let_def split: if_splits)
    note ih = Cons.IH [OF this Cons.prems(2)]
    then have "inputs ?h \<noteq> None \<Longrightarrow> inputs' ?h \<noteq> None" by (meson domIff subsetD)
    then have h: "\<not> (fAnon \<and> IsAnonInput j) \<longrightarrow> inputs' (op_hash (prevout j)) \<noteq> None" if "j \<in> set (i # ins)" for j
    proof (cases "j = i")
      case True
      then show ?thesis using skip \<open>inputs ?h \<noteq> None \<Longrightarrow> inputs' ?h \<noteq> None\<close> by blast
    next
      case False
      then show ?thesis using ih that by (meson set_ConsD)
    qed
    then show ?thesis using ih by blast
  next
    case new
    then have "fetched E (txdb ++ pool) (inputs(?h \<mapsto> (ti, t)))" using Cons.prems(2) by (auto simp: fetched_def)
    note ih = Cons.IH [OF new(5) this]
    then have sub: "dom (inputs(?h \<mapsto> (ti, t))) \<subseteq> dom inputs'" by blast
    have "?h \<in> dom (inputs(?h \<mapsto> (ti, t)))" by simp
    with sub have "?h \<in> dom inputs'" by (rule subsetD)
    then have "inputs' ?h \<noteq> None" by blast
    have h: "\<not> (fAnon \<and> IsAnonInput j) \<longrightarrow> inputs' (op_hash (prevout j)) \<noteq> None" if "j \<in> set (i # ins)" for j
    proof (cases "j = i")
      case True
      then show ?thesis using \<open>inputs' ?h \<noteq> None\<close> by blast
    next
      case False
      then show ?thesis using ih that by (meson set_ConsD)
    qed
    have "dom inputs \<subseteq> dom inputs'" using sub by simp
    then show ?thesis using ih h by blast
  qed
qed simp

text \<open>Every plain input is fetched, and its outpoint lies in the range of its transaction.\<close>

definition ins_fetched :: "CTxIndex MapPrevTx \<Rightarrow> CTxIn list \<Rightarrow> bool" where
  "ins_fetched inputs ins \<longleftrightarrow>
     (\<forall>i \<in> set ins. \<exists>p. inputs (op_hash (prevout i)) = Some p \<and> prevout_in_range p (op_n (prevout i)))"

lemma FetchInputs_fetched:
  assumes "FetchInputs E txdb pool True fMiner tx Map.empty = Inr inputs" and "\<not> IsCoinBase tx"
  shows "fetched E (txdb ++ pool) inputs" and "ins_fetched inputs (plain_ins tx (vin tx))"
proof -
  obtain inputs' where l: "FetchInputs_loop E txdb pool True fMiner (tx_nVersion tx = ANON_TXN_VERSION) Map.empty (vin tx) = Some inputs'"
    and e: "inputs = inputs'"
    and r: "\<forall>i \<in> set (vin tx). (tx_nVersion tx = ANON_TXN_VERSION \<and> IsAnonInput i) \<or>
      prevout_in_range (the (inputs' (op_hash (prevout i)))) (op_n (prevout i))"
    using assms by (auto simp: FetchInputs_def Let_def list_ex_iff split: option.splits if_splits)
  have "fetched E (txdb ++ pool) Map.empty" by (simp add: fetched_def)
  note f = FetchInputs_loop_fetched [OF l this]
  show "fetched E (txdb ++ pool) inputs" using f e by simp
  show "ins_fetched inputs (plain_ins tx (vin tx))"
    using f r unfolding e ins_fetched_def plain_ins_def by fastforce
qed

section \<open>Spending\<close>

lemma ConnectInputs_spend_mark:
  "ConnectInputs_spend E tx p True fMiner flags sig k inputs pool ins = (None, pool') \<Longrightarrow>
    (\<forall>i \<in> set (plain_ins tx ins). inputs (op_hash (prevout i)) \<noteq> None) \<Longrightarrow>
    \<forall>h ti t. inputs h = Some (ti, t) \<longrightarrow> (txdb ++ pool) h = Some ti \<Longrightarrow>
    \<forall>i \<in> set (plain_ins tx ins). \<forall>q. inputs (op_hash (prevout i)) = Some q \<longrightarrow> prevout_in_range q (op_n (prevout i)) \<Longrightarrow>
    \<not> CDiskTxPos_IsNull p \<Longrightarrow>
    txdb ++ pool' = mark p (map out_of (plain_ins tx ins)) (txdb ++ pool) \<and>
    distinct (map out_of (plain_ins tx ins)) \<and> (\<forall>i \<in> set (plain_ins tx ins). unspent (txdb ++ pool) (out_of i))"
proof (induction ins arbitrary: k inputs pool)
  case (Cons i ins)
  let ?h = "op_hash (prevout i)" and ?n = "unat (op_n (prevout i))"
  show ?case
  proof (cases "tx_nVersion tx = ANON_TXN_VERSION \<and> IsAnonInput i")
    case True
    then have "ConnectInputs_spend E tx p True fMiner flags sig (k + 1) inputs pool ins = (None, pool')"
      "plain_ins tx (i # ins) = plain_ins tx ins"
      using Cons.prems(1) by (simp_all add: plain_ins_def)
    then show ?thesis using Cons.IH [of "k + 1" inputs pool] Cons.prems by simp
  next
    case False
    then have pl: "plain_ins tx (i # ins) = i # plain_ins tx ins" by (auto simp: plain_ins_def)
    obtain ti t where q: "inputs ?h = Some (ti, t)" using Cons.prems(2) pl by fastforce
    let ?ti = "ti\<lparr>ti_vSpent := (ti_vSpent ti)[?n := p]\<rparr>"
    have null: "CDiskTxPos_IsNull (ti_vSpent ti ! ?n)"
      and rec: "ConnectInputs_spend E tx p True fMiner flags sig (k + 1) (inputs(?h \<mapsto> (?ti, t))) (pool(?h \<mapsto> ?ti)) ins = (None, pool')"
      using Cons.prems(1) False q by (auto simp: Let_def split: if_splits option.splits)
    have d: "(txdb ++ pool) ?h = Some ti" using Cons.prems(3) q by blast
    have rg: "?n < length (ti_vSpent ti)" using Cons.prems(4) pl q by (auto simp: prevout_in_range_def)
    have m: "txdb ++ pool(?h \<mapsto> ?ti) = mark1 p (out_of i) (txdb ++ pool)"
      using d by (simp add: mark1_def out_of_def map_add_upd)
    have un: "unspent (txdb ++ pool) (out_of i)" using d rg null by (simp add: unspent_def out_of_def)
    have ih: "txdb ++ pool' = mark p (map out_of (plain_ins tx ins)) (mark1 p (out_of i) (txdb ++ pool)) \<and>
        distinct (map out_of (plain_ins tx ins)) \<and> (\<forall>j \<in> set (plain_ins tx ins). unspent (mark1 p (out_of i) (txdb ++ pool)) (out_of j))"
      unfolding m [symmetric]
    proof (rule Cons.IH [OF rec])
      show "\<forall>j \<in> set (plain_ins tx ins). (inputs(?h \<mapsto> (?ti, t))) (op_hash (prevout j)) \<noteq> None"
        using Cons.prems(2) pl by auto
      show "\<forall>h ti' t'. (inputs(?h \<mapsto> (?ti, t))) h = Some (ti', t') \<longrightarrow> (txdb ++ pool(?h \<mapsto> ?ti)) h = Some ti'"
        using Cons.prems(3) by (auto simp: map_add_upd)
      show "\<forall>j \<in> set (plain_ins tx ins). \<forall>q. (inputs(?h \<mapsto> (?ti, t))) (op_hash (prevout j)) = Some q \<longrightarrow>
          prevout_in_range q (op_n (prevout j))"
        using Cons.prems(4) pl q by (auto simp: prevout_in_range_def)
      show "\<not> CDiskTxPos_IsNull p" by (rule Cons.prems(5))
    qed
    have "out_of i \<notin> set (map out_of (plain_ins tx ins))"
      using ih not_unspent_mark1 [OF Cons.prems(5), of "out_of i" "txdb ++ pool"] by fastforce
    moreover from this have "\<forall>j \<in> set (plain_ins tx ins). unspent (txdb ++ pool) (out_of j)"
      using ih unspent_mark1 [of "out_of i"] by fastforce
    ultimately show ?thesis using ih un pl by auto
  qed
qed (simp add: plain_ins_def)

text \<open>The values the transaction brings in, without a wrap-around.\<close>

definition value_of :: "CTxIndex MapPrevTx \<Rightarrow> CTxIn \<Rightarrow> u64" where
  "value_of inputs i = nValue (vout (snd (the (inputs (op_hash (prevout i))))) ! unat (op_n (prevout i)))"

lemma sint_plus_money:
  assumes "MoneyRange (sint (a :: u64))" and "MoneyRange (sint b)"
  shows "sint (a + b) = sint a + sint b"
  using assms by (intro sint_add_range) (auto simp: MoneyRange_def)

lemma sint_minus_money:
  assumes "0 \<le> sint (b :: u64)" and "sint b \<le> sint a" and "MoneyRange (sint a)"
  shows "sint (a - b) = sint a - sint b"
proof -
  have "sint (a - b) = signed_take_bit 63 (sint a - sint b)" by (simp add: sint_word_ariths)
  also have "\<dots> = sint a - sint b"
    by (rule signed_take_bit_int_eq_self) (use assms in \<open>auto simp: MoneyRange_def MAX_MONEY_def COIN_def\<close>)
  finally show ?thesis .
qed

lemma ConnectInputs_values_sum:
  "ConnectInputs_values E pb tx inputs w ins = Inr v \<Longrightarrow> MoneyRange (sint w) \<Longrightarrow>
    sint v = sint w + (\<Sum>i \<leftarrow> plain_ins tx ins. sint (value_of inputs i)) \<and> MoneyRange (sint v) \<and>
    GetValueIn_loop (tx_nVersion tx = ANON_TXN_VERSION) inputs w ins = Some v \<and>
    (\<forall>i \<in> set (plain_ins tx ins). \<exists>ti t. inputs (op_hash (prevout i)) = Some (ti, t) \<and> prevout_in_range (ti, t) (op_n (prevout i)) \<and>
      tx_nTime t \<le> tx_nTime tx \<and> (IsCoinBase t \<or> IsCoinStake t \<longrightarrow> \<not> immature E pb (ti_pos ti)))"
proof (induction ins arbitrary: w)
  case (Cons i ins)
  show ?case
  proof (cases "tx_nVersion tx = ANON_TXN_VERSION \<and> IsAnonInput i")
    case True
    then have rec: "ConnectInputs_values E pb tx inputs w ins = Inr v" and pl: "plain_ins tx (i # ins) = plain_ins tx ins"
      using Cons.prems(1) by (simp_all add: plain_ins_def)
    have g: "GetValueIn_loop (tx_nVersion tx = ANON_TXN_VERSION) inputs w (i # ins) =
        GetValueIn_loop (tx_nVersion tx = ANON_TXN_VERSION) inputs w ins" using True by simp
    from Cons.IH [OF rec Cons.prems(2)] show ?thesis unfolding pl g .
  next
    case False
    then have pl: "plain_ins tx (i # ins) = i # plain_ins tx ins" by (auto simp: plain_ins_def)
    obtain ti t where q: "inputs (op_hash (prevout i)) = Some (ti, t)"
      and r: "prevout_in_range (ti, t) (op_n (prevout i))" "tx_nTime t \<le> tx_nTime tx"
        "IsCoinBase t \<or> IsCoinStake t \<longrightarrow> \<not> immature E pb (ti_pos ti)"
      and m: "MoneyRange (sint (value_of inputs i))" "MoneyRange (sint (w + value_of inputs i))"
      and rec: "ConnectInputs_values E pb tx inputs (w + value_of inputs i) ins = Inr v"
      using Cons.prems(1) False by (auto simp: Let_def prevout_in_range_def value_of_def not_le not_less split: if_splits option.splits)
    note ih = Cons.IH [OF rec m(2)]
    have "GetOutputFor i inputs = Some (vout t ! unat (op_n (prevout i)))"
      using q r(1) by (simp add: GetOutputFor_def prevout_in_range_def not_le)
    then have "GetValueIn_loop (tx_nVersion tx = ANON_TXN_VERSION) inputs w (i # ins) = Some v"
      using ih by (simp only: GetValueIn_loop.simps if_not_P [OF False] option.case) (simp add: value_of_def q)
    moreover have "sint (w + value_of inputs i) = sint w + sint (value_of inputs i)"
      by (rule sint_plus_money [OF Cons.prems(2) m(1)])
    ultimately show ?thesis using ih q r by (auto simp: pl)
  qed
qed (simp add: plain_ins_def)

text \<open>What an accepted transaction did and what was checked.\<close>

lemma ConnectInputs_accepts:
  assumes fetch: "FetchInputs E txdb pool True fm tx Map.empty = Inr inputs" and nb: "\<not> IsCoinBase tx"
    and conn: "ConnectInputs E tx inputs pool p pb True fMiner flags sig = (None, c, pool')"
    and p: "\<not> CDiskTxPos_IsNull p"
  shows "txdb ++ pool' = mark p (outs tx) (txdb ++ pool)" and "distinct (outs tx)"
    and "\<forall>x \<in> set (outs tx). unspent (txdb ++ pool) x"
    and "\<exists>v. GetValueIn tx inputs = Some v \<and> MoneyRange (sint v) \<and>
      sint v = (\<Sum>i \<leftarrow> plain_ins tx (vin tx). sint (value_of inputs i)) \<and>
      (tx_nVersion tx \<noteq> ANON_TXN_VERSION \<and> \<not> IsCoinStake tx \<longrightarrow>
        (\<exists>w. GetValueOut tx = Some w \<and> sint w + GetMinFee tx 1 GMF_BLOCK 0 \<le> sint v \<and> sint (v - w) = sint v - sint w))"
proof -
  note f = FetchInputs_fetched [OF fetch nb]
  obtain v where v: "ConnectInputs_values E pb tx inputs 0 (vin tx) = Inr v"
    and sp: "ConnectInputs_spend E tx p True fMiner flags sig 0 inputs pool (vin tx) = (None, pool')"
    and fees: "tx_nVersion tx \<noteq> ANON_TXN_VERSION \<and> \<not> IsCoinStake tx \<Longrightarrow> ConnectInputs_fees tx True v = None"
    using conn nb by (auto simp: ConnectInputs_def Let_def split: sum.splits prod.splits option.splits if_splits)
  have m0: "MoneyRange (sint (0 :: u64))" by (simp add: MoneyRange_def MAX_MONEY_def COIN_def)
  note vals = ConnectInputs_values_sum [OF v m0]
  have "txdb ++ pool' = mark p (map out_of (plain_ins tx (vin tx))) (txdb ++ pool) \<and>
      distinct (map out_of (plain_ins tx (vin tx))) \<and> (\<forall>i \<in> set (plain_ins tx (vin tx)). unspent (txdb ++ pool) (out_of i))"
    by (rule ConnectInputs_spend_mark [OF sp _ _ _ p]) (use f in \<open>auto simp: ins_fetched_def fetched_def\<close>)
  then show "txdb ++ pool' = mark p (outs tx) (txdb ++ pool)" "distinct (outs tx)"
    "\<forall>x \<in> set (outs tx). unspent (txdb ++ pool) x" using nb by (simp_all add: outs_def)
  have "\<exists>w. GetValueOut tx = Some w \<and> sint w + GetMinFee tx 1 GMF_BLOCK 0 \<le> sint v \<and> sint (v - w) = sint v - sint w"
    if n: "tx_nVersion tx \<noteq> ANON_TXN_VERSION \<and> \<not> IsCoinStake tx"
  proof -
    obtain w where w: "GetValueOut tx = Some w" "sint w \<le> sint v" "GetMinFee tx 1 GMF_BLOCK 0 \<le> sint (v - w)"
      using fees [OF n] by (auto simp: ConnectInputs_fees_def Let_def not_less split: option.splits if_splits)
    have "0 \<le> sint w" using w(1) GetValueOut_val [of tx] sum_values_nonneg [of "vout tx"] by (auto simp: values_ok_def)
    then have "sint (v - w) = sint v - sint w" using w(2) vals by (intro sint_minus_money) auto
    then show ?thesis using w by auto
  qed
  then show "\<exists>v. GetValueIn tx inputs = Some v \<and> MoneyRange (sint v) \<and>
      sint v = (\<Sum>i \<leftarrow> plain_ins tx (vin tx). sint (value_of inputs i)) \<and>
      (tx_nVersion tx \<noteq> ANON_TXN_VERSION \<and> \<not> IsCoinStake tx \<longrightarrow>
        (\<exists>w. GetValueOut tx = Some w \<and> sint w + GetMinFee tx 1 GMF_BLOCK 0 \<le> sint v \<and> sint (v - w) = sint v - sint w))"
    using vals nb by (intro exI [of _ v]) (auto simp: GetValueIn_def)
qed

section \<open>Disconnecting\<close>

lemma DisconnectInputs_loop_step:
  assumes "d (op_hash (prevout i)) = Some ti"
  shows "DisconnectInputs_loop d (i # ins) =
    (if unat (op_n (prevout i)) < length (ti_vSpent ti)
     then DisconnectInputs_loop (mark1 CDiskTxPos_null (out_of i) d) ins else (False, d))"
  using assms mark1_upd [of d "out_of i" ti CDiskTxPos_null]
  by (simp add: ReadTxIndex_def UpdateTxIndex_def out_of_def Let_def not_le)

lemma DisconnectInputs_loop_mark:
  "\<forall>i \<in> set ins. \<exists>ti. d (op_hash (prevout i)) = Some ti \<and> unat (op_n (prevout i)) < length (ti_vSpent ti) \<Longrightarrow>
    DisconnectInputs_loop d ins = (True, mark CDiskTxPos_null (map out_of ins) d)"
proof (induction ins arbitrary: d)
  case (Cons i ins)
  then obtain ti where ti: "d (op_hash (prevout i)) = Some ti" "unat (op_n (prevout i)) < length (ti_vSpent ti)" by auto
  let ?d = "mark1 CDiskTxPos_null (out_of i) d"
  have "\<forall>j \<in> set ins. \<exists>ti. ?d (op_hash (prevout j)) = Some ti \<and> unat (op_n (prevout j)) < length (ti_vSpent ti)"
    using Cons.prems by (fastforce simp: mark1_apply)
  from Cons.IH [OF this] show ?case using ti by (simp only: DisconnectInputs_loop_step [of d i ti, OF ti(1)]) simp
qed simp

lemma DisconnectInputs_loop_missing:
  "\<exists>i \<in> set ins. d (op_hash (prevout i)) = None \<Longrightarrow> \<not> fst (DisconnectInputs_loop d ins)"
proof (induction ins arbitrary: d)
  case (Cons i ins)
  show ?case
  proof (cases "d (op_hash (prevout i))")
    case (Some ti)
    then have "\<exists>j \<in> set ins. mark1 CDiskTxPos_null (out_of i) d (op_hash (prevout j)) = None" using Cons.prems by auto
    from Cons.IH [OF this] show ?thesis by (simp only: DisconnectInputs_loop_step [of d i ti, OF Some] split: if_splits) simp
  qed (simp add: ReadTxIndex_def)
qed simp

text \<open>Disconnecting a transaction restores the index, when its identifier was new.\<close>

lemma DisconnectInputs_undo:
  assumes plain: "tx_nVersion tx \<noteq> ANON_TXN_VERSION" and new: "d (tx_GetHash (Hash C) tx) = None"
    and "distinct (outs tx)" and n: "\<forall>x \<in> set (outs tx). null_at d x"
  shows "DisconnectInputs C ((mark p (outs tx) d)(tx_GetHash (Hash C) tx \<mapsto> e)) tx = (True, d)"
proof -
  let ?h = "tx_GetHash (Hash C) tx"
  have out: "?h \<notin> fst ` set (outs tx)" using n new by (auto simp: null_at_def)
  have same: "(mark p (outs tx) d)(?h := None) = mark p (outs tx) d" using new by (intro fun_upd_idem) simp
  have undo: "mark CDiskTxPos_null (outs tx) (mark p (outs tx) d) = d" by (rule mark_undo [OF assms(3) n])
  show ?thesis
  proof (cases "IsCoinBase tx")
    case True
    then have "outs tx = []" by (simp add: outs_def)
    then show ?thesis using True new same by (simp add: DisconnectInputs_def EraseTxIndex_def)
  next
    case False
    then have o: "outs tx = map out_of (vin tx)" using plain by (simp add: outs_def plain_ins_def)
    have len: "\<exists>ti. (mark p xs d') (fst x) = Some ti \<and> snd x < length (ti_vSpent ti)" if "null_at d' x" for xs x d'
    proof -
      have "\<exists>ti. d' (fst x) = Some ti \<and> snd x < length (ti_vSpent ti)" using that by (auto simp: null_at_def)
      then show ?thesis
      proof (induction xs arbitrary: d')
        case (Cons y xs)
        from Cons.prems have "\<exists>ti. mark1 p y d' (fst x) = Some ti \<and> snd x < length (ti_vSpent ti)"
          by (auto simp: mark1_apply)
        then have "\<exists>ti. mark p xs (mark1 p y d') (fst x) = Some ti \<and> snd x < length (ti_vSpent ti)"
          by (rule Cons.IH [of "mark1 p y d'"])
        then show ?case by simp
      qed simp
    qed
    have "\<forall>i \<in> set (vin tx). \<exists>ti. ((mark p (outs tx) d)(?h \<mapsto> e)) (op_hash (prevout i)) = Some ti \<and>
        unat (op_n (prevout i)) < length (ti_vSpent ti)"
    proof
      fix i assume i: "i \<in> set (vin tx)"
      then have "null_at d (out_of i)" "op_hash (prevout i) \<noteq> ?h" using n out by (force simp: o out_of_def)+
      from len [OF this(1), of "outs tx"] this(2)
      show "\<exists>ti. ((mark p (outs tx) d)(?h \<mapsto> e)) (op_hash (prevout i)) = Some ti \<and>
          unat (op_n (prevout i)) < length (ti_vSpent ti)" by (auto simp: out_of_def)
    qed
    then have "DisconnectInputs_loop ((mark p (outs tx) d)(?h \<mapsto> e)) (vin tx) =
        (True, mark CDiskTxPos_null (outs tx) ((mark p (outs tx) d)(?h \<mapsto> e)))"
      by (subst (2) o) (rule DisconnectInputs_loop_mark)
    moreover have "(mark CDiskTxPos_null (outs tx) ((mark p (outs tx) d)(?h \<mapsto> e)))(?h := None) = d"
      using mark_fresh [OF out, of CDiskTxPos_null "mark p (outs tx) d" "None"] same undo by (simp add: mark_fresh [OF out])
    ultimately show ?thesis using False by (simp add: DisconnectInputs_def EraseTxIndex_def)
  qed
qed

text \<open>
  An input that names no transaction of the index cannot be disconnected. This holds for anonymous
  inputs, whose outpoint holds a key image, which \<open>DisconnectInputs\<close> does not skip.
\<close>

lemma DisconnectInputs_missing:
  assumes "\<not> IsCoinBase tx" and "i \<in> set (vin tx)" and "d (op_hash (prevout i)) = None"
  shows "\<not> fst (DisconnectInputs C d tx)"
proof -
  have "\<not> fst (DisconnectInputs_loop d (vin tx))" using DisconnectInputs_loop_missing assms(2,3) by blast
  then show ?thesis using assms(1) by (cases "DisconnectInputs_loop d (vin tx)") (simp add: DisconnectInputs_def)
qed

end
