(* ===== verification/Connect_Props.thy ===== *)
theory Connect_Props
  imports Connect TxIndex_Props
begin

text \<open>
  The laws of connecting blocks: what a connected block does to the index, that disconnecting it
  restores the index, and the value of the unspent outputs.
\<close>

section \<open>Well-formed indices\<close>

definition entry_ok :: "(CDiskTxPos \<Rightarrow> CTransaction option) \<Rightarrow> CTxIndex \<Rightarrow> bool" where
  "entry_ok disk ti \<longleftrightarrow> ti_pos ti \<noteq> pos_mempool \<and>
     (\<exists>t. disk (ti_pos ti) = Some t \<and> length (ti_vSpent ti) = length (vout t) \<and> (\<forall>u \<in> set (vout t). 0 \<le> sint (nValue u))) \<and>
     (\<forall>s \<in> set (ti_vSpent ti). CDiskTxPos_IsNull s \<longrightarrow> s = CDiskTxPos_null)"

definition store_ok :: "(CDiskTxPos \<Rightarrow> CTransaction option) \<Rightarrow> CTxDB \<Rightarrow> bool" where
  "store_ok disk d \<longleftrightarrow> finite (dom d) \<and> (\<forall>h ti. d h = Some ti \<longrightarrow> entry_ok disk ti)"

lemma store_ok_empty [simp]: "store_ok disk Map.empty"
  by (simp add: store_ok_def)

lemma store_ok_upd: "store_ok disk d \<Longrightarrow> entry_ok disk e \<Longrightarrow> store_ok disk (d(h \<mapsto> e))"
  by (auto simp: store_ok_def)

lemma store_ok_mark1:
  assumes "store_ok disk d" and "\<not> CDiskTxPos_IsNull p"
  shows "store_ok disk (mark1 p x d)"
proof (cases "d (fst x)")
  case (Some ti)
  then have "entry_ok disk ti" using assms(1) by (simp add: store_ok_def)
  then have "entry_ok disk (ti\<lparr>ti_vSpent := (ti_vSpent ti)[snd x := p]\<rparr>)"
    using assms(2) set_update_subset_insert [of "ti_vSpent ti" "snd x" p] by (auto simp: entry_ok_def)
  then show ?thesis unfolding mark1_upd [of d x ti, OF Some] by (rule store_ok_upd [OF assms(1)])
qed (simp add: mark1_def assms(1))

lemma store_ok_mark: "store_ok disk d \<Longrightarrow> \<not> CDiskTxPos_IsNull p \<Longrightarrow> store_ok disk (mark p xs d)"
  by (induction xs arbitrary: d) (auto simp: store_ok_mark1)

lemma unspent_null_at: "store_ok disk d \<Longrightarrow> unspent d x \<Longrightarrow> null_at d x"
  by (fastforce simp: store_ok_def entry_ok_def unspent_def null_at_def)

lemma entry_ok_new:
  assumes "disk p = Some t" and "p \<noteq> pos_mempool" and "\<forall>u \<in> set (vout t). 0 \<le> sint (nValue u)"
  shows "entry_ok disk (CTxIndex_new p (length (vout t)))"
  using assms by (simp add: entry_ok_def CTxIndex_new_def)

section \<open>The value of the unspent outputs\<close>

definition coin_value :: "(CDiskTxPos \<Rightarrow> CTransaction option) \<Rightarrow> CTxIndex \<Rightarrow> int" where
  "coin_value disk ti =
     (\<Sum>n < length (ti_vSpent ti).
        if CDiskTxPos_IsNull (ti_vSpent ti ! n) then sint (nValue (vout (the (disk (ti_pos ti))) ! n)) else 0)"

definition total :: "(CDiskTxPos \<Rightarrow> CTransaction option) \<Rightarrow> CTxDB \<Rightarrow> int" where
  "total disk d = (\<Sum>h \<in> dom d. coin_value disk (the (d h)))"

definition value_at :: "(CDiskTxPos \<Rightarrow> CTransaction option) \<Rightarrow> CTxDB \<Rightarrow> outpoint \<Rightarrow> int" where
  "value_at disk d x = sint (nValue (vout (the (disk (ti_pos (the (d (fst x)))))) ! snd x))"

lemma coin_value_nonneg: "entry_ok disk ti \<Longrightarrow> 0 \<le> coin_value disk ti"
  by (auto simp: coin_value_def entry_ok_def intro!: sum_nonneg)

lemma total_nonneg: "store_ok disk d \<Longrightarrow> 0 \<le> total disk d"
  by (auto simp: total_def store_ok_def intro!: sum_nonneg coin_value_nonneg)

lemma total_empty [simp]: "total disk Map.empty = 0"
  by (simp add: total_def)

lemma total_upd:
  assumes "finite (dom d)" and "d h = Some ti"
  shows "total disk (d(h \<mapsto> ti')) = total disk d - coin_value disk ti + coin_value disk ti'"
proof -
  have h: "h \<in> dom d" "dom (d(h \<mapsto> ti')) = dom d" using assms(2) by auto
  have "(\<Sum>k \<in> dom d - {h}. coin_value disk (the ((d(h \<mapsto> ti')) k))) = (\<Sum>k \<in> dom d - {h}. coin_value disk (the (d k)))"
    by (rule sum.cong) auto
  then show ?thesis unfolding total_def h(2) sum.remove [OF assms(1) h(1)] by (simp add: assms(2))
qed

lemma total_new:
  assumes "finite (dom d)" and "d h = None"
  shows "total disk (d(h \<mapsto> e)) = total disk d + coin_value disk e"
proof -
  have h: "h \<notin> dom d" using assms(2) by auto
  have "(\<Sum>k \<in> dom d. coin_value disk (the ((d(h \<mapsto> e)) k))) = (\<Sum>k \<in> dom d. coin_value disk (the (d k)))"
    using h by (intro sum.cong) auto
  then show ?thesis using assms(1) h by (simp add: total_def)
qed

lemma coin_value_spend:
  assumes "n < length (ti_vSpent ti)" and "CDiskTxPos_IsNull (ti_vSpent ti ! n)" and "\<not> CDiskTxPos_IsNull p"
  shows "coin_value disk (ti\<lparr>ti_vSpent := (ti_vSpent ti)[n := p]\<rparr>) =
    coin_value disk ti - sint (nValue (vout (the (disk (ti_pos ti))) ! n))"
proof -
  have f: "finite {..<length (ti_vSpent ti)}" "n \<in> {..<length (ti_vSpent ti)}" using assms(1) by auto
  let ?v = "\<lambda>k. sint (nValue (vout (the (disk (ti_pos ti))) ! k))"
  have "(\<Sum>k \<in> {..<length (ti_vSpent ti)} - {n}. if CDiskTxPos_IsNull ((ti_vSpent ti)[n := p] ! k) then ?v k else 0) =
      (\<Sum>k \<in> {..<length (ti_vSpent ti)} - {n}. if CDiskTxPos_IsNull (ti_vSpent ti ! k) then ?v k else 0)"
    by (rule sum.cong) auto
  moreover have "length (ti_vSpent (ti\<lparr>ti_vSpent := (ti_vSpent ti)[n := p]\<rparr>)) = length (ti_vSpent ti)"
    "ti_pos (ti\<lparr>ti_vSpent := (ti_vSpent ti)[n := p]\<rparr>) = ti_pos ti"
    "ti_vSpent (ti\<lparr>ti_vSpent := (ti_vSpent ti)[n := p]\<rparr>) = (ti_vSpent ti)[n := p]" by simp_all
  ultimately show ?thesis
    unfolding coin_value_def by (simp only: sum.remove [OF f]) (simp add: assms)
qed

lemma total_mark1:
  assumes "store_ok disk d" and "unspent d x" and "\<not> CDiskTxPos_IsNull p"
  shows "total disk (mark1 p x d) = total disk d - value_at disk d x"
proof -
  obtain ti where ti: "d (fst x) = Some ti" "snd x < length (ti_vSpent ti)" "CDiskTxPos_IsNull (ti_vSpent ti ! snd x)"
    using assms(2) by (auto simp: unspent_def)
  have "finite (dom d)" using assms(1) by (simp add: store_ok_def)
  then show ?thesis
    unfolding mark1_upd [of d x ti, OF ti(1)] by (simp add: total_upd ti coin_value_spend assms(3) value_at_def)
qed

lemma value_at_mark1: "d (fst y) \<noteq> None \<Longrightarrow> value_at disk (mark1 p x d) y = value_at disk d y"
  by (auto simp: value_at_def mark1_apply)

lemma total_mark:
  "store_ok disk d \<Longrightarrow> distinct xs \<Longrightarrow> \<forall>x \<in> set xs. unspent d x \<Longrightarrow> \<not> CDiskTxPos_IsNull p \<Longrightarrow>
    total disk (mark p xs d) = total disk d - (\<Sum>x \<leftarrow> xs. value_at disk d x)"
proof (induction xs arbitrary: d)
  case (Cons x xs)
  have u: "\<forall>y \<in> set xs. unspent (mark1 p x d) y" using Cons.prems by (metis distinct.simps(2) list.set_intros(2) unspent_mark1)
  have "(\<Sum>y \<leftarrow> xs. value_at disk (mark1 p x d) y) = (\<Sum>y \<leftarrow> xs. value_at disk d y)"
    using Cons.prems(3) by (intro arg_cong [of _ _ sum_list] map_cong value_at_mark1) (auto simp: unspent_def)
  then show ?case
    using Cons.IH [OF store_ok_mark1 [OF Cons.prems(1,4)] _ u Cons.prems(4)] Cons.prems
    by (simp add: total_mark1)
qed simp

lemma coin_value_new:
  assumes "disk p = Some t"
  shows "coin_value disk (CTxIndex_new p (length (vout t))) = (\<Sum>u \<leftarrow> vout t. sint (nValue u))"
proof -
  have "coin_value disk (CTxIndex_new p (length (vout t))) = (\<Sum>n < length (vout t). sint (nValue (vout t ! n)))"
    using assms by (simp add: coin_value_def CTxIndex_new_def CDiskTxPos_null_def CDiskTxPos_IsNull_def)
  also have "\<dots> = (\<Sum>u \<leftarrow> vout t. sint (nValue u))"
    by (simp add: sum_list_sum_nth atLeast0LessThan)
  finally show ?thesis .
qed

section \<open>One transaction\<close>

definition this_pos :: "pindex \<Rightarrow> u32 \<Rightarrow> CDiskTxPos" where
  "this_pos pb nTxPos = \<lparr>dp_nFile = bi_nFile (hd pb), dp_nBlockPos = bi_nBlockPos (hd pb), dp_nTxPos = nTxPos\<rparr>"

abbreviation tx_id :: "crypto \<Rightarrow> CTransaction \<Rightarrow> base_uint" where
  "tx_id C tx \<equiv> tx_GetHash (Hash C) tx"

text \<open>What a connected transaction does to the index.\<close>

definition index_tx :: "crypto \<Rightarrow> CDiskTxPos \<Rightarrow> CTransaction \<Rightarrow> CTxDB \<Rightarrow> CTxDB" where
  "index_tx C p tx d = (mark p (outs tx) d)(tx_id C tx \<mapsto> CTxIndex_new p (length (vout tx)))"

lemma dom_index_tx [simp]: "dom (index_tx C p tx d) = insert (tx_id C tx) (dom d)"
  by (simp add: index_tx_def)

text \<open>A transaction that may be connected at a position: new, on the disk there, and not anonymous.\<close>

definition tx_arrives :: "crypto \<Rightarrow> (CDiskTxPos \<Rightarrow> CTransaction option) \<Rightarrow> CDiskTxPos \<Rightarrow> CTransaction \<Rightarrow> CTxDB \<Rightarrow> bool" where
  "tx_arrives C disk p tx d \<longleftrightarrow> d (tx_id C tx) = None \<and> disk p = Some tx \<and> p \<noteq> pos_mempool \<and> \<not> CDiskTxPos_IsNull p \<and>
     tx_nVersion tx \<noteq> ANON_TXN_VERSION \<and> (\<forall>u \<in> set (vout tx). 0 \<le> sint (nValue u))"

lemma store_ok_index_tx:
  assumes "store_ok disk d" and "tx_arrives C disk p tx d"
  shows "store_ok disk (index_tx C p tx d)"
  unfolding index_tx_def
  by (intro store_ok_upd store_ok_mark entry_ok_new) (use assms in \<open>auto simp: tx_arrives_def\<close>)

lemma total_index_tx:
  assumes "store_ok disk d" and "tx_arrives C disk p tx d" and "distinct (outs tx)" and "\<forall>x \<in> set (outs tx). unspent d x"
  shows "total disk (index_tx C p tx d) =
    total disk d - (\<Sum>x \<leftarrow> outs tx. value_at disk d x) + (\<Sum>u \<leftarrow> vout tx. sint (nValue u))"
proof -
  have p: "\<not> CDiskTxPos_IsNull p" "disk p = Some tx" "d (tx_id C tx) = None" using assms(2) by (simp_all add: tx_arrives_def)
  have "finite (dom (mark p (outs tx) d))" using assms(1) by (simp add: store_ok_def)
  then show ?thesis
    unfolding index_tx_def using p by (simp add: total_new total_mark [OF assms(1,3,4) p(1)] coin_value_new)
qed

lemma undo_index_tx:
  assumes "store_ok disk d" and "tx_arrives C disk p tx d" and "distinct (outs tx)" and "\<forall>x \<in> set (outs tx). unspent d x"
  shows "DisconnectInputs C (index_tx C p tx d) tx = (True, d)"
  unfolding index_tx_def
  by (rule DisconnectInputs_undo) (use assms unspent_null_at [OF assms(1)] in \<open>auto simp: tx_arrives_def\<close>)

lemma GetMinFee_block: "tx_nVersion tx \<noteq> ANON_TXN_VERSION \<Longrightarrow> GetMinFee tx 1 GMF_BLOCK 0 = 1000"
  by (simp add: GetMinFee_def MIN_TX_FEE_def MoneyRange_def MAX_MONEY_def COIN_def Let_def)

lemma value_of_at:
  assumes "fetched E d inputs" and "store_ok (te_disk E) d" and "inputs (op_hash (prevout i)) \<noteq> None"
  shows "sint (value_of inputs i) = value_at (te_disk E) d (out_of i)"
proof -
  obtain ti t where q: "inputs (op_hash (prevout i)) = Some (ti, t)" using assms(3) by auto
  then have "d (op_hash (prevout i)) = Some ti" "prev_tx E (op_hash (prevout i)) ti = Some t"
    using assms(1) by (auto simp: fetched_def)
  moreover from this assms(2) have "ti_pos ti \<noteq> pos_mempool" by (auto simp: store_ok_def entry_ok_def)
  ultimately show ?thesis using q by (simp add: value_of_def value_at_def out_of_def prev_tx_def)
qed

text \<open>The value a transaction brings in and takes out, and what the loop adds up.\<close>

definition tx_moves ::
  "(CDiskTxPos \<Rightarrow> CTransaction option) \<Rightarrow> CTxDB \<Rightarrow> CTransaction \<Rightarrow> connect_state \<Rightarrow> connect_state \<Rightarrow> u64 \<Rightarrow> u64 \<Rightarrow> bool"
where
  "tx_moves disk d tx st st' v w \<longleftrightarrow>
     MoneyRange (sint v) \<and> sint v = (\<Sum>x \<leftarrow> outs tx. value_at disk d x) \<and>
     MoneyRange (sint w) \<and> sint w = (\<Sum>u \<leftarrow> vout tx. sint (nValue u)) \<and>
     cs_nFees st' = (if IsCoinBase tx \<or> IsCoinStake tx then cs_nFees st else cs_nFees st + (v - w)) \<and>
     cs_nStakeReward st' = (if \<not> IsCoinBase tx \<and> IsCoinStake tx then w - v else cs_nStakeReward st) \<and>
     (\<not> IsCoinBase tx \<and> \<not> IsCoinStake tx \<longrightarrow> sint (v - w) = sint v - sint w \<and> sint w + 1000 \<le> sint v)"

lemma tx_moves_cong:
  "cs_nFees a = cs_nFees a' \<Longrightarrow> cs_nStakeReward a = cs_nStakeReward a' \<Longrightarrow>
    cs_nFees b = cs_nFees b' \<Longrightarrow> cs_nStakeReward b = cs_nStakeReward b' \<Longrightarrow>
    tx_moves disk d tx a b v w \<longleftrightarrow> tx_moves disk d tx a' b' v w"
  by (simp only: tx_moves_def)

lemma value_out:
  "GetValueOut tx = Some w \<Longrightarrow> MoneyRange (sint w)"
  "GetValueOut tx = Some w \<Longrightarrow> sint w = (\<Sum>u \<leftarrow> vout tx. sint (nValue u))"
  using GetValueOut_val [of tx] sum_values_nonneg [of "vout tx"] by (auto simp: values_ok_def MoneyRange_def)

lemma ConnectBlock_spend_accepts:
  assumes run: "ConnectBlock_spend E txdb pb flags p tx st = Inr st'" and nb: "\<not> IsCoinBase tx"
    and st: "store_ok (te_disk E) (txdb ++ cs_mapQueuedChanges st)"
    and p: "\<not> CDiskTxPos_IsNull p" and an: "tx_nVersion tx \<noteq> ANON_TXN_VERSION"
  shows "txdb ++ cs_mapQueuedChanges st' = mark p (outs tx) (txdb ++ cs_mapQueuedChanges st)"
    and "distinct (outs tx)" and "\<forall>x \<in> set (outs tx). unspent (txdb ++ cs_mapQueuedChanges st) x"
    and "cs_nTxPos st' = cs_nTxPos st"
    and "\<exists>v w. tx_moves (te_disk E) (txdb ++ cs_mapQueuedChanges st) tx st st' v w"
proof -
  let ?d = "txdb ++ cs_mapQueuedChanges st"
  obtain inputs v w c pool where fetch: "FetchInputs E txdb (cs_mapQueuedChanges st) True False tx Map.empty = Inr inputs"
    and v: "GetValueIn tx inputs = Some v" and w: "GetValueOut tx = Some w"
    and conn: "ConnectInputs E tx inputs (cs_mapQueuedChanges st) p pb True False flags True = (None, c, pool)"
    and s1: "cs_mapQueuedChanges st' = pool" "cs_nTxPos st' = cs_nTxPos st"
      "cs_nFees st' = (if IsCoinStake tx then cs_nFees st else cs_nFees st + (v - w))"
      "cs_nStakeReward st' = (if IsCoinStake tx then w - v else cs_nStakeReward st)"
    using run unfolding ConnectBlock_spend_def Let_def using an
    by (auto split: sum.splits option.splits prod.splits if_splits connect_error.splits)
  note acc = ConnectInputs_accepts [OF fetch nb conn p]
  note f = FetchInputs_fetched [OF fetch nb]
  have m: "map (\<lambda>i. sint (value_of inputs i)) (plain_ins tx (vin tx)) = map (\<lambda>i. value_at (te_disk E) ?d (out_of i)) (plain_ins tx (vin tx))"
    using f(2) by (intro map_cong refl value_of_at [OF f(1) st]) (auto simp: ins_fetched_def)
  have plain: "outs tx = map out_of (plain_ins tx (vin tx))" using nb by (simp add: outs_def)
  have sums: "(\<Sum>i \<leftarrow> plain_ins tx (vin tx). sint (value_of inputs i)) = (\<Sum>x \<leftarrow> outs tx. value_at (te_disk E) ?d x)"
    unfolding plain map_map comp_def by (rule arg_cong [OF m])
  show "txdb ++ cs_mapQueuedChanges st' = mark p (outs tx) ?d" "distinct (outs tx)"
    "\<forall>x \<in> set (outs tx). unspent ?d x" "cs_nTxPos st' = cs_nTxPos st" using acc(1-3) s1(1,2) by simp_all
  have "MoneyRange (sint v)" "sint v = (\<Sum>x \<leftarrow> outs tx. value_at (te_disk E) ?d x)" using acc(4) v sums by auto
  moreover have "sint (v - w) = sint v - sint w \<and> sint w + 1000 \<le> sint v" if "\<not> IsCoinStake tx"
    using acc(4) v w an that by (auto simp: GetMinFee_block)
  ultimately have "tx_moves (te_disk E) ?d tx st st' v w"
    unfolding tx_moves_def using value_out [OF w] s1(3,4) nb by (intro conjI) (simp_all only: simp_thms if_True if_False, auto)
  then show "\<exists>v w. tx_moves (te_disk E) ?d tx st st' v w" by blast
qed

text \<open>The turn of the loop for a transaction.\<close>

lemma ConnectBlock_tx_accepts:
  assumes run: "ConnectBlock_tx E txdb pb False flags tx st = Inr st'"
    and st: "store_ok (te_disk E) (txdb ++ cs_mapQueuedChanges st)"
    and arr: "tx_arrives (an_crypto E) (te_disk E) (this_pos pb (cs_nTxPos st)) tx (txdb ++ cs_mapQueuedChanges st)"
  shows "txdb ++ cs_mapQueuedChanges st' =
      index_tx (an_crypto E) (this_pos pb (cs_nTxPos st)) tx (txdb ++ cs_mapQueuedChanges st)"
    and "distinct (outs tx)" and "\<forall>x \<in> set (outs tx). unspent (txdb ++ cs_mapQueuedChanges st) x"
    and "cs_nTxPos st' = cs_nTxPos st + of_nat (GetSerializeSize_CTransaction tx)"
    and "\<exists>v w. tx_moves (te_disk E) (txdb ++ cs_mapQueuedChanges st) tx st st' v w"
proof -
  let ?C = "an_crypto E" and ?p = "this_pos pb (cs_nTxPos st)" and ?d = "txdb ++ cs_mapQueuedChanges st"
  let ?h = "tx_id ?C tx" and ?sz = "of_nat (GetSerializeSize_CTransaction tx) :: u32"
  let ?st = "st\<lparr>cs_nSigOps := cs_nSigOps st + GetLegacySigOpCount tx, cs_nTxPos := cs_nTxPos st + ?sz\<rparr>"
  have p: "\<not> CDiskTxPos_IsNull ?p" and an: "tx_nVersion tx \<noteq> ANON_TXN_VERSION" using arr by (simp_all add: tx_arrives_def)
  obtain st1 where st1: "st' = st1\<lparr>cs_mapQueuedChanges := (cs_mapQueuedChanges st1)(?h \<mapsto> CTxIndex_new ?p (length (vout tx)))\<rparr>"
    and r1: "(if IsCoinBase tx
        then (case GetValueOut tx of None \<Rightarrow> Inl Abort
              | Some nTxValueOut \<Rightarrow> Inr (?st\<lparr>cs_nValueOut := cs_nValueOut ?st + nTxValueOut\<rparr>))
        else ConnectBlock_spend E txdb pb flags ?p tx ?st) = Inr st1"
    using run unfolding ConnectBlock_tx_def Let_def this_pos_def by (auto split: if_splits sum.splits)
  have main: "txdb ++ cs_mapQueuedChanges st1 = mark ?p (outs tx) ?d \<and> distinct (outs tx) \<and> (\<forall>x \<in> set (outs tx). unspent ?d x) \<and>
      cs_nTxPos st1 = cs_nTxPos st + ?sz \<and> (\<exists>v w. tx_moves (te_disk E) ?d tx ?st st1 v w)"
  proof (cases "IsCoinBase tx")
    case True
    then obtain w where w: "GetValueOut tx = Some w" "st1 = ?st\<lparr>cs_nValueOut := cs_nValueOut ?st + w\<rparr>"
      using r1 by (auto split: option.splits)
    have "MoneyRange (sint (0 :: u64))" by (simp add: MoneyRange_def MAX_MONEY_def COIN_def)
    then have "tx_moves (te_disk E) ?d tx ?st st1 0 w" using True value_out [OF w(1)] w(2) by (simp add: tx_moves_def outs_def)
    then show ?thesis using True w(2) by (auto simp: outs_def)
  next
    case False
    then have "ConnectBlock_spend E txdb pb flags ?p tx ?st = Inr st1" using r1 by simp
    from ConnectBlock_spend_accepts [OF this False _ p an] st show ?thesis by simp
  qed
  show "txdb ++ cs_mapQueuedChanges st' = index_tx ?C ?p tx ?d"
    using main by (simp add: st1 index_tx_def map_add_upd)
  show "distinct (outs tx)" "\<forall>x \<in> set (outs tx). unspent ?d x" "cs_nTxPos st' = cs_nTxPos st + ?sz"
    using main by (simp_all add: st1)
  have "tx_moves (te_disk E) ?d tx st st' v w \<longleftrightarrow> tx_moves (te_disk E) ?d tx ?st st1 v w" for v w
    by (rule tx_moves_cong) (simp_all add: st1)
  then show "\<exists>v w. tx_moves (te_disk E) ?d tx st st' v w" using main by blast
qed

end
