(* ===== verification/Ledger.thy ===== *)
theory Ledger
  imports Connect_Props
begin

text \<open>
  The index of a chain of blocks. Connecting and disconnecting blocks in any order leaves the index
  that the blocks of the chain alone determine, and the value of the unspent outputs is bounded by
  the rewards of these blocks.
\<close>

section \<open>The transactions of a block\<close>

fun index_txs :: "crypto \<Rightarrow> pindex \<Rightarrow> u32 \<Rightarrow> CTransaction list \<Rightarrow> CTxDB \<Rightarrow> CTxDB" where
  "index_txs C pb n [] d = d"
| "index_txs C pb n (tx # r) d =
     index_txs C pb (n + of_nat (GetSerializeSize_CTransaction tx)) r (index_tx C (this_pos pb n) tx d)"

fun txs_arrive ::
  "crypto \<Rightarrow> (CDiskTxPos \<Rightarrow> CTransaction option) \<Rightarrow> pindex \<Rightarrow> u32 \<Rightarrow> CTransaction list \<Rightarrow> CTxDB \<Rightarrow> bool"
where
  "txs_arrive C disk pb n [] d = True"
| "txs_arrive C disk pb n (tx # r) d =
     (tx_arrives C disk (this_pos pb n) tx d \<and>
      txs_arrive C disk pb (n + of_nat (GetSerializeSize_CTransaction tx)) r (index_tx C (this_pos pb n) tx d))"

text \<open>The block is in its file: every transaction is read from its position.\<close>

fun stored :: "(CDiskTxPos \<Rightarrow> CTransaction option) \<Rightarrow> pindex \<Rightarrow> u32 \<Rightarrow> CTransaction list \<Rightarrow> bool" where
  "stored disk pb n [] = True"
| "stored disk pb n (tx # r) =
     (disk (this_pos pb n) = Some tx \<and> this_pos pb n \<noteq> pos_mempool \<and>
      stored disk pb (n + of_nat (GetSerializeSize_CTransaction tx)) r)"

lemma txs_arriveI:
  "stored disk pb n txs \<Longrightarrow> bi_nFile (hd pb) \<noteq> - 1 \<Longrightarrow> distinct (map (tx_id C) txs) \<Longrightarrow>
    \<forall>tx \<in> set txs. d (tx_id C tx) = None \<and> tx_nVersion tx \<noteq> ANON_TXN_VERSION \<and> tx_valid tx \<Longrightarrow> txs_arrive C disk pb n txs d"
proof (induction txs arbitrary: n d)
  case (Cons tx txs)
  have "\<forall>u \<in> set (vout tx). 0 \<le> sint (nValue u)"
    using Cons.prems(4) by (auto simp: tx_valid_def values_ok_def MoneyRange_def)
  then have "tx_arrives C disk (this_pos pb n) tx d"
    using Cons.prems by (simp add: tx_arrives_def CDiskTxPos_IsNull_def this_pos_def)
  moreover have "index_tx C (this_pos pb n) tx d (tx_id C t) = None" if "t \<in> set txs" for t
  proof -
    have "tx_id C t \<in> set (map (tx_id C) txs)" using that by simp
    then have "tx_id C t \<noteq> tx_id C tx" using Cons.prems(3) by fastforce
    then show ?thesis using that Cons.prems(4) by (simp add: index_tx_def)
  qed
  ultimately show ?case using Cons by simp
qed simp

lemma DisconnectBlock_txs_append:
  "DisconnectBlock_txs C d (xs @ ys) =
    (let (ok, d') = DisconnectBlock_txs C d xs in if ok then DisconnectBlock_txs C d' ys else (False, d'))"
  by (induction xs arbitrary: d) (auto split: prod.splits)

lemma ConnectBlock_txs_accepts:
  "ConnectBlock_txs E txdb pb False flags txs st = Inr st' \<Longrightarrow>
    store_ok (te_disk E) (txdb ++ cs_mapQueuedChanges st) \<Longrightarrow>
    txs_arrive (an_crypto E) (te_disk E) pb (cs_nTxPos st) txs (txdb ++ cs_mapQueuedChanges st) \<Longrightarrow>
    txdb ++ cs_mapQueuedChanges st' = index_txs (an_crypto E) pb (cs_nTxPos st) txs (txdb ++ cs_mapQueuedChanges st) \<and>
    store_ok (te_disk E) (txdb ++ cs_mapQueuedChanges st') \<and>
    DisconnectBlock_txs (an_crypto E) (txdb ++ cs_mapQueuedChanges st') (rev txs) = (True, txdb ++ cs_mapQueuedChanges st)"
proof (induction txs arbitrary: st)
  case (Cons tx txs)
  let ?d = "txdb ++ cs_mapQueuedChanges st" and ?C = "an_crypto E"
  obtain st1 where s1: "ConnectBlock_tx E txdb pb False flags tx st = Inr st1"
    and r: "ConnectBlock_txs E txdb pb False flags txs st1 = Inr st'"
    using Cons.prems(1) by (auto split: sum.splits)
  have arr: "tx_arrives ?C (te_disk E) (this_pos pb (cs_nTxPos st)) tx ?d" using Cons.prems(3) by simp
  note a = ConnectBlock_tx_accepts [OF s1 Cons.prems(2) arr]
  have ok1: "store_ok (te_disk E) (txdb ++ cs_mapQueuedChanges st1)"
    unfolding a(1) by (rule store_ok_index_tx [OF Cons.prems(2) arr])
  have arr1: "txs_arrive ?C (te_disk E) pb (cs_nTxPos st1) txs (txdb ++ cs_mapQueuedChanges st1)"
    using Cons.prems(3) a(1,4) by simp
  have ih: "txdb ++ cs_mapQueuedChanges st' = index_txs ?C pb (cs_nTxPos st1) txs (txdb ++ cs_mapQueuedChanges st1)"
    "store_ok (te_disk E) (txdb ++ cs_mapQueuedChanges st')"
    "DisconnectBlock_txs ?C (txdb ++ cs_mapQueuedChanges st') (rev txs) = (True, txdb ++ cs_mapQueuedChanges st1)"
    using Cons.IH [OF r ok1 arr1] by blast+
  have "DisconnectInputs ?C (txdb ++ cs_mapQueuedChanges st1) tx = (True, ?d)"
    unfolding a(1) by (rule undo_index_tx [OF Cons.prems(2) arr a(2,3)])
  then show ?case unfolding ih(1) [symmetric] using ih a(1,4) by (simp add: DisconnectBlock_txs_append)
qed simp

section \<open>Spent outputs\<close>

definition spent :: "CTxDB \<Rightarrow> outpoint \<Rightarrow> bool" where
  "spent d x \<longleftrightarrow> (\<exists>ti. d (fst x) = Some ti \<and> snd x < length (ti_vSpent ti) \<and> \<not> CDiskTxPos_IsNull (ti_vSpent ti ! snd x))"

lemma unspent_not_spent: "unspent d x \<Longrightarrow> \<not> spent d x"
  by (auto simp: unspent_def spent_def)

lemma spent_mark1: "spent d x \<Longrightarrow> \<not> CDiskTxPos_IsNull p \<Longrightarrow> spent (mark1 p y d) x"
  by (cases "snd x = snd y") (auto simp: spent_def mark1_apply)

lemma spent_mark: "spent d x \<Longrightarrow> \<not> CDiskTxPos_IsNull p \<Longrightarrow> spent (mark p ys d) x"
  by (induction ys arbitrary: d) (auto simp: spent_mark1)

lemma mark1_spent: "unspent d x \<Longrightarrow> \<not> CDiskTxPos_IsNull p \<Longrightarrow> spent (mark1 p x d) x"
  by (auto simp: unspent_def spent_def mark1_apply)

lemma mark_spent:
  "\<not> CDiskTxPos_IsNull p \<Longrightarrow> distinct xs \<Longrightarrow> \<forall>x \<in> set xs. unspent d x \<Longrightarrow> \<forall>x \<in> set xs. spent (mark p xs d) x"
proof (induction xs arbitrary: d)
  case (Cons x xs)
  have "\<forall>y \<in> set xs. unspent (mark1 p x d) y" using Cons.prems by (metis distinct.simps(2) list.set_intros(2) unspent_mark1)
  then show ?case using Cons spent_mark [OF mark1_spent] by auto
qed simp

lemma spent_index_tx:
  assumes "tx_arrives C disk p tx d"
  shows "spent d x \<Longrightarrow> spent (index_tx C p tx d) x"
    and "distinct (outs tx) \<Longrightarrow> \<forall>y \<in> set (outs tx). unspent d y \<Longrightarrow> x \<in> set (outs tx) \<Longrightarrow> spent (index_tx C p tx d) x"
proof -
  have new: "d (tx_id C tx) = None" and p: "\<not> CDiskTxPos_IsNull p" using assms by (simp_all add: tx_arrives_def)
  have upd: "spent e x \<Longrightarrow> e (tx_id C tx) = None \<Longrightarrow> spent (e(tx_id C tx \<mapsto> v)) x" for e v
    by (auto simp: spent_def)
  show "spent d x \<Longrightarrow> spent (index_tx C p tx d) x"
    unfolding index_tx_def using new p by (intro upd spent_mark) auto
  show "spent (index_tx C p tx d) x"
    if "distinct (outs tx)" "\<forall>y \<in> set (outs tx). unspent d y" "x \<in> set (outs tx)"
    unfolding index_tx_def using new mark_spent [OF p that(1,2)] that(3) by (intro upd) auto
qed

lemma ConnectBlock_txs_spends:
  "ConnectBlock_txs E txdb pb False flags txs st = Inr st' \<Longrightarrow>
    store_ok (te_disk E) (txdb ++ cs_mapQueuedChanges st) \<Longrightarrow>
    txs_arrive (an_crypto E) (te_disk E) pb (cs_nTxPos st) txs (txdb ++ cs_mapQueuedChanges st) \<Longrightarrow>
    distinct (concat (map outs txs)) \<and> (\<forall>x. spent (txdb ++ cs_mapQueuedChanges st) x \<longrightarrow> spent (txdb ++ cs_mapQueuedChanges st') x) \<and>
    (\<forall>x \<in> set (concat (map outs txs)). \<not> spent (txdb ++ cs_mapQueuedChanges st) x \<and> spent (txdb ++ cs_mapQueuedChanges st') x)"
proof (induction txs arbitrary: st)
  case (Cons tx txs)
  let ?d = "txdb ++ cs_mapQueuedChanges st" and ?C = "an_crypto E" and ?p = "this_pos pb (cs_nTxPos st)"
  obtain st1 where s1: "ConnectBlock_tx E txdb pb False flags tx st = Inr st1"
    and r: "ConnectBlock_txs E txdb pb False flags txs st1 = Inr st'"
    using Cons.prems(1) by (auto split: sum.splits)
  let ?d1 = "txdb ++ cs_mapQueuedChanges st1" and ?d2 = "txdb ++ cs_mapQueuedChanges st'"
  have arr: "tx_arrives ?C (te_disk E) ?p tx ?d" using Cons.prems(3) by simp
  note a = ConnectBlock_tx_accepts [OF s1 Cons.prems(2) arr]
  have ok1: "store_ok (te_disk E) ?d1" unfolding a(1) by (rule store_ok_index_tx [OF Cons.prems(2) arr])
  have arr1: "txs_arrive ?C (te_disk E) pb (cs_nTxPos st1) txs ?d1" using Cons.prems(3) a(1,4) by simp
  note ih = Cons.IH [OF r ok1 arr1]
  have mono: "spent ?d x \<Longrightarrow> spent ?d1 x" for x unfolding a(1) by (rule spent_index_tx(1) [OF arr])
  have here: "x \<in> set (outs tx) \<Longrightarrow> \<not> spent ?d x \<and> spent ?d1 x" for x
    using a(3) unspent_not_spent spent_index_tx(2) [OF arr a(2,3)] unfolding a(1) by blast
  let ?later = "set (concat (map outs txs))"
  have "set (outs tx) \<inter> ?later = {}" using here ih by blast
  moreover have "\<not> spent ?d x \<and> spent ?d2 x" if "x \<in> set (outs tx) \<union> ?later" for x
    using that here [of x] ih mono [of x] by blast
  moreover have "spent ?d x \<longrightarrow> spent ?d2 x" for x using ih mono [of x] by blast
  ultimately show ?case using ih a(2) by (simp add: Un_def)
qed simp

section \<open>Fees\<close>

lemma ConnectBlock_txs_fees:
  "ConnectBlock_txs E txdb pb False flags txs st = Inr st' \<Longrightarrow>
    store_ok (te_disk E) (txdb ++ cs_mapQueuedChanges st) \<Longrightarrow>
    txs_arrive (an_crypto E) (te_disk E) pb (cs_nTxPos st) txs (txdb ++ cs_mapQueuedChanges st) \<Longrightarrow>
    \<forall>tx \<in> set txs. \<not> IsCoinBase tx \<and> \<not> IsCoinStake tx \<Longrightarrow> 0 \<le> sint (cs_nFees st) \<Longrightarrow>
    total (te_disk E) (txdb ++ cs_mapQueuedChanges st) + sint (cs_nFees st) < 2 ^ 63 \<Longrightarrow>
    total (te_disk E) (txdb ++ cs_mapQueuedChanges st') + sint (cs_nFees st') =
      total (te_disk E) (txdb ++ cs_mapQueuedChanges st) + sint (cs_nFees st) \<and>
    0 \<le> sint (cs_nFees st') \<and> cs_nStakeReward st' = cs_nStakeReward st"
proof (induction txs arbitrary: st)
  case (Cons tx txs)
  let ?d = "txdb ++ cs_mapQueuedChanges st" and ?C = "an_crypto E" and ?t = "total (te_disk E)"
  obtain st1 where s1: "ConnectBlock_tx E txdb pb False flags tx st = Inr st1"
    and r: "ConnectBlock_txs E txdb pb False flags txs st1 = Inr st'"
    using Cons.prems(1) by (auto split: sum.splits)
  let ?d1 = "txdb ++ cs_mapQueuedChanges st1"
  have arr: "tx_arrives ?C (te_disk E) (this_pos pb (cs_nTxPos st)) tx ?d" using Cons.prems(3) by simp
  note a = ConnectBlock_tx_accepts [OF s1 Cons.prems(2) arr]
  have ok1: "store_ok (te_disk E) ?d1" unfolding a(1) by (rule store_ok_index_tx [OF Cons.prems(2) arr])
  obtain v w where vw: "tx_moves (te_disk E) ?d tx st st1 v w" using a(5) by blast
  have t1: "?t ?d1 = ?t ?d - (sint v - sint w)"
    unfolding a(1) using total_index_tx [OF Cons.prems(2) arr a(2,3)] vw by (simp add: tx_moves_def)
  have fee: "cs_nFees st1 = cs_nFees st + (v - w)" "sint (v - w) = sint v - sint w" "0 \<le> sint v - sint w"
    "cs_nStakeReward st1 = cs_nStakeReward st"
    using vw Cons.prems(4) by (auto simp: tx_moves_def)
  have "sint (cs_nFees st1) = sint (cs_nFees st) + (sint v - sint w)"
  proof -
    have "sint (cs_nFees st1) = signed_take_bit 63 (sint (cs_nFees st) + sint (v - w))" by (simp add: fee(1) sint_word_ariths)
    also have "\<dots> = sint (cs_nFees st) + sint (v - w)"
      using total_nonneg [OF ok1] t1 fee(2,3) Cons.prems(5,6) by (intro signed_take_bit_int_eq_self) auto
    finally show ?thesis by (simp add: fee(2))
  qed
  moreover have "txs_arrive ?C (te_disk E) pb (cs_nTxPos st1) txs ?d1" using Cons.prems(3) a(1,4) by simp
  ultimately show ?case
    using Cons.IH [OF r ok1] Cons.prems(4-6) t1 fee(3,4) by simp
qed simp

section \<open>Rewards\<close>

lemma GetProofOfWorkReward_fees:
  assumes "0 \<le> F" and "F < 2 ^ 62 + 2 ^ 60"
  shows "GetProofOfWorkReward tn best h F = GetProofOfWorkReward tn best h 0 + F" and "0 \<le> GetProofOfWorkReward tn best h 0"
proof -
  have s: "s64 (k + F) = s64 k + F" if "0 \<le> k" "k \<le> 300000000000000" for k
    using that assms by simp
  have z: "F = s64 F" using assms by simp
  show "GetProofOfWorkReward tn best h F = GetProofOfWorkReward tn best h 0 + F"
    unfolding GetProofOfWorkReward_def Let_def COIN_def using s z by (simp add: c_div_def)
  show "0 \<le> GetProofOfWorkReward tn best h 0"
    by (simp add: GetProofOfWorkReward_def Let_def COIN_def c_div_def)
qed

lemma GetProofOfStakeReward_fees:
  assumes "0 \<le> F" and "F < 2 ^ 62 + 2 ^ 60"
  shows "GetProofOfStakeReward tn best a F = GetProofOfStakeReward tn best a 0 + F"
proof -
  let ?k = "c_div (s64 (a * COIN_YEAR_REWARD)) 365"
  have "\<bar>s64 (a * COIN_YEAR_REWARD)\<bar> \<le> 2 ^ 63" using s64_range [of "a * COIN_YEAR_REWARD"] by linarith
  then have "\<bar>s64 (a * COIN_YEAR_REWARD)\<bar> div 365 \<le> 2 ^ 63 div 365" by (rule zdiv_mono1) simp
  then have "\<bar>?k\<bar> \<le> 2 ^ 63 div 365" by (simp add: c_div_def abs_mult abs_sgn_eq)
  then have "s64 (?k + F) = s64 ?k + F" using assms by simp
  then show ?thesis by (simp add: GetProofOfStakeReward_def Let_def)
qed

text \<open>The coins a block may create.\<close>

definition mint :: "'b bn_lib \<Rightarrow> tx_env \<Rightarrow> CTxDB \<Rightarrow> pindex \<Rightarrow> CBlock \<Rightarrow> int" where
  "mint bn E txdb pb b =
     (if cb_IsProofOfWork b then GetProofOfWorkReward (te_fTestNet E) (an_nBestHeight E) (nHeight (hd pb)) 0
      else case GetCoinAge bn E txdb (cb_vtx b ! 1) of Inl _ \<Rightarrow> 0
      | Inr nCoinAge \<Rightarrow> max 0 (GetProofOfStakeReward (te_fTestNet E) (an_nBestHeight E) (sint nCoinAge) 0))"

section \<open>One block\<close>

text \<open>
  A block that arrives for the index: it is in its file, its transactions are new and none is
  anonymous.
\<close>

definition first_pos :: "pindex \<Rightarrow> CBlock \<Rightarrow> u32" where
  "first_pos pb b = first_nTxPos (bi_nBlockPos (hd pb)) False b"

definition block_arrives :: "crypto \<Rightarrow> (CDiskTxPos \<Rightarrow> CTransaction option) \<Rightarrow> CTxDB \<Rightarrow> pindex \<Rightarrow> CBlock \<Rightarrow> bool" where
  "block_arrives C disk txdb pb b \<longleftrightarrow> bi_nFile (hd pb) \<noteq> - 1 \<and> stored disk pb (first_pos pb b) (cb_vtx b) \<and>
     (\<forall>tx \<in> set (cb_vtx b). txdb (tx_id C tx) = None \<and> tx_nVersion tx \<noteq> ANON_TXN_VERSION)"

definition index_block :: "crypto \<Rightarrow> pindex \<Rightarrow> CBlock \<Rightarrow> CTxDB \<Rightarrow> CTxDB" where
  "index_block C pb b d = index_txs C pb (first_pos pb b) (cb_vtx b) d"

definition state0 :: "pindex \<Rightarrow> CBlock \<Rightarrow> connect_state" where
  "state0 pb b = \<lparr>cs_nTxPos = first_pos pb b, cs_mapQueuedChanges = Map.empty, cs_nFees = 0, cs_nValueIn = 0,
     cs_nValueOut = 0, cs_nAmountBurned = 0, cs_nStakeReward = 0, cs_nSigOps = 0\<rparr>"

lemma ConnectBlock_runs:
  assumes "ConnectBlock bn pow now E payment txdb pb False b = Inr (pindex, txdb')"
  obtains st where "fst (CheckBlock bn (te_fTestNet E) (an_crypto E) pow now True True False b)"
    and "ConnectBlock_txs E txdb pb False SCRIPT_VERIFY_NOCACHE (cb_vtx b) (state0 pb b) = Inr st"
    and "ConnectBlock_reward bn E txdb pb b st = None" and "txdb' = txdb ++ cs_mapQueuedChanges st"
proof -
  obtain ok b' where c: "CheckBlock bn (te_fTestNet E) (an_crypto E) pow now True True False b = (ok, b')"
    by (cases "CheckBlock bn (te_fTestNet E) (an_crypto E) pow now True True False b")
  show thesis
    using assms that c unfolding ConnectBlock_def
    by (auto simp: state0_def first_pos_def Let_def split: if_splits sum.splits option.splits)
qed

lemma ConnectBlock_accepts:
  assumes bn: "openssl_bn bn val" and len: "length (pow (header_memory b)) = 8"
    and run: "ConnectBlock bn pow now E payment txdb pb False b = Inr (pindex, txdb')"
    and st: "store_ok (te_disk E) txdb" and arr: "block_arrives (an_crypto E) (te_disk E) txdb pb b"
  shows "txdb' = index_block (an_crypto E) pb b txdb" and "store_ok (te_disk E) txdb'"
    and "DisconnectBlock (an_crypto E) txdb' b = (True, txdb)"
    and "block_valid (te_fTestNet E) (an_crypto E) pow now True True False b"
    and "txs_arrive (an_crypto E) (te_disk E) pb (first_pos pb b) (cb_vtx b) txdb"
proof -
  obtain s where chk: "fst (CheckBlock bn (te_fTestNet E) (an_crypto E) pow now True True False b)"
    and s: "ConnectBlock_txs E txdb pb False SCRIPT_VERIFY_NOCACHE (cb_vtx b) (state0 pb b) = Inr s"
      "txdb' = txdb ++ cs_mapQueuedChanges s"
    using ConnectBlock_runs [OF run] by metis
  show v: "block_valid (te_fTestNet E) (an_crypto E) pow now True True False b"
    using chk CheckBlock_spec(1) [where pow = pow and b = b, OF bn len] by blast
  show a: "txs_arrive (an_crypto E) (te_disk E) pb (first_pos pb b) (cb_vtx b) txdb"
    by (rule txs_arriveI) (use v arr in \<open>auto simp: block_valid_def block_arrives_def\<close>)
  have z: "cs_nTxPos (state0 pb b) = first_pos pb b" "txdb ++ cs_mapQueuedChanges (state0 pb b) = txdb"
    by (simp_all add: state0_def)
  note runs = ConnectBlock_txs_accepts [OF s(1), unfolded z, OF st a]
  then show "txdb' = index_block (an_crypto E) pb b txdb" "store_ok (te_disk E) txdb'"
    "DisconnectBlock (an_crypto E) txdb' b = (True, txdb)"
    unfolding s(2) index_block_def DisconnectBlock_def by blast+
qed

definition block_spends :: "CBlock \<Rightarrow> outpoint list" where
  "block_spends b = concat (map outs (cb_vtx b))"

lemma ConnectBlock_spends:
  assumes bn: "openssl_bn bn val" and len: "length (pow (header_memory b)) = 8"
    and run: "ConnectBlock bn pow now E payment txdb pb False b = Inr (pindex, txdb')"
    and st: "store_ok (te_disk E) txdb" and arr: "block_arrives (an_crypto E) (te_disk E) txdb pb b"
  shows "distinct (block_spends b) \<and> (\<forall>x. spent txdb x \<longrightarrow> spent txdb' x) \<and>
    (\<forall>x \<in> set (block_spends b). \<not> spent txdb x \<and> spent txdb' x)"
proof -
  obtain s where s: "ConnectBlock_txs E txdb pb False SCRIPT_VERIFY_NOCACHE (cb_vtx b) (state0 pb b) = Inr s"
      "txdb' = txdb ++ cs_mapQueuedChanges s"
    using ConnectBlock_runs [OF run] by metis
  have z: "cs_nTxPos (state0 pb b) = first_pos pb b" "txdb ++ cs_mapQueuedChanges (state0 pb b) = txdb"
    by (simp_all add: state0_def)
  note a = ConnectBlock_accepts(5) [OF bn len run st arr]
  from ConnectBlock_txs_spends [OF s(1), unfolded z, OF st a] show ?thesis by (simp add: s(2) block_spends_def)
qed

text \<open>The value of the unspent outputs grows by at most what the block may create.\<close>

lemma ConnectBlock_total:
  assumes bn: "openssl_bn bn val" and len: "length (pow (header_memory b)) = 8"
    and run: "ConnectBlock bn pow now E payment txdb pb False b = Inr (pindex, txdb')"
    and st: "store_ok (te_disk E) txdb" and arr: "block_arrives (an_crypto E) (te_disk E) txdb pb b"
    and stake: "\<forall>i < length (cb_vtx b). IsCoinStake (cb_vtx b ! i) \<longrightarrow> i = 1"
    and small: "total (te_disk E) txdb < 2 ^ 62"
  shows "total (te_disk E) txdb' \<le> total (te_disk E) txdb + mint bn E txdb pb b"
proof -
  let ?C = "an_crypto E" and ?t = "total (te_disk E)" and ?n = "first_pos pb b"
  obtain s where s: "ConnectBlock_txs E txdb pb False SCRIPT_VERIFY_NOCACHE (cb_vtx b) (state0 pb b) = Inr s"
      "ConnectBlock_reward bn E txdb pb b s = None" "txdb' = txdb ++ cs_mapQueuedChanges s"
    using ConnectBlock_runs [OF run] by metis
  note acc = ConnectBlock_accepts [OF bn len run st arr]
  have v: "cb_vtx b \<noteq> []" "\<forall>i < length (cb_vtx b). IsCoinBase (cb_vtx b ! i) \<longleftrightarrow> i = 0"
    "cb_IsProofOfStake b \<longrightarrow> stake_valid ?C pow False b"
    using acc(4) by (simp_all add: block_valid_def)
  obtain base r where vtx: "cb_vtx b = base # r" using v(1) by (cases "cb_vtx b") auto
  have base: "IsCoinBase base" "outs base = []" using v(2) by (auto simp: vtx outs_def)
  have rest: "\<not> IsCoinBase tx" if "tx \<in> set r" for tx
    using that v(2) by (auto simp: vtx in_set_conv_nth)
  obtain s1 where s1: "ConnectBlock_tx E txdb pb False SCRIPT_VERIFY_NOCACHE base (state0 pb b) = Inr s1"
    and sr: "ConnectBlock_txs E txdb pb False SCRIPT_VERIFY_NOCACHE r s1 = Inr s"
    using s(1) by (auto simp: vtx split: sum.splits)
  let ?d1 = "txdb ++ cs_mapQueuedChanges s1"
  have z: "cs_nTxPos (state0 pb b) = ?n" "txdb ++ cs_mapQueuedChanges (state0 pb b) = txdb"
    "cs_nFees (state0 pb b) = 0" "cs_nStakeReward (state0 pb b) = 0"
    by (simp_all add: state0_def)
  have arr0: "tx_arrives ?C (te_disk E) (this_pos pb ?n) base txdb" using acc(5) by (simp add: vtx)
  note a = ConnectBlock_tx_accepts [OF s1, unfolded z, OF st arr0]
  have ok1: "store_ok (te_disk E) ?d1" unfolding a(1) by (rule store_ok_index_tx [OF st arr0])
  have arr1: "txs_arrive ?C (te_disk E) pb (cs_nTxPos s1) r ?d1" using acc(5) a(1,4) by (simp add: vtx)
  obtain v0 w0 where m0: "tx_moves (te_disk E) txdb base (state0 pb b) s1 v0 w0" using a(5) by blast
  define CB where "CB = (\<Sum>u \<leftarrow> vout base. sint (nValue u))"
  have CB: "MoneyRange CB" "?t ?d1 = ?t txdb + CB" "cs_nFees s1 = 0" "cs_nStakeReward s1 = 0"
    using m0 base total_index_tx [OF st arr0 a(2,3)] z(3,4) by (auto simp: tx_moves_def CB_def a(1))
  have CBb: "0 \<le> CB" "CB \<le> 2 ^ 60" using CB(1) by (simp_all add: MoneyRange_def MAX_MONEY_def COIN_def)
  show ?thesis
  proof (cases "cb_IsProofOfStake b")
    case False
    have "\<not> IsCoinStake tx" if tx: "tx \<in> set r" for tx
    proof
      assume c: "IsCoinStake tx"
      obtain i where i: "i < length r" "tx = r ! i" using tx by (auto simp: in_set_conv_nth)
      then have "i = 0" using stake c by (force simp: vtx)
      then show False using False c i by (auto simp: cb_IsProofOfStake_def vtx)
    qed
    then have f: "?t txdb' + sint (cs_nFees s) = ?t txdb + CB" "0 \<le> sint (cs_nFees s)"
      using ConnectBlock_txs_fees [OF sr ok1 arr1] rest CB CBb small by (auto simp: s(3))
    obtain w where w: "GetValueOut base = Some w"
      "sint w \<le> GetProofOfWorkReward (te_fTestNet E) (an_nBestHeight E) (nHeight (hd pb)) (sint (cs_nFees s))"
      using s(2) False by (auto simp: ConnectBlock_reward_def cb_IsProofOfWork_def vtx split: option.splits if_splits)
    have "sint w = CB" using value_out(2) [OF w(1)] by (simp add: CB_def)
    moreover have "sint (cs_nFees s) < 2 ^ 62 + 2 ^ 60"
      using f(1) total_nonneg [OF acc(2)] small CBb by linarith
    ultimately have "CB \<le> mint bn E txdb pb b + sint (cs_nFees s)"
      using w(2) GetProofOfWorkReward_fees(1) [OF f(2)] False by (simp add: mint_def cb_IsProofOfWork_def)
    then show ?thesis using f(1) by linarith
  next
    case True
    then have sv: "stake_valid ?C pow False b" using v(3) by blast
    obtain cs r2 where r: "r = cs # r2" using True by (cases r) (auto simp: cb_IsProofOfStake_def vtx)
    have csk: "IsCoinStake cs" "\<not> IsCoinBase cs" using True rest by (auto simp: cb_IsProofOfStake_def vtx r)
    have r2: "\<not> IsCoinBase tx \<and> \<not> IsCoinStake tx" if tx: "tx \<in> set r2" for tx
    proof
      show "\<not> IsCoinBase tx" using rest tx by (simp add: r)
      show "\<not> IsCoinStake tx"
      proof
        assume c: "IsCoinStake tx"
        obtain i where i: "i < length r2" "tx = r2 ! i" using tx by (auto simp: in_set_conv_nth)
        then show False using stake c by (force simp: vtx r)
      qed
    qed
    have "vout base = [CTxOut_empty]" using sv by (simp add: stake_valid_def vtx)
    then have CB0: "CB = 0" by (simp add: CB_def CTxOut_empty_def)
    obtain s2 where s2: "ConnectBlock_tx E txdb pb False SCRIPT_VERIFY_NOCACHE cs s1 = Inr s2"
      and sr2: "ConnectBlock_txs E txdb pb False SCRIPT_VERIFY_NOCACHE r2 s2 = Inr s"
      using sr by (auto simp: r split: sum.splits)
    let ?d2 = "txdb ++ cs_mapQueuedChanges s2"
    have arr2: "tx_arrives ?C (te_disk E) (this_pos pb (cs_nTxPos s1)) cs ?d1" using arr1 by (simp add: r)
    note a2 = ConnectBlock_tx_accepts [OF s2 ok1 arr2]
    have ok2: "store_ok (te_disk E) ?d2" unfolding a2(1) by (rule store_ok_index_tx [OF ok1 arr2])
    have arr3: "txs_arrive ?C (te_disk E) pb (cs_nTxPos s2) r2 ?d2" using arr1 a2(1,4) by (simp add: r)
    obtain v1 w1 where m1: "tx_moves (te_disk E) ?d1 cs s1 s2 v1 w1" using a2(5) by blast
    have m: "MoneyRange (sint v1)" "MoneyRange (sint w1)" "cs_nFees s2 = 0" "cs_nStakeReward s2 = w1 - v1"
      "?t ?d2 = ?t ?d1 - sint v1 + sint w1"
      using m1 csk CB(3) total_index_tx [OF ok1 arr2 a2(2,3)] by (auto simp: tx_moves_def a2(1))
    have rew: "sint (w1 - v1) = sint w1 - sint v1"
    proof -
      have "sint (w1 - v1) = signed_take_bit 63 (sint w1 - sint v1)" by (simp add: sint_word_ariths)
      also have "\<dots> = sint w1 - sint v1"
        by (rule signed_take_bit_int_eq_self) (use m in \<open>auto simp: MoneyRange_def MAX_MONEY_def COIN_def\<close>)
      finally show ?thesis .
    qed
    have b1: "sint w1 \<le> 2 ^ 60" "0 \<le> sint v1" using m(1,2) by (simp_all add: MoneyRange_def MAX_MONEY_def COIN_def)
    have f: "?t txdb' + sint (cs_nFees s) = ?t txdb + (sint w1 - sint v1)" "0 \<le> sint (cs_nFees s)" "cs_nStakeReward s = w1 - v1"
      using ConnectBlock_txs_fees [OF sr2 ok2 arr3] r2 m(3-5) CB(2) CB0 b1 small by (auto simp: s(3))
    obtain a where age: "GetCoinAge bn E txdb cs = Inr a"
      "sint (w1 - v1) \<le> GetProofOfStakeReward (te_fTestNet E) (an_nBestHeight E) (sint a) (sint (cs_nFees s))"
      using s(2) True f(3) by (auto simp: ConnectBlock_reward_def cb_IsProofOfWork_def vtx r split: sum.splits if_splits)
    have "sint (cs_nFees s) < 2 ^ 62 + 2 ^ 60"
      using f(1) total_nonneg [OF acc(2)] small b1 by linarith
    then have "sint w1 - sint v1 \<le> mint bn E txdb pb b + sint (cs_nFees s)"
      using age GetProofOfStakeReward_fees [OF f(2)] True rew by (simp add: mint_def cb_IsProofOfWork_def vtx r)
    then show ?thesis using f(1) by linarith
  qed
qed

section \<open>Chains\<close>

text \<open>
  The states of the index while blocks are connected to the tip of the chain and disconnected from
  it; the list holds the blocks of the chain, the tip first, each with the environment and the index
  object it was connected with.
\<close>

type_synonym link = "tx_env \<times> pindex \<times> CBlock"

inductive chain_state ::
  "'b bn_lib \<Rightarrow> (byte list \<Rightarrow> base_uint) \<Rightarrow> crypto \<Rightarrow> (CDiskTxPos \<Rightarrow> CTransaction option) \<Rightarrow> CTxDB \<Rightarrow> link list \<Rightarrow> bool"
  for bn pow C disk
where
  chain_empty: "chain_state bn pow C disk Map.empty []"
| chain_connect: "chain_state bn pow C disk db bs \<Longrightarrow> an_crypto E = C \<Longrightarrow> te_disk E = disk \<Longrightarrow>
    block_arrives C disk db pb b \<Longrightarrow> length (pow (header_memory b)) = 8 \<Longrightarrow>
    ConnectBlock bn pow now E payment db pb False b = Inr (pindex, db') \<Longrightarrow> chain_state bn pow C disk db' ((E, pb, b) # bs)"
| chain_disconnect: "chain_state bn pow C disk db ((E, pb, b) # bs) \<Longrightarrow> DisconnectBlock C db b = (True, db') \<Longrightarrow>
    chain_state bn pow C disk db' bs"

text \<open>The states without a disconnected block.\<close>

inductive direct ::
  "'b bn_lib \<Rightarrow> (byte list \<Rightarrow> base_uint) \<Rightarrow> crypto \<Rightarrow> (CDiskTxPos \<Rightarrow> CTransaction option) \<Rightarrow> CTxDB \<Rightarrow> link list \<Rightarrow> bool"
  for bn pow C disk
where
  direct_empty: "direct bn pow C disk Map.empty []"
| direct_connect: "direct bn pow C disk db bs \<Longrightarrow> an_crypto E = C \<Longrightarrow> te_disk E = disk \<Longrightarrow>
    block_arrives C disk db pb b \<Longrightarrow> length (pow (header_memory b)) = 8 \<Longrightarrow>
    ConnectBlock bn pow now E payment db pb False b = Inr (pindex, db') \<Longrightarrow> direct bn pow C disk db' ((E, pb, b) # bs)"

inductive_cases direct_ConsE: "direct bn pow C disk db ((E, pb, b) # bs)"

text \<open>The index the blocks of a chain determine, and the coins they may create.\<close>

fun chain_index :: "crypto \<Rightarrow> link list \<Rightarrow> CTxDB" where
  "chain_index C [] = Map.empty"
| "chain_index C ((E, pb, b) # bs) = index_block C pb b (chain_index C bs)"

fun minted :: "'b bn_lib \<Rightarrow> crypto \<Rightarrow> link list \<Rightarrow> int" where
  "minted bn C [] = 0"
| "minted bn C ((E, pb, b) # bs) = minted bn C bs + mint bn E (chain_index C bs) pb b"

lemma mint_nonneg: "0 \<le> mint bn E txdb pb b"
  using GetProofOfWorkReward_fees(2) [of 0] by (simp add: mint_def split: sum.split)

context openssl_bn
begin

lemma direct_index: "direct bn pow C disk db bs \<Longrightarrow> db = chain_index C bs \<and> store_ok disk db"
proof (induction rule: direct.induct)
  case (direct_connect db bs E pb b now payment pindex db')
  then show ?case using ConnectBlock_accepts(1,2) [where pow = pow and b = b, OF openssl_bn_axioms direct_connect.hyps(5,6)] by auto
qed simp

lemma direct_undo:
  assumes "direct bn pow C disk db ((E, pb, b) # bs)"
  obtains db0 where "direct bn pow C disk db0 bs" and "DisconnectBlock C db b = (True, db0)"
proof -
  obtain db0 now payment pindex where d: "direct bn pow C disk db0 bs" "an_crypto E = C" "te_disk E = disk"
      "block_arrives C disk db0 pb b" "length (pow (header_memory b)) = 8"
      "ConnectBlock bn pow now E payment db0 pb False b = Inr (pindex, db)"
    using assms by (auto elim: direct_ConsE)
  then have "DisconnectBlock C db b = (True, db0)"
    using ConnectBlock_accepts(3) [where pow = pow and b = b, OF openssl_bn_axioms d(5,6)] direct_index by auto
  then show thesis using that d(1) by blast
qed

lemma chain_direct: "chain_state bn pow C disk db bs \<Longrightarrow> direct bn pow C disk db bs"
proof (induction rule: chain_state.induct)
  case chain_empty
  show ?case by (rule direct_empty)
next
  case (chain_connect db bs E pb b now payment pindex db')
  then show ?case by (intro direct_connect)
next
  case (chain_disconnect db E pb b bs db')
  obtain db0 where d: "direct bn pow C disk db0 bs" "DisconnectBlock C db b = (True, db0)"
    using chain_disconnect.IH by (rule direct_undo)
  then show ?case using chain_disconnect.hyps(2) by simp
qed

lemma direct_spends:
  "direct bn pow C disk db bs \<Longrightarrow>
    distinct (concat (map (\<lambda>(E, pb, b). block_spends b) bs)) \<and>
    (\<forall>x \<in> set (concat (map (\<lambda>(E, pb, b). block_spends b) bs)). spent db x)"
proof (induction rule: direct.induct)
  case (direct_connect db bs E pb b now payment pindex db')
  have db: "store_ok disk db" using direct_index [OF direct_connect.hyps(1)] by auto
  have "distinct (block_spends b) \<and> (\<forall>x. spent db x \<longrightarrow> spent db' x) \<and> (\<forall>x \<in> set (block_spends b). \<not> spent db x \<and> spent db' x)"
    using ConnectBlock_spends [where pow = pow and b = b, OF openssl_bn_axioms direct_connect.hyps(5,6)]
      direct_connect.hyps(2-4) db by simp
  then show ?case using direct_connect.IH by auto
qed simp

lemma direct_total:
  "direct bn pow C disk db bs \<Longrightarrow>
    \<forall>(E, pb, b) \<in> set bs. \<forall>i < length (cb_vtx b). IsCoinStake (cb_vtx b ! i) \<longrightarrow> i = 1 \<Longrightarrow> minted bn C bs < 2 ^ 62 \<Longrightarrow>
    total disk db \<le> minted bn C bs"
proof (induction rule: direct.induct)
  case (direct_connect db bs E pb b now payment pindex db')
  have db: "db = chain_index C bs" "store_ok disk db" using direct_index [OF direct_connect.hyps(1)] by auto
  have "minted bn C bs < 2 ^ 62" using direct_connect.prems(2) mint_nonneg [of bn E "chain_index C bs" pb b] by simp
  then have ih: "total disk db \<le> minted bn C bs" using direct_connect.IH direct_connect.prems(1) by simp
  have "total disk db' \<le> total disk db + mint bn E db pb b"
    using ConnectBlock_total [where pow = pow and b = b, OF openssl_bn_axioms direct_connect.hyps(5,6)] direct_connect.hyps(2-4) db(2)
      direct_connect.prems(1) ih \<open>minted bn C bs < 2 ^ 62\<close> by simp
  then show ?case using ih by (simp add: db(1))
qed simp

end

end
