(* ===== verification/Ledger_Sample.thy ===== *)
theory Ledger_Sample
  imports Ledger
begin

text \<open>
  Small chains for the examples. The hash of a transaction is its time, the hash of a pair the left
  hash, so that identifiers and Merkle roots can be evaluated; no signature is checked, as below the
  last checkpoint.
\<close>

section \<open>Hashes\<close>

definition toy :: crypto where
  "toy = \<lparr>RIPEMD160 = \<lambda>_. replicate 20 0, SHA1 = \<lambda>_. replicate 20 0, SHA256 = \<lambda>x. replicate 32 (x ! 4),
     ECDSA_verify = \<lambda>_ _ _. True\<rparr>"

definition toy_id :: "byte \<Rightarrow> base_uint" where
  "toy_id v = bu_of_bytes (replicate 32 v)"

lemma toy_Hash: "Hash toy x = toy_id (x ! 4)"
  by (simp add: Hash_def toy_def toy_id_def)

lemma toy_tx_id: "tx_id toy tx = toy_id (Serialize_u32 (tx_nTime tx) ! 0)"
proof -
  have "length (Serialize_u32 a) = 4" for a by (simp add: Serialize_u32_def native_store_eq)
  then show ?thesis by (simp add: tx_GetHash_def toy_Hash Serialize_CTransaction_def nth_append)
qed

lemma toy_id_words: "toy_id v = replicate 8 (sph_dec32le [v, v, v, v])"
  by (simp add: toy_id_def bu_of_bytes_def native_load32_eq numeral_eq_Suc chunks.simps)

lemma toy_ids: "toy_id 5 = replicate 8 0x05050505" "toy_id 6 = replicate 8 0x06060606"
    "toy_id 7 = replicate 8 0x07070707" "toy_id 8 = replicate 8 0x08080808"
  unfolding toy_id_words by (simp_all add: sph_dec32le_def)

lemma toy_Hash2: "Hash2 toy (toy_id v) b = toy_id v"
proof -
  have "bu_bytes (toy_id v) = replicate 32 v"
    by (simp add: toy_id_words bu_bytes_def native_store_eq sph_enc32le_dec32le numeral_eq_Suc)
  then show ?thesis by (simp add: Hash2_def toy_Hash nth_append)
qed

section \<open>Transactions\<close>

definition toy_out :: "u64 \<Rightarrow> CTxOut" where
  "toy_out v = \<lparr>nValue = v, scriptPubKey = [0x51]\<rparr>"

definition toy_spend :: "base_uint \<Rightarrow> u32 \<Rightarrow> CTxIn" where
  "toy_spend h n = CTxIn_new \<lparr>op_hash = h, op_n = n\<rparr> [] 0"

definition toy_tx :: "u32 \<Rightarrow> CTxIn list \<Rightarrow> CTxOut list \<Rightarrow> CTransaction" where
  "toy_tx t ins os = \<lparr>tx_nVersion = 1, tx_nTime = t, vin = ins, vout = os, nLockTime = 0, tx_nDoS = 0\<rparr>"

definition coinbase1 :: CTransaction where
  "coinbase1 = toy_tx 5 [CTxIn_new COutPoint_null [1, 2] 0] [toy_out 5000, toy_out 5000]"

definition coinbase2 :: CTransaction where
  "coinbase2 = toy_tx 6 [CTxIn_new COutPoint_null [1, 2] 0] [toy_out 7000]"

definition payment2 :: CTransaction where
  "payment2 = toy_tx 7 [toy_spend (toy_id 5) 0] [toy_out 3000]"

definition coinstake2 :: CTransaction where
  "coinstake2 = toy_tx 8 [toy_spend (toy_id 5) 1] [CTxOut_empty, toy_out 1000000000000000]"

section \<open>Blocks\<close>

definition toy_block :: "byte \<Rightarrow> CTransaction list \<Rightarrow> CBlock" where
  "toy_block v txs = \<lparr>cb_nVersion = 6, cb_hashPrevBlock = replicate 8 0, cb_hashMerkleRoot = toy_id v, cb_nTime = 100,
     cb_nBits = 0x1e0fffff, cb_nNonce = 0, cb_vtx = txs, cb_vchBlockSig = [], cb_nDoS = 0\<rparr>"

definition toy_index :: "int \<Rightarrow> u32 \<Rightarrow> u64 \<Rightarrow> CBlockIndex" where
  "toy_index h p m = \<lparr>phashBlock = [], bi_nFile = 0, bi_nBlockPos = p, bi_nChainTrust = [], nHeight = h, bi_nMint = 0, bi_nMoneySupply = m,
     bi_nTx = 0, bi_nChainTx = 0, nFlags = 0, nStakeModifier = 0, nStakeModifierChecksum = 0, prevoutStake = COutPoint_null,
     nStakeTime = 0, hashProof = [], bi_nVersion = 0, bi_hashMerkleRoot = [], bi_nTime = 100, bi_nBits = 0, bi_nNonce = 0\<rparr>"

definition toy_pb1 :: pindex where "toy_pb1 = [toy_index 1 1000 0]"
definition toy_pb2 :: pindex where "toy_pb2 = [toy_index 2 2000 0, toy_index 1 1000 10000]"

definition toy_disk :: "CDiskTxPos \<Rightarrow> CTransaction option" where
  "toy_disk p =
     (if dp_nTxPos p = 1081 then Some coinbase1 else if dp_nTxPos p = 2081 then Some coinbase2
      else if dp_nTxPos p = 2148 then Some payment2 else if dp_nTxPos p = 2213 then Some coinstake2 else None)"

definition toy_env :: tx_env where
  "toy_env = \<lparr>an_crypto = toy, an_vch = \<lambda>_ _. replicate 65 0, an_outputs = Map.empty, an_spent = Map.empty, an_mempool_spent = Map.empty,
     an_in_system = \<lambda>_. True, an_ring = \<lambda>_ _ _ _ _ _. True, an_ringAB = \<lambda>_ _ _ _ _ _. True, an_nBestHeight = 100,
     te_disk = toy_disk, te_block_time = \<lambda>_ _. None, te_mempool = Map.empty, te_verify = \<lambda>_ _ _ _ _. True,
     te_nCoinbaseMaturity = 0, te_TotalBlocksEstimate = 1000, te_fTestNet = False\<rparr>"

section \<open>The transactions\<close>

lemma toy_kinds: "IsCoinBase coinbase1" "IsCoinBase coinbase2" "\<not> IsCoinBase payment2" "\<not> IsCoinBase coinstake2"
    "\<not> IsCoinStake payment2" "IsCoinStake coinstake2" "\<not> IsCoinStake coinbase1" "\<not> IsCoinStake coinbase2"
  by code_simp+

lemma toy_fields: "vout coinbase1 = [toy_out 5000, toy_out 5000]" "vout coinbase2 = [toy_out 7000]" "vout payment2 = [toy_out 3000]"
    "vout coinstake2 = [CTxOut_empty, toy_out 1000000000000000]"
    "vin payment2 = [toy_spend (toy_id 5) 0]" "vin coinstake2 = [toy_spend (toy_id 5) 1]"
    "tx_nTime coinbase1 = 5" "tx_nTime coinbase2 = 6" "tx_nTime payment2 = 7" "tx_nTime coinstake2 = 8"
    "tx_nVersion coinbase1 = 1" "tx_nVersion coinbase2 = 1" "tx_nVersion payment2 = 1" "tx_nVersion coinstake2 = 1"
  by (simp_all add: coinbase1_def coinbase2_def payment2_def coinstake2_def toy_tx_def)

lemma toy_tx_ids: "tx_id toy coinbase1 = toy_id 5" "tx_id toy coinbase2 = toy_id 6" "tx_id toy payment2 = toy_id 7"
    "tx_id toy coinstake2 = toy_id 8"
  unfolding toy_tx_id by (simp_all add: toy_fields Serialize_u32_def native_store_eq sph_enc32le_def)

lemma toy_ids_differ: "toy_id 5 \<noteq> toy_id 6" "toy_id 5 \<noteq> toy_id 7" "toy_id 5 \<noteq> toy_id 8" "toy_id 6 \<noteq> toy_id 7"
    "toy_id 6 \<noteq> toy_id 8" "toy_id 7 \<noteq> toy_id 8"
  by (simp_all add: toy_ids)

lemma toy_sigops: "GetLegacySigOpCount coinbase1 = 0" "GetLegacySigOpCount coinbase2 = 0" "GetLegacySigOpCount payment2 = 0"
    "GetLegacySigOpCount coinstake2 = 0"
  by (simp_all add: GetLegacySigOpCount_def coinbase1_def coinbase2_def payment2_def coinstake2_def toy_tx_def toy_out_def toy_spend_def
      CTxIn_new_def CTxOut_empty_def GetSigOpCount_def GetSigOpCount_loop.simps GetOp2_def)

lemma toy_values: "GetValueOut coinbase1 = Some 10000" "GetValueOut coinbase2 = Some 7000" "GetValueOut payment2 = Some 3000"
    "GetValueOut coinstake2 = Some 1000000000000000"
  by code_simp+

lemma toy_sizes: "GetSerializeSize_CTransaction coinbase1 = 77" "GetSerializeSize_CTransaction coinbase2 = 67"
    "GetSerializeSize_CTransaction payment2 = 65" "GetSerializeSize_CTransaction coinstake2 = 74"
  by code_simp+

lemma toy_tx_valid: "tx_valid coinbase1" "tx_valid coinbase2" "tx_valid payment2" "tx_valid coinstake2"
  using toy_kinds toy_sizes unfolding tx_valid_def
  by (simp_all add: coinbase1_def coinbase2_def payment2_def coinstake2_def toy_tx_def toy_out_def toy_spend_def values_ok_def
      MoneyRange_def MAX_MONEY_def COIN_def CTxIn_new_def CTxOut_IsEmpty_def CTxOut_empty_def COutPoint_IsNull_def)

lemmas toy_facts = toy_kinds toy_fields toy_tx_ids toy_ids_differ toy_ids_differ [symmetric] toy_sigops toy_values toy_sizes

section \<open>Their blocks\<close>

definition block1 :: CBlock where "block1 = toy_block 5 [coinbase1]"
definition block2 :: CBlock where "block2 = toy_block 6 [coinbase2, payment2]"
definition block3 :: CBlock where "block3 = toy_block 6 [coinbase2, payment2, coinstake2]"

lemma toy_vtx: "cb_vtx block1 = [coinbase1]" "cb_vtx block2 = [coinbase2, payment2]" "cb_vtx block3 = [coinbase2, payment2, coinstake2]"
  by (simp_all add: block1_def block2_def block3_def toy_block_def)

lemma merkle_root_left: "r \<noteq> [] \<Longrightarrow> hd r = a \<Longrightarrow> \<forall>b. H a b = a \<Longrightarrow> merkle_root H r = a"
proof (induction H r rule: merkle_root.induct)
  case (1 H r)
  show ?case
  proof (cases "length r > 1")
    case True
    then have "next_level H r \<noteq> []" "hd (next_level H r) = a"
      using 1(2-4) by (simp_all add: next_level_def hd_map hd_conv_nth)
    then show ?thesis using 1(1) [OF True] 1(4) True by (simp add: merkle_root.simps [of H r])
  qed (use 1 in \<open>simp add: merkle_root.simps [of H r]\<close>)
qed

lemma toy_roots:
  "block_merkle_root toy block1 = toy_id 5" "block_merkle_root toy block2 = toy_id 6" "block_merkle_root toy block3 = toy_id 6"
  unfolding block_merkle_root_def block1_def block2_def block3_def toy_block_def
  by (simp_all add: BuildMerkleTree_root toy_facts merkle_root_left toy_Hash2)

lemma toy_block_valid: "block_valid tn toy (\<lambda>_. replicate 8 0) 0 True True False block1"
    "block_valid tn toy (\<lambda>_. replicate 8 0) 0 True True False block2"
    "block_valid tn toy (\<lambda>_. replicate 8 0) 0 True True False block3"
proof -
  have w: "0 < compact_val 0x1e0fffff" "compact_val 0x1e0fffff \<le> pow_limit tn" by (simp_all add: compact_val_def pow_limit_def)
  note d = block_valid_def cb_IsProofOfStake_def GetSerializeSize_CBlock_def GetSerializeSize_vec_def GetSerializeSize_bytes_def
    GetSizeOfCompactSize_def bu_eq_same_length toy_roots
  show "block_valid tn toy (\<lambda>_. replicate 8 0) 0 True True False block1"
    unfolding d using w toy_tx_valid by (simp add: block1_def toy_block_def toy_facts bu_eq_same_length)
  show "block_valid tn toy (\<lambda>_. replicate 8 0) 0 True True False block2"
    unfolding d using w toy_tx_valid by (simp add: block2_def toy_block_def toy_facts bu_eq_same_length less_Suc_eq)
  show "block_valid tn toy (\<lambda>_. replicate 8 0) 0 True True False block3"
    unfolding d using w toy_tx_valid by (simp add: block3_def toy_block_def toy_facts bu_eq_same_length less_Suc_eq)
qed

section \<open>Connecting the blocks\<close>

definition entry1 :: "CDiskTxPos \<Rightarrow> CDiskTxPos \<Rightarrow> CTxIndex" where
  "entry1 p q = \<lparr>ti_pos = this_pos toy_pb1 1081, ti_vSpent = [p, q]\<rparr>"

abbreviation spent2 :: CDiskTxPos where "spent2 \<equiv> this_pos toy_pb2 2148"
abbreviation spent3 :: CDiskTxPos where "spent3 \<equiv> this_pos toy_pb2 2213"

definition index1 :: CTxDB where
  "index1 = [toy_id 5 \<mapsto> entry1 CDiskTxPos_null CDiskTxPos_null]"

definition queue2 :: CTxDB where
  "queue2 = [toy_id 6 \<mapsto> CTxIndex_new (this_pos toy_pb2 2081) 1, toy_id 5 \<mapsto> entry1 spent2 CDiskTxPos_null,
     toy_id 7 \<mapsto> CTxIndex_new spent2 1]"

definition queue3 :: CTxDB where
  "queue3 = queue2(toy_id 5 \<mapsto> entry1 spent2 spent3, toy_id 8 \<mapsto> CTxIndex_new spent3 2)"

definition toy_state :: "u32 \<Rightarrow> CTxDB \<Rightarrow> u64 \<Rightarrow> u64 \<Rightarrow> u64 \<Rightarrow> u64 \<Rightarrow> connect_state" where
  "toy_state p d f vi vo r = \<lparr>cs_nTxPos = p, cs_mapQueuedChanges = d, cs_nFees = f, cs_nValueIn = vi, cs_nValueOut = vo,
     cs_nAmountBurned = 0, cs_nStakeReward = r, cs_nSigOps = 0\<rparr>"

lemma toy_first: "first_pos toy_pb1 block1 = 1081" "first_pos toy_pb2 block2 = 2081" "first_pos toy_pb2 block3 = 2081"
  by code_simp+

lemma toy_start: "state0 toy_pb1 block1 = toy_state 1081 Map.empty 0 0 0 0" "state0 toy_pb2 block2 = toy_state 2081 Map.empty 0 0 0 0"
    "state0 toy_pb2 block3 = toy_state 2081 Map.empty 0 0 0 0"
  by (simp_all add: state0_def toy_state_def toy_first)

lemma pos1: "this_pos toy_pb1 1081 = \<lparr>dp_nFile = 0, dp_nBlockPos = 1000, dp_nTxPos = 1081\<rparr>"
  by (simp add: toy_pb1_def toy_index_def this_pos_def)

lemma run1:
  "ConnectBlock_txs toy_env Map.empty toy_pb1 False SCRIPT_VERIFY_NOCACHE (cb_vtx block1) (state0 toy_pb1 block1) =
    Inr (toy_state 1158 index1 0 0 10000 0)"
  unfolding toy_start
  by (simp add: block1_def toy_block_def ConnectBlock_tx_def toy_state_def ReadTxIndex_def toy_env_def toy_facts MAX_BLOCK_SIGOPS_def
      this_pos_def CTxIndex_new_def index1_def entry1_def)

lemma fetch2:
  "FetchInputs toy_env index1 [toy_id 6 \<mapsto> CTxIndex_new (this_pos toy_pb2 2081) 1] True False payment2 Map.empty =
    Inr [toy_id 5 \<mapsto> (entry1 CDiskTxPos_null CDiskTxPos_null, coinbase1)]"
  by (simp add: FetchInputs_def toy_facts ANON_TXN_VERSION_def toy_spend_def CTxIn_new_def ReadTxIndex_def CDiskTxPos_eq_def
      pos_mempool_def toy_env_def toy_disk_def prevout_in_range_def index1_def entry1_def pos1)

lemma fetch3:
  "FetchInputs toy_env index1 queue2 True False coinstake2 Map.empty =
    Inr [toy_id 5 \<mapsto> (entry1 spent2 CDiskTxPos_null, coinbase1)]"
  by (simp add: FetchInputs_def toy_facts ANON_TXN_VERSION_def toy_spend_def CTxIn_new_def ReadTxIndex_def CDiskTxPos_eq_def
      pos_mempool_def toy_env_def toy_disk_def prevout_in_range_def index1_def queue2_def entry1_def pos1)

lemma fee2: "GetMinFee payment2 1 GMF_BLOCK 0 = 1000"
  by code_simp

lemma connect2:
  "ConnectInputs toy_env payment2 [toy_id 5 \<mapsto> (entry1 CDiskTxPos_null CDiskTxPos_null, coinbase1)] q spent2 toy_pb2 True False f True =
    (None, 0, q(toy_id 5 \<mapsto> entry1 spent2 CDiskTxPos_null))"
  by (simp add: ConnectInputs_def toy_facts ANON_TXN_VERSION_def toy_spend_def CTxIn_new_def immature_def ConnectInputs_verify_def
      toy_env_def toy_pb2_def toy_index_def MoneyRange_def MAX_MONEY_def COIN_def toy_out_def ConnectInputs_fees_def fee2
      CDiskTxPos_IsNull_def CDiskTxPos_null_def entry1_def)

lemma connect3:
  "ConnectInputs toy_env coinstake2 [toy_id 5 \<mapsto> (entry1 spent2 CDiskTxPos_null, coinbase1)] q spent3 toy_pb2 True False f True =
    (None, 0, q(toy_id 5 \<mapsto> entry1 spent2 spent3))"
  by (simp add: ConnectInputs_def toy_facts ANON_TXN_VERSION_def toy_spend_def CTxIn_new_def immature_def ConnectInputs_verify_def
      toy_env_def toy_pb2_def toy_index_def MoneyRange_def MAX_MONEY_def COIN_def toy_out_def
      CDiskTxPos_IsNull_def CDiskTxPos_null_def entry1_def)

lemma step_coinbase2:
  "ConnectBlock_tx toy_env index1 toy_pb2 False SCRIPT_VERIFY_NOCACHE coinbase2 (toy_state 2081 Map.empty 0 0 0 0) =
    Inr (toy_state 2148 [toy_id 6 \<mapsto> CTxIndex_new (this_pos toy_pb2 2081) 1] 0 0 7000 0)"
  by (simp add: ConnectBlock_tx_def toy_state_def ReadTxIndex_def toy_env_def toy_facts MAX_BLOCK_SIGOPS_def this_pos_def index1_def)

lemma toy_crypto: "an_crypto toy_env = toy"
  by (simp add: toy_env_def)

lemma unburned: "\<not> CScript_IsUnspendable (scriptPubKey (toy_out v))" "\<not> CScript_IsUnspendable (scriptPubKey CTxOut_empty)"
  by (simp_all add: CScript_IsUnspendable_def toy_out_def CTxOut_empty_def)

lemma values2: "GetP2SHSigOpCount payment2 [toy_id 5 \<mapsto> (t, coinbase1)] = Some 0"
    "GetValueIn payment2 [toy_id 5 \<mapsto> (t, coinbase1)] = Some 5000"
    "GetP2SHSigOpCount coinstake2 [toy_id 5 \<mapsto> (t, coinbase1)] = Some 0"
    "GetValueIn coinstake2 [toy_id 5 \<mapsto> (t, coinbase1)] = Some 5000"
  by (simp_all add: GetP2SHSigOpCount_def GetValueIn_def GetOutputFor_def toy_facts toy_spend_def CTxIn_new_def toy_out_def
      IsPayToScriptHash_def ANON_TXN_VERSION_def)

lemma spend_payment2:
  "ConnectBlock_spend toy_env index1 toy_pb2 SCRIPT_VERIFY_NOCACHE spent2 payment2
      (toy_state 2213 [toy_id 6 \<mapsto> CTxIndex_new (this_pos toy_pb2 2081) 1] 0 0 7000 0) =
    Inr (toy_state 2213 [toy_id 6 \<mapsto> CTxIndex_new (this_pos toy_pb2 2081) 1, toy_id 5 \<mapsto> entry1 spent2 CDiskTxPos_null]
      2000 5000 10000 0)"
  unfolding ConnectBlock_spend_def
  by (simp add: toy_state_def fetch2 [simplified] connect2 [simplified] values2 toy_facts unburned MAX_BLOCK_SIGOPS_def ANON_TXN_VERSION_def)

lemma spend_coinstake2:
  "ConnectBlock_spend toy_env index1 toy_pb2 SCRIPT_VERIFY_NOCACHE spent3 coinstake2 (toy_state 2287 queue2 2000 5000 10000 0) =
    Inr (toy_state 2287 (queue2(toy_id 5 \<mapsto> entry1 spent2 spent3)) 2000 10000 1000000000010000 999999999995000)"
  unfolding ConnectBlock_spend_def
  by (simp add: toy_state_def fetch3 connect3 values2 toy_facts unburned MAX_BLOCK_SIGOPS_def ANON_TXN_VERSION_def)

lemma ConnectBlock_tx_spend:
  assumes "\<not> IsCoinBase tx" and "txdb (tx_id (an_crypto E) tx) = None" and "cs_nSigOps st + GetLegacySigOpCount tx \<le> MAX_BLOCK_SIGOPS"
    and "ConnectBlock_spend E txdb pb flags (this_pos pb (cs_nTxPos st)) tx
      (st\<lparr>cs_nSigOps := cs_nSigOps st + GetLegacySigOpCount tx,
        cs_nTxPos := cs_nTxPos st + of_nat (GetSerializeSize_CTransaction tx)\<rparr>) = Inr st'"
  shows "ConnectBlock_tx E txdb pb False flags tx st =
    Inr (st'\<lparr>cs_mapQueuedChanges := (cs_mapQueuedChanges st')(tx_id (an_crypto E) tx \<mapsto>
      CTxIndex_new (this_pos pb (cs_nTxPos st)) (length (vout tx)))\<rparr>)"
  using assms unfolding ConnectBlock_tx_def by (simp add: Let_def ReadTxIndex_def this_pos_def)

lemma step_payment2:
  "ConnectBlock_tx toy_env index1 toy_pb2 False SCRIPT_VERIFY_NOCACHE payment2
      (toy_state 2148 [toy_id 6 \<mapsto> CTxIndex_new (this_pos toy_pb2 2081) 1] 0 0 7000 0) =
    Inr (toy_state 2213 queue2 2000 5000 10000 0)"
proof -
  let ?s = "toy_state 2213 [toy_id 6 \<mapsto> CTxIndex_new (this_pos toy_pb2 2081) 1, toy_id 5 \<mapsto> entry1 spent2 CDiskTxPos_null]
      2000 5000 10000 0"
  show ?thesis
    by (subst ConnectBlock_tx_spend [where st' = ?s])
      (use spend_payment2 in \<open>simp_all add: toy_facts toy_crypto index1_def toy_state_def queue2_def MAX_BLOCK_SIGOPS_def\<close>)
qed

lemma step_coinstake2:
  "ConnectBlock_tx toy_env index1 toy_pb2 False SCRIPT_VERIFY_NOCACHE coinstake2 (toy_state 2213 queue2 2000 5000 10000 0) =
    Inr (toy_state 2287 queue3 2000 10000 1000000000010000 999999999995000)"
proof -
  let ?s = "toy_state 2287 (queue2(toy_id 5 \<mapsto> entry1 spent2 spent3)) 2000 10000 1000000000010000 999999999995000"
  show ?thesis
    by (subst ConnectBlock_tx_spend [where st' = ?s])
      (use spend_coinstake2 in \<open>simp_all add: toy_facts toy_crypto index1_def toy_state_def queue3_def MAX_BLOCK_SIGOPS_def numeral_2_eq_2\<close>)
qed

section \<open>The chains\<close>

abbreviation zero_pow :: "byte list \<Rightarrow> base_uint" where "zero_pow \<equiv> \<lambda>_. replicate 8 0"

lemma toy_ConnectBlock:
  assumes c: "an_crypto E = toy" and "block_valid (te_fTestNet E) toy zero_pow 0 True True False b"
    and run: "ConnectBlock_txs E txdb pb False SCRIPT_VERIFY_NOCACHE (cb_vtx b) (state0 pb b) = Inr st"
    and "ConnectBlock_reward int_bn E txdb pb b st = None" and "0 \<le> sint (bi_nMoneySupply (set_supply pb st))"
  shows "ConnectBlock int_bn zero_pow 0 E (\<lambda>_. None) txdb pb False b = Inr (set_supply pb st, txdb ++ cs_mapQueuedChanges st)"
proof -
  have "fst (CheckBlock int_bn (te_fTestNet E) toy zero_pow 0 True True False b)"
    using CheckBlock_spec(1) [where pow = zero_pow and b = b, OF openssl_int_bn] assms(2) by simp
  then obtain b' where "CheckBlock int_bn (te_fTestNet E) toy zero_pow 0 True True False b = (True, b')"
    by (cases "CheckBlock int_bn (te_fTestNet E) toy zero_pow 0 True True False b") auto
  then show ?thesis
    using assms(4,5) run unfolding ConnectBlock_def state0_def first_pos_def by (simp add: Let_def c)
qed

lemma toy_connect:
  "ConnectBlock int_bn zero_pow 0 toy_env (\<lambda>_. None) Map.empty toy_pb1 False block1 =
    Inr (set_supply toy_pb1 (toy_state 1158 index1 0 0 10000 0), index1)"
  "ConnectBlock int_bn zero_pow 0 toy_env (\<lambda>_. None) index1 toy_pb2 False block2 =
    Inr (set_supply toy_pb2 (toy_state 2213 queue2 2000 5000 10000 0), index1 ++ queue2)"
  "ConnectBlock int_bn zero_pow 0 toy_env (\<lambda>_. None) index1 toy_pb2 False block3 =
    Inr (set_supply toy_pb2 (toy_state 2287 queue3 2000 10000 1000000000010000 999999999995000), index1 ++ queue3)"
proof -
  have run2: "ConnectBlock_txs toy_env index1 toy_pb2 False SCRIPT_VERIFY_NOCACHE (cb_vtx block2) (state0 toy_pb2 block2) =
      Inr (toy_state 2213 queue2 2000 5000 10000 0)"
    by (simp add: toy_start toy_vtx step_coinbase2 [simplified] step_payment2 [simplified])
  have run3: "ConnectBlock_txs toy_env index1 toy_pb2 False SCRIPT_VERIFY_NOCACHE (cb_vtx block3) (state0 toy_pb2 block3) =
      Inr (toy_state 2287 queue3 2000 10000 1000000000010000 999999999995000)"
    by (simp add: toy_start toy_vtx step_coinbase2 [simplified] step_payment2 [simplified] step_coinstake2)
  note s = set_supply_def toy_state_def toy_pb1_def toy_pb2_def toy_index_def
  note r = ConnectBlock_reward_def cb_IsProofOfWork_def cb_IsProofOfStake_def toy_block_def toy_facts toy_state_def toy_env_def
    GetProofOfWorkReward_def COIN_def c_div_def
  show "ConnectBlock int_bn zero_pow 0 toy_env (\<lambda>_. None) Map.empty toy_pb1 False block1 =
      Inr (set_supply toy_pb1 (toy_state 1158 index1 0 0 10000 0), index1)"
    by (subst toy_ConnectBlock [OF toy_crypto toy_block_valid(1) run1]) (simp_all add: s, simp_all add: r block1_def)
  show "ConnectBlock int_bn zero_pow 0 toy_env (\<lambda>_. None) index1 toy_pb2 False block2 =
      Inr (set_supply toy_pb2 (toy_state 2213 queue2 2000 5000 10000 0), index1 ++ queue2)"
    by (subst toy_ConnectBlock [OF toy_crypto toy_block_valid(2) run2]) (simp_all add: s, simp_all add: r block2_def)
  show "ConnectBlock int_bn zero_pow 0 toy_env (\<lambda>_. None) index1 toy_pb2 False block3 =
      Inr (set_supply toy_pb2 (toy_state 2287 queue3 2000 10000 1000000000010000 999999999995000), index1 ++ queue3)"
    by (subst toy_ConnectBlock [OF toy_crypto toy_block_valid(3) run3]) (simp_all add: s, simp_all add: r block3_def)
qed

lemma toy_arrives: "block_arrives toy toy_disk Map.empty toy_pb1 block1" "block_arrives toy toy_disk index1 toy_pb2 block2"
    "block_arrives toy toy_disk index1 toy_pb2 block3"
  by (simp_all add: block_arrives_def toy_first) 
    (simp_all add: block1_def block2_def block3_def toy_block_def toy_facts toy_pb1_def toy_pb2_def toy_index_def
      toy_disk_def this_pos_def pos_mempool_def ANON_TXN_VERSION_def index1_def)

lemma toy_chain:
  "chain_state int_bn zero_pow toy toy_disk index1 [(toy_env, toy_pb1, block1)]"
  "chain_state int_bn zero_pow toy toy_disk (index1 ++ queue2) [(toy_env, toy_pb2, block2), (toy_env, toy_pb1, block1)]"
  "chain_state int_bn zero_pow toy toy_disk (index1 ++ queue3) [(toy_env, toy_pb2, block3), (toy_env, toy_pb1, block1)]"
proof -
  have e: "te_disk toy_env = toy_disk" by (simp add: toy_env_def)
  show 1: "chain_state int_bn zero_pow toy toy_disk index1 [(toy_env, toy_pb1, block1)]"
    by (rule chain_connect [OF chain_empty toy_crypto e toy_arrives(1) _ toy_connect(1)]) simp
  show "chain_state int_bn zero_pow toy toy_disk (index1 ++ queue2) [(toy_env, toy_pb2, block2), (toy_env, toy_pb1, block1)]"
    by (rule chain_connect [OF 1 toy_crypto e toy_arrives(2) _ toy_connect(2)]) simp
  show "chain_state int_bn zero_pow toy toy_disk (index1 ++ queue3) [(toy_env, toy_pb2, block3), (toy_env, toy_pb1, block1)]"
    by (rule chain_connect [OF 1 toy_crypto e toy_arrives(3) _ toy_connect(3)]) simp
qed

text \<open>
  A coinstake behind the second position of a block with proof of work is not checked: its value is
  neither compared with its inputs nor with a reward. Here two blocks that may create 1 coin make
  more than ten million.
\<close>

lemma coin_value_le_total:
  assumes "store_ok disk d" and "d h = Some ti"
  shows "coin_value disk ti \<le> total disk d"
proof -
  have "coin_value disk (the (d h)) \<le> (\<Sum>k \<in> dom d. coin_value disk (the (d k)))"
    using assms by (intro member_le_sum) (auto simp: store_ok_def intro!: coin_value_nonneg)
  then show ?thesis using assms(2) by (simp add: total_def)
qed

lemma coinstake_unchecked:
  "chain_state int_bn zero_pow toy toy_disk (index1 ++ queue3) [(toy_env, toy_pb2, block3), (toy_env, toy_pb1, block1)] \<and>
   minted int_bn toy [(toy_env, toy_pb2, block3), (toy_env, toy_pb1, block1)] = COIN \<and>
   10000000 * COIN \<le> total toy_disk (index1 ++ queue3)"
proof (intro conjI toy_chain(3))
  show "minted int_bn toy [(toy_env, toy_pb2, block3), (toy_env, toy_pb1, block1)] = COIN"
    by (simp add: mint_def cb_IsProofOfWork_def cb_IsProofOfStake_def toy_vtx toy_facts GetProofOfWorkReward_def toy_env_def
        FAIR_LAUNCH_BLOCK_def COIN_def c_div_def)
  have ok: "store_ok toy_disk (index1 ++ queue3)"
    using openssl_bn.direct_index [OF openssl_int_bn openssl_bn.chain_direct [OF openssl_int_bn toy_chain(3)]] by blast
  have e: "(index1 ++ queue3) (toy_id 8) = Some (CTxIndex_new spent3 (length (vout coinstake2)))"
    by (simp add: queue3_def toy_facts numeral_2_eq_2)
  have "toy_disk spent3 = Some coinstake2" by (simp add: toy_disk_def this_pos_def)
  from coin_value_new [where disk = toy_disk, OF this] coin_value_le_total [OF ok e]
  show "10000000 * COIN \<le> total toy_disk (index1 ++ queue3)"
    by (simp add: toy_facts COIN_def CTxOut_empty_def toy_out_def)
qed

section \<open>Anonymous inputs\<close>

text \<open>
  The key images of a block are not remembered before the block is connected, so that two of its
  transactions may spend the same anonymous output.
\<close>

definition anon_in :: CTxIn where
  "anon_in = CTxIn_new \<lparr>op_hash = replicate 8 1, op_n = 0x10002\<rparr> ([OP_RETURN, OP_ANON_MARKER] @ replicate 97 0) 0"

definition anon2 :: CTransaction where "anon2 = (toy_tx 7 [anon_in] [toy_out 1000])\<lparr>tx_nVersion := ANON_TXN_VERSION\<rparr>"
definition anon3 :: CTransaction where "anon3 = (toy_tx 8 [anon_in] [toy_out 1000])\<lparr>tx_nVersion := ANON_TXN_VERSION\<rparr>"

definition toy_pb4 :: pindex where "toy_pb4 = [toy_index 2 2000 0, toy_index 1 1000 1000000000000000]"

definition block4 :: CBlock where "block4 = toy_block 6 [coinbase2, anon2, anon3]"

definition anon_toy_env :: tx_env where
  "anon_toy_env = toy_env\<lparr>an_outputs :=
     \<lambda>_. Some \<lparr>ao_outpoint = COutPoint_null, ao_nValue = 10000000000, ao_nBlockHeight = 5, ao_nCompromised = 0\<rparr>\<rparr>"

lemma anon_checked: "CheckAnonInputs anon_toy_env anon2 True = (True, 10000000000)"
    "CheckAnonInputs anon_toy_env anon3 True = (True, 10000000000)" "IsAnonInput anon_in"
  by code_simp+

lemma anon_kinds: "\<not> IsCoinBase anon2" "\<not> IsCoinBase anon3" "\<not> IsCoinStake anon2" "\<not> IsCoinStake anon3"
    "GetSerializeSize_CTransaction anon2 = 164" "GetSerializeSize_CTransaction anon3 = 164"
    "GetMinFee anon2 1 GMF_BLOCK 0 = 10000" "GetMinFee anon3 1 GMF_BLOCK 0 = 10000"
  by code_simp+

lemma anon_fields: "vin anon2 = [anon_in]" "vin anon3 = [anon_in]" "vout anon2 = [toy_out 1000]" "vout anon3 = [toy_out 1000]"
    "tx_nVersion anon2 = ANON_TXN_VERSION" "tx_nVersion anon3 = ANON_TXN_VERSION" "tx_nTime anon2 = 7" "tx_nTime anon3 = 8"
    "GetValueOut anon2 = Some 1000" "GetValueOut anon3 = Some 1000"
  by (simp_all add: anon2_def anon3_def toy_tx_def GetValueOut_def toy_out_def MoneyRange_def MAX_MONEY_def COIN_def)

lemma anon_ids: "tx_id toy anon2 = toy_id 7" "tx_id toy anon3 = toy_id 8"
  unfolding toy_tx_id by (simp_all add: anon_fields Serialize_u32_def native_store_eq sph_enc32le_def)

lemma anon_sigops: "GetLegacySigOpCount anon2 = 0" "GetLegacySigOpCount anon3 = 0"
  by code_simp+

lemma spend_anon:
  assumes "tx = anon2 \<or> tx = anon3"
  shows "ConnectBlock_spend anon_toy_env index1 toy_pb4 SCRIPT_VERIFY_NOCACHE p tx (toy_state n q f vi vo 0) =
    Inr (toy_state n q (f + 9999999000) (vi + 10000000000) (vo + 1000) 0)"
  using assms unfolding ConnectBlock_spend_def
  by (elim disjE) (simp_all add: toy_state_def FetchInputs_def anon_kinds anon_fields anon_checked GetP2SHSigOpCount_def GetValueIn_def
      MAX_BLOCK_SIGOPS_def ConnectInputs_def ConnectInputs_fees_def unburned MoneyRange_def MAX_MONEY_def COIN_def)

lemma block4_vtx: "cb_vtx block4 = [coinbase2, anon2, anon3]"
  by (simp add: block4_def toy_block_def)

lemma block4_valid: "block_valid tn toy zero_pow 0 True True False block4"
proof -
  have w: "0 < compact_val 0x1e0fffff" "compact_val 0x1e0fffff \<le> pow_limit tn" by (simp_all add: compact_val_def pow_limit_def)
  have v: "tx_valid anon2" "tx_valid anon3"
    using anon_kinds unfolding tx_valid_def
    by (simp_all add: anon_fields toy_out_def values_ok_def MoneyRange_def MAX_MONEY_def COIN_def CTxOut_IsEmpty_def anon_in_def
        CTxIn_new_def COutPoint_IsNull_def IsAnonOutput_def MIN_ANON_OUT_SIZE_def)
  have root: "block_merkle_root toy block4 = toy_id 6"
    unfolding block_merkle_root_def block4_vtx by (simp add: BuildMerkleTree_root toy_facts merkle_root_left toy_Hash2)
  show ?thesis
    unfolding block_valid_def cb_IsProofOfStake_def GetSerializeSize_CBlock_def root block4_vtx
    using w v toy_tx_valid
    by (simp add: block4_def toy_block_def toy_facts anon_kinds anon_fields anon_ids anon_sigops less_Suc_eq bu_eq_same_length
        GetSerializeSize_vec_def GetSerializeSize_bytes_def GetSizeOfCompactSize_def)
qed

lemma step_anon:
  assumes "tx = anon2 \<or> tx = anon3"
  shows "ConnectBlock_tx anon_toy_env index1 toy_pb4 False SCRIPT_VERIFY_NOCACHE tx (toy_state n q f vi vo 0) =
    Inr (toy_state (n + 164) (q(tx_id toy tx \<mapsto> CTxIndex_new (this_pos toy_pb4 n) 1)) (f + 9999999000) (vi + 10000000000) (vo + 1000) 0)"
proof -
  let ?s = "toy_state (n + 164) q (f + 9999999000) (vi + 10000000000) (vo + 1000) 0"
  have c: "an_crypto anon_toy_env = toy" by (simp add: anon_toy_env_def toy_env_def)
  have s: "ConnectBlock_spend anon_toy_env index1 toy_pb4 SCRIPT_VERIFY_NOCACHE (this_pos toy_pb4 n) tx (toy_state (n + 164) q f vi vo 0) = Inr ?s"
    by (rule spend_anon [OF assms])
  show ?thesis
    by (subst ConnectBlock_tx_spend [where st' = ?s])
      (use assms s in \<open>auto simp: anon_kinds anon_sigops anon_ids anon_fields c index1_def toy_state_def toy_facts MAX_BLOCK_SIGOPS_def\<close>)
qed

lemma key_image_twice:
  "map ExtractKeyImage (vin anon2) = map ExtractKeyImage (vin anon3) \<and> tx_id toy anon2 \<noteq> tx_id toy anon3 \<and>
   \<not> isl (ConnectBlock int_bn zero_pow 0 anon_toy_env (\<lambda>_. None) index1 toy_pb4 False block4)"
proof (intro conjI)
  show "map ExtractKeyImage (vin anon2) = map ExtractKeyImage (vin anon3)" "tx_id toy anon2 \<noteq> tx_id toy anon3"
    by (simp_all add: anon_fields anon_ids toy_facts)
  have c: "an_crypto anon_toy_env = toy" by (simp add: anon_toy_env_def toy_env_def)
  have "first_pos toy_pb4 block4 = 2081" by code_simp
  then have z: "state0 toy_pb4 block4 = toy_state 2081 Map.empty 0 0 0 0" by (simp add: state0_def toy_state_def)
  have cb: "ConnectBlock_tx anon_toy_env index1 toy_pb4 False SCRIPT_VERIFY_NOCACHE coinbase2 (toy_state 2081 Map.empty 0 0 0 0) =
      Inr (toy_state 2148 [toy_id 6 \<mapsto> CTxIndex_new (this_pos toy_pb4 2081) 1] 0 0 7000 0)"
    by (simp add: ConnectBlock_tx_def toy_state_def ReadTxIndex_def c toy_facts MAX_BLOCK_SIGOPS_def this_pos_def index1_def)
  obtain q where run: "ConnectBlock_txs anon_toy_env index1 toy_pb4 False SCRIPT_VERIFY_NOCACHE (cb_vtx block4) (state0 toy_pb4 block4) =
      Inr (toy_state 2476 q 19999998000 20000000000 9000 0)"
    by (simp add: block4_vtx z cb [simplified] step_anon)
  have "ConnectBlock int_bn zero_pow 0 anon_toy_env (\<lambda>_. None) index1 toy_pb4 False block4 =
      Inr (set_supply toy_pb4 (toy_state 2476 q 19999998000 20000000000 9000 0),
        index1 ++ cs_mapQueuedChanges (toy_state 2476 q 19999998000 20000000000 9000 0))"
  proof (rule toy_ConnectBlock [OF c block4_valid run])
    show "ConnectBlock_reward int_bn anon_toy_env index1 toy_pb4 block4 (toy_state 2476 q 19999998000 20000000000 9000 0) = None"
      by (simp add: ConnectBlock_reward_def cb_IsProofOfWork_def cb_IsProofOfStake_def block4_vtx anon_kinds toy_facts toy_state_def
          anon_toy_env_def toy_env_def GetProofOfWorkReward_def FAIR_LAUNCH_BLOCK_def COIN_def c_div_def)
    show "0 \<le> sint (bi_nMoneySupply (set_supply toy_pb4 (toy_state 2476 q 19999998000 20000000000 9000 0)))"
      by (simp add: set_supply_def toy_state_def toy_pb4_def toy_index_def)
  qed
  then show "\<not> isl (ConnectBlock int_bn zero_pow 0 anon_toy_env (\<lambda>_. None) index1 toy_pb4 False block4)" by simp
qed

end
