(* ===== verification/Anon_Props.thy ===== *)
theory Anon_Props
  imports Anon Transaction_Props
begin

text \<open>
  The laws of anonymous inputs: what an accepted input stands for, the value an accepted transaction
  brings in, and that its key images differ.
\<close>

section \<open>Rings\<close>

text \<open>A member of a ring whose coins have a value: a known output, deep enough in the chain.\<close>

definition member_ok :: "'a anon_env_scheme \<Rightarrow> u64 \<Rightarrow> byte list \<Rightarrow> bool" where
  "member_ok E v pk \<longleftrightarrow> (\<exists>ao. ReadAnonOutput E pk = Some ao \<and> ao_nValue ao = v \<and> ao_nBlockHeight ao \<noteq> 0 \<and>
     ao_nBlockHeight ao + 10 \<le> an_nBestHeight E)"

text \<open>The value \<open>- 1\<close> marks that no member was seen; no output has it.\<close>

definition coins_ok :: "'a anon_env_scheme \<Rightarrow> bool" where
  "coins_ok E \<longleftrightarrow> (\<forall>pk ao. an_outputs E pk = Some ao \<longrightarrow> ao_nValue ao \<noteq> - 1)"

text \<open>A compressed key is looked up under its own bytes, whatever the object held before.\<close>

lemma compressed_key_bytes:
  assumes "length p = 33" and "p ! 0 = 2 \<or> p ! 0 = 3"
  shows "CPubKey_bytes (CPubKey_copy vch p) = p"
  using assms by (auto simp: CPubKey_bytes_def CPubKey_copy_def CPubKey_GetLen_def nth_append)

lemma ring_value_members:
  "coins_ok E \<Longrightarrow> ring_value E u pks = Some v \<longleftrightarrow>
    (if pks = [] then v = u else (\<forall>pk \<in> set pks. member_ok E v pk) \<and> (u = - 1 \<or> u = v))"
proof (induction E u pks rule: ring_value.induct)
  case (2 E u pk r)
  show ?case
  proof (cases "ReadAnonOutput E pk")
    case (Some ao)
    then have n: "ao_nValue ao \<noteq> - 1" using "2.prems" by (auto simp: coins_ok_def ReadAnonOutput_def)
    let ?u = "if u = - 1 then ao_nValue ao else u"
    show ?thesis
    proof (cases "(u = - 1 \<or> u = ao_nValue ao) \<and> ao_nBlockHeight ao \<noteq> 0 \<and> ao_nBlockHeight ao + 10 \<le> an_nBestHeight E")
      case True
      then have "ring_value E u (pk # r) = ring_value E ?u r" using Some by (auto simp: MIN_ANON_SPEND_DEPTH_def)
      moreover have "ring_value E ?u r = Some v \<longleftrightarrow>
          (if r = [] then v = ?u else (\<forall>pk \<in> set r. member_ok E v pk) \<and> (?u = - 1 \<or> ?u = v))"
        using "2.IH" [OF Some] True "2.prems" by (auto simp: MIN_ANON_SPEND_DEPTH_def)
      ultimately show ?thesis using True Some n by (auto simp: member_ok_def)
    next
      case False
      then have "ring_value E u (pk # r) = None" using Some by (auto simp: MIN_ANON_SPEND_DEPTH_def)
      then show ?thesis using False Some by (auto simp: member_ok_def)
    qed
  qed (simp add: member_ok_def)
qed auto

section \<open>One input\<close>

definition ring_size :: "CTxIn \<Rightarrow> int" where
  "ring_size i = sint (ExtractRingSize i)"

text \<open>The two forms of a ring signature, told apart by the size of the script.\<close>

definition form_AB :: "CTxIn \<Rightarrow> bool" where
  "form_AB i \<longleftrightarrow> 1 < ring_size i \<and> length (scriptSig i) = 34 + 65 * nat (ring_size i)"

definition ring_members :: "'a anon_env_scheme \<Rightarrow> CTxIn \<Rightarrow> byte list list" where
  "ring_members E i =
     ring_keys E (ExtractKeyImage i) (nat (ring_size i)) (drop (if form_AB i then 34 + 32 * nat (ring_size i) else 2) (scriptSig i))"

definition ring_signed :: "'a anon_env_scheme \<Rightarrow> base_uint \<Rightarrow> CTxIn \<Rightarrow> bool" where
  "ring_signed E preimage i =
     (let n = nat (ring_size i); s = scriptSig i
      in if form_AB i
         then an_ringAB E (ExtractKeyImage i) preimage n (take (33 * n) (drop (34 + 32 * n) s)) (take 32 (drop 2 s)) (take (32 * n) (drop 34 s))
         else 2 + 97 * n \<le> length s \<and>
              an_ring E (ExtractKeyImage i) preimage n (take (33 * n) (drop 2 s)) (take (32 * n) (drop (2 + 33 * n) s))
                (take (32 * n) (drop (2 + 65 * n) s)))"

text \<open>The key image was not spent by another transaction that the node knows.\<close>

definition image_free :: "'a anon_env_scheme \<Rightarrow> base_uint \<Rightarrow> bool \<Rightarrow> CTxIn \<Rightarrow> bool" where
  "image_free E h fCheckExists i \<longleftrightarrow>
     (\<forall>spent. GetKeyImage E (ExtractKeyImage i) = Some spent \<longrightarrow>
        ki_txnHash spent = h \<or> fCheckExists \<and> \<not> an_in_system E (ki_txnHash spent))"

definition anon_input_ok :: "'a anon_env_scheme \<Rightarrow> base_uint \<Rightarrow> base_uint \<Rightarrow> bool \<Rightarrow> CTxIn \<Rightarrow> u64 \<Rightarrow> bool" where
  "anon_input_ok E h preimage fCheckExists i v \<longleftrightarrow>
     image_free E h fCheckExists i \<and> 1 \<le> ring_size i \<and> ring_size i \<le> (if an_nBestHeight E \<noteq> 0 then 32 else 200) \<and>
     (\<forall>pk \<in> set (ring_members E i). member_ok E v pk) \<and> ring_signed E preimage i"

lemma anon_input_run:
  assumes "coins_ok E" and "1 \<le> ring_size i"
  shows "(if form_AB i then CheckAnonInputAB E i (nat (ring_size i)) (ExtractKeyImage i) preimage (- 1)
      else CheckAnonInput E i (nat (ring_size i)) (ExtractKeyImage i) preimage (- 1)) = Some v \<longleftrightarrow>
    (\<forall>pk \<in> set (ring_members E i). member_ok E v pk) \<and> ring_signed E preimage i"
proof -
  have "ring_keys E (ExtractKeyImage i) (nat (ring_size i)) p \<noteq> []" for p using assms(2) by (simp add: ring_keys_def)
  then have r: "ring_value E (- 1) (ring_keys E (ExtractKeyImage i) (nat (ring_size i)) p) = Some v \<longleftrightarrow>
      (\<forall>pk \<in> set (ring_keys E (ExtractKeyImage i) (nat (ring_size i)) p). member_ok E v pk)" for p
    by (simp add: ring_value_members [OF assms(1)])
  note d = ring_members_def ring_signed_def Let_def ec_secret_size_def ec_compressed_size_def r [symmetric]
  show ?thesis
  proof (cases "form_AB i")
    case True
    then show ?thesis by (simp add: CheckAnonInputAB_def d mult.commute split: option.split)
  next
    case False
    then show ?thesis by (simp add: CheckAnonInput_def d mult.commute not_less split: option.split)
  qed
qed

section \<open>The inputs of a transaction\<close>

lemma CheckAnonInputs_loop_ok:
  "coins_ok E \<Longrightarrow> CheckAnonInputs_loop E h preimage fCheckExists u ins = (True, w) \<longleftrightarrow>
    (\<exists>vs. list_all2 (anon_input_ok E h preimage fCheckExists) (filter IsAnonInput ins) vs \<and> w = u + sum_list vs)"
proof (induction ins arbitrary: u)
  case (Cons i ins)
  show ?case
  proof (cases "IsAnonInput i")
    case True
    let ?run = "if form_AB i then CheckAnonInputAB E i (nat (ring_size i)) (ExtractKeyImage i) preimage (- 1)
      else CheckAnonInput E i (nat (ring_size i)) (ExtractKeyImage i) preimage (- 1)"
    let ?pre = "image_free E h fCheckExists i \<and> 1 \<le> ring_size i \<and> ring_size i \<le> (if an_nBestHeight E \<noteq> 0 then 32 else 200)"
    have step: "CheckAnonInputs_loop E h preimage fCheckExists u (i # ins) =
        (if \<not> ?pre then (False, u)
         else case ?run of None \<Rightarrow> (False, u) | Some v \<Rightarrow> CheckAnonInputs_loop E h preimage fCheckExists (u + v) ins)"
      using True by (auto simp: image_free_def form_AB_def ring_size_def Let_def ec_secret_size_def ec_compressed_size_def
          MAX_RING_SIZE_def MAX_RING_SIZE_OLD_def split: option.splits)
    have run: "anon_input_ok E h preimage fCheckExists i v \<longleftrightarrow> ?pre \<and> ?run = Some v" for v
      using anon_input_run [OF Cons.prems, of i] by (auto simp: anon_input_ok_def)
    have "CheckAnonInputs_loop E h preimage fCheckExists u (i # ins) = (True, w) \<longleftrightarrow>
        (\<exists>v. anon_input_ok E h preimage fCheckExists i v \<and> CheckAnonInputs_loop E h preimage fCheckExists (u + v) ins = (True, w))"
      unfolding step run by (cases ?run) auto
    also have "\<dots> \<longleftrightarrow> (\<exists>v vs. anon_input_ok E h preimage fCheckExists i v \<and>
        list_all2 (anon_input_ok E h preimage fCheckExists) (filter IsAnonInput ins) vs \<and> w = u + v + sum_list vs)"
      unfolding Cons.IH [OF Cons.prems] by blast
    also have "\<dots> \<longleftrightarrow> (\<exists>vs. list_all2 (anon_input_ok E h preimage fCheckExists) (i # filter IsAnonInput ins) vs \<and> w = u + sum_list vs)"
      by (force simp: list_all2_Cons1 add.assoc)
    finally show ?thesis using True by simp
  qed (use Cons in simp)
qed (simp add: eq_commute)

lemma CheckAnonInputs_ok:
  "coins_ok E \<Longrightarrow> CheckAnonInputs E tx fCheckExists = (True, w) \<longleftrightarrow>
    (\<exists>preimage vs. GetTxnPreImage (an_crypto E) tx = Some preimage \<and>
      list_all2 (anon_input_ok E (tx_GetHash (Hash (an_crypto E)) tx) preimage fCheckExists) (filter IsAnonInput (vin tx)) vs \<and>
      w = sum_list vs)"
  by (cases "GetTxnPreImage (an_crypto E) tx") (simp_all add: CheckAnonInputs_def CheckAnonInputs_loop_ok)

section \<open>Key images\<close>

text \<open>Inputs with the same key image have the same key for the check of double inputs.\<close>

lemma same_image_same_key:
  assumes "ExtractKeyImage i = ExtractKeyImage j" and "IsAnonInput i" and "IsAnonInput j"
  shows "input_key True i = input_key True j"
proof -
  have b: "bu_bytes (op_hash (prevout i)) = bu_bytes (op_hash (prevout j))"
    "ucast (op_n (prevout i) AND 0xFF) = (ucast (op_n (prevout j) AND 0xFF) :: byte)"
    using assms(1) by (simp_all add: ExtractKeyImage_def)
  have "op_hash (prevout i) = op_hash (prevout j)" using b(1) by (metis bu_of_bytes_bytes)
  moreover have m: "(ucast (ucast (a AND 0xFF) :: byte) :: u32) = a AND 0xFF" for a :: u32
  proof -
    have "bit (0xFF :: u32) n \<longleftrightarrow> n < 8" for n
      using bit_mask_iff [where 'a = u32, of 8 n] by (auto simp: mask_eq_exp_minus_1)
    then show ?thesis by (intro bit_word_eqI) (auto simp: bit_simps)
  qed
  then have "op_n (prevout i) AND 0xFF = op_n (prevout j) AND 0xFF" using b(2) by metis
  ultimately show ?thesis using assms(2,3) by (simp add: input_key_def)
qed

lemma key_images_differ:
  assumes "fst (CheckTransaction tx)" and "tx_nVersion tx = ANON_TXN_VERSION"
  shows "distinct (map ExtractKeyImage (filter IsAnonInput (vin tx)))"
proof -
  have d: "distinct (map (input_key True) (vin tx))"
    using assms by (simp add: CheckTransaction_valid tx_valid_def ANON_TXN_VERSION_def)
  then have "inj_on (input_key True) (set (vin tx))" "distinct (vin tx)" by (simp_all add: distinct_map)
  then have "inj_on ExtractKeyImage (set (filter IsAnonInput (vin tx)))"
    using same_image_same_key unfolding inj_on_def set_filter by blast
  then show ?thesis using \<open>distinct (vin tx)\<close> by (simp add: distinct_map)
qed

end
