(* ===== verification/Standard.thy ===== *)
theory Standard
  imports Interpreter_Props
begin

text \<open>
  The evaluation of the standard forms of scripts: the pushes of an input, a payment to the hash
  of a key, a payment to the hash of a script.
\<close>

section \<open>Single instructions\<close>

lemma GetOp2_op: "c > OP_PUSHDATA4 \<Longrightarrow> GetOp2 (c # pc) = Some (c, [], pc)"
  by (simp add: GetOp2_def word_less_nat_alt word_le_nat_alt)

lemma loop_push:
  assumes "es_vfExec st = []" and "length v \<le> 520"
  shows "EvalScript_loop E st (push_data [] v @ pc) =
    (if length (es_stack st) + length (es_altstack st) \<ge> 1000 then None
     else EvalScript_loop E (st\<lparr>es_stack := v # es_stack st\<rparr>) pc)"
proof -
  obtain opcode where "GetOp2 (push_data [] v @ pc) = Some (opcode, v, pc)" "opcode \<le> OP_PUSHDATA4"
    using GetOp2_push_data [of v pc] assms(2) by auto
  moreover from this have "\<not> opcode > OP_16" by (intro push_limit)
  moreover have "opcode \<notin> set disabled_opcodes"
    using \<open>opcode \<le> OP_PUSHDATA4\<close> by (auto simp: disabled_opcodes_def)
  ultimately have "EvalScript_step E st (push_data [] v @ pc) =
    (if length (es_stack st) + length (es_altstack st) \<ge> 1000 then None else Some (st\<lparr>es_stack := v # es_stack st\<rparr>, pc))"
    using assms by (simp add: EvalScript_step_def MAX_SCRIPT_ELEMENT_SIZE_def)
  then show ?thesis by (subst EvalScript_loop.simps) simp
qed

lemma loop_op:
  assumes "es_vfExec st = []" and "c > OP_PUSHDATA4" and "c \<notin> set disabled_opcodes" and "c > OP_16"
  shows "EvalScript_loop E st (c # pc) =
    (if es_nOpCount st \<ge> 201 then None
     else case exec_op E c True pc (st\<lparr>es_nOpCount := es_nOpCount st + 1\<rparr>) of None \<Rightarrow> None
          | Some st' \<Rightarrow> if length (es_stack st') + length (es_altstack st') > 1000 then None else EvalScript_loop E st' pc)"
proof -
  have "\<not> c \<le> OP_PUSHDATA4" using assms(2) by (simp add: not_le)
  then have "EvalScript_step E st (c # pc) =
    (if es_nOpCount st \<ge> 201 then None
     else case exec_op E c True pc (st\<lparr>es_nOpCount := es_nOpCount st + 1\<rparr>) of None \<Rightarrow> None
          | Some st' \<Rightarrow> if length (es_stack st') + length (es_altstack st') > 1000 then None else Some (st', pc))"
    using assms by (simp add: EvalScript_step_def GetOp2_op split: option.split)
  then show ?thesis by (subst EvalScript_loop.simps) (simp split: option.split)
qed

lemma loop_Nil [simp]: "EvalScript_loop E st [] = Some st"
  by (simp add: EvalScript_loop.simps)

lemma EvalScript_pushes:
  assumes "elements_ok vs" and "length vs + length s \<le> 1000" and "length (pushes vs) \<le> 22000"
  shows "EvalScript E s (pushes vs) = Some (rev vs @ s)"
proof -
  have "EvalScript_loop E st (pushes vs) = Some (st\<lparr>es_stack := rev vs @ es_stack st\<rparr>)"
    if "es_vfExec st = []" "es_altstack st = []" "length vs + length (es_stack st) \<le> 1000" for st
    using assms(1) that by (induction vs arbitrary: st) (simp_all add: loop_push)
  then show ?thesis using assms(2,3) by (simp add: EvalScript_def)
qed

section \<open>Payment to the hash of a key\<close>

definition p2pkh :: "byte list \<Rightarrow> CScript" where
  "p2pkh h = OP_DUP # OP_HASH160 # push_data [] h @ [OP_EQUALVERIFY, OP_CHECKSIG]"

lemma length_push_20: "length h = 20 \<Longrightarrow> push_data [] h = 0x14 # h"
  by (simp add: push_data_def)

lemma EvalScript_p2pkh:
  assumes "length h = 20" and "length s < 997"
  shows "EvalScript E (pk # sig # s) (p2pkh h) =
    (if bu_bytes (Hash160 (se_crypto E) pk) = h then
       map_option (\<lambda>f. (if f then vchTrue else vchFalse) # s)
         (check_one E sig pk (snd (FindAndDelete (p2pkh h) (push_data [] sig))))
     else None)"
proof -
  have l: "length (p2pkh h) \<le> 22000" using assms by (simp add: p2pkh_def length_push_20)
  show ?thesis
    using assms l
    by (simp add: EvalScript_def p2pkh_def loop_op loop_push disabled_opcodes_def exec_op_def op_stack_def op_digest_def
        op_equal_def op_checksig_def result_verify_def split: option.split Option.bind_split)
qed

lemma FindAndDelete_op:
  assumes "c > OP_PUSHDATA4"
  shows "snd (FindAndDelete_loop (push_data [] v) (c # pc)) = c # snd (FindAndDelete_loop (push_data [] v) pc)"
proof -
  obtain opcode where "GetOp2 (push_data [] v) = Some (opcode, v, [])" "opcode \<le> OP_PUSHDATA4" if "length v < 2 ^ 32"
    using GetOp2_push_data [of v "[]"] by auto
  have "hd (push_data [] v) \<noteq> c"
    using assms by (auto simp: push_data_def Let_def word_less_nat_alt of_nat_byte_less)
  then have "take (length (push_data [] v)) (c # pc) \<noteq> push_data [] v"
    by (cases "push_data [] v") auto
  then have "erase_prefixes (push_data [] v) (c # pc) = (0, c # pc)" by (simp add: erase_prefixes.simps)
  then show ?thesis
    using assms by (subst FindAndDelete_loop.simps) (simp add: GetOp2_op split: prod.split)
qed

lemma FindAndDelete_Nil: "snd (FindAndDelete_loop (push_data [] v) []) = []"
  by (simp add: FindAndDelete_loop.simps erase_prefixes.simps)

lemma FindAndDelete_push:
  assumes "length h < 76" and "length v < 76" and "v \<noteq> h"
  shows "snd (FindAndDelete_loop (push_data [] v) (push_data [] h @ pc)) =
    push_data [] h @ snd (FindAndDelete_loop (push_data [] v) pc)"
proof -
  have p: "push_data [] h = of_nat (length h) # h" "push_data [] v = of_nat (length v) # v"
    using assms(1,2) by (simp_all add: push_data_def)
  have "take (length v) (h @ pc) \<noteq> v" if "(of_nat (length h) :: byte) = of_nat (length v)"
  proof -
    have "length h = length v" using arg_cong [OF that, of unat] assms(1,2) by (simp add: of_nat_byte_less)
    then show ?thesis using assms(3) by simp
  qed
  then have "erase_prefixes (push_data [] v) (push_data [] h @ pc) = (0, push_data [] h @ pc)"
    by (subst erase_prefixes.simps) (auto simp: p)
  moreover obtain opcode where "GetOp2 (push_data [] h @ pc) = Some (opcode, h, pc)"
    using GetOp2_push_data [of h pc] assms(1) by auto
  ultimately show ?thesis by (subst FindAndDelete_loop.simps) (simp split: prod.split)
qed

lemma FindAndDelete_p2pkh:
  assumes "length h = 20" and "length sig < 76" and "sig \<noteq> h"
  shows "snd (FindAndDelete (p2pkh h) (push_data [] sig)) = p2pkh h"
  using assms by (simp add: FindAndDelete_def p2pkh_def FindAndDelete_op FindAndDelete_push FindAndDelete_Nil)

lemma CheckSignatureEncoding_length: "CheckSignatureEncoding sig \<Longrightarrow> length sig \<le> 73"
  by (auto simp: CheckSignatureEncoding_def IsLowDERSignature_def IsDERSignature_def split: if_splits)

lemma IsPayToScriptHash_p2pkh: "\<not> IsPayToScriptHash (p2pkh h)"
  by (simp add: IsPayToScriptHash_def p2pkh_def)

lemma VerifyScript_p2pkh:
  assumes "length h = 20" and "length sig \<le> 520" and "length pk \<le> 520" and "sig \<noteq> h"
  shows "VerifyScript E (pushes [sig, pk]) (p2pkh h) \<longleftrightarrow>
    bu_bytes (Hash160 (se_crypto E) pk) = h \<and> CheckSignatureEncoding sig \<and> CheckPubKeyEncoding pk \<and>
    se_checksig E sig pk (p2pkh h)"
proof -
  have l: "length (push_data [] v) \<le> length v + 3" if "length v \<le> 520" for v
    using that by (simp add: push_data_def Serialize_u16_def Let_def)
  have "length (pushes [sig, pk]) \<le> 22000" using l [of sig] l [of pk] assms(2,3) by simp
  then have e: "EvalScript E [] (pushes [sig, pk]) = Some [pk, sig]"
    using assms(2,3) by (subst EvalScript_pushes) simp_all
  have f: "CheckSignatureEncoding sig \<Longrightarrow> snd (FindAndDelete (p2pkh h) (push_data [] sig)) = p2pkh h"
    using CheckSignatureEncoding_length [of sig] assms(1,4) by (intro FindAndDelete_p2pkh) auto
  show ?thesis
    using f assms(1)
    by (auto simp: VerifyScript_def e EvalScript_p2pkh IsPayToScriptHash_p2pkh check_one_def vchTrue_def vchFalse_def
        simp del: pushes.simps)
qed

section \<open>Payment to the hash of a script\<close>

definition p2sh :: "byte list \<Rightarrow> CScript" where
  "p2sh h = OP_HASH160 # push_data [] h @ [OP_EQUAL]"

lemma IsPayToScriptHash_iff: "IsPayToScriptHash script \<longleftrightarrow> (\<exists>h. length h = 20 \<and> script = p2sh h)"
proof
  assume p: "IsPayToScriptHash script"
  then have "length script = 23" by (simp add: IsPayToScriptHash_def)
  then have "length (take 20 (drop 2 script)) = 20"
    and "script = script ! 0 # script ! 1 # take 20 (drop 2 script) @ [script ! 22]"
    by (simp_all add: list_eq_iff_nth_eq nth_append nth_Cons split: nat.split)
      (auto simp: less_Suc_eq numeral_eq_Suc)
  then show "\<exists>h. length h = 20 \<and> script = p2sh h"
    using p by (intro exI [of _ "take 20 (drop 2 script)"]) (simp add: IsPayToScriptHash_def p2sh_def length_push_20)
qed (auto simp: IsPayToScriptHash_def p2sh_def length_push_20 nth_append)

lemma EvalScript_p2sh:
  assumes "length h = 20"
  shows "EvalScript E s (p2sh h) =
    (case s of [] \<Rightarrow> None
     | x # rest \<Rightarrow> if length rest \<ge> 999 then None
         else Some ((if bu_bytes (Hash160 (se_crypto E) x) = h then vchTrue else vchFalse) # rest))"
proof -
  have l: "length (p2sh h) \<le> 22000" using assms by (simp add: p2sh_def length_push_20)
  show ?thesis
    using assms l
    by (cases s) (auto simp: EvalScript_def p2sh_def loop_op loop_push disabled_opcodes_def exec_op_def op_digest_def op_equal_def)
qed

lemma VerifyScript_p2sh:
  assumes "length h = 20"
  shows "VerifyScript E sig (p2sh h) \<longleftrightarrow>
    IsPushOnly sig \<and> (\<exists>script rest t s. EvalScript E [] sig = Some (script # rest) \<and> length rest < 999 \<and>
      bu_bytes (Hash160 (se_crypto E) script) = h \<and> EvalScript E rest script = Some (t # s) \<and> CastToBool t)"
proof -
  have "IsPayToScriptHash (p2sh h)" using assms by (auto simp: IsPayToScriptHash_iff)
  then show ?thesis
    using assms by (auto simp: VerifyScript_def EvalScript_p2sh vchTrue_def vchFalse_def neq_Nil_conv
        split: option.splits list.splits if_splits)
qed

section \<open>Lock times\<close>

lemma CScriptNum_script_num:
  "CScriptNum (script_num n) f = (if \<bar>n\<bar> < 2 ^ 31 then Some (word_of_int n) else None)"
proof (cases "\<bar>n\<bar> < 2 ^ 31")
  case True
  then have s: "sint (word_of_int n :: u64) = n" by (intro sint_word_of_int) auto
  then have "script_num n = CScriptNum_serialize (word_of_int n)" by (simp add: script_num_serialize)
  moreover have "CScriptNum (CScriptNum_serialize (word_of_int n)) f = Some (word_of_int n)"
    using True s by (intro CScriptNum_of_serialize) simp
  ultimately show ?thesis using True by simp
next
  case False
  then have "length (script_num n) > 4" using num_val_less [of "script_num n"] by (intro ccontr [of "length _ > 4"]) auto
  then show ?thesis using False by (simp add: CScriptNum_def nMaxNumSize_def)
qed

lemma op_checklocktime_spec:
  "op_checklocktime tx n flags (script_num t # s) =
    (if flags AND SCRIPT_VERIFY_CHECKLOCKTIMEVERIFY = 0 \<or>
        0 \<le> t \<and> t < 2 ^ 31 \<and> (uint (nLockTime tx) < LOCKTIME_THRESHOLD \<longleftrightarrow> t < LOCKTIME_THRESHOLD) \<and>
        t \<le> uint (nLockTime tx) \<and> \<not> CTxIn_IsFinal (vin tx ! n)
     then Some (script_num t # s) else None)"
proof (cases "\<bar>t\<bar> < 2 ^ 31")
  case True
  then have "sint (word_of_int t :: u64) = t" by (intro sint_word_of_int) auto
  then show ?thesis using True by (auto simp: op_checklocktime_def CScriptNum_script_num not_less)
next
  case False
  then show ?thesis by (auto simp: op_checklocktime_def CScriptNum_script_num)
qed

section \<open>Sample payments\<close>

definition sample_script_env :: "int script_env" where
  "sample_script_env =
    \<lparr>se_bn = int_bn,
       se_crypto = \<lparr>RIPEMD160 = \<lambda>_. replicate 20 7, SHA1 = \<lambda>_. replicate 20 0, SHA256 = \<lambda>_. replicate 32 0,
                    ECDSA_verify = \<lambda>_ _ _. True\<rparr>,
       se_checksig = \<lambda>_ _ _. True,
       se_txTo = \<lparr>tx_nVersion = 1, tx_nTime = 0, vin = [], vout = [], nLockTime = 0, tx_nDoS = 0\<rparr>,
       se_nIn = 0, se_flags = 0\<rparr>"

definition sample_sig :: "byte list" where "sample_sig = [0x30, 6, 2, 1, 1, 2, 1, 1, 1]"

lemma sample_encodings: "CheckSignatureEncoding sample_sig" "CheckPubKeyEncoding (2 # replicate 32 5)" "sample_sig \<noteq> replicate 20 7"
  by code_simp+

lemma sample_script_hash: "bu_bytes (Hash160 (se_crypto sample_script_env) x) = replicate 20 7"
  by (simp add: sample_script_env_def Hash160_def bu_bytes_of_bytes)

lemma sample_script_runs: "IsPushOnly (pushes [[1, 1]])" "EvalScript sample_script_env [] (pushes [[1, 1]]) = Some [[1, 1]]"
  "EvalScript sample_script_env [] [1, 1] = Some [[1]]" "CastToBool [1]"
  "EvalScript sample_script_env [] (pushes [[1, 11, 1, 12, OP_EQUALVERIFY]]) = Some [[1, 11, 1, 12, OP_EQUALVERIFY]]"
proof -
  show "IsPushOnly (pushes [[1, 1]])" "CastToBool [1]" by code_simp+
  have "pushes [[1, 1]] = [2, 1, 1]" "pushes [[1]] = [1, 1]"
    "pushes [[1, 11, 1, 12, OP_EQUALVERIFY]] = [5, 1, 11, 1, 12, OP_EQUALVERIFY]" by code_simp+
  then show "EvalScript sample_script_env [] (pushes [[1, 1]]) = Some [[1, 1]]" "EvalScript sample_script_env [] [1, 1] = Some [[1]]"
     "EvalScript sample_script_env [] (pushes [[1, 11, 1, 12, OP_EQUALVERIFY]]) = Some [[1, 11, 1, 12, OP_EQUALVERIFY]]"
    using EvalScript_pushes [of "[[1, 11, 1, 12, OP_EQUALVERIFY]]" "[]" sample_script_env]
      EvalScript_pushes [of "[[1, 1]]" "[]" sample_script_env]
      EvalScript_pushes [of "[[1]]" "[]" sample_script_env]
    by simp_all
qed

lemma sample_script_fails: "EvalScript sample_script_env [] [1, 11, 1, 12, OP_EQUALVERIFY] = None"
proof -
  have "[1, 11, 1, 12, OP_EQUALVERIFY] = push_data [] [11] @ push_data [] [12] @ [OP_EQUALVERIFY]" by code_simp
  moreover have "EvalScript sample_script_env [] (push_data [] [11] @ push_data [] [12] @ [OP_EQUALVERIFY]) = None"
    by (simp add: EvalScript_def loop_push loop_op disabled_opcodes_def exec_op_def op_stack_def op_equal_def)
  ultimately show ?thesis by (simp only:)
qed

end
