(* ===== verification/Solver_Props.thy ===== *)
theory Solver_Props
  imports Solver Standard
begin

text \<open>
  The standard forms of scripts are recognised: \<open>Solver\<close> finds the keys and hashes in the scripts that
  the functions for destinations and multisignatures write.
\<close>

section \<open>Matching one instruction\<close>

lemma match_template_Nil: "match_template [] [] sols = Some sols"
  by (simp add: match_template.simps)

lemma match_template_Cons:
  "match_template (c # pc1) pc2 sols =
    (case match_step (c # pc1) pc2 sols of None \<Rightarrow> None
     | Some (pc1', pc2', sols') \<Rightarrow> match_template pc1' pc2' sols')"
  by (simp add: match_template.simps [of "c # pc1"])

lemma match_template_append:
  "p \<noteq> [] \<Longrightarrow> match_template (p @ pc1) pc2 sols =
    (case match_step (p @ pc1) pc2 sols of None \<Rightarrow> None
     | Some (pc1', pc2', sols') \<Rightarrow> match_template pc1' pc2' sols')"
  by (simp add: match_template.simps [of "p @ pc1"])

lemma match_step_op:
  assumes "c > OP_PUSHDATA4" and "d > OP_PUSHDATA4" and "d \<noteq> OP_PUBKEYS"
  shows "match_step (c # pc1) (d # pc2) sols = map_option (\<lambda>new. (pc1, pc2, sols @ new)) (match_op c [] d [])"
  using assms by (simp add: match_step_def GetOp2_op map_conv_bind_option comp_def)

lemma match_step_push:
  assumes "length v < 2 ^ 32" and "d > OP_PUSHDATA4" and "d \<noteq> OP_PUBKEYS"
  shows "\<exists>c \<le> OP_PUSHDATA4. match_step (push_data [] v @ pc1) (d # pc2) sols =
    map_option (\<lambda>new. (pc1, pc2, sols @ new)) (match_op c v d [])"
  using GetOp2_push_data [OF assms(1), of pc1] assms(2,3)
  by (auto simp: match_step_def GetOp2_op map_conv_bind_option comp_def)

lemmas match_simps = match_template_Nil match_template_Cons match_step_op match_op_def

section \<open>Payments\<close>

lemma mTemplates_ne: "mTemplates \<noteq> []"
  by (simp add: mTemplates_def)

lemma Solver_p2sh: "length h = 20 \<Longrightarrow> Solver (p2sh h) = (True, TX_SCRIPTHASH, [h])"
  by (auto simp: Solver_def IsPayToScriptHash_iff) (simp add: p2sh_def length_push_20)

lemma match_hash:
  assumes "length h = 20"
  shows "match_template (p2pkh h) [OP_DUP, OP_HASH160, OP_PUBKEYHASH, OP_EQUALVERIFY, OP_CHECKSIG] [] = Some [h]"
proof -
  obtain c where "match_step (push_data [] h @ [OP_EQUALVERIFY, OP_CHECKSIG]) [OP_PUBKEYHASH, OP_EQUALVERIFY, OP_CHECKSIG] [] =
      map_option (\<lambda>new. ([OP_EQUALVERIFY, OP_CHECKSIG], [OP_EQUALVERIFY, OP_CHECKSIG], [] @ new)) (match_op c h OP_PUBKEYHASH [])"
    using match_step_push [of h OP_PUBKEYHASH "[OP_EQUALVERIFY, OP_CHECKSIG]" "[OP_EQUALVERIFY, OP_CHECKSIG]" "[]"] assms by auto
  then show ?thesis
    using assms by (simp add: p2pkh_def match_simps match_template_append)
qed

lemma Solver_p2pkh:
  assumes "length h = 20"
  shows "Solver (p2pkh h) = (True, TX_PUBKEYHASH, [h])"
proof -
  have "match_template (p2pkh h) [OP_PUBKEY, OP_CHECKSIG] [] = None" by (simp add: p2pkh_def match_simps)
  then show ?thesis
    using match_hash [OF assms] by (simp add: Solver_def IsPayToScriptHash_p2pkh mTemplates_def)
qed

lemma Solver_pubkey:
  assumes "33 \<le> length pk" and "length pk \<le> 120"
  shows "Solver (push_data [] pk @ [OP_CHECKSIG]) = (True, TX_PUBKEY, [pk])"
proof -
  obtain c where "match_step (push_data [] pk @ [OP_CHECKSIG]) [OP_PUBKEY, OP_CHECKSIG] [] =
      map_option (\<lambda>new. ([OP_CHECKSIG], [OP_CHECKSIG], [] @ new)) (match_op c pk OP_PUBKEY [])"
    using match_step_push [of pk OP_PUBKEY "[OP_CHECKSIG]" "[OP_CHECKSIG]" "[]"] assms(2) by auto
  then have "match_template (push_data [] pk @ [OP_CHECKSIG]) [OP_PUBKEY, OP_CHECKSIG] [] = Some [pk]"
    using assms by (simp add: match_simps match_template_append)
  moreover have "\<not> IsPayToScriptHash (push_data [] pk @ [OP_CHECKSIG])"
    using assms by (simp add: IsPayToScriptHash_def push_data_def Let_def)
  ultimately show ?thesis by (simp add: Solver_def mTemplates_def)
qed

lemma SetDestination_scripts:
  "length k = 5 \<Longrightarrow> SetDestination (DestKeyID k) = p2pkh (bu_bytes k)"
  "length k = 5 \<Longrightarrow> SetDestination (DestScriptID k) = p2sh (bu_bytes k)"
  by (simp_all add: SetDestination_def push_opcode_def push_uint160_def p2pkh_def p2sh_def length_push_20)

lemma ExtractDestination_SetDestination:
  "length k = 5 \<Longrightarrow> ExtractDestination C (SetDestination (DestKeyID k)) = Some (DestKeyID k)"
  "length k = 5 \<Longrightarrow> ExtractDestination C (SetDestination (DestScriptID k)) = Some (DestScriptID k)"
  by (simp_all only: SetDestination_scripts ExtractDestination_def)
    (simp_all add: Solver_p2pkh Solver_p2sh bu_of_vector_def bu_of_bytes_bytes)

text \<open>A destination without a script gives the empty script, which is no standard form.\<close>

lemma Solver_Nil: "Solver [] = (False, TX_NONSTANDARD, [])"
  by code_simp

lemma ExtractDestination_no_script:
  "ExtractDestination C (SetDestination NoDestination) = None"
  "ExtractDestination C (SetDestination (DestStealth a)) = None"
  by (simp_all add: SetDestination_def ExtractDestination_def Solver_Nil)

section \<open>Multisignatures\<close>

definition key_ok :: "valtype \<Rightarrow> bool" where
  "key_ok k \<longleftrightarrow> 33 \<le> length k \<and> length k \<le> 120"

lemma take_pubkeys_pushes:
  assumes "key_ok v" and "\<forall>k \<in> set keys. key_ok k" and "c > OP_PUSHDATA4"
  shows "take_pubkeys opcode v (pushes keys @ c # rest) sols = (c, [], rest, sols @ v # keys)"
  using assms
proof (induction keys arbitrary: opcode v sols)
  case Nil
  then show ?case
    by (simp add: take_pubkeys.simps [of opcode] take_pubkeys.simps [of c] GetOp2_op key_ok_def)
next
  case (Cons k keys)
  obtain d where "GetOp2 (push_data [] k @ (pushes keys @ c # rest)) = Some (d, k, pushes keys @ c # rest)"
    using GetOp2_push_data [of k "pushes keys @ c # rest"] Cons.prems(2) by (auto simp: key_ok_def)
  then show ?case
    using Cons by (simp add: take_pubkeys.simps [of opcode] key_ok_def)
qed

lemma match_multisig:
  assumes "key_ok k" and "\<forall>k \<in> set keys. key_ok k" and "c > OP_PUSHDATA4" and "DecodeOP_N c = Some n"
  shows "match_step (pushes (k # keys) @ c # rest) (OP_PUBKEYS # OP_SMALLINTEGER # pc2) sols =
    Some (rest, pc2, sols @ k # keys @ [[word_of_int n]])"
proof -
  obtain d where "GetOp2 (push_data [] k @ (pushes keys @ c # rest)) = Some (d, k, pushes keys @ c # rest)"
    using GetOp2_push_data [of k "pushes keys @ c # rest"] assms(1) by (auto simp: key_ok_def)
  then show ?thesis
    using assms take_pubkeys_pushes [OF assms(1-3)] by (simp add: match_step_def GetOp2_op match_op_def)
qed

lemma EncodeOP_N_op:
  assumes "1 \<le> n" and "n \<le> 16"
  shows "\<exists>c. EncodeOP_N n = Some c \<and> DecodeOP_N c = Some n \<and> c > OP_PUSHDATA4 \<and> OP_1 \<le> c \<and> c \<le> OP_16"
proof -
  have "n \<in> set [1..16]" using assms by simp
  moreover have "\<forall>n \<in> set [1..16]. \<exists>c. EncodeOP_N n = Some c \<and> DecodeOP_N c = Some n \<and> c > OP_PUSHDATA4 \<and> OP_1 \<le> c \<and> c \<le> OP_16"
    by (simp add: upto.simps EncodeOP_N_def DecodeOP_N_def word_less_nat_alt word_le_nat_alt)
  ultimately show ?thesis by blast
qed

lemma fold_pushes: "fold (\<lambda>key script. push_data script key) keys script = script @ pushes keys"
proof (induction keys arbitrary: script)
  case (Cons k keys)
  show ?case by (simp add: Cons.IH) (metis push_data_append)
qed simp

lemma Solver_multisig:
  assumes "1 \<le> m" and "m \<le> int (length keys)" and "length keys \<le> 16" and "\<forall>k \<in> set keys. key_ok k"
  shows "\<exists>script. SetMultisigpub m keys = Some script \<and>
    Solver script = (True, TX_MULTISIG, [word_of_int m] # keys @ [[of_nat (length keys)]]) \<and>
    fst (IsStandard script) = (length keys \<le> 3)"
proof -
  let ?n = "int (length keys)"
  obtain c d where c: "EncodeOP_N m = Some c" "DecodeOP_N c = Some m" "c > OP_PUSHDATA4" "OP_1 \<le> c" "c \<le> OP_16"
    and d: "EncodeOP_N ?n = Some d" "DecodeOP_N d = Some ?n" "d > OP_PUSHDATA4"
    using EncodeOP_N_op [of m] EncodeOP_N_op [of ?n] assms(1-3) by auto
  obtain k ks where keys: "keys = k # ks" using assms(1,2) by (cases keys) auto
  let ?s = "c # pushes keys @ [d, OP_CHECKMULTISIG]"
  have s: "SetMultisigpub m keys = Some ?s"
    by (simp add: SetMultisigpub_def c(1) d(1) fold_pushes push_opcode_def)
  have nc: "c \<noteq> OP_DUP" "c \<noteq> OP_HASH160" using c(5) by auto
  have step: "match_step (pushes (k # ks) @ [d, OP_CHECKMULTISIG]) [OP_PUBKEYS, OP_SMALLINTEGER, OP_CHECKMULTISIG] [[word_of_int m]] =
      Some ([OP_CHECKMULTISIG], [OP_CHECKMULTISIG], [[word_of_int m]] @ k # ks @ [[word_of_int ?n]])"
    using assms(4) d by (intro match_multisig) (simp_all add: keys)
  have "match_template ?s [OP_PUBKEY, OP_CHECKSIG] [] = None"
    and "match_template ?s [OP_DUP, OP_HASH160, OP_PUBKEYHASH, OP_EQUALVERIFY, OP_CHECKSIG] [] = None"
    using c(3) nc by (simp_all add: match_simps)
  moreover have "match_template ?s [OP_SMALLINTEGER, OP_PUBKEYS, OP_SMALLINTEGER, OP_CHECKMULTISIG] [] =
      Some ([word_of_int m] # keys @ [[word_of_int ?n]])"
    using c(2,3) step by (simp add: keys match_template_Cons [of c] match_step_op match_op_def)
      (subst match_template.simps, simp add: match_simps)
  moreover have "\<not> IsPayToScriptHash ?s" using nc by (simp add: IsPayToScriptHash_def)
  moreover have "(word_of_int m :: byte) = of_nat (nat m)" using assms(1) by simp
  with of_nat_byte_less [of "nat m"] assms(2,3) have "unat (word_of_int m :: byte) = nat m" by simp
  with assms(3) have u: "unat (word_of_int m :: byte) = nat m" "unat (of_nat (length keys) :: byte) = length keys"
    by (simp_all add: of_nat_byte_less)
  moreover have "\<not> (word_of_int m :: byte) < 1" "\<not> (of_nat (length keys) :: byte) < 1"
    "\<not> (word_of_int m :: byte) > of_nat (length keys)"
    using assms(1,2) u by (auto simp: word_less_nat_alt)
  ultimately have r: "Solver ?s = (True, TX_MULTISIG, [word_of_int m] # keys @ [[of_nat (length keys)]])"
    by (simp add: Solver_def mTemplates_def)
  have "(of_nat (length keys) :: byte) > 3 \<longleftrightarrow> length keys > 3" using u by (simp add: word_less_nat_alt)
  with r \<open>\<not> (word_of_int m :: byte) < 1\<close> \<open>\<not> (of_nat (length keys) :: byte) < 1\<close> \<open>\<not> (word_of_int m :: byte) > of_nat (length keys)\<close>
  have "fst (IsStandard ?s) = (length keys \<le> 3)" by (auto simp: IsStandard_def)
  with s r show ?thesis by blast
qed

section \<open>The first script that is no standard form\<close>

text \<open>
  An input that spends a payment to the hash of a script which \<open>Solver\<close> does not know ends the loop
  with success: the inputs behind it are not looked at, whatever they are.
\<close>

lemma AreInputsStandard_first:
  assumes "\<not> IsCoinBase tx" and "tx_nVersion tx \<noteq> ANON_TXN_VERSION" and "vin tx = txin # r"
    and "GetOutputFor txin m = Some prev" and "IsPayToScriptHash (scriptPubKey prev)"
    and "eval 0 (scriptSig txin) = Some (script # stack)" and "\<not> fst (Solver script)"
    and "GetSigOpCount True script \<le> MAX_P2SH_SIGOPS"
  shows "AreInputsStandard eval tx m = Some True"
  using assms by (auto simp: AreInputsStandard_def Solver_def [of "scriptPubKey prev"] ScriptSigArgsExpected_def
      Let_def split: prod.splits)

end
