(* ===== verification/Signature_Props.thy ===== *)
theory Signature_Props
  imports Signature
begin

text \<open>
  The laws of the signature cache: the order of its entries is the one a \<open>std::set\<close> needs, the
  eviction loop ends with at most the given number of entries, and every entry was verified, so that
  an answer from the cache is the answer of the verification.
\<close>

section \<open>The order of the entries\<close>

text \<open>A stored key is one that \<open>CPubKey::Set\<close> leaves, and a hash has eight words.\<close>

definition stored_key_ok :: "byte list \<Rightarrow> bool" where
  "stored_key_ok p \<longleftrightarrow> p = [0xFF] \<or> p \<noteq> [] \<and> length p = CPubKey_GetLen (p ! 0)"

fun sigdata_ok :: "sigdata \<Rightarrow> bool" where
  "sigdata_ok (hash, vchSig, pubkey) \<longleftrightarrow> length hash = 8 \<and> stored_key_ok pubkey"

lemma key_ok_Set [simp]: "stored_key_ok (CPubKey_Set vch)"
  by (auto simp: stored_key_ok_def CPubKey_Set_def Let_def)

lemma CPubKey_less_lex:
  assumes "stored_key_ok a" and "stored_key_ok b"
  shows "CPubKey_less a b \<longleftrightarrow> a < b"
proof -
  have ne: "a \<noteq> []" "b \<noteq> []" using assms by (auto simp: stored_key_ok_def)
  then obtain x xs y ys where ab: "a = x # xs" "b = y # ys" by (meson neq_Nil_conv)
  have l: "take (CPubKey_GetLen (p ! 0)) p = (if p = [0xFF] then [] else p)" if "stored_key_ok p" for p
    using that by (auto simp: stored_key_ok_def CPubKey_GetLen_def)
  show ?thesis
  proof (cases "x = y")
    case True
    then have "b ! 0 = a ! 0" using ab by simp
    then have "take (CPubKey_GetLen (a ! 0)) a = (if a = [0xFF] then [] else a)"
      "take (CPubKey_GetLen (a ! 0)) b = (if b = [0xFF] then [] else b)"
      using l [OF assms(1)] l [OF assms(2)] by simp_all
    moreover have "a = [0xFF] \<longleftrightarrow> b = [0xFF]"
      using assms True unfolding ab by (auto simp: stored_key_ok_def CPubKey_GetLen_def)
    ultimately show ?thesis using True ab by (auto simp: CPubKey_less_def)
  next
    case False
    then show ?thesis by (simp add: CPubKey_less_def ab)
  qed
qed

lemma sigdata_less_lex:
  assumes "sigdata_ok (h, s, p)" and "sigdata_ok (h', s', p')"
  shows "sigdata_less (h, s, p) (h', s', p') \<longleftrightarrow>
    uint_val h < uint_val h' \<or> h = h' \<and> (s < s' \<or> s = s' \<and> p < p')"
proof -
  have l: "length h = length h'" "length h' = length h" using assms by simp_all
  have "CPubKey_less p p' \<longleftrightarrow> p < p'" using assms by (intro CPubKey_less_lex) simp_all
  then show ?thesis
    using uint_val_inject [OF l(1)] by (simp add: bu_compare_val(1) [OF l(1)] bu_compare_val(1) [OF l(2)]) (meson linorder_neqE not_less_iff_gr_or_eq)
qed

lemma sigdata_order: "set_order sigdata_less sigdata_ok"
proof
  fix x y z :: sigdata
  obtain h s p where x: "x = (h, s, p)" by (cases x)
  obtain h' s' p' where y: "y = (h', s', p')" by (cases y)
  obtain h'' s'' p'' where z: "z = (h'', s'', p'')" by (cases z)
  show "sigdata_less x z" if "sigdata_ok x" "sigdata_ok y" "sigdata_ok z" "sigdata_less x y" "sigdata_less y z"
    using that unfolding x y z by (simp only: sigdata_less_lex) (metis order.strict_trans)
  show "sigdata_less x y \<or> x = y \<or> sigdata_less y x" if "sigdata_ok x" "sigdata_ok y"
  proof -
    have "length h = length h'" using that by (simp add: x y)
    from uint_val_inject [OF this] show ?thesis
      using that unfolding x y by (simp only: sigdata_less_lex prod.inject) (metis linorder_neqE)
  qed
qed simp

interpretation sigs: set_order sigdata_less sigdata_ok
  by (rule sigdata_order)

section \<open>The eviction\<close>

lemma evict_laws:
  "set (sigcache_evict n rnd i S) \<subseteq> set S \<and> length (sigcache_evict n rnd i S) \<le> n \<and>
    (sigs.ordered S \<longrightarrow> sigs.ordered (sigcache_evict n rnd i S)) \<and>
    (length S \<le> n \<longrightarrow> sigcache_evict n rnd i S = S)"
proof (induction n rnd i S rule: sigcache_evict.induct)
  case (1 n rnd i S)
  show ?case
  proof (cases "n < length S")
    case True
    let ?it = "lower_bound sigdata_less (rnd i, [], CPubKey_Set []) S"
    let ?S = "set_erase sigdata_less (hd (if ?it = [] then S else ?it)) S"
    have "sigcache_evict n rnd i S = sigcache_evict n rnd (Suc i) ?S"
      using True by (subst sigcache_evict.simps) (simp add: Let_def)
    moreover have "set ?S \<subseteq> set S" "sigs.ordered S \<longrightarrow> sigs.ordered ?S"
      using set_set_erase [of sigdata_less] sigs.set_erase_ordered [of S] by blast+
    ultimately show ?thesis using "1.IH" [OF True refl refl] True by (simp only:) (auto simp only: not_le [symmetric])
  next
    case False
    then show ?thesis by (simp add: sigcache_evict.simps)
  qed
qed

section \<open>Soundness\<close>

definition cache_ok :: "crypto \<Rightarrow> sigcache \<Rightarrow> bool" where
  "cache_ok C S \<longleftrightarrow> sigs.ordered S \<and> list_all (\<lambda>(sighash, vchSig, pubkey). CPubKey_Verify C pubkey sighash vchSig) S"

lemma cache_ok_Nil [simp]: "cache_ok C []"
  by (simp add: cache_ok_def)

lemma sigcache_Set_laws:
  assumes "cache_ok C S" and "sigdata_ok (h, s, p)" and "CPubKey_Verify C p h s"
  shows "cache_ok C (sigcache_Set n rnd S h s p)"
    and "set (sigcache_Set n rnd S h s p) \<subseteq> insert (h, s, p) (set S)"
    and "0 < n \<Longrightarrow> (h, s, p) \<in> set (sigcache_Set n rnd S h s p)"
    and "0 < n \<Longrightarrow> int (length (sigcache_Set n rnd S h s p)) \<le> n + 1"
    and "0 < n \<Longrightarrow> int (length S) \<le> n \<Longrightarrow> set (sigcache_Set n rnd S h s p) = insert (h, s, p) (set S)"
proof -
  let ?e = "sigcache_evict (nat n) rnd 0 S"
  have e: "set ?e \<subseteq> set S" "length ?e \<le> nat n" "sigs.ordered ?e" "length S \<le> nat n \<Longrightarrow> ?e = S"
    using evict_laws [of "nat n" rnd 0 S] assms(1) by (auto simp: cache_ok_def)
  note i = sigs.set_insert_set [OF e(3) assms(2)] sigs.set_insert_ordered [OF e(3) assms(2)]
  show "cache_ok C (sigcache_Set n rnd S h s p)"
    using assms(1,3) e(1) i by (auto simp: cache_ok_def sigcache_Set_def list_all_iff)
  show "set (sigcache_Set n rnd S h s p) \<subseteq> insert (h, s, p) (set S)"
    using e(1) i by (auto simp: sigcache_Set_def)
  show "(h, s, p) \<in> set (sigcache_Set n rnd S h s p)" if "0 < n"
    using that i by (simp add: sigcache_Set_def)
  show "int (length (sigcache_Set n rnd S h s p)) \<le> n + 1" if "0 < n"
    using that e(2) sigs.length_set_insert [of "(h, s, p)" ?e] by (simp add: sigcache_Set_def)
  show "set (sigcache_Set n rnd S h s p) = insert (h, s, p) (set S)" if "0 < n" "int (length S) \<le> n"
    using that e(4) i by (simp add: sigcache_Set_def)
qed

lemma length_SignatureHash:
  assumes "\<forall>x. length (SHA256 C x) = 32"
  shows "length (SignatureHash C code tx nIn ht) = 8"
proof -
  have "length (Hash C x) = 8" for x using assms length_bu_of_bytes [where n = 8] by (simp add: Hash_def)
  then show ?thesis by (simp add: SignatureHash_def Let_def bu_set64_def WIDTH256_def)
qed

lemma CheckSig_laws:
  fixes C tx nIn flags sig pk code
  defines "h \<equiv> SignatureHash C code tx nIn (ucast (last sig))" and "p \<equiv> CPubKey_Set pk"
  assumes "\<forall>x. length (SHA256 C x) = 32" and "cache_ok C S"
  shows "CheckSig C n rnd S tx nIn ht flags sig pk code =
    (if sig \<noteq> [] \<and> (ht = 0 \<or> ht = ucast (last sig)) \<and> CPubKey_IsValid p \<and> ECDSA_verify C p h (butlast sig)
     then (True, if (h, butlast sig, p) \<in> set S \<or> flags AND SCRIPT_VERIFY_NOCACHE \<noteq> 0 then S
                 else sigcache_Set n rnd S h (butlast sig) p)
     else (False, S))"
proof -
  have ok: "sigdata_ok (h, butlast sig, p)" using length_SignatureHash [OF assms(3)] by (simp add: h_def p_def)
  have get: "sigcache_Get S h (butlast sig) p \<longleftrightarrow> (h, butlast sig, p) \<in> set S"
    unfolding sigcache_Get_def using assms(4) ok by (intro sigs.set_find_iff) (simp_all add: cache_ok_def)
  have "CPubKey_Verify C p h (butlast sig)" if "(h, butlast sig, p) \<in> set S"
    using that assms(4) by (auto simp: cache_ok_def list_all_iff)
  then show ?thesis
    using get unfolding CheckSig_def Let_def h_def p_def by (auto simp: CPubKey_Verify_def split: if_splits)
qed

section \<open>A sample\<close>

definition sample_verifier :: crypto where
  "sample_verifier = \<lparr>RIPEMD160 = \<lambda>_. replicate 20 0, SHA1 = \<lambda>_. replicate 20 0, SHA256 = \<lambda>_. replicate 32 0,
     ECDSA_verify = \<lambda>_ _ s. s \<noteq> []\<rparr>"

definition sample_key :: "byte list" where "sample_key = 2 # replicate 32 5"

definition sample_entry :: "u32 \<Rightarrow> byte \<Rightarrow> sigdata" where
  "sample_entry h s = ([h, 0, 0, 0, 0, 0, 0, 0], [s], sample_key)"

definition sample_tx :: CTransaction where
  "sample_tx = \<lparr>tx_nVersion = 1, tx_nTime = 0, vin = [], vout = [], nLockTime = 0, tx_nDoS = 0\<rparr>"

lemma sample_cache: "cache_ok sample_verifier [sample_entry 0 9, sample_entry 1 4]"
  unfolding cache_ok_def sigs.ordered_def by code_simp

lemma sample_evict: "sigcache_evict 1 (\<lambda>_. [5, 0, 0, 0, 0, 0, 0, 0]) 0 [sample_entry 0 9, sample_entry 1 4] = [sample_entry 1 4]"
  by code_simp

lemma sample_entry_eq:
  "(SignatureHash sample_verifier [] sample_tx 0 1, [s], CPubKey_Set sample_key) = sample_entry 1 s"
proof -
  have "replicate 6 (0 :: u32) = [0, 0, 0, 0, 0, 0]" by (simp add: numeral_eq_Suc)
  then show ?thesis
    by (simp add: sample_entry_def SignatureHash_def sample_tx_def bu_set64_def WIDTH256_def CPubKey_Set_def sample_key_def
        CPubKey_GetLen_def)
qed

end
