(* ===== verification/Spec2Isabelle.thy ===== *)
theory Spec2Isabelle
  imports Tribus Uint256_Text Ledger_Sample Anon_Props Solver_Props Signature_Props Standard
begin

text \<open>
  A verification of the consensus core of the Denarius node, the C and C++ sources under
  \<open>src/src/\<close>. This theory states the properties, numbered C1 to C40; the models and the lemmas
  are in the theories it imports.

  The parts of the program and how they interact. A block is accepted when its header, hashed with
  the function \<open>Tribus\<close>, is at most the target that the field \<open>nBits\<close> of the header encodes; the
  target is recomputed from the times of the last blocks with the big numbers of \<open>CBigNum\<close>, and
  compared as a 256-bit number of the class template \<open>base_uint\<close>. The header commits to the
  transactions by the root of a Merkle tree; \<open>CheckBlock\<close> is where these parts meet. A transaction
  moves value from outputs of earlier transactions, named by outpoints, to its own outputs;
  \<open>CheckTransaction\<close> does the checks without context, and the interpreter of scripts decides
  whether an input may spend an output, where an opcode asks \<open>CheckSig\<close> to verify a signature of the
  serialized transaction.

  Theories and sources:

  \<^item> \<open>Prelude\<close>, \<open>C_Int\<close>: bytes, 16 to 64-bit words, memory operations on arrays with a result
    \<open>None\<close> for an access outside the array, signed integers whose overflow is written out.
  \<^item> \<open>Sph_Types\<close> (\<open>sph_types.h\<close>): rotations, encoders, decoders, the portable and native bodies.
  \<^item> \<open>Block_Stream\<close>: the loop that the update functions of all hash functions share, as a locale;
    its interpretations are in the theories of the functions.
  \<^item> \<open>Keccak\<close> (\<open>keccak.c\<close>, \<open>sph_keccak.h\<close>) with the specification \<open>Keccak_Spec\<close>; \<open>Keccak_Reps\<close>,
    \<open>Keccak_Perm\<close> and \<open>Keccak_Wide\<close> prove the permutation for the three representations of a
    lane, \<open>Keccak_Hash\<close> the streaming functions (C3 to C5).
  \<^item> \<open>Jh\<close> (\<open>jh.c\<close>, \<open>sph_jh.h\<close>) with \<open>Jh_Spec\<close>; \<open>Jh_Bits\<close>, \<open>Jh_Perm\<close>, \<open>Jh_Round\<close>, \<open>Jh_Const\<close>,
    \<open>Jh_Table\<close>, \<open>Jh_E8\<close>, \<open>Jh_IV\<close> relate the bit-sliced code to the nibbles of the specification,
    \<open>Jh_Hash\<close> proves the streaming functions (C6 to C9).
  \<^item> \<open>Aes_Helper\<close>, \<open>Echo\<close> (\<open>aes_helper.c\<close>, \<open>echo.c\<close>, \<open>sph_echo.h\<close>) with \<open>Echo_Spec\<close>; \<open>Aes_Field\<close>,
    \<open>Echo_Words\<close>, \<open>Echo_Round\<close>, \<open>Echo_Hash\<close> (C10, C11). \<open>Tribus\<close> (\<open>hashblock.h\<close>) composes the
    three functions (C1, C2, and C12 on their update functions).
  \<^item> \<open>Uint256\<close> (\<open>uint256.h\<close>); \<open>Bignum\<close>, \<open>Bignum_Laws\<close>, \<open>Bignum_Text\<close> (\<open>bignum.h\<close>): C13 to C16;
    \<open>Uint256_Text\<close> has the text form of \<open>base_uint\<close> (C21).
  \<^item> \<open>Chain\<close>, \<open>Chain_Props\<close> (\<open>main.cpp\<close>, \<open>main.h\<close>, \<open>util.h\<close>): targets, retargeting, rewards, trust,
    the flags and ancestors of a block index, on the main network and on the test network (C17 to
    C20, C22). \<open>Merkle\<close> (\<open>main.h\<close>) has the tree and its
    branches (C23, C24), \<open>Merkle_Unique\<close> that a root determines distinct hashes.
  \<^item> \<open>Serialize\<close>, \<open>Serialize_Props\<close> (\<open>serialize.h\<close>): the locale \<open>serializable\<close> is the contract of a
    type, interpreted on every type that is serialized (C25).
  \<^item> \<open>Core\<close> (\<open>core.h\<close>), \<open>Transaction\<close>, \<open>Transaction_Props\<close> (\<open>main.h\<close>, \<open>main.cpp\<close>): C26. \<open>Block\<close>,
    \<open>Block_Props\<close> (\<open>main.h\<close>, \<open>main.cpp\<close>): blocks, their serialization and \<open>CheckBlock\<close>, and what
    the header commits to (C27 to C29).
  \<^item> \<open>Anon\<close>, \<open>Anon_Props\<close> (\<open>main.cpp\<close>, \<open>core.h\<close>): the checks of anonymous inputs (C30). \<open>TxIndex\<close>,
    \<open>TxIndex_Props\<close> (\<open>main.cpp\<close>, \<open>main.h\<close>, \<open>txdb-leveldb.cpp\<close>): the index of transactions with the
    marks of spent outputs, which \<open>FetchInputs\<close>, \<open>ConnectInputs\<close> and \<open>DisconnectInputs\<close> read and
    change. \<open>Connect\<close>, \<open>Connect_Props\<close> (\<open>main.cpp\<close>): \<open>ConnectBlock\<close> and \<open>DisconnectBlock\<close>, and what one
    transaction does to the index and to the value of the unspent outputs. \<open>Ledger\<close> has the states of
    the index under connected and disconnected blocks as an inductive relation, with its invariants
    (C31 to C33); \<open>Ledger_Sample\<close> evaluates small chains.
  \<^item> \<open>Script\<close>, \<open>Script_Props\<close> (\<open>script.h\<close>): reading and writing scripts, \<open>CScriptNum\<close>. \<open>Signature\<close>,
    \<open>Signature_Props\<close> (\<open>script.cpp\<close>, \<open>key.h\<close>, \<open>key.cpp\<close>): encodings, \<open>SignatureHash\<close>, \<open>CheckSig\<close> and
    its cache, a \<open>std::set\<close>, whose operations and the order they need are in \<open>Ordered_Set\<close>.
    \<open>Interpreter\<close> (\<open>script.cpp\<close>): \<open>EvalScript\<close> with one definition for each group of opcodes,
    \<open>VerifyScript\<close>. \<open>Interpreter_Props\<close> has the accepting runs as an inductive relation, its
    invariants, and the value of the arithmetic; \<open>Standard\<close> evaluates the standard scripts and the
    lock time, \<open>Solver\<close>, \<open>Solver_Props\<close> have the templates of standard scripts and the tests of
    standard transactions (C34 to C40).

  Modelling. A C context or a C++ object is a record, an array a list, an integer of the source a
  word of its width (or an integer where the code stays in range, as the theories say), and an
  exception, a failed check or an undefined access a value of an option. The variants that the
  preprocessor selects are records of operations (\<open>lane_ops\<close>, \<open>jh_ops\<close>, \<open>echo_ops\<close>) or separate
  definitions: for JH 64-bit words, 32-bit words with a 64-bit counter, and 32-bit words with the
  counter in two halves; for Keccak three representations of a lane and seven unrollings; for ECHO
  two word sizes; and the small-footprint forms. C2 relates all their combinations. The machine is
  little-endian with 64-bit \<open>long\<close>; the bodies for big-endian machines are not modelled. The network
  is the argument \<open>fTestNet\<close> of the definitions that depend on it: \<open>LoadBlockIndex\<close> replaces the limit
  of the proof of work on the test network before a block is checked. There is no fuel: every loop is structural, has a measure (the bytes left, for the loops
  over a script or a message) or is a \<open>partial_function\<close> whose result is proved to exist (the
  division loop of \<open>ToString\<close>, C16).

  Parameters. OpenSSL is not part of the repository. Its big numbers are the record \<open>bn_lib\<close> and
  their documented behaviour the locale \<open>openssl_bn\<close>, which the integers themselves satisfy; its
  digests and its check of a signature are the record \<open>crypto\<close>. The hash of two nodes is a
  parameter of the Merkle tree and the hash of a header one of the checks of a block; \<open>Block\<close> and C27
  give them their values. The clock, the height of the best chain and the map of earlier
  transactions are arguments where the code reads globals. For connected blocks the record \<open>tx_env\<close>
  holds the block files, the memory pool, the tables of anonymous outputs and the check of ring
  signatures; the database of the index is a map whose operations do not fail.

  Bounds. Messages are shorter than \<open>2\<^sup>7\<^sup>0\<close> bytes for JH (its counter has 64 bits of blocks); vectors
  that are read back have at most \<open>2\<^sup>2\<^sup>5\<close> elements, which is what the reader accepts; scripts and
  pushes are shorter than \<open>2\<^sup>3\<^sup>2\<close> bytes.

  Not modelled: the wallet and the keys, the network, the miner, secure messages, fortunastakes
  (the check of their payment is an argument of \<open>ConnectBlock\<close>), names, the RPC server, the user
  interface and the start-up, which are input and output, threads and global state around the core;
  the choice of the best chain, the memory pool, the address index and the records of the block
  index on disk, which work on files and two database back ends; the vendored
  libraries (Tor, LevelDB, Ed25519, JSON, LZ4). In the modelled files: the detection of the
  architecture and the inline assembly of \<open>sph_types.h\<close>, \<open>getdouble\<close> of \<open>base_uint\<close>, the modular
  arithmetic of \<open>CBigNum\<close>, the text forms for logging, and signing.

  Findings, at the places the manifest names: the supply of proof-of-work rewards is above the
  documented maximum (\<open>total_reward\<close>), variable-length integers have several encodings (C25), lock times of
  five bytes are refused (C39), the fee against dust outputs is never raised
  (\<open>GetMinFee_outputs\<close>), \<open>push_uint64\<close> writes large numbers as negative ones
  (\<open>push_uint64_builds\<close>), \<open>AreInputsStandard\<close> stops at the first input with a script that is no
  standard form (\<open>AreInputsStandard_first\<close>), and \<open>YEARLY_BLOCKCOUNT*9000\<close> overflows. The
  script behind a hash is run without \<open>SCRIPT_VERIFY_P2SH\<close> too (C37), which is also the bit that keeps
  a signature out of the cache; scripts of up to 22,000 bytes are accepted where the test data expect
  10,000 (C34). A ring may have fewer members than its message says (C30), and a ring member with the
  header of an uncompressed key is looked up under bytes that were not initialised (\<open>ring_keys\<close>). For
  the ledger: a block with proof of work may hold a coinstake that creates any amount
  (\<open>coinstake_unchecked\<close>), two transactions of one block may spend the same anonymous output
  (\<open>key_image_twice\<close>), and a block with an anonymous input cannot be disconnected
  (\<open>DisconnectInputs_missing\<close>).
\<close>

section \<open>The proof-of-work hash\<close>

text \<open>
  C1. The proof-of-work hash of a block header is the composition of the three specifications:
  for data of fewer than \<open>2\<^sup>7\<^sup>0\<close> bytes, \<open>Tribus\<close> in the 64-bit build returns, no access leaves an
  array, and the result is the lower 32 bytes of ECHO-512 of Keccak-512 of JH-512 of the data,
  whatever the uninitialised contexts and arrays held.
\<close>

theorem tribus_hash:
  assumes "locals_wf L" and "length data < 2 ^ 70"
  shows "Tribus jh_wide_ops jh_iv_wide wide_ops echo_wide_ops L data = Some (bu_of_bytes (tribus_spec data)) \<and>
    bu_bytes (bu_of_bytes (tribus_spec data)) = tribus_spec data \<and> length (tribus_spec data) = 32"
  using Tribus_refines [OF jh_wide_variant wide_lane_rep echo_wide_words assms]
    bu_bytes_of_bytes [of "tribus_spec data" 8] by simp

lemma tribus_hash_witness:
  "Tribus jh_wide_ops jh_iv_wide wide_ops echo_wide_ops
     \<lparr>ctx_jh = \<lparr>jh_buf = replicate 64 7, jh_ptr = 99, jh_H = [], jh_block_count = 1\<rparr>,
      ctx_keccak = \<lparr>kc_buf = replicate 144 0, kc_ptr = 5, kc_lim = 0, kc_u = []\<rparr>,
      ctx_echo = \<lparr>ec_buf = replicate 128 1, ec_ptr = 0, ec_V = [], ec_C = (1, 2, 3, 4)\<rparr>,
      tmp_jh = replicate 128 0, tmp_keccak = replicate 73 9, tmp_echo = replicate 64 0\<rparr>
     (replicate 80 0) = Some (bu_of_bytes (tribus_spec (replicate 80 0)))"
  using tribus_hash [where data = "replicate 80 0"
      and L = "\<lparr>ctx_jh = \<lparr>jh_buf = replicate 64 7, jh_ptr = 99, jh_H = [], jh_block_count = 1\<rparr>,
        ctx_keccak = \<lparr>kc_buf = replicate 144 0, kc_ptr = 5, kc_lim = 0, kc_u = []\<rparr>,
        ctx_echo = \<lparr>ec_buf = replicate 128 1, ec_ptr = 0, ec_V = [], ec_C = (1, 2, 3, 4)\<rparr>,
        tmp_jh = replicate 128 0, tmp_keccak = replicate 73 9, tmp_echo = replicate 64 0\<rparr>"]
  by (simp add: locals_wf_def)

text \<open>
  C2. Every build computes the same proof-of-work hash as the 64-bit one, for every choice of the
  representations: JH with 64-bit words, with 32-bit words and a 64-bit counter of blocks, or with
  32-bit words and the counter in two halves; Keccak with 64-bit lanes, pairs of halves, or pairs of
  even and odd bits; ECHO with 64-bit or 32-bit words (18 combinations), for data of fewer than
  \<open>2\<^sup>7\<^sup>0\<close> bytes and whatever the contexts and arrays hold. The other choices of the preprocessor are the same functions: the small-footprint
  forms of the permutation of JH, every unrolling of Keccak, its copy of the state into local
  variables, and the loop over the cells of ECHO.
\<close>

theorem tribus_builds_agree:
  assumes "locals_wf L1" and "length data < 2 ^ 70"
  shows "(let h = Tribus jh_wide_ops jh_iv_wide wide_ops echo_wide_ops L1 data in
      for_all_locals (\<lambda>L. Tribus jh_wide_ops jh_iv_wide wide_ops echo_wide_ops L data) h \<and>
      for_all_locals (\<lambda>L. Tribus jh_wide_ops jh_iv_wide wide_ops echo_narrow_ops L data) h \<and>
      for_all_locals (\<lambda>L. Tribus jh_wide_ops jh_iv_wide narrow_ops echo_wide_ops L data) h \<and>
      for_all_locals (\<lambda>L. Tribus jh_wide_ops jh_iv_wide narrow_ops echo_narrow_ops L data) h \<and>
      for_all_locals (\<lambda>L. Tribus jh_wide_ops jh_iv_wide interleaved_ops echo_wide_ops L data) h \<and>
      for_all_locals (\<lambda>L. Tribus jh_wide_ops jh_iv_wide interleaved_ops echo_narrow_ops L data) h \<and>
      for_all_locals (\<lambda>L. Tribus jh_narrow64_ops jh_iv_narrow wide_ops echo_wide_ops L data) h \<and>
      for_all_locals (\<lambda>L. Tribus jh_narrow64_ops jh_iv_narrow wide_ops echo_narrow_ops L data) h \<and>
      for_all_locals (\<lambda>L. Tribus jh_narrow64_ops jh_iv_narrow narrow_ops echo_wide_ops L data) h \<and>
      for_all_locals (\<lambda>L. Tribus jh_narrow64_ops jh_iv_narrow narrow_ops echo_narrow_ops L data) h \<and>
      for_all_locals (\<lambda>L. Tribus jh_narrow64_ops jh_iv_narrow interleaved_ops echo_wide_ops L data) h \<and>
      for_all_locals (\<lambda>L. Tribus jh_narrow64_ops jh_iv_narrow interleaved_ops echo_narrow_ops L data) h \<and>
      for_all_locals (\<lambda>L. Tribus jh_narrow_ops jh_iv_narrow wide_ops echo_wide_ops L data) h \<and>
      for_all_locals (\<lambda>L. Tribus jh_narrow_ops jh_iv_narrow wide_ops echo_narrow_ops L data) h \<and>
      for_all_locals (\<lambda>L. Tribus jh_narrow_ops jh_iv_narrow narrow_ops echo_wide_ops L data) h \<and>
      for_all_locals (\<lambda>L. Tribus jh_narrow_ops jh_iv_narrow narrow_ops echo_narrow_ops L data) h \<and>
      for_all_locals (\<lambda>L. Tribus jh_narrow_ops jh_iv_narrow interleaved_ops echo_wide_ops L data) h \<and>
      for_all_locals (\<lambda>L. Tribus jh_narrow_ops jh_iv_narrow interleaved_ops echo_narrow_ops L data) h) \<and>
    (E8_switch jops r = E8 jops r \<and> E8_loop jops r = E8 jops r) \<and>
    (length A = 25 \<longrightarrow> KECCAK_F_1600_unroll n kops A = KECCAK_F_1600 kops A \<and>
      INPUT_BUF_copy kops 72 b A = INPUT_BUF kops 72 b A) \<and>
    aes_2rounds_all eops WK = BIG_SUB_WORDS eops WK"
proof -
  have k: "(64, 72) \<in> set keccak_rates" by (simp add: keccak_rates_def)
  note t = Tribus_for_all_locals [OF _ wide_lane_rep _ assms(2)] Tribus_for_all_locals [OF _ narrow_lane_rep _ assms(2)]
    Tribus_for_all_locals [OF _ interleaved_lane_rep _ assms(2)]
  note variants = jh_wide_variant jh_narrow64_variant jh_narrow_variant echo_wide_words echo_narrow_words
  have "Tribus jh_wide_ops jh_iv_wide wide_ops echo_wide_ops L1 data = Some (bu_of_bytes (tribus_spec data))"
    using Tribus_refines [OF jh_wide_variant wide_lane_rep echo_wide_words assms] by blast
  then have h: "for_all_locals f (Tribus jh_wide_ops jh_iv_wide wide_ops echo_wide_ops L1 data)"
    if "for_all_locals f (Some (bu_of_bytes (tribus_spec data)))" for f :: "('w, 'x, 'y, 'z) tribus_locals \<Rightarrow> base_uint option"
    using that by simp
  show ?thesis
    unfolding Let_def
    by (intro conjI h t variants) (simp_all add: E8_switch_fold E8_fold E8_loop_fold KECCAK_F_unroll_any INPUT_BUF_copy_eq [OF k]
        aes_2rounds_all_eq)
qed

lemma tribus_builds_agree_witness:
  "Tribus jh_narrow64_ops jh_iv_narrow interleaved_ops echo_narrow_ops
     \<lparr>ctx_jh = \<lparr>jh_buf = replicate 64 7, jh_ptr = 99, jh_H = [], jh_block_count = 1\<rparr>,
      ctx_keccak = \<lparr>kc_buf = replicate 144 0, kc_ptr = 5, kc_lim = 0, kc_u = []\<rparr>,
      ctx_echo = \<lparr>ec_buf = replicate 128 1, ec_ptr = 0, ec_V = [], ec_C = (1, 2, 3, 4)\<rparr>,
      tmp_jh = replicate 128 0, tmp_keccak = replicate 73 9, tmp_echo = replicate 64 0\<rparr> [1, 2, 3] =
   Tribus jh_wide_ops jh_iv_wide wide_ops echo_wide_ops
     \<lparr>ctx_jh = \<lparr>jh_buf = replicate 64 0, jh_ptr = 0, jh_H = [], jh_block_count = 1\<rparr>,
      ctx_keccak = \<lparr>kc_buf = replicate 144 0, kc_ptr = 5, kc_lim = 0, kc_u = []\<rparr>,
      ctx_echo = \<lparr>ec_buf = replicate 128 1, ec_ptr = 0, ec_V = [], ec_C = (1, 2, 3, 4)\<rparr>,
      tmp_jh = replicate 128 0, tmp_keccak = replicate 73 9, tmp_echo = replicate 64 0\<rparr> [1, 2, 3] \<and>
   KECCAK_F_1600_unroll 2 wide_ops (replicate 25 1) = KECCAK_F_1600 wide_ops (replicate 25 1)"
proof -
  let ?L = "\<lparr>ctx_jh = \<lparr>jh_buf = replicate 64 0, jh_ptr = 0, jh_H = [], jh_block_count = 1\<rparr>,
      ctx_keccak = \<lparr>kc_buf = replicate 144 0, kc_ptr = 5, kc_lim = 0, kc_u = []\<rparr>,
      ctx_echo = \<lparr>ec_buf = replicate 128 1, ec_ptr = 0, ec_V = [], ec_C = (1, 2, 3, 4)\<rparr>,
      tmp_jh = replicate 128 0, tmp_keccak = replicate 73 9, tmp_echo = replicate 64 0\<rparr>"
  have "locals_wf ?L" "length [1, 2, 3 :: byte] < 2 ^ 70" "length (replicate 25 1) = 25" by (simp_all add: locals_wf_def)
  with tribus_builds_agree [of ?L "[1, 2, 3]" _ _ "replicate 25 1" 2 wide_ops]
  have "for_all_locals (\<lambda>L. Tribus jh_narrow64_ops jh_iv_narrow interleaved_ops echo_narrow_ops L [1, 2, 3])
      (Tribus jh_wide_ops jh_iv_wide wide_ops echo_wide_ops ?L [1, 2, 3])"
    "KECCAK_F_1600_unroll 2 wide_ops (replicate 25 1) = KECCAK_F_1600 wide_ops (replicate 25 1)"
    unfolding Let_def by blast+
  then show ?thesis by (simp add: for_all_locals_def locals_wf_def)
qed

section \<open>Keccak\<close>

text \<open>
  C3. The four public Keccak functions compute Keccak: whatever the pieces the message arrives
  in, whatever the context and the local array of the close function held before, and for any
  number \<open>n < 8\<close> of extra bits, init, update and close return and the digest is that of the
  specification. No access leaves a buffer.
\<close>

theorem sph_keccak_digests:
  assumes "length (kc_buf cc) = 144" and "n < 8"
    and "length ta = 145" "length tb = 137" "length tc = 105" "length td = 73"
  shows "(run_hash (sph_keccak224_init wide_ops) (sph_keccak224 wide_ops)
      (\<lambda>c. sph_keccak224_addbits_and_close wide_ops ta c ub n) cc ds =
      Some (keccak_spec 144 28 (bits_of_bytes (concat ds) @ last_bits ub n))) \<and>
    (run_hash (sph_keccak256_init wide_ops) (sph_keccak256 wide_ops)
      (\<lambda>c. sph_keccak256_addbits_and_close wide_ops tb c ub n) cc ds =
      Some (keccak_spec 136 32 (bits_of_bytes (concat ds) @ last_bits ub n))) \<and>
    (run_hash (sph_keccak384_init wide_ops) (sph_keccak384 wide_ops)
      (\<lambda>c. sph_keccak384_addbits_and_close wide_ops tc c ub n) cc ds =
      Some (keccak_spec 104 48 (bits_of_bytes (concat ds) @ last_bits ub n))) \<and>
    (run_hash (sph_keccak512_init wide_ops) (sph_keccak512 wide_ops)
      (\<lambda>c. sph_keccak512_addbits_and_close wide_ops td c ub n) cc ds =
      Some (keccak_spec 72 64 (bits_of_bytes (concat ds) @ last_bits ub n)))"
  unfolding sph_keccak224_init_def [abs_def] sph_keccak224_def [abs_def] sph_keccak224_addbits_and_close_def
    sph_keccak256_init_def [abs_def] sph_keccak256_def [abs_def] sph_keccak256_addbits_and_close_def
    sph_keccak384_init_def [abs_def] sph_keccak384_def [abs_def] sph_keccak384_addbits_and_close_def
    sph_keccak512_init_def [abs_def] sph_keccak512_def [abs_def] sph_keccak512_addbits_and_close_def
  by (intro conjI; rule keccak_run_hash [OF wide_lane_rep _ assms(1) assms(2)]; simp add: keccak_rates_def assms)

lemma sph_keccak_digests_witness:
  "run_hash (sph_keccak512_init wide_ops) (sph_keccak512 wide_ops)
     (\<lambda>c. sph_keccak512_addbits_and_close wide_ops (replicate 73 7) c 0xA0 3)
     \<lparr>kc_buf = replicate 144 9, kc_ptr = 5, kc_lim = 0, kc_u = []\<rparr> [[1, 2], [3]] =
   Some (keccak_spec 72 64 (bits_of_bytes [1, 2, 3] @ last_bits 0xA0 3))"
  using sph_keccak_digests [where cc = "\<lparr>kc_buf = replicate 144 9, kc_ptr = 5, kc_lim = 0, kc_u = []\<rparr>"
      and n = 3 and ta = "replicate 145 0" and tb = "replicate 137 0" and tc = "replicate 105 0"
      and td = "replicate 73 7" and ub = "0xA0" and ds = "[[1, 2], [3]]"]
  by simp

text \<open>
  C4. The three ways of representing a lane (one 64-bit word, two 32-bit halves, two interleaved
  32-bit halves) compute the same digest, for each of the four rates.
\<close>

theorem keccak_variants_agree:
  assumes "(d, lim) \<in> {(28, 144), (32, 136), (48, 104), (64, 72)}" and "n < 8" and "length tmp = lim + 1"
    and "length (kc_buf c1) = 144" and "length (kc_buf c2) = 144" and "length (kc_buf c3) = 144"
  shows "run_hash (keccak_init narrow_ops sz) (keccak_core narrow_ops lim)
      (\<lambda>c. keccak_close narrow_ops d lim tmp c ub n) c2 ds =
    run_hash (keccak_init wide_ops sz) (keccak_core wide_ops lim)
      (\<lambda>c. keccak_close wide_ops d lim tmp c ub n) c1 ds \<and>
    run_hash (keccak_init interleaved_ops sz) (keccak_core interleaved_ops lim)
      (\<lambda>c. keccak_close interleaved_ops d lim tmp c ub n) c3 ds =
    run_hash (keccak_init wide_ops sz) (keccak_core wide_ops lim)
      (\<lambda>c. keccak_close wide_ops d lim tmp c ub n) c1 ds"
proof -
  have "(d, lim) \<in> set keccak_rates" using assms(1) by (simp add: keccak_rates_def)
  note hash = keccak_run_hash [OF _ this _ assms(2,3)]
  show ?thesis
    by (simp only: hash [OF wide_lane_rep assms(4)] hash [OF narrow_lane_rep assms(5)]
        hash [OF interleaved_lane_rep assms(6)])
qed

lemma keccak_variants_agree_witness:
  "run_hash (keccak_init narrow_ops 512) (keccak_core narrow_ops 72)
      (\<lambda>c. keccak_close narrow_ops 64 72 (replicate 73 1) c 0x80 1)
      \<lparr>kc_buf = replicate 144 0, kc_ptr = 3, kc_lim = 0, kc_u = [(1, 2)]\<rparr> [[7], []] =
    run_hash (keccak_init wide_ops 512) (keccak_core wide_ops 72)
      (\<lambda>c. keccak_close wide_ops 64 72 (replicate 73 1) c 0x80 1)
      \<lparr>kc_buf = replicate 144 5, kc_ptr = 0, kc_lim = 0, kc_u = []\<rparr> [[7], []]"
  using keccak_variants_agree [where d = 64 and lim = 72 and n = 1 and tmp = "replicate 73 1" and ub = "0x80"
      and sz = 512 and ?c2.0 = "\<lparr>kc_buf = replicate 144 0, kc_ptr = 3, kc_lim = 0, kc_u = [(1, 2)]\<rparr>"
      and ?c1.0 = "\<lparr>kc_buf = replicate 144 5, kc_ptr = 0, kc_lim = 0, kc_u = []\<rparr>"
      and ?c3.0 = "\<lparr>kc_buf = replicate 144 5, kc_ptr = 0, kc_lim = 0, kc_u = []\<rparr>" and ds = "[[7], []]"]
  by simp

text \<open>
  C5. Every unrolling of the permutation, with complemented lanes and renamed variables, computes
  Keccak-f[1600] of the specification on the state it represents.
\<close>

theorem keccak_f_permutation:
  assumes "length A = 25"
  shows "keccak_state (\<lambda>x. x) (KECCAK_F_1600_unroll n wide_ops (mask_lanes out_mask A)) = keccak_f_spec A"
  using KECCAK_F_wide [OF assms, of n] assms by (simp add: keccak_state_def mask_lanes_involutive)

lemma keccak_f_permutation_witness:
  "keccak_state (\<lambda>x. x) (KECCAK_F_1600_unroll 4 wide_ops (mask_lanes out_mask (replicate 25 1))) =
   keccak_f_spec (replicate 25 1)"
  using keccak_f_permutation [where n = 4 and A = "replicate 25 1"] by simp

section \<open>JH\<close>

text \<open>
  C6. The four public JH functions of the 64-bit build compute JH: for a message of fewer than
  \<open>2\<^sup>70\<close> bytes (the block counter is a 64-bit word), in any pieces, with \<open>n < 8\<close> extra bits,
  whatever the context and the local array held before, init, update and close return and the
  digest is that of the specification.
\<close>

theorem sph_jh_digests:
  assumes "length (jh_buf cc) = 64" and "n < 8" and "length tmp = 128" and "length (concat ds) < 2 ^ 70"
  shows "(run_hash (sph_jh224_init jh_wide_ops jh_iv_wide) (sph_jh224 jh_wide_ops)
      (\<lambda>c. sph_jh224_addbits_and_close jh_wide_ops jh_iv_wide tmp c ub n) cc ds =
      Some (msb_bytes (jh_spec 224 (msb_bits (concat ds) @ tail_bits ub n)))) \<and>
    (run_hash (sph_jh256_init jh_wide_ops jh_iv_wide) (sph_jh256 jh_wide_ops)
      (\<lambda>c. sph_jh256_addbits_and_close jh_wide_ops jh_iv_wide tmp c ub n) cc ds =
      Some (msb_bytes (jh_spec 256 (msb_bits (concat ds) @ tail_bits ub n)))) \<and>
    (run_hash (sph_jh384_init jh_wide_ops jh_iv_wide) (sph_jh384 jh_wide_ops)
      (\<lambda>c. sph_jh384_addbits_and_close jh_wide_ops jh_iv_wide tmp c ub n) cc ds =
      Some (msb_bytes (jh_spec 384 (msb_bits (concat ds) @ tail_bits ub n)))) \<and>
    (run_hash (sph_jh512_init jh_wide_ops jh_iv_wide) (sph_jh512 jh_wide_ops)
      (\<lambda>c. sph_jh512_addbits_and_close jh_wide_ops jh_iv_wide tmp c ub n) cc ds =
      Some (msb_bytes (jh_spec 512 (msb_bits (concat ds) @ tail_bits ub n))))"
  unfolding sph_jh224_init_def [abs_def] sph_jh224_def [abs_def] sph_jh224_addbits_and_close_def
    sph_jh256_init_def [abs_def] sph_jh256_def [abs_def] sph_jh256_addbits_and_close_def
    sph_jh384_init_def [abs_def] sph_jh384_def [abs_def] sph_jh384_addbits_and_close_def
    sph_jh512_init_def [abs_def] sph_jh512_def [abs_def] sph_jh512_addbits_and_close_def
  using jh_w.jh_run_hash [OF _ assms, where d = 224] jh_w.jh_run_hash [OF _ assms, where d = 256]
    jh_w.jh_run_hash [OF _ assms, where d = 384] jh_w.jh_run_hash [OF _ assms, where d = 512]
  by (simp add: jh_sizes_def)

lemma sph_jh_digests_witness:
  "run_hash (sph_jh512_init jh_wide_ops jh_iv_wide) (sph_jh512 jh_wide_ops)
     (\<lambda>c. sph_jh512_addbits_and_close jh_wide_ops jh_iv_wide (replicate 128 3) c 0xC0 2)
     \<lparr>jh_buf = replicate 64 9, jh_ptr = 77, jh_H = [], jh_block_count = 4\<rparr> [[1], [2, 3]] =
   Some (msb_bytes (jh_spec 512 (msb_bits [1, 2, 3] @ tail_bits 0xC0 2)))"
  using sph_jh_digests [where cc = "\<lparr>jh_buf = replicate 64 9, jh_ptr = 77, jh_H = [], jh_block_count = 4\<rparr>"
      and n = 2 and tmp = "replicate 128 3" and ub = "0xC0" and ds = "[[1], [2, 3]]"]
  by simp

text \<open>
  C7. The 32-bit builds compute the same digests as the 64-bit build: their slices of two rows of
  four words, their tables of 32-bit constants and initial values and their counter of blocks, in
  two halves or one 64-bit word, represent the same function.
\<close>

theorem jh_variants_agree:
  assumes "d \<in> {224, 256, 384, 512}" and "n < 8" and "length tmp = 128" and "length (concat ds) < 2 ^ 70"
    and "length (jh_buf c1) = 64" and "length (jh_buf c2) = 64" and "length (jh_buf c3) = 64"
  shows "run_hash (jh_init jh_narrow_ops (jh_iv_narrow d)) (jh_core jh_narrow_ops)
      (\<lambda>c. jh_close jh_narrow_ops (d div 32) (jh_iv_narrow d) tmp c ub n) c2 ds =
    run_hash (jh_init jh_wide_ops (jh_iv_wide d)) (jh_core jh_wide_ops)
      (\<lambda>c. jh_close jh_wide_ops (d div 32) (jh_iv_wide d) tmp c ub n) c1 ds \<and>
    run_hash (jh_init jh_narrow64_ops (jh_iv_narrow d)) (jh_core jh_narrow64_ops)
      (\<lambda>c. jh_close jh_narrow64_ops (d div 32) (jh_iv_narrow d) tmp c ub n) c3 ds =
    run_hash (jh_init jh_wide_ops (jh_iv_wide d)) (jh_core jh_wide_ops)
      (\<lambda>c. jh_close jh_wide_ops (d div 32) (jh_iv_wide d) tmp c ub n) c1 ds"
proof -
  have "d \<in> set jh_sizes" using assms(1) by (simp add: jh_sizes_def)
  then show ?thesis
    by (simp only: jh_w.jh_run_hash [OF _ assms(5,2-4)] jh_n.jh_run_hash [OF _ assms(6,2-4)]
        jh_n64.jh_run_hash [OF _ assms(7,2-4)])
qed

lemma jh_variants_agree_witness:
  "run_hash (jh_init jh_narrow_ops (jh_iv_narrow 512)) (jh_core jh_narrow_ops)
      (\<lambda>c. jh_close jh_narrow_ops 16 (jh_iv_narrow 512) (replicate 128 0) c 0 0)
      \<lparr>jh_buf = replicate 64 1, jh_ptr = 0, jh_H = [], jh_block_count = (3, 4)\<rparr> [[8, 9]] =
    run_hash (jh_init jh_wide_ops (jh_iv_wide 512)) (jh_core jh_wide_ops)
      (\<lambda>c. jh_close jh_wide_ops 16 (jh_iv_wide 512) (replicate 128 0) c 0 0)
      \<lparr>jh_buf = replicate 64 2, jh_ptr = 0, jh_H = [], jh_block_count = 0\<rparr> [[8, 9]]"
  using jh_variants_agree [where d = 512 and n = 0 and tmp = "replicate 128 0" and ub = 0 and ds = "[[8, 9]]"
      and ?c1.0 = "\<lparr>jh_buf = replicate 64 2, jh_ptr = 0, jh_H = [], jh_block_count = 0\<rparr>"
      and ?c2.0 = "\<lparr>jh_buf = replicate 64 1, jh_ptr = 0, jh_H = [], jh_block_count = (3, 4)\<rparr>"
      and ?c3.0 = "\<lparr>jh_buf = replicate 64 1, jh_ptr = 0, jh_H = [], jh_block_count = 5\<rparr>"]
  by simp

text \<open>
  C8. The three forms of \<open>E8\<close> (unrolled, by groups of seven rounds, and the loop of the
  small-footprint build with its \<open>switch\<close>) are the same function, on either word size.
\<close>

theorem E8_forms_agree:
  "E8_unrolled ops h = E8_loop ops h \<and> E8_switch ops h = E8_loop ops h \<and> E8 ops h = E8_loop ops h"
  by (simp only: E8_unrolled_fold E8_loop_fold E8_switch_fold E8_fold)

text \<open>
  C9. The bit-sliced \<open>E8\<close> is the permutation of the specification: grouping the 1024 bits into
  256 nibbles, 42 rounds of S-boxes, linear map and permutation of the nibbles, and degrouping.
\<close>

theorem jh_E8_permutation:
  assumes "regs_wf 2 h" and "regs_wf 4 g"
  shows "reg_bits (E8 jh_wide_ops h) = E8_spec (reg_bits h) \<and> reg_bits (E8 jh_narrow_ops g) = E8_spec (reg_bits g)"
  using jh_wide.E8_refines [of h] jh_narrow.E8_refines [of g] assms by (simp add: jh_wide_ops_def jh_narrow_ops_def)

lemma jh_E8_permutation_witness:
  "reg_bits (E8 jh_wide_ops (replicate 8 [1, 2])) = E8_spec (reg_bits (replicate 8 [1 :: u64, 2]))"
  using jh_E8_permutation [where h = "replicate 8 [1, 2]" and g = "replicate 8 [0, 0, 0, 0]"]
  by (simp add: regs_wf_def)

section \<open>ECHO\<close>

text \<open>
  C10. The four public ECHO functions of the 64-bit build compute ECHO: for a message in any
  pieces, with \<open>n < 8\<close> extra bits, whatever the context and the local array held before, init,
  update and close return and the digest is that of the specification.
\<close>

theorem sph_echo_digests:
  assumes "length (ec_buf cs) = 192" and "length (ec_buf cb) = 128" and "n < 8"
    and "length ts = 32" and "length tb = 64"
  shows "(run_hash (sph_echo224_init echo_wide_ops) (sph_echo224 echo_wide_ops)
      (\<lambda>c. sph_echo224_addbits_and_close echo_wide_ops ts c ub n) cs ds =
      Some (echo_spec 224 (msb_bits (concat ds) @ tail_bits ub n))) \<and>
    (run_hash (sph_echo256_init echo_wide_ops) (sph_echo256 echo_wide_ops)
      (\<lambda>c. sph_echo256_addbits_and_close echo_wide_ops ts c ub n) cs ds =
      Some (echo_spec 256 (msb_bits (concat ds) @ tail_bits ub n))) \<and>
    (run_hash (sph_echo384_init echo_wide_ops) (sph_echo384 echo_wide_ops)
      (\<lambda>c. sph_echo384_addbits_and_close echo_wide_ops tb c ub n) cb ds =
      Some (echo_spec 384 (msb_bits (concat ds) @ tail_bits ub n))) \<and>
    (run_hash (sph_echo512_init echo_wide_ops) (sph_echo512 echo_wide_ops)
      (\<lambda>c. sph_echo512_addbits_and_close echo_wide_ops tb c ub n) cb ds =
      Some (echo_spec 512 (msb_bits (concat ds) @ tail_bits ub n)))"
  unfolding sph_echo224_init_def [abs_def] sph_echo224_def [abs_def] sph_echo224_addbits_and_close_def
    sph_echo256_init_def [abs_def] sph_echo256_def [abs_def] sph_echo256_addbits_and_close_def
    sph_echo384_init_def [abs_def] sph_echo384_def [abs_def] sph_echo384_addbits_and_close_def
    sph_echo512_init_def [abs_def] sph_echo512_def [abs_def] sph_echo512_addbits_and_close_def
    echo_small_init_def [abs_def] echo_small_core_def [abs_def] echo_small_close_def
    echo_big_init_def [abs_def] echo_big_core_def [abs_def] echo_big_close_def
  using es_wide.echo_run_hash [of 224 cs n ts ub ds] es_wide.echo_run_hash [of 256 cs n ts ub ds]
    eb_wide.echo_run_hash [of 384 cb n tb ub ds] eb_wide.echo_run_hash [of 512 cb n tb ub ds] assms
  by (simp add: echo_rows_def echo_num_rounds_def es_wide.buf_size eb_wide.buf_size)

lemma sph_echo_digests_witness:
  "run_hash (sph_echo512_init echo_wide_ops) (sph_echo512 echo_wide_ops)
     (\<lambda>c. sph_echo512_addbits_and_close echo_wide_ops (replicate 64 3) c 0xC0 2)
     \<lparr>ec_buf = replicate 128 9, ec_ptr = 77, ec_V = [], ec_C = (4, 0, 0, 0)\<rparr> [[1], [2, 3]] =
   Some (echo_spec 512 (msb_bits [1, 2, 3] @ tail_bits 0xC0 2))"
  using sph_echo_digests [where cb = "\<lparr>ec_buf = replicate 128 9, ec_ptr = 77, ec_V = [], ec_C = (4, 0, 0, 0)\<rparr>"
      and cs = "\<lparr>ec_buf = replicate 192 9, ec_ptr = 77, ec_V = [], ec_C = (4, 0, 0, 0)\<rparr>"
      and n = 2 and tb = "replicate 64 3" and ts = "replicate 32 3" and ub = "0xC0" and ds = "[[1], [2, 3]]"]
  by simp

text \<open>
  C11. The 32-bit build of ECHO computes the same digests as the 64-bit build.
\<close>

theorem echo_variants_agree:
  assumes "n < 8" and "length (ec_buf s1) = 192" and "length (ec_buf s2) = 192" and "length ts = 32"
    and "length (ec_buf b1) = 128" and "length (ec_buf b2) = 128" and "length tb = 64"
    and "d \<in> {224, 256}" and "e \<in> {384, 512}"
  shows "run_hash (echo_small_init echo_narrow_ops d) (echo_small_core echo_narrow_ops)
      (\<lambda>c. echo_small_close echo_narrow_ops (d div 32) ts c ub n) s2 ds =
    run_hash (echo_small_init echo_wide_ops d) (echo_small_core echo_wide_ops)
      (\<lambda>c. echo_small_close echo_wide_ops (d div 32) ts c ub n) s1 ds \<and>
    run_hash (echo_big_init echo_narrow_ops e) (echo_big_core echo_narrow_ops)
      (\<lambda>c. echo_big_close echo_narrow_ops (e div 32) tb c ub n) b2 ds =
    run_hash (echo_big_init echo_wide_ops e) (echo_big_core echo_wide_ops)
      (\<lambda>c. echo_big_close echo_wide_ops (e div 32) tb c ub n) b1 ds"
proof -
  have d: "echo_rows d = 4" "echo_num_rounds d = 8" "d \<in> {224, 256, 384, 512}"
    and e: "echo_rows e = 8" "echo_num_rounds e = 10" "e \<in> {224, 256, 384, 512}"
    using assms(8,9) by (auto simp: echo_rows_def echo_num_rounds_def)
  show ?thesis
    unfolding echo_small_init_def [abs_def] echo_small_core_def [abs_def] echo_small_close_def
      echo_big_init_def [abs_def] echo_big_core_def [abs_def] echo_big_close_def
    using es_wide.echo_run_hash [OF d, of s1 n ts ub ds] es_narrow.echo_run_hash [OF d, of s2 n ts ub ds]
      eb_wide.echo_run_hash [OF e, of b1 n tb ub ds] eb_narrow.echo_run_hash [OF e, of b2 n tb ub ds] assms
    by (simp add: es_wide.buf_size eb_wide.buf_size es_narrow.buf_size eb_narrow.buf_size)
qed

lemma echo_variants_agree_witness:
  "run_hash (echo_big_init echo_narrow_ops 512) (echo_big_core echo_narrow_ops)
      (\<lambda>c. echo_big_close echo_narrow_ops 16 (replicate 64 0) c 0 0)
      \<lparr>ec_buf = replicate 128 9, ec_ptr = 77, ec_V = [], ec_C = (4, 0, 0, 0)\<rparr> [[5]] =
    run_hash (echo_big_init echo_wide_ops 512) (echo_big_core echo_wide_ops)
      (\<lambda>c. echo_big_close echo_wide_ops 16 (replicate 64 0) c 0 0)
      \<lparr>ec_buf = replicate 128 1, ec_ptr = 0, ec_V = [], ec_C = (0, 0, 0, 0)\<rparr> [[5]]"
  using echo_variants_agree [where n = 0 and ub = 0 and ds = "[[5]]" and d = 256 and e = 512
      and ts = "replicate 32 0" and tb = "replicate 64 0"
      and ?s1.0 = "\<lparr>ec_buf = replicate 192 9, ec_ptr = 77, ec_V = [], ec_C = (4, 0, 0, 0)\<rparr>"
      and ?s2.0 = "\<lparr>ec_buf = replicate 192 9, ec_ptr = 77, ec_V = [], ec_C = (4, 0, 0, 0)\<rparr>"
      and ?b1.0 = "\<lparr>ec_buf = replicate 128 1, ec_ptr = 0, ec_V = [], ec_C = (0, 0, 0, 0)\<rparr>"
      and ?b2.0 = "\<lparr>ec_buf = replicate 128 9, ec_ptr = 77, ec_V = [], ec_C = (4, 0, 0, 0)\<rparr>"]
  by simp

section \<open>The update functions and the byte order\<close>

text \<open>
  C12. The update functions of the three hash functions (JH; Keccak at its four rates; ECHO with its
  two sizes of the state; in every representation of the words) keep the invariant of a context, the
  buffer having the size of its array and the fill pointer lying inside a block, for input of any
  length: they return, so no access leaves the buffer, and afterwards the pointer is the number of
  input bytes not yet compressed.
\<close>

theorem update_invariant:
  assumes "length (jh_buf cj) = 64" and "jh_ptr cj < 64"
    and "lim \<in> {144, 136, 104, 72}" and "length (kc_buf ck) = 144" and "kc_ptr ck < lim"
    and "length (ec_buf cs) = 192" and "ec_ptr cs < 192" and "length (ec_buf cs') = 192" and "ec_ptr cs' < 192"
    and "length (ec_buf cb) = 128" and "ec_ptr cb < 128" and "length (ec_buf cb') = 128" and "ec_ptr cb' < 128"
  shows "(\<exists>c. jh_core jops cj d = Some c \<and> length (jh_buf c) = 64 \<and> jh_ptr c = (jh_ptr cj + length d) mod 64) \<and>
    (\<exists>c. keccak_core kops lim ck d = Some c \<and> length (kc_buf c) = 144 \<and> kc_ptr c = (kc_ptr ck + length d) mod lim) \<and>
    (\<exists>c. echo_small_core echo_wide_ops cs d = Some c \<and> length (ec_buf c) = 192 \<and> ec_ptr c = (ec_ptr cs + length d) mod 192) \<and>
    (\<exists>c. echo_small_core echo_narrow_ops cs' d = Some c \<and> length (ec_buf c) = 192 \<and> ec_ptr c = (ec_ptr cs' + length d) mod 192) \<and>
    (\<exists>c. echo_big_core echo_wide_ops cb d = Some c \<and> length (ec_buf c) = 128 \<and> ec_ptr c = (ec_ptr cb + length d) mod 128) \<and>
    (\<exists>c. echo_big_core echo_narrow_ops cb' d = Some c \<and> length (ec_buf c) = 128 \<and> ec_ptr c = (ec_ptr cb' + length d) mod 128)"
  using assms by (intro conjI jh_update keccak_update echo_updates)

lemma update_invariant_witness:
  "(\<exists>c. keccak_core wide_ops 104 \<lparr>kc_buf = replicate 144 0, kc_ptr = 102, kc_lim = 104, kc_u = replicate 25 0\<rparr> [1, 2, 3] = Some c \<and>
      kc_ptr c = 1) \<and>
   (\<exists>c. echo_small_core echo_narrow_ops \<lparr>ec_buf = replicate 192 9, ec_ptr = 191, ec_V = replicate 16 0, ec_C = (1, 0, 0, 0)\<rparr>
      [1, 2, 3] = Some c \<and> ec_ptr c = 2)"
  using update_invariant [where cj = "\<lparr>jh_buf = replicate 64 9, jh_ptr = 7, jh_H = [], jh_block_count = 4\<rparr>"
      and ck = "\<lparr>kc_buf = replicate 144 0, kc_ptr = 102, kc_lim = 104, kc_u = replicate 25 0\<rparr>" and lim = 104
      and cs = "\<lparr>ec_buf = replicate 192 1, ec_ptr = 0, ec_V = [], ec_C = (0, 0, 0, 0)\<rparr>"
      and cs' = "\<lparr>ec_buf = replicate 192 9, ec_ptr = 191, ec_V = replicate 16 0, ec_C = (1, 0, 0, 0)\<rparr>"
      and cb = "\<lparr>ec_buf = replicate 128 1, ec_ptr = 0, ec_V = [], ec_C = (0, 0, 0, 0)\<rparr>"
      and cb' = "\<lparr>ec_buf = replicate 128 1, ec_ptr = 0, ec_V = [], ec_C = (0, 0, 0, 0)\<rparr>"
      and jops = jh_wide_ops and kops = wide_ops and d = "[1, 2, 3]"]
  by auto

section \<open>256-bit integers\<close>

text \<open>
  C13. The arithmetic of \<open>base_uint\<close> is that of the numbers modulo \<open>2 ^ (32 * WIDTH)\<close>, for any
  width of at least two words: the carries of \<open>+=\<close>, the increments and decrements that run over
  several words, the complement, negation as complement plus one, subtraction as addition of the
  negation, and the shifts by any number of bits. The comparisons decide the order of the numbers,
  from the most significant word down, and equality and the test for zero are those of the numbers.
\<close>

theorem uint_arithmetic:
  assumes "length a = length b" and "2 \<le> length a"
  shows "uint_val (bu_add a b) = (uint_val a + uint_val b) mod 2 ^ (32 * length a) \<and>
    int (uint_val (bu_sub a b)) = (int (uint_val a) - int (uint_val b)) mod 2 ^ (32 * length a) \<and>
    int (uint_val (bu_neg a)) = (- int (uint_val a)) mod 2 ^ (32 * length a) \<and>
    uint_val (bu_inc a) = (uint_val a + 1) mod 2 ^ (32 * length a) \<and>
    int (uint_val (bu_dec a)) = (int (uint_val a) - 1) mod 2 ^ (32 * length a) \<and>
    uint_val (bu_not a) = 2 ^ (32 * length a) - 1 - uint_val a \<and>
    uint_val (bu_shl a n) = uint_val a * 2 ^ n mod 2 ^ (32 * length a) \<and>
    uint_val (bu_shr a n) = uint_val a div 2 ^ n \<and>
    bu_less a b = (uint_val a < uint_val b) \<and> bu_less_eq a b = (uint_val a \<le> uint_val b) \<and>
    bu_greater a b = (uint_val a > uint_val b) \<and> bu_greater_eq a b = (uint_val a \<ge> uint_val b) \<and>
    bu_eq a b = (uint_val a = uint_val b) \<and> bu_is_zero a = (uint_val a = 0) \<and>
    bu_eq64 a v = (uint_val a = unat v)"
proof -
  have "a \<noteq> []" using assms(2) by auto
  then show ?thesis
    using assms by (simp add: bu_compare_val bu_eq_val bu_is_zero_val bu_eq64_val bu_add_val bu_sub_int bu_neg_int bu_inc_val bu_dec_int bu_not_val
        bu_shl_val bu_shr_val)
qed

lemma uint_arithmetic_witness:
  "uint_val (bu_sub [0, 1, 0] [1, 0, 0]) = 2 ^ 32 - 1"
  using uint_arithmetic [where a = "[0, 1, 0]" and b = "[1, 0, 0]"] by simp

section \<open>Big numbers and the compact form of a target\<close>

text \<open>
  C14. \<open>SetCompact\<close> reads a compact number as sign, mantissa and exponent, and \<open>GetCompact\<close> keeps
  the three most significant bytes of a number (with the sign bit): reading back the compact form
  gives the number with its lower bytes cleared, so at most the number itself and equal to it when
  it has at most three bytes. The hypothesis is what the manual pages of OpenSSL document.
\<close>

theorem compact_targets:
  assumes "openssl_bn bn val" and "\<bar>val b\<bar> < 2 ^ 2024"
  shows "val (SetCompact bn c) = compact_val c \<and>
    compact_val (GetCompact bn b) = compact_round (val b) \<and>
    \<bar>compact_val (GetCompact bn b)\<bar> \<le> \<bar>val b\<bar> \<and>
    (length (mpi_bytes (val b)) \<le> 3 \<longrightarrow> val (SetCompact bn (GetCompact bn b)) = val b)"
proof -
  have "length (mpi_bytes (val b)) \<le> 253 + 1" by (rule length_mpi_bytes_le) (use assms(2) in simp)
  then have "length (mpi_bytes (val b)) < 256" by simp
  note c = openssl_bn.val_GetCompact [OF assms(1) this]
  show ?thesis
    by (simp add: openssl_bn.val_SetCompact [OF assms(1)] c compact_round_le compact_round_small)
qed

lemma compact_targets_witness:
  "compact_val (GetCompact int_bn 0x123456789) = compact_round 0x123456789 \<and>
   SetCompact int_bn 0x1d00ffff = compact_val 0x1d00ffff"
  using compact_targets [OF openssl_int_bn, where b = "0x123456789" and c = "0x1d00ffff"] by simp

text \<open>
  C15. The conversions of the class \<open>CBigNum\<close> keep the value: from signed and unsigned 64-bit
  integers, the smallest one included, and from 256-bit integers; and a number read back as a
  256-bit integer is its absolute value modulo \<open>2\<^sup>2\<^sup>5\<^sup>6\<close>.
\<close>

theorem bignum_conversions:
  assumes "openssl_bn bn val" and "length n = 8" and "\<bar>val b\<bar> < 2 ^ 4096"
  shows "val (setint64 bn i) = sint i \<and> val (setuint64 bn u) = uint u \<and>
    val (CBigNum_long bn i) = sint i \<and> val (setuint256 bn n) = int (uint_val n) \<and>
    uint_val (getuint256 bn b) = nat \<bar>val b\<bar> mod 2 ^ 256 \<and> getuint256 bn (setuint256 bn n) = n"
proof -
  have small: "length (mpi_bytes v) < 2 ^ 31" if "\<bar>v\<bar> < 2 ^ 4096" for v
    using length_mpi_bytes_le [of v 512] that by simp
  have n: "val (setuint256 bn n) = int (uint_val n)"
    using assms(2) by (simp add: openssl_bn.val_setuint256 [OF assms(1)])
  have lt: "uint_val n < 2 ^ 256" using uint_val_less [of n] assms(2) by simp
  then have "int (uint_val n) < 2 ^ 4096"
    using order_less_trans [of "uint_val n" "2 ^ 256" "2 ^ 4096"] by (simp add: nat_less_iff [symmetric] zless_nat_eq_int_zless)
  then have l: "length (mpi_bytes (val (setuint256 bn n))) < 2 ^ 31" by (intro small) (simp add: n)
  have "uint_val (getuint256 bn (setuint256 bn n)) = uint_val n"
    using lt by (simp add: openssl_bn.uint_val_getuint256(1) [OF assms(1) l] n)
  moreover have "length (getuint256 bn (setuint256 bn n)) = length n"
    by (simp add: openssl_bn.uint_val_getuint256(2) [OF assms(1) l] assms(2))
  ultimately have "getuint256 bn (setuint256 bn n) = n" by (simp only: uint_val_inject)
  then show ?thesis
    by (simp add: openssl_bn.val_setint64 [OF assms(1)] openssl_bn.val_setuint64 [OF assms(1)]
        openssl_bn.val_CBigNum_long [OF assms(1)] n openssl_bn.uint_val_getuint256(1) [OF assms(1) small [OF assms(3)]])
qed

lemma bignum_conversions_witness:
  "setint64 int_bn (- 5) = sint (- 5 :: u64) \<and> uint_val (getuint256 int_bn (- 77)) = 77"
  using bignum_conversions [OF openssl_int_bn, where n = "[1, 2, 3, 4, 5, 6, 7, 8]" and b = "- 77" and i = "- 5" and u = 0] by simp

text \<open>
  C16. \<open>ToString\<close> returns for every number and every base from 2 to 16, with the digits of the
  number in that base and its sign; and \<open>SetHex\<close> reads the hexadecimal digits back.
\<close>

theorem bignum_text_roundtrip:
  assumes "openssl_bn bn val" and "2 \<le> base" and "base \<le> 16" and "uint nBase = int base"
  shows "bn_ToString bn nBase n = Some (number_text base (val n)) \<and>
    (base = 16 \<longrightarrow> (\<exists>t r. bn_ToString bn nBase n = Some t \<and> bn_SetHex bn t = Some r \<and> val r = val n))"
  using openssl_bn.bn_ToString_text [OF assms(1) assms(4,2,3), of n] openssl_bn.SetHex_text [OF assms(1), of "val n"] by auto

lemma bignum_text_roundtrip_witness:
  "bn_ToString int_bn 10 (- 255) = Some (number_text 10 (- 255)) \<and>
   (\<exists>t. bn_ToString int_bn 16 (- 255) = Some t \<and> bn_SetHex int_bn t = Some (- 255))"
  using bignum_text_roundtrip [OF openssl_int_bn, where base = 10 and nBase = 10 and n = "- 255"]
    bignum_text_roundtrip [OF openssl_int_bn, where base = 16 and nBase = 16 and n = "- 255"] by auto

section \<open>Targets and trust\<close>

text \<open>
  C17. On the main network and on the test network, \<open>CheckProofOfWork\<close> accepts a hash exactly when
  the target is positive, not above the limit of the network (\<open>2\<^sup>2\<^sup>3\<^sup>6 - 1\<close> on the main network; on the
  test network the limit that \<open>LoadBlockIndex\<close> installs, \<open>2\<^sup>2\<^sup>4\<^sup>0 - 1\<close>), and the hash, as a 256-bit
  number, is at most the target.
\<close>

theorem check_proof_of_work:
  assumes "openssl_bn bn val" and "length hash = 8"
  shows "CheckProofOfWork bn fTestNet hash nBits \<longleftrightarrow>
    0 < compact_val nBits \<and> compact_val nBits \<le> pow_limit fTestNet \<and> int (uint_val hash) \<le> compact_val nBits"
  by (rule openssl_bn.CheckProofOfWork_val [OF assms])

lemma check_proof_of_work_witness:
  "CheckProofOfWork int_bn True (replicate 8 0) 0x1e1fffff \<and> \<not> CheckProofOfWork int_bn False (replicate 8 0) 0x1e1fffff"
  using check_proof_of_work [OF openssl_int_bn, where hash = "replicate 8 0" and nBits = "0x1e1fffff"]
  by (simp add: compact_val_def pow_limit_def)

text \<open>
  C18. The next target is the last one times \<open>(30 + 2 a) / 90\<close> for the spacing \<open>a\<close> of the last
  two blocks of the same kind (30 when negative), or the limit when there are no two such blocks
  or the result leaves the range; it is always positive and at most the limit, also after the
  rounding to compact form, and no big-number operation fails. The limit is \<open>2\<^sup>2\<^sup>4\<^sup>0 - 1\<close> for proof of
  work on the test network, and \<open>2\<^sup>2\<^sup>3\<^sup>6 - 1\<close> for proof of stake and on the main network.
\<close>

theorem next_target_required:
  assumes "openssl_bn bn val"
  shows "\<exists>c. GetNextTargetRequired bn fTestNet chain stake = Some c \<and>
    compact_val c = compact_round (next_target fTestNet chain stake) \<and>
    0 < compact_val c \<and> compact_val c \<le> target_limit fTestNet stake"
proof -
  let ?t = "next_target fTestNet chain stake"
  obtain c where c: "GetNextTargetRequired bn fTestNet chain stake = Some c" "compact_val c = compact_round ?t"
    using openssl_bn.GetNextTargetRequired_val [OF assms, of fTestNet chain stake] by blast
  have "0 < compact_round ?t" by (rule compact_round_pos [OF next_target_range(1)])
  moreover have "compact_round ?t \<le> target_limit fTestNet stake"
    using compact_round_le [of ?t] next_target_range [of fTestNet chain stake] by linarith
  ultimately show ?thesis using c by auto
qed

lemma next_target_required_witness:
  "(\<exists>c. GetNextTargetRequired int_bn False sample_chain False = Some c \<and> compact_val c = 0xfffff * 2 ^ 216) \<and>
    (\<exists>c. GetNextTargetRequired int_bn True sample_chain False = Some c \<and> compact_val c = 0x1aaaa9 * 2 ^ 216)"
  using next_target_required [OF openssl_int_bn, of False sample_chain False]
    next_target_required [OF openssl_int_bn, of True sample_chain False]
  unfolding sample_target sample_target_round by auto

text \<open>
  C19. \<open>ComputeMinWork\<close>, the easiest target a block may have after a time without blocks, returns
  for every time: a positive base target is doubled once more than the days begun, up to the limit
  of the network, \<open>2\<^sup>2\<^sup>3\<^sup>6 - 1\<close> on the main network and \<open>2\<^sup>2\<^sup>4\<^sup>0 - 1\<close> on the test network, and rounded to
  the compact form.
\<close>

theorem max_bits:
  assumes "openssl_bn bn val" and "0 < compact_val nBase"
  shows "\<exists>c. ComputeMinWork bn fTestNet nBase nTime = Some c \<and>
    compact_val c = compact_round (min (compact_val nBase * 2 * 2 ^ nat ((nTime + 86399) div 86400)) (pow_limit fTestNet))"
  unfolding ComputeMinWork_def
  by (rule openssl_bn.ComputeMaxBits_val [OF assms openssl_bn.val_limits(1) [OF assms(1)]])

lemma max_bits_witness:
  "(\<exists>c. ComputeMinWork int_bn False 0x1e0fffff 86400 = Some c \<and> compact_val c = compact_round (2 ^ 236 - 1)) \<and>
    (\<exists>c. ComputeMinWork int_bn True 0x1e0fffff 86400 = Some c \<and> compact_val c = compact_round (4 * 0xfffff * 2 ^ 216))"
  using max_bits [OF openssl_int_bn, of "0x1e0fffff" False 86400] max_bits [OF openssl_int_bn, of "0x1e0fffff" True 86400]
  by (simp add: compact_val_def pow_limit_def)

text \<open>
  C20. The trust of a block is \<open>2\<^sup>2\<^sup>5\<^sup>6 div (target + 1)\<close>, and 0 for a target that is not positive;
  it is a 256-bit number, and a harder target never has less trust.
\<close>

theorem block_trust:
  assumes "openssl_bn bn val"
  shows "(\<exists>t. GetBlockTrust bn nBits = Some t \<and> length t = 8 \<and>
      int (uint_val t) = (if compact_val nBits \<le> 0 then 0 else 2 ^ 256 div (compact_val nBits + 1))) \<and>
    (0 < compact_val nBits \<and> compact_val nBits \<le> compact_val nBits' \<longrightarrow>
      (\<exists>t t'. GetBlockTrust bn nBits = Some t \<and> GetBlockTrust bn nBits' = Some t' \<and> bu_less_eq t' t))"
proof -
  obtain t t' where t: "GetBlockTrust bn nBits = Some t" "length t = 8"
      "int (uint_val t) = (if compact_val nBits \<le> 0 then 0 else 2 ^ 256 div (compact_val nBits + 1))"
    and t': "GetBlockTrust bn nBits' = Some t'" "length t' = 8"
      "int (uint_val t') = (if compact_val nBits' \<le> 0 then 0 else 2 ^ 256 div (compact_val nBits' + 1))"
    using openssl_bn.GetBlockTrust_val [OF assms, of nBits] openssl_bn.GetBlockTrust_val [OF assms, of nBits'] by blast
  have "bu_less_eq t' t" if "0 < compact_val nBits" "compact_val nBits \<le> compact_val nBits'"
  proof -
    have "int (uint_val t') \<le> int (uint_val t)" using that t(3) t'(3) by (simp add: zdiv_mono2)
    then show ?thesis using t(2) t'(2) by (simp add: bu_compare_val)
  qed
  then show ?thesis using t t' by blast
qed

lemma block_trust_witness:
  "\<exists>t t'. GetBlockTrust int_bn 0x1d00ffff = Some t \<and> GetBlockTrust int_bn 0x1e00ffff = Some t' \<and> bu_less_eq t' t"
  using block_trust [OF openssl_int_bn, where nBits = "0x1d00ffff" and nBits' = "0x1e00ffff"]
  by (simp add: compact_val_def)

section \<open>The text of 256-bit numbers\<close>

text \<open>
  C21. \<open>GetHex\<close> writes a number of any width in base 16, most significant digit first, with 8 digits
  for each word, and \<open>SetHex\<close> reads the text back as the number: behind any white space, with or
  without the prefix 0x, and whatever follows from the first character on that is no digit. The
  constructor from a vector of bytes gives back the number whose bytes the vector holds.
\<close>

theorem uint_text_roundtrip:
  assumes "a \<noteq> []" and "list_all c_isspace ws" and "p = [] \<or> p = ''0x'' \<or> p = ''0X''" and "hex_stops rest"
  shows "SetHex (length a) (ws @ p @ GetHex a @ rest) = a \<and>
    hex_number (GetHex a) = uint_val a \<and> length (GetHex a) = 8 * length a \<and>
    bu_of_vector (length a) (bu_bytes a) = a"
proof -
  have "length (bu_bytes a) = 4 * length a" by simp
  then show ?thesis
    by (simp add: SetHex_GetHex_text [OF assms] hex_number_GetHex length_GetHex bu_of_vector_def bu_of_bytes_bytes)
qed

lemma uint_text_roundtrip_witness:
  "SetHex 8 ('' 0x'' @ GetHex [1, 2, 3, 4, 5, 6, 7, 0xabcdef] @ ''g1'') = [1, 2, 3, 4, 5, 6, 7, 0xabcdef]"
  using conjunct1 [OF uint_text_roundtrip [where a = "[1, 2, 3, 4, 5, 6, 7, 0xabcdef]" and ws = "'' ''" and p = "''0x''"
      and rest = "''g1''"]]
  by (simp add: c_isspace_def of_char_def hex_stops_def phexdigit_def phexdigit_table_def Let_def numeral_eq_Suc)

section \<open>Versions of the last blocks\<close>

text \<open>
  C22. \<open>IsSuperMajority\<close> stops early but decides the count: among the last \<open>nToCheck\<close> blocks at least
  \<open>nRequired\<close> have the version or a newer one.
\<close>

theorem super_majority:
  "IsSuperMajority v chain R k \<longleftrightarrow> unat R \<le> length (filter (\<lambda>b. v \<le> bi_nVersion b) (take (unat k) chain))"
  unfolding IsSuperMajority_def using IsSuperMajority_loop_count [of "unat R" v chain "unat k" 0] by simp

section \<open>Merkle trees\<close>

text \<open>
  C23. For a block of any number of transactions, checking the branch \<open>GetMerkleBranch\<close> gives for
  an index, from the hash at that index, yields the root \<open>BuildMerkleTree\<close> computes, which is the
  root of the recursive definition. The hash of two nodes is an arbitrary function.
\<close>

theorem merkle_branch:
  assumes "i < length vtx"
  shows "BuildMerkleTree H vtx = merkle_root H vtx \<and>
    CheckMerkleBranch H (vtx ! i) (GetMerkleBranch H vtx i) (int i) = BuildMerkleTree H vtx"
proof -
  have "vtx \<noteq> []" using assms by auto
  then show ?thesis
    using assms by (simp add: CheckMerkleBranch_def BuildMerkleTree_root GetMerkleBranch_path CheckMerkleBranch_path)
qed

lemma merkle_branch_witness:
  "CheckMerkleBranch (\<lambda>a b. bu_add a b) [3] (GetMerkleBranch (\<lambda>a b. bu_add a b) [[1], [2], [3]] 2) 2 =
   BuildMerkleTree (\<lambda>a b. bu_add a b) [[1], [2], [3]]"
  using merkle_branch [where i = 2 and vtx = "[[1], [2], [3]]" and H = "\<lambda>a b. bu_add a b"] by simp

text \<open>
  C24. A branch of the length the tree has, accepted for an index, proves membership: the hash is
  the one at the index and the branch is its branch, unless among the pairs hashed to check the
  branch and the pairs hashed along the true branch there are two different ones with the same
  hash. What the tree does not bind is the number of transactions: repeating the last of an odd
  number of them leaves the root unchanged.
\<close>

theorem merkle_binding:
  assumes "i < length vtx" and "length br = length (GetMerkleBranch H vtx i)"
    and "CheckMerkleBranch H h br (int i) = BuildMerkleTree H vtx"
  shows "((h = vtx ! i \<and> br = GetMerkleBranch H vtx i) \<or>
      collision H (check_pairs H h br i) (check_pairs H (vtx ! i) (GetMerkleBranch H vtx i) i)) \<and>
    (odd (length vtx) \<and> 1 < length vtx \<longrightarrow> BuildMerkleTree H (vtx @ [last vtx]) = BuildMerkleTree H vtx)"
proof -
  have ne: "vtx \<noteq> []" using assms(1) by auto
  have "CheckMerkleBranch_loop H h br (int i) = merkle_root H vtx"
    using assms(3) ne by (simp add: CheckMerkleBranch_def BuildMerkleTree_root)
  with CheckMerkleBranch_binding [OF assms(1), of br H h] assms(2) ne show ?thesis
    by (auto simp: GetMerkleBranch_path BuildMerkleTree_root root_duplicate)
qed

lemma merkle_binding_witness:
  "BuildMerkleTree (\<lambda>a b. a @ b) [[1], [2], [3], [3]] = BuildMerkleTree (\<lambda>a b. a @ b) [[1], [2], [3]]"
proof -
  have "CheckMerkleBranch (\<lambda>a b. a @ b) [3] (GetMerkleBranch (\<lambda>a b. a @ b) [[1], [2], [3]] 2) (int 2) =
      BuildMerkleTree (\<lambda>a b. a @ b) [[1], [2], [3]]"
    by (simp add: CheckMerkleBranch_def BuildMerkleTree_root GetMerkleBranch_path
        CheckMerkleBranch_path [of 2 "[[1], [2], [3]]", simplified])
  from merkle_binding [OF _ _ this] show ?thesis by simp
qed

section \<open>Serialization\<close>

text \<open>
  C25. Compact sizes, variable-length integers, byte vectors and vectors of 256-bit numbers, up to
  the size the reader accepts: reading what was written gives the object and the rest of the
  stream, and \<open>GetSerializeSize\<close> is the number of bytes. For vectors a successful read consumed
  exactly what writing the object gives, so an object has one encoding. Variable-length integers
  have at most ten bytes but several encodings: there are ten bytes that are read as the number 0
  too.
\<close>

theorem serialization_roundtrip:
  assumes "n \<le> MAX_SIZE" and "length v \<le> 2 ^ 25" and "length u \<le> 2 ^ 25"
    and "\<forall>a \<in> set u. length a = 8"
  shows "ReadCompactSize (WriteCompactSize n @ s) = Some (n, s) \<and> length (WriteCompactSize n) = GetSizeOfCompactSize n \<and>
    Unserialize_bytes (Serialize_bytes v @ s) = Some (v, s) \<and> length (Serialize_bytes v) = GetSerializeSize_bytes v \<and>
    Unserialize_vec Unserialize_uint256 156250 (Serialize_vec Serialize_uint256 u @ s) = Some (u, s) \<and>
    length (Serialize_vec Serialize_uint256 u) = GetSerializeSize_vec (\<lambda>_. 32) u \<and>
    ReadVarInt (WriteVarInt i @ s) = Some (i, s) \<and> length (WriteVarInt i) = GetSizeOfVarInt i \<and> GetSizeOfVarInt i \<le> 10 \<and>
    (\<forall>b w t. Unserialize_bytes b = Some (w, t) \<longrightarrow> b = Serialize_bytes w @ t \<and> length w \<le> 2 ^ 25) \<and>
    (\<forall>b w t. Unserialize_vec Unserialize_uint256 156250 b = Some (w, t) \<longrightarrow> b = Serialize_vec Serialize_uint256 w @ t) \<and>
    (\<exists>e. e \<noteq> WriteVarInt 0 \<and> ReadVarInt e = Some (0, []))"
proof -
  have u: "length u \<le> 2 ^ 25 \<and> list_all (\<lambda>a. length a = 8) u" using assms(3,4) by (simp add: list_all_iff)
  have "\<exists>e. e \<noteq> WriteVarInt 0 \<and> ReadVarInt e = Some (0, [])"
    by (rule exI [of _ "[0x80, 0xFE, 0xFE, 0xFE, 0xFE, 0xFE, 0xFE, 0xFE, 0xFF, 0x00]"])
      (simp add: ReadVarInt_def WriteVarInt_def VarInt_digits.simps)
  moreover have "unat i < 2 ^ (7 * Suc 9)"
    by (rule less_le_trans [OF unsigned_less]) simp
  moreover from this have "GetSizeOfVarInt i \<le> 10" using GetSizeOfVarInt_bound [of i 9] by simp
  moreover have "ReadVarInt (WriteVarInt i @ s) = Some (i, s)" "length (WriteVarInt i) = GetSizeOfVarInt i"
    by (simp_all add: ReadVarInt_def WriteVarInt_def read_varint_loop length_VarInt_digits)
  moreover have "\<forall>b w t. Unserialize_bytes b = Some (w, t) \<longrightarrow> b = Serialize_bytes w @ t \<and> length w \<le> 2 ^ 25"
    using ser_bytes.write_read by blast
  moreover have "\<forall>b w t. Unserialize_vec Unserialize_uint256 156250 b = Some (w, t) \<longrightarrow> b = Serialize_vec Serialize_uint256 w @ t"
    using ser_vec_uint256.write_read by blast
  ultimately show ?thesis
    using ser_compact.read_write [OF assms(1)] ser_compact.size [OF assms(1)] ser_bytes.read_write [OF assms(2)]
      ser_bytes.size [OF assms(2)] ser_vec_uint256.read_write [OF u] ser_vec_uint256.size [OF u]
    by blast
qed

lemma serialization_roundtrip_witness:
  "Unserialize_bytes (Serialize_bytes (replicate 300 7) @ [1]) = Some (replicate 300 7, [1])"
  using serialization_roundtrip [where n = 0 and v = "replicate 300 7" and u = "[]" and s = "[1]"] by (simp add: MAX_SIZE_def)

section \<open>Transactions and blocks\<close>

text \<open>
  C26. \<open>CheckTransaction\<close> accepts exactly the transactions of the specification: inputs and outputs,
  at most 1,000,000 bytes, no empty output outside a coinbase or coinstake, every value and the
  sum of the values in the range of money, no input or key image twice, no anonymous output key
  twice, and a coinbase script of 2 to 100 bytes or no null input. An accepted transaction is not
  changed and \<open>GetValueOut\<close> returns the sum of its values, without a wrap-around; a rejected one
  is charged 0, 10 or 100.
\<close>

theorem check_transaction:
  "(fst (CheckTransaction tx) \<longleftrightarrow> tx_valid tx) \<and>
   (\<exists>k \<in> {0, 10, 100}. snd (CheckTransaction tx) = tx\<lparr>tx_nDoS := tx_nDoS tx + k\<rparr>) \<and>
   (fst (CheckTransaction tx) \<longrightarrow> snd (CheckTransaction tx) = tx \<and>
     (\<exists>w. GetValueOut tx = Some w \<and> sint w = (\<Sum>t\<leftarrow>vout tx. sint (nValue t)) \<and> sint w \<le> MAX_MONEY))"
proof -
  have "\<exists>w. GetValueOut tx = Some w \<and> sint w = (\<Sum>t\<leftarrow>vout tx. sint (nValue t)) \<and> sint w \<le> MAX_MONEY" if "tx_valid tx"
    using that GetValueOut_val [of tx] by (auto simp: tx_valid_def values_ok_def)
  then show ?thesis
    using CheckTransaction_DoS [OF prod.collapse [symmetric], of tx] CheckTransaction_valid [of tx] by blast
qed

lemma check_transaction_witness:
  "fst (CheckTransaction
      \<lparr>tx_nVersion = 1, tx_nTime = 0, vin = [CTxIn_new \<lparr>op_hash = [1, 0, 0, 0, 0, 0, 0, 0], op_n = 0\<rparr> [] 0],
       vout = [\<lparr>nValue = 5, scriptPubKey = []\<rparr>, \<lparr>nValue = 6, scriptPubKey = []\<rparr>], nLockTime = 0, tx_nDoS = 0\<rparr>) \<and>
   GetValueOut
      \<lparr>tx_nVersion = 1, tx_nTime = 0, vin = [CTxIn_new \<lparr>op_hash = [1, 0, 0, 0, 0, 0, 0, 0], op_n = 0\<rparr> [] 0],
       vout = [\<lparr>nValue = 5, scriptPubKey = []\<rparr>, \<lparr>nValue = 6, scriptPubKey = []\<rparr>], nLockTime = 0, tx_nDoS = 0\<rparr> \<noteq> None"
proof -
  let ?tx = "\<lparr>tx_nVersion = 1, tx_nTime = 0, vin = [CTxIn_new \<lparr>op_hash = [1, 0, 0, 0, 0, 0, 0, 0], op_n = 0\<rparr> [] 0],
       vout = [\<lparr>nValue = 5, scriptPubKey = []\<rparr>, \<lparr>nValue = 6, scriptPubKey = []\<rparr>], nLockTime = 0, tx_nDoS = 0\<rparr>"
  have "tx_valid ?tx"
    by (simp add: tx_valid_def CTxIn_new_def CTxOut_IsEmpty_def values_ok_def MoneyRange_def MAX_MONEY_def COIN_def
        IsCoinBase_def COutPoint_IsNull_def bu_eq64_def GetSerializeSize_CTransaction_def GetSerializeSize_vec_def
        GetSerializeSize_CTxIn_def GetSerializeSize_CTxOut_def GetSerializeSize_bytes_def GetSizeOfCompactSize_def)
  then show ?thesis using check_transaction [of ?tx] by auto
qed

text \<open>
  C27. A transaction and a block are read back from their bytes, whatever follows them, and they
  are as many as \<open>GetSerializeSize\<close> gives; the readers accept only the bytes of the object they
  return, so an object has one encoding. The conditions are what the readers establish: at most
  \<open>2\<^sup>2\<^sup>5\<close> transactions, inputs, outputs and bytes in a script. The memory that is hashed for the
  proof of work is the first 80 bytes of the block, and \<open>Tribus\<close> returns the hash of these bytes.
\<close>

theorem block_roundtrip:
  assumes "tx_ok tx" and "block_ok b" and "locals_wf L"
  shows "Unserialize_CTransaction (Serialize_CTransaction tx @ s) = Some (tx, s) \<and>
    length (Serialize_CTransaction tx) = GetSerializeSize_CTransaction tx \<and>
    Unserialize_CBlock (Serialize_CBlock b @ s) = Some (b, s) \<and>
    length (Serialize_CBlock b) = GetSerializeSize_CBlock b \<and>
    (\<forall>x t r. Unserialize_CTransaction x = Some (t, r) \<longrightarrow> tx_ok t \<and> x = Serialize_CTransaction t @ r) \<and>
    (\<forall>x c r. Unserialize_CBlock x = Some (c, r) \<longrightarrow> block_ok c \<and> x = Serialize_CBlock c @ r) \<and>
    Tribus jh_wide_ops jh_iv_wide wide_ops echo_wide_ops L (header_memory b) =
      Some (bu_of_bytes (tribus_spec (take 80 (Serialize_CBlock b))))"
proof -
  have "header_memory b = take 80 (Serialize_CBlock b)"
    using length_header [OF assms(2)] by (simp add: header_memory_eq Serialize_CBlock_def)
  then have "Tribus jh_wide_ops jh_iv_wide wide_ops echo_wide_ops L (header_memory b) =
      Some (bu_of_bytes (tribus_spec (take 80 (Serialize_CBlock b))))"
    using Tribus_refines [OF jh_wide_variant wide_lane_rep echo_wide_words assms(3), of "header_memory b"]
      length_header [OF assms(2)] by simp
  then show ?thesis
    using ser_tx.read_write [OF assms(1)] ser_tx.size [OF assms(1)] ser_block.read_write [OF assms(2)]
      ser_block.size [OF assms(2)] ser_tx.write_read ser_block.write_read by blast
qed

lemma block_roundtrip_witness:
  "Unserialize_CBlock (Serialize_CBlock sample_block @ [9]) = Some (sample_block, [9]) \<and>
   Unserialize_CTransaction (Serialize_CTransaction sample_coinbase @ [9]) = Some (sample_coinbase, [9])"
proof -
  have tx: "tx_ok sample_coinbase"
    by (simp add: tx_ok_def txin_ok_def txout_ok_def outpoint_ok_def CTxIn_new_def COutPoint_null_def sample_coinbase_def
        bu_set64_def WIDTH256_def)
  then have "block_ok sample_block" by (simp add: block_ok_def sample_block_def)
  from block_roundtrip [OF tx this, where s = "[9]" and
      L = "\<lparr>ctx_jh = \<lparr>jh_buf = replicate 64 7, jh_ptr = 99, jh_H = [], jh_block_count = 1\<rparr>,
        ctx_keccak = \<lparr>kc_buf = replicate 144 0, kc_ptr = 5, kc_lim = 0, kc_u = []\<rparr>,
        ctx_echo = \<lparr>ec_buf = replicate 128 1, ec_ptr = 0, ec_V = [], ec_C = (1, 2, 3, 4)\<rparr>,
        tmp_jh = replicate 128 0, tmp_keccak = replicate 73 9, tmp_echo = replicate 64 0\<rparr>"]
  show ?thesis by (simp add: locals_wf_def)
qed

text \<open>
  C28. \<open>CheckBlock\<close> accepts exactly the blocks of the specification, for both networks and every
  choice of its flags: at most 1,000,000 bytes, a coinbase at the start and nowhere else, for a
  proof-of-work block a target in \<open>nBits\<close> that is positive and at most the limit of the network and a
  hash of the header at most this target, for a proof-of-stake block a coinstake at position 1 only,
  an empty coinbase output, the time of the coinstake and the signature of the block, times not in
  the future, valid transactions not later than the block, no two with one identifier, at most
  20,000 signature operations, and the Merkle root of the header. An accepted block is not changed;
  a block whose transactions carry no charge yet (all \<open>nDoS\<close> are 0) is charged 0, 10, 50 or 100.
\<close>

theorem check_block:
  assumes "openssl_bn bn val" and "length (pow (header_memory b)) = 8"
  shows "(fst (CheckBlock bn fTestNet C pow now fp fm fs b) \<longleftrightarrow> block_valid fTestNet C pow now fp fm fs b) \<and>
    (fst (CheckBlock bn fTestNet C pow now fp fm fs b) \<longrightarrow> snd (CheckBlock bn fTestNet C pow now fp fm fs b) = b) \<and>
    ((\<forall>tx \<in> set (cb_vtx b). tx_nDoS tx = 0) \<longrightarrow>
      (\<exists>k \<in> {0, 10, 50, 100}. cb_nDoS (snd (CheckBlock bn fTestNet C pow now fp fm fs b)) = cb_nDoS b + k))"
  using CheckBlock_spec [where pow = pow and b = b, OF assms, of fTestNet C now fp fm fs] CheckBlock_charge [of b bn fTestNet C pow now fp fm fs] by blast

lemma check_block_witness:
  "CheckBlock int_bn False sample_crypto (\<lambda>_. replicate 8 0) 0 True True True sample_block = (True, sample_block)"
proof -
  note c = check_block [OF openssl_int_bn, where pow = "\<lambda>_. replicate 8 0" and b = sample_block and C = sample_crypto
      and now = 0 and fp = True and fm = True and fs = True, OF length_replicate]
  then have "fst (CheckBlock int_bn False sample_crypto (\<lambda>_. replicate 8 0) 0 True True True sample_block)"
    using sample_valid by blast
  with c show ?thesis by (simp add: prod_eq_iff)
qed

text \<open>
  C29. The header commits to the transactions: two accepted blocks with the same Merkle root in the
  header have the same transactions, provided that the hash function has no collision among the
  bytes that were hashed for the two roots and no transaction has 64 bytes, the size of an inner
  node. The check for duplicate identifiers is what excludes the ambiguity of odd levels.
\<close>

theorem block_commitment:
  assumes "openssl_bn bn val" and "hash_lengths C" and "\<forall>x. length (pow x) = 8"
    and "block_ok b" and "block_ok b'"
    and "fst (CheckBlock bn fTestNet C pow now fp True fs b)" and "fst (CheckBlock bn fTestNet C pow now fp True fs b')"
    and "cb_hashMerkleRoot b = cb_hashMerkleRoot b'"
    and "\<forall>tx \<in> set (cb_vtx b) \<union> set (cb_vtx b'). GetSerializeSize_CTransaction tx \<noteq> 64"
    and "inj_on (Hash C) (hashed_bytes C b \<union> hashed_bytes C b')"
  shows "cb_vtx b = cb_vtx b'"
proof -
  have pow: "length (pow (header_memory x)) = 8" for x using assms(3) by simp
  have v: "block_valid fTestNet C pow now fp True fs b" "block_valid fTestNet C pow now fp True fs b'"
    using CheckBlock_spec(1) [where pow = pow and b = b, OF assms(1) pow]
      CheckBlock_spec(1) [where pow = pow and b = b', OF assms(1) pow] assms(6,7) by blast+
  note d = v [unfolded block_valid_def]
  have ok: "tx_ok tx" if "tx \<in> set (cb_vtx b) \<union> set (cb_vtx b')" for tx
    using that assms(4,5) by (auto simp: block_ok_def list_all_iff)
  have root: "bu_eq (cb_hashMerkleRoot x) (block_merkle_root C x) \<Longrightarrow> cb_vtx x \<noteq> [] \<Longrightarrow> block_ok x \<Longrightarrow>
      cb_hashMerkleRoot x = block_merkle_root C x" for x
    using bu_eq_same_length length_block_merkle_root [OF assms(2)] by (simp add: block_ok_def)
  have "map Serialize_CTransaction (cb_vtx b) = map Serialize_CTransaction (cb_vtx b')"
  proof (rule block_root_unique [OF assms(2)])
    show "\<forall>tx \<in> set (cb_vtx b) \<union> set (cb_vtx b'). length (Serialize_CTransaction tx) \<noteq> 64"
      using assms(9) ok ser_tx.size by simp
    show "block_merkle_root C b = block_merkle_root C b'" using root [of b] root [of b'] d assms(4,5,8) by simp
  qed (use d assms(10) in auto)
  moreover have "inj_on Serialize_CTransaction (set (cb_vtx b) \<union> set (cb_vtx b'))"
    by (rule inj_onI) (metis ok ser_tx.read_write option.inject prod.inject)
  ultimately show ?thesis by (rule map_inj_on)
qed

lemma block_commitment_witness:
  "cb_vtx sample_block = cb_vtx (sample_block\<lparr>cb_nNonce := 7\<rparr>)"
proof -
  let ?c = "sample_block\<lparr>cb_nNonce := 7\<rparr>" and ?z = "\<lambda>_ :: byte list. replicate 8 0 :: base_uint"
  have tx: "tx_ok sample_coinbase"
    by (simp add: tx_ok_def txin_ok_def txout_ok_def outpoint_ok_def CTxIn_new_def COutPoint_null_def sample_coinbase_def
        bu_set64_def WIDTH256_def)
  have ok: "block_ok sample_block" "block_ok ?c" using tx by (simp_all add: block_ok_def sample_block_def)
  have "\<not> cb_IsProofOfStake sample_block" "\<not> cb_IsProofOfStake ?c"
    by (simp_all add: cb_IsProofOfStake_def sample_block_def)
  then have v: "block_valid False sample_crypto ?z 0 True True True ?c"
    using sample_valid by (simp add: block_valid_def GetSerializeSize_CBlock_def block_merkle_root_def)
  have a: "fst (CheckBlock int_bn False sample_crypto ?z 0 True True True x) \<longleftrightarrow> block_valid False sample_crypto ?z 0 True True True x" for x
    by (rule CheckBlock_spec(1) [OF openssl_int_bn]) simp
  have s: "GetSerializeSize_CTransaction sample_coinbase \<noteq> 64"
    by (simp add: GetSerializeSize_CTransaction_def GetSerializeSize_vec_def sample_coinbase_def CTxIn_new_def
        GetSerializeSize_CTxIn_def GetSerializeSize_CTxOut_def GetSerializeSize_bytes_def GetSizeOfCompactSize_def)
  have h: "hashed_bytes sample_crypto sample_block \<union> hashed_bytes sample_crypto ?c = {Serialize_CTransaction sample_coinbase}"
    by (simp add: hashed_bytes_def sample_block_def tree_pairs.simps)
  show ?thesis
    by (rule block_commitment [OF openssl_int_bn sample_lengths _ ok a [THEN iffD2, OF sample_valid] a [THEN iffD2, OF v]])
      (use s in \<open>simp_all only: h\<close>, simp_all add: sample_block_def)
qed

section \<open>The ledger\<close>

text \<open>
  C30. What the check of anonymous inputs accepts: for a transaction of the anonymous version
  (\<open>ANON_TXN_VERSION\<close>) that \<open>CheckTransaction\<close> accepts, and tables in which no output has the value
  -1 (the code marks by it that no member was read), \<open>CheckAnonInputs\<close> returns the sum \<open>w\<close> exactly
  when the signed bytes can be formed and every anonymous input has a value such that all members of
  its ring are known outputs of this value at least ten blocks deep, the ring has 1 to 32 members (to
  200 before the first block; the message of the code gives 5 as the lower bound), its ring signature
  verifies, and its key image is not spent by another known transaction; \<open>w\<close> is the sum of these
  values. The key images of the inputs differ. A member with a compressed key is looked up under its
  own 33 bytes, whatever the object it is copied into held before.
\<close>

theorem check_anon_inputs:
  assumes "coins_ok E" and "fst (CheckTransaction tx)" and "tx_nVersion tx = ANON_TXN_VERSION"
  shows "(CheckAnonInputs E tx fCheckExists = (True, w) \<longleftrightarrow>
      (\<exists>preimage vs. GetTxnPreImage (an_crypto E) tx = Some preimage \<and>
        list_all2 (anon_input_ok E (tx_GetHash (Hash (an_crypto E)) tx) preimage fCheckExists) (filter IsAnonInput (vin tx)) vs \<and>
        w = sum_list vs)) \<and>
    distinct (map ExtractKeyImage (filter IsAnonInput (vin tx))) \<and>
    (length pk = 33 \<and> (pk ! 0 = 2 \<or> pk ! 0 = 3) \<longrightarrow>
      ReadAnonOutput E (CPubKey_copy (an_vch E vchImage ri) pk) = an_outputs E pk)"
  using compressed_key_bytes
  by (intro conjI impI CheckAnonInputs_ok [OF assms(1)] key_images_differ [OF assms(2,3)]) (simp add: ReadAnonOutput_def)

lemma check_anon_inputs_witness:
  "\<exists>preimage v. anon_input_ok anon_toy_env (tx_GetHash (Hash toy) anon2) preimage True anon_in v \<and> v = 10000000000"
proof -
  have c: "coins_ok anon_toy_env" by (simp add: coins_ok_def anon_toy_env_def)
  have "fst (CheckTransaction anon2)"
    using block4_valid by (simp add: block_valid_def block4_vtx CheckTransaction_valid)
  from check_anon_inputs [OF c this anon_fields(5), of True 10000000000] show ?thesis
    using anon_checked by (auto simp: anon_fields list_all2_Cons1 anon_toy_env_def toy_env_def)
qed

text \<open>
  C31. Reorganisations leave no trace in the index: after blocks were connected to the tip of the
  chain and disconnected from it in any order, the index of transactions with its marks of spent
  outputs is the one that the blocks of the chain alone determine, and disconnecting the tip
  succeeds and gives the index of the chain without it. The blocks are in their files, their
  transactions are new and none is anonymous.
\<close>

theorem reorganisation:
  assumes "openssl_bn bn val" and "chain_state bn pow C disk db bs"
  shows "db = chain_index C bs \<and>
    (bs \<noteq> [] \<longrightarrow> DisconnectBlock C db (snd (snd (hd bs))) = (True, chain_index C (tl bs)))"
proof (intro conjI impI)
  have d: "direct bn pow C disk db bs" by (rule openssl_bn.chain_direct [OF assms])
  show "db = chain_index C bs" using openssl_bn.direct_index [OF assms(1) d] by blast
  assume "bs \<noteq> []"
  then obtain E pb b r where bs: "bs = (E, pb, b) # r" by (cases bs) auto
  obtain db0 where "direct bn pow C disk db0 r" "DisconnectBlock C db b = (True, db0)"
    using openssl_bn.direct_undo [OF assms(1) d [unfolded bs]] by blast
  then show "DisconnectBlock C db (snd (snd (hd bs))) = (True, chain_index C (tl bs))"
    using openssl_bn.direct_index [OF assms(1)] by (auto simp: bs)
qed

lemma reorganisation_witness: "DisconnectBlock toy (index1 ++ queue2) block2 = (True, index1)"
proof -
  have "index1 = chain_index toy [(toy_env, toy_pb1, block1)]"
    by (rule conjunct1 [OF reorganisation [OF openssl_int_bn toy_chain(1)]])
  then show ?thesis
    using conjunct2 [OF reorganisation [OF openssl_int_bn toy_chain(2)]] by (simp only: list.sel snd_conv) blast
qed

text \<open>
  C32. In a chain whose blocks lie in their files and hold only transactions that are new to the
  index and not anonymous (\<open>chain_state\<close> connects a block under these conditions), no output is spent
  twice: the outputs that the transactions of the blocks spend are all different, and each of them is
  marked as spent in the index. This holds through every sequence of connected and disconnected
  blocks of this kind. The anonymous outputs are outside it: two transactions of one block may spend
  the same one (\<open>key_image_twice\<close>).
\<close>

theorem no_double_spend:
  assumes "openssl_bn bn val" and "chain_state bn pow C disk db bs"
  shows "distinct (concat (map (\<lambda>(E, pb, b). block_spends b) bs)) \<and>
    (\<forall>x \<in> set (concat (map (\<lambda>(E, pb, b). block_spends b) bs)). spent db x)"
  by (rule openssl_bn.direct_spends [OF assms(1) openssl_bn.chain_direct [OF assms]])

lemma no_double_spend_witness: "spent (index1 ++ queue2) (toy_id 5, 0)"
proof -
  have "(toy_id 5, 0) \<in> set (block_spends block2)"
    by (simp add: block_spends_def toy_vtx outs_def plain_ins_def out_of_def toy_facts toy_spend_def CTxIn_new_def ANON_TXN_VERSION_def)
  then show ?thesis using no_double_spend [OF openssl_int_bn toy_chain(2)] by simp
qed

text \<open>
  C33. The supply, in a chain whose blocks lie in their files and hold only transactions that are new
  to the index and not anonymous (as \<open>chain_state\<close> requires), have no coinstake but in second place,
  and together may create less than \<open>2\<^sup>6\<^sup>2\<close> units: the value of all unspent outputs of the index is at
  most the sum of what the blocks may create, the reward of a block with proof of work, or the
  interest on the age of the coins of the coinstake. Fees only move coins, and no sum wraps around.
  The condition on coinstakes is needed: for blocks with proof of work the code does not check it
  (\<open>coinstake_unchecked\<close>); with anonymous inputs one output can be spent twice (\<open>key_image_twice\<close>).
\<close>

theorem money_supply:
  assumes "openssl_bn bn val" and "chain_state bn pow C disk db bs"
    and "\<forall>(E, pb, b) \<in> set bs. \<forall>i < length (cb_vtx b). IsCoinStake (cb_vtx b ! i) \<longrightarrow> i = 1"
    and "minted bn C bs < 2 ^ 62"
  shows "0 \<le> total disk db \<and> total disk db \<le> minted bn C bs"
proof -
  have d: "direct bn pow C disk db bs" by (rule openssl_bn.chain_direct [OF assms(1,2)])
  have "store_ok disk db" using openssl_bn.direct_index [OF assms(1) d] by blast
  then show ?thesis using openssl_bn.direct_total [OF assms(1) d assms(3,4)] total_nonneg by blast
qed

lemma money_supply_witness: "total toy_disk (index1 ++ queue2) \<le> COIN"
proof -
  have m: "minted int_bn toy [(toy_env, toy_pb2, block2), (toy_env, toy_pb1, block1)] = COIN"
    by (simp add: mint_def cb_IsProofOfWork_def cb_IsProofOfStake_def toy_vtx toy_facts GetProofOfWorkReward_def toy_env_def
        FAIR_LAUNCH_BLOCK_def COIN_def c_div_def)
  have "\<forall>(E, pb, b) \<in> set [(toy_env, toy_pb2, block2), (toy_env, toy_pb1, block1)].
      \<forall>i < length (cb_vtx b). IsCoinStake (cb_vtx b ! i) \<longrightarrow> i = 1"
    by (simp add: toy_vtx toy_facts less_Suc_eq)
  moreover have "minted int_bn toy [(toy_env, toy_pb2, block2), (toy_env, toy_pb1, block1)] < 2 ^ 62"
    unfolding m by (simp add: COIN_def)
  ultimately show ?thesis using money_supply [OF openssl_int_bn toy_chain(2)] unfolding m by blast
qed

section \<open>Scripts\<close>

text \<open>
  C34. No script outside the limits is accepted, whatever it does: an accepted script has at most
  22,000 bytes, it is a sequence of whole instructions to the end, each pushes at most 520 bytes
  and is none of the disabled opcodes nor \<open>OP_VERIF\<close> or \<open>OP_VERNOTIF\<close>, also in branches that are
  not taken, and at most 201 of them are operations.
\<close>

theorem script_limits:
  assumes "EvalScript E stack script = Some s"
  shows "length script \<le> 22000 \<and>
    (\<exists>ops. script_ops script = Some ops \<and> list_all op_allowed ops \<and> length (filter op_counted ops) \<le> 201)"
  using EvalScript_limits [OF assms] by blast

lemma script_limits_witness:
  "\<exists>ops. script_ops [OP_DUP, OP_EQUAL] = Some ops \<and> list_all op_allowed ops \<and> length (filter op_counted ops) \<le> 201"
proof -
  let ?C = "\<lparr>RIPEMD160 = \<lambda>_. replicate 20 0, SHA1 = \<lambda>_. replicate 20 0, SHA256 = \<lambda>_. replicate 32 0, ECDSA_verify = \<lambda>_ _ _. True\<rparr>"
  let ?tx = "\<lparr>tx_nVersion = 1, tx_nTime = 0, vin = [], vout = [], nLockTime = 0, tx_nDoS = 0\<rparr>"
  let ?E = "\<lparr>se_bn = int_bn, se_crypto = ?C, se_checksig = \<lambda>_ _ _. True, se_txTo = ?tx, se_nIn = 0, se_flags = 0\<rparr>"
  have "EvalScript ?E [[5]] [OP_DUP, OP_EQUAL] = Some [vchTrue]"
    by (simp add: EvalScript_def loop_op disabled_opcodes_def exec_op_def op_stack_def op_equal_def)
  from script_limits [OF this] show ?thesis by blast
qed

text \<open>
  C35. The stack keeps its bounds: started on at most 1,000 elements of at most 520 bytes, an
  accepted script ends on such a stack, as the next script and the next opcode need it.
\<close>

theorem script_stack:
  assumes "openssl_bn (se_bn E) val" and "hash_lengths (se_crypto E)"
    and "elements_ok stack" and "length stack \<le> 1000" and "EvalScript E stack script = Some s"
  shows "elements_ok s \<and> length s \<le> 1000"
proof -
  from assms(5) obtain st where r: "runs E (start_state stack script) script st" "s = es_stack st"
    by (auto simp: EvalScript_runs)
  have "elements_ok (es_stack st)"
    using openssl_bn.runs_elements [OF assms(1) r(1) refl assms(2)] assms(3) by (simp add: start_state_def)
  moreover have "length (es_stack st) + length (es_altstack st) \<le> 1000"
    using assms(4) by (intro runs_size [OF r(1)]) (simp add: start_state_def)
  ultimately show ?thesis by (simp add: r(2))
qed

lemma script_stack_witness:
  "elements_ok [vchTrue] \<and> length [vchTrue] \<le> 1000"
proof -
  let ?C = "\<lparr>RIPEMD160 = \<lambda>_. replicate 20 0, SHA1 = \<lambda>_. replicate 20 0, SHA256 = \<lambda>_. replicate 32 0, ECDSA_verify = \<lambda>_ _ _. True\<rparr>"
  let ?tx = "\<lparr>tx_nVersion = 1, tx_nTime = 0, vin = [], vout = [], nLockTime = 0, tx_nDoS = 0\<rparr>"
  let ?E = "\<lparr>se_bn = int_bn, se_crypto = ?C, se_checksig = \<lambda>_ _ _. True, se_txTo = ?tx, se_nIn = 0, se_flags = 0\<rparr>"
  have "EvalScript ?E [[5]] [OP_DUP, OP_EQUAL] = Some [vchTrue]"
    by (simp add: EvalScript_def loop_op disabled_opcodes_def exec_op_def op_stack_def op_equal_def)
  from script_stack [OF _ _ _ _ this, where val = "\<lambda>x. x"] show ?thesis
    by (simp add: openssl_int_bn hash_lengths_def)
qed

text \<open>
  C36. The numbers of scripts. A number of at most four bytes is one value, and the arithmetic,
  boolean and comparison opcodes compute with these values, the result in its shortest bytes;
  a longer operand fails. \<open>CScriptNum\<close> writes the same shortest bytes as \<open>CBigNum\<close>, and reads
  back every number of at most four bytes.
\<close>

theorem script_arithmetic:
  assumes "openssl_bn bn val"
  shows "op_binary bn opcode (b # a # s) =
      (if length a \<le> 4 \<and> length b \<le> 4 then
         let r = binary_val opcode (num_val a) (num_val b)
         in if opcode = OP_NUMEQUALVERIFY then (if r \<noteq> 0 then Some s else None) else Some (script_num r # s)
       else None) \<and>
    op_unary bn opcode (a # s) =
      (if length a \<le> 4 then Some (script_num (unary_val opcode (num_val a)) # s) else None) \<and>
    op_within bn (c # b # a # s) =
      (if length a \<le> 4 \<and> length b \<le> 4 \<and> length c \<le> 4 then
         Some ((if num_val b \<le> num_val a \<and> num_val a < num_val c then vchTrue else vchFalse) # s)
       else None) \<and>
    CScriptNum_serialize v = script_num (sint v) \<and> getvch bn (setint64 bn v) = script_num (sint v) \<and>
    CScriptNum (CScriptNum_serialize v) f = (if \<bar>sint v\<bar> < 2 ^ 31 then Some v else None)"
proof -
  have "\<bar>val (setint64 bn v)\<bar> < 2 ^ 64"
    using sint_greater_eq [of v] sint_less [of v] by (simp add: openssl_bn.val_setint64 [OF assms])
  then have "getvch bn (setint64 bn v) = script_num (sint v)"
    using openssl_bn.getvch_num [OF assms] by (simp add: openssl_bn.val_setint64 [OF assms])
  moreover have "CScriptNum (CScriptNum_serialize v) f = (if \<bar>sint v\<bar> < 2 ^ 31 then Some v else None)"
    by (simp only: script_num_serialize CScriptNum_script_num) simp
  ultimately show ?thesis
    by (simp only: openssl_bn.op_binary_val [OF assms] openssl_bn.op_unary_val [OF assms]
        openssl_bn.op_within_val [OF assms] script_num_serialize simp_thms)
qed

lemma script_arithmetic_witness:
  "op_binary int_bn OP_ADD [script_num 1000, script_num (- 3000000)] = Some [script_num (- 2999000)] \<and>
   op_binary int_bn OP_ADD [[1], [1, 2, 3, 4, 5]] = None"
  using script_arithmetic [OF openssl_int_bn, where opcode = OP_ADD and b = "script_num 1000" and a = "script_num (- 3000000)" and s = "[]"]
    script_arithmetic [OF openssl_int_bn, where opcode = OP_ADD and b = "[1]" and a = "[1, 2, 3, 4, 5]" and s = "[]"]
  by (simp add: length_script_num binary_val_def)

text \<open>
  C37. The two standard forms of payments, for every choice of flags. The input with the pushes of a
  signature and a key, of at most 520 bytes each and the signature not the hash itself (its push would
  be deleted from the signed script), spends a payment to the hash of a key exactly when the key has
  the hash, key and signature are canonical and the signature verifies for the key and the whole
  script of the output. An input spends a payment to the hash of a script exactly when it only pushes,
  the last push is a script with the hash, fewer than 999 elements lie below it, and the script
  succeeds on them. The script is run also when \<open>SCRIPT_VERIFY_P2SH\<close> is not among the flags,
  against the comment on this flag and a test of the repository.
\<close>

theorem verify_payments:
  assumes "length h = 20"
  shows "(length sig \<le> 520 \<and> length pk \<le> 520 \<and> sig \<noteq> h \<longrightarrow>
      (VerifyScript E (pushes [sig, pk]) (p2pkh h) \<longleftrightarrow>
        bu_bytes (Hash160 (se_crypto E) pk) = h \<and> CheckSignatureEncoding sig \<and> CheckPubKeyEncoding pk \<and>
        se_checksig E sig pk (p2pkh h))) \<and>
    (VerifyScript E unlock (p2sh h) \<longleftrightarrow>
      IsPushOnly unlock \<and> (\<exists>script rest t s. EvalScript E [] unlock = Some (script # rest) \<and> length rest < 999 \<and>
        bu_bytes (Hash160 (se_crypto E) script) = h \<and> EvalScript E rest script = Some (t # s) \<and> CastToBool t))"
  using VerifyScript_p2pkh [OF assms] VerifyScript_p2sh [OF assms] by blast

lemma verify_payments_witness:
  "VerifyScript sample_script_env (pushes [sample_sig, 2 # replicate 32 5]) (p2pkh (replicate 20 7)) \<and>
   VerifyScript sample_script_env (pushes [[1, 1]]) (p2sh (replicate 20 7)) \<and>
   \<not> VerifyScript sample_script_env (pushes [[1, 11, 1, 12, OP_EQUALVERIFY]]) (p2sh (replicate 20 7))"
proof -
  have h: "length (replicate 20 (7 :: byte)) = 20" by simp
  note a = verify_payments [OF h, where E = sample_script_env]
  have "length sample_sig \<le> 520" "length (2 # replicate 32 (5 :: byte)) \<le> 520" by (simp_all add: sample_sig_def)
  with a [THEN conjunct1, of sample_sig "2 # replicate 32 5"] sample_encodings h
  have "VerifyScript sample_script_env (pushes [sample_sig, 2 # replicate 32 5]) (p2pkh (replicate 20 7))"
    by (simp only: sample_script_hash) (simp add: sample_script_env_def)
  moreover have "VerifyScript sample_script_env (pushes [[1, 1]]) (p2sh (replicate 20 7))"
    unfolding a [THEN conjunct2] using sample_script_runs sample_script_hash by (intro conjI exI [of _ "[1,1]"] exI [of _ "[]"] exI [of _ "[1]"]) simp_all
  moreover have "\<not> VerifyScript sample_script_env (pushes [[1, 11, 1, 12, OP_EQUALVERIFY]]) (p2sh (replicate 20 7))"
    unfolding a [THEN conjunct2] using sample_script_fails sample_script_runs(5) by auto
  ultimately show ?thesis by blast
qed

text \<open>
  C38. The standard scripts are recognised: the script of a destination is the payment to the hash
  of a key or of a script, and \<open>ExtractDestination\<close> gives the destination back; an empty or stealth
  destination has no script and none is read back. \<open>Solver\<close> returns the key of a payment to a key, of
  33 to 120 bytes, and the number of signatures, the keys and the number of keys of a
  multisignature script, which is standard with at most three keys.
\<close>

theorem solver_standard:
  assumes "length k = 5" and "33 \<le> length pk" and "length pk \<le> 120"
    and "1 \<le> m" and "m \<le> int (length keys)" and "length keys \<le> 16"
    and "\<forall>k \<in> set keys. 33 \<le> length k \<and> length k \<le> 120"
  shows "SetDestination (DestKeyID k) = p2pkh (bu_bytes k) \<and> SetDestination (DestScriptID k) = p2sh (bu_bytes k) \<and>
    ExtractDestination C (SetDestination (DestKeyID k)) = Some (DestKeyID k) \<and>
    ExtractDestination C (SetDestination (DestScriptID k)) = Some (DestScriptID k) \<and>
    ExtractDestination C (SetDestination NoDestination) = None \<and> ExtractDestination C (SetDestination (DestStealth a)) = None \<and>
    Solver (push_data [] pk @ [OP_CHECKSIG]) = (True, TX_PUBKEY, [pk]) \<and>
    (\<exists>script. SetMultisigpub m keys = Some script \<and>
      Solver script = (True, TX_MULTISIG, [word_of_int m] # keys @ [[of_nat (length keys)]]) \<and>
      fst (IsStandard script) = (length keys \<le> 3))"
  using SetDestination_scripts [OF assms(1)] ExtractDestination_SetDestination [OF assms(1), of C] ExtractDestination_no_script
    Solver_pubkey [OF assms(2,3)] Solver_multisig [OF assms(4-6)] assms(7) by (simp add: key_ok_def)

lemma solver_standard_witness:
  "ExtractDestination \<lparr>RIPEMD160 = id, SHA1 = id, SHA256 = id, ECDSA_verify = \<lambda>_ _ _. False\<rparr>
      (SetDestination (DestKeyID [1, 2, 3, 4, 5])) = Some (DestKeyID [1, 2, 3, 4, 5]) \<and>
   Solver (push_data [] (replicate 33 2) @ [OP_CHECKSIG]) = (True, TX_PUBKEY, [replicate 33 2]) \<and>
   (\<exists>script. SetMultisigpub 1 [replicate 33 2, replicate 65 4] = Some script \<and>
      Solver script = (True, TX_MULTISIG, [[1], replicate 33 2, replicate 65 4, [2]]))"
  using solver_standard [where k = "[1, 2, 3, 4, 5]" and pk = "replicate 33 2" and m = 1
      and keys = "[replicate 33 2, replicate 65 4]"
      and C = "\<lparr>RIPEMD160 = id, SHA1 = id, SHA256 = id, ECDSA_verify = \<lambda>_ _ _. False\<rparr>"
      and a = "\<lparr>st_options = 0, st_scan_pubkey = [], st_spend_pubkey = [], st_number_signatures = 0,
        st_prefix = \<lparr>sp_number_bits = 0, sp_bitfield = 0\<rparr>, st_label = [], st_scan_secret = [], st_spend_secret = []\<rparr>"]
  by auto

text \<open>
  C39. With the flag set, \<open>CHECKLOCKTIMEVERIFY\<close> on a number accepts exactly the numbers from 0 to
  \<open>2\<^sup>3\<^sup>1 - 1\<close> that are of the same kind as the lock time of the transaction and not above it, when
  the input is not final; without the flag it does nothing. Numbers of five bytes, which the
  comment means to allow up to \<open>2\<^sup>3\<^sup>2 - 1\<close>, are refused.
\<close>

theorem check_lock_time:
  "op_checklocktime tx n flags (script_num t # s) =
    (if flags AND SCRIPT_VERIFY_CHECKLOCKTIMEVERIFY = 0 \<or>
        0 \<le> t \<and> t < 2 ^ 31 \<and> (uint (nLockTime tx) < LOCKTIME_THRESHOLD \<longleftrightarrow> t < LOCKTIME_THRESHOLD) \<and>
        t \<le> uint (nLockTime tx) \<and> \<not> CTxIn_IsFinal (vin tx ! n)
     then Some (script_num t # s) else None)"
  by (rule op_checklocktime_spec)

lemma check_lock_time_witness:
  "op_checklocktime
      \<lparr>tx_nVersion = 1, tx_nTime = 0, vin = [CTxIn_new COutPoint_null [] 0], vout = [], nLockTime = 4000000000, tx_nDoS = 0\<rparr>
      0 SCRIPT_VERIFY_CHECKLOCKTIMEVERIFY [script_num 3000000000] = None \<and>
   op_checklocktime
      \<lparr>tx_nVersion = 1, tx_nTime = 0, vin = [CTxIn_new COutPoint_null [] 0], vout = [], nLockTime = 4000000000, tx_nDoS = 0\<rparr>
      0 SCRIPT_VERIFY_CHECKLOCKTIMEVERIFY [script_num 1600000000] = Some [script_num 1600000000]"
  by (simp add: check_lock_time LOCKTIME_THRESHOLD_def CTxIn_IsFinal_def CTxIn_new_def)

text \<open>
  C40. The cache of signatures. While its entries were verified and are in the order of the set, and
  SHA-256 gives 32 bytes,
  \<open>CheckSig\<close> accepts exactly when the key is valid, the type of the hash is the one asked for and the
  signature verifies for the hash of the transaction, whatever the cache holds and the random hashes
  are; the cache keeps this invariant and gets no entry but the verified one. An accepted signature
  is in the cache afterwards if the cache is switched on and the flag against it is not set. The
  eviction ends and keeps the bound of one entry more than the maximal size. Without a check that
  succeeds, for an entry that was found, with the flag, or with a size that is not positive, the cache
  does not change.
\<close>

theorem signature_cache:
  assumes "\<forall>x. length (SHA256 C x) = 32" and "cache_ok C S"
  shows "(let h = SignatureHash C code tx nIn (ucast (last sig)); p = CPubKey_Set pk; entry = (h, butlast sig, p);
          (accepted, S') = CheckSig C n rnd S tx nIn ht flags sig pk code
      in (accepted \<longleftrightarrow> sig \<noteq> [] \<and> (ht = 0 \<or> ht = ucast (last sig)) \<and> CPubKey_IsValid p \<and> ECDSA_verify C p h (butlast sig)) \<and>
        cache_ok C S' \<and> set S' \<subseteq> insert entry (set S) \<and>
        (accepted \<and> 0 < n \<and> flags AND SCRIPT_VERIFY_NOCACHE = 0 \<longrightarrow> entry \<in> set S') \<and>
        (0 < n \<and> int (length S) \<le> n + 1 \<longrightarrow> int (length S') \<le> n + 1) \<and>
        (\<not> accepted \<or> entry \<in> set S \<or> flags AND SCRIPT_VERIFY_NOCACHE \<noteq> 0 \<or> n \<le> 0 \<longrightarrow> S' = S))"
proof -
  let ?h = "SignatureHash C code tx nIn (ucast (last sig))" and ?p = "CPubKey_Set pk"
  have ok: "sigdata_ok (?h, butlast sig, ?p)" using length_SignatureHash [OF assms(1)] by simp
  note set = sigcache_Set_laws [OF assms(2) ok]
  have v: "CPubKey_IsValid ?p \<Longrightarrow> ECDSA_verify C ?p ?h (butlast sig) \<Longrightarrow> CPubKey_Verify C ?p ?h (butlast sig)"
    by (simp add: CPubKey_Verify_def)
  have "n \<le> 0 \<Longrightarrow> sigcache_Set n rnd S ?h (butlast sig) ?p = S" by (simp add: sigcache_Set_def)
  then show ?thesis
    using assms(2) set(1-4) [OF v, of n rnd] unfolding CheckSig_laws [OF assms] Let_def
    by (cases "0 < n") auto
qed

lemma signature_cache_witness:
  "(let (accepted, S') = CheckSig sample_verifier 1 (\<lambda>_. [5, 0, 0, 0, 0, 0, 0, 0]) [sample_entry 0 9, sample_entry 1 4]
          sample_tx 0 0 0 [8, 1] sample_key []
    in accepted \<and> sample_entry 1 8 \<in> set S' \<and> length S' \<le> 2) \<and>
   CheckSig sample_verifier 1 (\<lambda>_. [5, 0, 0, 0, 0, 0, 0, 0]) [sample_entry 0 9, sample_entry 1 4] sample_tx 0 0 0 [4, 1] sample_key []
     = (True, [sample_entry 0 9, sample_entry 1 4])"
proof -
  let ?S = "[sample_entry 0 9, sample_entry 1 4]" and ?r = "\<lambda>_ :: nat. [5, 0, 0, 0, 0, 0, 0, 0] :: base_uint"
  have l: "\<forall>x. length (SHA256 sample_verifier x) = 32" by (simp add: sample_verifier_def)
  note c = signature_cache [OF l sample_cache, where tx = sample_tx and nIn = 0 and code = "[]" and n = 1 and rnd = ?r
      and flags = 0 and ht = 0 and pk = sample_key]
  have k: "CPubKey_IsValid (CPubKey_Set sample_key)" "ECDSA_verify sample_verifier p h [s]" for p h s
    by (simp_all add: CPubKey_IsValid_def CPubKey_Set_def sample_key_def CPubKey_GetLen_def sample_verifier_def)
  obtain a S' where r: "CheckSig sample_verifier 1 ?r ?S sample_tx 0 0 0 [8, 1] sample_key [] = (a, S')" by fastforce
  obtain a2 S2 where r2: "CheckSig sample_verifier 1 ?r ?S sample_tx 0 0 0 [4, 1] sample_key [] = (a2, S2)" by fastforce
  from c [of "[8, 1]"] have "a" "sample_entry 1 8 \<in> set S'" "length S' \<le> 2"
    by (simp_all add: Let_def r sample_entry_eq k)
  from c [of "[4, 1]"] have "a2" "S2 = ?S" by (simp_all add: Let_def r2 sample_entry_eq k)
  then show ?thesis using \<open>a\<close> \<open>sample_entry 1 8 \<in> set S'\<close> \<open>length S' \<le> 2\<close> by (simp add: r r2)
qed

end
